(* ===== verification/Prelude.thy ===== *)
theory Prelude
  imports Main "HOL-Library.Word"
begin

text \<open>
  Shared vocabulary of the development: results of fallible code, C++ integer
  arithmetic, decimal printing and reading, and UTF-8 literals.

  \<^item> A C++ function that throws is a function into \<open>'e + 'a\<close>: \<open>Inl\<close> is the
    exception, \<open>Inr\<close> the returned value; \<open>rbind\<close> sequences two such calls.
  \<^item> \<open>long long\<close> is \<open>int\<close>; \<open>in_ll\<close> is its 64-bit range. Signed overflow is
    undefined behaviour in C++, so the checked operations return
    \<open>Inl SignedOverflow\<close> there. Division and remainder truncate (\<open>cdiv\<close>, \<open>cmod\<close>).
  \<^item> \<open>std::string\<close> is \<open>string\<close>, a list of bytes.
\<close>

named_theorems cxx_simps
named_theorems dec_simps

section \<open>Results\<close>

definition rbind :: "'e + 'a \<Rightarrow> ('a \<Rightarrow> 'e + 'b) \<Rightarrow> 'e + 'b" where
  "rbind x f = (case x of Inl e \<Rightarrow> Inl e | Inr a \<Rightarrow> f a)"

lemma rbind_simps [simp]:
  "rbind (Inl e) f = Inl e"
  "rbind (Inr a) f = f a"
  by (simp_all add: rbind_def)

lemma rbind_Inr_iff: "rbind x f = Inr b \<longleftrightarrow> (\<exists>a. x = Inr a \<and> f a = Inr b)"
  by (cases x) simp_all

lemma rbind_InrE [elim!]:
  assumes "rbind x f = Inr b"
  obtains a where "x = Inr a" and "f a = Inr b"
  using assms by (auto simp: rbind_Inr_iff)

lemma rbind_Inl_iff:
  "rbind x f = Inl e \<longleftrightarrow> x = Inl e \<or> (\<exists>a. x = Inr a \<and> f a = Inl e)"
  by (cases x) simp_all

section \<open>C++ integers\<close>

definition in_ll :: "int \<Rightarrow> bool" where
  "in_ll x \<longleftrightarrow> - (2 ^ 63) \<le> x \<and> x < 2 ^ 63"

definition cdiv :: "int \<Rightarrow> int \<Rightarrow> int" where
  "cdiv a b = sgn a * sgn b * (\<bar>a\<bar> div \<bar>b\<bar>)"

definition cmod :: "int \<Rightarrow> int \<Rightarrow> int" where
  "cmod a b = a - b * cdiv a b"

lemma cdiv_nonneg [simp, cxx_simps]: "0 \<le> a \<Longrightarrow> 0 < b \<Longrightarrow> cdiv a b = a div b"
  by (cases "a = 0") (simp_all add: cdiv_def)

lemma cmod_nonneg [simp, cxx_simps]: "0 \<le> a \<Longrightarrow> 0 < b \<Longrightarrow> cmod a b = a mod b"
  by (simp add: cmod_def minus_mult_div_eq_mod)

lemma in_llI: "- 9223372036854775808 \<le> x \<Longrightarrow> x \<le> 9223372036854775807 \<Longrightarrow> in_ll x"
  by (simp add: in_ll_def)

section \<open>Lists\<close>

lemma zip_nth_in: "i < length xs \<Longrightarrow> length ys = length xs \<Longrightarrow> ys ! i = y \<Longrightarrow> (xs ! i, y) \<in> set (zip xs ys)"
  by (auto simp: in_set_zip)

lemma key_eqD: "distinct (map f xs) \<Longrightarrow> f x = f y \<Longrightarrow> x \<in> set xs \<Longrightarrow> y \<in> set xs \<Longrightarrow> x = y"
  by (simp add: distinct_map inj_on_def)

section \<open>Decimal digits\<close>

definition isdigit :: "char \<Rightarrow> bool" where
  "isdigit c \<longleftrightarrow> 48 \<le> (of_char c :: nat) \<and> (of_char c :: nat) \<le> 57"

definition digit_char :: "nat \<Rightarrow> char" where
  "digit_char d = char_of (48 + d)"

definition digit_val :: "char \<Rightarrow> nat" where
  "digit_val c = of_char c - 48"

lemma of_digit_char: "d < 10 \<Longrightarrow> of_char (digit_char d) = (48 + d :: nat)"
  by (simp add: digit_char_def)

lemma digit_char_table [dec_simps]:
  "digit_char 0 = CHR ''0''" "digit_char (Suc 0) = CHR ''1''" "digit_char 1 = CHR ''1''"
  "digit_char 2 = CHR ''2''" "digit_char 3 = CHR ''3''" "digit_char 4 = CHR ''4''"
  "digit_char 5 = CHR ''5''" "digit_char 6 = CHR ''6''" "digit_char 7 = CHR ''7''"
  "digit_char 8 = CHR ''8''" "digit_char 9 = CHR ''9''"
  by (simp_all add: digit_char_def char_of_eq_iff)

lemma digit_val_digit_char [simp]: "d < 10 \<Longrightarrow> digit_val (digit_char d) = d"
  by (simp add: digit_val_def of_digit_char)

lemma isdigit_digit_char [simp]: "d < 10 \<Longrightarrow> isdigit (digit_char d)"
  by (simp add: isdigit_def of_digit_char)

lemma digit_val_less: "isdigit c \<Longrightarrow> digit_val c < 10"
  by (auto simp: isdigit_def digit_val_def)

lemma digit_char_digit_val [simp]: "isdigit c \<Longrightarrow> digit_char (digit_val c) = c"
  by (simp add: isdigit_def digit_char_def digit_val_def)

text \<open>\<open>std::to_string\<close> and \<open>%lld\<close> on a non-negative value.\<close>

fun dec :: "nat \<Rightarrow> string" where
  "dec n = (if n < 10 then [digit_char n] else dec (n div 10) @ [digit_char (n mod 10)])"

declare dec.simps [simp del]

text \<open>\<open>%02lld\<close> and \<open>%04d\<close>: at least two and four digits, zero padded.\<close>

definition pad_left :: "nat \<Rightarrow> string \<Rightarrow> string" where
  "pad_left k s = replicate (k - length s) (CHR ''0'') @ s"

definition dec02 :: "nat \<Rightarrow> string" where
  "dec02 n = pad_left 2 (dec n)"

definition dec04 :: "nat \<Rightarrow> string" where
  "dec04 n = pad_left 4 (dec n)"

text \<open>The value of a digit string, as \<open>std::stoll\<close> reads it.\<close>

definition dec_val :: "string \<Rightarrow> nat" where
  "dec_val s = foldl (\<lambda>a c. 10 * a + digit_val c) 0 s"

lemma dec_small [dec_simps]: "n < 10 \<Longrightarrow> dec n = [digit_char n]"
  by (simp add: dec.simps [of n])

lemma dec_big [dec_simps]: "10 \<le> n \<Longrightarrow> dec n = dec (n div 10) @ [digit_char (n mod 10)]"
  by (simp add: dec.simps [of n])

lemma dec_val_Nil [simp]: "dec_val [] = 0"
  by (simp add: dec_val_def)

lemma dec_val_snoc [simp]: "dec_val (s @ [c]) = 10 * dec_val s + digit_val c"
  by (simp add: dec_val_def)

lemma dec_val_append: "dec_val (s @ t) = dec_val s * 10 ^ length t + dec_val t"
  by (induction t rule: rev_induct) (simp_all add: algebra_simps flip: append_assoc)

lemma dec_nonempty [simp]: "dec n \<noteq> []"
  by (simp add: dec.simps [of n])

lemma dec_val_dec [simp]: "dec_val (dec n) = n"
proof (induction n rule: dec.induct)
  case (1 n)
  show ?case
  proof (cases "n < 10")
    case True
    then have "dec n = [] @ [digit_char n]" by (simp add: dec_small)
    then show ?thesis using True by (simp only: dec_val_snoc) simp
  next
    case False
    with 1 show ?thesis by (simp add: dec_big)
  qed
qed

lemma dec_inject [simp]: "dec m = dec n \<longleftrightarrow> m = n"
  by (metis dec_val_dec)

lemma dec_all_digits: "\<forall>c \<in> set (dec n). isdigit c"
proof (induction n rule: dec.induct)
  case (1 n)
  then show ?case by (cases "n < 10") (auto simp: dec_simps)
qed

lemma dec_set_isdigit [simp]: "c \<in> set (dec n) \<Longrightarrow> isdigit c"
  using dec_all_digits by blast

lemma length_dec_le: "n < 10 ^ k \<Longrightarrow> 0 < k \<Longrightarrow> length (dec n) \<le> k"
proof (induction k arbitrary: n)
  case (Suc k)
  show ?case
  proof (cases "n < 10")
    case False
    then have "0 < k" using Suc.prems by (cases k) auto
    moreover have "n div 10 < 10 ^ k" using Suc.prems by (simp add: less_mult_imp_div_less mult.commute)
    ultimately show ?thesis using Suc.IH [of "n div 10"] False by (simp add: dec_big)
  qed (simp add: dec_small)
qed simp

lemma dec_val_bound: "\<forall>c \<in> set s. isdigit c \<Longrightarrow> dec_val s < 10 ^ length s"
proof (induction s rule: rev_induct)
  case (snoc c s)
  then have "dec_val s < 10 ^ length s" and "digit_val c < 10"
    by (simp_all add: digit_val_less)
  then show ?case by simp
qed simp

lemma dec_val_zeros [simp]: "dec_val (replicate k (CHR ''0'') @ s) = dec_val s"
proof (induction k)
  case (Suc k)
  have "dec_val (replicate (Suc k) (CHR ''0'') @ s) = dec_val (CHR ''0'' # (replicate k (CHR ''0'') @ s))"
    by simp
  also have "\<dots> = dec_val (replicate k (CHR ''0'') @ s)"
    by (simp add: dec_val_def digit_val_def)
  finally show ?case using Suc by simp
qed simp

lemma isdigit_zero [simp]: "isdigit (CHR ''0'')"
  by (simp add: isdigit_def)

lemma not_isdigit_punct [simp]:
  "\<not> isdigit (CHR ''.'')" "\<not> isdigit (CHR '' '')" "\<not> isdigit (CHR '','')" "\<not> isdigit (CHR ''-'')"
  by (simp_all add: isdigit_def)

lemma dec_val_pad_left [simp]: "dec_val (pad_left k s) = dec_val s"
  by (simp add: pad_left_def)

lemma dec02_props:
  assumes "n < 100"
  shows "length (dec02 n) = 2" and "dec_val (dec02 n) = n" and "\<forall>c \<in> set (dec02 n). isdigit c"
proof -
  have "length (dec n) \<le> 2" using assms length_dec_le [of n 2] by simp
  then show "length (dec02 n) = 2" by (simp add: dec02_def pad_left_def)
qed (auto simp: dec02_def pad_left_def)

lemma dec02_inject: "dec02 m = dec02 n \<longleftrightarrow> m = n"
  by (metis dec02_def dec_val_dec dec_val_pad_left)

section \<open>UTF-8 literals\<close>

text \<open>
  The sources hold Russian and Kazakh words as UTF-8; here a word is written as its
  code points and encoded to the bytes the C++ literal has.
\<close>

definition utf8_cp :: "nat \<Rightarrow> string" where
  "utf8_cp n =
     (if n < 128 then [char_of n]
      else if n < 2048 then [char_of (192 + n div 64), char_of (128 + n mod 64)]
      else [char_of (224 + n div 4096), char_of (128 + n div 64 mod 64), char_of (128 + n mod 64)])"

definition utf8 :: "nat list \<Rightarrow> string" where
  "utf8 ns = concat (map utf8_cp ns)"

definition two_byte :: "nat list \<Rightarrow> bool" where
  "two_byte ns \<longleftrightarrow> (\<forall>n \<in> set ns. 128 \<le> n \<and> n < 2048)"

lemma utf8_cp_two_byte:
  assumes "128 \<le> n" "n < 2048"
  obtains a b where "utf8_cp n = [a, b]" and "of_char a = 192 + n div 64" and "of_char b = 128 + n mod 64"
  using assms that [of "char_of (192 + n div 64)" "char_of (128 + n mod 64)"]
  by (simp add: utf8_cp_def)

lemma utf8_cp_inject:
  assumes "128 \<le> m" "m < 2048" "128 \<le> n" "n < 2048"
  shows "utf8_cp m @ s = utf8_cp n @ t \<longleftrightarrow> m = n \<and> s = t"
proof -
  obtain a b where m: "utf8_cp m = [a, b]" "of_char a = 192 + m div 64" "of_char b = 128 + m mod 64"
    using assms(1,2) by (rule utf8_cp_two_byte)
  obtain c d where n: "utf8_cp n = [c, d]" "of_char c = 192 + n div 64" "of_char d = 128 + n mod 64"
    using assms(3,4) by (rule utf8_cp_two_byte)
  have "m = n" if "a = c" "b = d"
  proof -
    have "m div 64 = n div 64" "m mod 64 = n mod 64" using m n that by simp_all
    then show ?thesis by (metis div_mult_mod_eq)
  qed
  moreover have "a = c" "b = d" if "m = n" using m n that by auto
  ultimately show ?thesis using m n by auto
qed

lemma utf8_inject: "two_byte ms \<Longrightarrow> two_byte ns \<Longrightarrow> utf8 ms = utf8 ns \<longleftrightarrow> ms = ns"
proof (induction ms arbitrary: ns)
  case Nil
  then show ?case by (cases ns) (auto simp: utf8_def two_byte_def utf8_cp_def)
next
  case (Cons m ms)
  show ?case
  proof (cases ns)
    case Nil
    with Cons.prems show ?thesis by (auto simp: utf8_def two_byte_def utf8_cp_def)
  next
    case (Cons n ns')
    with Cons.prems have "utf8 (m # ms) = utf8 ns \<longleftrightarrow> m = n \<and> utf8 ms = utf8 ns'"
      by (simp add: utf8_def two_byte_def utf8_cp_inject)
    with Cons Cons.prems Cons.IH [of ns'] show ?thesis by (simp add: two_byte_def)
  qed
qed

lemma utf8_high: "two_byte ks \<Longrightarrow> c \<in> set (utf8 ks) \<Longrightarrow> 128 \<le> (of_char c :: nat)"
proof (induction ks)
  case (Cons k ks)
  then have k: "128 \<le> k" "k < 2048" by (simp_all add: two_byte_def)
  obtain a b where "utf8_cp k = [a, b]" "of_char a = 192 + k div 64" "of_char b = 128 + k mod 64"
    using k by (rule utf8_cp_two_byte)
  with Cons show ?case by (auto simp: utf8_def two_byte_def)
qed (simp add: utf8_def)

lemma distinct_map_utf8: "list_all two_byte nss \<Longrightarrow> distinct nss \<Longrightarrow> distinct (map utf8 nss)"
  by (auto simp: distinct_map list_all_iff inj_on_def utf8_inject)

end
