(* ===== verification/MoneyFormat.thy ===== *)
theory MoneyFormat
  imports Prelude
begin

text \<open>
  Model of \<^verbatim>\<open>src/src/money/MoneyFormat.hpp\<close>: whole tiyn printed as tenge in thousands
  groups, a comma and two digits of tiyn. The two throwing guards of the money
  functions are the two errors of \<open>money_error\<close>; the texts of the exceptions are left out.
\<close>

datatype money_error = NegativeAmount | AmountOutOfRange

section \<open>Printed amounts\<close>

text \<open>
  The grouping loop of \<open>format_tiyn_ru\<close> runs over the digits from the right and
  \<open>std::reverse\<close> turns the result round; \<open>taken\<close> counts the digits pushed.
\<close>

fun group_digits :: "nat \<Rightarrow> string \<Rightarrow> string \<Rightarrow> string" where
  "group_digits taken grouped [] = grouped"
| "group_digits taken grouped (c # cs) =
     (let grouped = (if taken > 0 \<and> taken mod 3 = 0 then grouped @ '' '' else grouped)
      in group_digits (Suc taken) (grouped @ [c]) cs)"

definition format_tiyn_ru :: "int \<Rightarrow> money_error + string" where
  "format_tiyn_ru tiyn =
     (if tiyn < 0 then Inl NegativeAmount
      else
        let whole = cdiv tiyn 100;
            frac = cmod tiyn 100;
            digits = dec (nat whole);
            grouped = rev (group_digits 0 [] (rev digits))
        in Inr (grouped @ '','' @ dec02 (nat frac)))"

section \<open>The printed amount\<close>

text \<open>A reference for the grouping loop: thousands groups from the left.\<close>

fun thousands :: "nat \<Rightarrow> string" where
  "thousands n =
     (if n < 1000 then dec n else thousands (n div 1000) @ '' '' @ pad_left 3 (dec (n mod 1000)))"

declare thousands.simps [simp del]

lemma group_digits_acc: "group_digits k g cs = g @ group_digits k [] cs"
proof (induction cs arbitrary: k g)
  case (Cons c cs)
  show ?case
    unfolding group_digits.simps Let_def Cons.IH [of "Suc k" "(_ :: string) @ _"] by simp
qed simp

lemma group_digits_Cons:
  "group_digits k [] (c # cs) =
     (if 0 < k \<and> k mod 3 = 0 then '' '' else []) @ c # group_digits (Suc k) [] cs"
  unfolding group_digits.simps Let_def group_digits_acc [of "Suc k" "(_ :: string) @ _"] by simp

lemma group_digits_add3: "0 < k \<Longrightarrow> group_digits (3 + k) [] cs = group_digits k [] cs"
proof (induction cs arbitrary: k)
  case (Cons c cs)
  have "group_digits (Suc (3 + k)) [] cs = group_digits (Suc k) [] cs"
    using Cons.IH [of "Suc k"] by simp
  then show ?case using Cons.prems by (simp only: group_digits_Cons) simp
qed simp

lemma group_digits_3: "cs \<noteq> [] \<Longrightarrow> group_digits 3 [] cs = '' '' @ group_digits 0 [] cs"
proof (cases cs)
  case (Cons c ds)
  have "group_digits (Suc 3) [] ds = group_digits (Suc 0) [] ds"
    using group_digits_add3 [of 1 ds] by simp
  then show ?thesis unfolding Cons group_digits_Cons by simp
qed simp

lemma group_digits_triple:
  assumes "length t = 3" "cs \<noteq> []"
  shows "group_digits 0 [] (t @ cs) = t @ '' '' @ group_digits 0 [] cs"
proof -
  from assms(1) obtain a b c where "t = [a, b, c]" by (auto simp: length_Suc_conv numeral_3_eq_3)
  moreover have "group_digits (Suc (Suc (Suc 0))) [] cs = '' '' @ group_digits 0 [] cs"
    using group_digits_3 [OF assms(2)] by (simp only: numeral_3_eq_3)
  ultimately show ?thesis by (simp only: append.simps group_digits_Cons) simp
qed

lemma group_digits_short: "length cs \<le> 3 \<Longrightarrow> group_digits 0 [] cs = cs"
proof -
  assume "length cs \<le> 3"
  then consider "cs = []" | a where "cs = [a]" | a b where "cs = [a, b]" | a b c where "cs = [a, b, c]"
    by (cases cs; cases "tl cs"; cases "tl (tl cs)") auto
  then show ?thesis by cases (simp_all only: group_digits_Cons, simp_all)
qed

lemma pad_left_dec3: "n < 1000 \<Longrightarrow> length (pad_left 3 (dec n)) = 3"
  using length_dec_le [of n 3] by (simp add: pad_left_def)

lemma dec_div_1000:
  assumes "1000 \<le> n"
  shows "dec n = dec (n div 1000) @ pad_left 3 (dec (n mod 1000))"
proof -
  have p1: "pad_left (Suc k) (dec m) = pad_left k (dec (m div 10)) @ [digit_char (m mod 10)]"
    if "0 < k" for k m
  proof (cases "m < 10")
    case True
    have "replicate k (CHR ''0'') = replicate (k - 1) (CHR ''0'') @ [CHR ''0'']"
      using that by (metis Suc_pred' replicate_Suc replicate_append_same)
    then show ?thesis using True by (simp add: pad_left_def dec_small digit_char_table)
  qed (simp add: pad_left_def dec_big)
  define q where "q = n div 1000"
  define a where "a = n mod 1000"
  have n: "n = 1000 * q + a" and a: "a < 1000" and q: "0 < q"
    using assms by (simp_all add: q_def a_def div_greater_zero_iff)
  have split3: "dec (1000 * q + a) = dec q @ [digit_char (a div 10 div 10), digit_char (a div 10 mod 10), digit_char (a mod 10)]"
  proof -
    have e: "10 * x + y = z \<Longrightarrow> y < 10 \<Longrightarrow> 0 < x \<Longrightarrow> dec z = dec x @ [digit_char y]" for x y z :: nat
      by (auto simp: dec_big)
    have a10: "a div 10 < 100" "a div 10 div 10 < 10" using a by (simp_all add: less_mult_imp_div_less)
    have "dec (1000 * q + a) = dec (100 * q + a div 10) @ [digit_char (a mod 10)]"
      by (rule e) (use q in simp_all)
    moreover have "dec (100 * q + a div 10) = dec (10 * q + a div 10 div 10) @ [digit_char (a div 10 mod 10)]"
      by (rule e) (use q in \<open>simp_all add: algebra_simps\<close>)
    moreover have "dec (10 * q + a div 10 div 10) = dec q @ [digit_char (a div 10 div 10)]"
      by (rule e) (use q a10 in simp_all)
    ultimately show ?thesis by simp
  qed
  moreover have "pad_left 3 (dec a) =
      [digit_char (a div 10 div 10), digit_char (a div 10 mod 10), digit_char (a mod 10)]"
  proof -
    have "pad_left 3 (dec a) = pad_left 1 (dec (a div 10 div 10)) @ [digit_char (a div 10 mod 10), digit_char (a mod 10)]"
      using p1 [of 2 a] p1 [of 1 "a div 10"] by (simp add: numeral_3_eq_3 numeral_2_eq_2)
    moreover have "a div 10 div 10 < 10" using a by (simp add: less_mult_imp_div_less)
    ultimately show ?thesis by (simp add: pad_left_def dec_small)
  qed
  ultimately show ?thesis unfolding n [symmetric] q_def a_def by simp
qed

lemma group_digits_thousands: "rev (group_digits 0 [] (rev (dec n))) = thousands n"
proof (induction n rule: thousands.induct)
  case (1 n)
  show ?case
  proof (cases "n < 1000")
    case True
    then show ?thesis using length_dec_le [of n 3] by (simp add: thousands.simps [of n] group_digits_short)
  next
    case False
    then have d: "dec n = dec (n div 1000) @ pad_left 3 (dec (n mod 1000))" by (simp add: dec_div_1000)
    have "length (rev (pad_left 3 (dec (n mod 1000)))) = 3" using pad_left_dec3 [of "n mod 1000"] by simp
    from group_digits_triple [OF this, of "rev (dec (n div 1000))"] show ?thesis
      using 1 False by (simp add: d thousands.simps [of n])
  qed
qed

text \<open>
  \<open>format_tiyn_ru\<close> rejects exactly the negative amounts; on every other amount its
  right-to-left grouping loop prints the thousands groups of the tenge, a comma and the
  two digits of the tiyn.
\<close>

theorem format_tiyn_ru_groups:
  "format_tiyn_ru tiyn =
     (if tiyn < 0 then Inl NegativeAmount
      else Inr (thousands (nat (tiyn div 100)) @ '','' @ dec02 (nat (tiyn mod 100))))"
  unfolding format_tiyn_ru_def Let_def group_digits_thousands by simp

end
