(* ===== verification/AmountInWords.thy ===== *)
theory AmountInWords
  imports MoneyFormat
begin

text \<open>
  Model of \<^verbatim>\<open>src/src/money/AmountInWords.hpp\<close>: the Russian and Kazakh "amount in words"
  of a whole number of tiyn.

  The words are bytes (UTF-8), as in the C++ literals; the vectors of words are lists,
  extended at the end as \<open>emplace_back\<close> does. The two throwing guards of
  \<open>to_words_ru\<close>/\<open>to_words_kk\<close> are the two errors of \<open>money_error\<close>; the texts of
  the exceptions are left out.

  The interface locale \<open>spoken_amount\<close> states what a language must promise so that the
  printed text determines the amount; both languages interpret it.
\<close>

section \<open>Words and scales\<close>

definition kMaxTiyn :: int where
  "kMaxTiyn = 100000000000000"

definition kTriadCount :: nat where
  "kTriadCount = 5"

record RuScale =
  forms :: "string list"
  feminine :: bool

record KkScale =
  scale_word :: string
  drop_one :: bool

text \<open>\<open>kRuUnits\<close>: nol, odin, dva, tri, chetyre, pjat, shest, sem, vosem, devjat, desjat, odinnadcat, dvenadcat, trinadcat, chetyrnadcat, pjatnadcat, shestnadcat, semnadcat, vosemnadcat, devjatnadcat.\<close>

definition kRuUnits :: "string list" where
  "kRuUnits =
    [utf8 [0x43D, 0x43E, 0x43B, 0x44C],
     utf8 [0x43E, 0x434, 0x438, 0x43D],
     utf8 [0x434, 0x432, 0x430],
     utf8 [0x442, 0x440, 0x438],
     utf8 [0x447, 0x435, 0x442, 0x44B, 0x440, 0x435],
     utf8 [0x43F, 0x44F, 0x442, 0x44C],
     utf8 [0x448, 0x435, 0x441, 0x442, 0x44C],
     utf8 [0x441, 0x435, 0x43C, 0x44C],
     utf8 [0x432, 0x43E, 0x441, 0x435, 0x43C, 0x44C],
     utf8 [0x434, 0x435, 0x432, 0x44F, 0x442, 0x44C],
     utf8 [0x434, 0x435, 0x441, 0x44F, 0x442, 0x44C],
     utf8 [0x43E, 0x434, 0x438, 0x43D, 0x43D, 0x430, 0x434, 0x446, 0x430, 0x442, 0x44C],
     utf8 [0x434, 0x432, 0x435, 0x43D, 0x430, 0x434, 0x446, 0x430, 0x442, 0x44C],
     utf8 [0x442, 0x440, 0x438, 0x43D, 0x430, 0x434, 0x446, 0x430, 0x442, 0x44C],
     utf8 [0x447, 0x435, 0x442, 0x44B, 0x440, 0x43D, 0x430, 0x434, 0x446, 0x430, 0x442, 0x44C],
     utf8 [0x43F, 0x44F, 0x442, 0x43D, 0x430, 0x434, 0x446, 0x430, 0x442, 0x44C],
     utf8 [0x448, 0x435, 0x441, 0x442, 0x43D, 0x430, 0x434, 0x446, 0x430, 0x442, 0x44C],
     utf8 [0x441, 0x435, 0x43C, 0x43D, 0x430, 0x434, 0x446, 0x430, 0x442, 0x44C],
     utf8 [0x432, 0x43E, 0x441, 0x435, 0x43C, 0x43D, 0x430, 0x434, 0x446, 0x430, 0x442, 0x44C],
     utf8 [0x434, 0x435, 0x432, 0x44F, 0x442, 0x43D, 0x430, 0x434, 0x446, 0x430, 0x442, 0x44C]]"

text \<open>\<open>kRuTens\<close>: (empty), (empty), dvadcat, tridcat, sorok, pjatdesjat, shestdesjat, semdesjat, vosemdesjat, devjanosto.\<close>

definition kRuTens :: "string list" where
  "kRuTens =
    [[],
     [],
     utf8 [0x434, 0x432, 0x430, 0x434, 0x446, 0x430, 0x442, 0x44C],
     utf8 [0x442, 0x440, 0x438, 0x434, 0x446, 0x430, 0x442, 0x44C],
     utf8 [0x441, 0x43E, 0x440, 0x43E, 0x43A],
     utf8 [0x43F, 0x44F, 0x442, 0x44C, 0x434, 0x435, 0x441, 0x44F, 0x442],
     utf8 [0x448, 0x435, 0x441, 0x442, 0x44C, 0x434, 0x435, 0x441, 0x44F, 0x442],
     utf8 [0x441, 0x435, 0x43C, 0x44C, 0x434, 0x435, 0x441, 0x44F, 0x442],
     utf8 [0x432, 0x43E, 0x441, 0x435, 0x43C, 0x44C, 0x434, 0x435, 0x441, 0x44F, 0x442],
     utf8 [0x434, 0x435, 0x432, 0x44F, 0x43D, 0x43E, 0x441, 0x442, 0x43E]]"

text \<open>\<open>kRuHundreds\<close>: (empty), sto, dvesti, trista, chetyresta, pjatsot, shestsot, semsot, vosemsot, devjatsot.\<close>

definition kRuHundreds :: "string list" where
  "kRuHundreds =
    [[],
     utf8 [0x441, 0x442, 0x43E],
     utf8 [0x434, 0x432, 0x435, 0x441, 0x442, 0x438],
     utf8 [0x442, 0x440, 0x438, 0x441, 0x442, 0x430],
     utf8 [0x447, 0x435, 0x442, 0x44B, 0x440, 0x435, 0x441, 0x442, 0x430],
     utf8 [0x43F, 0x44F, 0x442, 0x44C, 0x441, 0x43E, 0x442],
     utf8 [0x448, 0x435, 0x441, 0x442, 0x44C, 0x441, 0x43E, 0x442],
     utf8 [0x441, 0x435, 0x43C, 0x44C, 0x441, 0x43E, 0x442],
     utf8 [0x432, 0x43E, 0x441, 0x435, 0x43C, 0x44C, 0x441, 0x43E, 0x442],
     utf8 [0x434, 0x435, 0x432, 0x44F, 0x442, 0x44C, 0x441, 0x43E, 0x442]]"

definition ru_odna :: string where
  "ru_odna = utf8 [0x43E, 0x434, 0x43D, 0x430]" \<comment> \<open>odna\<close>

definition ru_dve :: string where
  "ru_dve = utf8 [0x434, 0x432, 0x435]" \<comment> \<open>dve\<close>

definition ru_nol :: string where
  "ru_nol = utf8 [0x43D, 0x43E, 0x43B, 0x44C]" \<comment> \<open>nol\<close>

definition ru_tenge :: string where
  "ru_tenge = utf8 [0x442, 0x435, 0x43D, 0x433, 0x435]" \<comment> \<open>tenge\<close>

definition tiyn_word :: string where
  "tiyn_word = utf8 [0x442, 0x438, 0x44B, 0x43D]" \<comment> \<open>tiyn\<close>

definition kk_nol :: string where
  "kk_nol = utf8 [0x43D, 0x4E9, 0x43B]" \<comment> \<open>noel\<close>

definition kk_tenge :: string where
  "kk_tenge = utf8 [0x442, 0x435, 0x4A3, 0x433, 0x435]" \<comment> \<open>tengge\<close>

definition kk_zhuz :: string where
  "kk_zhuz = utf8 [0x436, 0x4AF, 0x437]" \<comment> \<open>zhuez\<close>

definition kRuScales :: "RuScale list" where
  "kRuScales =
    [\<lparr>forms = [[], [], []], feminine = False\<rparr>,
     \<lparr>forms = [utf8 [0x442, 0x44B, 0x441, 0x44F, 0x447, 0x430], utf8 [0x442, 0x44B, 0x441, 0x44F, 0x447, 0x438], utf8 [0x442, 0x44B, 0x441, 0x44F, 0x447]], feminine = True\<rparr>,
     \<lparr>forms = [utf8 [0x43C, 0x438, 0x43B, 0x43B, 0x438, 0x43E, 0x43D], utf8 [0x43C, 0x438, 0x43B, 0x43B, 0x438, 0x43E, 0x43D, 0x430], utf8 [0x43C, 0x438, 0x43B, 0x43B, 0x438, 0x43E, 0x43D, 0x43E, 0x432]], feminine = False\<rparr>,
     \<lparr>forms = [utf8 [0x43C, 0x438, 0x43B, 0x43B, 0x438, 0x430, 0x440, 0x434], utf8 [0x43C, 0x438, 0x43B, 0x43B, 0x438, 0x430, 0x440, 0x434, 0x430], utf8 [0x43C, 0x438, 0x43B, 0x43B, 0x438, 0x430, 0x440, 0x434, 0x43E, 0x432]], feminine = False\<rparr>,
     \<lparr>forms = [utf8 [0x442, 0x440, 0x438, 0x43B, 0x43B, 0x438, 0x43E, 0x43D], utf8 [0x442, 0x440, 0x438, 0x43B, 0x43B, 0x438, 0x43E, 0x43D, 0x430], utf8 [0x442, 0x440, 0x438, 0x43B, 0x43B, 0x438, 0x43E, 0x43D, 0x43E, 0x432]], feminine = False\<rparr>]"

text \<open>\<open>kKkUnits\<close>: (empty), bir, eki, uesh, toert, bes, alty, zheti, segiz, toghyz.\<close>

definition kKkUnits :: "string list" where
  "kKkUnits =
    [[],
     utf8 [0x431, 0x456, 0x440],
     utf8 [0x435, 0x43A, 0x456],
     utf8 [0x4AF, 0x448],
     utf8 [0x442, 0x4E9, 0x440, 0x442],
     utf8 [0x431, 0x435, 0x441],
     utf8 [0x430, 0x43B, 0x442, 0x44B],
     utf8 [0x436, 0x435, 0x442, 0x456],
     utf8 [0x441, 0x435, 0x433, 0x456, 0x437],
     utf8 [0x442, 0x43E, 0x493, 0x44B, 0x437]]"

text \<open>\<open>kKkTens\<close>: (empty), on, zhiyrma, otyz, qyryq, elu, alpys, zhetpis, seksen, toqsan.\<close>

definition kKkTens :: "string list" where
  "kKkTens =
    [[],
     utf8 [0x43E, 0x43D],
     utf8 [0x436, 0x438, 0x44B, 0x440, 0x43C, 0x430],
     utf8 [0x43E, 0x442, 0x44B, 0x437],
     utf8 [0x49B, 0x44B, 0x440, 0x44B, 0x49B],
     utf8 [0x435, 0x43B, 0x443],
     utf8 [0x430, 0x43B, 0x43F, 0x44B, 0x441],
     utf8 [0x436, 0x435, 0x442, 0x43F, 0x456, 0x441],
     utf8 [0x441, 0x435, 0x43A, 0x441, 0x435, 0x43D],
     utf8 [0x442, 0x43E, 0x49B, 0x441, 0x430, 0x43D]]"

definition kKkScales :: "KkScale list" where
  "kKkScales =
    [\<lparr>scale_word = [], drop_one = False\<rparr>,
     \<lparr>scale_word = utf8 [0x43C, 0x44B, 0x4A3], drop_one = True\<rparr>,
     \<lparr>scale_word = utf8 [0x43C, 0x438, 0x43B, 0x43B, 0x438, 0x43E, 0x43D], drop_one = False\<rparr>,
     \<lparr>scale_word = utf8 [0x43C, 0x438, 0x43B, 0x43B, 0x438, 0x430, 0x440, 0x434], drop_one = False\<rparr>,
     \<lparr>scale_word = utf8 [0x442, 0x440, 0x438, 0x43B, 0x43B, 0x438, 0x43E, 0x43D], drop_one = False\<rparr>]"

section \<open>Helpers shared by the languages\<close>

fun split_triads_from :: "nat \<Rightarrow> int \<Rightarrow> int list" where
  "split_triads_from 0 rest = []"
| "split_triads_from (Suc k) rest = cmod rest 1000 # split_triads_from k (cdiv rest 1000)"

definition split_triads :: "int \<Rightarrow> int list" where
  "split_triads v = split_triads_from kTriadCount v"

definition plural_index :: "int \<Rightarrow> nat" where
  "plural_index n =
     (let hundred_rest = cmod n 100 in
      if 11 \<le> hundred_rest \<and> hundred_rest \<le> 14 then 2
      else if cmod n 10 = 1 then 0
      else if cmod n 10 = 2 \<or> cmod n 10 = 3 \<or> cmod n 10 = 4 then 1
      else 2)"

definition append_triad_ru :: "string list \<Rightarrow> int \<Rightarrow> bool \<Rightarrow> string list" where
  "append_triad_ru out triad fem =
     (if triad = 0 then out
      else
        let h = cdiv triad 100;
            t = cmod (cdiv triad 10) 10;
            u = cmod triad 10;
            out = (if h > 0 then out @ [kRuHundreds ! nat h] else out)
        in if t \<ge> 2 then
             (let out = out @ [kRuTens ! nat t] in
              if u > 0 then
                (if fem \<and> u = 1 then out @ [ru_odna]
                 else if fem \<and> u = 2 then out @ [ru_dve]
                 else out @ [kRuUnits ! nat u])
              else out)
           else
             (let rest = t * 10 + u in
              if rest > 0 then
                (if fem \<and> rest = 1 then out @ [ru_odna]
                 else if fem \<and> rest = 2 then out @ [ru_dve]
                 else out @ [kRuUnits ! nat rest])
              else out))"

definition append_triad_kk :: "string list \<Rightarrow> int \<Rightarrow> bool \<Rightarrow> string list" where
  "append_triad_kk out triad drop_leading_one =
     (if triad = 0 then out
      else
        let h = cdiv triad 100;
            t = cmod (cdiv triad 10) 10;
            u = cmod triad 10;
            out = (if h > 0 then (if h > 1 then out @ [kKkUnits ! nat h] else out) @ [kk_zhuz]
                   else out);
            out = (if t > 0 then out @ [kKkTens ! nat t] else out)
        in if u > 0 then
             (let alone = (h = 0 \<and> t = 0) in
              if \<not> (alone \<and> u = 1 \<and> drop_leading_one) then out @ [kKkUnits ! nat u] else out)
           else out)"

record CyrillicCasePair =
  lower :: "nat \<times> nat"
  upper :: "nat \<times> nat"

definition kExtraCyrillicCasePairs :: "CyrillicCasePair list" where
  "kExtraCyrillicCasePairs =
     [\<lparr>lower = (0xD3, 0x99), upper = (0xD3, 0x98)\<rparr>,
      \<lparr>lower = (0xD2, 0x93), upper = (0xD2, 0x92)\<rparr>,
      \<lparr>lower = (0xD2, 0x9B), upper = (0xD2, 0x9A)\<rparr>,
      \<lparr>lower = (0xD2, 0xA3), upper = (0xD2, 0xA2)\<rparr>,
      \<lparr>lower = (0xD3, 0xA9), upper = (0xD3, 0xA8)\<rparr>,
      \<lparr>lower = (0xD2, 0xB1), upper = (0xD2, 0xB0)\<rparr>,
      \<lparr>lower = (0xD2, 0xAF), upper = (0xD2, 0xAE)\<rparr>,
      \<lparr>lower = (0xD2, 0xBB), upper = (0xD2, 0xBA)\<rparr>,
      \<lparr>lower = (0xD1, 0x96), upper = (0xD0, 0x86)\<rparr>]"

fun capitalize_cyrillic :: "string \<Rightarrow> string" where
  "capitalize_cyrillic (s0 # s1 # s) =
     (let b0 = of_char s0 :: nat; b1 = of_char s1 :: nat in
      if b0 = 0xD0 \<and> b1 \<ge> 0xB0 \<and> b1 \<le> 0xBF then s0 # char_of (b1 - 0x20) # s
      else if b0 = 0xD1 \<and> b1 \<ge> 0x80 \<and> b1 \<le> 0x8F then char_of (0xD0 :: nat) # char_of (b1 + 0x20) # s
      else (case find (\<lambda>p. lower p = (b0, b1)) kExtraCyrillicCasePairs of
              Some p \<Rightarrow> char_of (fst (upper p)) # char_of (snd (upper p)) # s
            | None \<Rightarrow> s0 # s1 # s))"
| "capitalize_cyrillic s = s"

fun join_words_from :: "nat \<Rightarrow> string list \<Rightarrow> string" where
  "join_words_from i [] = []"
| "join_words_from i (w # ws) = (if i > 0 then '' '' else []) @ w @ join_words_from (Suc i) ws"

definition join_words :: "string list \<Rightarrow> string" where
  "join_words ws = join_words_from 0 ws"

definition tiyn_tail :: "int \<Rightarrow> string \<Rightarrow> string" where
  "tiyn_tail tiyn_part unit_word = '' '' @ dec02 (nat tiyn_part) @ '' '' @ unit_word"

section \<open>The two languages\<close>

text \<open>
  The loop \<open>for (int i = kTriadCount - 1; i >= 0; --i)\<close>: the counter \<open>Suc i\<close> means
  that position \<open>i\<close> is handled next.
\<close>

fun words_loop_ru :: "int list \<Rightarrow> nat \<Rightarrow> string list \<Rightarrow> string list" where
  "words_loop_ru triads 0 ws = ws"
| "words_loop_ru triads (Suc i) ws =
     (let triad = triads ! i in
      if triad = 0 then words_loop_ru triads i ws
      else
        let scale = kRuScales ! i;
            ws = append_triad_ru ws triad (feminine scale)
        in words_loop_ru triads i
             (if i > 0 then ws @ [forms scale ! plural_index triad] else ws))"

definition to_words_ru :: "int \<Rightarrow> money_error + string" where
  "to_words_ru tiyn =
     (if tiyn < 0 then Inl NegativeAmount
      else if tiyn > kMaxTiyn then Inl AmountOutOfRange
      else
        let tenge = cdiv tiyn 100;
            tiyn_part = cmod tiyn 100;
            triads = split_triads tenge;
            ws = words_loop_ru triads kTriadCount [];
            ws = (if ws = [] then ws @ [ru_nol] else ws);
            ws = ws @ [ru_tenge];
            out = capitalize_cyrillic (join_words ws)
        in Inr (out @ tiyn_tail tiyn_part tiyn_word))"

fun words_loop_kk :: "int list \<Rightarrow> nat \<Rightarrow> string list \<Rightarrow> string list" where
  "words_loop_kk triads 0 ws = ws"
| "words_loop_kk triads (Suc i) ws =
     (let triad = triads ! i in
      if triad = 0 then words_loop_kk triads i ws
      else
        let scale = kKkScales ! i;
            ws = append_triad_kk ws triad (drop_one scale)
        in words_loop_kk triads i (if i > 0 then ws @ [scale_word scale] else ws))"

definition to_words_kk :: "int \<Rightarrow> money_error + string" where
  "to_words_kk tiyn =
     (if tiyn < 0 then Inl NegativeAmount
      else if tiyn > kMaxTiyn then Inl AmountOutOfRange
      else
        let tenge = cdiv tiyn 100;
            tiyn_part = cmod tiyn 100;
            triads = split_triads tenge;
            ws = words_loop_kk triads kTriadCount [];
            ws = (if ws = [] then ws @ [kk_nol] else ws);
            ws = ws @ [kk_tenge];
            out = capitalize_cyrillic (join_words ws)
        in Inr (out @ tiyn_tail tiyn_part tiyn_word))"

section \<open>Reading a printed amount back\<close>

text \<open>
  A reference reader, not part of the program: it undoes the capital letter, splits at
  the spaces and adds up the values of the words. A printed amount that can be read back
  determines the amount, which is what the "amount in words" of an invoice is for.
\<close>

fun uncapitalize_cyrillic :: "string \<Rightarrow> string" where
  "uncapitalize_cyrillic (s0 # s1 # s) =
     (let b0 = of_char s0 :: nat; b1 = of_char s1 :: nat in
      if b0 = 0xD0 \<and> b1 \<ge> 0x90 \<and> b1 \<le> 0x9F then s0 # char_of (b1 + 0x20) # s
      else if b0 = 0xD0 \<and> b1 \<ge> 0xA0 \<and> b1 \<le> 0xAF then char_of (0xD1 :: nat) # char_of (b1 - 0x20) # s
      else (case find (\<lambda>p. upper p = (b0, b1)) kExtraCyrillicCasePairs of
              Some p \<Rightarrow> char_of (fst (lower p)) # char_of (snd (lower p)) # s
            | None \<Rightarrow> s0 # s1 # s))"
| "uncapitalize_cyrillic s = s"

function split_words :: "string \<Rightarrow> string list" where
  "split_words s =
     (let w = takeWhile (\<lambda>c. c \<noteq> CHR '' '') s; r = dropWhile (\<lambda>c. c \<noteq> CHR '' '') s in
      case r of [] \<Rightarrow> [w] | _ # r' \<Rightarrow> w # split_words r')"
  by pat_completeness auto
termination
proof (relation "measure length")
  fix s x xa r0 r'
  assume "xa = dropWhile (\<lambda>c. c \<noteq> CHR '' '') s" "xa = r0 # (r' :: string)"
  then have "length (r0 # r') \<le> length s" by (metis length_dropWhile_le)
  then show "(r', s) \<in> measure length" by simp
qed simp

declare split_words.simps [simp del]

definition read_amount :: "(string \<Rightarrow> int \<times> int \<Rightarrow> int \<times> int) \<Rightarrow> string \<Rightarrow> int" where
  "read_amount step s =
     (let n = length s - (4 + length tiyn_word);
          (acc, cur) = fold step (butlast (split_words (uncapitalize_cyrillic (take n s)))) (0, 0)
      in (acc + cur) * 100 + int (dec_val (take 2 (drop (Suc n) s))))"

text \<open>A word that survives the journey: no space, and its first letter is lower case.\<close>

definition spoken :: "string \<Rightarrow> bool" where
  "spoken w \<longleftrightarrow>
     2 \<le> length w \<and> CHR '' '' \<notin> set w \<and> uncapitalize_cyrillic (capitalize_cyrillic w) = w"

definition say_amount :: "(nat \<Rightarrow> int \<Rightarrow> string list) \<Rightarrow> string \<Rightarrow> string \<Rightarrow> int \<Rightarrow> string" where
  "say_amount tw zero currency tiyn =
     (let tenge = tiyn div 100;
          ws = concat (map (\<lambda>i. let t = tenge div 1000 ^ i mod 1000 in if t = 0 then [] else tw i t)
                         [4, 3, 2, 1, 0])
      in capitalize_cyrillic (join_words ((if ws = [] then [zero] else ws) @ [currency]))
         @ tiyn_tail (tiyn mod 100) tiyn_word)"

lemma join_words_from_Suc: "join_words_from (Suc i) ws = concat (map (\<lambda>w. '' '' @ w) ws)"
  by (induction ws arbitrary: i) auto

lemma join_words_Cons: "join_words (w # ws) = w @ concat (map (\<lambda>w. '' '' @ w) ws)"
  by (simp add: join_words_def join_words_from_Suc)

lemma split_words_word: "CHR '' '' \<notin> set w \<Longrightarrow> split_words w = [w]"
proof -
  assume "CHR '' '' \<notin> set w"
  then have tw: "takeWhile (\<lambda>c. c \<noteq> CHR '' '') w = w" and dw: "dropWhile (\<lambda>c. c \<noteq> CHR '' '') w = []"
    by (induction w) auto
  show ?thesis by (simp only: split_words.simps [of w] tw dw Let_def list.case)
qed

lemma split_words_append:
  assumes "CHR '' '' \<notin> set w"
  shows "split_words (w @ CHR '' '' # s) = w # split_words s"
proof -
  have "takeWhile (\<lambda>c. c \<noteq> CHR '' '') (w @ CHR '' '' # s) = w"
    and "dropWhile (\<lambda>c. c \<noteq> CHR '' '') (w @ CHR '' '' # s) = CHR '' '' # s"
    using assms by (induction w) auto
  then show ?thesis by (subst split_words.simps) simp
qed

lemma split_words_join:
  "\<forall>w \<in> set (w # ws). CHR '' '' \<notin> set w \<Longrightarrow> split_words (join_words (w # ws)) = w # ws"
proof (induction ws arbitrary: w)
  case (Cons v ws)
  have "join_words (w # v # ws) = w @ CHR '' '' # join_words (v # ws)"
    by (simp add: join_words_Cons)
  then show ?case using Cons by (simp add: split_words_append)
qed (simp add: join_words_Cons split_words_word)

lemma capitalize_append: "2 \<le> length w \<Longrightarrow> capitalize_cyrillic (w @ s) = capitalize_cyrillic w @ s"
  by (cases w rule: capitalize_cyrillic.cases) (auto simp: Let_def split: option.splits)

lemma uncapitalize_append: "2 \<le> length w \<Longrightarrow> uncapitalize_cyrillic (w @ s) = uncapitalize_cyrillic w @ s"
  by (cases w rule: uncapitalize_cyrillic.cases) (auto simp: Let_def split: option.splits)

lemma length_capitalize [simp]: "length (capitalize_cyrillic s) = length s"
  by (cases s rule: capitalize_cyrillic.cases) (auto simp: Let_def split: option.splits)

lemma uncapitalize_capitalize_spoken:
  assumes "spoken w"
  shows "uncapitalize_cyrillic (capitalize_cyrillic (w @ s)) = w @ s"
  using assms by (simp add: spoken_def capitalize_append uncapitalize_append)

lemma fold_tail: "length (tiyn_tail t tiyn_word) = 4 + length tiyn_word" if "0 \<le> t" "t < 100"
  using that dec02_props(1) [of "nat t"] by (simp add: tiyn_tail_def)

lemma read_amount_say:
  assumes "\<forall>w \<in> set (w # ws). spoken w" and "0 \<le> t" and "t < 100"
    and "fold step (butlast (w # ws)) (0, 0) = (acc, cur)"
  shows "read_amount step (capitalize_cyrillic (join_words (w # ws)) @ tiyn_tail t tiyn_word)
         = (acc + cur) * 100 + t"
proof -
  let ?b = "capitalize_cyrillic (join_words (w # ws))" and ?t = "tiyn_tail t tiyn_word"
  have t: "nat t < 100" using assms by simp
  have "length (?b @ ?t) - (4 + length tiyn_word) = length ?b"
    using fold_tail [OF assms(2,3)] by simp
  moreover have "take 2 (drop (Suc (length ?b)) (?b @ ?t)) = dec02 (nat t)"
    using dec02_props(1) [OF t] by (simp add: tiyn_tail_def)
  moreover have "uncapitalize_cyrillic ?b = join_words (w # ws)"
    using assms(1) by (simp add: join_words_Cons uncapitalize_capitalize_spoken)
  moreover have "split_words (join_words (w # ws)) = w # ws"
    using assms(1) by (intro split_words_join) (simp add: spoken_def)
  ultimately show ?thesis
    using assms(2-) dec02_props(2) [OF t] by (simp add: read_amount_def)
qed

lemma triad_range: "x mod 1000 \<noteq> 0 \<Longrightarrow> 0 < x mod 1000 \<and> x mod 1000 < (1000 :: int)"
  by (metis order_le_imp_less_or_eq pos_mod_bound pos_mod_sign zero_less_numeral)

lemma base_1000:
  fixes v :: int
  assumes "v = q1 * 1000 + r0" "q1 = q2 * 1000 + r1" "q2 = q3 * 1000 + r2" "q3 = q4 * 1000 + r3"
  shows "q4 * 1000 ^ 4 + r3 * 1000 ^ 3 + r2 * 1000 ^ 2 + r1 * 1000 + r0 = v"
  unfolding assms by simp

lemma triads_sum:
  fixes v :: int
  assumes "0 \<le> v" "v < 1000 ^ 5"
  shows "v div 1000 ^ 4 mod 1000 * 1000 ^ 4 + v div 1000 ^ 3 mod 1000 * 1000 ^ 3 +
         v div 1000 ^ 2 mod 1000 * 1000 ^ 2 + v div 1000 mod 1000 * 1000 + v mod 1000 = v"
proof -
  define q1 where "q1 = v div 1000"
  define q2 where "q2 = q1 div 1000"
  define q3 where "q3 = q2 div 1000"
  define q4 where "q4 = q3 div 1000"
  have q: "v div 1000 ^ 2 = q2" "v div 1000 ^ 3 = q3" "v div 1000 ^ 4 = q4"
    by (simp_all add: q1_def q2_def q3_def q4_def flip: zdiv_zmult2_eq)
  have "0 \<le> v div 1000 ^ 4" "v div 1000 ^ 4 < 1000" using assms by simp_all
  then have q4: "q4 mod 1000 = q4" by (simp add: q(3) [simplified])
  have "v = q1 * 1000 + v mod 1000" "q1 = q2 * 1000 + q1 mod 1000"
    "q2 = q3 * 1000 + q2 mod 1000" "q3 = q4 * 1000 + q3 mod 1000"
    by (simp_all only: q1_def q2_def q3_def q4_def div_mult_mod_eq)
  then show ?thesis unfolding q q1_def [symmetric] q4 by (rule base_1000)
qed

text \<open>The interface of a language.\<close>

locale spoken_amount =
  fixes triad_words :: "nat \<Rightarrow> int \<Rightarrow> string list"
    and step :: "string \<Rightarrow> int \<times> int \<Rightarrow> int \<times> int"
    and zero_word :: string
    and currency :: string
  assumes read_triad: "i < 5 \<Longrightarrow> 0 < t \<Longrightarrow> t < 1000 \<Longrightarrow>
      fold step (triad_words i t) (acc, 0) = (if i = 0 then (acc, t) else (acc + t * 1000 ^ i, 0))"
    and spoken_triad: "i < 5 \<Longrightarrow> 0 < t \<Longrightarrow> t < 1000 \<Longrightarrow> w \<in> set (triad_words i t) \<Longrightarrow> spoken w"
    and read_zero: "step zero_word (acc, 0) = (acc, 0)"
    and spoken_zero: "spoken zero_word"
    and spoken_currency: "spoken currency"
begin

definition triad_part :: "int \<Rightarrow> nat \<Rightarrow> string list" where
  "triad_part v i = (let t = v div 1000 ^ i mod 1000 in if t = 0 then [] else triad_words i t)"

lemma read_part:
  assumes "i < 5" "0 < i"
  shows "fold step (triad_part v i) (acc, 0) = (acc + v div 1000 ^ i mod 1000 * 1000 ^ i, 0)"
  using assms read_triad [of i "v div 1000 ^ i mod 1000" acc] triad_range [of "v div 1000 ^ i"]
  by (cases "v div 1000 ^ i mod 1000 = 0") (simp_all add: triad_part_def)

lemma read_last: "fold step (triad_part v 0) (acc, 0) = (acc, v mod 1000)"
  using read_triad [of 0 "v mod 1000" acc] triad_range [of v]
  by (cases "v mod 1000 = 0") (simp_all add: triad_part_def)

lemma read_triads:
  assumes "0 \<le> v" "v < 1000 ^ 5"
    and "fold step (concat (map (triad_part v) [4, 3, 2, 1, 0])) (0, 0) = (acc, cur)"
  shows "acc + cur = v"
proof -
  have parts: "fold step (triad_part v 4) (a, 0) = (a + v div 1000 ^ 4 mod 1000 * 1000 ^ 4, 0)"
    "fold step (triad_part v 3) (a, 0) = (a + v div 1000 ^ 3 mod 1000 * 1000 ^ 3, 0)"
    "fold step (triad_part v 2) (a, 0) = (a + v div 1000 ^ 2 mod 1000 * 1000 ^ 2, 0)"
    "fold step (triad_part v 1) (a, 0) = (a + v div 1000 ^ 1 mod 1000 * 1000 ^ 1, 0)" for a
    by (rule read_part; simp)+
  have "fold step (concat (map (triad_part v) [4, 3, 2, 1, 0])) (0, 0) =
     fold step (triad_part v 0) (fold step (triad_part v 1) (fold step (triad_part v 2)
       (fold step (triad_part v 3) (fold step (triad_part v 4) (0, 0)))))"
    by simp
  also have "\<dots> = (v div 1000 ^ 4 mod 1000 * 1000 ^ 4 + v div 1000 ^ 3 mod 1000 * 1000 ^ 3 +
     v div 1000 ^ 2 mod 1000 * 1000 ^ 2 + v div 1000 ^ 1 mod 1000 * 1000 ^ 1, v mod 1000)"
    by (simp only: parts read_last add_0)
  finally show ?thesis using assms(3) triads_sum [OF assms(1,2)] by (simp only: prod.inject power_one_right)
qed

lemma spoken_part:
  assumes "i < 5" "w \<in> set (triad_part v i)"
  shows "spoken w"
proof -
  have "v div 1000 ^ i mod 1000 \<noteq> 0" "w \<in> set (triad_words i (v div 1000 ^ i mod 1000))"
    using assms(2) by (simp_all add: triad_part_def Let_def split: if_splits)
  then show ?thesis using assms(1) triad_range [of "v div 1000 ^ i"] by (blast intro: spoken_triad)
qed

theorem read_say:
  assumes "0 \<le> tiyn" "tiyn < 100 * 1000 ^ 5"
  shows "read_amount step (say_amount triad_words zero_word currency tiyn) = tiyn"
proof -
  define v where "v = tiyn div 100"
  define ws where "ws = concat (map (triad_part v) [4, 3, 2, 1, 0])"
  obtain acc cur where f: "fold step ws (0, 0) = (acc, cur)" by fastforce
  have v: "0 \<le> v" "v < 1000 ^ 5" using assms by (simp_all add: v_def)
  have sum: "acc + cur = v" using read_triads [OF v] f by (simp only: ws_def)
  have "spoken w" if "w \<in> set ws" for w
  proof -
    from that obtain i where "i \<in> set [4, 3, 2, 1, 0 :: nat]" "w \<in> set (triad_part v i)"
      unfolding ws_def set_concat set_map by blast
    then show ?thesis using spoken_part [of i w v] by auto
  qed
  then have "\<forall>w \<in> set ((if ws = [] then [zero_word] else ws) @ [currency]). spoken w"
    using spoken_zero spoken_currency by auto
  moreover have "fold step (butlast ((if ws = [] then [zero_word] else ws) @ [currency])) (0, 0) = (acc, cur)"
    using f read_zero [of 0] by auto
  moreover obtain u us where us: "(if ws = [] then [zero_word] else ws) @ [currency] = u # us"
    by (cases "(if ws = [] then [zero_word] else ws) @ [currency]") auto
  ultimately have "read_amount step (capitalize_cyrillic (join_words (u # us)) @ tiyn_tail (tiyn mod 100) tiyn_word)
      = (acc + cur) * 100 + tiyn mod 100"
    unfolding us by (intro read_amount_say) simp_all
  moreover have "say_amount triad_words zero_word currency tiyn =
      capitalize_cyrillic (join_words (u # us)) @ tiyn_tail (tiyn mod 100) tiyn_word"
    by (simp only: us [symmetric] say_amount_def ws_def v_def triad_part_def [abs_def] Let_def)
  ultimately show ?thesis using sum by (simp add: v_def)
qed

end

section \<open>Russian\<close>

definition ru_lexicon :: "(string \<times> (int + int)) list" where
  "ru_lexicon =
     zip kRuUnits (map (\<lambda>n. Inl (int n)) [0..<20])
     @ zip (drop 2 kRuTens) (map (\<lambda>n. Inl (int n * 10)) [2..<10])
     @ zip (drop 1 kRuHundreds) (map (\<lambda>n. Inl (int n * 100)) [1..<10])
     @ [(ru_odna, Inl 1), (ru_dve, Inl 2)]
     @ concat (map (\<lambda>i. map (\<lambda>f. (f, Inr (1000 ^ i))) (forms (kRuScales ! i))) [1..<5])"

definition read_ru :: "string \<Rightarrow> int \<times> int \<Rightarrow> int \<times> int" where
  "read_ru w s =
     (case map_of ru_lexicon w of
        None \<Rightarrow> s
      | Some (Inl v) \<Rightarrow> (fst s, snd s + v)
      | Some (Inr m) \<Rightarrow> (fst s + snd s * m, 0))"

definition triad_words_ru :: "nat \<Rightarrow> int \<Rightarrow> string list" where
  "triad_words_ru i t =
     append_triad_ru [] t (feminine (kRuScales ! i))
     @ (if i > 0 then [forms (kRuScales ! i) ! plural_index t] else [])"

lemmas ru_tables = kRuUnits_def kRuTens_def kRuHundreds_def kRuScales_def ru_odna_def ru_dve_def
  ru_nol_def ru_tenge_def

lemma ru_lengths [simp]: "length kRuUnits = 20" "length kRuTens = 10" "length kRuHundreds = 10"
  "length kRuScales = 5"
  by (simp_all add: ru_tables)

lemma ru_cps: "map fst ru_lexicon = map utf8
    [[0x43D, 0x43E, 0x43B, 0x44C],
     [0x43E, 0x434, 0x438, 0x43D],
     [0x434, 0x432, 0x430],
     [0x442, 0x440, 0x438],
     [0x447, 0x435, 0x442, 0x44B, 0x440, 0x435],
     [0x43F, 0x44F, 0x442, 0x44C],
     [0x448, 0x435, 0x441, 0x442, 0x44C],
     [0x441, 0x435, 0x43C, 0x44C],
     [0x432, 0x43E, 0x441, 0x435, 0x43C, 0x44C],
     [0x434, 0x435, 0x432, 0x44F, 0x442, 0x44C],
     [0x434, 0x435, 0x441, 0x44F, 0x442, 0x44C],
     [0x43E, 0x434, 0x438, 0x43D, 0x43D, 0x430, 0x434, 0x446, 0x430, 0x442, 0x44C],
     [0x434, 0x432, 0x435, 0x43D, 0x430, 0x434, 0x446, 0x430, 0x442, 0x44C],
     [0x442, 0x440, 0x438, 0x43D, 0x430, 0x434, 0x446, 0x430, 0x442, 0x44C],
     [0x447, 0x435, 0x442, 0x44B, 0x440, 0x43D, 0x430, 0x434, 0x446, 0x430, 0x442, 0x44C],
     [0x43F, 0x44F, 0x442, 0x43D, 0x430, 0x434, 0x446, 0x430, 0x442, 0x44C],
     [0x448, 0x435, 0x441, 0x442, 0x43D, 0x430, 0x434, 0x446, 0x430, 0x442, 0x44C],
     [0x441, 0x435, 0x43C, 0x43D, 0x430, 0x434, 0x446, 0x430, 0x442, 0x44C],
     [0x432, 0x43E, 0x441, 0x435, 0x43C, 0x43D, 0x430, 0x434, 0x446, 0x430, 0x442, 0x44C],
     [0x434, 0x435, 0x432, 0x44F, 0x442, 0x43D, 0x430, 0x434, 0x446, 0x430, 0x442, 0x44C],
     [0x434, 0x432, 0x430, 0x434, 0x446, 0x430, 0x442, 0x44C],
     [0x442, 0x440, 0x438, 0x434, 0x446, 0x430, 0x442, 0x44C],
     [0x441, 0x43E, 0x440, 0x43E, 0x43A],
     [0x43F, 0x44F, 0x442, 0x44C, 0x434, 0x435, 0x441, 0x44F, 0x442],
     [0x448, 0x435, 0x441, 0x442, 0x44C, 0x434, 0x435, 0x441, 0x44F, 0x442],
     [0x441, 0x435, 0x43C, 0x44C, 0x434, 0x435, 0x441, 0x44F, 0x442],
     [0x432, 0x43E, 0x441, 0x435, 0x43C, 0x44C, 0x434, 0x435, 0x441, 0x44F, 0x442],
     [0x434, 0x435, 0x432, 0x44F, 0x43D, 0x43E, 0x441, 0x442, 0x43E],
     [0x441, 0x442, 0x43E],
     [0x434, 0x432, 0x435, 0x441, 0x442, 0x438],
     [0x442, 0x440, 0x438, 0x441, 0x442, 0x430],
     [0x447, 0x435, 0x442, 0x44B, 0x440, 0x435, 0x441, 0x442, 0x430],
     [0x43F, 0x44F, 0x442, 0x44C, 0x441, 0x43E, 0x442],
     [0x448, 0x435, 0x441, 0x442, 0x44C, 0x441, 0x43E, 0x442],
     [0x441, 0x435, 0x43C, 0x44C, 0x441, 0x43E, 0x442],
     [0x432, 0x43E, 0x441, 0x435, 0x43C, 0x44C, 0x441, 0x43E, 0x442],
     [0x434, 0x435, 0x432, 0x44F, 0x442, 0x44C, 0x441, 0x43E, 0x442],
     [0x43E, 0x434, 0x43D, 0x430],
     [0x434, 0x432, 0x435],
     [0x442, 0x44B, 0x441, 0x44F, 0x447, 0x430],
     [0x442, 0x44B, 0x441, 0x44F, 0x447, 0x438],
     [0x442, 0x44B, 0x441, 0x44F, 0x447],
     [0x43C, 0x438, 0x43B, 0x43B, 0x438, 0x43E, 0x43D],
     [0x43C, 0x438, 0x43B, 0x43B, 0x438, 0x43E, 0x43D, 0x430],
     [0x43C, 0x438, 0x43B, 0x43B, 0x438, 0x43E, 0x43D, 0x43E, 0x432],
     [0x43C, 0x438, 0x43B, 0x43B, 0x438, 0x430, 0x440, 0x434],
     [0x43C, 0x438, 0x43B, 0x43B, 0x438, 0x430, 0x440, 0x434, 0x430],
     [0x43C, 0x438, 0x43B, 0x43B, 0x438, 0x430, 0x440, 0x434, 0x43E, 0x432],
     [0x442, 0x440, 0x438, 0x43B, 0x43B, 0x438, 0x43E, 0x43D],
     [0x442, 0x440, 0x438, 0x43B, 0x43B, 0x438, 0x43E, 0x43D, 0x430],
     [0x442, 0x440, 0x438, 0x43B, 0x43B, 0x438, 0x43E, 0x43D, 0x43E, 0x432]]"
  by (simp add: ru_lexicon_def ru_tables upt_rec)

lemma ru_distinct: "distinct (map fst ru_lexicon)"
  unfolding ru_cps by (rule distinct_map_utf8) (simp_all add: two_byte_def)

lemma ru_lexiconI: "(w, x) \<in> set ru_lexicon \<Longrightarrow> map_of ru_lexicon w = Some x"
  using ru_distinct by (rule map_of_is_SomeI)

lemma ru_parts:
  "set (zip kRuUnits (map (\<lambda>n. Inl (int n)) [0..<20])) \<subseteq> set ru_lexicon"
  "set (zip (drop 2 kRuTens) (map (\<lambda>n. Inl (int n * 10)) [2..<10])) \<subseteq> set ru_lexicon"
  "set (zip (drop 1 kRuHundreds) (map (\<lambda>n. Inl (int n * 100)) [1..<10])) \<subseteq> set ru_lexicon"
  unfolding ru_lexicon_def set_append by blast+

lemma ru_unit_in: "u < 20 \<Longrightarrow> (kRuUnits ! u, Inl (int u)) \<in> set ru_lexicon"
  by (rule subsetD [OF ru_parts(1)], rule zip_nth_in) simp_all

lemma ru_ten_in: "2 \<le> t \<Longrightarrow> t < 10 \<Longrightarrow> (kRuTens ! t, Inl (int t * 10)) \<in> set ru_lexicon"
proof -
  assume "2 \<le> t" "t < 10"
  then obtain k where t: "t = 2 + k" "k < 8" using le_Suc_ex by force
  then have "(drop 2 kRuTens ! k, Inl (int t * 10))
      \<in> set (zip (drop 2 kRuTens) (map (\<lambda>n. Inl (int n * 10)) [2..<10]))"
    by (intro zip_nth_in) (simp_all del: upt_conv_Cons_Cons upt_rec_numeral)
  then show ?thesis using t ru_parts(2) by auto
qed

lemma ru_hundred_in: "1 \<le> h \<Longrightarrow> h < 10 \<Longrightarrow> (kRuHundreds ! h, Inl (int h * 100)) \<in> set ru_lexicon"
proof -
  assume "1 \<le> h" "h < 10"
  then obtain k where h: "h = 1 + k" "k < 9" using le_Suc_ex by force
  then have "(drop 1 kRuHundreds ! k, Inl (int h * 100))
      \<in> set (zip (drop 1 kRuHundreds) (map (\<lambda>n. Inl (int n * 100)) [1..<10]))"
    by (intro zip_nth_in) (simp_all del: upt_conv_Cons_Cons upt_rec_numeral)
  then show ?thesis using h ru_parts(3) by auto
qed

lemma ru_scale_in:
  assumes "1 \<le> i" "i < 5" "k < 3"
  shows "(forms (kRuScales ! i) ! k, Inr (1000 ^ i)) \<in> set ru_lexicon"
proof -
  have "length (forms (kRuScales ! i)) = 3"
  proof -
    have "list_all (\<lambda>s. length (forms s) = 3) (drop 1 kRuScales)" "length kRuScales = 5" by (simp_all add: kRuScales_def)
    then have "kRuScales ! i \<in> set (drop 1 kRuScales)" using assms(1,2) by (auto simp: in_set_conv_nth intro: exI [of _ "i - 1"])
    with \<open>list_all _ _\<close> show ?thesis by (simp only: list_all_iff)
  qed
  then have f: "forms (kRuScales ! i) ! k \<in> set (forms (kRuScales ! i))" using assms(3) by simp
  have i: "i \<in> set [1..<5]" using assms(1,2) by (simp del: upt_rec_numeral upt_conv_Cons_Cons)
  have "(forms (kRuScales ! i) ! k, Inr (1000 ^ i)) \<in> set (concat (map (\<lambda>i. map (\<lambda>f. (f, Inr (1000 ^ i))) (forms (kRuScales ! i))) [1..<5]))"
    by (simp only: set_concat set_map image_image) (rule UN_I [OF i], rule imageI, rule f)
  then show ?thesis unfolding ru_lexicon_def set_append by (intro UnI2)
qed

lemma ru_gender_in: "(ru_odna, Inl 1) \<in> set ru_lexicon" "(ru_dve, Inl 2) \<in> set ru_lexicon"
  by (simp_all add: ru_lexicon_def)

lemmas ru_in = ru_unit_in ru_ten_in ru_hundred_in ru_gender_in ru_scale_in

lemma read_ru_number: "(w, Inl v) \<in> set ru_lexicon \<Longrightarrow> read_ru w (acc, cur) = (acc, cur + v)"
  by (simp add: read_ru_def ru_lexiconI)

lemma read_ru_scale: "(w, Inr m) \<in> set ru_lexicon \<Longrightarrow> read_ru w (acc, cur) = (acc + cur * m, 0)"
  by (simp add: read_ru_def ru_lexiconI)

lemma append_triad_ru_append: "append_triad_ru out t fem = out @ append_triad_ru [] t fem"
  by (simp add: append_triad_ru_def Let_def)

text \<open>The decimal digits of a triad, and the lexicon entries its words come from.\<close>

lemma digits3: "t div 100 * 100 + t div 10 mod 10 * 10 + t mod 10 = (t :: int)"
proof -
  have "t div 100 = t div 10 div 10" by (simp flip: zdiv_zmult2_eq)
  moreover have "t = t div 10 * 10 + t mod 10" "t div 10 = t div 10 div 10 * 10 + t div 10 mod 10"
    by (simp_all only: div_mult_mod_eq)
  moreover have "t = q * 10 + u \<Longrightarrow> q = h * 10 + d \<Longrightarrow> h * 100 + d * 10 + u = t" for q h d u :: int
    by simp
  ultimately show ?thesis by metis
qed

lemma triad_digits:
  assumes "0 < t" "t < (1000 :: int)"
  obtains h d u where "t = int h * 100 + int d * 10 + int u" and "h < 10" and "d < 10" and "u < 10"
    and "cdiv t 100 = int h" and "cmod (cdiv t 10) 10 = int d" and "cmod t 10 = int u"
proof
  have p: "0 \<le> t div 100" "0 \<le> t div 10 mod 10" "0 \<le> t mod 10" "t div 100 < 10" "t div 10 mod 10 < 10" "t mod 10 < 10" "0 \<le> t div 10"
    using assms by simp_all
  have n: "int (nat (t div 100)) = t div 100" "int (nat (t div 10 mod 10)) = t div 10 mod 10" "int (nat (t mod 10)) = t mod 10"
    using p(1-3) by (simp_all only: nat_0_le)
  show "t = int (nat (t div 100)) * 100 + int (nat (t div 10 mod 10)) * 10 + int (nat (t mod 10))"
    unfolding n by (simp only: digits3)
  show "nat (t div 100) < 10" "nat (t div 10 mod 10) < 10" "nat (t mod 10) < 10"
    using p by (simp_all only: nat_less_iff)
  show "cdiv t 100 = int (nat (t div 100))" "cmod (cdiv t 10) 10 = int (nat (t div 10 mod 10))" "cmod t 10 = int (nat (t mod 10))"
    unfolding n using assms by simp_all
qed

definition ru_values :: "int \<Rightarrow> bool \<Rightarrow> int list" where
  "ru_values t fem =
     (let h = t div 100; d = t div 10 mod 10; u = t mod 10 in
      (if h > 0 then [h * 100] else [])
      @ (if d \<ge> 2 then d * 10 # (if u > 0 then [u] else [])
         else if d * 10 + u > 0 then [d * 10 + u] else []))"

lemma append_triad_ru_lexicon:
  assumes "0 < t" "t < 1000"
  shows "list_all2 (\<lambda>w v. (w, Inl v) \<in> set ru_lexicon) (append_triad_ru [] t fem) (ru_values t fem)"
proof -
  obtain h d u where t: "t = int h * 100 + int d * 10 + int u" "h < 10" "d < 10" "u < 10"
    and c: "cdiv t 100 = int h" "cmod (cdiv t 10) 10 = int d" "cmod t 10 = int u"
    using assms by (rule triad_digits)
  have v: "t div 100 = int h" "t div 10 mod 10 = int d" "t mod 10 = int u"
    using c assms by simp_all
  have n: "nat (int d * 10 + int u) = d * 10 + u" by simp
  have "d < 2 \<Longrightarrow> d * 10 + u < 20" using t(4) by simp
  then have r: "d < 2 \<Longrightarrow> (kRuUnits ! (d * 10 + u), Inl (int d * 10 + int u)) \<in> set ru_lexicon"
    using ru_unit_in [of "d * 10 + u"] by simp
  have g: "int d * 10 + int u = 1 \<Longrightarrow> (ru_odna, Inl (int d * 10 + int u)) \<in> set ru_lexicon"
    "int d * 10 + int u = 2 \<Longrightarrow> (ru_dve, Inl (int d * 10 + int u)) \<in> set ru_lexicon"
    using ru_gender_in by simp_all
  show ?thesis
    using t(2-4) assms(1) r g ru_hundred_in [of h] ru_ten_in [of d] ru_unit_in [of u] ru_gender_in
    unfolding append_triad_ru_def ru_values_def Let_def c v
    by (simp add: n)
qed

lemma fold_read_ru: "list_all2 (\<lambda>w v. (w, Inl v) \<in> set ru_lexicon) ws vs \<Longrightarrow>
    fold read_ru ws (acc, cur) = (acc, cur + sum_list vs)"
  by (induction ws vs arbitrary: cur rule: list_all2_induct) (simp_all add: read_ru_number)

lemma sum_ru_values: "0 < t \<Longrightarrow> t < 1000 \<Longrightarrow> sum_list (ru_values t fem) = t"
proof -
  assume "0 < t" "t < 1000"
  then obtain h d u where t: "t = int h * 100 + int d * 10 + int u"
    and c: "cdiv t 100 = int h" "cmod (cdiv t 10) 10 = int d" "cmod t 10 = int u"
    by (rule triad_digits)
  have v: "t div 100 = int h" "t div 10 mod 10 = int d" "t mod 10 = int u"
    using c \<open>0 < t\<close> by simp_all
  show ?thesis unfolding ru_values_def Let_def v using t by simp
qed

lemma plural_index_less: "plural_index n < 3"
  by (simp add: plural_index_def Let_def)

lemma lexicon_words: "list_all2 (\<lambda>w v. (w, Inl v) \<in> S) ws vs \<Longrightarrow> w \<in> set ws \<Longrightarrow> w \<in> fst ` S"
  by (induction ws vs rule: list_all2_induct) force+

lemma ru_triad_words_in:
  assumes "i < 5" "0 < t" "t < 1000" "w \<in> set (triad_words_ru i t)"
  shows "w \<in> fst ` set ru_lexicon"
proof (cases "w \<in> set (append_triad_ru [] t (feminine (kRuScales ! i)))")
  case True
  with append_triad_ru_lexicon [OF assms(2,3)] show ?thesis by (rule lexicon_words)
next
  case False
  with assms have "w = forms (kRuScales ! i) ! plural_index t" "0 < i"
    by (auto simp: triad_words_ru_def split: if_splits)
  with ru_scale_in [of i "plural_index t"] assms(1) plural_index_less show ?thesis by force
qed

lemma uncapitalize_d0:
  assumes "of_char a = (0xD0 :: nat)" "0xB0 \<le> (of_char b :: nat)" "(of_char b :: nat) \<le> 0xBF"
  shows "uncapitalize_cyrillic (capitalize_cyrillic [a, b]) = [a, b]"
proof -
  define m where "m = (of_char b - 0xB0 :: nat)"
  have m: "of_char b = 0xB0 + m" "m \<le> 15" using assms by (simp_all add: m_def)
  then have "char_of (0xB0 + m) = b" by (metis char_of_char)
  then show ?thesis using assms(1) m by (simp add: Let_def)
qed

lemma uncapitalize_d1:
  assumes "of_char a = (0xD1 :: nat)" "0x80 \<le> (of_char b :: nat)" "(of_char b :: nat) \<le> 0x8F"
  shows "uncapitalize_cyrillic (capitalize_cyrillic [a, b]) = [a, b]"
proof -
  have "char_of (0xD1 :: nat) = a" using assms(1) by (metis char_of_char)
  then show ?thesis using assms by (simp add: Let_def)
qed

lemma uncapitalize_russian:
  assumes "0x430 \<le> n" "n \<le> 0x44F"
  shows "uncapitalize_cyrillic (capitalize_cyrillic (utf8_cp n)) = utf8_cp n"
proof -
  obtain a b where ab: "utf8_cp n = [a, b]" "of_char a = 192 + n div 64" "of_char b = 128 + n mod 64"
  proof -
    have "128 \<le> n" "n < 2048" using assms by simp_all
    then show thesis using that by (rule utf8_cp_two_byte)
  qed
  show ?thesis
  proof (cases "n \<le> 0x43F")
    case True
    then have "n div 64 = 16" using assms by (intro div_nat_eqI) simp_all
    then have "n div 64 = 16" "n mod 64 = n - 1024" by (simp_all flip: minus_div_mult_eq_mod)
    then show ?thesis unfolding ab(1) using ab assms True by (intro uncapitalize_d0) simp_all
  next
    case False
    then have "n div 64 = 17" using assms by (intro div_nat_eqI) simp_all
    then have "n div 64 = 17" "n mod 64 = n - 1088" by (simp_all flip: minus_div_mult_eq_mod)
    then show ?thesis unfolding ab(1) using ab assms False by (intro uncapitalize_d1) simp_all
  qed
qed

lemma spoken_utf8:
  assumes "0x430 \<le> n \<and> n \<le> 0x44F \<or> n = 0x4AF \<or> n = 0x49B" "two_byte ns"
  shows "spoken (utf8 (n # ns))"
proof -
  have "CHR '' '' \<notin> set (utf8 ks)" if "two_byte ks" for ks
    using utf8_high [OF that, of "CHR '' ''"] by auto
  moreover have "two_byte (n # ns)" using assms by (auto simp: two_byte_def)
  moreover have "uncapitalize_cyrillic (capitalize_cyrillic (utf8_cp n)) = utf8_cp n"
  proof (cases "0x430 \<le> n \<and> n \<le> 0x44F")
    case True
    then show ?thesis using uncapitalize_russian by blast
  next
    case False
    then have "n = 0x4AF \<or> n = 0x49B" using assms(1) by blast
    then show ?thesis by (elim disjE) (simp_all add: utf8_cp_def Let_def kExtraCyrillicCasePairs_def)
  qed
  moreover have "length (utf8_cp n) = 2" using assms(1) by (auto simp: utf8_cp_def)
  ultimately show ?thesis
    by (simp add: spoken_def utf8_def capitalize_append uncapitalize_append)
qed

lemma ru_spoken: "w \<in> fst ` set ru_lexicon \<Longrightarrow> spoken w"
proof -
  have "list_all spoken (map fst ru_lexicon)"
    unfolding ru_cps by (simp add: spoken_utf8 two_byte_def)
  then show "w \<in> fst ` set ru_lexicon \<Longrightarrow> spoken w" by (auto simp: list_all_iff)
qed

interpretation ru: spoken_amount triad_words_ru read_ru ru_nol ru_tenge
proof
  fix i :: nat and t acc :: int
  assume i: "i < 5" and t: "0 < t" "t < 1000"
  have f: "fold read_ru (append_triad_ru [] t (feminine (kRuScales ! i))) (acc, 0) = (acc, t)"
    using fold_read_ru [OF append_triad_ru_lexicon [OF t]] sum_ru_values [OF t] by simp
  show "fold read_ru (triad_words_ru i t) (acc, 0) = (if i = 0 then (acc, t) else (acc + t * 1000 ^ i, 0))"
    using f read_ru_scale [OF ru_scale_in [of i "plural_index t"]] i plural_index_less
    by (simp add: triad_words_ru_def)
next
  fix acc :: int
  have "kRuUnits ! 0 = ru_nol" by (simp add: ru_tables)
  then show "read_ru ru_nol (acc, 0) = (acc, 0)" using read_ru_number [OF ru_unit_in [of 0]] by simp
  show "spoken ru_nol" "spoken ru_tenge" by (simp_all add: ru_tables spoken_utf8 two_byte_def)
qed (blast intro: ru_spoken ru_triad_words_in)

lemma words_loop_ru_triads:
  "words_loop_ru triads n ws =
     ws @ concat (map (\<lambda>i. let t = triads ! i in if t = 0 then [] else triad_words_ru i t) (rev [0..<n]))"
proof (induction n arbitrary: ws)
  case (Suc n)
  show ?case
    unfolding words_loop_ru.simps Let_def Suc.IH append_triad_ru_append [of ws "triads ! n"]
    by (simp add: Let_def triad_words_ru_def)
qed simp

lemma triad_positions: "rev [0..<5] = [4, 3, 2, 1, 0]"
  by (simp add: upt_rec)

lemma split_triads_nth:
  assumes "0 \<le> v" "i < 5"
  shows "split_triads v ! i = v div 1000 ^ i mod 1000"
proof -
  have "i < k \<Longrightarrow> 0 \<le> v \<Longrightarrow> split_triads_from k v ! i = v div 1000 ^ i mod 1000" for k v
    by (induction k arbitrary: v i) (auto simp: nth_Cons zdiv_zmult2_eq split: nat.splits)
  then show ?thesis using assms by (simp add: split_triads_def kTriadCount_def)
qed

lemma triads_concat:
  assumes "0 \<le> v"
  shows "concat (map (\<lambda>i. let t = split_triads v ! i in if t = 0 then [] else tw i t) [4, 3, 2, 1, 0]) =
    concat (map (\<lambda>i. let t = v div 1000 ^ i mod 1000 in if t = 0 then [] else tw i t) [4, 3, 2, 1, 0])"
proof (intro arg_cong [where f = concat] map_cong refl)
  fix i :: nat assume "i \<in> set [4, 3, 2, 1, 0]"
  then have "i < 5" by auto
  then show "(let t = split_triads v ! i in if t = 0 then [] else tw i t) =
    (let t = v div 1000 ^ i mod 1000 in if t = 0 then [] else tw i t)"
    using assms by (simp only: split_triads_nth)
qed

lemma to_words_ru_say:
  assumes "0 \<le> tiyn" "tiyn \<le> kMaxTiyn"
  shows "to_words_ru tiyn = Inr (say_amount triad_words_ru ru_nol ru_tenge tiyn)"
proof -
  have g: "(tiyn < 0) = False" "(tiyn > kMaxTiyn) = False" "cdiv tiyn 100 = tiyn div 100"
    "cmod tiyn 100 = tiyn mod 100" and "0 \<le> tiyn div 100"
    using assms by simp_all
  define ws where "ws = concat (map (\<lambda>i. if tiyn div 100 div 1000 ^ i mod 1000 = 0 then []
      else triad_words_ru i (tiyn div 100 div 1000 ^ i mod 1000)) [4, 3, 2, 1, 0])"
  have "words_loop_ru (split_triads (tiyn div 100)) kTriadCount [] = ws"
    unfolding words_loop_ru_triads kTriadCount_def triad_positions append_Nil ws_def Let_def
    using \<open>0 \<le> tiyn div 100\<close> by (rule triads_concat [unfolded Let_def])
  then show ?thesis
    unfolding to_words_ru_def say_amount_def g if_False Let_def ws_def [symmetric]
    by (cases "ws = []") simp_all
qed

section \<open>Kazakh\<close>

text \<open>
  The reader multiplies by a hundred at "zhuz" and by the scale at a scale word; a missing
  multiplier counts as one, since the language drops it there.
\<close>

definition kk_lexicon :: "(string \<times> (int + int)) list" where
  "kk_lexicon =
     zip (drop 1 kKkUnits) (map (\<lambda>n. Inl (int n)) [1..<10])
     @ zip (drop 1 kKkTens) (map (\<lambda>n. Inl (int n * 10)) [1..<10])
     @ map (\<lambda>i. (scale_word (kKkScales ! i), Inr (1000 ^ i))) [1..<5]"

definition read_kk :: "string \<Rightarrow> int \<times> int \<Rightarrow> int \<times> int" where
  "read_kk w s =
     (if w = kk_zhuz then (fst s, if snd s = 0 then 100 else snd s * 100)
      else case map_of kk_lexicon w of
        None \<Rightarrow> s
      | Some (Inl v) \<Rightarrow> (fst s, snd s + v)
      | Some (Inr m) \<Rightarrow> (fst s + (if snd s = 0 then 1 else snd s) * m, 0))"

definition triad_words_kk :: "nat \<Rightarrow> int \<Rightarrow> string list" where
  "triad_words_kk i t =
     append_triad_kk [] t (drop_one (kKkScales ! i)) @ (if i > 0 then [scale_word (kKkScales ! i)] else [])"

lemmas kk_tables = kKkUnits_def kKkTens_def kKkScales_def kk_zhuz_def kk_nol_def kk_tenge_def

lemma kk_lengths [simp]: "length kKkUnits = 10" "length kKkTens = 10" "length kKkScales = 5"
  by (simp_all add: kk_tables)

lemma kk_cps: "map fst kk_lexicon = map utf8
    [[0x431, 0x456, 0x440],
     [0x435, 0x43A, 0x456],
     [0x4AF, 0x448],
     [0x442, 0x4E9, 0x440, 0x442],
     [0x431, 0x435, 0x441],
     [0x430, 0x43B, 0x442, 0x44B],
     [0x436, 0x435, 0x442, 0x456],
     [0x441, 0x435, 0x433, 0x456, 0x437],
     [0x442, 0x43E, 0x493, 0x44B, 0x437],
     [0x43E, 0x43D],
     [0x436, 0x438, 0x44B, 0x440, 0x43C, 0x430],
     [0x43E, 0x442, 0x44B, 0x437],
     [0x49B, 0x44B, 0x440, 0x44B, 0x49B],
     [0x435, 0x43B, 0x443],
     [0x430, 0x43B, 0x43F, 0x44B, 0x441],
     [0x436, 0x435, 0x442, 0x43F, 0x456, 0x441],
     [0x441, 0x435, 0x43A, 0x441, 0x435, 0x43D],
     [0x442, 0x43E, 0x49B, 0x441, 0x430, 0x43D],
     [0x43C, 0x44B, 0x4A3],
     [0x43C, 0x438, 0x43B, 0x43B, 0x438, 0x43E, 0x43D],
     [0x43C, 0x438, 0x43B, 0x43B, 0x438, 0x430, 0x440, 0x434],
     [0x442, 0x440, 0x438, 0x43B, 0x43B, 0x438, 0x43E, 0x43D]]"
  by (simp add: kk_lexicon_def kk_tables upt_rec)

lemma kk_distinct: "distinct (map fst kk_lexicon)"
  unfolding kk_cps by (rule distinct_map_utf8) (simp_all add: two_byte_def)

lemma kk_zhuz_fresh: "kk_zhuz \<notin> set (map fst kk_lexicon)" "kk_nol \<notin> set (map fst kk_lexicon)"
  "kk_nol \<noteq> kk_zhuz"
  unfolding kk_cps by (simp_all add: kk_tables utf8_inject two_byte_def)

lemma kk_lexiconI:
  assumes "(w, x) \<in> set kk_lexicon"
  shows "map_of kk_lexicon w = Some x" and "w \<noteq> kk_zhuz"
proof -
  show "map_of kk_lexicon w = Some x" using kk_distinct assms by (rule map_of_is_SomeI)
  have "w \<in> set (map fst kk_lexicon)" using assms by force
  then show "w \<noteq> kk_zhuz" using kk_zhuz_fresh(1) by blast
qed

lemma kk_parts:
  "set (zip (drop 1 kKkUnits) (map (\<lambda>n. Inl (int n)) [1..<10])) \<subseteq> set kk_lexicon"
  "set (zip (drop 1 kKkTens) (map (\<lambda>n. Inl (int n * 10)) [1..<10])) \<subseteq> set kk_lexicon"
  unfolding kk_lexicon_def set_append by blast+

lemma kk_unit_in: "1 \<le> u \<Longrightarrow> u < 10 \<Longrightarrow> (kKkUnits ! u, Inl (int u)) \<in> set kk_lexicon"
proof -
  assume "1 \<le> u" "u < 10"
  then obtain k where u: "u = 1 + k" "k < 9" using le_Suc_ex by force
  then have "(drop 1 kKkUnits ! k, Inl (int u)) \<in> set (zip (drop 1 kKkUnits) (map (\<lambda>n. Inl (int n)) [1..<10]))"
    by (intro zip_nth_in) (simp_all del: upt_conv_Cons_Cons upt_rec_numeral)
  then show ?thesis using u kk_parts(1) by auto
qed

lemma kk_ten_in: "1 \<le> t \<Longrightarrow> t < 10 \<Longrightarrow> (kKkTens ! t, Inl (int t * 10)) \<in> set kk_lexicon"
proof -
  assume "1 \<le> t" "t < 10"
  then obtain k where t: "t = 1 + k" "k < 9" using le_Suc_ex by force
  then have "(drop 1 kKkTens ! k, Inl (int t * 10))
      \<in> set (zip (drop 1 kKkTens) (map (\<lambda>n. Inl (int n * 10)) [1..<10]))"
    by (intro zip_nth_in) (simp_all del: upt_conv_Cons_Cons upt_rec_numeral)
  then show ?thesis using t kk_parts(2) by auto
qed

lemma kk_scale_in: "1 \<le> i \<Longrightarrow> i < 5 \<Longrightarrow> (scale_word (kKkScales ! i), Inr (1000 ^ i)) \<in> set kk_lexicon"
  unfolding kk_lexicon_def set_append set_map by (intro UnI2 imageI) simp

lemma read_kk_number: "(w, Inl v) \<in> set kk_lexicon \<Longrightarrow> read_kk w (acc, cur) = (acc, cur + v)"
  by (simp add: read_kk_def kk_lexiconI)

lemma read_kk_scale: "(w, Inr m) \<in> set kk_lexicon \<Longrightarrow>
    read_kk w (acc, cur) = (acc + (if cur = 0 then 1 else cur) * m, 0)"
  by (simp add: read_kk_def kk_lexiconI)

lemma read_kk_zhuz: "read_kk kk_zhuz (acc, cur) = (acc, if cur = 0 then 100 else cur * 100)"
  by (simp add: read_kk_def)

lemma append_triad_kk_append: "append_triad_kk out t dr = out @ append_triad_kk [] t dr"
  by (simp add: append_triad_kk_def Let_def)

text \<open>The one triad whose words are dropped altogether is \<open>1\<close> before a scale that allows it.\<close>

lemma fold_append_triad_kk:
  assumes "0 < t" "t < 1000"
  shows "fold read_kk (append_triad_kk [] t dr) (acc, 0) = (acc, if t = 1 \<and> dr then 0 else t)"
proof -
  obtain h d u where t: "t = int h * 100 + int d * 10 + int u" "h < 10" "d < 10" "u < 10"
    and c: "cdiv t 100 = int h" "cmod (cdiv t 10) 10 = int d" "cmod t 10 = int u"
    using assms by (rule triad_digits)
  have one: "t = 1 \<longleftrightarrow> h = 0 \<and> d = 0 \<and> u = 1"
  proof -
    have "t = int (h * 100 + d * 10 + u)" using t(1) by simp
    then have "t = 1 \<longleftrightarrow> h * 100 + d * 10 + u = 1" by (simp only: of_nat_eq_1_iff)
    also have "\<dots> \<longleftrightarrow> h = 0 \<and> d = 0 \<and> u = 1" by (cases h; cases d) auto
    finally show ?thesis .
  qed
  have hund: "fold read_kk (if int h > 0 then (if int h > 1 then [] @ [kKkUnits ! nat (int h)] else []) @ [kk_zhuz] else [])
      (acc, 0) = (acc, int h * 100)"
  proof -
    consider "h = 0" | "h = 1" | "1 < h" by linarith
    then show ?thesis
    proof cases
      case 3
      then have "read_kk (kKkUnits ! h) (acc, 0) = (acc, int h)"
        using read_kk_number [OF kk_unit_in [of h]] t(2) by simp
      with 3 show ?thesis by (simp add: read_kk_zhuz)
    qed (simp_all add: read_kk_zhuz)
  qed
  have ten: "fold read_kk (if int d > 0 then [kKkTens ! nat (int d)] else []) (acc, x) = (acc, x + int d * 10)" for x
    using read_kk_number [OF kk_ten_in [of d]] t(3) by simp
  have unit: "fold read_kk (if int u > 0 then [kKkUnits ! nat (int u)] else []) (acc, x) = (acc, x + int u)" for x
    using read_kk_number [OF kk_unit_in [of u]] t(4) by simp
  have "append_triad_kk [] t dr =
      (if int h > 0 then (if int h > 1 then [] @ [kKkUnits ! nat (int h)] else []) @ [kk_zhuz] else [])
      @ (if int d > 0 then [kKkTens ! nat (int d)] else [])
      @ (if h = 0 \<and> d = 0 \<and> u = 1 \<and> dr then [] else if int u > 0 then [kKkUnits ! nat (int u)] else [])"
    unfolding append_triad_kk_def Let_def c using assms(1) by auto
  then show ?thesis
    unfolding one using t(1) unit [of "int h * 100 + int d * 10"]
    by (simp only: fold_append comp_apply hund ten) auto
qed

lemma kk_triad_words_in:
  assumes "i < 5" "0 < t" "t < 1000" "w \<in> set (triad_words_kk i t)"
  shows "w = kk_zhuz \<or> w \<in> fst ` set kk_lexicon"
proof -
  obtain h d u where t: "t = int h * 100 + int d * 10 + int u" "h < 10" "d < 10" "u < 10"
    and c: "cdiv t 100 = int h" "cmod (cdiv t 10) 10 = int d" "cmod t 10 = int u"
    using assms(2,3) by (rule triad_digits)
  have "w \<in> set (append_triad_kk [] t (drop_one (kKkScales ! i))) \<or> 0 < i \<and> w = scale_word (kKkScales ! i)"
    using assms(4) by (auto simp: triad_words_kk_def split: if_splits)
  moreover have "w = kk_zhuz \<or> w \<in> fst ` set kk_lexicon"
    if "w \<in> set (append_triad_kk [] t (drop_one (kKkScales ! i)))"
    using that kk_unit_in [of h] kk_ten_in [of d] kk_unit_in [of u] t(2-4)
    unfolding append_triad_kk_def Let_def c by (force split: if_splits)
  ultimately show ?thesis using kk_scale_in [of i] assms(1) by force
qed

lemma kk_spoken: "w = kk_zhuz \<or> w \<in> fst ` set kk_lexicon \<Longrightarrow> spoken w"
proof -
  have "list_all spoken (map fst kk_lexicon)"
    unfolding kk_cps by (simp add: spoken_utf8 two_byte_def)
  moreover have "spoken kk_zhuz" by (simp add: kk_tables spoken_utf8 two_byte_def)
  ultimately show "w = kk_zhuz \<or> w \<in> fst ` set kk_lexicon \<Longrightarrow> spoken w" by (auto simp: list_all_iff)
qed

lemma kk_drop_one: "i < 5 \<Longrightarrow> drop_one (kKkScales ! i) \<Longrightarrow> i = 1"
  by (auto simp: kKkScales_def numeral_eq_Suc less_Suc_eq)

interpretation kk: spoken_amount triad_words_kk read_kk kk_nol kk_tenge
proof
  fix i :: nat and t acc :: int
  assume i: "i < 5" and t: "0 < t" "t < 1000"
  show "fold read_kk (triad_words_kk i t) (acc, 0) = (if i = 0 then (acc, t) else (acc + t * 1000 ^ i, 0))"
    using fold_append_triad_kk [OF t, of "drop_one (kKkScales ! i)" acc] kk_drop_one [OF i] t
      read_kk_scale [OF kk_scale_in [of i]] i
    by (cases "i = 0") (auto simp: triad_words_kk_def)
next
  fix acc :: int
  have "map_of kk_lexicon kk_nol = None" using kk_zhuz_fresh(2) by (simp add: map_of_eq_None_iff)
  then show "read_kk kk_nol (acc, 0) = (acc, 0)" using kk_zhuz_fresh(3) by (simp add: read_kk_def)
  show "spoken kk_nol" "spoken kk_tenge" by (simp_all add: kk_tables spoken_utf8 two_byte_def)
qed (rule kk_spoken [OF kk_triad_words_in])

lemma words_loop_kk_triads:
  "words_loop_kk triads n ws =
     ws @ concat (map (\<lambda>i. let t = triads ! i in if t = 0 then [] else triad_words_kk i t) (rev [0..<n]))"
proof (induction n arbitrary: ws)
  case (Suc n)
  show ?case
    unfolding words_loop_kk.simps Let_def Suc.IH append_triad_kk_append [of ws "triads ! n"]
    by (simp add: Let_def triad_words_kk_def)
qed simp

text \<open>Only the triad \<open>1\<close> prints no word of its own, and its scale word is still printed.\<close>

lemma to_words_kk_say:
  assumes "0 \<le> tiyn" "tiyn \<le> kMaxTiyn"
  shows "to_words_kk tiyn = Inr (say_amount triad_words_kk kk_nol kk_tenge tiyn)"
proof -
  have g: "(tiyn < 0) = False" "(tiyn > kMaxTiyn) = False" "cdiv tiyn 100 = tiyn div 100"
    "cmod tiyn 100 = tiyn mod 100" and "0 \<le> tiyn div 100"
    using assms by simp_all
  define ws where "ws = concat (map (\<lambda>i. if tiyn div 100 div 1000 ^ i mod 1000 = 0 then []
      else triad_words_kk i (tiyn div 100 div 1000 ^ i mod 1000)) [4, 3, 2, 1, 0])"
  have "words_loop_kk (split_triads (tiyn div 100)) kTriadCount [] = ws"
    unfolding words_loop_kk_triads kTriadCount_def triad_positions append_Nil ws_def Let_def
    using \<open>0 \<le> tiyn div 100\<close> by (rule triads_concat [unfolded Let_def])
  then show ?thesis
    unfolding to_words_kk_def say_amount_def g if_False Let_def ws_def [symmetric]
    by (cases "ws = []") simp_all
qed

text \<open>
  C19: on the whole supported range the Russian amount in words is printed, and reading the
  printed words back gives the amount: two different amounts never print the same text.
\<close>

theorem to_words_ru_reads_back:
  assumes "0 \<le> tiyn" and "tiyn \<le> kMaxTiyn"
  shows "\<exists>s. to_words_ru tiyn = Inr s \<and> read_amount read_ru s = tiyn"
  using assms ru.read_say [of tiyn] by (simp add: to_words_ru_say kMaxTiyn_def)

theorem to_words_ru_reads_back_witness:
  "\<exists>s. to_words_ru 25057500 = Inr s \<and> read_amount read_ru s = 25057500"
  by (rule to_words_ru_reads_back) (simp_all add: kMaxTiyn_def)

text \<open>
  the same for the Kazakh amount in words, where the unit is dropped before "hundred"
  and "thousand" and kept before the larger scales.
\<close>

theorem to_words_kk_reads_back:
  assumes "0 \<le> tiyn" and "tiyn \<le> kMaxTiyn"
  shows "\<exists>s. to_words_kk tiyn = Inr s \<and> read_amount read_kk s = tiyn"
  using assms kk.read_say [of tiyn] by (simp add: to_words_kk_say kMaxTiyn_def)

theorem to_words_kk_reads_back_witness:
  "\<exists>s. to_words_kk 196500 = Inr s \<and> read_amount read_kk s = 196500"
  by (rule to_words_kk_reads_back) (simp_all add: kMaxTiyn_def)

end
