(* ===== verification/KzIdentifiers.thy ===== *)
theory KzIdentifiers
  imports Prelude
begin

text \<open>
  Model of \<^verbatim>\<open>src/src/ledger/KzIdentifiers.hpp\<close>: the check digit of a Kazakh business or
  individual identification number. The weighted sums stay far below the range of
  \<open>int\<close>, so they are natural numbers.
\<close>

definition w1 :: "nat list" where
  "w1 = [1, 2, 3, 4, 5, 6, 7, 8, 9, 10, 11]"

definition w2 :: "nat list" where
  "w2 = [3, 4, 5, 6, 7, 8, 9, 10, 11, 1, 2]"

fun weighted_sum :: "nat list \<Rightarrow> nat list \<Rightarrow> nat" where
  "weighted_sum (d # ds) (w # ws) = d * w + weighted_sum ds ws"
| "weighted_sum _ _ = 0"

definition weighted :: "nat list \<Rightarrow> nat list \<Rightarrow> nat" where
  "weighted d w = weighted_sum d w mod 11"

definition is_valid_bin_iin :: "string \<Rightarrow> bool" where
  "is_valid_bin_iin iin =
     (if length iin \<noteq> 12 then False
      else if \<not> list_all isdigit iin then False
      else
        let d = map digit_val iin;
            s = weighted d w1
        in if s = 10
           then (let s = weighted d w2 in if s = 10 then False else d ! 11 = s)
           else d ! 11 = s)"

section \<open>The check digit\<close>

text \<open>The eleven digits before the check digit determine it, or leave none.\<close>

definition check_digit :: "nat list \<Rightarrow> nat option" where
  "check_digit d =
     (if weighted d w1 \<noteq> 10 then Some (weighted d w1)
      else if weighted d w2 \<noteq> 10 then Some (weighted d w2) else None)"

definition digits_of :: "string \<Rightarrow> nat list" where
  "digits_of iin = map digit_val iin"

lemma weighted_sum_update:
  "i < length ds \<Longrightarrow> i < length ws \<Longrightarrow>
   int (weighted_sum (ds[i := x]) ws) = int (weighted_sum ds ws) + (int x - int (ds ! i)) * int (ws ! i)"
proof (induction ds ws arbitrary: i rule: weighted_sum.induct)
  case (1 d ds w ws)
  then show ?case by (cases i) (simp_all add: algebra_simps)
qed simp_all

lemma weighted_sum_Nil2: "weighted_sum ds [] = 0"
  by (cases ds) simp_all

lemma weighted_sum_beyond: "length ws \<le> i \<Longrightarrow> weighted_sum (ds[i := x]) ws = weighted_sum ds ws"
proof (induction ds ws arbitrary: i rule: weighted_sum.induct)
  case (1 d ds w ws)
  then show ?case by (cases i) simp_all
qed (simp_all add: weighted_sum_Nil2)

lemma weighted_beyond: "length w = 11 \<Longrightarrow> weighted (ds[11 := x]) w = weighted ds w"
  by (simp add: weighted_def weighted_sum_beyond)

lemma weighted_update_eq:
  assumes "i < length ds" "i < length ws" "ds ! i < 10" "x < 10"
    and "weighted (ds[i := x]) ws = weighted ds ws"
  shows "11 dvd (int x - int (ds ! i)) * int (ws ! i)"
proof -
  have "int (weighted_sum (ds[i := x]) ws) mod 11 = int (weighted_sum ds ws) mod 11"
    using arg_cong [OF assms(5), of int] by (simp add: weighted_def zmod_int)
  then have "11 dvd int (weighted_sum (ds[i := x]) ws) - int (weighted_sum ds ws)"
    by (simp only: mod_eq_dvd_iff)
  then show ?thesis
    by (simp only: weighted_sum_update [OF assms(1,2)] add_diff_cancel_left')
qed

lemma coprime_weight:
  assumes "(11::int) dvd (int x - int y) * int w" "x < 10" "y < 10" "w \<in> {1, 2, 3, 4, 5, 6, 7, 8, 9, 10}"
  shows "x = y"
proof -
  have "coprime (11::int) (int w)"
    using assms(4) by (auto simp: coprime_iff_gcd_eq_1 gcd_non_0_int)
  then have "11 dvd (int x - int y)"
    using assms(1) by (simp add: coprime_dvd_mult_left_iff)
  then obtain k where "int x - int y = 11 * k" by blast
  with assms(2,3) show ?thesis by presburger
qed

lemma is_valid_bin_iin_iff:
  "is_valid_bin_iin iin \<longleftrightarrow>
     length iin = 12 \<and> list_all isdigit iin \<and> check_digit (digits_of iin) = Some (digit_val (iin ! 11))"
  by (auto simp: is_valid_bin_iin_def check_digit_def digits_of_def Let_def)

lemma weights:
  "length w1 = 11" "length w2 = 11" "w1 ! 10 = 11"
  "i < 10 \<Longrightarrow> w1 ! i \<in> {1, 2, 3, 4, 5, 6, 7, 8, 9, 10}"
  "i < 10 \<Longrightarrow> i \<noteq> 8 \<Longrightarrow> w2 ! i \<in> {1, 2, 3, 4, 5, 6, 7, 8, 9, 10}"
  by (auto simp: w1_def w2_def nth_Cons' split: if_splits)

lemma digits_of_update: "digits_of (iin[i := c]) = (digits_of iin)[i := digit_val c]"
  by (simp add: digits_of_def map_update)

lemma digits_of_less: "list_all isdigit iin \<Longrightarrow> i < length iin \<Longrightarrow> digits_of iin ! i < 10"
  by (simp add: digits_of_def list_all_length digit_val_less)

lemma isdigit_inj: "isdigit a \<Longrightarrow> isdigit b \<Longrightarrow> digit_val a = digit_val b \<Longrightarrow> a = b"
  by (metis digit_char_digit_val)

text \<open>
  at most one check digit completes eleven given digits: two valid numbers that agree on
  the first eleven digits are equal.
\<close>

theorem check_digit_unique:
  assumes "is_valid_bin_iin iin" and "is_valid_bin_iin iin'" and "take 11 iin = take 11 iin'"
  shows "iin = iin'"
proof -
  have len: "length iin = 12" "length iin' = 12" and dig: "list_all isdigit iin" "list_all isdigit iin'"
    using assms by (simp_all add: is_valid_bin_iin_iff)
  have split: "x = take 11 x @ [x ! 11]" if "length x = 12" for x :: string
    using that take_Suc_conv_app_nth [of 11 x] by simp
  have "iin[11 := iin' ! 11] = take 11 iin @ [iin' ! 11]"
    using len by (simp add: upd_conv_take_nth_drop)
  then have upd: "iin' = iin[11 := iin' ! 11]"
    using assms(3) split [OF len(2)] by simp
  have "check_digit (digits_of (iin[11 := c])) = check_digit (digits_of iin)" for c
    by (simp add: check_digit_def digits_of_update weighted_beyond weights)
  then have "check_digit (digits_of iin') = check_digit (digits_of iin)"
    using upd by metis
  then have "digit_val (iin ! 11) = digit_val (iin' ! 11)"
    using assms by (simp add: is_valid_bin_iin_iff)
  then have "iin ! 11 = iin' ! 11"
    using dig len by (intro isdigit_inj) (simp_all add: list_all_length)
  then show ?thesis using split [OF len(1)] split [OF len(2)] assms(3) by simp
qed

theorem check_digit_unique_witness:
  "is_valid_bin_iin ''860101300126'' \<and> \<not> is_valid_bin_iin ''860101300123''"
  using check_digit_unique [of "''860101300126''" "''860101300123''"]
  by (simp add: is_valid_bin_iin_def weighted_def w1_def isdigit_def digit_val_def)

text \<open>
  a number that needs only the first weighting is protected in its first ten digits: no
  other number that also needs only the first weighting differs from it in one of them alone.
  The eleventh digit has weight 11 and is not protected: every digit is accepted there.
\<close>

theorem first_weighting_detects_single_error:
  assumes "is_valid_bin_iin iin" and "weighted (digits_of iin) w1 \<noteq> 10" and "isdigit c"
  shows "(i < 10 \<and> weighted (digits_of (iin[i := c])) w1 \<noteq> 10 \<longrightarrow>
           is_valid_bin_iin (iin[i := c]) \<longrightarrow> c = iin ! i) \<and>
         is_valid_bin_iin (iin[10 := c])"
proof -
  have v: "length iin = 12" "list_all isdigit iin" "weighted (digits_of iin) w1 = digit_val (iin ! 11)"
    using assms by (auto simp: is_valid_bin_iin_iff check_digit_def split: if_splits)
  have upd: "list_all isdigit (iin[k := c])" for k
    using v(2) assms(3) by (auto simp: list_all_iff dest!: subsetD [OF set_update_subset_insert])
  have dl: "length (digits_of iin) = 12" using v(1) by (simp add: digits_of_def)
  have "c = iin ! i" if i: "i < 10" "weighted (digits_of (iin[i := c])) w1 \<noteq> 10" "is_valid_bin_iin (iin[i := c])"
  proof -
    have "weighted ((digits_of iin)[i := digit_val c]) w1 = weighted (digits_of iin) w1"
      using i v(3) by (auto simp: is_valid_bin_iin_iff check_digit_def digits_of_update split: if_splits)
    then have "11 dvd (int (digit_val c) - int (digits_of iin ! i)) * int (w1 ! i)"
      using i(1) dl v digits_of_less [of iin i] digit_val_less [OF assms(3)]
      by (intro weighted_update_eq) (simp_all add: weights)
    then have "digit_val c = digits_of iin ! i"
      using i(1) v digits_of_less [of iin i] digit_val_less [OF assms(3)] weights(4)
      by (intro coprime_weight) simp_all
    then show ?thesis
      using v i(1) assms(3) by (intro isdigit_inj) (simp_all add: digits_of_def list_all_length)
  qed
  moreover have "weighted (digits_of (iin[10 := c])) w1 = weighted (digits_of iin) w1"
  proof -
    have "int (weighted_sum ((digits_of iin)[10 := digit_val c]) w1) mod 11 = int (weighted_sum (digits_of iin) w1) mod 11"
      using dl by (simp add: weighted_sum_update weights mod_eq_dvd_iff)
    then have "int (weighted ((digits_of iin)[10 := digit_val c]) w1) = int (weighted (digits_of iin) w1)"
      by (simp add: weighted_def zmod_int)
    then show ?thesis by (simp add: digits_of_update)
  qed
  ultimately show ?thesis
    using assms v upd by (auto simp: is_valid_bin_iin_iff check_digit_def)
qed

theorem first_weighting_detects_single_error_witness:
  "is_valid_bin_iin ''860101300126'' \<and> \<not> is_valid_bin_iin ''860101310126'' \<and> is_valid_bin_iin ''860101300196''"
  using first_weighting_detects_single_error [of "''860101300126''" "CHR ''1''" 7]
    first_weighting_detects_single_error [of "''860101300126''" "CHR ''9''" 10]
  by (simp add: is_valid_bin_iin_def weighted_def w1_def digits_of_def isdigit_def digit_val_def)

end
