(* ===== verification/OrgScoped.thy ===== *)
theory OrgScoped
  imports Prelude "HOL-Library.Multiset"
begin

text \<open>
  Model of \<open>Tenancy::OrgCrudBase\<close> (\<^verbatim>\<open>src/src/tenancy/OrgScoped.hpp\<close>), the template every
  tenant-owned table is read through. A table is the list of its rows; what the C++ class
  takes from its \<open>Derived\<close> parameter is an argument: the id column, the organization column,
  the \<open>ORDER BY\<close> clause as a sorting function and \<open>Entity::from_row\<close>.

  The locale \<open>org_repo\<close> states what the repositories rely on and is interpreted by each of
  them.
\<close>

definition find_in_org ::
  "('r \<Rightarrow> string) \<Rightarrow> ('r \<Rightarrow> string) \<Rightarrow> ('r \<Rightarrow> 'e) \<Rightarrow> 'r list \<Rightarrow> string \<Rightarrow> string \<Rightarrow> 'e option" where
  "find_in_org id_col org_col from_row table i org =
     (case filter (\<lambda>r. id_col r = i \<and> org_col r = org) table of
        [] \<Rightarrow> None
      | r # _ \<Rightarrow> Some (from_row r))"

definition list_in_org ::
  "('r \<Rightarrow> string) \<Rightarrow> ('r list \<Rightarrow> 'r list) \<Rightarrow> ('r \<Rightarrow> 'e) \<Rightarrow> 'r list \<Rightarrow> string \<Rightarrow> nat \<Rightarrow> nat \<Rightarrow> 'e list" where
  "list_in_org org_col order_by from_row table org limit offset =
     map from_row (take limit (drop offset (order_by (filter (\<lambda>r. org_col r = org) table))))"

definition count_in_org :: "('r \<Rightarrow> string) \<Rightarrow> 'r list \<Rightarrow> string \<Rightarrow> nat" where
  "count_in_org org_col table org = length (filter (\<lambda>r. org_col r = org) table)"

lemma find_in_org_SomeD:
  assumes "find_in_org id_col org_col from_row table i org = Some e"
  obtains r where "r \<in> set table" and "id_col r = i" and "org_col r = org" and "e = from_row r"
proof -
  obtain r rs where f: "filter (\<lambda>r. id_col r = i \<and> org_col r = org) table = r # rs" and e: "e = from_row r"
    using assms by (auto simp: find_in_org_def split: list.splits)
  have "r \<in> set (filter (\<lambda>r. id_col r = i \<and> org_col r = org) table)" unfolding f by simp
  then show thesis using that [of r] e by simp
qed

lemma find_in_org_None:
  "find_in_org id_col org_col from_row table i org = None \<longleftrightarrow>
     (\<forall>r \<in> set table. id_col r = i \<longrightarrow> org_col r \<noteq> org)"
proof -
  have "find_in_org id_col org_col from_row table i org = None \<longleftrightarrow>
      filter (\<lambda>r. id_col r = i \<and> org_col r = org) table = []"
    by (simp add: find_in_org_def split: list.splits)
  then show ?thesis by (auto simp: filter_empty_conv)
qed

text \<open>With a primary key on the id column the row found is the row with that id.\<close>

lemma filter_distinct_key:
  assumes "distinct (map id_col table)" and "r \<in> set table" and "P r"
  shows "filter (\<lambda>x. id_col x = id_col r \<and> P x) table = [r]"
  using assms
proof (induction table)
  case (Cons x xs)
  show ?case
  proof (cases "x = r")
    case True
    with Cons.prems have "id_col r \<notin> id_col ` set xs" by simp
    then have "filter (\<lambda>y. id_col y = id_col r \<and> P y) xs = []"
      unfolding filter_empty_conv by (metis imageI)
    with True Cons.prems show ?thesis by simp
  next
    case False
    with Cons.prems have "r \<in> set xs" by simp
    with Cons.prems have "id_col x \<noteq> id_col r" by (metis distinct.simps(2) image_eqI list.simps(9) set_map)
    with Cons \<open>r \<in> set xs\<close> show ?thesis by simp
  qed
qed simp

locale org_repo =
  fixes id_col :: "'r \<Rightarrow> string" and org_col :: "'r \<Rightarrow> string" and order_by :: "'r list \<Rightarrow> 'r list"
    and from_row :: "'r \<Rightarrow> 'e" and entity_id :: "'e \<Rightarrow> string" and entity_org :: "'e \<Rightarrow> string"
  assumes order_by_mset: "mset (order_by rs) = mset rs"
    and entity_id: "entity_id (from_row r) = id_col r"
    and entity_org: "entity_org (from_row r) = org_col r"
begin

lemma order_by_set: "set (order_by rs) = set rs"
  by (metis order_by_mset set_mset_mset)

lemma order_by_length: "length (order_by rs) = length rs"
  by (metis order_by_mset size_mset)

lemma found_is_own:
  "find_in_org id_col org_col from_row table i org = Some e \<Longrightarrow> entity_id e = i \<and> entity_org e = org"
  by (metis find_in_org_SomeD entity_id entity_org)

lemma foreign_not_found:
  assumes "distinct (map id_col table)" and "r \<in> set table" and "org_col r \<noteq> org"
  shows "find_in_org id_col org_col from_row table (id_col r) org = None"
proof -
  have "r' = r" if "r' \<in> set table" "id_col r' = id_col r" for r'
    using assms(1,2) that by (meson distinct_map inj_onD)
  with assms(3) show ?thesis by (auto simp: find_in_org_None)
qed

lemma own_found:
  "distinct (map id_col table) \<Longrightarrow> r \<in> set table \<Longrightarrow>
   find_in_org id_col org_col from_row table (id_col r) (org_col r) = Some (from_row r)"
  by (simp add: find_in_org_def filter_distinct_key [where P = "\<lambda>x. org_col x = org_col r"])

lemma page_own:
  "e \<in> set (list_in_org org_col order_by from_row table org limit offset) \<Longrightarrow> entity_org e = org"
  by (auto simp: list_in_org_def order_by_set entity_org dest!: in_set_takeD in_set_dropD)

text \<open>Consecutive pages tile the listing, and the count is its length.\<close>

lemma pages_tile:
  "list_in_org org_col order_by from_row table org limit offset @
   list_in_org org_col order_by from_row table org limit' (offset + limit) =
   list_in_org org_col order_by from_row table org (limit + limit') offset"
  by (simp add: list_in_org_def take_add add.commute [of offset limit] flip: map_append drop_drop)

lemma full_page_is_count:
  "count_in_org org_col table org \<le> limit \<Longrightarrow>
   length (list_in_org org_col order_by from_row table org limit 0) = count_in_org org_col table org"
  by (simp add: list_in_org_def count_in_org_def order_by_length)

end

end
