(* ===== verification/Tiyn.thy ===== *)
theory Tiyn
  imports Prelude
begin

text \<open>
  Model of \<open>parse_tiyn\<close> and \<open>format_tiyn\<close> of \<^verbatim>\<open>src/src/ledger/JournalService.hpp\<close>: the
  journal's decimal amounts as exact integers of tiyn. Every \<open>throw\<close> is an error value;
  \<open>TiynUB\<close> stands for an execution whose signed arithmetic overflows.
\<close>

datatype tiyn_error =
  EmptyAmount | TwoDecimalPoints | TooManyFractionDigits | MissingIntegerPart | NonDigit |
  IntegerPartTooLong | IntegerOverflow | NotPositive | NegativeTiyn | TiynUB

text \<open>\<open>std::stoll\<close> on a string of decimal digits: it throws when the value does not fit.\<close>

definition stoll :: "string \<Rightarrow> tiyn_error + int" where
  "stoll s = (if in_ll (int (dec_val s)) then Inr (int (dec_val s)) else Inl IntegerOverflow)"

definition pad_frac :: "string \<Rightarrow> string" where
  "pad_frac s = s @ replicate (2 - length s) (CHR ''0'')"

definition parse_tiyn :: "string \<Rightarrow> tiyn_error + int" where
  "parse_tiyn amount =
     (if amount = [] then Inl EmptyAmount
      else
        let has_dot = (CHR ''.'' \<in> set amount);
            int_part = takeWhile (\<lambda>c. c \<noteq> CHR ''.'') amount;
            frac_part = (if has_dot then drop (Suc (length int_part)) amount else [])
        in if has_dot \<and> CHR ''.'' \<in> set frac_part then Inl TwoDecimalPoints
           else if has_dot \<and> length frac_part > 2 then Inl TooManyFractionDigits
           else if int_part = [] then Inl MissingIntegerPart
           else if \<not> list_all isdigit int_part then Inl NonDigit
           else if \<not> list_all isdigit frac_part then Inl NonDigit
           else if length int_part > 16 then Inl IntegerPartTooLong
           else
             let frac_part = pad_frac frac_part in
             rbind (stoll int_part) (\<lambda>whole.
             rbind (if frac_part = [] then Inr 0 else stoll frac_part) (\<lambda>frac.
             if \<not> in_ll (whole * 100) then Inl TiynUB
             else
               let tiyn = whole * 100 + frac
               in if \<not> in_ll tiyn then Inl TiynUB
                  else if tiyn \<le> 0 then Inl NotPositive else Inr tiyn)))"

text \<open>\<open>snprintf\<close> writes at most 31 characters into the 32-byte buffer.\<close>

definition format_tiyn :: "int \<Rightarrow> tiyn_error + string" where
  "format_tiyn tiyn =
     (if tiyn < 0 then Inl NegativeTiyn
      else
        let whole = cdiv tiyn 100;
            frac = cmod tiyn 100
        in Inr (take 31 (dec (nat whole) @ ''.'' @ dec02 (nat frac))))"

section \<open>What a decimal amount denotes\<close>

definition amount_parts :: "string \<Rightarrow> string \<Rightarrow> string \<Rightarrow> bool" where
  "amount_parts s ip fp \<longleftrightarrow>
     (s = ip \<and> fp = [] \<or> s = ip @ ''.'' @ fp) \<and> ip \<noteq> [] \<and> length ip \<le> 16 \<and> length fp \<le> 2 \<and>
     (\<forall>c \<in> set ip. isdigit c) \<and> (\<forall>c \<in> set fp. isdigit c)"

definition parts_tiyn :: "string \<Rightarrow> string \<Rightarrow> int" where
  "parts_tiyn ip fp = int (dec_val ip) * 100 + int (dec_val (pad_frac fp))"

lemma pad_frac_props:
  assumes "length fp \<le> 2" "\<forall>c \<in> set fp. isdigit c"
  shows "length (pad_frac fp) = 2" and "\<forall>c \<in> set (pad_frac fp). isdigit c" and "dec_val (pad_frac fp) < 100"
proof -
  show l: "length (pad_frac fp) = 2" and d: "\<forall>c \<in> set (pad_frac fp). isdigit c"
    using assms by (auto simp: pad_frac_def)
  show "dec_val (pad_frac fp) < 100" using dec_val_bound [OF d] l by simp
qed

lemma parts_tiyn_bounds:
  assumes "amount_parts s ip fp"
  shows "0 \<le> parts_tiyn ip fp" and "parts_tiyn ip fp < 10 ^ 18"
    and "int (dec_val ip) < 10 ^ 16" and "int (dec_val (pad_frac fp)) < 100"
proof -
  have ip: "length ip \<le> 16" "\<forall>c \<in> set ip. isdigit c" and fp: "length fp \<le> 2" "\<forall>c \<in> set fp. isdigit c"
    using assms by (simp_all add: amount_parts_def)
  have "dec_val ip < 10 ^ length ip" by (rule dec_val_bound [OF ip(2)])
  also have "\<dots> \<le> 10 ^ 16" using ip(1) by (intro power_increasing) simp_all
  finally show a: "int (dec_val ip) < 10 ^ 16" by simp
  show b: "int (dec_val (pad_frac fp)) < 100" using pad_frac_props(3) [OF fp] by simp
  show "0 \<le> parts_tiyn ip fp" by (simp add: parts_tiyn_def)
  show "parts_tiyn ip fp < 10 ^ 18" using a b by (simp add: parts_tiyn_def)
qed

lemma digits_no_dot: "\<forall>c \<in> set s. isdigit c \<Longrightarrow> CHR ''.'' \<notin> set s"
  by auto

lemma digits_takeWhile:
  "\<forall>c \<in> set ip. isdigit c \<Longrightarrow> takeWhile (\<lambda>c. c \<noteq> CHR ''.'') (ip @ CHR ''.'' # t) = ip"
  "\<forall>c \<in> set ip. isdigit c \<Longrightarrow> takeWhile (\<lambda>c. c \<noteq> CHR ''.'') ip = ip"
  using digits_no_dot [of ip] by (auto simp: takeWhile_tail takeWhile_append)

lemma stoll_in: "int (dec_val s) < 10 ^ 16 \<Longrightarrow> stoll s = Inr (int (dec_val s))"
  by (simp add: stoll_def in_ll_def)

text \<open>The grammar the parser accepts and the value it gives.\<close>

lemma parse_tiyn_parts:
  assumes "amount_parts s ip fp"
  shows "parse_tiyn s = (if parts_tiyn ip fp \<le> 0 then Inl NotPositive else Inr (parts_tiyn ip fp))"
proof -
  note b = parts_tiyn_bounds [OF assms]
  have fp: "length (pad_frac fp) = 2" "list_all isdigit fp" "CHR ''.'' \<notin> set fp"
    using assms pad_frac_props(1) digits_no_dot [of fp] by (auto simp: amount_parts_def list_all_iff)
  have ip: "list_all isdigit ip" "ip \<noteq> []" "length ip \<le> 16" "CHR ''.'' \<notin> set ip"
    using assms digits_no_dot [of ip] by (auto simp: amount_parts_def list_all_iff)
  have nums: "stoll ip = Inr (int (dec_val ip))" "stoll (pad_frac fp) = Inr (int (dec_val (pad_frac fp)))"
    using b by (simp_all add: stoll_in)
  have ub: "in_ll (int (dec_val ip) * 100)" "in_ll (int (dec_val ip) * 100 + int (dec_val (pad_frac fp)))"
    using b by (simp_all add: in_ll_def parts_tiyn_def)
  have ne: "pad_frac fp \<noteq> []" using fp(1) by auto
  have tw: "takeWhile (\<lambda>c. c \<noteq> CHR ''.'') (ip @ CHR ''.'' # fp) = ip" "takeWhile (\<lambda>c. c \<noteq> CHR ''.'') ip = ip"
    using assms by (simp_all add: digits_takeWhile amount_parts_def)
  have "length fp \<le> 2" using assms by (simp add: amount_parts_def)
  consider "s = ip" "fp = []" | "s = ip @ CHR ''.'' # fp" using assms by (auto simp: amount_parts_def)
  then show ?thesis
  proof cases
    case 1
    with fp ip nums ub ne show ?thesis unfolding parse_tiyn_def parts_tiyn_def Let_def 1 tw(2) by simp
  next
    case 2
    with fp ip nums ub ne tw(1) \<open>length fp \<le> 2\<close> show ?thesis by (simp add: parse_tiyn_def parts_tiyn_def)
  qed
qed

lemma parse_tiyn_InrD:
  assumes "parse_tiyn s = Inr t \<or> parse_tiyn s = Inl TiynUB \<or> parse_tiyn s = Inl IntegerOverflow"
  obtains ip fp where "amount_parts s ip fp"
proof -
  let ?ip = "takeWhile (\<lambda>c. c \<noteq> CHR ''.'') s"
  let ?fp = "if CHR ''.'' \<in> set s then drop (Suc (length ?ip)) s else []"
  have "s = ?ip \<and> ?fp = [] \<or> s = ?ip @ ''.'' @ ?fp"
  proof (cases "CHR ''.'' \<in> set s")
    case True
    then obtain a b where "s = a @ CHR ''.'' # b" "CHR ''.'' \<notin> set a" by (meson split_list_first)
    then show ?thesis by (simp add: takeWhile_tail takeWhile_append)
  next
    case False
    then have "?ip = s" unfolding takeWhile_eq_all_conv by metis
    then have "s = ?ip" by (rule sym)
    with False show ?thesis by (simp only: if_False simp_thms)
  qed
  moreover have "?ip \<noteq> []" "length ?ip \<le> 16" "length ?fp \<le> 2" "list_all isdigit ?ip" "list_all isdigit ?fp"
    using assms by (auto simp: parse_tiyn_def Let_def split: if_splits)
  ultimately have "amount_parts s ?ip ?fp" by (simp only: amount_parts_def list_all_iff) simp
  then show thesis by (rule that)
qed

lemma parse_tiyn_bounds:
  assumes "parse_tiyn s = Inr t"
  shows "0 < t \<and> t < 10 ^ 18"
proof -
  obtain ip fp where p: "amount_parts s ip fp" using assms parse_tiyn_InrD by blast
  show ?thesis using parse_tiyn_parts [OF p] parts_tiyn_bounds [OF p] assms by (auto split: if_splits)
qed

lemma parts_unique: "amount_parts s ip fp \<Longrightarrow> amount_parts s ip' fp' \<Longrightarrow> ip = ip' \<and> fp = fp'"
  using digits_no_dot by (auto simp: amount_parts_def append_eq_append_conv2 append_eq_Cons_conv Cons_eq_append_conv)


lemma parse_format_tiyn_value:
  assumes "0 < t" and "t < 10 ^ 18"
  shows "rbind (format_tiyn t) parse_tiyn = Inr t"
proof -
  let ?ip = "dec (nat (t div 100))" and ?fp = "dec02 (nat (t mod 100))"
  have w: "nat (t div 100) < 10 ^ 16" "nat (t mod 100) < 100" using assms by (simp_all add: nat_less_iff)
  have len: "length ?ip \<le> 16" "length ?fp = 2" using length_dec_le [OF w(1)] dec02_props(1) [OF w(2)] by simp_all
  have p: "amount_parts (?ip @ ''.'' @ ?fp) ?ip ?fp"
    using len dec02_props(3) [OF w(2)] by (simp add: amount_parts_def)
  have "pad_frac ?fp = ?fp" using len by (simp add: pad_frac_def)
  then have "parts_tiyn ?ip ?fp = t"
    using assms dec02_props(2) [OF w(2)] by (simp add: parts_tiyn_def)
  moreover have "take 31 (?ip @ ''.'' @ ?fp) = ?ip @ ''.'' @ ?fp"
    using len by (intro take_all) simp
  ultimately show ?thesis
    using assms parse_tiyn_parts [OF p] by (simp add: format_tiyn_def del: take_append append.simps)
qed

text \<open>
  printing and reading an amount: every amount a journal line can hold survives
  \<open>format_tiyn\<close> followed by \<open>parse_tiyn\<close>.
\<close>

theorem parse_format_tiyn:
  assumes "0 < t" and "t < 10 ^ 18"
  shows "rbind (format_tiyn t) parse_tiyn = Inr t"
  using assms by (rule parse_format_tiyn_value)

theorem parse_format_tiyn_witness:
  "rbind (format_tiyn 123450) parse_tiyn = Inr 123450 \<and> format_tiyn 123450 = Inr ''1234.50''"
  using parse_format_tiyn [of 123450]
  by (simp add: format_tiyn_def dec02_def pad_left_def dec_simps)

end
