(* ===== verification/LedgerStore.thy ===== *)
theory LedgerStore
  imports OrgScoped Tiyn "HOL-Library.Char_ord" "HOL-Library.List_Lexorder" "HOL-Library.Product_Lexorder"
begin

text \<open>
  The tables behind the ledger and the SQL statements its services run on them: the rows of
  \<open>accounts\<close>, \<open>counterparties\<close>, \<open>journal_entries\<close> and \<open>journal_lines\<close> with the constraints and
  triggers of \<^verbatim>\<open>src/migrations/007\<close>, \<^verbatim>\<open>008\<close>, \<^verbatim>\<open>009\<close> and \<^verbatim>\<open>022\<close>, and the C++ structs
  \<open>Account\<close>, \<open>Counterparty\<close>, \<open>JournalLine\<close>, \<open>JournalEntry\<close> their rows are read into.

  A statement is a function from the database to an error or the new database; an error
  rolls the transaction back, so the caller keeps the database it started from. Identifiers
  (UUIDs) are strings, compared as values; those drawn by \<open>gen_random_uuid()\<close> and the time of
  \<open>now()\<close> are arguments. What PostgreSQL does with the text of a decimal or a date is the
  record \<open>pg\<close>: reading \<open>NUMERIC(18,2)\<close> as a number of tiyn, printing it, reading a \<open>DATE\<close>
  into its ISO text.
\<close>

record pg =
  num_in :: "string \<Rightarrow> int option"
  num_out :: "int \<Rightarrow> string"
  date_in :: "string \<Rightarrow> string option"

datatype sql_error =
  UniqueViolation | ForeignKeyViolation | CheckViolation | InvalidText | NumericOverflow

section \<open>Rows\<close>

record account_row =
  a_id :: string
  a_org :: "string option"
  a_code :: string
  a_name_ru :: string
  a_name_kk :: string
  a_type :: string
  a_parent :: "string option"
  a_currency_tracked :: bool

record counterparty_row =
  c_id :: string
  c_org :: string
  c_identifier :: string
  c_name :: string
  c_address :: string
  c_iik :: string
  c_bik :: string
  c_kbe :: string
  c_is_resident :: bool
  c_vat_payer :: bool
  c_contact_email :: string
  c_created_at :: int

record entry_row =
  e_id :: string
  e_org :: string
  e_date :: string
  e_description :: string
  e_status :: string
  e_reverses :: "string option"
  e_created_by :: "string option"
  e_created_at :: int

record line_row =
  l_id :: string
  l_org :: string
  l_entry :: string
  l_account :: string
  l_side :: string
  l_amount :: int
  l_counterparty :: "string option"
  l_vat :: "int option"
  l_created_at :: int

record db =
  organizations :: "string list"
  users :: "string list"
  accounts :: "account_row list"
  counterparties :: "counterparty_row list"
  entries :: "entry_row list"
  jlines :: "line_row list"

section \<open>Entities\<close>

record JournalLine =
  line_id :: string
  entry_id :: string
  account_code :: string
  side :: string
  amount :: string
  counterparty_id :: "string option"
  vat_amount :: "string option"

record JournalEntry =
  je_id :: string
  org_id :: string
  entry_date :: string
  description :: string
  status :: string
  reverses_entry_id :: "string option"
  created_by_user_id :: "string option"
  lines :: "JournalLine list"

definition JournalLine_from_row :: "pg \<Rightarrow> line_row \<Rightarrow> JournalLine" where
  "JournalLine_from_row p r =
     \<lparr>line_id = l_id r, entry_id = l_entry r, account_code = l_account r, side = l_side r,
      amount = num_out p (l_amount r), counterparty_id = l_counterparty r,
      vat_amount = map_option (num_out p) (l_vat r)\<rparr>"

definition JournalEntry_from_row :: "entry_row \<Rightarrow> JournalEntry" where
  "JournalEntry_from_row r =
     \<lparr>je_id = e_id r, org_id = e_org r, entry_date = e_date r, description = e_description r,
      status = e_status r, reverses_entry_id = e_reverses r, created_by_user_id = e_created_by r,
      lines = []\<rparr>"

section \<open>Triggers of migration 022\<close>

definition entry_status :: "db \<Rightarrow> string \<Rightarrow> string option" where
  "entry_status d i = map_option e_status (find (\<lambda>e. e_id e = i) (entries d))"

definition signed_amount :: "line_row \<Rightarrow> int" where
  "signed_amount l = (if l_side l = ''debit'' then l_amount l else - l_amount l)"

definition lines_of :: "db \<Rightarrow> string \<Rightarrow> line_row list" where
  "lines_of d i = filter (\<lambda>l. l_entry l = i) (jlines d)"

definition entry_diff :: "db \<Rightarrow> string \<Rightarrow> int" where
  "entry_diff d i = sum_list (map signed_amount (lines_of d i))"

text \<open>The deferred constraint trigger, run at commit for every line written.\<close>

definition journal_entry_must_balance :: "string \<Rightarrow> db \<Rightarrow> sql_error + unit" where
  "journal_entry_must_balance i d =
     (if \<bar>entry_diff d i\<bar> \<ge> 10 ^ 18 then Inl NumericOverflow
      else if entry_diff d i \<noteq> 0 then Inl CheckViolation else Inr ())"

fun commit :: "string list \<Rightarrow> db \<Rightarrow> sql_error + db" where
  "commit [] d = Inr d"
| "commit (i # is) d = rbind (journal_entry_must_balance i d) (\<lambda>_. commit is d)"

text \<open>The update branch of the immutability trigger.\<close>

definition journal_entries_immutability :: "entry_row \<Rightarrow> entry_row \<Rightarrow> db \<Rightarrow> sql_error + unit" where
  "journal_entries_immutability old new d =
     (if e_org old \<notin> set (organizations d) then Inr ()
      else if e_created_by old \<noteq> None \<and> e_created_by new = None \<and>
              the (e_created_by old) \<notin> set (users d) \<and> new = old\<lparr>e_created_by := None\<rparr>
      then Inr ()
      else if e_status old = ''posted''
      then (if e_status new = ''reversed'' \<and> e_date new = e_date old \<and>
               e_description new = e_description old \<and> e_org new = e_org old \<and>
               e_reverses new = e_reverses old
            then Inr () else Inl CheckViolation)
      else if e_status old = ''reversed'' then Inl CheckViolation
      else if e_status old = ''draft'' \<and> e_status new = ''reversed'' then Inl CheckViolation
      else if e_status old = ''draft'' \<and> e_status new = ''posted'' \<and> lines_of d (e_id new) = []
      then Inl CheckViolation
      else Inr ())"

text \<open>The insert branch of the frozen-lines trigger: no parent is left to the foreign key.\<close>

definition journal_lines_frozen_after_post :: "string \<Rightarrow> db \<Rightarrow> sql_error + unit" where
  "journal_lines_frozen_after_post i d =
     (case entry_status d i of
        None \<Rightarrow> Inr ()
      | Some st \<Rightarrow> if st \<noteq> ''draft'' then Inl CheckViolation else Inr ())"

section \<open>Statements\<close>

text \<open>\<open>INSERT INTO journal_entries\<close>: the status defaults to draft.\<close>

definition insert_entry ::
  "pg \<Rightarrow> string \<Rightarrow> int \<Rightarrow> string \<Rightarrow> string \<Rightarrow> string \<Rightarrow> string option \<Rightarrow> string \<Rightarrow> db \<Rightarrow> sql_error + entry_row \<times> db" where
  "insert_entry p new_id now org date descr reverses user d =
     (case date_in p date of
        None \<Rightarrow> Inl InvalidText
      | Some dt \<Rightarrow>
          if new_id \<in> e_id ` set (entries d) then Inl UniqueViolation
          else if org \<notin> set (organizations d) then Inl ForeignKeyViolation
          else if user \<notin> set (users d) then Inl ForeignKeyViolation
          else if reverses \<noteq> None \<and> the reverses \<noteq> new_id \<and> the reverses \<notin> e_id ` set (entries d)
          then Inl ForeignKeyViolation
          else
            let r = \<lparr>e_id = new_id, e_org = org, e_date = dt, e_description = descr, e_status = ''draft'',
                     e_reverses = reverses, e_created_by = Some user, e_created_at = now\<rparr>
            in Inr (r, d\<lparr>entries := entries d @ [r]\<rparr>))"

text \<open>\<open>INSERT INTO journal_lines\<close>.\<close>

definition numeric_column :: "pg \<Rightarrow> string \<Rightarrow> sql_error + int" where
  "numeric_column p s =
     (case num_in p s of
        None \<Rightarrow> Inl InvalidText
      | Some n \<Rightarrow> if \<bar>n\<bar> \<ge> 10 ^ 18 then Inl NumericOverflow else Inr n)"

definition insert_line ::
  "pg \<Rightarrow> string \<Rightarrow> int \<Rightarrow> string \<Rightarrow> string \<Rightarrow> JournalLine \<Rightarrow> string \<Rightarrow> db \<Rightarrow> sql_error + line_row \<times> db" where
  "insert_line p new_id now org eid line side_text d =
     rbind (numeric_column p (amount line)) (\<lambda>amt.
     rbind (case vat_amount line of
              None \<Rightarrow> Inr None
            | Some v \<Rightarrow> rbind (numeric_column p v) (\<lambda>n. Inr (Some n))) (\<lambda>vat.
     rbind (journal_lines_frozen_after_post eid d) (\<lambda>_.
     if new_id \<in> l_id ` set (jlines d) then Inl UniqueViolation
     else if side_text \<notin> {''debit'', ''credit''} \<or> amt \<le> 0 \<or> (\<exists>v \<in> set_option vat. v < 0) then Inl CheckViolation
     else if org \<notin> set (organizations d) \<or> \<not> (\<exists>e \<in> set (entries d). e_id e = eid \<and> e_org e = org) \<or>
             (\<exists>c \<in> set_option (counterparty_id line). c \<notin> c_id ` set (counterparties d))
     then Inl ForeignKeyViolation
     else
       let r = \<lparr>l_id = new_id, l_org = org, l_entry = eid, l_account = account_code line, l_side = side_text,
                l_amount = amt, l_counterparty = counterparty_id line, l_vat = vat, l_created_at = now\<rparr>
       in Inr (r, d\<lparr>jlines := jlines d @ [r]\<rparr>))))"

text \<open>
  \<open>UPDATE journal_entries SET status = ... WHERE id = ... AND org_id = ... AND status = ...\<close>:
  the row it returns is the updated one, if the \<open>WHERE\<close> clause holds of it.
\<close>

definition update_status ::
  "string \<Rightarrow> string \<Rightarrow> string \<Rightarrow> string \<Rightarrow> db \<Rightarrow> sql_error + entry_row option \<times> db" where
  "update_status i org old_status new_status d =
     (case find (\<lambda>e. e_id e = i \<and> e_org e = org \<and> e_status e = old_status) (entries d) of
        None \<Rightarrow> Inr (None, d)
      | Some r \<Rightarrow>
          let r' = r\<lparr>e_status := new_status\<rparr> in
          rbind (journal_entries_immutability r r' d) (\<lambda>_.
          Inr (Some r', d\<lparr>entries := map (\<lambda>e. if e_id e = i then r' else e) (entries d)\<rparr>)))"

end
