(* ===== verification/Journal.thy ===== *)
theory Journal
  imports LedgerStore
begin

text \<open>
  Model of \<open>JournalRepository\<close> and \<open>JournalService\<close> (\<^verbatim>\<open>src/src/ledger/JournalRepository.hpp\<close>,
  \<^verbatim>\<open>src/src/ledger/JournalService.hpp\<close>): drafts, posting and storno of double entries.

  Each service call that opens a transaction is split where the code leaves the database: the
  reads and guards before it (\<open>post_guard\<close>, \<open>reverse_guard\<close>), which see the database of that
  moment, and the transaction itself (\<open>post_txn\<close>, \<open>reverse_txn\<close>), which may run on a later
  one; \<open>post\<close> and \<open>reverse_entry\<close> are the calls run without interruption. \<open>create_draft\<close> reads
  accounts and counterparties through \<open>execute_read\<close>, that is from a replica: \<open>rd\<close> is the
  database the replica shows.
\<close>

datatype journal_error =
  UnbalancedEntry | BadAmount tiyn_error | BadSide | UnknownAccount | ForeignCounterparty |
  InvalidEntryState | TotalOverflow | Sql sql_error

definition lift_sql :: "sql_error + 'a \<Rightarrow> journal_error + 'a" where
  "lift_sql x = (case x of Inl e \<Rightarrow> Inl (Sql e) | Inr a \<Rightarrow> Inr a)"

section \<open>Reads\<close>

definition find_entry :: "db \<Rightarrow> string \<Rightarrow> string \<Rightarrow> JournalEntry option" where
  "find_entry d i org = find_in_org e_id e_org JournalEntry_from_row (entries d) i org"

definition load_lines :: "pg \<Rightarrow> db \<Rightarrow> JournalEntry \<Rightarrow> JournalLine list" where
  "load_lines p d e =
     map (JournalLine_from_row p) (sort_key (\<lambda>l. (l_created_at l, l_id l)) (lines_of d (je_id e)))"

text \<open>\<open>ORDER BY entry_date DESC, created_at DESC\<close>.\<close>

definition journal_order :: "entry_row list \<Rightarrow> entry_row list" where
  "journal_order es = rev (sort_key (\<lambda>e. (e_date e, e_created_at e)) es)"

definition list_entries :: "db \<Rightarrow> string \<Rightarrow> nat \<Rightarrow> nat \<Rightarrow> JournalEntry list" where
  "list_entries d = list_in_org e_org journal_order JournalEntry_from_row (entries d)"

definition list_in_org_with_lines :: "pg \<Rightarrow> db \<Rightarrow> string \<Rightarrow> nat \<Rightarrow> nat \<Rightarrow> JournalEntry list" where
  "list_in_org_with_lines p d org limit offset =
     map (\<lambda>e. e\<lparr>lines := load_lines p d e\<rparr>) (list_entries d org limit offset)"

definition date_bound :: "pg \<Rightarrow> string option \<Rightarrow> sql_error + string option" where
  "date_bound p s =
     (case s of
        None \<Rightarrow> Inr None
      | Some t \<Rightarrow> (case date_in p t of None \<Rightarrow> Inl InvalidText | Some dt \<Rightarrow> Inr (Some dt)))"

definition in_period :: "string option \<Rightarrow> string option \<Rightarrow> entry_row \<Rightarrow> bool" where
  "in_period f t e \<longleftrightarrow>
     (case f of None \<Rightarrow> True | Some x \<Rightarrow> x \<le> e_date e) \<and> (case t of None \<Rightarrow> True | Some x \<Rightarrow> e_date e \<le> x)"

definition list_filtered ::
  "pg \<Rightarrow> db \<Rightarrow> string \<Rightarrow> string option \<Rightarrow> string option \<Rightarrow> nat \<Rightarrow> nat \<Rightarrow> sql_error + JournalEntry list" where
  "list_filtered p d org from_d to_d limit offset =
     rbind (date_bound p from_d) (\<lambda>f. rbind (date_bound p to_d) (\<lambda>t.
     Inr (map JournalEntry_from_row
       (take limit (drop offset (journal_order (filter (\<lambda>e. e_org e = org \<and> in_period f t e) (entries d))))))))"

definition count_filtered :: "pg \<Rightarrow> db \<Rightarrow> string \<Rightarrow> string option \<Rightarrow> string option \<Rightarrow> sql_error + nat" where
  "count_filtered p d org from_d to_d =
     rbind (date_bound p from_d) (\<lambda>f. rbind (date_bound p to_d) (\<lambda>t.
     Inr (length (filter (\<lambda>e. e_org e = org \<and> in_period f t e) (entries d)))))"

definition find_visible :: "db \<Rightarrow> string \<Rightarrow> string \<Rightarrow> account_row option" where
  "find_visible d org code =
     find (\<lambda>a. (a_org a = None \<or> a_org a = Some org) \<and> a_code a = code) (accounts d)"

definition find_counterparty :: "db \<Rightarrow> string \<Rightarrow> string \<Rightarrow> counterparty_row option" where
  "find_counterparty d i org = find_in_org c_id c_org (\<lambda>r. r) (counterparties d) i org"

section \<open>create\_draft\<close>

text \<open>The validating loop: running totals of debits and credits, \<open>long long\<close> each.\<close>

fun check_lines :: "db \<Rightarrow> string \<Rightarrow> JournalLine list \<Rightarrow> int \<Rightarrow> int \<Rightarrow> journal_error + int \<times> int" where
  "check_lines rd org [] debit_total credit_total = Inr (debit_total, credit_total)"
| "check_lines rd org (line # rest) debit_total credit_total =
     (case parse_tiyn (amount line) of
        Inl e \<Rightarrow> Inl (BadAmount e)
      | Inr tiyn \<Rightarrow>
          if side line \<noteq> ''debit'' \<and> side line \<noteq> ''credit'' then Inl BadSide
          else
            let d' = (if side line = ''debit'' then debit_total + tiyn else debit_total);
                c' = (if side line = ''debit'' then credit_total else credit_total + tiyn)
            in if \<not> in_ll d' \<or> \<not> in_ll c' then Inl TotalOverflow
               else if find_visible rd org (account_code line) = None then Inl UnknownAccount
               else if \<exists>c \<in> set_option (counterparty_id line). find_counterparty rd c org = None
               then Inl ForeignCounterparty
               else check_lines rd org rest d' c')"

text \<open>
  The inserting loop of a transaction: line \<open>k\<close> gets the \<open>k\<close>th drawn identifier, its side is the
  one \<open>flip\<close> makes of it (the identity here, the mirrored side in a storno).
\<close>

fun insert_lines ::
  "pg \<Rightarrow> (nat \<Rightarrow> string) \<Rightarrow> int \<Rightarrow> string \<Rightarrow> string \<Rightarrow> (string \<Rightarrow> string) \<Rightarrow> nat \<Rightarrow> JournalLine list \<Rightarrow> db \<Rightarrow>
   sql_error + JournalLine list \<times> db" where
  "insert_lines p gen now org eid flip k [] d = Inr ([], d)"
| "insert_lines p gen now org eid flip k (line # rest) d =
     rbind (insert_line p (gen k) now org eid line (flip (side line)) d) (\<lambda>(r, d').
     rbind (insert_lines p gen now org eid flip (Suc k) rest d') (\<lambda>(rs, d'').
     Inr (JournalLine_from_row p r # rs, d'')))"

definition create_draft ::
  "pg \<Rightarrow> db \<Rightarrow> (nat \<Rightarrow> string) \<Rightarrow> int \<Rightarrow> string \<Rightarrow> string \<Rightarrow> string \<Rightarrow> string \<Rightarrow> JournalLine list \<Rightarrow> db \<Rightarrow>
   journal_error + JournalEntry \<times> db" where
  "create_draft p rd gen now org user date descr ls d =
     (if length ls < 2 then Inl UnbalancedEntry
      else
        rbind (check_lines rd org ls 0 0) (\<lambda>(debit_total, credit_total).
        if debit_total \<noteq> credit_total then Inl UnbalancedEntry
        else lift_sql (
          rbind (insert_entry p (gen 0) now org date descr None user d) (\<lambda>(er, d1).
          let entry = JournalEntry_from_row er in
          rbind (insert_lines p gen now org (je_id entry) (\<lambda>s. s) 1 ls d1) (\<lambda>(rs, d2).
          rbind (commit (map entry_id rs) d2) (\<lambda>d3.
          Inr (entry\<lparr>lines := rs\<rparr>, d3)))))))"

section \<open>post\<close>

definition post_guard :: "db \<Rightarrow> string \<Rightarrow> string \<Rightarrow> journal_error + JournalEntry option" where
  "post_guard d org i =
     (case find_entry d i org of
        None \<Rightarrow> Inr None
      | Some existing \<Rightarrow>
          if status existing \<noteq> ''draft'' then Inl InvalidEntryState else Inr (Some existing))"

definition post_txn :: "pg \<Rightarrow> string \<Rightarrow> string \<Rightarrow> db \<Rightarrow> journal_error + JournalEntry \<times> db" where
  "post_txn p org i d =
     rbind (lift_sql (update_status i org ''draft'' ''posted'' d)) (\<lambda>(r, d').
     case r of
       None \<Rightarrow> Inl InvalidEntryState
     | Some r \<Rightarrow>
         let updated = JournalEntry_from_row r
         in Inr (updated\<lparr>lines := load_lines p d' updated\<rparr>, d'))"

definition post :: "pg \<Rightarrow> string \<Rightarrow> string \<Rightarrow> db \<Rightarrow> journal_error + JournalEntry option \<times> db" where
  "post p org i d =
     rbind (post_guard d org i) (\<lambda>g.
     case g of
       None \<Rightarrow> Inr (None, d)
     | Some _ \<Rightarrow> rbind (post_txn p org i d) (\<lambda>(e, d'). Inr (Some e, d')))"

section \<open>reverse\<close>

definition mirrored_side :: "string \<Rightarrow> string" where
  "mirrored_side s = (if s = ''debit'' then ''credit'' else ''debit'')"

definition storno_prefix :: string where
  "storno_prefix = utf8 [1057, 1090, 1086, 1088, 1085, 1086] @ '': ''"

definition reverse_guard ::
  "pg \<Rightarrow> db \<Rightarrow> string \<Rightarrow> string \<Rightarrow> journal_error + (JournalEntry \<times> JournalLine list) option" where
  "reverse_guard p d org i =
     (case find_entry d i org of
        None \<Rightarrow> Inr None
      | Some original \<Rightarrow>
          if status original \<noteq> ''posted'' then Inl InvalidEntryState
          else Inr (Some (original, load_lines p d original)))"

definition reverse_txn ::
  "pg \<Rightarrow> (nat \<Rightarrow> string) \<Rightarrow> int \<Rightarrow> string \<Rightarrow> string \<Rightarrow> JournalEntry \<Rightarrow> JournalLine list \<Rightarrow> db \<Rightarrow>
   journal_error + JournalEntry \<times> db" where
  "reverse_txn p gen now org user original original_lines d =
     rbind (lift_sql (insert_entry p (gen 0) now org (entry_date original)
              (storno_prefix @ description original) (Some (je_id original)) user d)) (\<lambda>(er, d1).
     let storno = JournalEntry_from_row er in
     rbind (lift_sql (insert_lines p gen now org (je_id storno) mirrored_side 1 original_lines d1)) (\<lambda>(rs, d2).
     rbind (lift_sql (update_status (je_id storno) org ''draft'' ''posted'' d2)) (\<lambda>(pr, d3).
     case pr of
       None \<Rightarrow> Inl InvalidEntryState
     | Some pr \<Rightarrow>
         rbind (lift_sql (update_status (je_id original) org ''posted'' ''reversed'' d3)) (\<lambda>(orr, d4).
         case orr of
           None \<Rightarrow> Inl InvalidEntryState
         | Some _ \<Rightarrow>
             rbind (lift_sql (commit (map entry_id rs) d4)) (\<lambda>d5.
             Inr (storno\<lparr>lines := rs, status := e_status pr\<rparr>, d5))))))"

definition reverse_entry ::
  "pg \<Rightarrow> (nat \<Rightarrow> string) \<Rightarrow> int \<Rightarrow> string \<Rightarrow> string \<Rightarrow> string \<Rightarrow> db \<Rightarrow> journal_error + JournalEntry option \<times> db" where
  "reverse_entry p gen now org i user d =
     rbind (reverse_guard p d org i) (\<lambda>g.
     case g of
       None \<Rightarrow> Inr (None, d)
     | Some (original, original_lines) \<Rightarrow>
         rbind (reverse_txn p gen now org user original original_lines d) (\<lambda>(e, d'). Inr (Some e, d')))"

section \<open>The repositories\<close>

lemma journal_order_mset: "mset (journal_order es) = mset es"
  by (simp add: journal_order_def)

interpretation journal_repo: org_repo e_id e_org journal_order JournalEntry_from_row je_id org_id
  by unfold_locales (simp_all add: journal_order_mset JournalEntry_from_row_def)

definition counterparty_order :: "counterparty_row list \<Rightarrow> counterparty_row list" where
  "counterparty_order cs = rev (sort_key c_created_at cs)"

interpretation counterparty_repo: org_repo c_id c_org counterparty_order "\<lambda>r. r" c_id c_org
  by unfold_locales (simp_all add: counterparty_order_def)

end
