(* ===== verification/JournalInvariant.thy ===== *)
theory JournalInvariant
  imports Journal
begin

text \<open>
  The double-entry invariant of the journal. The step relation \<open>jstep\<close> interleaves the
  transactions of any number of concurrent callers of \<open>JournalService\<close>; \<open>journal_ok\<close> is the
  invariant of its reachable states.
\<close>

section \<open>What one transaction does\<close>

lemma lift_sql_Inr [simp]: "lift_sql x = Inr a \<longleftrightarrow> x = Inr a"
  by (cases x) (simp_all add: lift_sql_def)

definition row_for :: "pg \<Rightarrow> string \<Rightarrow> string \<Rightarrow> (string \<Rightarrow> string) \<Rightarrow> int \<Rightarrow> JournalLine \<Rightarrow> line_row \<Rightarrow> bool" where
  "row_for p org eid flip now line r \<longleftrightarrow>
     l_org r = org \<and> l_entry r = eid \<and> l_account r = account_code line \<and> l_side r = flip (side line) \<and>
     num_in p (amount line) = Some (l_amount r) \<and> 0 < l_amount r \<and> l_amount r < 10 ^ 18 \<and>
     (l_side r = ''debit'' \<or> l_side r = ''credit'') \<and> l_counterparty r = counterparty_id line \<and>
     rel_option (\<lambda>v n. num_in p v = Some n \<and> 0 \<le> n \<and> n < 10 ^ 18) (vat_amount line) (l_vat r) \<and>
     l_created_at r = now"

lemma numeric_column_Inr:
  "numeric_column p s = Inr n \<longleftrightarrow> num_in p s = Some n \<and> \<bar>n\<bar> < 10 ^ 18"
  by (auto simp: numeric_column_def split: option.splits)

lemma insert_line_spec:
  assumes "insert_line p i now org eid line st d = Inr (r, d')" and "st = flip (side line)"
  shows "row_for p org eid flip now line r" and "d' = d\<lparr>jlines := jlines d @ [r]\<rparr>" and "l_id r = i"
    and "i \<notin> l_id ` set (jlines d)" and "\<exists>e \<in> set (entries d). e_id e = eid \<and> e_org e = org"
    and "entry_status d eid = None \<or> entry_status d eid = Some ''draft''"
proof -
  from assms obtain amt vat where n: "numeric_column p (amount line) = Inr amt"
    and v: "(case vat_amount line of None \<Rightarrow> Inr None
            | Some v \<Rightarrow> rbind (numeric_column p v) (\<lambda>n. Inr (Some n))) = Inr vat"
    and f: "journal_lines_frozen_after_post eid d = Inr ()"
    and c: "i \<notin> l_id ` set (jlines d)" "st \<in> {''debit'', ''credit''}" "\<not> amt \<le> 0" "\<forall>v \<in> set_option vat. 0 \<le> v"
      "\<exists>e \<in> set (entries d). e_id e = eid \<and> e_org e = org"
    and r: "r = \<lparr>l_id = i, l_org = org, l_entry = eid, l_account = account_code line, l_side = st,
                l_amount = amt, l_counterparty = counterparty_id line, l_vat = vat, l_created_at = now\<rparr>"
    and d: "d' = d\<lparr>jlines := jlines d @ [r]\<rparr>"
    by (auto simp: insert_line_def Let_def not_less split: if_splits)
  have "rel_option (\<lambda>v n. num_in p v = Some n \<and> 0 \<le> n \<and> n < 10 ^ 18) (vat_amount line) vat"
    using v c(4) by (auto simp: numeric_column_Inr split: option.splits)
  then show "row_for p org eid flip now line r"
    using n c r assms(2) by (auto simp: row_for_def numeric_column_Inr)
  show "entry_status d eid = None \<or> entry_status d eid = Some ''draft''"
    using f by (auto simp: journal_lines_frozen_after_post_def split: option.splits if_splits)
  show "d' = d\<lparr>jlines := jlines d @ [r]\<rparr>" "l_id r = i" "i \<notin> l_id ` set (jlines d)"
      "\<exists>e \<in> set (entries d). e_id e = eid \<and> e_org e = org"
    using d r c by simp_all
qed

lemma insert_lines_spec:
  assumes "insert_lines p gen now org eid flip k ls d = Inr (rs, d')" and "distinct (map l_id (jlines d))"
  shows "\<exists>rows. d' = d\<lparr>jlines := jlines d @ rows\<rparr> \<and> rs = map (JournalLine_from_row p) rows \<and>
           list_all2 (row_for p org eid flip now) ls rows \<and> distinct (map l_id (jlines d @ rows))"
  using assms
proof (induction p gen now org eid flip k ls d arbitrary: rs d' rule: insert_lines.induct)
  case (2 p gen now org eid flip k line rest d)
  from "2.prems"(1) obtain r d1 rs1 where
    l: "insert_line p (gen k) now org eid line (flip (side line)) d = Inr (r, d1)"
    and ls: "insert_lines p gen now org eid flip (Suc k) rest d1 = Inr (rs1, d')"
    and rs: "rs = JournalLine_from_row p r # rs1"
    by (auto split: prod.splits)
  note s = insert_line_spec [where flip = flip, OF l refl]
  have "distinct (map l_id (jlines d1))" using s "2.prems"(2) by auto
  from "2.IH" [OF ls this] obtain rows where
    "d' = d1\<lparr>jlines := jlines d1 @ rows\<rparr>" "rs1 = map (JournalLine_from_row p) rows"
    "list_all2 (row_for p org eid flip now) rest rows" "distinct (map l_id (jlines d1 @ rows))" by blast
  then show ?case using s rs by (intro exI [of _ "r # rows"]) simp
qed auto

lemma commit_Inr: "commit is d = Inr d' \<Longrightarrow> d' = d \<and> (\<forall>i \<in> set is. entry_diff d i = 0)"
  by (induction "is") (auto simp: journal_entry_must_balance_def split: if_splits)

lemma insert_entry_spec:
  assumes "insert_entry p i now org date descr rv user d = Inr (er, d')"
  shows "d' = d\<lparr>entries := entries d @ [er]\<rparr>" and "e_id er = i" and "i \<notin> e_id ` set (entries d)"
    and "e_org er = org" and "e_status er = ''draft''" and "e_reverses er = rv"
    and "date_in p date = Some (e_date er)" and "e_description er = descr" and "e_created_by er = Some user"
  using assms by (auto simp: insert_entry_def Let_def split: option.splits if_splits)

text \<open>A new entry with its lines: the effect of \<open>create_draft\<close> and of the first steps of a storno.\<close>

definition new_entry ::
  "pg \<Rightarrow> string \<Rightarrow> (string \<Rightarrow> string) \<Rightarrow> int \<Rightarrow> JournalLine list \<Rightarrow> db \<Rightarrow> entry_row \<Rightarrow> line_row list \<Rightarrow> bool" where
  "new_entry p org flip now ls d er rows \<longleftrightarrow>
     e_id er \<notin> e_id ` set (entries d) \<and> e_org er = org \<and> e_status er = ''draft'' \<and>
     list_all2 (row_for p org (e_id er) flip now) ls rows \<and> distinct (map l_id (jlines d @ rows))"

abbreviation add_entry :: "entry_row \<Rightarrow> line_row list \<Rightarrow> db \<Rightarrow> db" where
  "add_entry er rows d \<equiv> d\<lparr>entries := entries d @ [er], jlines := jlines d @ rows\<rparr>"

lemma insert_new_entry:
  assumes "insert_entry p i now org date descr rv user d = Inr (er, d1)"
    and "insert_lines p gen now org (e_id er) flip k ls d1 = Inr (rs, d2)" and "distinct (map l_id (jlines d))"
  obtains rows where "new_entry p org flip now ls d er rows" and "d2 = add_entry er rows d"
    and "rs = map (JournalLine_from_row p) rows"
proof -
  note e = insert_entry_spec [OF assms(1)]
  have "distinct (map l_id (jlines d1))" using e assms(3) by simp
  from insert_lines_spec [OF assms(2) this] obtain rows where
    "d2 = d1\<lparr>jlines := jlines d1 @ rows\<rparr>" "rs = map (JournalLine_from_row p) rows"
    "list_all2 (row_for p org (e_id er) flip now) ls rows" "distinct (map l_id (jlines d1 @ rows))" by blast
  then show thesis using e by (intro that [of rows]) (simp_all add: new_entry_def)
qed

lemma new_entry_lines:
  assumes "new_entry p org flip now ls d er rows" and "\<forall>l \<in> set (jlines d). l_entry l \<in> e_id ` set (entries d)"
  shows "lines_of (d\<lparr>entries := es, jlines := jlines d @ rows\<rparr>) i = (if i = e_id er then rows else lines_of d i)"
proof -
  have "l_entry r = e_id er" if "r \<in> set rows" for r
    using assms(1) that by (auto simp: new_entry_def row_for_def list_all2_conv_all_nth in_set_conv_nth)
  then have "filter (\<lambda>l. l_entry l = i) rows = (if i = e_id er then rows else [])"
    by (auto simp: filter_empty_conv filter_id_conv)
  moreover have "filter (\<lambda>l. l_entry l = e_id er) (jlines d) = []"
    unfolding filter_empty_conv using assms by (metis new_entry_def)
  ultimately show ?thesis by (simp add: lines_of_def)
qed

lemma create_draft_spec:
  assumes "create_draft p rd gen now org user date descr ls d = Inr (e, d')" and "distinct (map l_id (jlines d))"
  obtains er rows where "new_entry p org (\<lambda>s. s) now ls d er rows" and "d' = add_entry er rows d"
    and "e = (JournalEntry_from_row er)\<lparr>lines := map (JournalLine_from_row p) rows\<rparr>"
    and "2 \<le> length ls" and "e_reverses er = None" and "entry_diff d' (e_id er) = 0"
    and "\<exists>t. check_lines rd org ls 0 0 = Inr (t, t)" and "e_description er = descr" and "date_in p date = Some (e_date er)"
proof -
  from assms(1) obtain t er d1 rs d2 where len: "2 \<le> length ls" and chk: "check_lines rd org ls 0 0 = Inr (t, t)"
    and ie: "insert_entry p (gen 0) now org date descr None user d = Inr (er, d1)"
    and il: "insert_lines p gen now org (e_id er) (\<lambda>s. s) 1 ls d1 = Inr (rs, d2)"
    and cm: "commit (map entry_id rs) d2 = Inr d'"
    and e: "e = (JournalEntry_from_row er)\<lparr>lines := rs\<rparr>"
    by (auto simp: create_draft_def Let_def JournalEntry_from_row_def split: if_splits prod.splits)
  obtain rows where n: "new_entry p org (\<lambda>s. s) now ls d er rows" "d2 = add_entry er rows d"
    "rs = map (JournalLine_from_row p) rows"
    by (rule insert_new_entry [OF ie il assms(2)])
  have "length rows = length ls" using n(1) by (auto simp: new_entry_def dest: list_all2_lengthD)
  then obtain r where "r \<in> set rows" using len by (cases rows) auto
  moreover have "l_entry r = e_id er"
    using n(1) calculation by (auto simp: new_entry_def row_for_def list_all2_conv_all_nth in_set_conv_nth)
  ultimately have "e_id er \<in> set (map entry_id rs)"
    using n(3) by (force simp: JournalLine_from_row_def)
  with commit_Inr [OF cm] have "d' = d2" "entry_diff d' (e_id er) = 0" by auto
  then show thesis using n e len chk insert_entry_spec [OF ie] by (intro that [of er rows]) auto
qed

abbreviation set_status :: "string \<Rightarrow> string \<Rightarrow> entry_row list \<Rightarrow> entry_row list" where
  "set_status i st es \<equiv> map (\<lambda>e. if e_id e = i then e\<lparr>e_status := st\<rparr> else e) es"

lemma find_filter: "find Q ys = (case filter Q ys of [] \<Rightarrow> None | y # _ \<Rightarrow> Some y)"
  by (induction ys) auto

lemma find_key:
  assumes "distinct (map f xs)" and "x \<in> set xs" and "P x"
  shows "find (\<lambda>y. f y = f x \<and> P y) xs = Some x"
  using filter_distinct_key [where P = P, OF assms] by (simp add: find_filter)

lemma update_status_spec:
  assumes "update_status i org old new d = Inr (Some r', d')" and "distinct (map e_id (entries d))"
  obtains r where "r \<in> set (entries d)" and "e_id r = i" and "e_org r = org" and "e_status r = old"
    and "r' = r\<lparr>e_status := new\<rparr>" and "d' = d\<lparr>entries := set_status i new (entries d)\<rparr>"
proof -
  from assms(1) obtain r where f: "find (\<lambda>e. e_id e = i \<and> e_org e = org \<and> e_status e = old) (entries d) = Some r"
    and r': "r' = r\<lparr>e_status := new\<rparr>"
    and d': "d' = d\<lparr>entries := map (\<lambda>e. if e_id e = i then r' else e) (entries d)\<rparr>"
    by (auto simp: update_status_def Let_def split: option.splits)
  have r: "r \<in> set (entries d)" "e_id r = i" "e_org r = org" "e_status r = old"
    using f by (auto simp: find_Some_iff)
  have "e = r" if "e \<in> set (entries d)" "e_id e = i" for e
    using key_eqD [OF assms(2) _ that(1) r(1)] that(2) r(2) by simp
  then have "map (\<lambda>e. if e_id e = i then r' else e) (entries d) = set_status i new (entries d)"
    using r' by auto
  with r r' d' that show thesis by metis
qed

lemma post_txn_spec:
  assumes "post_txn p org i d = Inr (e, d')" and "distinct (map e_id (entries d))"
  obtains r where "r \<in> set (entries d)" and "e_id r = i" and "e_org r = org" and "e_status r = ''draft''"
    and "d' = d\<lparr>entries := set_status i ''posted'' (entries d)\<rparr>"
    and "e = (JournalEntry_from_row (r\<lparr>e_status := ''posted''\<rparr>))\<lparr>lines := load_lines p d' (JournalEntry_from_row r)\<rparr>"
proof -
  from assms(1) obtain r' where u: "update_status i org ''draft'' ''posted'' d = Inr (Some r', d')"
    and e: "e = (JournalEntry_from_row r')\<lparr>lines := load_lines p d' (JournalEntry_from_row r')\<rparr>"
    by (auto simp: post_txn_def Let_def split: option.splits)
  from u assms(2) obtain r where r: "r \<in> set (entries d)" "e_id r = i" "e_org r = org" "e_status r = ''draft''"
      "r' = r\<lparr>e_status := ''posted''\<rparr>" "d' = d\<lparr>entries := set_status i ''posted'' (entries d)\<rparr>"
    by (rule update_status_spec)
  moreover have "load_lines p d' (JournalEntry_from_row r) = load_lines p d' (JournalEntry_from_row r')"
    using r(5) by (simp add: load_lines_def JournalEntry_from_row_def)
  ultimately show thesis using e that [of r] by simp
qed

lemma reverse_txn_spec:
  assumes "reverse_txn p gen now org user original ls d = Inr (e, d')"
    and "distinct (map l_id (jlines d))" and "distinct (map e_id (entries d))"
    and "\<forall>l \<in> set (jlines d). l_entry l \<in> e_id ` set (entries d)" and "ls \<noteq> []"
    and "je_id original \<in> e_id ` set (entries d)"
  obtains er rows r where "new_entry p org mirrored_side now ls d er rows"
    and "r \<in> set (entries d)" and "e_id r = je_id original" and "e_org r = org" and "e_status r = ''posted''"
    and "e_reverses er = Some (je_id original)" and "e_description er = storno_prefix @ description original"
    and "d' = d\<lparr>entries := set_status (je_id original) ''reversed'' (entries d) @ [er\<lparr>e_status := ''posted''\<rparr>],
               jlines := jlines d @ rows\<rparr>"
    and "entry_diff d' (e_id er) = 0"
    and "e = (JournalEntry_from_row (er\<lparr>e_status := ''posted''\<rparr>))\<lparr>lines := map (JournalLine_from_row p) rows\<rparr>"
proof -
  from assms(1) obtain er d1 rs d2 pr d3 orr d4 where
    ie: "insert_entry p (gen 0) now org (entry_date original) (storno_prefix @ description original)
           (Some (je_id original)) user d = Inr (er, d1)"
    and il: "insert_lines p gen now org (e_id er) mirrored_side 1 ls d1 = Inr (rs, d2)"
    and up: "update_status (e_id er) org ''draft'' ''posted'' d2 = Inr (Some pr, d3)"
    and uo: "update_status (je_id original) org ''posted'' ''reversed'' d3 = Inr (Some orr, d4)"
    and cm: "commit (map entry_id rs) d4 = Inr d'"
    and e: "e = (JournalEntry_from_row er)\<lparr>lines := rs, status := e_status pr\<rparr>"
    by (auto simp: reverse_txn_def Let_def JournalEntry_from_row_def split: option.splits prod.splits)
  obtain rows where n: "new_entry p org mirrored_side now ls d er rows" and d2: "d2 = add_entry er rows d"
    and rs: "rs = map (JournalLine_from_row p) rows"
    by (rule insert_new_entry [OF ie il assms(2)])
  note es = insert_entry_spec [OF ie]
  have dist: "distinct (map e_id (entries d2))" using d2 es assms(3) by auto
  obtain a where a: "pr = a\<lparr>e_status := ''posted''\<rparr>" "a \<in> set (entries d2)" "e_id a = e_id er"
      "d3 = d2\<lparr>entries := set_status (e_id er) ''posted'' (entries d2)\<rparr>"
    by (rule update_status_spec [OF up dist]) blast
  have old: "set_status (e_id er) st (entries d) = entries d" for st
    using es(2,3) by (intro map_idI) (metis imageI)
  have d3: "d3 = d\<lparr>entries := entries d @ [er\<lparr>e_status := ''posted''\<rparr>], jlines := jlines d @ rows\<rparr>"
    unfolding a(4) d2 by (simp add: old)
  have dist3: "distinct (map e_id (entries d3))" using d3 es assms(3) by auto
  obtain b where b: "b \<in> set (entries d3)" "e_id b = je_id original" "e_org b = org" "e_status b = ''posted''"
      "d4 = d3\<lparr>entries := set_status (je_id original) ''reversed'' (entries d3)\<rparr>"
    by (rule update_status_spec [OF uo dist3]) blast
  have orig: "je_id original \<noteq> e_id er"
    using es(2,3) assms(6) by auto
  have "length rows = length ls" using n by (auto simp: new_entry_def dest: list_all2_lengthD)
  then obtain r where r: "r \<in> set rows" using assms(5) by (cases rows) auto
  moreover have "l_entry r = e_id er"
    using n r by (auto simp: new_entry_def row_for_def list_all2_conv_all_nth in_set_conv_nth)
  ultimately have "e_id er \<in> set (map entry_id rs)" using rs by (force simp: JournalLine_from_row_def)
  with commit_Inr [OF cm] have c: "d' = d4" "entry_diff d' (e_id er) = 0" by auto
  show thesis
  proof (rule that [of er rows b])
    show "b \<in> set (entries d)" using b(1,2) d3 orig by auto
    show "d' = d\<lparr>entries := set_status (je_id original) ''reversed'' (entries d) @ [er\<lparr>e_status := ''posted''\<rparr>],
               jlines := jlines d @ rows\<rparr>"
      using c(1) b(5) d3 orig by simp
    show "e = (JournalEntry_from_row (er\<lparr>e_status := ''posted''\<rparr>))\<lparr>lines := map (JournalLine_from_row p) rows\<rparr>"
      using e a(1) rs by (simp add: JournalEntry_from_row_def)
  qed (use n b c es in auto)
qed

section \<open>The invariant\<close>

definition keys_ok :: "db \<Rightarrow> bool" where
  "keys_ok d \<longleftrightarrow>
     distinct (map e_id (entries d)) \<and> distinct (map l_id (jlines d)) \<and>
     (\<forall>l \<in> set (jlines d). \<exists>e \<in> set (entries d). e_id e = l_entry l \<and> e_org e = l_org l)"

definition line_ok :: "line_row \<Rightarrow> bool" where
  "line_ok l \<longleftrightarrow>
     0 < l_amount l \<and> l_amount l < 10 ^ 18 \<and> (l_side l = ''debit'' \<or> l_side l = ''credit'') \<and>
     (\<forall>v \<in> set_option (l_vat l). 0 \<le> v \<and> v < 10 ^ 18)"

definition balanced :: "db \<Rightarrow> bool" where
  "balanced d \<longleftrightarrow>
     (\<forall>e \<in> set (entries d). 2 \<le> length (lines_of d (e_id e)) \<and> entry_diff d (e_id e) = 0)"

text \<open>A storno holds the lines of its original with the sides exchanged.\<close>

definition line_content :: "line_row \<Rightarrow> string \<times> string \<times> int \<times> string option \<times> int option" where
  "line_content l = (l_account l, l_side l, l_amount l, l_counterparty l, l_vat l)"

definition mirrored :: "line_row \<Rightarrow> line_row" where
  "mirrored l = l\<lparr>l_side := mirrored_side (l_side l)\<rparr>"

definition mirror_of :: "line_row list \<Rightarrow> line_row list \<Rightarrow> bool" where
  "mirror_of ls ms \<longleftrightarrow> mset (map (\<lambda>l. line_content (mirrored l)) ls) = mset (map line_content ms)"

definition storno_ok :: "db \<Rightarrow> bool" where
  "storno_ok d \<longleftrightarrow>
     (\<forall>s \<in> set (entries d). \<forall>i. e_reverses s = Some i \<longrightarrow>
        e_status s \<noteq> ''draft'' \<and> mirror_of (lines_of d i) (lines_of d (e_id s)) \<and>
        (\<exists>e \<in> set (entries d). e_id e = i \<and> e_org e = e_org s \<and> e_status e = ''reversed'')) \<and>
     (\<forall>e \<in> set (entries d). e_status e = ''reversed'' \<longrightarrow> (\<exists>s \<in> set (entries d). e_reverses s = Some (e_id e))) \<and>
     (\<forall>s \<in> set (entries d). \<forall>s' \<in> set (entries d). e_reverses s = e_reverses s' \<longrightarrow> e_reverses s \<noteq> None \<longrightarrow> e_id s = e_id s')"

definition status_ok :: "db \<Rightarrow> bool" where
  "status_ok d \<longleftrightarrow>
     (\<forall>e \<in> set (entries d). e_status e = ''draft'' \<or> e_status e = ''posted'' \<or> e_status e = ''reversed'')"

definition journal_ok :: "db \<Rightarrow> bool" where
  "journal_ok d \<longleftrightarrow>
     keys_ok d \<and> (\<forall>l \<in> set (jlines d). line_ok l) \<and> balanced d \<and> storno_ok d \<and> status_ok d"

lemma keys_okD:
  assumes "keys_ok d"
  shows "distinct (map e_id (entries d))" and "distinct (map l_id (jlines d))"
    and "\<forall>l \<in> set (jlines d). l_entry l \<in> e_id ` set (entries d)"
  using assms unfolding keys_ok_def by (blast, blast, metis imageI)

section \<open>Preservation\<close>

lemma new_rows_ok:
  assumes "new_entry p org flip now ls d er rows" and "r \<in> set rows"
  shows "line_ok r" and "l_entry r = e_id er" and "l_org r = org"
proof -
  obtain line where "row_for p org (e_id er) flip now line r"
    using assms by (auto simp: new_entry_def list_all2_conv_all_nth in_set_conv_nth)
  then show "line_ok r" and "l_entry r = e_id er" and "l_org r = org"
    by (auto simp: row_for_def line_ok_def elim!: option.rel_cases)
qed

lemma keys_ok_add:
  assumes "keys_ok d" and n: "new_entry p org flip now ls d er rows"
    and pairs: "map (\<lambda>e. (e_id e, e_org e)) es = map (\<lambda>e. (e_id e, e_org e)) (entries d)"
    and er': "e_id er' = e_id er" "e_org er' = e_org er"
  shows "keys_ok (d\<lparr>entries := es @ [er'], jlines := jlines d @ rows\<rparr>)"
proof -
  have es: "map e_id es = map e_id (entries d)"
    using arg_cong [OF pairs, of "map fst"] by (simp add: comp_def)
  have "\<exists>e \<in> set (es @ [er']). e_id e = l_entry l \<and> e_org e = l_org l" if l: "l \<in> set (jlines d @ rows)" for l
  proof (cases "l \<in> set rows")
    case True
    then show ?thesis using new_rows_ok [OF n True] n er' by (auto simp: new_entry_def)
  next
    case False
    with l assms(1) obtain e where "e \<in> set (entries d)" "e_id e = l_entry l" "e_org e = l_org l"
      by (auto simp: keys_ok_def)
    then have "(l_entry l, l_org l) \<in> set (map (\<lambda>e. (e_id e, e_org e)) es)"
      unfolding pairs by (auto intro: rev_image_eqI)
    then show ?thesis by auto
  qed
  moreover have "e_id ` set es = e_id ` set (entries d)" using es by (metis set_map)
  ultimately show ?thesis
    using assms n es by (auto simp: keys_ok_def new_entry_def)
qed

lemma mirror_of_new:
  assumes "new_entry p org mirrored_side now (map (JournalLine_from_row p) ols) d er rows"
    and "\<forall>l \<in> set ols. line_ok l" and "\<forall>t. 0 \<le> t \<and> t < 10 ^ 18 \<longrightarrow> num_in p (num_out p t) = Some t"
  shows "map line_content rows = map (\<lambda>l. line_content (mirrored l)) ols"
proof (rule nth_equalityI)
  have l2: "list_all2 (row_for p org (e_id er) mirrored_side now) (map (JournalLine_from_row p) ols) rows"
    using assms(1) by (simp add: new_entry_def)
  then show len: "length (map line_content rows) = length (map (\<lambda>l. line_content (mirrored l)) ols)"
    by (auto dest: list_all2_lengthD)
  fix i assume i: "i < length (map line_content rows)"
  with l2 len have "row_for p org (e_id er) mirrored_side now (JournalLine_from_row p (ols ! i)) (rows ! i)"
    by (simp add: list_all2_conv_all_nth)
  moreover have "line_ok (ols ! i)" using assms(2) i len by simp
  ultimately have "line_content (rows ! i) = line_content (mirrored (ols ! i))"
    using assms(3) by (auto simp: row_for_def JournalLine_from_row_def line_content_def mirrored_def line_ok_def
        elim!: option.rel_cases)
  then show "map line_content rows ! i = map (\<lambda>l. line_content (mirrored l)) ols ! i"
    using i len by simp
qed

lemma storno_okD:
  assumes "journal_ok d"
  shows "s \<in> set (entries d) \<Longrightarrow> e_reverses s = Some i \<Longrightarrow> e_status s \<noteq> ''draft''"
    and "s \<in> set (entries d) \<Longrightarrow> e_reverses s = Some i \<Longrightarrow> mirror_of (lines_of d i) (lines_of d (e_id s))"
    and "s \<in> set (entries d) \<Longrightarrow> e_reverses s = Some i \<Longrightarrow>
      \<exists>e \<in> set (entries d). e_id e = i \<and> e_org e = e_org s \<and> e_status e = ''reversed''"
    and "e \<in> set (entries d) \<Longrightarrow> e_status e = ''reversed'' \<Longrightarrow> \<exists>s \<in> set (entries d). e_reverses s = Some (e_id e)"
    and "s \<in> set (entries d) \<Longrightarrow> s' \<in> set (entries d) \<Longrightarrow> e_reverses s = Some i \<Longrightarrow> e_reverses s' = Some i \<Longrightarrow> e_id s = e_id s'"
proof -
  have "storno_ok d" using assms by (simp add: journal_ok_def)
  note st = this [unfolded storno_ok_def]
  show "s \<in> set (entries d) \<Longrightarrow> e_reverses s = Some i \<Longrightarrow> e_status s \<noteq> ''draft''"
    and "s \<in> set (entries d) \<Longrightarrow> e_reverses s = Some i \<Longrightarrow> mirror_of (lines_of d i) (lines_of d (e_id s))"
    and "s \<in> set (entries d) \<Longrightarrow> e_reverses s = Some i \<Longrightarrow>
      \<exists>e \<in> set (entries d). e_id e = i \<and> e_org e = e_org s \<and> e_status e = ''reversed''"
    using st by blast+
  show "e \<in> set (entries d) \<Longrightarrow> e_status e = ''reversed'' \<Longrightarrow> \<exists>s \<in> set (entries d). e_reverses s = Some (e_id e)"
    using st by blast
  show "s \<in> set (entries d) \<Longrightarrow> s' \<in> set (entries d) \<Longrightarrow> e_reverses s = Some i \<Longrightarrow> e_reverses s' = Some i \<Longrightarrow> e_id s = e_id s'"
    using st by (metis option.discI)
qed

lemma storno_okI:
  assumes "\<And>s i. s \<in> set (entries d) \<Longrightarrow> e_reverses s = Some i \<Longrightarrow>
      e_status s \<noteq> ''draft'' \<and> mirror_of (lines_of d i) (lines_of d (e_id s)) \<and>
      (\<exists>e \<in> set (entries d). e_id e = i \<and> e_org e = e_org s \<and> e_status e = ''reversed'')"
    and "\<And>e. e \<in> set (entries d) \<Longrightarrow> e_status e = ''reversed'' \<Longrightarrow> \<exists>s \<in> set (entries d). e_reverses s = Some (e_id e)"
    and "\<And>s s' i. s \<in> set (entries d) \<Longrightarrow> s' \<in> set (entries d) \<Longrightarrow> e_reverses s = Some i \<Longrightarrow> e_reverses s' = Some i \<Longrightarrow>
      e_id s = e_id s'"
  shows "storno_ok d"
  unfolding storno_ok_def
proof (intro conjI)
  show "\<forall>s \<in> set (entries d). \<forall>s' \<in> set (entries d). e_reverses s = e_reverses s' \<longrightarrow> e_reverses s \<noteq> None \<longrightarrow> e_id s = e_id s'"
    using assms(3) by (metis not_Some_eq)
qed (use assms(1,2) in blast)+

lemma set_status_iff:
  assumes "distinct (map e_id es)" and "r \<in> set es"
  shows "e \<in> set (set_status (e_id r) st es) \<longleftrightarrow> e = r\<lparr>e_status := st\<rparr> \<or> e \<in> set es \<and> e_id e \<noteq> e_id r"
proof -
  have "x = r" if "x \<in> set es" "e_id x = e_id r" for x using key_eqD [OF assms(1) that(2,1) assms(2)] .
  then show ?thesis using assms(2) by auto
qed

lemma journal_ok_draft:
  assumes ok: "journal_ok d" and n: "new_entry p org flip now ls d er rows" and "e_reverses er = None"
    and "2 \<le> length ls" and diff: "entry_diff (add_entry er rows d) (e_id er) = 0"
  shows "journal_ok (add_entry er rows d)"
proof -
  have k: "keys_ok d" using ok by (simp add: journal_ok_def)
  note lo = new_entry_lines [OF n keys_okD(3) [OF k]]
  have fresh: "e_id e \<noteq> e_id er" if "e \<in> set (entries d)" for e
    using n that by (metis new_entry_def imageI)
  have len: "length rows = length ls" using n by (auto simp: new_entry_def dest: list_all2_lengthD)
  have "keys_ok (add_entry er rows d)" by (rule keys_ok_add [OF k n]) simp_all
  moreover have "balanced (add_entry er rows d)"
    using ok diff assms(4) len fresh by (auto simp: journal_ok_def balanced_def lo entry_diff_def)
  moreover have "storno_ok (add_entry er rows d)"
  proof (rule storno_okI, goal_cases)
    case (1 s i)
    then have s: "s \<in> set (entries d)" using assms(3) by auto
    note so = storno_okD(1-3) [OF ok s 1(2)]
    then show ?case using fresh [OF s] fresh by (auto simp: lo)
  next
    case (2 e)
    then have "e \<in> set (entries d)" using n by (auto simp: new_entry_def)
    from storno_okD(4) [OF ok this 2(2)] show ?case by auto
  next
    case (3 s s' i)
    then show ?case using assms(3) storno_okD(5) [OF ok, of s s' i] by auto
  qed
  moreover have "\<forall>l \<in> set (jlines (add_entry er rows d)). line_ok l"
    using ok new_rows_ok(1) [OF n] by (auto simp: journal_ok_def)
  moreover have "status_ok (add_entry er rows d)"
    using ok n by (auto simp: journal_ok_def status_ok_def new_entry_def)
  ultimately show ?thesis unfolding journal_ok_def by blast
qed

lemma journal_ok_posted:
  assumes ok: "journal_ok d" and r: "r \<in> set (entries d)" "e_id r = i" "e_status r = ''draft''"
    and d': "d' = d\<lparr>entries := set_status i ''posted'' (entries d)\<rparr>"
  shows "journal_ok d'"
proof -
  have k: "keys_ok d" using ok by (simp add: journal_ok_def)
  have lo: "lines_of d' j = lines_of d j" for j by (simp add: lines_of_def d')
  have es: "e \<in> set (entries d') \<longleftrightarrow> e = r\<lparr>e_status := ''posted''\<rparr> \<or> e \<in> set (entries d) \<and> e_id e \<noteq> i" for e
    unfolding d' using set_status_iff [OF keys_okD(1) [OF k] r(1)] r(2) by simp
  have old: "\<exists>s0 \<in> set (entries d). e_id s0 = e_id s \<and> e_reverses s0 = e_reverses s \<and> e_org s0 = e_org s \<and>
      (e_status s = ''reversed'' \<longrightarrow> s0 = s) \<and> (e_status s = ''draft'' \<longrightarrow> s0 = s)" if "s \<in> set (entries d')" for s
    using that [unfolded es] r(1) by (elim disjE) (force, blast)
  have keep: "\<exists>s' \<in> set (entries d'). e_id s' = e_id s \<and> e_reverses s' = e_reverses s \<and> e_org s' = e_org s \<and>
      (e_status s = ''reversed'' \<longrightarrow> e_status s' = ''reversed'')" if "s \<in> set (entries d)" for s
  proof (cases "e_id s = i")
    case True
    then have "s = r" using key_eqD [OF keys_okD(1) [OF k] _ that r(1)] r(2) by simp
    moreover have "r\<lparr>e_status := ''posted''\<rparr> \<in> set (entries d')" unfolding es by simp
    ultimately show ?thesis using r(3) by (intro bexI [of _ "r\<lparr>e_status := ''posted''\<rparr>"]) simp_all
  next
    case False
    then show ?thesis using that es by blast
  qed
  have "keys_ok d'"
    unfolding keys_ok_def
  proof (intro conjI ballI)
    have "map e_id (entries d') = map e_id (entries d)" unfolding d' by simp
    then show "distinct (map e_id (entries d'))" using k by (simp only: keys_ok_def)
    show "distinct (map l_id (jlines d'))" using k by (simp add: keys_ok_def d')
    show "\<exists>e \<in> set (entries d'). e_id e = l_entry l \<and> e_org e = l_org l" if l: "l \<in> set (jlines d')" for l
    proof -
      have "l \<in> set (jlines d)" using l by (simp add: d')
      then obtain e where e: "e \<in> set (entries d)" "e_id e = l_entry l" "e_org e = l_org l"
        using k unfolding keys_ok_def by blast
      obtain s' where "s' \<in> set (entries d')" and s': "e_id s' = e_id e" "e_org s' = e_org e"
        using keep [OF e(1)] by blast
      from this(1) show ?thesis by (rule rev_bexI) (simp only: s' e simp_thms)
    qed
  qed
  moreover have "balanced d'"
    unfolding balanced_def entry_diff_def lo
  proof
    fix e assume "e \<in> set (entries d')"
    then obtain e0 where "e0 \<in> set (entries d)" and e0: "e_id e0 = e_id e" using old by blast
    then show "2 \<le> length (lines_of d (e_id e)) \<and> sum_list (map signed_amount (lines_of d (e_id e))) = 0"
      using ok unfolding journal_ok_def balanced_def entry_diff_def by (simp flip: e0)
  qed
  moreover have "storno_ok d'"
  proof (rule storno_okI, goal_cases)
    case (1 s j)
    then obtain s0 where s0: "s0 \<in> set (entries d)" "e_id s0 = e_id s" "e_reverses s0 = Some j" "e_org s0 = e_org s"
        "e_status s = ''draft'' \<longrightarrow> s0 = s" using old [OF 1(1)] by auto
    note so = storno_okD(1-3) [OF ok s0(1,3)]
    then show ?case unfolding lo using s0 keep by metis
  next
    case (2 e)
    then have "e \<in> set (entries d)" using old by metis
    from storno_okD(4) [OF ok this 2(2)] keep show ?case by metis
  next
    case (3 s s' i)
    then show ?case using old [OF 3(1)] old [OF 3(2)] storno_okD(5) [OF ok] by metis
  qed
  moreover have "status_ok d'" using ok by (auto simp: journal_ok_def status_ok_def es)
  moreover have "jlines d' = jlines d" unfolding d' by simp
  ultimately show ?thesis using ok unfolding journal_ok_def by simp
qed

lemma journal_ok_reversed:
  assumes ok: "journal_ok d" and n: "new_entry p org mirrored_side now ls d er rows"
    and r: "r \<in> set (entries d)" "e_id r = i" "e_org r = org" "e_status r = ''posted''" and rev: "e_reverses er = Some i"
    and m: "mirror_of (lines_of d i) rows" and "2 \<le> length ls"
    and d': "d' = d\<lparr>entries := set_status i ''reversed'' (entries d) @ [er\<lparr>e_status := ''posted''\<rparr>], jlines := jlines d @ rows\<rparr>"
    and diff: "entry_diff d' (e_id er) = 0"
  shows "journal_ok d'"
proof -
  have k: "keys_ok d" using ok by (simp add: journal_ok_def)
  have lo: "lines_of d' j = (if j = e_id er then rows else lines_of d j)" for j
    unfolding d' by (rule new_entry_lines [OF n keys_okD(3) [OF k]])
  have fresh: "e_id e \<noteq> e_id er" if "e \<in> set (entries d)" for e
    using n that by (metis new_entry_def imageI)
  have only: "e = r" if "e \<in> set (entries d)" "e_id e = i" for e
    using key_eqD [OF keys_okD(1) [OF k] _ that(1) r(1)] that(2) r(2) by simp
  have none: "e_reverses s \<noteq> Some i" if "s \<in> set (entries d)" for s
    using storno_okD(3) [OF ok that] only r(4) by auto
  have len: "length rows = length ls" using n by (auto simp: new_entry_def dest: list_all2_lengthD)
  have st: "e_status er = ''draft''" "e_org er = org" using n by (simp_all add: new_entry_def)
  have es: "e \<in> set (entries d') \<longleftrightarrow> e = er\<lparr>e_status := ''posted''\<rparr> \<or> e = r\<lparr>e_status := ''reversed''\<rparr> \<or>
      e \<in> set (entries d) \<and> e_id e \<noteq> i" for e
    unfolding d' using set_status_iff [OF keys_okD(1) [OF k] r(1)] r(2) by auto
  have "keys_ok d'"
    unfolding d' by (rule keys_ok_add [OF k n]) simp_all
  moreover have "balanced d'"
    using ok diff assms(9) len fresh r(1,2) by (auto simp: journal_ok_def balanced_def lo entry_diff_def es)
  moreover have "storno_ok d'"
  proof -
    have mir: "mirror_of (lines_of d' j) (lines_of d' (e_id s))" "\<exists>e \<in> set (entries d). e_id e = j \<and> e_org e = e_org s \<and> e_status e = ''reversed''"
      "e_status s \<noteq> ''draft''" if s: "s \<in> set (entries d)" "e_reverses s = Some j" for s j
    proof -
      note so = storno_okD(1-3) [OF ok s]
      show e: "\<exists>e \<in> set (entries d). e_id e = j \<and> e_org e = e_org s \<and> e_status e = ''reversed''" "e_status s \<noteq> ''draft''"
        using so by blast+
      from so show "mirror_of (lines_of d' j) (lines_of d' (e_id s))" using e(1) fresh s(1) by (auto simp: lo)
    qed
    have old: "\<exists>s0 \<in> set (entries d). e_id s0 = e_id s \<and> e_reverses s0 = e_reverses s \<and> e_org s0 = e_org s \<and>
        (e_status s = ''draft'' \<longrightarrow> e_status s0 = ''draft'')" if "s \<in> set (entries d')" "e_id s \<noteq> e_id er" for s
      using that(1) [unfolded es] that(2) r(1) by (elim disjE) (simp, force, blast)
    have new: "s = er\<lparr>e_status := ''posted''\<rparr>" if "s \<in> set (entries d')" "e_id s = e_id er" for s
      using that r(1) fresh by (auto simp: es)
    have keep: "\<exists>s' \<in> set (entries d'). e_id s' = e_id s \<and> e_reverses s' = e_reverses s" if "s \<in> set (entries d)" for s
    proof (cases "e_id s = i")
      case True
      then have "s = r" using only that by simp
      then show ?thesis by (intro bexI [of _ "r\<lparr>e_status := ''reversed''\<rparr>"]) (simp_all add: es)
    next
      case False
      then show ?thesis using that es by blast
    qed
    have part1: "e_status s \<noteq> ''draft'' \<and> mirror_of (lines_of d' j) (lines_of d' (e_id s)) \<and>
        (\<exists>e \<in> set (entries d'). e_id e = j \<and> e_org e = e_org s \<and> e_status e = ''reversed'')"
      if s: "s \<in> set (entries d')" "e_reverses s = Some j" for s j
    proof (cases "e_id s = e_id er")
      case True
      then have "s = er\<lparr>e_status := ''posted''\<rparr>"
        using new [OF s(1)] by simp
      moreover have "j = i" using calculation s(2) rev by simp
      ultimately show ?thesis using m fresh [OF r(1)] r st
        by (simp add: lo) (intro bexI [of _ "r\<lparr>e_status := ''reversed''\<rparr>"], simp_all add: es)
    next
      case False
      then obtain s0 where s0: "s0 \<in> set (entries d)" "e_id s0 = e_id s" "e_reverses s0 = Some j" "e_org s0 = e_org s"
          "e_status s = ''draft'' \<longrightarrow> e_status s0 = ''draft''"
        using old [OF s(1)] s(2) by auto
      then obtain e where "e \<in> set (entries d)" "e_id e = j" "e_org e = e_org s" "e_status e = ''reversed''"
        using mir(2) by metis
      moreover have "j \<noteq> i" using calculation only r(4) by auto
      ultimately show ?thesis using mir(1,3) [OF s0(1,3)] s0 by (auto simp: es)
    qed
    have part2: "\<exists>s \<in> set (entries d'). e_reverses s = Some (e_id e)"
      if e: "e \<in> set (entries d')" "e_status e = ''reversed''" for e
    proof (cases "e_id e = i")
      case True
      then show ?thesis using rev by (intro bexI [of _ "er\<lparr>e_status := ''posted''\<rparr>"]) (simp_all add: es)
    next
      case False
      with e r(2) have "e \<in> set (entries d)" using st by (auto simp: es)
      then obtain s where "s \<in> set (entries d)" "e_reverses s = Some (e_id e)"
        using storno_okD(4) [OF ok _ e(2)] by blast
      then show ?thesis using keep by metis
    qed
    have part3: "e_id s = e_id s'"
      if s: "s \<in> set (entries d')" "s' \<in> set (entries d')" "e_reverses s = Some j" "e_reverses s' = Some j" for s s' j
    proof -
      have "e_reverses t \<noteq> Some i" if "t \<in> set (entries d')" "e_id t \<noteq> e_id er" for t
        using old [OF that] none by metis
      moreover have "e_reverses t = Some i" if "t \<in> set (entries d')" "e_id t = e_id er" for t
        using new [OF that] rev by simp
      moreover have "e_id s = e_id s'" if "e_id s \<noteq> e_id er" "e_id s' \<noteq> e_id er"
        using old [OF s(1) that(1)] old [OF s(2) that(2)] s(3,4) storno_okD(5) [OF ok] by metis
      ultimately show ?thesis using s by metis
    qed
    show ?thesis by (rule storno_okI [OF part1 part2 part3])
  qed
  moreover have "\<forall>l \<in> set (jlines d'). line_ok l"
    using ok new_rows_ok(1) [OF n] by (auto simp: journal_ok_def d')
  moreover have "status_ok d'"
    using ok by (auto simp: journal_ok_def status_ok_def es)
  ultimately show ?thesis unfolding journal_ok_def by blast
qed

section \<open>Interleaved callers\<close>

text \<open>
  A state of the running system is the database and the storno calls in flight: those that
  have passed their guard and hold the entry and the lines they read, but whose transaction
  has not run yet. \<open>other\<close> covers every change of the other tables. A call that raises rolls
  back, so it is no step.
\<close>

record journal_sys =
  store :: db
  in_flight :: "(string \<times> JournalEntry \<times> JournalLine list) list"

inductive jstep :: "pg \<Rightarrow> journal_sys \<Rightarrow> journal_sys \<Rightarrow> bool" for p :: pg where
  draft: "create_draft p rd gen now org user date descr ls (store s) = Inr (e, d') \<Longrightarrow>
    jstep p s (s\<lparr>store := d'\<rparr>)"
| post: "post_txn p org i (store s) = Inr (e, d') \<Longrightarrow> jstep p s (s\<lparr>store := d'\<rparr>)"
| reverse_begin: "reverse_guard p (store s) org i = Inr (Some (original, ls)) \<Longrightarrow>
    jstep p s (s\<lparr>in_flight := (org, original, ls) # in_flight s\<rparr>)"
| reverse_end: "(org, original, ls) \<in> set (in_flight s) \<Longrightarrow>
    reverse_txn p gen now org user original ls (store s) = Inr (e, d') \<Longrightarrow> jstep p s (s\<lparr>store := d'\<rparr>)"
| other: "entries d' = entries (store s) \<Longrightarrow> jlines d' = jlines (store s) \<Longrightarrow> jstep p s (s\<lparr>store := d'\<rparr>)"

inductive_cases jstepE: "jstep p s s'"

inductive jreach :: "pg \<Rightarrow> journal_sys \<Rightarrow> bool" for p :: pg where
  start: "entries d = [] \<Longrightarrow> jlines d = [] \<Longrightarrow> jreach p \<lparr>store = d, in_flight = []\<rparr>"
| step: "jreach p s \<Longrightarrow> jstep p s s' \<Longrightarrow> jreach p s'"

text \<open>
  What the journal relies on in PostgreSQL: a decimal that \<open>parse_tiyn\<close> reads is stored as the
  same number, and a number printed by the database is read back as itself; likewise a date.
\<close>

definition pg_ok :: "pg \<Rightarrow> bool" where
  "pg_ok p \<longleftrightarrow>
     (\<forall>s t. parse_tiyn s = Inr t \<longrightarrow> num_in p s = Some t) \<and>
     (\<forall>t. 0 \<le> t \<and> t < 10 ^ 18 \<longrightarrow> num_in p (num_out p t) = Some t) \<and>
     (\<forall>s dt. date_in p s = Some dt \<longrightarrow> date_in p dt = Some dt)"

definition flight_ok :: "pg \<Rightarrow> db \<Rightarrow> string \<times> JournalEntry \<times> JournalLine list \<Rightarrow> bool" where
  "flight_ok p d f \<longleftrightarrow>
     (case f of (org, original, ls) \<Rightarrow>
        (\<exists>e \<in> set (entries d). e_id e = je_id original \<and> e_org e = org \<and> e_status e \<noteq> ''draft'') \<and>
        ls = load_lines p d original)"

definition sys_ok :: "pg \<Rightarrow> journal_sys \<Rightarrow> bool" where
  "sys_ok p s \<longleftrightarrow> journal_ok (store s) \<and> (\<forall>f \<in> set (in_flight s). flight_ok p (store s) f)"

lemma load_lines_sorted:
  obtains ols where "load_lines p d e = map (JournalLine_from_row p) ols" and "mset ols = mset (lines_of d (je_id e))"
  by (simp add: load_lines_def)

lemma load_lines_cong: "lines_of d' (je_id e) = lines_of d (je_id e) \<Longrightarrow> load_lines p d' e = load_lines p d e"
  by (simp add: load_lines_def)

text \<open>How a step may change what is already there.\<close>

definition evolves :: "entry_row \<Rightarrow> entry_row \<Rightarrow> bool" where
  "evolves e e' \<longleftrightarrow>
     e' = e \<or> e_status e = ''draft'' \<and> e' = e\<lparr>e_status := ''posted''\<rparr> \<or>
     e_status e = ''posted'' \<and> e' = e\<lparr>e_status := ''reversed''\<rparr>"

definition keeps :: "db \<Rightarrow> db \<Rightarrow> bool" where
  "keeps d d' \<longleftrightarrow>
     (\<forall>e \<in> set (entries d). lines_of d' (e_id e) = lines_of d (e_id e) \<and> (\<exists>e' \<in> set (entries d'). evolves e e'))"

lemma evolves_same: "evolves e e' \<Longrightarrow> e_id e' = e_id e \<and> e_org e' = e_org e \<and> (e_status e \<noteq> ''draft'' \<longrightarrow> e_status e' \<noteq> ''draft'')"
  by (auto simp: evolves_def)

lemma keeps_refl: "entries d' = entries d \<Longrightarrow> jlines d' = jlines d \<Longrightarrow> keeps d d'"
  by (auto simp: keeps_def evolves_def lines_of_def)

lemma flight_ok_keeps:
  assumes "flight_ok p d f" and "keeps d d'"
  shows "flight_ok p d' f"
proof -
  obtain org original ls where f: "f = (org, original, ls)" by (cases f)
  with assms(1) obtain e where e: "e \<in> set (entries d)" "e_id e = je_id original" "e_org e = org"
      "e_status e \<noteq> ''draft''" and ls: "ls = load_lines p d original"
    by (auto simp: flight_ok_def)
  from assms(2) e(1) obtain e' where "e' \<in> set (entries d')" "evolves e e'" "lines_of d' (e_id e) = lines_of d (e_id e)"
    unfolding keeps_def by blast
  with e ls f show ?thesis
    using evolves_same [of e e'] load_lines_cong [of d' original d p] by (auto simp: flight_ok_def)
qed

lemma create_draft_keeps:
  assumes "create_draft p rd gen now org user date descr ls d = Inr (e, d')" and "keys_ok d"
  shows "keeps d d'"
proof -
  obtain er rows where n: "new_entry p org (\<lambda>s. s) now ls d er rows" and d': "d' = add_entry er rows d"
    by (rule create_draft_spec [OF assms(1) keys_okD(2) [OF assms(2)]])
  have "e_id x \<noteq> e_id er" if "x \<in> set (entries d)" for x using n that by (metis new_entry_def imageI)
  then show ?thesis
    unfolding keeps_def d' new_entry_lines [OF n keys_okD(3) [OF assms(2)]] by (auto simp: evolves_def)
qed

lemma set_status_evolves:
  assumes "distinct (map e_id es)" and "r \<in> set es" and "evolves r (r\<lparr>e_status := st\<rparr>)" and "x \<in> set es"
  shows "\<exists>x' \<in> set (set_status (e_id r) st es). evolves x x'"
proof (cases "e_id x = e_id r")
  case True
  then have "x = r" using key_eqD [OF assms(1) _ assms(4,2)] by simp
  then show ?thesis using assms(3)
    by (intro bexI [of _ "r\<lparr>e_status := st\<rparr>"]) (simp_all add: set_status_iff [OF assms(1,2)] del: set_map)
next
  case False
  then show ?thesis using assms(4)
    by (intro bexI [of _ x]) (simp_all add: evolves_def set_status_iff [OF assms(1,2)] del: set_map)
qed

lemma post_txn_keeps:
  assumes "post_txn p org i d = Inr (e, d')" and "keys_ok d"
  shows "keeps d d'"
proof -
  obtain r where r: "r \<in> set (entries d)" "e_id r = i" "e_status r = ''draft''"
    and d': "d' = d\<lparr>entries := set_status i ''posted'' (entries d)\<rparr>"
    by (rule post_txn_spec [OF assms(1) keys_okD(1) [OF assms(2)]])
  have "\<exists>x' \<in> set (entries d'). evolves x x'" if "x \<in> set (entries d)" for x
    using set_status_evolves [OF keys_okD(1) [OF assms(2)] r(1) _ that] r(2,3)
    unfolding d' by (simp add: evolves_def del: set_map)
  then show ?thesis unfolding keeps_def by (simp add: d' lines_of_def)
qed

lemma flight_okE:
  assumes "flight_ok p d (org, original, ls)" and "journal_ok d"
  obtains ols where "ls = map (JournalLine_from_row p) ols" and "mset ols = mset (lines_of d (je_id original))"
    and "2 \<le> length ls" and "je_id original \<in> e_id ` set (entries d)" and "\<forall>l \<in> set ols. line_ok l"
proof -
  obtain ols where o: "ls = map (JournalLine_from_row p) ols" "mset ols = mset (lines_of d (je_id original))"
    using assms(1) load_lines_sorted [of p d original] by (auto simp: flight_ok_def)
  obtain e where e: "e \<in> set (entries d)" "e_id e = je_id original" using assms(1) by (auto simp: flight_ok_def)
  with assms(2) have "2 \<le> length (lines_of d (je_id original))" unfolding journal_ok_def balanced_def by metis
  then have len: "2 \<le> length ls" using o by (metis length_map size_mset)
  have "set ols = set (lines_of d (je_id original))" using o(2) by (metis set_mset_mset)
  then have "\<forall>l \<in> set ols. line_ok l" using assms(2) by (auto simp: journal_ok_def lines_of_def)
  moreover have "je_id original \<in> e_id ` set (entries d)" using e by (metis imageI)
  ultimately show thesis using that o len by metis
qed

lemma reverse_txn_ok:
  assumes "reverse_txn p gen now org user original ls d = Inr (e, d')" and ok: "journal_ok d"
    and f: "flight_ok p d (org, original, ls)" and pg: "pg_ok p"
  shows "journal_ok d'" and "keeps d d'"
proof -
  obtain ols where o: "ls = map (JournalLine_from_row p) ols" "mset ols = mset (lines_of d (je_id original))"
      "2 \<le> length ls" "je_id original \<in> e_id ` set (entries d)" "\<forall>l \<in> set ols. line_ok l"
    by (rule flight_okE [OF f ok])
  have k: "keys_ok d" using ok by (simp add: journal_ok_def)
  have ne: "ls \<noteq> []" using o(3) by auto
  obtain er rows r where n: "new_entry p org mirrored_side now ls d er rows"
    and r: "r \<in> set (entries d)" "e_id r = je_id original" "e_org r = org" "e_status r = ''posted''"
    and rv: "e_reverses er = Some (je_id original)"
    and d': "d' = d\<lparr>entries := set_status (je_id original) ''reversed'' (entries d) @ [er\<lparr>e_status := ''posted''\<rparr>],
               jlines := jlines d @ rows\<rparr>"
    and diff: "entry_diff d' (e_id er) = 0"
    by (rule reverse_txn_spec [OF assms(1) keys_okD(2,1,3) [OF k] ne o(4)])
  have "map line_content rows = map (\<lambda>l. line_content (mirrored l)) ols"
    using n [unfolded o(1)] o(5) by (rule mirror_of_new) (use pg in \<open>unfold pg_ok_def, blast\<close>)
  moreover have "mset (map g ols) = mset (map g (lines_of d (je_id original)))" for g :: "line_row \<Rightarrow> 'b"
    by (simp add: o(2))
  ultimately have "mirror_of (lines_of d (je_id original)) rows" unfolding mirror_of_def by metis
  then show "journal_ok d'"
    by (rule journal_ok_reversed [OF ok n r rv _ o(3) d' diff])
  have "\<exists>x' \<in> set (entries d'). evolves x x'" if "x \<in> set (entries d)" for x
  proof -
    have "evolves r (r\<lparr>e_status := ''reversed''\<rparr>)" using r(4) by (simp add: evolves_def)
    from set_status_evolves [OF keys_okD(1) [OF k] r(1) this that] obtain x' where
      x': "x' \<in> set (set_status (e_id r) ''reversed'' (entries d))" "evolves x x'" by blast
    have "set (entries d') = insert (er\<lparr>e_status := ''posted''\<rparr>) (set (set_status (e_id r) ''reversed'' (entries d)))"
      unfolding d' r(2) by simp
    with x' show ?thesis by blast
  qed
  moreover have "e_id x \<noteq> e_id er" if "x \<in> set (entries d)" for x using n that by (metis new_entry_def imageI)
  moreover have "lines_of d' i = (if i = e_id er then rows else lines_of d i)" for i
    unfolding d' by (rule new_entry_lines [OF n keys_okD(3) [OF k]])
  ultimately show "keeps d d'" by (simp add: keeps_def)
qed

lemma journal_ok_cong:
  assumes "entries d' = entries d" and "jlines d' = jlines d"
  shows "journal_ok d' = journal_ok d"
  unfolding journal_ok_def keys_ok_def balanced_def storno_ok_def status_ok_def lines_of_def entry_diff_def assms
  by (rule refl)

lemma jstep_ok:
  assumes "jstep p s s'" and ok: "sys_ok p s" and pg: "pg_ok p"
  shows "sys_ok p s' \<and> keeps (store s) (store s')"
proof -
  have j: "journal_ok (store s)" and k: "keys_ok (store s)" using ok by (simp_all add: sys_ok_def journal_ok_def)
  have "journal_ok (store s') \<and> keeps (store s) (store s') \<and> (\<forall>f \<in> set (in_flight s'). flight_ok p (store s) f)"
    using assms(1)
  proof cases
    case (draft rd gen now org user date descr ls e d')
    obtain er rows where "new_entry p org (\<lambda>s. s) now ls (store s) er rows" and d': "d' = add_entry er rows (store s)"
        and "2 \<le> length ls" and "e_reverses er = None" and "entry_diff d' (e_id er) = 0"
      by (rule create_draft_spec [OF draft(2) keys_okD(2) [OF k]])
    then have "journal_ok d'" unfolding d' by (intro journal_ok_draft [OF j])
    then show ?thesis using draft create_draft_keeps [OF draft(2) k] ok by (simp add: sys_ok_def)
  next
    case (post org i e d')
    obtain r where "r \<in> set (entries (store s))" "e_id r = i" "e_status r = ''draft''"
        "d' = (store s)\<lparr>entries := set_status i ''posted'' (entries (store s))\<rparr>"
      by (rule post_txn_spec [OF post(2) keys_okD(1) [OF k]])
    then have "journal_ok d'" by (rule journal_ok_posted [OF j])
    then show ?thesis using post post_txn_keeps [OF post(2) k] ok by (simp add: sys_ok_def)
  next
    case (reverse_begin org i original ls)
    have "flight_ok p (store s) (org, original, ls)"
      using reverse_begin(2)
      by (auto simp: reverse_guard_def flight_ok_def find_entry_def JournalEntry_from_row_def
          split: option.splits if_splits elim!: find_in_org_SomeD)
    then show ?thesis using reverse_begin ok by (simp add: sys_ok_def keeps_refl)
  next
    case (reverse_end org original ls gen now user e d')
    then have "flight_ok p (store s) (org, original, ls)" using ok by (simp add: sys_ok_def)
    from reverse_txn_ok [OF reverse_end(3) j this pg] show ?thesis using reverse_end ok by (simp add: sys_ok_def)
  next
    case (other d')
    then show ?thesis using ok j journal_ok_cong [of d' "store s"] by (simp add: sys_ok_def keeps_refl)
  qed
  then show ?thesis using flight_ok_keeps unfolding sys_ok_def by blast
qed

lemma jreach_ok: "jreach p s \<Longrightarrow> pg_ok p \<Longrightarrow> sys_ok p s"
proof (induction rule: jreach.induct)
  case (start d)
  then show ?case
    by (simp add: sys_ok_def journal_ok_def keys_ok_def balanced_def storno_ok_def status_ok_def)
qed (use jstep_ok in blast)

end
