(* ===== verification/JournalProperties.thy ===== *)
theory JournalProperties
  imports JournalInvariant
begin

text \<open>
  What the journal guarantees, over its reachable states and call by call, with the facts
  about PostgreSQL as the hypothesis \<open>pg_ok\<close>, which \<open>pg_text\<close>, decimals kept as the text
  \<open>format_tiyn\<close> prints, satisfies.
\<close>

section \<open>A database that keeps decimals as text\<close>

definition pg_text :: pg where
  "pg_text =
     \<lparr>num_in = (\<lambda>s. case parse_tiyn s of Inr t \<Rightarrow> Some t | Inl e \<Rightarrow> if e = NotPositive then Some 0 else None),
      num_out = (\<lambda>t. case format_tiyn t of Inr s \<Rightarrow> s | Inl _ \<Rightarrow> []),
      date_in = Some\<rparr>"

lemma parse_format_zero: "rbind (format_tiyn 0) parse_tiyn = Inl NotPositive"
proof -
  have p: "amount_parts ''0.00'' ''0'' ''00''" by (simp add: amount_parts_def)
  have "format_tiyn 0 = Inr ''0.00''" by (simp add: format_tiyn_def dec02_def pad_left_def dec_simps)
  moreover have "parts_tiyn ''0'' ''00'' = 0" by (simp add: parts_tiyn_def pad_frac_def dec_val_def digit_val_def)
  ultimately show ?thesis using parse_tiyn_parts [OF p] by simp
qed

section \<open>A sample trace\<close>

text \<open>
  One sale of 100 tenge: drafted, posted, and reversed by one of two callers that both passed
  the guard of \<open>reverse\<close>; \<open>demo_s\<close> lists the states.
\<close>

definition demo_gen :: "char \<Rightarrow> nat \<Rightarrow> string" where
  "demo_gen c k = c # dec k"

definition demo_account :: "string \<Rightarrow> string \<Rightarrow> account_row" where
  "demo_account code ty =
     \<lparr>a_id = code, a_org = None, a_code = code, a_name_ru = code, a_name_kk = [], a_type = ty,
      a_parent = None, a_currency_tracked = False\<rparr>"

definition demo_d0 :: db where
  "demo_d0 =
     \<lparr>organizations = [''o'', ''q''], users = [''u''],
      accounts = [demo_account ''1010'' ''asset'', demo_account ''6010'' ''income''],
      counterparties = [], entries = [], jlines = []\<rparr>"

definition demo_line :: "string \<Rightarrow> string \<Rightarrow> JournalLine" where
  "demo_line code sd =
     \<lparr>line_id = [], entry_id = [], account_code = code, side = sd, amount = ''100.00'',
      counterparty_id = None, vat_amount = None\<rparr>"

definition demo_lines :: "JournalLine list" where
  "demo_lines = [demo_line ''1010'' ''debit'', demo_line ''6010'' ''credit'']"

definition demo_entry :: "string \<Rightarrow> string \<Rightarrow> string \<Rightarrow> string option \<Rightarrow> entry_row" where
  "demo_entry i st descr rv =
     \<lparr>e_id = i, e_org = ''o'', e_date = ''2026-01-31'', e_description = descr, e_status = st,
      e_reverses = rv, e_created_by = Some ''u'', e_created_at = 0\<rparr>"

definition demo_row :: "string \<Rightarrow> string \<Rightarrow> string \<Rightarrow> string \<Rightarrow> line_row" where
  "demo_row i eid code sd =
     \<lparr>l_id = i, l_org = ''o'', l_entry = eid, l_account = code, l_side = sd, l_amount = 10000,
      l_counterparty = None, l_vat = None, l_created_at = 0\<rparr>"

definition demo_db :: "string \<Rightarrow> db" where
  "demo_db st = demo_d0
     \<lparr>entries := [demo_entry ''a0'' st ''sale'' None],
      jlines := [demo_row ''a1'' ''a0'' ''1010'' ''debit'', demo_row ''a2'' ''a0'' ''6010'' ''credit'']\<rparr>"

definition demo_reversed :: db where
  "demo_reversed = demo_d0
     \<lparr>entries := [demo_entry ''a0'' ''reversed'' ''sale'' None,
                  demo_entry ''b0'' ''posted'' (storno_prefix @ ''sale'') (Some ''a0'')],
      jlines := [demo_row ''a1'' ''a0'' ''1010'' ''debit'', demo_row ''a2'' ''a0'' ''6010'' ''credit'',
                 demo_row ''b1'' ''b0'' ''1010'' ''credit'', demo_row ''b2'' ''b0'' ''6010'' ''debit'']\<rparr>"

lemma parse_demo: "parse_tiyn ''100.00'' = Inr 10000"
  by (simp add: parse_tiyn_def pad_frac_def stoll_def dec_val_def digit_val_def isdigit_def in_ll_def)

lemma pg_text_demo: "num_in pg_text ''100.00'' = Some 10000" "num_out pg_text 10000 = ''100.00''" "date_in pg_text s = Some s"
  by (simp_all add: pg_text_def parse_demo format_tiyn_def dec02_def pad_left_def dec_simps)

lemmas demo_defs = demo_d0_def demo_db_def demo_lines_def demo_line_def demo_entry_def demo_row_def demo_account_def
lemmas sql_defs = insert_entry_def insert_line_def numeric_column_def journal_lines_frozen_after_post_def
  entry_status_def update_status_def journal_entries_immutability_def journal_entry_must_balance_def
  entry_diff_def signed_amount_def lines_of_def lift_sql_def

lemma demo_gen_simps: "demo_gen c 0 = [c, CHR ''0'']" "demo_gen c (Suc 0) = [c, CHR ''1'']" "demo_gen c (Suc (Suc 0)) = [c, CHR ''2'']"
  "demo_gen c 2 = [c, CHR ''2'']"
  by (simp_all add: demo_gen_def dec_simps flip: numeral_2_eq_2)

lemma demo_draft:
  "\<exists>e. create_draft pg_text demo_d0 (demo_gen (CHR ''a'')) 0 ''o'' ''u'' ''2026-01-31'' ''sale'' demo_lines demo_d0 =
     Inr (e, demo_db ''draft'')"
  by (simp add: create_draft_def demo_defs sql_defs parse_demo pg_text_demo demo_gen_simps in_ll_def find_visible_def
      JournalEntry_from_row_def JournalLine_from_row_def Let_def)

lemma demo_post: "\<exists>e. post_txn pg_text ''o'' ''a0'' (demo_db ''draft'') = Inr (e, demo_db ''posted'')"
  by (simp add: post_txn_def demo_defs sql_defs Let_def)

definition demo_original :: JournalEntry where
  "demo_original = JournalEntry_from_row (demo_entry ''a0'' ''posted'' ''sale'' None)"

definition demo_read :: "JournalLine list" where
  "demo_read = map (JournalLine_from_row pg_text)
     [demo_row ''a1'' ''a0'' ''1010'' ''debit'', demo_row ''a2'' ''a0'' ''6010'' ''credit'']"

lemma demo_guard: "reverse_guard pg_text (demo_db ''posted'') ''o'' ''a0'' = Inr (Some (demo_original, demo_read))"
  by (simp add: reverse_guard_def find_entry_def find_in_org_def demo_original_def demo_read_def demo_defs
      JournalEntry_from_row_def load_lines_def lines_of_def)

lemma demo_reverse:
  "\<exists>e. reverse_txn pg_text (demo_gen (CHR ''b'')) 0 ''o'' ''u'' demo_original demo_read (demo_db ''posted'') =
     Inr (e, demo_reversed)"
  by (simp add: reverse_txn_def demo_original_def demo_read_def demo_defs demo_reversed_def sql_defs pg_text_demo demo_gen_simps
      JournalEntry_from_row_def JournalLine_from_row_def mirrored_side_def Let_def)

lemma pg_text_ok: "pg_ok pg_text"
proof -
  have "num_in pg_text (num_out pg_text t) = Some t" if t: "0 \<le> t" "t < 10 ^ 18" for t
  proof (cases "t = 0")
    case True
    then show ?thesis using parse_format_zero by (cases "format_tiyn 0") (simp_all add: pg_text_def format_tiyn_def)
  next
    case False
    then have "rbind (format_tiyn t) parse_tiyn = Inr t" using t parse_format_tiyn_value by simp
    then show ?thesis by (auto simp: pg_text_def)
  qed
  then show ?thesis by (simp add: pg_ok_def) (simp add: pg_text_def)
qed

definition demo_flights :: "(string \<times> JournalEntry \<times> JournalLine list) list" where
  "demo_flights = [(''o'', demo_original, demo_read), (''o'', demo_original, demo_read)]"

lemma demo_reach:
  "jreach pg_text \<lparr>store = demo_db ''posted'', in_flight = demo_flights\<rparr>"
  "jreach pg_text \<lparr>store = demo_reversed, in_flight = demo_flights\<rparr>"
  "jstep pg_text \<lparr>store = demo_db ''posted'', in_flight = demo_flights\<rparr> \<lparr>store = demo_reversed, in_flight = demo_flights\<rparr>"
proof -
  have s0: "jreach pg_text \<lparr>store = demo_d0, in_flight = []\<rparr>" by (rule jreach.start) (simp_all add: demo_d0_def)
  obtain e1 where c: "create_draft pg_text demo_d0 (demo_gen (CHR ''a'')) 0 ''o'' ''u'' ''2026-01-31'' ''sale'' demo_lines demo_d0 =
     Inr (e1, demo_db ''draft'')" using demo_draft by blast
  obtain e2 where po: "post_txn pg_text ''o'' ''a0'' (demo_db ''draft'') = Inr (e2, demo_db ''posted'')" using demo_post by blast
  obtain e3 where rv: "reverse_txn pg_text (demo_gen (CHR ''b'')) 0 ''o'' ''u'' demo_original demo_read (demo_db ''posted'') =
     Inr (e3, demo_reversed)" using demo_reverse by blast
  have s1: "jreach pg_text \<lparr>store = demo_db ''draft'', in_flight = []\<rparr>"
    using jreach.step [OF s0 jstep.draft [of pg_text demo_d0 "demo_gen (CHR ''a'')" 0 "''o''" "''u''" "''2026-01-31''" "''sale''" demo_lines]] c by simp
  have s2: "jreach pg_text \<lparr>store = demo_db ''posted'', in_flight = []\<rparr>"
    using jreach.step [OF s1 jstep.post [of pg_text "''o''" "''a0''"]] po by simp
  have s3: "jreach pg_text \<lparr>store = demo_db ''posted'', in_flight = [(''o'', demo_original, demo_read)]\<rparr>"
    using jreach.step [OF s2 jstep.reverse_begin [of pg_text _ "''o''" "''a0''"]] demo_guard by simp
  show s4: "jreach pg_text \<lparr>store = demo_db ''posted'', in_flight = demo_flights\<rparr>"
    using jreach.step [OF s3 jstep.reverse_begin [of pg_text _ "''o''" "''a0''"]] demo_guard by (simp add: demo_flights_def)
  show st: "jstep pg_text \<lparr>store = demo_db ''posted'', in_flight = demo_flights\<rparr> \<lparr>store = demo_reversed, in_flight = demo_flights\<rparr>"
    using jstep.reverse_end [of "''o''" demo_original demo_read "\<lparr>store = demo_db ''posted'', in_flight = demo_flights\<rparr>" pg_text
        "demo_gen (CHR ''b'')" 0 "''u''" e3 demo_reversed] rv by (simp add: demo_flights_def)
  show "jreach pg_text \<lparr>store = demo_reversed, in_flight = demo_flights\<rparr>" by (rule jreach.step [OF s4 st])
qed

section \<open>Sums\<close>

definition debits :: "line_row list \<Rightarrow> int" where
  "debits ls = sum_list (map l_amount (filter (\<lambda>l. l_side l = ''debit'') ls))"

definition credits :: "line_row list \<Rightarrow> int" where
  "credits ls = sum_list (map l_amount (filter (\<lambda>l. l_side l = ''credit'') ls))"

definition account_lines :: "string \<Rightarrow> line_row list \<Rightarrow> line_row list" where
  "account_lines code ls = filter (\<lambda>l. l_account l = code) ls"

lemma signed_sum: "\<forall>l \<in> set ls. line_ok l \<Longrightarrow> sum_list (map signed_amount ls) = debits ls - credits ls"
  by (induction ls) (auto simp: debits_def credits_def signed_amount_def line_ok_def)

lemma lines_of_ok: "journal_ok d \<Longrightarrow> \<forall>l \<in> set (lines_of d i). line_ok l"
  by (simp add: journal_ok_def lines_of_def)

text \<open>Debits and credits per account of a multiset of line contents; mirroring exchanges them.\<close>

definition content_sum :: "string \<Rightarrow> string \<Rightarrow> (string \<times> string \<times> int \<times> string option \<times> int option) multiset \<Rightarrow> int" where
  "content_sum code sd M = (\<Sum>(a, s, n, _, _) \<in># M. if a = code \<and> s = sd then n else 0)"

lemma debits_content: "debits (account_lines code ls) = content_sum code ''debit'' (mset (map line_content ls))"
  by (induction ls) (auto simp: debits_def account_lines_def content_sum_def line_content_def)

lemma credits_content: "credits (account_lines code ls) = content_sum code ''credit'' (mset (map line_content ls))"
  by (induction ls) (auto simp: credits_def account_lines_def content_sum_def line_content_def)

lemma mirrored_sums:
  "\<forall>l \<in> set ls. line_ok l \<Longrightarrow>
     content_sum code ''debit'' (mset (map (\<lambda>l. line_content (mirrored l)) ls)) = credits (account_lines code ls) \<and>
     content_sum code ''credit'' (mset (map (\<lambda>l. line_content (mirrored l)) ls)) = debits (account_lines code ls)"
  by (induction ls)
     (auto simp: debits_def credits_def account_lines_def content_sum_def line_content_def mirrored_def
        mirrored_side_def line_ok_def)

lemma mirror_of_sums:
  assumes "mirror_of ls ms" and "\<forall>l \<in> set ls. line_ok l"
  shows "debits (account_lines code ms) = credits (account_lines code ls)"
    and "credits (account_lines code ms) = debits (account_lines code ls)"
  using assms mirrored_sums [OF assms(2), of code]
  by (simp_all add: debits_content credits_content mirror_of_def)

section \<open>Reachable states\<close>

text \<open>
  C1: double entry. In every state that any interleaving of drafts, postings and stornos can
  reach, every entry, of whatever status, has at least two lines, all of them of the entry's
  own organization and of a positive amount, and its debits equal its credits.
\<close>

theorem journal_is_double_entry:
  assumes "jreach p s" and "pg_ok p" and "e \<in> set (entries (store s))"
  shows "2 \<le> length (lines_of (store s) (e_id e)) \<and>
         (\<forall>l \<in> set (lines_of (store s) (e_id e)). l_org l = e_org e \<and> 0 < l_amount l) \<and>
         debits (lines_of (store s) (e_id e)) = credits (lines_of (store s) (e_id e))"
proof -
  have ok: "journal_ok (store s)" using jreach_ok [OF assms(1,2)] by (simp add: sys_ok_def)
  then have k: "keys_ok (store s)" and b: "balanced (store s)" by (simp_all add: journal_ok_def)
  have "l_org l = e_org e \<and> 0 < l_amount l" if l: "l \<in> set (lines_of (store s) (e_id e))" for l
  proof -
    have l': "l \<in> set (jlines (store s))" "l_entry l = e_id e" using l by (simp_all add: lines_of_def)
    then obtain x where "x \<in> set (entries (store s))" "e_id x = l_entry l" "e_org x = l_org l"
      using k unfolding keys_ok_def by blast
    then show ?thesis
      using key_eqD [OF keys_okD(1) [OF k] _ _ assms(3), of x] l' lines_of_ok [OF ok] l by (auto simp: line_ok_def)
  qed
  moreover have "sum_list (map signed_amount (lines_of (store s) (e_id e))) = 0" "2 \<le> length (lines_of (store s) (e_id e))"
    using b assms(3) by (auto simp: balanced_def entry_diff_def)
  ultimately show ?thesis using signed_sum [OF lines_of_ok [OF ok]] by simp
qed

theorem journal_is_double_entry_witness:
  "debits (lines_of demo_reversed ''b0'') = 10000 \<and> credits (lines_of demo_reversed ''b0'') = 10000"
proof -
  have "debits (lines_of demo_reversed ''b0'') = credits (lines_of demo_reversed ''b0'')"
    using journal_is_double_entry [OF demo_reach(2) pg_text_ok, of "demo_entry ''b0'' ''posted'' (storno_prefix @ ''sale'') (Some ''a0'')"]
    by (simp add: demo_reversed_def demo_entry_def)
  moreover have "debits (lines_of demo_reversed ''b0'') = 10000"
    by (simp add: debits_def demo_reversed_def demo_row_def lines_of_def)
  ultimately show ?thesis by simp
qed



text \<open>
  C4: an entry is reversed once. In every reachable state, also with several reversals of the
  same entry in flight, exactly one entry names a reversed entry as its original, and none
  names a draft or a posted one.
\<close>

theorem reversed_exactly_once:
  assumes "jreach p s" and "pg_ok p" and "e \<in> set (entries (store s))"
  shows "length (filter (\<lambda>x. e_reverses x = Some (e_id e)) (entries (store s))) =
         (if e_status e = ''reversed'' then 1 else 0)"
proof -
  have ok: "journal_ok (store s)" using jreach_ok [OF assms(1,2)] by (simp add: sys_ok_def)
  then have dist: "distinct (map e_id (entries (store s)))" by (simp add: journal_ok_def keys_ok_def)
  show ?thesis
  proof (cases "e_status e = ''reversed''")
    case True
    then obtain x where x: "x \<in> set (entries (store s))" "e_reverses x = Some (e_id e)"
      using storno_okD(4) [OF ok assms(3)] by blast
    have "y = x" if "y \<in> set (entries (store s))" "e_reverses y = Some (e_id e)" for y
      using key_eqD [OF dist storno_okD(5) [OF ok that(1) x(1) that(2) x(2)] that(1) x(1)] .
    then have "filter (\<lambda>y. e_reverses y = Some (e_id e)) (entries (store s)) =
        filter (\<lambda>y. e_id y = e_id x \<and> y = x) (entries (store s))"
      using x(2) by (intro filter_cong refl) metis
    then show ?thesis using filter_distinct_key [OF dist x(1), of "\<lambda>y. y = x"] True by simp
  next
    case False
    have "e_reverses x \<noteq> Some (e_id e)" if x: "x \<in> set (entries (store s))" for x
    proof
      assume "e_reverses x = Some (e_id e)"
      then obtain o' where "o' \<in> set (entries (store s))" "e_id o' = e_id e" "e_status o' = ''reversed''"
        using storno_okD(3) [OF ok x] by blast
      with key_eqD [OF dist _ _ assms(3), of o'] False show False by simp
    qed
    then have "filter (\<lambda>x. e_reverses x = Some (e_id e)) (entries (store s)) = []" by (simp add: filter_empty_conv)
    with False show ?thesis by simp
  qed
qed

theorem reversed_exactly_once_witness:
  "length (filter (\<lambda>x. e_reverses x = Some ''a0'') (entries demo_reversed)) = 1 \<and>
   length (filter (\<lambda>x. e_reverses x = Some ''a0'') (entries (demo_db ''posted''))) = 0"
  using reversed_exactly_once [OF demo_reach(2) pg_text_ok, of "demo_entry ''a0'' ''reversed'' ''sale'' None"]
    reversed_exactly_once [OF demo_reach(1) pg_text_ok, of "demo_entry ''a0'' ''posted'' ''sale'' None"]
  by (simp add: demo_reversed_def demo_db_def demo_entry_def)

text \<open>
  C5: a storno undoes its original. In every reachable state, for every account the debits of
  an entry that reverses another are the credits of the original there, and the reverse, so
  the two together change no account's balance.
\<close>

theorem storno_mirrors_original:
  assumes "jreach p s" and "pg_ok p" and "x \<in> set (entries (store s))" and "e_reverses x = Some i"
  shows "debits (account_lines code (lines_of (store s) (e_id x))) = credits (account_lines code (lines_of (store s) i)) \<and>
         credits (account_lines code (lines_of (store s) (e_id x))) = debits (account_lines code (lines_of (store s) i)) \<and>
         (\<exists>e \<in> set (entries (store s)). e_id e = i \<and> e_org e = e_org x \<and> e_status e = ''reversed'')"
proof -
  have ok: "journal_ok (store s)" using jreach_ok [OF assms(1,2)] by (simp add: sys_ok_def)
  show ?thesis
    using mirror_of_sums [OF storno_okD(2) [OF ok assms(3,4)] lines_of_ok [OF ok]] storno_okD(3) [OF ok assms(3,4)]
    by blast
qed

theorem storno_mirrors_original_witness:
  "debits (account_lines ''1010'' (lines_of demo_reversed ''b0'')) = 0 \<and>
   credits (account_lines ''1010'' (lines_of demo_reversed ''b0'')) = 10000"
proof -
  have "credits (account_lines ''1010'' (lines_of demo_reversed ''a0'')) = 0"
    "debits (account_lines ''1010'' (lines_of demo_reversed ''a0'')) = 10000"
    by (simp_all add: debits_def credits_def account_lines_def demo_reversed_def demo_row_def lines_of_def)
  then show ?thesis
    using storno_mirrors_original [OF demo_reach(2) pg_text_ok,
        of "demo_entry ''b0'' ''posted'' (storno_prefix @ ''sale'') (Some ''a0'')" "''a0''" "''1010''"]
    by (simp add: demo_reversed_def demo_entry_def)
qed

section \<open>Calls that succeed\<close>

definition insertable :: "pg \<Rightarrow> db \<Rightarrow> (string \<Rightarrow> string) \<Rightarrow> JournalLine \<Rightarrow> bool" where
  "insertable p d flip line \<longleftrightarrow>
     (\<exists>n. num_in p (amount line) = Some n \<and> 0 < n \<and> n < 10 ^ 18) \<and>
     (\<forall>v \<in> set_option (vat_amount line). \<exists>n. num_in p v = Some n \<and> 0 \<le> n \<and> n < 10 ^ 18) \<and>
     (flip (side line) = ''debit'' \<or> flip (side line) = ''credit'') \<and>
     (\<forall>c \<in> set_option (counterparty_id line). c \<in> c_id ` set (counterparties d))"

lemma insert_line_succeeds:
  assumes "insertable p d flip line" and "i \<notin> l_id ` set (jlines d)" and "org \<in> set (organizations d)"
    and "entry_status d eid = Some ''draft''" and "\<exists>e \<in> set (entries d). e_id e = eid \<and> e_org e = org"
  shows "\<exists>r. insert_line p i now org eid line (flip (side line)) d = Inr (r, d\<lparr>jlines := jlines d @ [r]\<rparr>) \<and> l_id r = i"
proof -
  obtain n where n: "numeric_column p (amount line) = Inr n" "0 < n"
    using assms(1) by (auto simp: insertable_def numeric_column_Inr)
  have "\<exists>vat. (case vat_amount line of None \<Rightarrow> Inr None
            | Some v \<Rightarrow> rbind (numeric_column p v) (\<lambda>n. Inr (Some n))) = (Inr vat :: sql_error + int option) \<and>
          (\<forall>v \<in> set_option vat. 0 \<le> v)"
    using assms(1) by (cases "vat_amount line") (auto simp: insertable_def numeric_column_def)
  then obtain vat where v: "(case vat_amount line of None \<Rightarrow> Inr None
            | Some v \<Rightarrow> rbind (numeric_column p v) (\<lambda>n. Inr (Some n))) = (Inr vat :: sql_error + int option)"
      "\<forall>v \<in> set_option vat. 0 \<le> v" by blast
  have f: "journal_lines_frozen_after_post eid d = Inr ()"
    using assms(4) by (simp add: journal_lines_frozen_after_post_def)
  have "\<not> (\<exists>v \<in> set_option vat. v < 0)" using v(2) by force
  moreover have "\<not> (\<exists>c \<in> set_option (counterparty_id line). c \<notin> c_id ` set (counterparties d))"
    "flip (side line) \<in> {''debit'', ''credit''}"
    using assms(1) by (auto simp: insertable_def)
  ultimately show ?thesis
    using n assms(2,3,5) unfolding insert_line_def n v(1) f rbind_simps Let_def by simp
qed

lemma insert_lines_succeeds:
  assumes "\<forall>line \<in> set ls. insertable p d flip line" and "inj gen"
    and "\<forall>j \<ge> k. gen j \<notin> l_id ` set (jlines d)" and "org \<in> set (organizations d)"
    and "entry_status d eid = Some ''draft''" and "\<exists>e \<in> set (entries d). e_id e = eid \<and> e_org e = org"
  shows "\<exists>rs d'. insert_lines p gen now org eid flip k ls d = Inr (rs, d')"
  using assms
proof (induction ls arbitrary: k d)
  case (Cons line ls)
  obtain r where r: "insert_line p (gen k) now org eid line (flip (side line)) d = Inr (r, d\<lparr>jlines := jlines d @ [r]\<rparr>)"
      "l_id r = gen k"
    using insert_line_succeeds [of p d flip line "gen k" org eid now] Cons.prems by auto
  let ?d = "d\<lparr>jlines := jlines d @ [r]\<rparr>"
  have "\<exists>rs d'. insert_lines p gen now org eid flip (Suc k) ls ?d = Inr (rs, d')"
  proof (rule Cons.IH)
    show "\<forall>j \<ge> Suc k. gen j \<notin> l_id ` set (jlines ?d)"
      using Cons.prems(2,3) r(2) by (auto simp: inj_eq)
  qed (use Cons.prems in \<open>simp_all add: insertable_def entry_status_def\<close>)
  with r show ?case by auto
qed simp

lemma commit_ok: "\<forall>i \<in> set is. entry_diff d i = 0 \<Longrightarrow> commit is d = Inr d"
  by (induction "is") (simp_all add: journal_entry_must_balance_def)

text \<open>The totals of the validating loop are those of the rows written.\<close>

lemma check_lines_rows:
  assumes "check_lines rd org ls a b = Inr (x, y)" and "list_all2 (row_for p org eid (\<lambda>s. s) now) ls rows" and "pg_ok p"
  shows "x - y = a - b + sum_list (map signed_amount rows)"
  using assms(2,1)
proof (induction ls rows arbitrary: a b rule: list_all2_induct)
  case (Cons line ls r rs)
  from Cons.prems obtain t where t: "parse_tiyn (amount line) = Inr t"
    and s: "side line = ''debit'' \<or> side line = ''credit''"
    and c: "check_lines rd org ls (if side line = ''debit'' then a + t else a)
              (if side line = ''debit'' then b else b + t) = Inr (x, y)"
    by (auto simp: Let_def split: sum.splits if_splits)
  have "l_amount r = t" "l_side r = side line"
    using Cons.hyps(1) t assms(3) unfolding row_for_def pg_ok_def by (metis option.inject, blast)
  then show ?case using Cons.IH [OF c] s by (auto simp: signed_amount_def)
qed simp

definition storable :: "pg \<Rightarrow> db \<Rightarrow> JournalLine \<Rightarrow> bool" where
  "storable p d line \<longleftrightarrow>
     (\<forall>v \<in> set_option (vat_amount line). \<exists>n. num_in p v = Some n \<and> 0 \<le> n \<and> n < 10 ^ 18) \<and>
     (\<forall>c \<in> set_option (counterparty_id line). c \<in> c_id ` set (counterparties d))"

lemma check_lines_ConsE:
  assumes "check_lines rd org (line # rest) a b = Inr xy"
  obtains t a' b' where "parse_tiyn (amount line) = Inr t" and "side line = ''debit'' \<or> side line = ''credit''"
    and "check_lines rd org rest a' b' = Inr xy"
    and "a' = (if side line = ''debit'' then a + t else a)" and "b' = (if side line = ''debit'' then b else b + t)"
    and "in_ll a'" and "in_ll b'" and "find_visible rd org (account_code line) \<noteq> None"
  using assms by (auto simp: Let_def split: sum.splits if_splits)

lemma check_lines_insertable:
  "check_lines rd org ls a b = Inr xy \<Longrightarrow> pg_ok p \<Longrightarrow> \<forall>line \<in> set ls. storable p d line \<Longrightarrow>
   \<forall>line \<in> set ls. insertable p d (\<lambda>s. s) line"
proof (induction ls arbitrary: a b)
  case (Cons line rest)
  obtain t a' b' where t: "parse_tiyn (amount line) = Inr t"
    and s: "side line = ''debit'' \<or> side line = ''credit''" and c: "check_lines rd org rest a' b' = Inr xy"
    by (rule check_lines_ConsE [OF Cons.prems(1)])
  have "\<forall>line \<in> set rest. insertable p d (\<lambda>s. s) line" using Cons.IH [OF c Cons.prems(2)] Cons.prems(3) by simp
  moreover have "num_in p (amount line) = Some t" using Cons.prems(2) t unfolding pg_ok_def by blast
  ultimately show ?case using parse_tiyn_bounds [OF t] s Cons.prems(3) by (simp add: insertable_def storable_def)
qed simp

definition draft_writable :: "pg \<Rightarrow> (nat \<Rightarrow> string) \<Rightarrow> string \<Rightarrow> string \<Rightarrow> string \<Rightarrow> db \<Rightarrow> bool" where
  "draft_writable p gen org user date d \<longleftrightarrow>
     inj gen \<and> gen 0 \<notin> e_id ` set (entries d) \<and> (\<forall>j. gen j \<notin> l_id ` set (jlines d)) \<and>
     org \<in> set (organizations d) \<and> user \<in> set (users d) \<and> date_in p date \<noteq> None"

lemma row_entry: "list_all2 (row_for p org eid flip now) ls rows \<Longrightarrow> r \<in> set rows \<Longrightarrow> l_entry r = eid"
  by (auto simp: row_for_def list_all2_conv_all_nth in_set_conv_nth)

lemma create_draft_writes:
  assumes pg: "pg_ok p" and k: "keys_ok d" and len: "2 \<le> length ls" and chk: "check_lines rd org ls 0 0 = Inr (t, t)"
    and st: "\<forall>line \<in> set ls. storable p d line" and w: "draft_writable p gen org user date d"
  obtains e d' where "create_draft p rd gen now org user date descr ls d = Inr (e, d')"
proof -
  obtain dt where dt: "date_in p date = Some dt" using w by (auto simp: draft_writable_def)
  define er where "er = \<lparr>e_id = gen 0, e_org = org, e_date = dt, e_description = descr, e_status = ''draft'',
                     e_reverses = None, e_created_by = Some user, e_created_at = now\<rparr>"
  define d1 where "d1 = d\<lparr>entries := entries d @ [er]\<rparr>"
  have ie: "insert_entry p (gen 0) now org date descr None user d = Inr (er, d1)"
    using w dt by (simp add: insert_entry_def draft_writable_def er_def d1_def Let_def)
  have fresh: "\<forall>x \<in> set (entries d). e_id x \<noteq> gen 0" using w unfolding draft_writable_def by (metis imageI)
  then have "find (\<lambda>e. e_id e = gen 0) (entries d) = None" by (simp add: find_None_iff)
  then have "entry_status d1 (gen 0) = Some ''draft''"
    using fresh by (simp add: entry_status_def d1_def er_def find_filter filter_empty_conv)
  moreover have "\<forall>line \<in> set ls. insertable p d1 (\<lambda>s. s) line"
    using check_lines_insertable [OF chk pg st] by (simp add: insertable_def d1_def)
  ultimately obtain rs d2 where il: "insert_lines p gen now org (gen 0) (\<lambda>s. s) 1 ls d1 = Inr (rs, d2)"
    using insert_lines_succeeds [of ls p d1 "\<lambda>s. s" gen 1 org "gen 0" now] w
    by (auto simp: draft_writable_def d1_def er_def)
  obtain rows where n: "new_entry p org (\<lambda>s. s) now ls d er rows" "d2 = add_entry er rows d" "rs = map (JournalLine_from_row p) rows"
    using insert_new_entry [OF ie _ keys_okD(2) [OF k], of gen "\<lambda>s. s" 1 ls rs d2] il by (auto simp: er_def)
  have l2: "list_all2 (row_for p org (gen 0) (\<lambda>s. s) now) ls rows" using n(1) by (simp add: new_entry_def er_def)
  have "entry_diff d2 (gen 0) = 0"
    using check_lines_rows [OF chk l2 pg] new_entry_lines [OF n(1) keys_okD(3) [OF k]]
    by (simp add: n(2) entry_diff_def er_def)
  then have "commit (map entry_id rs) d2 = Inr d2"
    using row_entry [OF l2] by (intro commit_ok) (auto simp: n(3) JournalLine_from_row_def)
  then have "create_draft p rd gen now org user date descr ls d = Inr ((JournalEntry_from_row er)\<lparr>lines := rs\<rparr>, d2)"
    using len chk ie il by (simp add: create_draft_def lift_sql_def Let_def JournalEntry_from_row_def er_def)
  then show thesis by (rule that)
qed

lemma post_succeeds:
  assumes k: "keys_ok d" and r: "r \<in> set (entries d)" "e_status r = ''draft''" and l: "lines_of d (e_id r) \<noteq> []"
  shows "\<exists>d'. post p (e_org r) (e_id r) d =
    Inr (Some ((JournalEntry_from_row (r\<lparr>e_status := ''posted''\<rparr>))\<lparr>lines := load_lines p d (JournalEntry_from_row r)\<rparr>), d')"
proof -
  have f: "find (\<lambda>e. e_id e = e_id r \<and> e_org e = e_org r \<and> e_status e = ''draft'') (entries d) = Some r"
    using find_key [OF keys_okD(1) [OF k] r(1), of "\<lambda>e. e_org e = e_org r \<and> e_status e = ''draft''"] r(2) by simp
  have im: "journal_entries_immutability r (r\<lparr>e_status := ''posted''\<rparr>) d = Inr ()"
    using r(2) l by (simp add: journal_entries_immutability_def)
  have g: "find_entry d (e_id r) (e_org r) = Some (JournalEntry_from_row r)"
    using filter_distinct_key [OF keys_okD(1) [OF k] r(1), of "\<lambda>e. e_org e = e_org r"]
    by (simp add: find_entry_def find_in_org_def)
  have "load_lines p (d\<lparr>entries := es\<rparr>) (JournalEntry_from_row (r\<lparr>e_status := ''posted''\<rparr>)) =
      load_lines p d (JournalEntry_from_row r)" for es
    by (simp add: load_lines_def lines_of_def JournalEntry_from_row_def)
  then show ?thesis
    using r(2) by (simp add: post_def post_guard_def g post_txn_def update_status_def f im lift_sql_def Let_def)
      (simp add: JournalEntry_from_row_def)
qed

lemma draft_is_stored_and_posted:
  assumes "pg_ok p" and "keys_ok d" and "2 \<le> length ls" and "check_lines rd org ls 0 0 = Inr (t, t)"
    and "\<forall>line \<in> set ls. storable p d line" and "draft_writable p gen org user date d"
  shows "\<exists>e d' e' d''. create_draft p rd gen now org user date descr ls d = Inr (e, d') \<and>
     status e = ''draft'' \<and> description e = descr \<and>
     map account_code (lines e) = map account_code ls \<and> map side (lines e) = map side ls \<and>
     entry_diff d' (je_id e) = 0 \<and>
     post p org (je_id e) d' = Inr (Some e', d'') \<and> status e' = ''posted'' \<and> je_id e' = je_id e \<and>
     mset (lines e') = mset (lines e)"
proof -
  obtain e d' where c: "create_draft p rd gen now org user date descr ls d = Inr (e, d')"
    by (rule create_draft_writes [OF assms])
  obtain er rows where n: "new_entry p org (\<lambda>s. s) now ls d er rows" and d': "d' = add_entry er rows d"
    and e: "e = (JournalEntry_from_row er)\<lparr>lines := map (JournalLine_from_row p) rows\<rparr>"
    and er: "e_description er = descr" and diff: "entry_diff d' (e_id er) = 0"
    by (rule create_draft_spec [OF c keys_okD(2) [OF assms(2)]])
  have l2: "list_all2 (row_for p org (e_id er) (\<lambda>s. s) now) ls rows" and st: "e_status er = ''draft''" "e_org er = org"
    using n by (simp_all add: new_entry_def)
  have lo: "lines_of d' (e_id er) = rows" unfolding d' using new_entry_lines [OF n keys_okD(3) [OF assms(2)]] by simp
  have k': "keys_ok d'" unfolding d' by (rule keys_ok_add [OF assms(2) n]) simp_all
  have "rows \<noteq> []" using l2 assms(3) by (auto dest: list_all2_lengthD)
  then obtain d'' where po: "post p org (e_id er) d' =
      Inr (Some ((JournalEntry_from_row (er\<lparr>e_status := ''posted''\<rparr>))\<lparr>lines := load_lines p d' (JournalEntry_from_row er)\<rparr>), d'')"
    using post_succeeds [OF k', of er p] st lo by (auto simp: d')
  define e' where "e' = (JournalEntry_from_row (er\<lparr>e_status := ''posted''\<rparr>))\<lparr>lines := load_lines p d' (JournalEntry_from_row er)\<rparr>"
  have id: "je_id e = e_id er" "status e = ''draft''" "description e = descr"
    using e er st by (simp_all add: JournalEntry_from_row_def)
  have "map account_code (lines e) = map account_code ls" "map side (lines e) = map side ls"
    unfolding e using l2 by (induction rule: list_all2_induct) (simp_all add: JournalLine_from_row_def row_for_def)
  moreover have "mset (lines e') = mset (lines e)" "status e' = ''posted''" "je_id e' = je_id e"
    by (simp_all add: e e'_def load_lines_def lo JournalEntry_from_row_def)
  ultimately show ?thesis using c po [folded e'_def] diff id by metis
qed



text \<open>
  a reversal that comes too late changes nothing. Whatever a caller read before, once the
  entry is no longer posted the transaction of its storno raises \<open>InvalidEntryState\<close> or a
  database error and is rolled back; with the guard run again the error is
  \<open>InvalidEntryState\<close>.
\<close>

theorem second_reversal_is_refused:
  assumes "jreach p s" and "pg_ok p" and "(org, original, ls) \<in> set (in_flight s)"
    and "e \<in> set (entries (store s))" and "e_id e = je_id original" and "e_status e = ''reversed''"
  shows "(\<exists>err. reverse_txn p gen now org user original ls (store s) = Inl err) \<and>
         reverse_entry p gen now org (je_id original) user (store s) = Inl InvalidEntryState"
proof -
  have ok: "journal_ok (store s)" and f: "flight_ok p (store s) (org, original, ls)"
    using jreach_ok [OF assms(1,2)] assms(3) by (auto simp: sys_ok_def)
  have k: "keys_ok (store s)" using ok by (simp add: journal_ok_def)
  have only: "r = e" if "r \<in> set (entries (store s))" "e_id r = je_id original" for r
    using key_eqD [OF keys_okD(1) [OF k] _ that(1) assms(4)] that(2) assms(5) by simp
  have "\<nexists>x. reverse_txn p gen now org user original ls (store s) = Inr x"
  proof
    assume "\<exists>x. reverse_txn p gen now org user original ls (store s) = Inr x"
    then obtain y d' where y: "reverse_txn p gen now org user original ls (store s) = Inr (y, d')" by auto
    obtain ols where "2 \<le> length ls" and i: "je_id original \<in> e_id ` set (entries (store s))"
      by (rule flight_okE [OF f ok])
    then have "ls \<noteq> []" by auto
    then obtain r where "r \<in> set (entries (store s))" "e_id r = je_id original" "e_status r = ''posted''"
      by (rule reverse_txn_spec [OF y keys_okD(2,1,3) [OF k] _ i])
    with only assms(6) show False by simp
  qed
  then have "\<exists>err. reverse_txn p gen now org user original ls (store s) = Inl err"
    by (metis sum.exhaust)
  moreover have "e_org e = org" using f only by (auto simp: flight_ok_def)
  then have "find_entry (store s) (je_id original) org = Some (JournalEntry_from_row e)"
    using filter_distinct_key [OF keys_okD(1) [OF k] assms(4), of "\<lambda>e. e_org e = org"] assms(5)
    by (simp add: find_entry_def find_in_org_def)
  then have "reverse_entry p gen now org (je_id original) user (store s) = Inl InvalidEntryState"
    using assms(6) by (simp add: reverse_entry_def reverse_guard_def JournalEntry_from_row_def)
  ultimately show ?thesis by blast
qed

theorem second_reversal_is_refused_witness:
  "reverse_entry pg_text (demo_gen (CHR ''c'')) 1 ''o'' ''a0'' ''u'' demo_reversed = Inl InvalidEntryState"
  using second_reversal_is_refused [OF demo_reach(2) pg_text_ok, of "''o''" demo_original demo_read
      "demo_entry ''a0'' ''reversed'' ''sale'' None" "demo_gen (CHR ''c'')" 1 "''u''"]
  by (simp add: demo_flights_def demo_reversed_def demo_entry_def demo_original_def JournalEntry_from_row_def)

text \<open>
  C30: tenant isolation. For an organization that does not own the entry, posting and reversing
  it answer \<open>std::nullopt\<close>, as for an entry that does not exist, and change nothing.
\<close>

theorem foreign_entry_is_invisible:
  assumes "jreach p s" and "pg_ok p" and "e \<in> set (entries (store s))" and "e_org e \<noteq> org"
  shows "post p org (e_id e) (store s) = Inr (None, store s) \<and>
         reverse_entry p gen now org (e_id e) user (store s) = Inr (None, store s)"
proof -
  have ok: "journal_ok (store s)" using jreach_ok [OF assms(1,2)] by (simp add: sys_ok_def)
  then have dist: "distinct (map e_id (entries (store s)))" by (simp add: journal_ok_def keys_ok_def)
  have "find_entry (store s) (e_id e) org = None"
    unfolding find_entry_def find_in_org_None using key_eqD [OF dist _ _ assms(3)] assms(4) by blast
  then show ?thesis by (simp add: post_def post_guard_def reverse_entry_def reverse_guard_def)
qed

theorem foreign_entry_is_invisible_witness:
  "post pg_text ''q'' ''a0'' (demo_db ''posted'') = Inr (None, demo_db ''posted'')"
  using foreign_entry_is_invisible [OF demo_reach(1) pg_text_ok, of "demo_entry ''a0'' ''posted'' ''sale'' None" "''q''"]
  by (simp add: demo_db_def demo_entry_def)

section \<open>The running totals\<close>

lemma check_lines_no_overflow:
  "0 \<le> a \<Longrightarrow> 0 \<le> b \<Longrightarrow> a + int (length ls) * 10 ^ 18 < 2 ^ 63 \<Longrightarrow> b + int (length ls) * 10 ^ 18 < 2 ^ 63 \<Longrightarrow>
   check_lines rd org ls a b \<noteq> Inl TotalOverflow"
proof (induction ls arbitrary: a b)
  case (Cons line ls)
  show ?case
  proof (cases "parse_tiyn (amount line)")
    case (Inr t)
    have t: "0 < t" "t < 10 ^ 18" using parse_tiyn_bounds [OF Inr] by simp_all
    define a' b' where "a' = (if side line = ''debit'' then a + t else a)" and "b' = (if side line = ''debit'' then b else b + t)"
    have b: "0 \<le> a'" "0 \<le> b'" "a' + int (length ls) * 10 ^ 18 < 2 ^ 63" "b' + int (length ls) * 10 ^ 18 < 2 ^ 63"
      using Cons.prems t by (auto simp: a'_def b'_def)
    have "0 \<le> int (length ls) * 10 ^ 18" by simp
    then have "in_ll a'" "in_ll b'" using b by (simp_all add: in_ll_def)
    then show ?thesis using Inr Cons.IH [OF b] by (simp add: Let_def flip: a'_def b'_def)
  qed simp
qed simp

text \<open>
  the running totals of an entry of at most nine lines never overflow \<open>long long\<close>, whatever
  the amounts.
\<close>

theorem nine_lines_never_overflow:
  assumes "length ls \<le> 9"
  shows "create_draft p rd gen now org user date descr ls d \<noteq> Inl TotalOverflow"
proof -
  have "int (length ls) * 10 ^ 18 \<le> 9 * 10 ^ 18" using assms by simp
  then have "check_lines rd org ls 0 0 \<noteq> Inl TotalOverflow" by (intro check_lines_no_overflow) simp_all
  then show ?thesis
    by (auto simp: create_draft_def rbind_Inl_iff lift_sql_def split: sum.splits if_splits prod.splits)
qed

theorem nine_lines_never_overflow_witness:
  "create_draft pg_text demo_d0 (demo_gen (CHR ''a'')) 0 ''o'' ''u'' ''2026-01-31'' ''sale''
     (replicate 9 (demo_line ''1010'' ''debit'')) demo_d0 \<noteq> Inl TotalOverflow"
  by (rule nine_lines_never_overflow) simp

definition max_line :: JournalLine where
  "max_line = (demo_line ''1010'' ''debit'')\<lparr>amount := ''9999999999999999.99''\<rparr>"

lemma parse_max: "parse_tiyn ''9999999999999999.99'' = Inr 999999999999999999"
proof -
  have "amount_parts ''9999999999999999.99'' ''9999999999999999'' ''99''" by (simp add: amount_parts_def isdigit_def)
  from parse_tiyn_parts [OF this] show ?thesis
    by (simp add: parts_tiyn_def pad_frac_def dec_val_def digit_val_def)
qed

text \<open>
  ten lines of the largest amount \<open>parse_tiyn\<close> accepts overflow the running total, a signed
  overflow: the guard of \<open>parse_tiyn\<close> bounds one amount, and nothing bounds their number.
\<close>

theorem ten_lines_overflow:
  "create_draft p demo_d0 gen now ''o'' user date descr (replicate 10 max_line) d = Inl TotalOverflow"
proof -
  have "check_lines demo_d0 ''o'' (replicate 10 max_line) 0 0 = Inl TotalOverflow"
    by (simp add: eval_nat_numeral(2,3) max_line_def parse_max demo_line_def demo_d0_def demo_account_def find_visible_def in_ll_def)
  then show ?thesis by (simp add: create_draft_def)
qed

section \<open>Reads\<close>

text \<open>
  the filtered listing of the journal is paged consistently: two consecutive pages are one
  page of their combined size, and a page as large as \<open>count_filtered\<close> says from the start
  holds exactly that many entries.
\<close>

theorem filtered_pages_tile:
  "rbind (list_filtered p d org f t a off) (\<lambda>xs. rbind (list_filtered p d org f t b (off + a)) (\<lambda>ys. Inr (xs @ ys))) =
     list_filtered p d org f t (a + b) off \<and>
   rbind (count_filtered p d org f t) (\<lambda>n. rbind (list_filtered p d org f t n 0) (\<lambda>xs. Inr (length xs))) =
     count_filtered p d org f t"
proof (cases "date_bound p f")
  case (Inr x)
  then show ?thesis
    by (cases "date_bound p t")
       (simp_all add: list_filtered_def count_filtered_def take_add add.commute [of off a]
          journal_repo.order_by_length flip: map_append drop_drop)
qed (simp add: list_filtered_def count_filtered_def)

text \<open>
  \<open>load_lines\<close> does not return the lines in the order they were inserted. The lines of one
  entry share the time of their transaction, so their random identifiers decide: here the
  lines of a posted entry come back in reverse.
\<close>

theorem loaded_lines_lose_insertion_order:
  "\<exists>gen e d' e' d''.
     create_draft pg_text demo_d0 gen 0 ''o'' ''u'' ''2026-01-31'' ''sale'' demo_lines demo_d0 = Inr (e, d') \<and>
     post pg_text ''o'' (je_id e) d' = Inr (Some e', d'') \<and>
     map side (lines e) = [''debit'', ''credit''] \<and> map side (lines e') = [''credit'', ''debit'']"
proof -
  define gen where "gen = (\<lambda>k::nat. if k = 0 then ''e'' else if k = 1 then ''z'' else ''b'')"
  define d1 where "d1 = demo_d0\<lparr>entries := [demo_entry ''e'' ''draft'' ''sale'' None],
      jlines := [demo_row ''z'' ''e'' ''1010'' ''debit'', demo_row ''b'' ''e'' ''6010'' ''credit'']\<rparr>"
  define ls where "ls = map (JournalLine_from_row pg_text) (jlines d1)"
  have gen: "gen 0 = ''e''" "gen 1 = ''z''" "gen (Suc 0) = ''z''" "gen (Suc (Suc 0)) = ''b''" by (simp_all add: gen_def)
  have c: "create_draft pg_text demo_d0 gen 0 ''o'' ''u'' ''2026-01-31'' ''sale'' demo_lines demo_d0 =
      Inr ((JournalEntry_from_row (demo_entry ''e'' ''draft'' ''sale'' None))\<lparr>lines := ls\<rparr>, d1)"
    by (simp add: create_draft_def demo_defs sql_defs parse_demo pg_text_demo gen in_ll_def find_visible_def ls_def d1_def
      JournalEntry_from_row_def JournalLine_from_row_def Let_def)
  have "(CHR ''b'' :: char) < CHR ''z''" by (simp add: less_char_def)
  then have sorted: "load_lines pg_text d1 (JournalEntry_from_row (demo_entry ''e'' ''draft'' ''sale'' None)) = rev ls"
    by (simp add: load_lines_def ls_def d1_def lines_of_def demo_row_def demo_entry_def JournalEntry_from_row_def)
  have "keys_ok d1" "lines_of d1 ''e'' \<noteq> []" by (simp_all add: keys_ok_def d1_def demo_row_def demo_entry_def lines_of_def)
  then obtain d2 where "post pg_text ''o'' ''e'' d1 = Inr (Some
      ((JournalEntry_from_row ((demo_entry ''e'' ''draft'' ''sale'' None)\<lparr>e_status := ''posted''\<rparr>))\<lparr>lines := rev ls\<rparr>), d2)"
    using post_succeeds [of d1 "demo_entry ''e'' ''draft'' ''sale'' None" pg_text] sorted
    by (auto simp: d1_def demo_entry_def)
  moreover have "map side ls = [''debit'', ''credit'']" by (simp add: ls_def d1_def demo_row_def JournalLine_from_row_def)
  moreover have "map side (rev ls) = [''credit'', ''debit'']" by (simp add: ls_def d1_def demo_row_def JournalLine_from_row_def)
  ultimately show ?thesis
    using c by (intro exI [of _ gen]) (auto simp: JournalEntry_from_row_def demo_entry_def)
qed

end
