(* ===== verification/PayrollCalculator.thy ===== *)
theory PayrollCalculator
  imports Prelude
begin

text \<open>
  Model of \<^verbatim>\<open>src/src/payroll/PayrollCalculator.hpp\<close>: the nine-step withholding calculation
  of one payslip. Money is whole tiyn and rates are basis points, all \<open>long long\<close>; every
  addition, subtraction and multiplication of the source is checked against the 64-bit
  range (\<open>ll\<close>), so that an execution with undefined behaviour is the value
  \<open>Inl SignedOverflow\<close>, and \<open>std::clamp\<close> with crossed bounds, undefined as well, is
  \<open>Inl ClampBoundsCrossed\<close>. The exception of the entry guard is \<open>Inl GrossOutOfRange\<close>.
\<close>

datatype payroll_error = GrossOutOfRange | SignedOverflow | ClampBoundsCrossed

definition kMaxGrossTiyn :: int where
  "kMaxGrossTiyn = 100000000000000"

record Rates =
  ipn_bp :: int
  opv_bp :: int
  opvr_bp :: int
  so_bp :: int
  osms_bp :: int
  vosms_bp :: int
  social_tax_bp :: int
  mrp_tiyn :: int
  mzp_tiyn :: int
  ipn_deduction_mrp :: int
  opv_base_max_mzp :: int
  so_base_min_mzp :: int
  so_base_max_mzp :: int
  vosms_base_max_mzp :: int
  osms_base_max_mzp :: int
  social_tax_applies :: bool

record Input =
  gross_tiyn :: int
  ipn_deduction_claimed :: bool
  opvr_exempt :: bool

record Result =
  opv :: int
  vosms :: int
  ipn :: int
  net :: int
  opvr :: int
  so :: int
  osms :: int
  social_tax :: int
  employer_cost_total :: int

definition ll :: "int \<Rightarrow> payroll_error + int" where
  "ll x = (if in_ll x then Inr x else Inl SignedOverflow)"

definition apply_bp :: "int \<Rightarrow> int \<Rightarrow> payroll_error + int" where
  "apply_bp base_tiyn rate_bp =
     rbind (ll (base_tiyn * rate_bp)) (\<lambda>p.
     rbind (ll (p + 5000)) (\<lambda>q. Inr (cdiv q 10000)))"

definition clamp :: "int \<Rightarrow> int \<Rightarrow> int \<Rightarrow> payroll_error + int" where
  "clamp v lo hi =
     (if hi < lo then Inl ClampBoundsCrossed
      else Inr (if v < lo then lo else if hi < v then hi else v))"

definition calculate :: "Input \<Rightarrow> Rates \<Rightarrow> payroll_error + Result" where
  "calculate inp r =
     (if gross_tiyn inp < 0 \<or> gross_tiyn inp > kMaxGrossTiyn then Inl GrossOutOfRange
      else
        let gross = gross_tiyn inp in
        rbind (ll (mzp_tiyn r * opv_base_max_mzp r)) (\<lambda>opv_cap.
        rbind (apply_bp (min gross opv_cap) (opv_bp r)) (\<lambda>opv_v.
        rbind (ll (mzp_tiyn r * vosms_base_max_mzp r)) (\<lambda>vosms_cap.
        rbind (apply_bp (min gross vosms_cap) (vosms_bp r)) (\<lambda>vosms_v.
        rbind (if ipn_deduction_claimed inp then ll (mrp_tiyn r * ipn_deduction_mrp r) else Inr 0)
          (\<lambda>ipn_deduction.
        rbind (ll (gross - opv_v)) (\<lambda>after_opv.
        rbind (ll (after_opv - vosms_v)) (\<lambda>after_vosms.
        rbind (ll (after_vosms - ipn_deduction)) (\<lambda>after_deduction.
        rbind (apply_bp (max 0 after_deduction) (ipn_bp r)) (\<lambda>ipn_v.
        rbind (ll (after_vosms - ipn_v)) (\<lambda>net_v.
        rbind (ll (mzp_tiyn r * so_base_min_mzp r)) (\<lambda>so_floor.
        rbind (ll (mzp_tiyn r * so_base_max_mzp r)) (\<lambda>so_ceiling.
        rbind (clamp after_opv so_floor so_ceiling) (\<lambda>so_base.
        rbind (apply_bp so_base (so_bp r)) (\<lambda>so_v.
        rbind (ll (mzp_tiyn r * osms_base_max_mzp r)) (\<lambda>osms_cap.
        rbind (apply_bp (min gross osms_cap) (osms_bp r)) (\<lambda>osms_v.
        rbind (if opvr_exempt inp then Inr 0 else apply_bp (min gross opv_cap) (opvr_bp r)) (\<lambda>opvr_v.
        rbind (if social_tax_applies r then apply_bp after_vosms (social_tax_bp r) else Inr 0)
          (\<lambda>social_tax_v.
        rbind (ll (gross + opvr_v)) (\<lambda>c1.
        rbind (ll (c1 + so_v)) (\<lambda>c2.
        rbind (ll (c2 + osms_v)) (\<lambda>c3.
        rbind (ll (c3 + social_tax_v)) (\<lambda>cost.
        Inr \<lparr>opv = opv_v, vosms = vosms_v, ipn = ipn_v, net = net_v, opvr = opvr_v, so = so_v,
             osms = osms_v, social_tax = social_tax_v, employer_cost_total = cost\<rparr>)))))))))))))))))))))))"

section \<open>Rounding\<close>

definition bp_of :: "int \<Rightarrow> int \<Rightarrow> int" where
  "bp_of base bp = (base * bp + 5000) div 10000"

lemma ll_ok: "- 9223372036854775808 \<le> x \<Longrightarrow> x \<le> 9223372036854775807 \<Longrightarrow> ll x = Inr x"
  by (simp add: ll_def in_llI)

lemma ll_Inr [elim!]: "ll x = Inr y \<Longrightarrow> y = x"
  by (simp add: ll_def split: if_splits)

lemma bp_of_bounds:
  assumes "0 \<le> base" "0 \<le> bp" "bp \<le> 10000"
  shows "0 \<le> bp_of base bp" and "bp_of base bp \<le> base" and "2 * 10000 * bp_of base bp \<le> 2 * (base * bp) + 10000"
proof -
  have p: "0 \<le> base * bp" "base * bp \<le> base * 10000" using assms by (simp_all add: mult_left_mono)
  show "0 \<le> bp_of base bp" using p by (simp add: bp_of_def)
  have "bp_of base bp * 10000 \<le> base * bp + 5000" unfolding bp_of_def by simp
  then show "2 * 10000 * bp_of base bp \<le> 2 * (base * bp) + 10000" by simp
  have "bp_of base bp * 10000 \<le> base * 10000 + 5000"
    using \<open>bp_of base bp * 10000 \<le> base * bp + 5000\<close> p(2) by linarith
  then show "bp_of base bp \<le> base" by linarith
qed

lemma apply_bp_ok:
  assumes "0 \<le> base" "base \<le> 2 * kMaxGrossTiyn" "0 \<le> bp" "bp \<le> 10000"
  shows "apply_bp base bp = Inr (bp_of base bp)"
proof -
  have "0 \<le> base * bp" using assms by simp
  moreover have "base * bp \<le> (2 * kMaxGrossTiyn) * 10000" using assms by (intro mult_mono) simp_all
  ultimately show ?thesis by (simp add: apply_bp_def ll_ok kMaxGrossTiyn_def bp_of_def)
qed

section \<open>Sane reference data\<close>

text \<open>
  What the calculation needs of the rates it is given: rates are percentages, the two
  employee contributions take at most half of the salary, the bounds made of multiples of
  the minimum wage (MZP) and the calculation index (MRP) are non-negative and within the range of a salary, the social contribution's
  corridor is not inverted. The rates of 2026 satisfy it (\<open>rates_2026_ok\<close>).
\<close>

definition bp_ok :: "int \<Rightarrow> bool" where
  "bp_ok x \<longleftrightarrow> 0 \<le> x \<and> x \<le> 10000"

definition amount_ok :: "int \<Rightarrow> bool" where
  "amount_ok x \<longleftrightarrow> 0 \<le> x \<and> x \<le> kMaxGrossTiyn"

definition rates_ok :: "Rates \<Rightarrow> bool" where
  "rates_ok r \<longleftrightarrow>
     bp_ok (ipn_bp r) \<and> bp_ok (opv_bp r) \<and> bp_ok (opvr_bp r) \<and> bp_ok (so_bp r) \<and>
     bp_ok (osms_bp r) \<and> bp_ok (vosms_bp r) \<and> bp_ok (social_tax_bp r) \<and>
     opv_bp r + vosms_bp r \<le> 5000 \<and>
     amount_ok (mrp_tiyn r * ipn_deduction_mrp r) \<and>
     amount_ok (mzp_tiyn r * opv_base_max_mzp r) \<and> amount_ok (mzp_tiyn r * vosms_base_max_mzp r) \<and>
     amount_ok (mzp_tiyn r * osms_base_max_mzp r) \<and>
     amount_ok (mzp_tiyn r * so_base_min_mzp r) \<and> amount_ok (mzp_tiyn r * so_base_max_mzp r) \<and>
     mzp_tiyn r * so_base_min_mzp r \<le> mzp_tiyn r * so_base_max_mzp r"

text \<open>The rates and constants seeded for 2026 by \<^verbatim>\<open>src/migrations/011_tax_reference.sql\<close>.\<close>

definition rates_2026 :: "bool \<Rightarrow> Rates" where
  "rates_2026 st =
     \<lparr>ipn_bp = 1000, opv_bp = 1000, opvr_bp = 350, so_bp = 500, osms_bp = 300, vosms_bp = 200,
      social_tax_bp = 600, mrp_tiyn = 432500, mzp_tiyn = 8500000, ipn_deduction_mrp = 30,
      opv_base_max_mzp = 50, so_base_min_mzp = 1, so_base_max_mzp = 7, vosms_base_max_mzp = 20,
      osms_base_max_mzp = 40, social_tax_applies = st\<rparr>"

lemma rates_2026_ok: "rates_ok (rates_2026 st)"
  by (simp add: rates_ok_def rates_2026_def bp_ok_def amount_ok_def kMaxGrossTiyn_def)

section \<open>The calculation without machine arithmetic\<close>

definition clamped :: "int \<Rightarrow> int \<Rightarrow> int \<Rightarrow> int" where
  "clamped v lo hi = (if v < lo then lo else if hi < v then hi else v)"

definition payslip_of :: "Input \<Rightarrow> Rates \<Rightarrow> Result" where
  "payslip_of inp r =
     (let g = gross_tiyn inp;
          o_v = bp_of (min g (mzp_tiyn r * opv_base_max_mzp r)) (opv_bp r);
          v_v = bp_of (min g (mzp_tiyn r * vosms_base_max_mzp r)) (vosms_bp r);
          ded = (if ipn_deduction_claimed inp then mrp_tiyn r * ipn_deduction_mrp r else 0);
          i_v = bp_of (max 0 (g - o_v - v_v - ded)) (ipn_bp r);
          s_v = bp_of (clamped (g - o_v) (mzp_tiyn r * so_base_min_mzp r) (mzp_tiyn r * so_base_max_mzp r)) (so_bp r);
          m_v = bp_of (min g (mzp_tiyn r * osms_base_max_mzp r)) (osms_bp r);
          r_v = (if opvr_exempt inp then 0 else bp_of (min g (mzp_tiyn r * opv_base_max_mzp r)) (opvr_bp r));
          t_v = (if social_tax_applies r then bp_of (g - o_v - v_v) (social_tax_bp r) else 0)
      in \<lparr>opv = o_v, vosms = v_v, ipn = i_v, net = g - o_v - v_v - i_v, opvr = r_v, so = s_v,
          osms = m_v, social_tax = t_v, employer_cost_total = g + r_v + s_v + m_v + t_v\<rparr>)"

lemma half_up_pair:
  assumes "0 \<le> g" "0 \<le> x" "x \<le> g" "0 \<le> y" "y \<le> g" "0 \<le> a" "0 \<le> b" "a + b \<le> 5000"
  shows "bp_of x a + bp_of y b \<le> g"
proof -
  have m: "x * a \<le> g * a" "y * b \<le> g * b" using assms by (simp_all add: mult_right_mono)
  have s: "g * a + g * b \<le> g * 5000" using assms by (simp add: mult_left_mono flip: distrib_left)
  have e: "bp_of x a * 10000 \<le> x * a + 5000" "bp_of y b * 10000 \<le> y * b + 5000"
    unfolding bp_of_def by simp_all
  show ?thesis
  proof (cases "g \<le> 1")
    case True
    then have "g = 0 \<or> g = 1" using assms by auto
    moreover have "x * a < 5000 \<Longrightarrow> 0 \<le> x * a \<Longrightarrow> bp_of x a = 0" "y * b < 5000 \<Longrightarrow> 0 \<le> y * b \<Longrightarrow> bp_of y b = 0"
      by (simp_all add: bp_of_def)
    ultimately show ?thesis using m s e assms by (cases "a = 5000"; cases "b = 5000") auto
  next
    case False
    then show ?thesis using m s e by linarith
  qed
qed

lemma min_bounds: "amount_ok c \<Longrightarrow> 0 \<le> g \<Longrightarrow> g \<le> kMaxGrossTiyn \<Longrightarrow> 0 \<le> min g c \<and> min g c \<le> g \<and> min g c \<le> kMaxGrossTiyn"
  by (auto simp: amount_ok_def)

lemma clamped_bounds:
  "0 \<le> lo \<Longrightarrow> lo \<le> hi \<Longrightarrow> hi \<le> kMaxGrossTiyn \<Longrightarrow> 0 \<le> clamped v lo hi \<and> clamped v lo hi \<le> kMaxGrossTiyn"
  by (auto simp: clamped_def)

lemma bp_of_upto:
  assumes "0 \<le> b" "b \<le> kMaxGrossTiyn" "bp_ok p"
  shows "apply_bp b p = Inr (bp_of b p)" and "0 \<le> bp_of b p" and "bp_of b p \<le> b"
    and "bp_of b p \<le> kMaxGrossTiyn"
  using assms apply_bp_ok [of b p] bp_of_bounds [of b p] by (auto simp: bp_ok_def)

lemma payslip_sel:
  fixes inp :: Input and r :: Rates
  defines "p \<equiv> payslip_of inp r"
  shows "opv p = bp_of (min (gross_tiyn inp) (mzp_tiyn r * opv_base_max_mzp r)) (opv_bp r)"
    and "vosms p = bp_of (min (gross_tiyn inp) (mzp_tiyn r * vosms_base_max_mzp r)) (vosms_bp r)"
    and "ipn p = bp_of (max 0 (gross_tiyn inp - opv p - vosms p -
           (if ipn_deduction_claimed inp then mrp_tiyn r * ipn_deduction_mrp r else 0))) (ipn_bp r)"
    and "net p = gross_tiyn inp - opv p - vosms p - ipn p"
    and "so p = bp_of (clamped (gross_tiyn inp - opv p) (mzp_tiyn r * so_base_min_mzp r)
           (mzp_tiyn r * so_base_max_mzp r)) (so_bp r)"
    and "osms p = bp_of (min (gross_tiyn inp) (mzp_tiyn r * osms_base_max_mzp r)) (osms_bp r)"
    and "opvr p = (if opvr_exempt inp then 0
           else bp_of (min (gross_tiyn inp) (mzp_tiyn r * opv_base_max_mzp r)) (opvr_bp r))"
    and "social_tax p = (if social_tax_applies r then bp_of (gross_tiyn inp - opv p - vosms p) (social_tax_bp r) else 0)"
    and "employer_cost_total p = gross_tiyn inp + opvr p + so p + osms p + social_tax p"
  by (simp_all add: p_def payslip_of_def Let_def)

text \<open>Every amount of the payslip is a non-negative amount of at most the salary bound.\<close>

lemma payslip_bounds:
  fixes inp :: Input and r :: Rates
  defines "p \<equiv> payslip_of inp r"
  assumes r: "rates_ok r" and g: "0 \<le> gross_tiyn inp" "gross_tiyn inp \<le> kMaxGrossTiyn"
  shows "amount_ok (opv p)" and "amount_ok (vosms p)" and "opv p + vosms p \<le> gross_tiyn inp"
    and "amount_ok (ipn p)" and "ipn p \<le> gross_tiyn inp - opv p - vosms p"
    and "amount_ok (so p)" and "amount_ok (osms p)" and "amount_ok (opvr p)" and "amount_ok (social_tax p)"
proof -
  have mb: "0 \<le> min (gross_tiyn inp) c \<and> min (gross_tiyn inp) c \<le> gross_tiyn inp \<and>
      min (gross_tiyn inp) c \<le> kMaxGrossTiyn" if "amount_ok c" for c
    using min_bounds [OF that g] .
  have mo: "amount_ok (bp_of (min (gross_tiyn inp) c) q)" if "amount_ok c" "bp_ok q" for c q
    using mb [OF that(1)] bp_of_upto(2,4) [of "min (gross_tiyn inp) c" q] that(2) by (simp add: amount_ok_def [of "bp_of _ _"])
  show o: "amount_ok (opv p)" and v: "amount_ok (vosms p)" and "amount_ok (osms p)" and "amount_ok (opvr p)"
    unfolding p_def payslip_sel using r by (simp_all add: mo rates_ok_def amount_ok_def [of 0] kMaxGrossTiyn_def)
  show ov: "opv p + vosms p \<le> gross_tiyn inp"
    unfolding p_def payslip_sel using r mb g by (intro half_up_pair) (simp_all add: rates_ok_def bp_ok_def)
  have base: "0 \<le> gross_tiyn inp - opv p - vosms p" "gross_tiyn inp - opv p - vosms p \<le> kMaxGrossTiyn"
    using ov o v g by (simp_all add: amount_ok_def)
  have ded: "0 \<le> (if ipn_deduction_claimed inp then mrp_tiyn r * ipn_deduction_mrp r else 0)"
    using r by (simp add: rates_ok_def amount_ok_def)
  have ib: "0 \<le> max 0 (gross_tiyn inp - opv p - vosms p - (if ipn_deduction_claimed inp then mrp_tiyn r * ipn_deduction_mrp r else 0))"
      "max 0 (gross_tiyn inp - opv p - vosms p - (if ipn_deduction_claimed inp then mrp_tiyn r * ipn_deduction_mrp r else 0))
        \<le> gross_tiyn inp - opv p - vosms p"
    using base ded by simp_all
  have "bp_ok (ipn_bp r)" using r by (simp add: rates_ok_def)
  then show i: "ipn p \<le> gross_tiyn inp - opv p - vosms p" and "amount_ok (ipn p)"
    using bp_of_upto(2,3) [OF ib(1)] ib base unfolding amount_ok_def p_def payslip_sel(3) by fastforce+
  show "amount_ok (so p)"
    unfolding p_def payslip_sel(5) using r clamped_bounds bp_of_upto(2,4) by (simp add: rates_ok_def amount_ok_def)
  show "amount_ok (social_tax p)"
    using base bp_of_upto(2,4) [of "gross_tiyn inp - opv p - vosms p" "social_tax_bp r"] r
    unfolding p_def payslip_sel(8) by (simp add: rates_ok_def amount_ok_def kMaxGrossTiyn_def)
qed

text \<open>
  Under \<open>rates_ok\<close> every intermediate of the nine steps stays in range, so the machine
  calculation is the arithmetic one.
\<close>

lemma ll_amount: "amount_ok x \<Longrightarrow> ll x = Inr x"
  by (simp add: amount_ok_def kMaxGrossTiyn_def ll_ok)

lemma calculate_payslip_of:
  assumes r: "rates_ok r" and g: "0 \<le> gross_tiyn inp" "gross_tiyn inp \<le> kMaxGrossTiyn"
  shows "calculate inp r = Inr (payslip_of inp r)"
proof -
  define p where "p = payslip_of inp r"
  note b = payslip_bounds [OF r g, folded p_def] and sel = payslip_sel [of inp r, folded p_def]
  have min: "apply_bp (min (gross_tiyn inp) c) q = Inr (bp_of (min (gross_tiyn inp) c) q)"
    if "amount_ok c" "bp_ok q" for c q
    using min_bounds [OF that(1) g] that(2) by (intro bp_of_upto) auto
  have bases: "apply_bp (max 0 (gross_tiyn inp - opv p - vosms p -
        (if ipn_deduction_claimed inp then mrp_tiyn r * ipn_deduction_mrp r else 0))) (ipn_bp r) = Inr (ipn p)"
    "apply_bp (gross_tiyn inp - opv p - vosms p) (social_tax_bp r) =
        Inr (bp_of (gross_tiyn inp - opv p - vosms p) (social_tax_bp r))"
    "apply_bp (clamped (gross_tiyn inp - opv p) (mzp_tiyn r * so_base_min_mzp r)
        (mzp_tiyn r * so_base_max_mzp r)) (so_bp r) = Inr (so p)"
    unfolding sel(3,5) using r b(1-3) g clamped_bounds
    by (auto intro!: bp_of_upto(1) simp: rates_ok_def amount_ok_def)
  have lls: "ll (gross_tiyn inp - opv p) = Inr (gross_tiyn inp - opv p)"
    "ll (gross_tiyn inp - opv p - vosms p) = Inr (gross_tiyn inp - opv p - vosms p)"
    "ll (gross_tiyn inp - opv p - vosms p - ipn p) = Inr (gross_tiyn inp - opv p - vosms p - ipn p)"
    "amount_ok d \<Longrightarrow> ll (gross_tiyn inp - opv p - vosms p - d) = Inr (gross_tiyn inp - opv p - vosms p - d)"
    "ll (gross_tiyn inp + opvr p) = Inr (gross_tiyn inp + opvr p)"
    "ll (gross_tiyn inp + opvr p + so p) = Inr (gross_tiyn inp + opvr p + so p)"
    "ll (gross_tiyn inp + opvr p + so p + osms p) = Inr (gross_tiyn inp + opvr p + so p + osms p)"
    "ll (gross_tiyn inp + opvr p + so p + osms p + social_tax p) = Inr (employer_cost_total p)" for d
    using b g unfolding amount_ok_def sel(9) by (simp_all add: kMaxGrossTiyn_def ll_ok)
  have ifs: "(if ipn_deduction_claimed inp then ll (mrp_tiyn r * ipn_deduction_mrp r) else Inr 0) =
        Inr (if ipn_deduction_claimed inp then mrp_tiyn r * ipn_deduction_mrp r else 0)"
    "(if opvr_exempt inp then Inr 0 else apply_bp (min (gross_tiyn inp) (mzp_tiyn r * opv_base_max_mzp r)) (opvr_bp r)) =
        Inr (opvr p)"
    "(if social_tax_applies r then apply_bp (gross_tiyn inp - opv p - vosms p) (social_tax_bp r) else Inr 0) =
        Inr (social_tax p)"
    "amount_ok (if ipn_deduction_claimed inp then mrp_tiyn r * ipn_deduction_mrp r else 0)"
    using r min bases(2) by (simp_all add: ll_amount sel(7,8) rates_ok_def amount_ok_def [of 0] kMaxGrossTiyn_def)
  have cl: "clamp x (mzp_tiyn r * so_base_min_mzp r) (mzp_tiyn r * so_base_max_mzp r) =
      Inr (clamped x (mzp_tiyn r * so_base_min_mzp r) (mzp_tiyn r * so_base_max_mzp r))" for x
    using r by (simp add: clamp_def clamped_def rates_ok_def)
  have "p = \<lparr>opv = opv p, vosms = vosms p, ipn = ipn p, net = gross_tiyn inp - opv p - vosms p - ipn p,
      opvr = opvr p, so = so p, osms = osms p, social_tax = social_tax p, employer_cost_total = employer_cost_total p\<rparr>"
    by (simp add: sel(4))
  then show ?thesis
    using r g unfolding p_def [symmetric] rates_ok_def
    by (simp add: calculate_def Let_def ll_amount min sel(1,2,6) [symmetric] lls cl bases ifs split del: if_split)
qed

section \<open>Properties\<close>

lemma payslip_2026:
  "payslip_of \<lparr>gross_tiyn = 30000000, ipn_deduction_claimed = True, opvr_exempt = False\<rparr> (rates_2026 True) =
    \<lparr>opv = 3000000, vosms = 600000, ipn = 1342500, net = 25057500, opvr = 1050000, so = 1350000,
        osms = 900000, social_tax = 1584000, employer_cost_total = 34884000\<rparr>"
  by code_simp

lemma payslip_2026_zero: "payslip_of \<lparr>gross_tiyn = 0, ipn_deduction_claimed = d, opvr_exempt = e\<rparr> (rates_2026 st) =
   \<lparr>opv = 0, vosms = 0, ipn = 0, net = 0, opvr = 0, so = 425000, osms = 0, social_tax = 0, employer_cost_total = 425000\<rparr>"
  by (induct d; induct e; induct st; code_simp)

text \<open>
  C27: on reference data that is sane (\<open>rates_ok\<close>), \<open>calculate\<close> is a total function: an
  input whose salary is outside \<open>0 .. kMaxGrossTiyn\<close> is refused by the entry guard, and on
  every other input no addition, subtraction, multiplication or \<open>std::clamp\<close> of the nine
  steps leaves defined behaviour, and the payslip is the one of exact arithmetic.
\<close>

theorem calculate_is_exact:
  assumes "rates_ok r"
  shows "calculate inp r =
    (if gross_tiyn inp < 0 \<or> gross_tiyn inp > kMaxGrossTiyn then Inl GrossOutOfRange
     else Inr (payslip_of inp r))"
  using calculate_payslip_of [OF assms] by (simp add: calculate_def)

theorem calculate_is_exact_witness:
  "rates_ok (rates_2026 True) \<and>
   calculate \<lparr>gross_tiyn = 30000000, ipn_deduction_claimed = True, opvr_exempt = False\<rparr> (rates_2026 True) =
     Inr \<lparr>opv = 3000000, vosms = 600000, ipn = 1342500, net = 25057500, opvr = 1050000, so = 1350000,
          osms = 900000, social_tax = 1584000, employer_cost_total = 34884000\<rparr>"
  using calculate_is_exact [OF rates_2026_ok [of True],
      of "\<lparr>gross_tiyn = 30000000, ipn_deduction_claimed = True, opvr_exempt = False\<rparr>"] rates_2026_ok
  by (simp add: kMaxGrossTiyn_def payslip_2026)

text \<open>
  C18: a computed payslip accounts for every tiyn. The salary is exactly what is withheld plus
  what is paid out, the employer's total cost is exactly the take-home pay plus the six
  amounts owed to the funds and the budget (the grouping \<open>post_to_journal\<close> credits), no
  amount is negative, and what is withheld never exceeds the salary.
\<close>

theorem calculate_accounts_for_every_tiyn:
  assumes "rates_ok r" and "calculate inp r = Inr p"
  shows "opv p + vosms p + ipn p + net p = gross_tiyn inp \<and>
    employer_cost_total p = net p + ipn p + (opv p + opvr p) + so p + (osms p + vosms p) + social_tax p \<and>
    0 \<le> opv p \<and> 0 \<le> vosms p \<and> 0 \<le> ipn p \<and> 0 \<le> net p \<and> 0 \<le> opvr p \<and>
    0 \<le> so p \<and> 0 \<le> osms p \<and> 0 \<le> social_tax p \<and> gross_tiyn inp \<le> employer_cost_total p"
proof -
  have g: "0 \<le> gross_tiyn inp" "gross_tiyn inp \<le> kMaxGrossTiyn"
    using assms(2) by (auto simp: calculate_def split: if_splits)
  then have p: "p = payslip_of inp r"
    using assms calculate_payslip_of by simp
  note b = payslip_bounds [OF assms(1) g, folded p, unfolded amount_ok_def]
    and sel = payslip_sel(4,9) [of inp r, folded p]
  show ?thesis
    using b sel by simp
qed

theorem calculate_accounts_for_every_tiyn_witness:
  "\<exists>p. calculate \<lparr>gross_tiyn = 30000001, ipn_deduction_claimed = False, opvr_exempt = True\<rparr> (rates_2026 False) = Inr p \<and>
       opv p + vosms p + ipn p + net p = 30000001 \<and> 30000001 \<le> employer_cost_total p"
proof -
  let ?i = "\<lparr>gross_tiyn = 30000001, ipn_deduction_claimed = False, opvr_exempt = True\<rparr>"
  have c: "calculate ?i (rates_2026 False) = Inr (payslip_of ?i (rates_2026 False))"
    by (rule calculate_payslip_of [OF rates_2026_ok]) (simp_all add: kMaxGrossTiyn_def)
  from calculate_accounts_for_every_tiyn [OF rates_2026_ok c] c show ?thesis by auto
qed

text \<open>
  \<open>apply_bp\<close> rounds a percentage of an amount to the nearest tiyn, a half upwards: the
  result is the only \<open>y\<close> with \<open>-5000 < 10000 * y - base * rate \<le> 5000\<close>.
\<close>

theorem apply_bp_rounds_half_up:
  assumes "0 \<le> base" "base \<le> 2 * kMaxGrossTiyn" "bp_ok rate"
  shows "apply_bp base rate = Inr y \<longleftrightarrow> - 5000 < 10000 * y - base * rate \<and> 10000 * y - base * rate \<le> 5000"
proof -
  have "apply_bp base rate = Inr (bp_of base rate)"
    using assms by (intro apply_bp_ok) (simp_all add: bp_ok_def)
  moreover have "(z + 5000) div 10000 = y \<longleftrightarrow> - 5000 < 10000 * y - z \<and> 10000 * y - z \<le> 5000" for z :: int
    by arith
  ultimately show ?thesis by (simp add: bp_of_def)
qed

theorem apply_bp_rounds_half_up_witness:
  "apply_bp 12350 1000 = Inr 1235 \<and> apply_bp 125 200 = Inr 3 \<and> apply_bp 124 200 = Inr 2"
  using apply_bp_rounds_half_up [of 12350 1000 1235] apply_bp_rounds_half_up [of 125 200 3]
    apply_bp_rounds_half_up [of 124 200 2]
  by (simp add: kMaxGrossTiyn_def bp_ok_def)

text \<open>
  with the rates seeded for 2026 a salary of zero is still charged the social contribution
  on its floor of one minimum wage, 4 250 tenge, so a payroll run over a roster of zero
  salaries is not all zero.
\<close>

theorem zero_salary_owes_social_contribution:
  "\<exists>p. calculate \<lparr>gross_tiyn = 0, ipn_deduction_claimed = d, opvr_exempt = e\<rparr> (rates_2026 st) = Inr p \<and>
       so p = 425000 \<and> employer_cost_total p = 425000 \<and> net p = 0"
proof -
  let ?i = "\<lparr>gross_tiyn = 0, ipn_deduction_claimed = d, opvr_exempt = e\<rparr>"
  have "calculate ?i (rates_2026 st) = Inr (payslip_of ?i (rates_2026 st))"
    by (rule calculate_payslip_of [OF rates_2026_ok]) (simp_all add: kMaxGrossTiyn_def)
  then show ?thesis by (simp add: payslip_2026_zero)
qed

end
