(* ===== verification/TaxReference.thy ===== *)
theory TaxReference
  imports LedgerStore
begin

text \<open>
  Model of \<^verbatim>\<open>src/src/tax/TaxReferenceRepository.hpp\<close> over the rows of \<open>tax_rates\<close> and
  \<open>tax_constants\<close> (\<^verbatim>\<open>src/src/tax/TaxRate.hpp\<close>): the rate or constant in force on a day. Dates
  are their ISO text of ten characters, whose order is the calendar's.
\<close>

definition kVat :: string where "kVat = ''vat''"
definition kSnrSimplified :: string where "kSnrSimplified = ''snr_simplified''"
definition kIpn :: string where "kIpn = ''ipn''"
definition kOpv :: string where "kOpv = ''opv''"
definition kOpvr :: string where "kOpvr = ''opvr''"
definition kSo :: string where "kSo = ''so''"
definition kOsms :: string where "kOsms = ''osms''"
definition kVosms :: string where "kVosms = ''vosms''"
definition kSocialTax :: string where "kSocialTax = ''social_tax''"

record Rate =
  rate_id :: string
  rate_kind :: string
  rate_bp :: int
  region :: "string option"
  rate_from :: string
  rate_to :: "string option"
  rate_source_note :: string

record Constant =
  const_id :: string
  const_key :: string
  value_tiyn :: int
  value_units :: "int option"
  const_from :: string
  const_to :: "string option"
  const_source_note :: string

definition in_force :: "string \<Rightarrow> string option \<Rightarrow> string \<Rightarrow> bool" where
  "in_force from_d to_d date \<longleftrightarrow> from_d \<le> date \<and> (case to_d of None \<Rightarrow> True | Some t \<Rightarrow> date \<le> t)"

text \<open>\<open>ORDER BY effective_from DESC LIMIT 1\<close>: the first of the rows that start latest.\<close>

fun latest :: "('r \<Rightarrow> string) \<Rightarrow> 'r list \<Rightarrow> 'r option" where
  "latest key [] = None"
| "latest key (r # rs) =
     (case latest key rs of
        None \<Rightarrow> Some r
      | Some m \<Rightarrow> if key r < key m then Some m else Some r)"

text \<open>\<open>ORDER BY region NULLS LAST, effective_from DESC LIMIT 1\<close>: a row of the region comes first.\<close>

definition rate_on :: "Rate list \<Rightarrow> string \<Rightarrow> string \<Rightarrow> string \<Rightarrow> Rate option" where
  "rate_on rates kind date region_or_empty =
     (let rows = filter (\<lambda>r. rate_kind r = kind \<and> in_force (rate_from r) (rate_to r) date \<and>
                   (region r = None \<or> region r = Some region_or_empty)) rates
      in case latest rate_from (filter (\<lambda>r. region r \<noteq> None) rows) of
           Some r \<Rightarrow> Some r
         | None \<Rightarrow> latest rate_from (filter (\<lambda>r. region r = None) rows))"

definition constant_on :: "Constant list \<Rightarrow> string \<Rightarrow> string \<Rightarrow> Constant option" where
  "constant_on consts key date =
     latest const_from (filter (\<lambda>c. const_key c = key \<and> in_force (const_from c) (const_to c) date) consts)"

text \<open>
  \<open>SELECT DISTINCT ON (kind, region) ... ORDER BY kind, region NULLS LAST, effective_from DESC\<close>:
  of every group in force on the day the latest row, the groups in order.
\<close>

definition distinct_on :: "('r \<Rightarrow> 'k::linorder) \<Rightarrow> ('r \<Rightarrow> string) \<Rightarrow> 'r list \<Rightarrow> 'r list" where
  "distinct_on grp key rows =
     List.map_filter (\<lambda>g. latest key (filter (\<lambda>r. grp r = g) rows)) (sorted_list_of_set (grp ` set rows))"

definition rate_group :: "Rate \<Rightarrow> string \<times> bool \<times> string" where
  "rate_group r = (rate_kind r, region r = None, case region r of None \<Rightarrow> [] | Some g \<Rightarrow> g)"

definition list_rates_on :: "Rate list \<Rightarrow> string \<Rightarrow> Rate list" where
  "list_rates_on rates date =
     distinct_on rate_group rate_from (filter (\<lambda>r. in_force (rate_from r) (rate_to r) date) rates)"

definition list_constants_on :: "Constant list \<Rightarrow> string \<Rightarrow> Constant list" where
  "list_constants_on consts date =
     distinct_on const_key const_from (filter (\<lambda>c. in_force (const_from c) (const_to c) date) consts)"

section \<open>What is in force\<close>

lemma latest_None [simp]: "latest key rs = None \<longleftrightarrow> rs = []"
  by (cases rs) (auto split: option.splits)

lemma latest_Some: "latest key rs = Some m \<Longrightarrow> m \<in> set rs \<and> (\<forall>r \<in> set rs. key r \<le> key m)"
proof (induction rs arbitrary: m)
  case (Cons r rs)
  show ?case
  proof (cases "latest key rs")
    case None
    with Cons.prems show ?thesis by simp
  next
    case (Some k)
    from Cons.IH [OF Some] Cons.prems Some show ?thesis
      by (auto split: if_splits intro: order_trans less_imp_le)
  qed
qed simp

definition rate_matches :: "string \<Rightarrow> string \<Rightarrow> string \<Rightarrow> Rate \<Rightarrow> bool" where
  "rate_matches kind date reg r \<longleftrightarrow>
     rate_kind r = kind \<and> in_force (rate_from r) (rate_to r) date \<and> (region r = None \<or> region r = Some reg)"

text \<open>
  \<open>rate_on\<close> finds a rate exactly when one of the kind is in force on the day for the region
  or nationally; what it finds is such a rate, a regional one whenever there is one, and no
  other rate of that scope in force started later.
\<close>

theorem rate_on_is_most_specific_latest:
  "(rate_on rates kind date reg = None \<longleftrightarrow> (\<forall>r \<in> set rates. \<not> rate_matches kind date reg r)) \<and>
   (\<forall>m. rate_on rates kind date reg = Some m \<longrightarrow>
      m \<in> set rates \<and> rate_matches kind date reg m \<and>
      (\<forall>r \<in> set rates. rate_matches kind date reg r \<longrightarrow>
         (region r \<noteq> None \<longrightarrow> region m \<noteq> None) \<and> (region r = region m \<longrightarrow> rate_from r \<le> rate_from m)))"
proof -
  define rows where "rows = filter (rate_matches kind date reg) rates"
  have e: "rate_on rates kind date reg =
      (case latest rate_from (filter (\<lambda>r. region r \<noteq> None) rows) of
           Some r \<Rightarrow> Some r
         | None \<Rightarrow> latest rate_from (filter (\<lambda>r. region r = None) rows))"
    unfolding rate_on_def rows_def rate_matches_def [abs_def] Let_def by (rule refl)
  have in_rows: "r \<in> set rows \<longleftrightarrow> r \<in> set rates \<and> rate_matches kind date reg r" for r
    by (auto simp: rows_def)
  have "rate_on rates kind date reg = None \<longleftrightarrow> rows = []"
    unfolding e by (auto simp: filter_empty_conv split: option.splits)
  moreover have "m \<in> set rows \<and> (\<forall>r \<in> set rows. (region r \<noteq> None \<longrightarrow> region m \<noteq> None) \<and> (region r = region m \<longrightarrow> rate_from r \<le> rate_from m))"
    if "rate_on rates kind date reg = Some m" for m
  proof (cases "latest rate_from (filter (\<lambda>r. region r \<noteq> None) rows)")
    case None
    then have "\<forall>r \<in> set rows. region r = None" by (simp add: filter_empty_conv)
    moreover have "latest rate_from (filter (\<lambda>r. region r = None) rows) = Some m" using that None e by simp
    ultimately show ?thesis using latest_Some [of rate_from "filter (\<lambda>r. region r = None) rows" m] by auto
  next
    case (Some k)
    then have "k = m" using that e by simp
    with latest_Some [OF Some] show ?thesis by auto
  qed
  ultimately show ?thesis by (auto simp: in_rows filter_empty_conv rows_def)
qed

theorem rate_on_is_most_specific_latest_witness:
  "rate_on [\<lparr>rate_id = ''1'', rate_kind = kVat, rate_bp = 1200, region = None, rate_from = ''2020'', rate_to = None,
             rate_source_note = []\<rparr>] kVat ''2026'' [] \<noteq> None"
proof -
  have "''2020'' \<le> (''2026'' :: string)" by (simp add: less_char_def)
  then show ?thesis
    using rate_on_is_most_specific_latest [of "[\<lparr>rate_id = ''1'', rate_kind = kVat, rate_bp = 1200, region = None,
      rate_from = ''2020'', rate_to = None, rate_source_note = []\<rparr>]" kVat "''2026''" "[]"]
    by (simp add: rate_matches_def in_force_def)
qed

text \<open>The same of constants.\<close>

lemma constant_on_Some:
  assumes "constant_on consts key date = Some c"
  shows "c \<in> set consts" and "const_key c = key" and "in_force (const_from c) (const_to c) date"
    and "\<forall>x \<in> set consts. const_key x = key \<longrightarrow> in_force (const_from x) (const_to x) date \<longrightarrow> const_from x \<le> const_from c"
  using latest_Some [OF assms [unfolded constant_on_def]] by auto

lemma distinct_on_group:
  assumes "r \<in> set (distinct_on grp key rows)"
  shows "r \<in> set rows \<and> (\<forall>x \<in> set rows. grp x = grp r \<longrightarrow> key x \<le> key r)"
proof -
  obtain g where "latest key (filter (\<lambda>r. grp r = g) rows) = Some r"
    using assms by (auto simp: distinct_on_def List.map_filter_def)
  from latest_Some [OF this] show ?thesis by auto
qed

lemma distinct_on_groups:
  "map grp (distinct_on grp key rows) = sorted_list_of_set (grp ` set rows)"
proof -
  have "map grp (List.map_filter (\<lambda>g. latest key (filter (\<lambda>r. grp r = g) rows)) gs) = gs"
    if "set gs \<subseteq> grp ` set rows" for gs
    using that
  proof (induction gs)
    case (Cons g gs)
    then obtain x where x: "x \<in> set rows" "grp x = g" by auto
    then have "filter (\<lambda>r. grp r = g) rows \<noteq> []" by (auto simp: filter_empty_conv)
    then obtain m where m: "latest key (filter (\<lambda>r. grp r = g) rows) = Some m"
      by (cases "latest key (filter (\<lambda>r. grp r = g) rows)") auto
    with latest_Some [OF m] Cons show ?case by (auto simp: List.map_filter_def)
  qed (simp add: List.map_filter_def)
  then show ?thesis by (simp add: distinct_on_def)
qed

end
