(* ===== verification/Employees.thy ===== *)
theory Employees
  imports OrgScoped LedgerStore
begin

text \<open>
  Model of \<^verbatim>\<open>src/src/hr/EmployeeRepository.hpp\<close> over the table \<open>employees\<close> of
  \<^verbatim>\<open>src/migrations/012_hr.sql\<close>: hiring, editing and dismissing, and the roster of a payroll
  period. Dates are ISO text; \<open>CHAR(12)\<close> pads the identification number with blanks.
\<close>

datatype employee_error = DuplicateEmployeeIin | EmployeeSql sql_error

record Employee =
  emp_id :: string
  emp_org :: string
  iin :: string
  last_name :: string
  first_name :: string
  middle_name :: "string option"
  emp_position :: string
  salary_tiyn :: int
  hired_on :: string
  dismissed_on :: "string option"
  ipn_deduction :: bool
  opvr_free :: bool
  payout_iik :: string
  emp_status :: string
  emp_created_at :: int

definition char12 :: "string \<Rightarrow> string" where
  "char12 s = s @ replicate (12 - length s) (CHR '' '')"

definition create_employee ::
  "pg \<Rightarrow> string list \<Rightarrow> string \<Rightarrow> int \<Rightarrow> string \<Rightarrow> Employee \<Rightarrow> Employee list \<Rightarrow>
   employee_error + Employee \<times> Employee list" where
  "create_employee p orgs new_id now org draft es =
     (case date_in p (hired_on draft) of
        None \<Rightarrow> Inl (EmployeeSql InvalidText)
      | Some hired \<Rightarrow>
          if length (iin draft) > 12 then Inl (EmployeeSql InvalidText)
          else if salary_tiyn draft < 0 then Inl (EmployeeSql CheckViolation)
          else if new_id \<in> emp_id ` set es \<or> (\<exists>e \<in> set es. emp_org e = org \<and> iin e = char12 (iin draft))
          then Inl DuplicateEmployeeIin
          else if org \<notin> set orgs then Inl (EmployeeSql ForeignKeyViolation)
          else
            let e = draft\<lparr>emp_id := new_id, emp_org := org, iin := char12 (iin draft), hired_on := hired,
                          dismissed_on := None, emp_status := ''active'', emp_created_at := now\<rparr>
            in Inr (e, es @ [e]))"

definition patched :: "Employee \<Rightarrow> Employee \<Rightarrow> Employee" where
  "patched patch e =
     e\<lparr>iin := char12 (iin patch), last_name := last_name patch, first_name := first_name patch,
       middle_name := middle_name patch, emp_position := emp_position patch, salary_tiyn := salary_tiyn patch,
       ipn_deduction := ipn_deduction patch, opvr_free := opvr_free patch, payout_iik := payout_iik patch\<rparr>"

definition update_employee ::
  "string \<Rightarrow> string \<Rightarrow> Employee \<Rightarrow> Employee list \<Rightarrow> employee_error + Employee option \<times> Employee list" where
  "update_employee org i patch es =
     (case find (\<lambda>e. emp_id e = i \<and> emp_org e = org) es of
        None \<Rightarrow> Inr (None, es)
      | Some e \<Rightarrow>
          if length (iin patch) > 12 then Inl (EmployeeSql InvalidText)
          else if salary_tiyn patch < 0 then Inl (EmployeeSql CheckViolation)
          else if \<exists>x \<in> set es. emp_id x \<noteq> i \<and> emp_org x = org \<and> iin x = char12 (iin patch)
          then Inl DuplicateEmployeeIin
          else Inr (Some (patched patch e), map (\<lambda>x. if emp_id x = i then patched patch e else x) es))"

definition dismiss ::
  "pg \<Rightarrow> string \<Rightarrow> string \<Rightarrow> string \<Rightarrow> Employee list \<Rightarrow> employee_error + Employee option \<times> Employee list" where
  "dismiss p org i date es =
     (case date_in p date of
        None \<Rightarrow> Inl (EmployeeSql InvalidText)
      | Some dt \<Rightarrow>
          (case find (\<lambda>e. emp_id e = i \<and> emp_org e = org \<and> emp_status e = ''active'') es of
             None \<Rightarrow> Inr (None, es)
           | Some e \<Rightarrow>
               let e' = e\<lparr>emp_status := ''dismissed'', dismissed_on := Some dt\<rparr>
               in Inr (Some e', map (\<lambda>x. if emp_id x = i then e' else x) es)))"

definition employee_order :: "Employee list \<Rightarrow> Employee list" where
  "employee_order es = rev (sort_key emp_created_at es)"

definition list_employed_during :: "Employee list \<Rightarrow> string \<Rightarrow> string \<Rightarrow> string \<Rightarrow> Employee list" where
  "list_employed_during es org period_start period_end =
     employee_order (filter (\<lambda>e. emp_org e = org \<and> hired_on e \<le> period_end \<and>
       (case dismissed_on e of
          Some d \<Rightarrow> period_start \<le> d
        | None \<Rightarrow> emp_status e = ''active'')) es)"

interpretation employee_repo: org_repo emp_id emp_org employee_order "\<lambda>e. e" emp_id emp_org
  by unfold_locales (simp_all add: employee_order_def)

section \<open>The roster\<close>

definition employees_ok :: "Employee list \<Rightarrow> bool" where
  "employees_ok es \<longleftrightarrow>
     distinct (map emp_id es) \<and> distinct (map (\<lambda>e. (emp_org e, iin e)) es) \<and>
     (\<forall>e \<in> set es. 0 \<le> salary_tiyn e \<and>
        (emp_status e = ''active'' \<and> dismissed_on e = None \<or> emp_status e = ''dismissed'' \<and> dismissed_on e \<noteq> None))"

inductive employee_step :: "pg \<Rightarrow> Employee list \<Rightarrow> Employee list \<Rightarrow> bool" for p :: pg where
  create: "create_employee p orgs new_id now org draft es = Inr (e, es') \<Longrightarrow> employee_step p es es'"
| update: "update_employee org i patch es = Inr (e, es') \<Longrightarrow> employee_step p es es'"
| dismiss: "dismiss p org i date es = Inr (e, es') \<Longrightarrow> employee_step p es es'"

lemma replace_ok:
  assumes "employees_ok es" and "e \<in> set es" and "emp_id e' = emp_id e" and "emp_org e' = emp_org e"
    and "\<forall>x \<in> set es. emp_id x \<noteq> emp_id e \<longrightarrow> emp_org x = emp_org e \<longrightarrow> iin x \<noteq> iin e'"
    and "0 \<le> salary_tiyn e'"
    and "emp_status e' = ''active'' \<and> dismissed_on e' = None \<or> emp_status e' = ''dismissed'' \<and> dismissed_on e' \<noteq> None"
  shows "employees_ok (map (\<lambda>x. if emp_id x = emp_id e then e' else x) es)"
proof -
  let ?f = "\<lambda>x. if emp_id x = emp_id e then e' else x"
  have only: "x = e" if "x \<in> set es" "emp_id x = emp_id e" for x
    using key_eqD [of emp_id es x e] assms(1,2) that by (simp add: employees_ok_def)
  have "map emp_id (map ?f es) = map emp_id es" using assms(3) by simp
  then have "distinct (map emp_id (map ?f es))" using assms(1) by (simp only: employees_ok_def)
  moreover have "distinct (map (\<lambda>e. (emp_org e, iin e)) (map ?f es))"
  proof (subst distinct_map, rule conjI)
    have dist: "distinct es" using assms(1) by (simp add: employees_ok_def distinct_map)
    have "inj_on ?f (set es)"
      using only assms(3) by (auto simp: inj_on_def split: if_splits)
    then show "distinct (map ?f es)" using dist by (simp add: distinct_map)
    have k: "inj_on (\<lambda>e. (emp_org e, iin e)) (set es)" using assms(1) by (simp add: employees_ok_def distinct_map)
    show "inj_on (\<lambda>e. (emp_org e, iin e)) (set (map ?f es))"
    proof (rule inj_onI, goal_cases)
      case (1 u v)
      then obtain x y where x: "x \<in> set es" "u = ?f x" and y: "y \<in> set es" "v = ?f y" by auto
      show ?case
        using 1(3) x y only assms(3,4,5) inj_onD [OF k _ x(1) y(1)] by (auto split: if_splits)
    qed
  qed
  moreover have "\<forall>x \<in> set (map ?f es). 0 \<le> salary_tiyn x \<and>
      (emp_status x = ''active'' \<and> dismissed_on x = None \<or> emp_status x = ''dismissed'' \<and> dismissed_on x \<noteq> None)"
    using assms(1,6,7) by (auto simp: employees_ok_def)
  ultimately show ?thesis unfolding employees_ok_def by blast
qed

lemma employee_step_ok:
  assumes "employee_step p es es'" and ok: "employees_ok es"
  shows "employees_ok es'"
  using assms(1)
proof cases
  case (create orgs new_id now org draft e)
  then obtain h where es': "es' = es @ [e]" and new: "emp_id e \<notin> emp_id ` set es"
      "\<forall>x \<in> set es. emp_org x = emp_org e \<longrightarrow> iin x \<noteq> iin e"
    and e: "0 \<le> salary_tiyn e" "emp_status e = ''active''" "dismissed_on e = None"
    by (auto simp: create_employee_def Let_def split: option.splits if_splits)
  have "(emp_org e, iin e) \<notin> (\<lambda>e. (emp_org e, iin e)) ` set es" using new(2) by auto
  then show ?thesis using ok new(1) e unfolding es' employees_ok_def by simp
next
  case (update org i patch e)
  show ?thesis
  proof (cases "find (\<lambda>e. emp_id e = i \<and> emp_org e = org) es")
    case None
    with update ok show ?thesis by (simp add: update_employee_def)
  next
    case (Some x)
    then have x: "x \<in> set es" "emp_id x = i" "emp_org x = org" by (auto simp: find_Some_iff)
    have es': "es' = map (\<lambda>y. if emp_id y = emp_id x then patched patch x else y) es"
      and c: "\<not> length (iin patch) > 12" "0 \<le> salary_tiyn patch"
        "\<forall>y \<in> set es. emp_id y \<noteq> i \<longrightarrow> emp_org y = org \<longrightarrow> iin y \<noteq> char12 (iin patch)"
      using update Some x(2) by (auto simp: update_employee_def not_less split: if_splits)
    have "emp_status x = ''active'' \<and> dismissed_on x = None \<or> emp_status x = ''dismissed'' \<and> dismissed_on x \<noteq> None"
      using ok x(1) unfolding employees_ok_def by blast
    then show ?thesis unfolding es' using x c by (intro replace_ok [OF ok x(1)]) (simp_all add: patched_def)
  qed
next
  case (dismiss org i date e)
  then obtain dt where dt: "date_in p date = Some dt" by (auto simp: dismiss_def split: option.splits)
  show ?thesis
  proof (cases "find (\<lambda>e. emp_id e = i \<and> emp_org e = org \<and> emp_status e = ''active'') es")
    case None
    with dismiss dt ok show ?thesis by (simp add: dismiss_def)
  next
    case (Some x)
    then have x: "x \<in> set es" "emp_id x = i" by (auto simp: find_Some_iff)
    have es': "es' = map (\<lambda>y. if emp_id y = emp_id x then x\<lparr>emp_status := ''dismissed'', dismissed_on := Some dt\<rparr> else y) es"
      using dismiss Some dt x(2) by (auto simp: dismiss_def Let_def)
    have "\<forall>y \<in> set es. emp_id y \<noteq> emp_id x \<longrightarrow> emp_org y = emp_org x \<longrightarrow> iin y \<noteq> iin x"
    proof (intro ballI impI notI)
      fix y assume y: "y \<in> set es" "emp_id y \<noteq> emp_id x" "emp_org y = emp_org x" "iin y = iin x"
      then have "y = x" using key_eqD [of "\<lambda>e. (emp_org e, iin e)" es y x] ok x(1) by (simp add: employees_ok_def)
      with y(2) show False by simp
    qed
    moreover have "0 \<le> salary_tiyn x" using ok x(1) by (simp add: employees_ok_def)
    ultimately show ?thesis unfolding es' by (intro replace_ok [OF ok x(1)]) simp_all
  qed
qed

inductive employee_reach :: "pg \<Rightarrow> Employee list \<Rightarrow> bool" for p :: pg where
  start: "employee_reach p []"
| step: "employee_reach p es \<Longrightarrow> employee_step p es es' \<Longrightarrow> employee_reach p es'"

lemma employee_reach_ok: "employee_reach p es \<Longrightarrow> employees_ok es"
  by (induction rule: employee_reach.induct) (simp add: employees_ok_def, rule employee_step_ok)

text \<open>
  the roster of a period. On every table the repository's operations can produce, the
  roster of an organization for a period holds, each once, exactly its employees who were
  hired by the period's last day and not dismissed before its first.
\<close>

theorem roster_is_overlap:
  assumes "employee_reach p es"
  shows "distinct (map emp_id (list_employed_during es org ps pe)) \<and>
    (e \<in> set (list_employed_during es org ps pe) \<longleftrightarrow>
      e \<in> set es \<and> emp_org e = org \<and> hired_on e \<le> pe \<and> \<not> (\<exists>d. dismissed_on e = Some d \<and> d < ps))"
proof -
  have ok: "employees_ok es" using assms by (rule employee_reach_ok)
  have st: "dismissed_on e = None \<longrightarrow> emp_status e = ''active''" if "e \<in> set es"
    using ok that unfolding employees_ok_def by auto
  have "distinct (map emp_id (list_employed_during es org ps pe))"
    using ok by (auto simp: employees_ok_def list_employed_during_def employee_order_def distinct_map intro: inj_on_subset)
  moreover have "e \<in> set (list_employed_during es org ps pe) \<longleftrightarrow>
      e \<in> set es \<and> emp_org e = org \<and> hired_on e \<le> pe \<and> \<not> (\<exists>d. dismissed_on e = Some d \<and> d < ps)"
    using st by (auto simp: list_employed_during_def employee_order_def not_less split: option.splits)
  ultimately show ?thesis by blast
qed

definition demo_employee :: Employee where
  "demo_employee =
     \<lparr>emp_id = ''e1'', emp_org = ''o'', iin = ''860101300126'', last_name = ''A'', first_name = ''B'', middle_name = None,
      emp_position = ''clerk'', salary_tiyn = 30000000, hired_on = ''2026-01-10'', dismissed_on = None,
      ipn_deduction = True, opvr_free = False, payout_iik = [], emp_status = ''active'', emp_created_at = 0\<rparr>"

definition pg_dates :: pg where
  "pg_dates = \<lparr>num_in = (\<lambda>_. None), num_out = (\<lambda>_. []), date_in = Some\<rparr>"

lemma demo_employee_reach: "employee_reach pg_dates [demo_employee\<lparr>emp_status := ''dismissed'', dismissed_on := Some ''2026-03-05''\<rparr>]"
proof -
  have c: "create_employee pg_dates [''o''] ''e1'' 0 ''o'' demo_employee [] = Inr (demo_employee, [demo_employee])"
    by (simp add: create_employee_def demo_employee_def pg_dates_def char12_def Let_def)
  have d: "\<exists>e. dismiss pg_dates ''o'' ''e1'' ''2026-03-05'' [demo_employee] =
      Inr (e, [demo_employee\<lparr>emp_status := ''dismissed'', dismissed_on := Some ''2026-03-05''\<rparr>])"
    by (simp add: dismiss_def demo_employee_def pg_dates_def Let_def)
  show ?thesis
    using employee_reach.step [OF employee_reach.step [OF employee_reach.start employee_step.create [OF c]] employee_step.dismiss] d
    by blast
qed

theorem roster_is_overlap_witness:
  "let e = demo_employee\<lparr>emp_status := ''dismissed'', dismissed_on := Some ''2026-03-05''\<rparr> in
   e \<in> set (list_employed_during [e] ''o'' ''2026-03-01'' ''2026-03-31'') \<and>
   e \<notin> set (list_employed_during [e] ''o'' ''2026-04-01'' ''2026-04-30'')"
proof -
  define e where "e = demo_employee\<lparr>emp_status := ''dismissed'', dismissed_on := Some ''2026-03-05''\<rparr>"
  have r: "employee_reach pg_dates [e]" unfolding e_def by (rule demo_employee_reach)
  have "\<not> ''2026-03-05'' < (''2026-03-01'' :: string)" "''2026-03-05'' < (''2026-04-01'' :: string)"
      "''2026-01-10'' \<le> (''2026-03-31'' :: string)"
    by (simp_all add: less_char_def)
  then show ?thesis
    using roster_is_overlap [OF r, of "''o''" "''2026-03-01''" "''2026-03-31''" e]
      roster_is_overlap [OF r, of "''o''" "''2026-04-01''" "''2026-04-30''" e]
    unfolding e_def [symmetric] Let_def by (simp add: e_def demo_employee_def)
qed

end
