(* ===== verification/Payroll.thy ===== *)
theory Payroll
  imports PayrollCalculator Journal TaxReference Employees
begin

text \<open>
  Model of \<^verbatim>\<open>src/src/payroll/PayrollService.hpp\<close> and \<^verbatim>\<open>src/src/payroll/PayrollRepository.hpp\<close>:
  calculating, approving and posting a payroll run. As in \<^verbatim>\<open>Journal\<close>, a call is split where it
  leaves the database: \<open>calculate_prepare\<close> and \<open>approve_guard\<close> read and check, \<open>calculate_txn\<close>,
  \<open>approve_txn\<close> and \<open>claim_txn\<close> are the transactions. \<open>rd\<close> is the replica, which the reference
  data, the organization and the roster are read from. Posting is several transactions, so
  \<open>post_to_journal\<close> returns the state next to the outcome: what was committed before an
  exception stays.
\<close>

datatype pay_error =
  InvalidRunState | MissingPayrollReference string string string | GrossSalaryOutOfRange string |
  RunNotFound | EmptyRun | BadMonth | Calc payroll_error | Format tiyn_error | PaySql sql_error |
  JournalFailed journal_error

definition lift_with :: "('e \<Rightarrow> pay_error) \<Rightarrow> 'e + 'a \<Rightarrow> pay_error + 'a" where
  "lift_with f x = (case x of Inl e \<Rightarrow> Inl (f e) | Inr a \<Rightarrow> Inr a)"

record Payslip =
  ps_id :: string
  ps_org :: string
  ps_run :: string
  ps_employee :: string
  ps_gross :: int
  ps_opv :: int
  ps_vosms :: int
  ps_ipn :: int
  ps_net :: int
  ps_opvr :: int
  ps_so :: int
  ps_osms :: int
  ps_social_tax :: int
  ps_created_at :: int

record PayrollRun =
  run_id :: string
  run_org :: string
  period_year :: nat
  period_month :: nat
  run_status :: string
  rates_snapshot :: "Rates \<times> string"
  journal_entry_id :: "string option"
  run_payslips :: "Payslip list"

record pay_db =
  runs :: "PayrollRun list"
  payslips :: "Payslip list"
  employees :: "Employee list"
  tax_rates :: "Rate list"
  tax_constants :: "Constant list"
  tax_regimes :: "(string \<times> string) list"

section \<open>Periods\<close>

definition kDaysInMonth :: "nat list" where
  "kDaysInMonth = [31, 28, 31, 30, 31, 30, 31, 31, 30, 31, 30, 31]"

definition date_text :: "nat \<Rightarrow> nat \<Rightarrow> nat \<Rightarrow> string" where
  "date_text y m d = dec04 y @ ''-'' @ dec02 m @ ''-'' @ dec02 d"

text \<open>A month outside \<open>1 .. 12\<close> would read past the table of days; it is \<open>None\<close>.\<close>

definition last_day_of_month :: "nat \<Rightarrow> nat \<Rightarrow> string option" where
  "last_day_of_month year month =
     (if 1 \<le> month \<and> month \<le> 12
      then let day = kDaysInMonth ! (month - 1);
               day = (if month = 2 \<and> (year mod 4 = 0 \<and> year mod 100 \<noteq> 0 \<or> year mod 400 = 0) then 29 else day)
           in Some (date_text year month day)
      else None)"

definition first_day_of_month :: "nat \<Rightarrow> nat \<Rightarrow> string" where
  "first_day_of_month year month = date_text year month 1"

section \<open>Reference data of a run\<close>

definition run_rate_bp :: "pay_db \<Rightarrow> string \<Rightarrow> string \<Rightarrow> pay_error + int" where
  "run_rate_bp rd kind date =
     (case rate_on (tax_rates rd) kind date [] of
        None \<Rightarrow> Inl (MissingPayrollReference ''rate'' kind date)
      | Some r \<Rightarrow> Inr (rate_bp r))"

definition constant_tiyn :: "pay_db \<Rightarrow> string \<Rightarrow> string \<Rightarrow> pay_error + int" where
  "constant_tiyn rd key date =
     (case constant_on (tax_constants rd) key date of
        None \<Rightarrow> Inl (MissingPayrollReference ''constant'' key date)
      | Some c \<Rightarrow> Inr (value_tiyn c))"

definition constant_units :: "pay_db \<Rightarrow> string \<Rightarrow> string \<Rightarrow> pay_error + int" where
  "constant_units rd key date =
     (case constant_on (tax_constants rd) key date of
        None \<Rightarrow> Inl (MissingPayrollReference ''constant'' key date)
      | Some c \<Rightarrow> Inr (case value_units c of None \<Rightarrow> 0 | Some u \<Rightarrow> u))"

definition build_rates :: "pay_db \<Rightarrow> string \<Rightarrow> string \<Rightarrow> pay_error + Rates" where
  "build_rates rd org date =
     rbind (run_rate_bp rd kIpn date) (\<lambda>ipn_v.
     rbind (run_rate_bp rd kOpv date) (\<lambda>opv_v.
     rbind (run_rate_bp rd kOpvr date) (\<lambda>opvr_v.
     rbind (run_rate_bp rd kSo date) (\<lambda>so_v.
     rbind (run_rate_bp rd kOsms date) (\<lambda>osms_v.
     rbind (run_rate_bp rd kVosms date) (\<lambda>vosms_v.
     rbind (run_rate_bp rd kSocialTax date) (\<lambda>social_v.
     rbind (constant_tiyn rd ''mrp'' date) (\<lambda>mrp.
     rbind (constant_tiyn rd ''mzp'' date) (\<lambda>mzp.
     rbind (constant_units rd ''ipn_deduction_mrp'' date) (\<lambda>ded.
     rbind (constant_units rd ''opv_base_max_mzp'' date) (\<lambda>opv_max.
     rbind (constant_units rd ''so_base_min_mzp'' date) (\<lambda>so_min.
     rbind (constant_units rd ''so_base_max_mzp'' date) (\<lambda>so_max.
     rbind (constant_units rd ''vosms_base_max_mzp'' date) (\<lambda>vosms_max.
     rbind (constant_units rd ''osms_base_max_mzp'' date) (\<lambda>osms_max.
     Inr \<lparr>ipn_bp = ipn_v, opv_bp = opv_v, opvr_bp = opvr_v, so_bp = so_v, osms_bp = osms_v, vosms_bp = vosms_v,
          social_tax_bp = social_v, mrp_tiyn = mrp, mzp_tiyn = mzp, ipn_deduction_mrp = ded,
          opv_base_max_mzp = opv_max, so_base_min_mzp = so_min, so_base_max_mzp = so_max,
          vosms_base_max_mzp = vosms_max, osms_base_max_mzp = osms_max,
          social_tax_applies = (map_of (tax_regimes rd) org \<noteq> Some ''snr_simplified'')\<rparr>)))))))))))))))"

section \<open>calculate\_run\<close>

definition find_by_period :: "pay_db \<Rightarrow> string \<Rightarrow> nat \<Rightarrow> nat \<Rightarrow> PayrollRun option" where
  "find_by_period d org y m = find (\<lambda>r. run_org r = org \<and> period_year r = y \<and> period_month r = m) (runs d)"

definition find_run_in_org :: "pay_db \<Rightarrow> string \<Rightarrow> string \<Rightarrow> PayrollRun option" where
  "find_run_in_org d i org = find_in_org run_id run_org (\<lambda>r. r) (runs d) i org"

definition list_payslips :: "pay_db \<Rightarrow> PayrollRun \<Rightarrow> Payslip list" where
  "list_payslips d r =
     sort_key (\<lambda>p. (ps_created_at p, ps_id p)) (filter (\<lambda>p. ps_run p = run_id r \<and> ps_org p = run_org r) (payslips d))"

definition payslips_of :: "pay_db \<Rightarrow> string \<Rightarrow> string \<Rightarrow> Payslip list" where
  "payslips_of d org i = (case find_run_in_org d i org of None \<Rightarrow> [] | Some r \<Rightarrow> list_payslips d r)"

definition calculate_prepare ::
  "pay_db \<Rightarrow> pay_db \<Rightarrow> string \<Rightarrow> nat \<Rightarrow> nat \<Rightarrow> pay_error + (Rates \<times> string) \<times> Employee list \<times> PayrollRun option" where
  "calculate_prepare rd d org y m =
     (case last_day_of_month y m of
        None \<Rightarrow> Inl BadMonth
      | Some effective_date \<Rightarrow>
          rbind (build_rates rd org effective_date) (\<lambda>rates.
          let roster = list_employed_during (employees rd) org (first_day_of_month y m) effective_date
          in case find (\<lambda>e. salary_tiyn e < 0 \<or> salary_tiyn e > kMaxGrossTiyn) roster of
               Some e \<Rightarrow> Inl (GrossSalaryOutOfRange (emp_id e))
             | None \<Rightarrow>
                 let existing = find_by_period d org y m
                 in case existing of
                      Some r \<Rightarrow> if run_status r = ''approved'' then Inl InvalidRunState
                                else Inr ((rates, effective_date), roster, existing)
                    | None \<Rightarrow> Inr ((rates, effective_date), roster, existing)))"

definition insert_payslip ::
  "string \<Rightarrow> int \<Rightarrow> string \<Rightarrow> string \<Rightarrow> string \<Rightarrow> int \<Rightarrow> Result \<Rightarrow> pay_db \<Rightarrow> pay_error + Payslip \<times> pay_db" where
  "insert_payslip new_id now org rid eid gross res d =
     (let ps = \<lparr>ps_id = new_id, ps_org = org, ps_run = rid, ps_employee = eid, ps_gross = gross,
                ps_opv = opv res, ps_vosms = vosms res, ps_ipn = ipn res, ps_net = net res, ps_opvr = opvr res,
                ps_so = so res, ps_osms = osms res, ps_social_tax = social_tax res, ps_created_at = now\<rparr>
      in if gross < 0 \<or> opv res < 0 \<or> vosms res < 0 \<or> ipn res < 0 \<or> net res < 0 \<or> opvr res < 0 \<or> so res < 0 \<or>
            osms res < 0 \<or> social_tax res < 0
         then Inl (PaySql CheckViolation)
         else if new_id \<in> ps_id ` set (payslips d) \<or> (\<exists>x \<in> set (payslips d). ps_run x = rid \<and> ps_employee x = eid)
         then Inl (PaySql UniqueViolation)
         else if \<not> (\<exists>r \<in> set (runs d). run_id r = rid \<and> run_org r = org) \<or>
                 \<not> (\<exists>e \<in> set (employees d). emp_id e = eid \<and> emp_org e = org)
         then Inl (PaySql ForeignKeyViolation)
         else Inr (ps, d\<lparr>payslips := payslips d @ [ps]\<rparr>))"

fun insert_payslips ::
  "(nat \<Rightarrow> string) \<Rightarrow> int \<Rightarrow> string \<Rightarrow> string \<Rightarrow> Rates \<Rightarrow> nat \<Rightarrow> Employee list \<Rightarrow> pay_db \<Rightarrow>
   pay_error + Payslip list \<times> pay_db" where
  "insert_payslips gen now org rid rates k [] d = Inr ([], d)"
| "insert_payslips gen now org rid rates k (e # es) d =
     rbind (lift_with Calc (calculate
       \<lparr>gross_tiyn = salary_tiyn e, ipn_deduction_claimed = ipn_deduction e, opvr_exempt = opvr_free e\<rparr> rates)) (\<lambda>res.
     rbind (insert_payslip (gen k) now org rid (emp_id e) (salary_tiyn e) res d) (\<lambda>(ps, d').
     rbind (insert_payslips gen now org rid rates (Suc k) es d') (\<lambda>(rest, d'').
     Inr (ps # rest, d''))))"

definition calculate_txn ::
  "(nat \<Rightarrow> string) \<Rightarrow> int \<Rightarrow> string \<Rightarrow> nat \<Rightarrow> nat \<Rightarrow> Rates \<times> string \<Rightarrow> Employee list \<Rightarrow> PayrollRun option \<Rightarrow> pay_db \<Rightarrow>
   pay_error + PayrollRun \<times> pay_db" where
  "calculate_txn gen now org y m snapshot roster existing d =
     rbind
       (case existing of
          Some ex \<Rightarrow>
            (case find (\<lambda>r. run_id r = run_id ex \<and> run_org r = org \<and> run_status r = ''draft'') (runs d) of
               None \<Rightarrow> Inl InvalidRunState
             | Some r \<Rightarrow>
                 let r' = r\<lparr>rates_snapshot := snapshot\<rparr> in
                 Inr (r', d\<lparr>runs := map (\<lambda>x. if run_id x = run_id r then r' else x) (runs d),
                           payslips := filter (\<lambda>p. \<not> (ps_run p = run_id r \<and> ps_org p = org)) (payslips d)\<rparr>))
        | None \<Rightarrow>
            if m < 1 \<or> m > 12 then Inl (PaySql CheckViolation)
            else if gen 0 \<in> run_id ` set (runs d) \<or>
                    (\<exists>r \<in> set (runs d). run_org r = org \<and> period_year r = y \<and> period_month r = m)
            then Inl (PaySql UniqueViolation)
            else
              let r = \<lparr>run_id = gen 0, run_org = org, period_year = y, period_month = m, run_status = ''draft'',
                       rates_snapshot = snapshot, journal_entry_id = None, run_payslips = []\<rparr>
              in Inr (r, d\<lparr>runs := runs d @ [r]\<rparr>))
       (\<lambda>(run, d1).
     rbind (insert_payslips gen now org (run_id run) (fst snapshot) 1 roster d1) (\<lambda>(slips, d2).
     Inr (run\<lparr>run_payslips := slips\<rparr>, d2)))"

definition calculate_run ::
  "pay_db \<Rightarrow> (nat \<Rightarrow> string) \<Rightarrow> int \<Rightarrow> string \<Rightarrow> nat \<Rightarrow> nat \<Rightarrow> pay_db \<Rightarrow> pay_error + PayrollRun \<times> pay_db" where
  "calculate_run rd gen now org y m d =
     rbind (calculate_prepare rd d org y m) (\<lambda>(snapshot, roster, existing).
     calculate_txn gen now org y m snapshot roster existing d)"

section \<open>approve\<close>

definition approve_guard :: "pay_db \<Rightarrow> string \<Rightarrow> string \<Rightarrow> pay_error + PayrollRun option" where
  "approve_guard d org i =
     (case find_run_in_org d i org of
        None \<Rightarrow> Inr None
      | Some r \<Rightarrow> if run_status r \<noteq> ''draft'' then Inl InvalidRunState else Inr (Some r))"

definition approve_txn :: "string \<Rightarrow> string \<Rightarrow> pay_db \<Rightarrow> pay_error + PayrollRun \<times> pay_db" where
  "approve_txn org i d =
     (case find (\<lambda>r. run_id r = i \<and> run_org r = org \<and> run_status r = ''draft'') (runs d) of
        None \<Rightarrow> Inl InvalidRunState
      | Some r \<Rightarrow>
          let r' = r\<lparr>run_status := ''approved''\<rparr>;
              d' = d\<lparr>runs := map (\<lambda>x. if run_id x = i then r' else x) (runs d)\<rparr>
          in Inr (r'\<lparr>run_payslips := list_payslips d' r'\<rparr>, d'))"

definition approve :: "string \<Rightarrow> string \<Rightarrow> pay_db \<Rightarrow> pay_error + PayrollRun option \<times> pay_db" where
  "approve org i d =
     rbind (approve_guard d org i) (\<lambda>g.
     case g of
       None \<Rightarrow> Inr (None, d)
     | Some _ \<Rightarrow> rbind (approve_txn org i d) (\<lambda>(r, d'). Inr (Some r, d')))"

section \<open>post\_to\_journal\<close>

text \<open>A total of the run, summed in \<open>long long\<close>.\<close>

fun run_total :: "(Payslip \<Rightarrow> int) \<Rightarrow> Payslip list \<Rightarrow> int \<Rightarrow> payroll_error + int" where
  "run_total f [] acc = Inr acc"
| "run_total f (p # ps) acc = rbind (ll (acc + f p)) (run_total f ps)"

definition add_line :: "JournalLine list \<Rightarrow> string \<Rightarrow> string \<Rightarrow> int \<Rightarrow> pay_error + JournalLine list" where
  "add_line ls code sd amount_tiyn =
     (if amount_tiyn = 0 then Inr ls
      else rbind (lift_with Format (format_tiyn amount_tiyn)) (\<lambda>text.
        Inr (ls @ [\<lparr>line_id = [], entry_id = [], account_code = code, side = sd, amount = text,
                    counterparty_id = None, vat_amount = None\<rparr>])))"

definition posting_lines :: "Payslip list \<Rightarrow> pay_error + JournalLine list" where
  "posting_lines ps =
     rbind (lift_with Calc (run_total ps_gross ps 0)) (\<lambda>gross_total.
     rbind (lift_with Calc (run_total ps_opv ps 0)) (\<lambda>opv_total.
     rbind (lift_with Calc (run_total ps_vosms ps 0)) (\<lambda>vosms_total.
     rbind (lift_with Calc (run_total ps_ipn ps 0)) (\<lambda>ipn_total.
     rbind (lift_with Calc (run_total ps_net ps 0)) (\<lambda>net_total.
     rbind (lift_with Calc (run_total ps_opvr ps 0)) (\<lambda>opvr_total.
     rbind (lift_with Calc (run_total ps_so ps 0)) (\<lambda>so_total.
     rbind (lift_with Calc (run_total ps_osms ps 0)) (\<lambda>osms_total.
     rbind (lift_with Calc (run_total ps_social_tax ps 0)) (\<lambda>social_tax_total.
     rbind (lift_with Calc (ll (gross_total + opvr_total))) (\<lambda>t1.
     rbind (lift_with Calc (ll (t1 + so_total))) (\<lambda>t2.
     rbind (lift_with Calc (ll (t2 + osms_total))) (\<lambda>t3.
     rbind (lift_with Calc (ll (t3 + social_tax_total))) (\<lambda>debit_total.
     rbind (add_line [] ''7210'' ''debit'' debit_total) (\<lambda>l1.
     rbind (add_line l1 ''3350'' ''credit'' net_total) (\<lambda>l2.
     rbind (add_line l2 ''3120'' ''credit'' ipn_total) (\<lambda>l3.
     rbind (lift_with Calc (ll (opv_total + opvr_total))) (\<lambda>pension.
     rbind (add_line l3 ''3220'' ''credit'' pension) (\<lambda>l4.
     rbind (add_line l4 ''3210'' ''credit'' so_total) (\<lambda>l5.
     rbind (lift_with Calc (ll (osms_total + vosms_total))) (\<lambda>medical.
     rbind (add_line l5 ''3230'' ''credit'' medical) (\<lambda>l6.
     add_line l6 ''3150'' ''credit'' social_tax_total)))))))))))))))))))))"

text \<open>The claim of the run for the entry.\<close>

definition claim_txn :: "string \<Rightarrow> string \<Rightarrow> string \<Rightarrow> pay_db \<Rightarrow> bool \<times> pay_db" where
  "claim_txn org i eid d =
     (case find (\<lambda>r. run_id r = i \<and> run_org r = org \<and> journal_entry_id r = None) (runs d) of
        None \<Rightarrow> (False, d)
      | Some r \<Rightarrow> (True, d\<lparr>runs := map (\<lambda>x. if run_id x = i then r\<lparr>journal_entry_id := Some eid\<rparr> else x) (runs d)\<rparr>))"

record app =
  ledger :: db
  pay :: pay_db

definition posting_description :: "PayrollRun \<Rightarrow> string" where
  "posting_description r =
     utf8 [1053, 1072, 1095, 1080, 1089, 1083, 1077, 1085, 1080, 1077] @ '' '' @
     utf8 [1079, 1072, 1088, 1072, 1073, 1086, 1090, 1085, 1086, 1081] @ '' '' @
     utf8 [1087, 1083, 1072, 1090, 1099] @ '' '' @ utf8 [1079, 1072] @ '' '' @
     dec (period_month r) @ ''.'' @ dec (period_year r)"

definition posting_guard :: "pay_db \<Rightarrow> string \<Rightarrow> string \<Rightarrow> pay_error + PayrollRun \<times> JournalLine list" where
  "posting_guard d org i =
     (case find_run_in_org d i org of
        None \<Rightarrow> Inl RunNotFound
      | Some run \<Rightarrow>
          if run_status run \<noteq> ''approved'' then Inl InvalidRunState
          else if journal_entry_id run \<noteq> None then Inl InvalidRunState
          else if list_payslips d run = [] then Inl EmptyRun
          else rbind (posting_lines (list_payslips d run)) (\<lambda>ls. Inr (run, ls)))"

definition post_to_journal ::
  "pg \<Rightarrow> db \<Rightarrow> (nat \<Rightarrow> string) \<Rightarrow> int \<Rightarrow> string \<Rightarrow> string \<Rightarrow> string \<Rightarrow> app \<Rightarrow> app \<times> (pay_error + string)" where
  "post_to_journal p rd gen now org i user s =
     (case posting_guard (pay s) org i of
        Inl e \<Rightarrow> (s, Inl e)
      | Inr (run, ls) \<Rightarrow>
          (case last_day_of_month (period_year run) (period_month run) of
             None \<Rightarrow> (s, Inl BadMonth)
           | Some dt \<Rightarrow>
               (case create_draft p rd gen now org user dt (posting_description run) ls (ledger s) of
                  Inl e \<Rightarrow> (s, Inl (JournalFailed e))
                | Inr (entry, l1) \<Rightarrow>
                    (case post p org (je_id entry) l1 of
                       Inl e \<Rightarrow> (s\<lparr>ledger := l1\<rparr>, Inl (JournalFailed e))
                     | Inr (_, l2) \<Rightarrow>
                         let (claimed, d') = claim_txn org i (je_id entry) (pay s)
                         in (\<lparr>ledger = l2, pay = d'\<rparr>,
                             if claimed then Inr (je_id entry) else Inl InvalidRunState)))))"

end
