(* ===== verification/PayrollProperties.thy ===== *)
theory PayrollProperties
  imports Payroll JournalProperties
begin

text \<open>
  What the payroll service guarantees: a run's payslips account for every salary, an approved
  run is frozen under any interleaving of callers, and the entry posted for it balances and
  is posted once. The lines of the entry are handed to the journal through the interface
  \<open>journal_intake\<close>, interpreted on \<open>create_draft\<close>'s validating loop.
\<close>

section \<open>Totals\<close>

lemma ll_nonneg: "0 \<le> x \<Longrightarrow> x < 2 ^ 63 \<Longrightarrow> ll x = Inr x"
  by (simp add: ll_def in_ll_def)

lemma run_total_sum:
  "\<forall>p \<in> set ps. 0 \<le> f p \<Longrightarrow> 0 \<le> acc \<Longrightarrow> acc + sum_list (map f ps) < 2 ^ 63 \<Longrightarrow>
   run_total f ps acc = Inr (acc + sum_list (map f ps))"
proof (induction ps arbitrary: acc)
  case (Cons p ps)
  have "0 \<le> sum_list (map f ps)" using Cons.prems(1) by (intro sum_list_nonneg) auto
  then have "ll (acc + f p) = Inr (acc + f p)" using Cons.prems by (intro ll_nonneg) auto
  then show ?case using Cons.prems Cons.IH [of "acc + f p"] by (simp add: add.assoc)
qed simp

text \<open>A payslip accounts for its salary.\<close>

definition slip_ok :: "Payslip \<Rightarrow> bool" where
  "slip_ok p \<longleftrightarrow>
     0 \<le> ps_gross p \<and> 0 \<le> ps_opv p \<and> 0 \<le> ps_vosms p \<and> 0 \<le> ps_ipn p \<and> 0 \<le> ps_net p \<and> 0 \<le> ps_opvr p \<and>
     0 \<le> ps_so p \<and> 0 \<le> ps_osms p \<and> 0 \<le> ps_social_tax p \<and>
     ps_gross p = ps_opv p + ps_vosms p + ps_ipn p + ps_net p"

definition employer_cost :: "Payslip \<Rightarrow> int" where
  "employer_cost p = ps_gross p + ps_opvr p + ps_so p + ps_osms p + ps_social_tax p"

definition posting_line :: "string \<Rightarrow> string \<Rightarrow> int \<Rightarrow> JournalLine" where
  "posting_line code sd n =
     \<lparr>line_id = [], entry_id = [], account_code = code, side = sd,
      amount = (case format_tiyn n of Inl _ \<Rightarrow> [] | Inr s \<Rightarrow> s), counterparty_id = None, vat_amount = None\<rparr>"

definition opt_line :: "string \<Rightarrow> string \<Rightarrow> int \<Rightarrow> JournalLine list" where
  "opt_line code sd n = (if n = 0 then [] else [posting_line code sd n])"

lemma add_line_opt: "0 \<le> n \<Longrightarrow> add_line ls code sd n = Inr (ls @ opt_line code sd n)"
proof -
  assume "0 \<le> n"
  then obtain s where "format_tiyn n = Inr s" by (auto simp: format_tiyn_def Let_def)
  then show ?thesis by (simp add: add_line_def opt_line_def posting_line_def lift_with_def)
qed

abbreviation sum_of :: "(Payslip \<Rightarrow> int) \<Rightarrow> Payslip list \<Rightarrow> int" where
  "sum_of f ps \<equiv> sum_list (map f ps)"

definition run_lines :: "Payslip list \<Rightarrow> JournalLine list" where
  "run_lines ps =
     opt_line ''7210'' ''debit'' (sum_of employer_cost ps) @ opt_line ''3350'' ''credit'' (sum_of ps_net ps) @
     opt_line ''3120'' ''credit'' (sum_of ps_ipn ps) @ opt_line ''3220'' ''credit'' (sum_of ps_opv ps + sum_of ps_opvr ps) @
     opt_line ''3210'' ''credit'' (sum_of ps_so ps) @ opt_line ''3230'' ''credit'' (sum_of ps_osms ps + sum_of ps_vosms ps) @
     opt_line ''3150'' ''credit'' (sum_of ps_social_tax ps)"

lemma total_nonneg: "\<forall>p \<in> set ps. slip_ok p \<Longrightarrow> (\<And>p. slip_ok p \<Longrightarrow> 0 \<le> f p) \<Longrightarrow> 0 \<le> sum_of f ps"
  by (intro sum_list_nonneg) auto

lemma slips_totals:
  assumes "\<forall>p \<in> set ps. slip_ok p"
  shows "sum_of employer_cost ps = sum_of ps_gross ps + sum_of ps_opvr ps + sum_of ps_so ps + sum_of ps_osms ps + sum_of ps_social_tax ps"
    and "sum_of ps_gross ps = sum_of ps_opv ps + sum_of ps_vosms ps + sum_of ps_ipn ps + sum_of ps_net ps"
    and "0 \<le> sum_of ps_gross ps" and "0 \<le> sum_of ps_opv ps" and "0 \<le> sum_of ps_vosms ps" and "0 \<le> sum_of ps_ipn ps"
    and "0 \<le> sum_of ps_net ps" and "0 \<le> sum_of ps_opvr ps" and "0 \<le> sum_of ps_so ps" and "0 \<le> sum_of ps_osms ps"
    and "0 \<le> sum_of ps_social_tax ps"
  using assms by (induction ps) (auto simp: employer_cost_def slip_ok_def)

lemma posting_lines_run_lines:
  assumes ok: "\<forall>p \<in> set ps. slip_ok p" and bound: "sum_of employer_cost ps < 2 ^ 63"
  shows "posting_lines ps = Inr (run_lines ps)"
proof -
  note t = slips_totals [OF ok]
  have rt: "run_total f ps 0 = Inr (sum_of f ps)"
    if "f \<in> {ps_gross, ps_opv, ps_vosms, ps_ipn, ps_net, ps_opvr, ps_so, ps_osms, ps_social_tax}" for f
  proof -
    have "\<forall>p \<in> set ps. 0 \<le> f p" using ok that by (auto simp: slip_ok_def)
    moreover have "sum_of f ps < 2 ^ 63" using bound that t by auto
    ultimately show ?thesis using run_total_sum [of ps f 0] by simp
  qed
  have sums: "ll (sum_of ps_gross ps + sum_of ps_opvr ps) = Inr (sum_of ps_gross ps + sum_of ps_opvr ps)"
    "ll (sum_of ps_gross ps + sum_of ps_opvr ps + sum_of ps_so ps) = Inr (sum_of ps_gross ps + sum_of ps_opvr ps + sum_of ps_so ps)"
    "ll (sum_of ps_gross ps + sum_of ps_opvr ps + sum_of ps_so ps + sum_of ps_osms ps) =
       Inr (sum_of ps_gross ps + sum_of ps_opvr ps + sum_of ps_so ps + sum_of ps_osms ps)"
    "ll (sum_of ps_gross ps + sum_of ps_opvr ps + sum_of ps_so ps + sum_of ps_osms ps + sum_of ps_social_tax ps) =
       Inr (sum_of employer_cost ps)"
    "ll (sum_of ps_opv ps + sum_of ps_opvr ps) = Inr (sum_of ps_opv ps + sum_of ps_opvr ps)"
    "ll (sum_of ps_osms ps + sum_of ps_vosms ps) = Inr (sum_of ps_osms ps + sum_of ps_vosms ps)"
    using t bound unfolding t(1) by (simp_all add: ll_nonneg)
  have nn: "0 \<le> sum_of employer_cost ps" using t by simp
  show ?thesis
    unfolding posting_lines_def using t(3-11) nn by (simp add: rt sums lift_with_def add_line_opt run_lines_def)
qed

section \<open>Handing the lines to the journal\<close>

text \<open>
  What the payroll service relies on when it hands over lines: an intake that adds a line of a
  known account and a representable amount to the total of its side.
\<close>

locale journal_intake =
  fixes intake :: "JournalLine list \<Rightarrow> int \<Rightarrow> int \<Rightarrow> 'e + int \<times> int" and known :: "string \<Rightarrow> bool"
  assumes intake_Nil: "intake [] a b = Inr (a, b)"
    and intake_debit: "known code \<Longrightarrow> 0 < n \<Longrightarrow> n < 10 ^ 18 \<Longrightarrow> in_ll (a + n) \<Longrightarrow> in_ll b \<Longrightarrow>
      intake (posting_line code ''debit'' n # ls) a b = intake ls (a + n) b"
    and intake_credit: "known code \<Longrightarrow> 0 < n \<Longrightarrow> n < 10 ^ 18 \<Longrightarrow> in_ll a \<Longrightarrow> in_ll (b + n) \<Longrightarrow>
      intake (posting_line code ''credit'' n # ls) a b = intake ls a (b + n)"
begin

lemma intake_opt_debit:
  "known code \<Longrightarrow> 0 \<le> n \<Longrightarrow> n < 10 ^ 18 \<Longrightarrow> in_ll (a + n) \<Longrightarrow> in_ll b \<Longrightarrow>
   intake (opt_line code ''debit'' n @ ls) a b = intake ls (a + n) b"
  by (cases "n = 0") (simp_all add: opt_line_def intake_debit)

lemma intake_opt_credit:
  "known code \<Longrightarrow> 0 \<le> n \<Longrightarrow> n < 10 ^ 18 \<Longrightarrow> in_ll a \<Longrightarrow> in_ll (b + n) \<Longrightarrow>
   intake (opt_line code ''credit'' n @ ls) a b = intake ls a (b + n)"
  by (cases "n = 0") (simp_all add: opt_line_def intake_credit)

lemma intake_run_lines:
  assumes ok: "\<forall>p \<in> set ps. slip_ok p" and bound: "sum_of employer_cost ps < 10 ^ 18"
    and "\<forall>code \<in> {''7210'', ''3350'', ''3120'', ''3220'', ''3210'', ''3230'', ''3150''}. known code"
  shows "intake (run_lines ps) 0 0 = Inr (sum_of employer_cost ps, sum_of employer_cost ps)"
proof -
  note t = slips_totals [OF ok]
  have "intake (opt_line ''3150'' ''credit'' n) a b = Inr (a, b + n)"
    if "0 \<le> n" "n < 10 ^ 18" "in_ll a" "in_ll (b + n)" for a b n
    using intake_opt_credit [of "''3150''" n a b "[]"] that assms(3) intake_Nil by simp
  moreover have "in_ll x" if "0 \<le> x" "x < 10 ^ 18" for x using that by (simp add: in_ll_def)
  ultimately show ?thesis
    unfolding run_lines_def using t bound assms(3) by (simp add: intake_opt_debit intake_opt_credit)
qed

end

lemma parse_posting_line: "0 < n \<Longrightarrow> n < 10 ^ 18 \<Longrightarrow> parse_tiyn (amount (posting_line code sd n)) = Inr n"
  using parse_format_tiyn_value [of n] by (auto simp: posting_line_def split: sum.splits)

interpretation journal_entry_intake: journal_intake "check_lines rd org" "\<lambda>code. find_visible rd org code \<noteq> None" for rd org
proof (unfold_locales, goal_cases)
  case (2 code n a b ls)
  then show ?case using parse_posting_line [of n code "''debit''"] by (auto simp: posting_line_def)
next
  case (3 code n a b ls)
  then show ?case using parse_posting_line [of n code "''credit''"] by (auto simp: posting_line_def)
qed simp

lemma calculate_conserves:
  assumes "calculate inp r = Inr p"
  shows "opv p + vosms p + ipn p + net p = gross_tiyn inp"
proof -
  from assms obtain o_v v_v d i_v a1 a2 n where l: "ll (gross_tiyn inp - o_v) = Inr a1" "ll (a1 - v_v) = Inr a2" "ll (a2 - i_v) = Inr n"
    and p: "opv p = o_v" "vosms p = v_v" "ipn p = i_v" "net p = n"
    by (auto simp: calculate_def Let_def simp del: ll_Inr split: if_splits)
  have "a1 = gross_tiyn inp - o_v" using l(1) by (rule ll_Inr)
  moreover have "a2 = a1 - v_v" using l(2) by (rule ll_Inr)
  moreover have "n = a2 - i_v" using l(3) by (rule ll_Inr)
  ultimately show ?thesis using p by simp
qed

section \<open>A calculated run\<close>

definition slip_for :: "string \<Rightarrow> string \<Rightarrow> Rates \<Rightarrow> Employee \<Rightarrow> Payslip \<Rightarrow> bool" where
  "slip_for org rid rates e s \<longleftrightarrow>
     ps_org s = org \<and> ps_run s = rid \<and> ps_employee s = emp_id e \<and> ps_gross s = salary_tiyn e \<and>
     (\<exists>res. calculate \<lparr>gross_tiyn = salary_tiyn e, ipn_deduction_claimed = ipn_deduction e, opvr_exempt = opvr_free e\<rparr> rates = Inr res \<and>
        ps_opv s = opv res \<and> ps_vosms s = vosms res \<and> ps_ipn s = ipn res \<and> ps_net s = net res \<and> ps_opvr s = opvr res \<and>
        ps_so s = so res \<and> ps_osms s = osms res \<and> ps_social_tax s = social_tax res)"

lemma lift_with_Inr [simp]: "lift_with f x = Inr a \<longleftrightarrow> x = Inr a"
  by (cases x) (simp_all add: lift_with_def)

lemma insert_payslip_spec:
  assumes "insert_payslip i now org rid eid g res d = Inr (s, d')"
  shows "d' = d\<lparr>payslips := payslips d @ [s]\<rparr>" and "ps_id s = i" and "i \<notin> ps_id ` set (payslips d)"
    and "ps_org s = org" and "ps_run s = rid" and "ps_employee s = eid" and "ps_gross s = g"
    and "ps_opv s = opv res" "ps_vosms s = vosms res" "ps_ipn s = ipn res" "ps_net s = net res" "ps_opvr s = opvr res"
      "ps_so s = so res" "ps_osms s = osms res" "ps_social_tax s = social_tax res"
    and "0 \<le> g" "0 \<le> opv res" "0 \<le> vosms res" "0 \<le> ipn res" "0 \<le> net res" "0 \<le> opvr res" "0 \<le> so res" "0 \<le> osms res"
      "0 \<le> social_tax res"
  using assms by (auto simp: insert_payslip_def Let_def not_less split: if_splits)

lemma insert_payslips_spec:
  "insert_payslips gen now org rid rates k es d = Inr (slips, d') \<Longrightarrow>
   d' = d\<lparr>payslips := payslips d @ slips\<rparr> \<and> list_all2 (slip_for org rid rates) es slips \<and>
   (\<forall>s \<in> set slips. slip_ok s \<and> ps_created_at s = now)"
proof (induction es arbitrary: k d slips)
  case (Cons e es)
  from Cons.prems obtain res s d1 rest where
    c: "calculate \<lparr>gross_tiyn = salary_tiyn e, ipn_deduction_claimed = ipn_deduction e, opvr_exempt = opvr_free e\<rparr> rates = Inr res"
    and i: "insert_payslip (gen k) now org rid (emp_id e) (salary_tiyn e) res d = Inr (s, d1)"
    and r: "insert_payslips gen now org rid rates (Suc k) es d1 = Inr (rest, d')" and slips: "slips = s # rest"
    by (auto split: prod.splits)
  note sp = insert_payslip_spec [OF i]
  have "ps_created_at s = now" using i by (auto simp: insert_payslip_def Let_def split: if_splits)
  moreover have "slip_ok s" using sp calculate_conserves [OF c] by (simp add: slip_ok_def)
  moreover have "slip_for org rid rates e s" unfolding slip_for_def using sp c by metis
  ultimately show ?case using Cons.IH [OF r] sp(1) slips by simp
qed simp

section \<open>Interleaved callers\<close>

definition pay_ok :: "pay_db \<Rightarrow> bool" where
  "pay_ok d \<longleftrightarrow>
     distinct (map run_id (runs d)) \<and>
     (\<forall>s \<in> set (payslips d). slip_ok s \<and> (\<exists>r \<in> set (runs d). run_id r = ps_run s \<and> run_org r = ps_org s))"

inductive pay_step :: "pay_db \<Rightarrow> pay_db \<Rightarrow> bool" where
  calculate: "calculate_txn gen now org y m snapshot roster existing d = Inr (run, d') \<Longrightarrow> pay_step d d'"
| approve: "approve_txn org i d = Inr (run, d') \<Longrightarrow> pay_step d d'"
| claim: "claim_txn org i eid d = (claimed, d') \<Longrightarrow> pay_step d d'"
| other: "runs d' = runs d \<Longrightarrow> payslips d' = payslips d \<Longrightarrow> pay_step d d'"

inductive pay_reach :: "pay_db \<Rightarrow> bool" where
  start: "runs d = [] \<Longrightarrow> payslips d = [] \<Longrightarrow> pay_reach d"
| step: "pay_reach d \<Longrightarrow> pay_step d d' \<Longrightarrow> pay_reach d'"

definition run_evolves :: "PayrollRun \<Rightarrow> PayrollRun \<Rightarrow> bool" where
  "run_evolves r r' \<longleftrightarrow>
     run_id r' = run_id r \<and> run_org r' = run_org r \<and> period_year r' = period_year r \<and> period_month r' = period_month r \<and>
     (run_status r = ''approved'' \<longrightarrow> run_status r' = ''approved'' \<and> rates_snapshot r' = rates_snapshot r) \<and>
     (journal_entry_id r \<noteq> None \<longrightarrow> journal_entry_id r' = journal_entry_id r)"

definition slips_of_run :: "pay_db \<Rightarrow> string \<Rightarrow> Payslip list" where
  "slips_of_run d i = filter (\<lambda>s. ps_run s = i) (payslips d)"

lemma run_evolves_refl: "run_evolves r r"
  by (simp add: run_evolves_def)

lemma replace_run:
  assumes "distinct (map run_id rs)" and "r \<in> set rs" and "run_evolves r r'"
  shows "map run_id (map (\<lambda>x. if run_id x = run_id r then r' else x) rs) = map run_id rs"
    and "x \<in> set rs \<Longrightarrow> \<exists>x' \<in> set (map (\<lambda>x. if run_id x = run_id r then r' else x) rs). run_evolves x x'"
proof -
  show "map run_id (map (\<lambda>x. if run_id x = run_id r then r' else x) rs) = map run_id rs"
    using assms(3) by (simp add: run_evolves_def)
  assume x: "x \<in> set rs"
  have "x = r" if "run_id x = run_id r" using key_eqD [OF assms(1) that x assms(2)] .
  then have "run_evolves x (if run_id x = run_id r then r' else x)"
    using assms(3) run_evolves_refl by (cases "run_id x = run_id r") auto
  with x show "\<exists>x' \<in> set (map (\<lambda>x. if run_id x = run_id r then r' else x) rs). run_evolves x x'"
    by (metis (mono_tags, lifting) imageI set_map)
qed

text \<open>The header a calculation writes, before the payslips.\<close>

lemma calculate_txn_spec:
  assumes "calculate_txn gen now org y m snapshot roster existing d = Inr (run, d')"
  obtains r d1 slips where "insert_payslips gen now org (run_id r) (fst snapshot) 1 roster d1 = Inr (slips, d')"
    and "run = r\<lparr>run_payslips := slips\<rparr>" and "run_status r = ''draft''" and "run_org r = org"
    and "rates_snapshot r = snapshot"
    and "(\<exists>ex r0. existing = Some ex \<and> r0 \<in> set (runs d) \<and> run_id r0 = run_id ex \<and> run_org r0 = org \<and> run_status r0 = ''draft'' \<and>
            r = r0\<lparr>rates_snapshot := snapshot\<rparr> \<and>
            d1 = d\<lparr>runs := map (\<lambda>x. if run_id x = run_id r0 then r else x) (runs d),
                   payslips := filter (\<lambda>p. \<not> (ps_run p = run_id r0 \<and> ps_org p = org)) (payslips d)\<rparr>) \<or>
         (existing = None \<and> run_id r \<notin> run_id ` set (runs d) \<and> period_year r = y \<and> period_month r = m \<and>
            d1 = d\<lparr>runs := runs d @ [r]\<rparr>)"
proof (cases existing)
  case None
  with assms show thesis
    by (intro that [of "\<lparr>run_id = gen 0, run_org = org, period_year = y, period_month = m, run_status = ''draft'',
        rates_snapshot = snapshot, journal_entry_id = None, run_payslips = []\<rparr>"
        "d\<lparr>runs := runs d @ [\<lparr>run_id = gen 0, run_org = org, period_year = y, period_month = m, run_status = ''draft'',
        rates_snapshot = snapshot, journal_entry_id = None, run_payslips = []\<rparr>]\<rparr>" "run_payslips run"])
      (auto simp: calculate_txn_def Let_def split: if_splits prod.splits)
next
  case (Some ex)
  with assms obtain r0 where "find (\<lambda>r. run_id r = run_id ex \<and> run_org r = org \<and> run_status r = ''draft'') (runs d) = Some r0"
    by (auto simp: calculate_txn_def split: option.splits)
  moreover from this have "r0 \<in> set (runs d)" "run_id r0 = run_id ex" "run_org r0 = org" "run_status r0 = ''draft''"
    by (auto simp: find_Some_iff)
  ultimately show thesis using Some assms
    by (intro that [of "r0\<lparr>rates_snapshot := snapshot\<rparr>"
        "d\<lparr>runs := map (\<lambda>x. if run_id x = run_id r0 then r0\<lparr>rates_snapshot := snapshot\<rparr> else x) (runs d),
           payslips := filter (\<lambda>p. \<not> (ps_run p = run_id r0 \<and> ps_org p = org)) (payslips d)\<rparr>" "run_payslips run"])
      (auto simp: calculate_txn_def Let_def split: prod.splits)
qed

text \<open>The three transactions keep the invariant, let runs only evolve, and leave the payslips of approved runs.\<close>

definition step_keeps :: "pay_db \<Rightarrow> pay_db \<Rightarrow> bool" where
  "step_keeps d d' \<longleftrightarrow>
     pay_ok d' \<and> (\<forall>r \<in> set (runs d). (\<exists>r' \<in> set (runs d'). run_evolves r r') \<and>
       (run_status r = ''approved'' \<longrightarrow> slips_of_run d' (run_id r) = slips_of_run d (run_id r)))"

lemma pay_ok_dist: "pay_ok d \<Longrightarrow> distinct (map run_id (runs d))"
  by (simp add: pay_ok_def)

lemma replace_step:
  assumes ok: "pay_ok d" and r: "r \<in> set (runs d)" "run_evolves r r'"
    and d': "runs d' = map (\<lambda>x. if run_id x = run_id r then r' else x) (runs d)"
      "payslips d' = filter P (payslips d) @ new"
    and new: "\<forall>s \<in> set new. slip_ok s \<and> ps_run s = run_id r \<and> ps_org s = run_org r"
    and P: "\<And>s. \<not> P s \<Longrightarrow> ps_run s = run_id r" and st: "new \<noteq> [] \<or> (\<exists>s. \<not> P s) \<Longrightarrow> run_status r \<noteq> ''approved''"
  shows "step_keeps d d'"
proof -
  have ids: "map run_id (runs d') = map run_id (runs d)"
    and ev: "x \<in> set (runs d) \<Longrightarrow> \<exists>x' \<in> set (runs d'). run_evolves x x'" for x
    using replace_run [OF pay_ok_dist [OF ok] r] unfolding d'(1) by blast+
  have parent: "\<exists>x \<in> set (runs d'). run_id x = ps_run s \<and> run_org x = ps_org s"
    if p: "\<exists>x \<in> set (runs d). run_id x = ps_run s \<and> run_org x = ps_org s" for s
  proof -
    obtain x where x: "x \<in> set (runs d)" "run_id x = ps_run s" "run_org x = ps_org s" using p by blast
    obtain x' where "x' \<in> set (runs d')" "run_evolves x x'" using ev [OF x(1)] by blast
    with x(2,3) show ?thesis by (auto simp: run_evolves_def intro!: bexI [of _ x'])
  qed
  have "slip_ok s \<and> (\<exists>x \<in> set (runs d'). run_id x = ps_run s \<and> run_org x = ps_org s)" if s: "s \<in> set (payslips d')" for s
  proof (cases "s \<in> set new")
    case True
    then have "slip_ok s" "\<exists>x \<in> set (runs d). run_id x = ps_run s \<and> run_org x = ps_org s" using new r(1) by auto
    then show ?thesis using parent by blast
  next
    case False
    then have "s \<in> set (payslips d)" using s d'(2) by auto
    then have "slip_ok s" "\<exists>x \<in> set (runs d). run_id x = ps_run s \<and> run_org x = ps_org s" using ok unfolding pay_ok_def by blast+
    then show ?thesis using parent by blast
  qed
  then have "pay_ok d'" using pay_ok_dist [OF ok] ids unfolding pay_ok_def by simp
  moreover have "slips_of_run d' (run_id x) = slips_of_run d (run_id x)"
    if x: "x \<in> set (runs d)" "run_status x = ''approved''" for x
  proof (cases "run_id x = run_id r")
    case True
    then have "x = r" using key_eqD [OF pay_ok_dist [OF ok] _ x(1) r(1)] by simp
    then have "new = []" "\<forall>s. P s" using st x(2) by blast+
    then show ?thesis by (simp add: slips_of_run_def d'(2))
  next
    case False
    then have "filter (\<lambda>s. ps_run s = run_id x) new = []" using new by (auto simp: filter_empty_conv)
    moreover have "filter (\<lambda>s. P s \<and> ps_run s = run_id x) (payslips d) = filter (\<lambda>s. ps_run s = run_id x) (payslips d)"
      using P False by (intro filter_cong refl) metis
    ultimately show ?thesis by (simp add: slips_of_run_def d'(2) conj_commute)
  qed
  ultimately show ?thesis unfolding step_keeps_def using ev by blast
qed

lemma append_step:
  assumes ok: "pay_ok d" and fresh: "run_id r \<notin> run_id ` set (runs d)"
    and d': "runs d' = runs d @ [r]" "payslips d' = payslips d @ new"
    and new: "\<forall>s \<in> set new. slip_ok s \<and> ps_run s = run_id r \<and> ps_org s = run_org r"
  shows "step_keeps d d'"
proof -
  have "pay_ok d'" using ok fresh new unfolding pay_ok_def d' by auto
  moreover have "filter (\<lambda>s. ps_run s = run_id x) new = []" if "x \<in> set (runs d)" for x
    using new fresh that unfolding filter_empty_conv by (metis imageI)
  ultimately show ?thesis
    unfolding step_keeps_def slips_of_run_def d' using run_evolves_refl by auto
qed

lemma slip_for_run:
  "list_all2 (slip_for org rid rates) es slips \<Longrightarrow> s \<in> set slips \<Longrightarrow> ps_run s = rid \<and> ps_org s = org"
  by (auto simp: slip_for_def list_all2_conv_all_nth in_set_conv_nth)

lemma pay_step_keeps:
  assumes "pay_step d d'" and ok: "pay_ok d"
  shows "step_keeps d d'"
  using assms(1)
proof cases
  case (calculate gen now org y m snapshot roster existing run)
  from calculate obtain r d1 slips where
    i: "insert_payslips gen now org (run_id r) (fst snapshot) 1 roster d1 = Inr (slips, d')" and "run_org r = org"
    and h: "(\<exists>ex r0. existing = Some ex \<and> r0 \<in> set (runs d) \<and> run_id r0 = run_id ex \<and> run_org r0 = org \<and> run_status r0 = ''draft'' \<and>
            r = r0\<lparr>rates_snapshot := snapshot\<rparr> \<and>
            d1 = d\<lparr>runs := map (\<lambda>x. if run_id x = run_id r0 then r else x) (runs d),
                   payslips := filter (\<lambda>p. \<not> (ps_run p = run_id r0 \<and> ps_org p = org)) (payslips d)\<rparr>) \<or>
         (existing = None \<and> run_id r \<notin> run_id ` set (runs d) \<and> period_year r = y \<and> period_month r = m \<and>
            d1 = d\<lparr>runs := runs d @ [r]\<rparr>)"
    by (rule calculate_txn_spec) blast
  note sp = insert_payslips_spec [OF i]
  have new: "\<forall>s \<in> set slips. slip_ok s \<and> ps_run s = run_id r \<and> ps_org s = run_org r"
    using sp slip_for_run [of org "run_id r"] \<open>run_org r = org\<close> by blast
  from h show ?thesis
  proof (elim disjE exE conjE)
    fix ex r0
    assume r0: "r0 \<in> set (runs d)" "run_status r0 = ''draft''" "r = r0\<lparr>rates_snapshot := snapshot\<rparr>"
      and d1: "d1 = d\<lparr>runs := map (\<lambda>x. if run_id x = run_id r0 then r else x) (runs d),
                   payslips := filter (\<lambda>p. \<not> (ps_run p = run_id r0 \<and> ps_org p = org)) (payslips d)\<rparr>"
    show ?thesis
      by (rule replace_step [OF ok r0(1), where r' = r and new = slips and P = "\<lambda>p. \<not> (ps_run p = run_id r0 \<and> ps_org p = org)"])
        (use sp d1 r0 new in \<open>auto simp: run_evolves_def\<close>)
  next
    assume "run_id r \<notin> run_id ` set (runs d)" "d1 = d\<lparr>runs := runs d @ [r]\<rparr>"
    then show ?thesis using sp new by (intro append_step [OF ok, where r = r and new = slips]) auto
  qed
next
  case (approve org i run)
  then obtain r where f: "find (\<lambda>r. run_id r = i \<and> run_org r = org \<and> run_status r = ''draft'') (runs d) = Some r"
    and d': "d' = d\<lparr>runs := map (\<lambda>x. if run_id x = run_id r then r\<lparr>run_status := ''approved''\<rparr> else x) (runs d)\<rparr>"
    by (auto simp: approve_txn_def Let_def find_Some_iff split: option.splits)
  then have "r \<in> set (runs d)" "run_status r = ''draft''" by (auto simp: find_Some_iff)
  then show ?thesis
    by (intro replace_step [OF ok, where r = r and r' = "r\<lparr>run_status := ''approved''\<rparr>" and P = "\<lambda>_. True" and new = "[]"])
      (simp_all add: d' run_evolves_def)
next
  case (claim org i eid claimed)
  show ?thesis
  proof (cases "find (\<lambda>r. run_id r = i \<and> run_org r = org \<and> journal_entry_id r = None) (runs d)")
    case None
    then show ?thesis using claim ok run_evolves_refl by (auto simp: claim_txn_def step_keeps_def)
  next
    case (Some r)
    then have r: "r \<in> set (runs d)" "run_id r = i" "journal_entry_id r = None" by (auto simp: find_Some_iff)
    have "d' = d\<lparr>runs := map (\<lambda>x. if run_id x = run_id r then r\<lparr>journal_entry_id := Some eid\<rparr> else x) (runs d)\<rparr>"
      using claim Some r(2) by (auto simp: claim_txn_def)
    then show ?thesis
      using r by (intro replace_step [OF ok, where r = r and r' = "r\<lparr>journal_entry_id := Some eid\<rparr>" and P = "\<lambda>_. True" and new = "[]"])
        (simp_all add: run_evolves_def)
  qed
next
  case other
  then show ?thesis using ok run_evolves_refl by (auto simp: step_keeps_def pay_ok_def slips_of_run_def)
qed

lemma pay_reach_ok: "pay_reach d \<Longrightarrow> pay_ok d"
proof (induction rule: pay_reach.induct)
  case (step d d')
  then show ?case using pay_step_keeps by (simp add: step_keeps_def)
qed (simp add: pay_ok_def)

section \<open>A sample run\<close>

definition demo_rate :: "string \<Rightarrow> int \<Rightarrow> Rate" where
  "demo_rate k bp = \<lparr>rate_id = k, rate_kind = k, rate_bp = bp, region = None, rate_from = ''2026-01-01'', rate_to = None,
     rate_source_note = []\<rparr>"

definition demo_const :: "string \<Rightarrow> int \<Rightarrow> int option \<Rightarrow> Constant" where
  "demo_const k t u = \<lparr>const_id = k, const_key = k, value_tiyn = t, value_units = u, const_from = ''2026-01-01'', const_to = None,
     const_source_note = []\<rparr>"

text \<open>The reference data of \<open>rates_2026\<close> as rows, one employee and no run.\<close>

definition demo_pay :: pay_db where
  "demo_pay =
     \<lparr>runs = [], payslips = [], employees = [demo_employee],
      tax_rates = [demo_rate kIpn 1000, demo_rate kOpv 1000, demo_rate kOpvr 350, demo_rate kSo 500,
        demo_rate kOsms 300, demo_rate kVosms 200, demo_rate kSocialTax 600],
      tax_constants = [demo_const ''mrp'' 432500 None, demo_const ''mzp'' 8500000 None,
        demo_const ''ipn_deduction_mrp'' 0 (Some 30), demo_const ''opv_base_max_mzp'' 0 (Some 50),
        demo_const ''so_base_min_mzp'' 0 (Some 1), demo_const ''so_base_max_mzp'' 0 (Some 7),
        demo_const ''vosms_base_max_mzp'' 0 (Some 20), demo_const ''osms_base_max_mzp'' 0 (Some 40)],
      tax_regimes = [(''o'', ''standard'')]\<rparr>"

lemma demo_dates: "last_day_of_month 2026 1 = Some ''2026-01-31''" "first_day_of_month 2026 1 = ''2026-01-01''"
  by (simp_all add: last_day_of_month_def first_day_of_month_def date_text_def kDaysInMonth_def dec04_def dec02_def
      pad_left_def dec_simps)

lemma demo_in_force: "in_force ''2026-01-01'' None ''2026-01-31''"
  by (simp add: in_force_def less_char_def)

lemmas rate_kinds = kIpn_def kOpv_def kOpvr_def kSo_def kOsms_def kVosms_def kSocialTax_def

lemma demo_rates: "build_rates demo_pay ''o'' ''2026-01-31'' = Inr (rates_2026 True)"
  by (simp add: build_rates_def run_rate_bp_def constant_tiyn_def constant_units_def rate_on_def constant_on_def
      demo_pay_def demo_rate_def demo_const_def rate_kinds demo_in_force rates_2026_def)

lemma demo_roster: "list_employed_during (employees demo_pay) ''o'' ''2026-01-01'' ''2026-01-31'' = [demo_employee]"
proof -
  have "''2026-01-10'' \<le> (''2026-01-31'' :: string)" by (simp add: less_char_def)
  then show ?thesis by (simp add: list_employed_during_def employee_order_def demo_pay_def demo_employee_def)
qed

lemma demo_prepare: "calculate_prepare demo_pay demo_pay ''o'' 2026 1 = Inr ((rates_2026 True, ''2026-01-31''), [demo_employee], None)"
  by (simp add: calculate_prepare_def demo_dates demo_rates demo_roster Let_def del: One_nat_def)
     (simp add: demo_employee_def kMaxGrossTiyn_def find_by_period_def demo_pay_def)

lemma demo_calc:
  "calculate \<lparr>gross_tiyn = salary_tiyn demo_employee, ipn_deduction_claimed = ipn_deduction demo_employee,
     opvr_exempt = opvr_free demo_employee\<rparr> (rates_2026 True) =
   Inr \<lparr>opv = 3000000, vosms = 600000, ipn = 1342500, net = 25057500, opvr = 1050000, so = 1350000,
        osms = 900000, social_tax = 1584000, employer_cost_total = 34884000\<rparr>"
  using calculate_payslip_of [OF rates_2026_ok, of "\<lparr>gross_tiyn = 30000000, ipn_deduction_claimed = True, opvr_exempt = False\<rparr>" True]
  by (simp add: demo_employee_def kMaxGrossTiyn_def payslip_2026)

definition demo_slip :: Payslip where
  "demo_slip =
     \<lparr>ps_id = ''r1'', ps_org = ''o'', ps_run = ''r0'', ps_employee = ''e1'', ps_gross = 30000000, ps_opv = 3000000,
      ps_vosms = 600000, ps_ipn = 1342500, ps_net = 25057500, ps_opvr = 1050000, ps_so = 1350000, ps_osms = 900000,
      ps_social_tax = 1584000, ps_created_at = 0\<rparr>"

definition demo_run :: "string \<Rightarrow> PayrollRun" where
  "demo_run st =
     \<lparr>run_id = ''r0'', run_org = ''o'', period_year = 2026, period_month = 1, run_status = st,
      rates_snapshot = (rates_2026 True, ''2026-01-31''), journal_entry_id = None, run_payslips = []\<rparr>"

definition demo_paid :: "string \<Rightarrow> pay_db" where
  "demo_paid st = demo_pay\<lparr>runs := [demo_run st], payslips := [demo_slip]\<rparr>"

lemma demo_calculated:
  "calculate_run demo_pay (demo_gen (CHR ''r'')) 0 ''o'' 2026 1 demo_pay =
     Inr ((demo_run ''draft'')\<lparr>run_payslips := [demo_slip]\<rparr>, demo_paid ''draft'')"
  by (simp add: calculate_run_def demo_prepare calculate_txn_def demo_calc lift_with_def insert_payslip_def demo_gen_simps Let_def
        del: One_nat_def)
     (simp add: demo_pay_def demo_gen_simps demo_paid_def demo_run_def demo_slip_def demo_employee_def)

lemma demo_approved: "\<exists>r. approve_txn ''o'' ''r0'' (demo_paid ''draft'') = Inr (r, demo_paid ''approved'')"
  by (simp add: approve_txn_def demo_paid_def demo_run_def Let_def)

lemma demo_pay_reach: "pay_reach demo_pay" "pay_reach (demo_paid ''draft'')" "pay_reach (demo_paid ''approved'')"
proof -
  show s: "pay_reach demo_pay" by (rule pay_reach.start) (simp_all add: demo_pay_def)
  have "calculate_txn (demo_gen (CHR ''r'')) 0 ''o'' 2026 1 (rates_2026 True, ''2026-01-31'') [demo_employee] None demo_pay =
     Inr ((demo_run ''draft'')\<lparr>run_payslips := [demo_slip]\<rparr>, demo_paid ''draft'')"
    using demo_calculated by (simp add: calculate_run_def demo_prepare del: One_nat_def)
  then show d: "pay_reach (demo_paid ''draft'')" using pay_reach.step [OF s pay_step.calculate] by blast
  show "pay_reach (demo_paid ''approved'')" using pay_reach.step [OF d pay_step.approve] demo_approved by blast
qed

lemma demo_list: "list_payslips (demo_paid st) (demo_run st') = [demo_slip]"
  by (simp add: list_payslips_def demo_paid_def demo_slip_def demo_run_def)

section \<open>Properties\<close>

text \<open>
  C12: an approved run is frozen. Whatever transactions of concurrent callers follow, the
  payslips and the rates snapshot of an approved run stay, it stays approved, and the entry
  it was posted to, once recorded, stays too.
\<close>

theorem approved_run_is_frozen:
  assumes "pay_reach d" and "pay_step d d'" and "r \<in> set (runs d)" and "run_status r = ''approved''"
  shows "slips_of_run d' (run_id r) = slips_of_run d (run_id r) \<and>
    (\<exists>r' \<in> set (runs d'). run_id r' = run_id r \<and> run_status r' = ''approved'' \<and> rates_snapshot r' = rates_snapshot r \<and>
       (journal_entry_id r \<noteq> None \<longrightarrow> journal_entry_id r' = journal_entry_id r))"
proof -
  have "step_keeps d d'" by (rule pay_step_keeps [OF assms(2) pay_reach_ok [OF assms(1)]])
  with assms(3,4) have "\<exists>r' \<in> set (runs d'). run_evolves r r'" "slips_of_run d' (run_id r) = slips_of_run d (run_id r)"
    unfolding step_keeps_def by blast+
  with assms(4) show ?thesis unfolding run_evolves_def by blast
qed

theorem approved_run_is_frozen_witness:
  "\<exists>r' \<in> set (runs (snd (claim_txn ''o'' ''r0'' ''a0'' (demo_paid ''approved'')))).
     run_status r' = ''approved'' \<and> rates_snapshot r' = (rates_2026 True, ''2026-01-31'')"
proof -
  have "pay_step (demo_paid ''approved'') (snd (claim_txn ''o'' ''r0'' ''a0'' (demo_paid ''approved'')))"
    by (rule pay_step.claim) (rule prod.collapse [symmetric])
  from approved_run_is_frozen [OF demo_pay_reach(3) this, of "demo_run ''approved''"]
  show ?thesis by (auto simp: demo_paid_def demo_run_def)
qed

lemma opt_line_length: "length (opt_line code sd n) = (if n = 0 then 0 else 1)"
  by (simp add: opt_line_def)

lemma run_lines_length:
  assumes "\<forall>p \<in> set ps. slip_ok p"
  shows "sum_of employer_cost ps \<noteq> 0 \<Longrightarrow> 2 \<le> length (run_lines ps)"
    and "sum_of employer_cost ps = 0 \<Longrightarrow> run_lines ps = []"
  using slips_totals [OF assms] by (simp_all add: run_lines_def opt_line_length) (simp_all add: opt_line_def)

lemma list_payslips_ok: "pay_ok d \<Longrightarrow> \<forall>p \<in> set (list_payslips d r). slip_ok p"
  by (simp add: pay_ok_def list_payslips_def)

text \<open>
  C31: the entry of a payroll run balances. For every run of every reachable state whose total
  cost is below ten quadrillion tenge, the seven totals do not overflow, zero lines are left
  out, and \<open>create_draft\<close>'s validation accepts the lines with debits and credits both equal to
  the employer's total cost; there are at least two lines unless the cost is zero, and then
  there are none.
\<close>

theorem run_entry_balances:
  assumes "pay_reach d" and "sum_of employer_cost (list_payslips d r) < 10 ^ 18"
    and "\<forall>code \<in> {''7210'', ''3350'', ''3120'', ''3220'', ''3210'', ''3230'', ''3150''}. find_visible rd org code \<noteq> None"
  shows "\<exists>ls. posting_lines (list_payslips d r) = Inr ls \<and>
    check_lines rd org ls 0 0 =
      Inr (sum_of employer_cost (list_payslips d r), sum_of employer_cost (list_payslips d r)) \<and>
    (if sum_of employer_cost (list_payslips d r) = 0 then ls = [] else 2 \<le> length ls)"
proof -
  have ok: "\<forall>p \<in> set (list_payslips d r). slip_ok p" by (rule list_payslips_ok [OF pay_reach_ok [OF assms(1)]])
  have "posting_lines (list_payslips d r) = Inr (run_lines (list_payslips d r))"
    using assms(2) by (intro posting_lines_run_lines [OF ok]) simp
  moreover have "check_lines rd org (run_lines (list_payslips d r)) 0 0 =
      Inr (sum_of employer_cost (list_payslips d r), sum_of employer_cost (list_payslips d r))"
    using assms(3) by (intro journal_entry_intake.intake_run_lines [OF ok assms(2)]) simp
  ultimately show ?thesis using run_lines_length [OF ok] by auto
qed

definition chart_codes :: "string list" where
  "chart_codes = [''7210'', ''3350'', ''3120'', ''3220'', ''3210'', ''3230'', ''3150'']"

definition demo_chart :: db where
  "demo_chart = demo_d0\<lparr>accounts := map (\<lambda>c. demo_account c ''liability'') chart_codes\<rparr>"

theorem run_entry_balances_witness:
  "\<exists>ls. posting_lines [demo_slip] = Inr ls \<and> check_lines demo_chart ''o'' ls 0 0 = Inr (34884000, 34884000) \<and> 2 \<le> length ls"
proof -
  have "\<forall>code \<in> {''7210'', ''3350'', ''3120'', ''3220'', ''3210'', ''3230'', ''3150''}. find_visible demo_chart ''o'' code \<noteq> None"
    by (simp add: find_visible_def demo_chart_def chart_codes_def demo_account_def)
  from run_entry_balances [OF demo_pay_reach(3) _ this, of "demo_run ''approved''"] show ?thesis
    by (simp add: demo_list) (simp add: demo_slip_def employer_cost_def)
qed

lemma claim_txn_True:
  assumes "claim_txn org i eid d = (True, d')" and "pay_ok d"
  obtains r where "find_run_in_org d' i org = Some r" and "journal_entry_id r = Some eid"
proof -
  from assms(1) obtain r where f: "find (\<lambda>r. run_id r = i \<and> run_org r = org \<and> journal_entry_id r = None) (runs d) = Some r"
    and d': "d' = d\<lparr>runs := map (\<lambda>x. if run_id x = i then r\<lparr>journal_entry_id := Some eid\<rparr> else x) (runs d)\<rparr>"
    by (auto simp: claim_txn_def split: option.splits)
  have r: "r \<in> set (runs d)" "run_id r = i" "run_org r = org" using f by (auto simp: find_Some_iff)
  let ?r = "r\<lparr>journal_entry_id := Some eid\<rparr>"
  have "map run_id (runs d') = map run_id (runs d)"
    unfolding d' using replace_run(1) [OF pay_ok_dist [OF assms(2)] r(1), of ?r] r(2) by (simp add: run_evolves_def d')
  then have "distinct (map run_id (runs d'))" using pay_ok_dist [OF assms(2)] by simp
  moreover have "?r \<in> set (runs d')" using r unfolding d' by (auto intro!: image_eqI [of _ _ r])
  ultimately have "filter (\<lambda>x. run_id x = run_id ?r \<and> run_org x = org) (runs d') = [?r]"
    using r(3) by (intro filter_distinct_key [where P = "\<lambda>x. run_org x = org"]) simp_all
  then have "find_run_in_org d' i org = Some ?r" using r(2) by (simp add: find_run_in_org_def find_in_org_def)
  then show thesis by (rule that) simp
qed

text \<open>
  a run is posted once. After a successful \<open>post_to_journal\<close> every further call for the run
  raises \<open>InvalidRunState\<close> before it touches the journal, and changes nothing.
\<close>

theorem posted_run_is_not_posted_again:
  assumes "pay_ok (pay s)" and "post_to_journal p rd gen now org i user s = (s', Inr eid)"
  shows "post_to_journal p rd' gen' now' org i user' s' = (s', Inl InvalidRunState)"
proof -
  from assms(2) have "\<exists>d'. claim_txn org i eid (pay s) = (True, d') \<and> pay s' = d'"
    by (auto simp: post_to_journal_def split: sum.splits option.splits prod.splits if_splits)
  then obtain r where "find_run_in_org (pay s') i org = Some r" "journal_entry_id r = Some eid"
    using claim_txn_True [OF _ assms(1)] by metis
  then show ?thesis by (simp add: post_to_journal_def posting_guard_def)
qed

lemma demo_posting: "\<exists>s' eid. post_to_journal pg_text demo_chart (demo_gen (CHR ''a'')) 0 ''o'' ''r0'' ''u''
    \<lparr>ledger = demo_chart, pay = demo_paid ''approved''\<rparr> = (s', Inr eid)"
proof -
  obtain ls where ls: "posting_lines [demo_slip] = Inr ls" "check_lines demo_chart ''o'' ls 0 0 = Inr (34884000, 34884000)" "2 \<le> length ls"
    and ls_eq: "ls = run_lines [demo_slip]"
  proof -
    have c: "\<forall>code \<in> {''7210'', ''3350'', ''3120'', ''3220'', ''3210'', ''3230'', ''3150''}. find_visible demo_chart ''o'' code \<noteq> None"
      by (simp add: find_visible_def demo_chart_def chart_codes_def demo_account_def)
    have ok: "\<forall>p \<in> set [demo_slip]. slip_ok p" by (simp add: slip_ok_def demo_slip_def)
    have cost: "sum_of employer_cost [demo_slip] = 34884000" by (simp add: employer_cost_def demo_slip_def)
    show thesis
      by (rule that [of "run_lines [demo_slip]"])
        (use posting_lines_run_lines [OF ok] journal_entry_intake.intake_run_lines [OF ok _ c] run_lines_length [OF ok] cost in simp_all)
  qed
  have st: "\<forall>line \<in> set ls. storable pg_text demo_chart line"
    by (auto simp: ls_eq run_lines_def opt_line_def posting_line_def storable_def split: if_splits)
  have k: "keys_ok demo_chart" by (simp add: keys_ok_def demo_chart_def demo_d0_def)
  have w: "draft_writable pg_text (demo_gen (CHR ''a'')) ''o'' ''u'' ''2026-01-31'' demo_chart"
    by (simp add: draft_writable_def demo_chart_def demo_d0_def pg_text_demo inj_def demo_gen_def)
  obtain e d' e' d'' where c: "create_draft pg_text demo_chart (demo_gen (CHR ''a'')) 0 ''o'' ''u'' ''2026-01-31''
      (posting_description (demo_run ''approved'')) ls demo_chart = Inr (e, d')"
    and po: "post pg_text ''o'' (je_id e) d' = Inr (Some e', d'')"
    using draft_is_stored_and_posted [OF pg_text_ok k ls(3,2) st w] by blast
  have f: "find_run_in_org (demo_paid ''approved'') ''r0'' ''o'' = Some (demo_run ''approved'')"
    by (simp add: find_run_in_org_def find_in_org_def demo_paid_def demo_run_def)
  have "posting_guard (demo_paid ''approved'') ''o'' ''r0'' = Inr (demo_run ''approved'', ls)"
    using ls(1) by (simp add: posting_guard_def f demo_list) (simp add: demo_run_def)
  moreover have "last_day_of_month (period_year (demo_run ''approved'')) (period_month (demo_run ''approved'')) = Some ''2026-01-31''"
    by (simp add: demo_run_def demo_dates del: One_nat_def)
  moreover have "\<exists>x. claim_txn ''o'' ''r0'' eid (demo_paid ''approved'') = (True, x)" for eid
    by (simp add: claim_txn_def demo_paid_def demo_run_def)
  then obtain x where "claim_txn ''o'' ''r0'' (je_id e) (demo_paid ''approved'') = (True, x)" by blast
  ultimately show ?thesis
    using c po by (auto simp: post_to_journal_def split: prod.splits)
qed

theorem posted_run_is_not_posted_again_witness:
  "\<exists>s'. (\<exists>eid. post_to_journal pg_text demo_chart (demo_gen (CHR ''a'')) 0 ''o'' ''r0'' ''u''
      \<lparr>ledger = demo_chart, pay = demo_paid ''approved''\<rparr> = (s', Inr eid)) \<and>
    post_to_journal pg_text demo_chart (demo_gen (CHR ''b'')) 1 ''o'' ''r0'' ''u'' s' = (s', Inl InvalidRunState)"
proof -
  have "pay_ok (pay \<lparr>ledger = demo_chart, pay = demo_paid ''approved''\<rparr>)" using pay_reach_ok [OF demo_pay_reach(3)] by simp
  with demo_posting posted_run_is_not_posted_again show ?thesis by metis
qed

lemma sorted_payslips_mset:
  "mset (list_payslips d r) = mset (filter (\<lambda>p. ps_run p = run_id r \<and> ps_org p = run_org r) (payslips d))"
  by (simp add: list_payslips_def)

text \<open>
  C32: a calculated run pays its roster. When \<open>calculate_run\<close> succeeds, the run is a draft that
  holds exactly one payslip for each employee employed during the period, computed by
  \<open>calculate\<close> from the salary on the card and the rates in force on the period's last day; a
  recalculation has replaced every earlier payslip of the run, and each payslip accounts for
  its salary to the tiyn.
\<close>

theorem calculated_run_pays_roster:
  assumes "pay_reach d" and "calculate_prepare rd d org y m = Inr ((rates, eff), roster, existing)"
    and "calculate_run rd gen now org y m d = Inr (run, d')"
  shows "run_status run = ''draft'' \<and> rates_snapshot run = (rates, eff) \<and> last_day_of_month y m = Some eff \<and>
    roster = list_employed_during (employees rd) org (first_day_of_month y m) eff \<and>
    list_all2 (slip_for org (run_id run) rates) roster (run_payslips run) \<and>
    mset (list_payslips d' run) = mset (run_payslips run) \<and>
    (\<forall>s \<in> set (run_payslips run). ps_opv s + ps_vosms s + ps_ipn s + ps_net s = ps_gross s)"
proof -
  have ok: "pay_ok d" by (rule pay_reach_ok [OF assms(1)])
  have prep: "last_day_of_month y m = Some eff" "roster = list_employed_during (employees rd) org (first_day_of_month y m) eff"
    using assms(2) by (auto simp: calculate_prepare_def Let_def split: option.splits if_splits)
  have "calculate_txn gen now org y m (rates, eff) roster existing d = Inr (run, d')"
    using assms(2,3) by (simp add: calculate_run_def)
  then obtain r d1 slips where i: "insert_payslips gen now org (run_id r) rates 1 roster d1 = Inr (slips, d')"
    and run: "run = r\<lparr>run_payslips := slips\<rparr>" "run_status r = ''draft''" "run_org r = org" "rates_snapshot r = (rates, eff)"
    and h: "(\<exists>ex r0. existing = Some ex \<and> r0 \<in> set (runs d) \<and> run_id r0 = run_id ex \<and> run_org r0 = org \<and> run_status r0 = ''draft'' \<and>
            r = r0\<lparr>rates_snapshot := (rates, eff)\<rparr> \<and>
            d1 = d\<lparr>runs := map (\<lambda>x. if run_id x = run_id r0 then r else x) (runs d),
                   payslips := filter (\<lambda>p. \<not> (ps_run p = run_id r0 \<and> ps_org p = org)) (payslips d)\<rparr>) \<or>
         (existing = None \<and> run_id r \<notin> run_id ` set (runs d) \<and> period_year r = y \<and> period_month r = m \<and>
            d1 = d\<lparr>runs := runs d @ [r]\<rparr>)"
    by (rule calculate_txn_spec) auto
  note sp = insert_payslips_spec [OF i]
  have "filter (\<lambda>p. ps_run p = run_id r \<and> ps_org p = org) (payslips d1) = []"
    using h
  proof (elim disjE exE conjE)
    assume new: "run_id r \<notin> run_id ` set (runs d)" "d1 = d\<lparr>runs := runs d @ [r]\<rparr>"
    have "payslips d1 = payslips d" using new(2) by simp
    moreover have "ps_run s \<in> run_id ` set (runs d)" if "s \<in> set (payslips d)" for s
      using ok that unfolding pay_ok_def by (metis imageI)
    ultimately show ?thesis unfolding filter_empty_conv using new(1) by metis
  qed (auto simp: filter_empty_conv)
  moreover have "filter (\<lambda>p. ps_run p = run_id r \<and> ps_org p = org) slips = slips"
    using sp slip_for_run [of org "run_id r" rates roster slips] by (auto simp: filter_id_conv)
  ultimately have "mset (list_payslips d' run) = mset slips"
    using sp run by (simp add: sorted_payslips_mset)
  then show ?thesis using sp run prep by (auto simp: slip_ok_def)
qed

theorem calculated_run_pays_roster_witness:
  "run_payslips ((demo_run ''draft'')\<lparr>run_payslips := [demo_slip]\<rparr>) = [demo_slip] \<and>
   mset (list_payslips (demo_paid ''draft'') ((demo_run ''draft'')\<lparr>run_payslips := [demo_slip]\<rparr>)) = {#demo_slip#} \<and>
   ps_opv demo_slip + ps_vosms demo_slip + ps_ipn demo_slip + ps_net demo_slip = ps_gross demo_slip"
  using calculated_run_pays_roster [OF demo_pay_reach(1) demo_prepare demo_calculated] by simp

end
