(* ===== verification/Json.thy ===== *)
theory Json
  imports Prelude "HOL-Library.Char_ord" "HOL-Library.List_Lexorder"
begin

text \<open>
  JSON values as the program builds and reads them through \<open>nlohmann::json\<close>. The library itself
  (parsing, printing, number conversions) is not part of the sources; what is modelled is the
  value: an object is the list of its members in the order of their keys, as the library's
  \<open>std::map\<close> keeps them, and a number that is not an integer is kept as its text.

  \<open>merge_patch\<close> is the merge of RFC 7396.
\<close>

datatype json =
  JNull
| JBool bool
| JInt int
| JFloat string
| JStr string
| JArr "json list"
| JObj "(string \<times> json) list"

fun is_object :: "json \<Rightarrow> bool" where
  "is_object (JObj m) = True"
| "is_object j = False"

fun is_string :: "json \<Rightarrow> bool" where
  "is_string (JStr s) = True"
| "is_string j = False"

fun is_number_integer :: "json \<Rightarrow> bool" where
  "is_number_integer (JInt n) = True"
| "is_number_integer j = False"

fun is_boolean :: "json \<Rightarrow> bool" where
  "is_boolean (JBool b) = True"
| "is_boolean j = False"

fun is_array :: "json \<Rightarrow> bool" where
  "is_array (JArr xs) = True"
| "is_array j = False"

section \<open>Members\<close>

fun put :: "string \<Rightarrow> 'v \<Rightarrow> (string \<times> 'v) list \<Rightarrow> (string \<times> 'v) list" where
  "put k v [] = [(k, v)]"
| "put k v ((k', v') # m) =
     (if k = k' then (k, v) # m else if k < k' then (k, v) # (k', v') # m else (k', v') # put k v m)"

definition del :: "string \<Rightarrow> (string \<times> 'v) list \<Rightarrow> (string \<times> 'v) list" where
  "del k m = filter (\<lambda>(k', _). k' \<noteq> k) m"

text \<open>An initializer list \<open>json{{"k", v}, ...}\<close>: the members land in the order of their keys.\<close>

definition object :: "(string \<times> json) list \<Rightarrow> json" where
  "object kvs = JObj (fold (\<lambda>(k, v) m. put k v m) kvs [])"

fun member :: "json \<Rightarrow> string \<Rightarrow> json option" where
  "member (JObj m) k = map_of m k"
| "member j k = None"

definition contains :: "json \<Rightarrow> string \<Rightarrow> bool" where
  "contains j k \<longleftrightarrow> member j k \<noteq> None"

definition opt_json :: "('a \<Rightarrow> json) \<Rightarrow> 'a option \<Rightarrow> json" where
  "opt_json f x = (case x of None \<Rightarrow> JNull | Some a \<Rightarrow> f a)"

lemma map_of_put [simp]: "map_of (put k v m) = (map_of m)(k \<mapsto> v)"
  by (induction k v m rule: put.induct) auto

lemma map_of_del [simp]: "map_of (del k m) = (map_of m)(k := None)"
  by (induction m) (auto simp: del_def)

lemma keys_put: "fst ` set (put k v m) = insert k (fst ` set m)"
  by (induction k v m rule: put.induct) auto

lemma sorted_put: "sorted_wrt (<) (map fst m) \<Longrightarrow> sorted_wrt (<) (map fst (put k v m))"
proof (induction k v m rule: put.induct)
  case (2 k v k' v' m)
  have "x \<in> insert k (fst ` set m)" if "x \<in> fst ` set (put k v m)" for x
    using that by (simp add: keys_put)
  with 2 show ?case by (force dest: less_trans)
qed simp

lemma map_of_fold_put: "map_of (fold (\<lambda>(k, v) m. put k v m) kvs m) = map_of m ++ map_of (rev kvs)"
  by (induction kvs arbitrary: m) (auto simp: map_add_def fun_eq_iff split: option.splits)

lemma member_object [simp]: "member (object kvs) k = map_of (rev kvs) k"
  by (simp add: object_def map_of_fold_put)

section \<open>merge\_patch\<close>

definition members :: "json \<Rightarrow> (string \<times> json) list" where
  "members j = (case j of JObj m \<Rightarrow> m | _ \<Rightarrow> [])"

lemma size_patch_member [termination_simp]:
  "(k, v) \<in> set m \<Longrightarrow> size v < Suc (size_list (size_prod (\<lambda>_. 0) size) m)"
  by (induction m) auto

text \<open>A patch that is not an object replaces the target; a null member deletes the key.\<close>

fun merge_patch :: "json \<Rightarrow> json \<Rightarrow> json"
  and merge_members :: "(string \<times> json) list \<Rightarrow> (string \<times> json) list \<Rightarrow> (string \<times> json) list" where
  "merge_patch target (JObj p) = JObj (merge_members (members target) p)"
| "merge_patch target JNull = JNull"
| "merge_patch target (JBool b) = JBool b"
| "merge_patch target (JInt n) = JInt n"
| "merge_patch target (JFloat s) = JFloat s"
| "merge_patch target (JStr s) = JStr s"
| "merge_patch target (JArr xs) = JArr xs"
| "merge_members m [] = m"
| "merge_members m ((k, v) # p) =
     merge_members
       (if v = JNull then del k m
        else put k (merge_patch (case map_of m k of None \<Rightarrow> JNull | Some t \<Rightarrow> t) v) m) p"

end
