(* ===== verification/CxxText.thy ===== *)
theory CxxText
  imports Prelude
begin

text \<open>
  Text functions of the C++ standard library the program uses: \<open>std::isspace\<close> in the C locale,
  \<open>std::string::substr\<close>, \<open>std::stoi\<close>, \<open>std::to_string\<close> of a signed number, and prefix tests.
\<close>

datatype text_error = OutOfRange | InvalidArgument

definition isspace :: "char \<Rightarrow> bool" where
  "isspace c \<longleftrightarrow> (of_char c :: nat) = 32 \<or> 9 \<le> (of_char c :: nat) \<and> (of_char c :: nat) \<le> 13"

definition substr :: "string \<Rightarrow> nat \<Rightarrow> nat \<Rightarrow> text_error + string" where
  "substr s pos n = (if pos > length s then Inl OutOfRange else Inr (take n (drop pos s)))"

text \<open>Leading blanks and one sign are skipped; what follows the digits is ignored.\<close>

definition stoi :: "string \<Rightarrow> text_error + int" where
  "stoi s =
     (let t = dropWhile isspace s;
          neg = (case t of c # _ \<Rightarrow> c = CHR ''-'' | [] \<Rightarrow> False);
          u = (case t of c # cs \<Rightarrow> if c = CHR ''-'' \<or> c = CHR ''+'' then cs else t | [] \<Rightarrow> []);
          ds = takeWhile isdigit u;
          v = (if neg then - int (dec_val ds) else int (dec_val ds))
      in if ds = [] then Inl InvalidArgument
         else if - (2 ^ 31) \<le> v \<and> v < 2 ^ 31 then Inr v else Inl OutOfRange)"

definition to_string :: "int \<Rightarrow> string" where
  "to_string n = (if n < 0 then CHR ''-'' # dec (nat (- n)) else dec (nat n))"

definition starts_with :: "string \<Rightarrow> string \<Rightarrow> bool" where
  "starts_with s p \<longleftrightarrow> take (length p) s = p"

lemma isspace_digit [simp]: "isdigit c \<Longrightarrow> \<not> isspace c"
  by (simp add: isdigit_def isspace_def)

lemma not_isdigit_sign [simp]: "\<not> isdigit (CHR ''-'')" "\<not> isdigit (CHR ''+'')"
  by (simp_all add: isdigit_def)

text \<open>On a digit string of at most nine digits \<open>stoi\<close> is the decimal value.\<close>

lemma stoi_digits:
  assumes "s \<noteq> []" "\<forall>c \<in> set s. isdigit c" "length s \<le> 9"
  shows "stoi s = Inr (int (dec_val s))"
proof -
  obtain c cs where s: "s = c # cs" using assms(1) by (cases s) auto
  have "dropWhile isspace s = s" using assms(2) by (simp add: s)
  moreover have "c \<noteq> CHR ''-''" "c \<noteq> CHR ''+''" using assms(2) s by auto
  moreover have "takeWhile isdigit s = s" using assms(2) by (simp add: takeWhile_eq_all_conv)
  moreover have "int (dec_val s) < 2 ^ 31"
  proof -
    have "dec_val s < 10 ^ length s" using assms(2) by (intro dec_val_bound) auto
    also have "\<dots> \<le> (10::nat) ^ 9" using assms(3) by (intro power_increasing) simp_all
    finally show ?thesis by simp
  qed
  ultimately show ?thesis by (simp add: stoi_def Let_def s)
qed

end
