(* ===== verification/Http.thy ===== *)
theory Http
  imports Json CxxText
begin

text \<open>
  Responses and request helpers shared by the controllers: \<^verbatim>\<open>src/src/utils/ErrorResponse.hpp\<close> and
  \<^verbatim>\<open>src/src/api/RequestUtils.hpp\<close>. A response is its status code and its JSON body; the web
  framework that carries it, and its content type header, are left out. A request's query
  parameters are a function that answers the empty text for a missing one.
\<close>

record response =
  status_code :: int
  body :: json

section \<open>ErrorResponse\<close>

record Error =
  err_status :: int
  err_code :: string
  err_message :: string
  err_extra :: json

definition make_error :: "Error \<Rightarrow> response" where
  "make_error e =
     (let b0 = put ''status'' (JInt (err_status e)) (put ''error'' (JStr (err_code e)) []);
          b1 = (if err_message e \<noteq> [] then put ''message'' (JStr (err_message e)) b0 else b0)
      in \<lparr>status_code = err_status e,
          body = JObj (case err_extra e of JObj m \<Rightarrow> fold (\<lambda>(k, v) b. put k v b) m b1 | _ \<Rightarrow> b1)\<rparr>)"

definition bad_request :: "string \<Rightarrow> string \<Rightarrow> json \<Rightarrow> response" where
  "bad_request code message extra = make_error \<lparr>err_status = 400, err_code = code, err_message = message, err_extra = extra\<rparr>"

definition unauthorized :: "string \<Rightarrow> string \<Rightarrow> response" where
  "unauthorized code message = make_error \<lparr>err_status = 401, err_code = code, err_message = message, err_extra = JObj []\<rparr>"

definition forbidden :: "string \<Rightarrow> string \<Rightarrow> response" where
  "forbidden code message = make_error \<lparr>err_status = 403, err_code = code, err_message = message, err_extra = JObj []\<rparr>"

definition not_found :: "string \<Rightarrow> response" where
  "not_found what = make_error \<lparr>err_status = 404, err_code = ''not_found'', err_message = what @ '' not found'', err_extra = JObj []\<rparr>"

definition conflict :: "string \<Rightarrow> string \<Rightarrow> response" where
  "conflict code message = make_error \<lparr>err_status = 409, err_code = code, err_message = message, err_extra = JObj []\<rparr>"

definition payload_too_large :: "string \<Rightarrow> response" where
  "payload_too_large code = make_error \<lparr>err_status = 413, err_code = code, err_message = [], err_extra = JObj []\<rparr>"

definition unsupported_media_type :: "string \<Rightarrow> string \<Rightarrow> response" where
  "unsupported_media_type code message =
     make_error \<lparr>err_status = 415, err_code = code, err_message = message, err_extra = JObj []\<rparr>"

definition unprocessable :: "string \<Rightarrow> string \<Rightarrow> response" where
  "unprocessable code message = make_error \<lparr>err_status = 422, err_code = code, err_message = message, err_extra = JObj []\<rparr>"

definition too_many_requests :: "int \<Rightarrow> response" where
  "too_many_requests retry_after_sec =
     make_error \<lparr>err_status = 429, err_code = ''rate_limited'', err_message = [],
           err_extra = object [(''retry_after_sec'', JInt retry_after_sec)]\<rparr>"

definition internal_error :: "string \<Rightarrow> string \<Rightarrow> response" where
  "internal_error code message = make_error \<lparr>err_status = 500, err_code = code, err_message = message, err_extra = JObj []\<rparr>"

definition service_unavailable :: "string \<Rightarrow> string \<Rightarrow> response" where
  "service_unavailable code message = make_error \<lparr>err_status = 503, err_code = code, err_message = message, err_extra = JObj []\<rparr>"

definition ok :: "json \<Rightarrow> response" where
  "ok b = \<lparr>status_code = 200, body = b\<rparr>"

definition created :: "json \<Rightarrow> response" where
  "created b = (ok b)\<lparr>status_code := 201\<rparr>"

definition accepted :: "json \<Rightarrow> response" where
  "accepted b = (ok b)\<lparr>status_code := 202\<rparr>"

definition paginated :: "json \<Rightarrow> int \<Rightarrow> int \<Rightarrow> int \<Rightarrow> response" where
  "paginated data total_count limit offset =
     ok (object [(''data'', data), (''total'', JInt total_count), (''limit'', JInt limit), (''offset'', JInt offset)])"

definition list_response :: "json \<Rightarrow> response" where
  "list_response data = ok (object [(''data'', data)])"

section \<open>RequestUtils\<close>

definition isxdigit :: "char \<Rightarrow> bool" where
  "isxdigit c \<longleftrightarrow> isdigit c \<or> c \<in> set ''abcdefABCDEF''"

definition is_uuid_segment :: "string \<Rightarrow> bool" where
  "is_uuid_segment s \<longleftrightarrow> length s = 36 \<and>
     list_all (\<lambda>(i, c). if i \<in> {8, 13, 18, 23} then c = CHR ''-'' else isxdigit c) (zip [0..<36] s)"

definition parse_int :: "string \<Rightarrow> int \<Rightarrow> int" where
  "parse_int s def = (if s = [] then def else case stoi s of Inl _ \<Rightarrow> def | Inr v \<Rightarrow> v)"

definition clamp_int :: "string \<Rightarrow> int \<Rightarrow> int \<Rightarrow> int \<Rightarrow> int" where
  "clamp_int s def lo hi = (let v = parse_int s def in if v < lo then lo else if v > hi then hi else v)"

definition parse_page_params :: "(string \<Rightarrow> string) \<Rightarrow> int \<Rightarrow> int \<Rightarrow> int \<times> int" where
  "parse_page_params param default_limit max_limit =
     (clamp_int (param ''limit'') default_limit 1 max_limit, clamp_int (param ''offset'') 0 0 1000000)"

function segments :: "string \<Rightarrow> string list" where
  "segments path =
     (case path of
        [] \<Rightarrow> []
      | c # cs \<Rightarrow>
          if c = CHR ''/'' then segments cs
          else takeWhile (\<lambda>x. x \<noteq> CHR ''/'') path # segments (dropWhile (\<lambda>x. x \<noteq> CHR ''/'') path))"
  by pat_completeness auto
termination
  by (relation "measure length") (auto simp: le_imp_less_Suc length_dropWhile_le)

declare segments.simps [simp del]

definition is_version_seg :: "string \<Rightarrow> bool" where
  "is_version_seg s \<longleftrightarrow> 2 \<le> length s \<and> hd s = CHR ''v'' \<and> list_all isdigit (tl s)"

definition account_token_route :: "string list \<Rightarrow> nat \<Rightarrow> bool" where
  "account_token_route segs base \<longleftrightarrow>
     length segs = base + 3 \<and> segs ! 0 = ''api'' \<and> segs ! base = ''account'' \<and>
     segs ! (base + 1) \<in> {''confirm'', ''reset-password'', ''change-email'', ''join-from-invite''}"

definition normalize_segment :: "bool \<Rightarrow> nat \<Rightarrow> nat \<Rightarrow> string \<Rightarrow> string" where
  "normalize_segment token_route token_idx k s =
     (if token_route \<and> k = token_idx then '':token''
      else if s \<noteq> [] \<and> list_all isdigit s \<or> is_uuid_segment s then '':id''
      else s)"

definition normalize_path_for_metrics :: "string \<Rightarrow> string" where
  "normalize_path_for_metrics path =
     (let segs = segments path;
          base = (if 2 \<le> length segs \<and> is_version_seg (segs ! 1) then 2 else 1);
          out = concat (map (\<lambda>(k, s). CHR ''/'' # normalize_segment (account_token_route segs base) (base + 2) k s)
                  (zip [0..<length segs] segs))
      in if out = [] then ''/'' else out)"

section \<open>Facts\<close>

lemma clamp_int_bounds: "lo \<le> hi \<Longrightarrow> lo \<le> clamp_int s def lo hi \<and> clamp_int s def lo hi \<le> hi"
  by (simp add: clamp_int_def Let_def)

text \<open>A page never asks for more than the maximum, nor for a negative offset, whatever the text.\<close>

lemma parse_page_params_bounds:
  "1 \<le> max_limit \<Longrightarrow> parse_page_params param dflt max_limit = (limit, offset) \<Longrightarrow>
   1 \<le> limit \<and> limit \<le> max_limit \<and> 0 \<le> offset \<and> offset \<le> 1000000"
  using clamp_int_bounds [of 1 max_limit "param ''limit''" dflt] clamp_int_bounds [of 0 1000000 "param ''offset''" 0]
  by (auto simp: parse_page_params_def)

lemma segments_Nil [simp]: "segments [] = []"
  by (simp add: segments.simps)

lemma segments_slash: "segments (CHR ''/'' # p) = segments p"
  by (simp add: segments.simps [of "CHR ''/'' # p"])

lemma segments_parts: "s \<in> set (segments path) \<Longrightarrow> s \<noteq> [] \<and> CHR ''/'' \<notin> set s"
proof (induction path rule: segments.induct)
  case (1 path)
  show ?case
  proof (cases path)
    case (Cons c cs)
    show ?thesis
    proof (cases "c = CHR ''/''")
      case True
      with 1 Cons show ?thesis by (simp add: segments_slash)
    next
      case False
      then consider "s = takeWhile (\<lambda>x. x \<noteq> CHR ''/'') path" | "s \<in> set (segments (dropWhile (\<lambda>x. x \<noteq> CHR ''/'') path))"
        using 1(3) Cons by (auto simp: segments.simps [of "c # cs"])
      then show ?thesis
      proof cases
        case 1
        then show ?thesis using Cons False by (auto dest: set_takeWhileD)
      next
        case 2
        then show ?thesis using "1.IH"(2) [OF Cons False] by blast
      qed
    qed
  qed (use 1 in simp)
qed

lemma segments_append:
  "s \<noteq> [] \<Longrightarrow> CHR ''/'' \<notin> set s \<Longrightarrow> segments (CHR ''/'' # s @ concat (map (\<lambda>x. CHR ''/'' # x) ss)) =
     s # segments (concat (map (\<lambda>x. CHR ''/'' # x) ss))"
proof -
  assume s: "s \<noteq> []" "CHR ''/'' \<notin> set s"
  define rest where "rest = concat (map (\<lambda>x. CHR ''/'' # x) ss)"
  obtain c cs where c: "s = c # cs" "c \<noteq> CHR ''/''" using s by (cases s) auto
  have h: "rest = [] \<or> hd rest = CHR ''/''" by (cases ss) (simp_all add: rest_def)
  have all: "\<forall>x \<in> set s. x \<noteq> CHR ''/''" using s(2) by blast
  then have "takeWhile (\<lambda>x. x \<noteq> CHR ''/'') (s @ rest) = s @ takeWhile (\<lambda>x. x \<noteq> CHR ''/'') rest"
    "dropWhile (\<lambda>x. x \<noteq> CHR ''/'') (s @ rest) = dropWhile (\<lambda>x. x \<noteq> CHR ''/'') rest"
    by (simp_all add: takeWhile_append dropWhile_append)
  moreover have "takeWhile (\<lambda>x. x \<noteq> CHR ''/'') rest = []" "dropWhile (\<lambda>x. x \<noteq> CHR ''/'') rest = rest"
    using h by (cases rest; simp)+
  ultimately show ?thesis
    unfolding rest_def [symmetric] segments_slash using c by (simp add: segments.simps [of "c # cs @ rest"])
qed

lemma segments_concat:
  "\<forall>s \<in> set ss. s \<noteq> [] \<and> CHR ''/'' \<notin> set s \<Longrightarrow> segments (concat (map (\<lambda>x. CHR ''/'' # x) ss)) = ss"
proof (induction ss)
  case (Cons s ss)
  then show ?case using segments_append [of s ss] by simp
qed simp

lemma normalized_segments:
  "segments (normalize_path_for_metrics path) =
     (let segs = segments path; base = (if 2 \<le> length segs \<and> is_version_seg (segs ! 1) then 2 else 1)
      in map (\<lambda>(k, s). normalize_segment (account_token_route segs base) (base + 2) k s) (zip [0..<length segs] segs))"
proof -
  define segs where "segs = segments path"
  define base :: nat where "base = (if 2 \<le> length segs \<and> is_version_seg (segs ! 1) then 2 else 1)"
  define ns where "ns = map (\<lambda>(k, s). normalize_segment (account_token_route segs base) (base + 2) k s) (zip [0..<length segs] segs)"
  have ok: "s \<noteq> [] \<and> CHR ''/'' \<notin> set s" if "s \<in> set segs" for s using that segments_parts by (simp add: segs_def)
  have "\<forall>s \<in> set ns. s \<noteq> [] \<and> CHR ''/'' \<notin> set s"
    using ok by (auto simp: ns_def normalize_segment_def dest!: set_zip_rightD split: if_splits)
  then have s: "segments (concat (map (\<lambda>x. CHR ''/'' # x) ns)) = ns" by (rule segments_concat)
  have "concat (map (\<lambda>x. CHR ''/'' # x) ns) = [] \<longleftrightarrow> ns = []" by (cases ns) simp_all
  then have "segments (normalize_path_for_metrics path) = ns"
    using s unfolding normalize_path_for_metrics_def segs_def [symmetric] Let_def base_def [symmetric]
    by (auto simp: ns_def comp_def case_prod_unfold segments_slash)
  then show ?thesis by (simp only: ns_def segs_def base_def Let_def)
qed

text \<open>
  the label a request's path gets in the metrics has bounded variety and leaks no secret: no
  segment of it is a number or a UUID, and the one-time token of an account link is replaced.
\<close>

theorem metrics_path_hides_identifiers:
  assumes "token \<noteq> []" and "CHR ''/'' \<notin> set token"
    and "route \<in> {''confirm'', ''reset-password'', ''change-email'', ''join-from-invite''}"
  shows "normalize_path_for_metrics (''/api/v1/account/'' @ route @ ''/'' @ token) = ''/api/v1/account/'' @ route @ ''/:token'' \<and>
    {s \<in> set (segments (normalize_path_for_metrics path)). list_all isdigit s \<or> is_uuid_segment s} = {}"
proof
  define p where "p = concat (map (\<lambda>x. CHR ''/'' # x) [''api'', ''v1'', ''account'', route, token])"
  have p: "''/api/v1/account/'' @ route @ ''/'' @ token = p" by (simp add: p_def)
  have "segments p = [''api'', ''v1'', ''account'', route, token]"
    unfolding p_def by (rule segments_concat) (use assms in auto)
  moreover have "is_version_seg ''v1''" by (simp add: is_version_seg_def isdigit_def)
  moreover have n: "normalize_segment True 4 k s = s" if "s \<in> {''api'', ''v1'', ''account'', route}" "k \<noteq> 4" for k s
    using that assms(3) by (auto simp: normalize_segment_def is_uuid_segment_def isdigit_def)
  moreover have "normalize_segment True 4 4 token = '':token''" by (simp add: normalize_segment_def)
  ultimately show "normalize_path_for_metrics (''/api/v1/account/'' @ route @ ''/'' @ token) = ''/api/v1/account/'' @ route @ ''/:token''"
    using assms(3) unfolding p
    by (simp add: normalize_path_for_metrics_def account_token_route_def upt_rec Let_def eval_nat_numeral)
next
  have "\<not> list_all isdigit (normalize_segment t i k s) \<and> \<not> is_uuid_segment (normalize_segment t i k s)"
    if "s \<noteq> []" for t i k s
    using that by (auto simp: normalize_segment_def isdigit_def is_uuid_segment_def)
  then show "{s \<in> set (segments (normalize_path_for_metrics path)). list_all isdigit s \<or> is_uuid_segment s} = {}"
    using segments_parts [of _ path]
    by (auto simp: normalized_segments Let_def dest!: set_zip_rightD)
qed

theorem metrics_path_hides_identifiers_witness:
  "normalize_path_for_metrics ''/api/v1/account/confirm/5f2c'' = ''/api/v1/account/confirm/:token''"
  using metrics_path_hides_identifiers [of "''5f2c''" "''confirm''"] by simp

end
