(* ===== verification/Validation.thy ===== *)
theory Validation
  imports Http
begin

text \<open>
  Model of \<^verbatim>\<open>src/src/api/Validation.hpp\<close>: the accumulating field validators, the shapes of a
  date, an e-mail address and a UUID, the 400 and 422 replies, and the allowlist that guards
  what a request body may override in a derived document input.

  An accumulator \<open>Errors\<close> is the list of its items; each validator returns it extended. The
  two regular expressions are written as tests of the text's shape. A body reaches the model
  parsed; \<open>None\<close> stands for a text the JSON library refuses.
\<close>

definition kPasswordMinLen :: nat where "kPasswordMinLen = 8"
definition kPasswordMaxLen :: nat where "kPasswordMaxLen = 128"

record field_error =
  fe_field :: string
  fe_code :: string
  fe_message :: string

type_synonym errors = "field_error list"

definition add_error :: "errors \<Rightarrow> string \<Rightarrow> string \<Rightarrow> string \<Rightarrow> errors" where
  "add_error errs field code message = errs @ [\<lparr>fe_field = field, fe_code = code, fe_message = message\<rparr>]"

definition errors_json :: "errors \<Rightarrow> json" where
  "errors_json errs =
     JArr (map (\<lambda>e. object [(''field'', JStr (fe_field e)), (''code'', JStr (fe_code e)), (''message'', JStr (fe_message e))]) errs)"

section \<open>Field validators\<close>

text \<open>A field that is absent or null is left to \<open>require\<close>.\<close>

definition present :: "json \<Rightarrow> string \<Rightarrow> json option" where
  "present b field = (case member b field of Some JNull \<Rightarrow> None | x \<Rightarrow> x)"

definition require :: "errors \<Rightarrow> json \<Rightarrow> string \<Rightarrow> errors \<times> bool" where
  "require errs b field =
     (if present b field = None then (add_error errs field ''missing'' ''required'', False) else (errs, True))"

definition string_length :: "errors \<Rightarrow> json \<Rightarrow> string \<Rightarrow> nat \<Rightarrow> nat \<Rightarrow> errors" where
  "string_length errs b field min_len max_len =
     (case present b field of
        None \<Rightarrow> errs
      | Some (JStr s) \<Rightarrow>
          if length s < min_len then add_error errs field ''too_short'' (''min length '' @ dec min_len)
          else if length s > max_len then add_error errs field ''too_long'' (''max length '' @ dec max_len)
          else errs
      | Some _ \<Rightarrow> add_error errs field ''not_string'' ''must be a string'')"

definition regex_match :: "errors \<Rightarrow> json \<Rightarrow> string \<Rightarrow> (string \<Rightarrow> bool) \<Rightarrow> string \<Rightarrow> errors" where
  "regex_match errs b field re format_hint =
     (case present b field of
        None \<Rightarrow> errs
      | Some (JStr s) \<Rightarrow>
          if re s then errs else add_error errs field ''bad_format'' (''expected format: '' @ format_hint)
      | Some _ \<Rightarrow> add_error errs field ''not_string'' ''must be a string'')"

definition int_range :: "errors \<Rightarrow> json \<Rightarrow> string \<Rightarrow> int \<Rightarrow> int \<Rightarrow> errors" where
  "int_range errs b field min_val max_val =
     (case present b field of
        None \<Rightarrow> errs
      | Some (JInt v) \<Rightarrow>
          if v < min_val then add_error errs field ''below_min'' (''min '' @ to_string min_val)
          else if v > max_val then add_error errs field ''above_max'' (''max '' @ to_string max_val)
          else errs
      | Some _ \<Rightarrow> add_error errs field ''not_integer'' ''must be an integer'')"

definition one_of :: "errors \<Rightarrow> json \<Rightarrow> string \<Rightarrow> string list \<Rightarrow> errors" where
  "one_of errs b field allowed =
     (case present b field of
        None \<Rightarrow> errs
      | Some (JStr s) \<Rightarrow>
          if s \<in> set allowed then errs
          else add_error errs field ''not_allowed''
                 (''must be one of:'' @ concat (map (\<lambda>a. '' '' @ [CHR 0x27] @ a @ [CHR 0x27]) allowed))
      | Some _ \<Rightarrow> add_error errs field ''not_string'' ''must be a string'')"

definition opt_string :: "json \<Rightarrow> string \<Rightarrow> string option" where
  "opt_string b field = (case member b field of Some (JStr s) \<Rightarrow> Some s | _ \<Rightarrow> None)"

definition isalpha :: "char \<Rightarrow> bool" where
  "isalpha c \<longleftrightarrow> (let n = (of_char c :: nat) in 65 \<le> n \<and> n \<le> 90 \<or> 97 \<le> n \<and> n \<le> 122)"

text \<open>\<open>local@domain.tld\<close>: what follows the last point is the top-level domain.\<close>

definition email_shape :: "string \<Rightarrow> bool" where
  "email_shape s \<longleftrightarrow>
     (let loc = takeWhile (\<lambda>c. c \<noteq> CHR ''@'') s; dom = drop (length loc + 1) s;
          tld = rev (takeWhile (\<lambda>c. c \<noteq> CHR ''.'') (rev dom)); host = take (length dom - length tld - 1) dom
      in CHR ''@'' \<in> set s \<and> loc \<noteq> [] \<and> list_all (\<lambda>c. isalpha c \<or> isdigit c \<or> c \<in> set ''._%+-'') loc \<and>
         CHR ''.'' \<in> set dom \<and> host \<noteq> [] \<and> list_all (\<lambda>c. isalpha c \<or> isdigit c \<or> c \<in> set ''.-'') host \<and>
         2 \<le> length tld \<and> list_all isalpha tld)"

definition email :: "errors \<Rightarrow> json \<Rightarrow> string \<Rightarrow> errors" where
  "email errs b field = regex_match errs b field email_shape ''email''"

definition uuid :: "errors \<Rightarrow> json \<Rightarrow> string \<Rightarrow> errors" where
  "uuid errs b field = regex_match errs b field is_uuid_segment ''uuid''"

definition date_shape :: "string \<Rightarrow> bool" where
  "date_shape s \<longleftrightarrow> length s = 10 \<and>
     list_all (\<lambda>(i, c). if i \<in> {4, 7} then c = CHR ''-'' else isdigit c) (zip [0..<10] s)"

definition date_days_in_month :: "int list" where
  "date_days_in_month = [31, 28, 31, 30, 31, 30, 31, 31, 30, 31, 30, 31]"

definition is_valid_date :: "string \<Rightarrow> bool" where
  "is_valid_date s \<longleftrightarrow> date_shape s \<and>
     (let year = int (dec_val (take 4 s)); month = int (dec_val (take 2 (drop 5 s))); day = int (dec_val (drop 8 s))
      in if month < 1 \<or> month > 12 \<or> day < 1 then False
         else
           let leap_year = year mod 4 = 0 \<and> (year mod 100 \<noteq> 0 \<or> year mod 400 = 0);
               days_in_this_month = (if month = 2 \<and> leap_year then 29 else date_days_in_month ! nat (month - 1))
           in day \<le> days_in_this_month)"

section \<open>Replies\<close>

definition response_400 :: "errors \<Rightarrow> response" where
  "response_400 errs = bad_request ''validation_failed'' [] (object [(''errors'', errors_json errs)])"

definition response_422_all :: "errors \<Rightarrow> response" where
  "response_422_all errs =
     make_error \<lparr>err_status = 422, err_code = ''validation_failed'', err_message = [],
           err_extra = object [(''errors'', errors_json errs)]\<rparr>"

definition response_422 :: "string \<Rightarrow> string \<Rightarrow> string \<Rightarrow> response" where
  "response_422 field code message = response_422_all (add_error [] field code message)"

definition parse_body :: "json option \<Rightarrow> response + json" where
  "parse_body parsed =
     (case parsed of
        Some j \<Rightarrow> Inr j
      | None \<Rightarrow> Inl (bad_request ''invalid_json'' ''Invalid JSON body'' (JObj [])))"

definition parse_optional_body :: "bool \<Rightarrow> json option \<Rightarrow> response + json" where
  "parse_optional_body empty_body parsed =
     (if empty_body then Inr (JObj [])
      else rbind (parse_body parsed) (\<lambda>j.
        if is_object j then Inr j
        else Inl (bad_request ''invalid_json'' ''body must be a JSON object'' (JObj []))))"

section \<open>The override allowlist\<close>

fun validate_extra_allowlist :: "(string \<times> json) list \<Rightarrow> string list \<Rightarrow> string \<Rightarrow> response + unit" where
  "validate_extra_allowlist [] allowed prefix = Inr ()"
| "validate_extra_allowlist ((k, v) # m) allowed prefix =
     (let path = (if prefix = [] then k else prefix @ ''.'' @ k) in
      rbind
        (case v of
           JObj (x # xs) \<Rightarrow> validate_extra_allowlist (x # xs) allowed path
         | _ \<Rightarrow> if path \<in> set allowed then Inr ()
                else Inl (response_422 path ''not_allowed_override''
                            ''this field is derived from stored data and cannot be overridden''))
        (\<lambda>_. validate_extra_allowlist m allowed prefix))"

text \<open>\<open>extra\<close> is an object, as \<open>parse_optional_body\<close> leaves it: the argument is its members.\<close>

definition merge_allowed_extra :: "json \<Rightarrow> (string \<times> json) list \<Rightarrow> string list \<Rightarrow> response + json" where
  "merge_allowed_extra input extra allowed =
     rbind (validate_extra_allowlist extra allowed []) (\<lambda>_. Inr (merge_patch input (JObj extra)))"

section \<open>What an accepted override leaves alone\<close>

fun jpath :: "json \<Rightarrow> string list \<Rightarrow> json option" where
  "jpath j [] = Some j"
| "jpath j (k # ks) = (case member j k of None \<Rightarrow> None | Some v \<Rightarrow> jpath v ks)"

fun dotted :: "string \<Rightarrow> string list \<Rightarrow> string" where
  "dotted prefix [] = prefix"
| "dotted prefix (k # ks) = dotted (if prefix = [] then k else prefix @ ''.'' @ k) ks"

text \<open>No allowed path names a key on the way to \<open>ks\<close> or a key below it.\<close>

definition untouched :: "string list \<Rightarrow> string \<Rightarrow> string list \<Rightarrow> bool" where
  "untouched allowed prefix ks \<longleftrightarrow>
     (\<forall>i. dotted prefix (take (Suc i) ks) \<notin> set allowed) \<and> (\<forall>ks'. dotted prefix (ks @ ks') \<notin> set allowed)"

lemma untouched_Cons:
  "untouched allowed prefix (k # ks) \<Longrightarrow>
   dotted prefix [k] \<notin> set allowed \<and> untouched allowed (if prefix = [] then k else prefix @ ''.'' @ k) ks"
  unfolding untouched_def
  by (auto dest: spec [of _ 0] spec [of _ "Suc _"])

lemma allowed_leaf:
  "validate_extra_allowlist (x # xs) allowed prefix = Inr () \<Longrightarrow> \<exists>ks. dotted prefix ks \<in> set allowed"
proof (induction "x # xs" allowed prefix arbitrary: x xs rule: validate_extra_allowlist.induct)
  case (2 k v m allowed prefix)
  define path where "path = (if prefix = [] then k else prefix @ ''.'' @ k)"
  show ?case
  proof (cases "\<exists>y ys. v = JObj (y # ys)")
    case True
    then obtain y ys where v: "v = JObj (y # ys)" by blast
    then obtain ks where "dotted path ks \<in> set allowed"
      using 2(1) [OF path_def v] 2(3) by (auto simp: path_def Let_def)
    then have "dotted prefix (k # ks) \<in> set allowed" by (simp add: path_def)
    then show ?thesis by blast
  next
    case False
    then have "path \<in> set allowed"
      using 2(3) by (cases v rule: json.exhaust) (auto simp: path_def Let_def split: if_splits list.splits)
    then have "dotted prefix [k] \<in> set allowed" by (simp add: path_def)
    then show ?thesis by blast
  qed
qed

lemma jpath_members: "ks \<noteq> [] \<Longrightarrow> jpath (JObj (members j)) ks = jpath j ks"
  by (cases ks; cases j) (simp_all add: members_def)

lemma merge_members_untouched:
  "validate_extra_allowlist m allowed prefix = Inr () \<Longrightarrow> ks \<noteq> [] \<Longrightarrow> untouched allowed prefix ks \<Longrightarrow>
   jpath (JObj (merge_members t m)) ks = jpath (JObj t) ks"
proof (induction m allowed prefix arbitrary: t ks rule: validate_extra_allowlist.induct)
  case (2 k v m allowed prefix)
  define path where "path = (if prefix = [] then k else prefix @ ''.'' @ k)"
  define t' where "t' = (if v = JNull then del k t else put k (merge_patch (case map_of t k of None \<Rightarrow> JNull | Some u \<Rightarrow> u) v) t)"
  obtain k0 ks0 where ks: "ks = k0 # ks0" using 2(4) by (cases ks) auto
  have rest: "validate_extra_allowlist m allowed prefix = Inr ()" using 2(3) by (auto simp: Let_def)
  have "jpath (JObj t') ks = jpath (JObj t) ks"
  proof (cases "k0 = k")
    case False
    then show ?thesis by (simp add: ks t'_def)
  next
    case True
    then have u: "dotted prefix [k] \<notin> set allowed" "untouched allowed path ks0"
      using untouched_Cons [of allowed prefix k ks0] 2(5) by (auto simp: ks path_def)
    have "\<exists>y ys. v = JObj (y # ys)"
      using 2(3) u(1) by (cases v rule: json.exhaust) (auto simp: path_def Let_def split: if_splits list.splits)
    then obtain y ys where v: "v = JObj (y # ys)" by blast
    have sub: "validate_extra_allowlist (y # ys) allowed path = Inr ()" using 2(3) by (auto simp: v path_def Let_def)
    have "ks0 \<noteq> []"
    proof
      assume "ks0 = []"
      with allowed_leaf [OF sub] u(2) show False by (auto simp: untouched_def)
    qed
    then have "jpath (JObj (merge_members s (y # ys))) ks0 = jpath (JObj s) ks0" for s
      using 2(1) [OF path_def v refl sub _ u(2)] by simp
    then show ?thesis
      using \<open>ks0 \<noteq> []\<close> True
      by (cases "map_of t k") (simp_all add: ks t'_def v jpath_members members_def [of JNull], cases ks0, simp_all add: members_def)
  qed
  moreover have "jpath (JObj (merge_members t' m)) ks = jpath (JObj t') ks"
    by (rule 2(2) [OF path_def rest 2(4,5)])
  ultimately show ?case by (simp add: t'_def)
qed simp

lemma dotted_extends: "p \<noteq> [] \<Longrightarrow> dotted p ks = p \<or> starts_with (dotted p ks) (p @ ''.'')"
proof (induction p ks rule: dotted.induct)
  case (2 p k ks)
  then have "dotted (p @ ''.'' @ k) ks = p @ ''.'' @ k \<or> starts_with (dotted (p @ ''.'' @ k) ks) ((p @ ''.'' @ k) @ ''.'')" by simp
  then have "starts_with (dotted (p @ ''.'' @ k) ks) (p @ ''.'')"
  proof
    assume "starts_with (dotted (p @ ''.'' @ k) ks) ((p @ ''.'' @ k) @ ''.'')"
    then obtain r where "dotted (p @ ''.'' @ k) ks = (p @ ''.'') @ k @ ''.'' @ r"
      unfolding starts_with_def by (metis append_take_drop_id append_assoc)
    then show ?thesis by (simp add: starts_with_def)
  qed (simp add: starts_with_def)
  then show ?case using 2(2) by simp
qed simp

lemma dotted_append: "dotted p (ks @ ks') = dotted (dotted p ks) ks'"
  by (induction p ks rule: dotted.induct) simp_all

lemma dotted_nonempty: "p \<noteq> [] \<Longrightarrow> dotted p ks \<noteq> []"
  using dotted_extends [of p ks] by (auto simp: starts_with_def)

text \<open>
  a request cannot change what it is not allowed to. When \<open>merge_allowed_extra\<close> accepts the
  extra fields of a body, the merged document agrees with the derived one at every path that is
  not itself allowed, lies below no allowed path and has no allowed path below it; when any leaf
  of the extra fields is off the list it answers 422 and nothing is merged.
\<close>

theorem override_touches_only_allowed:
  assumes "merge_allowed_extra (JObj t) extra allowed = Inr merged"
    and "hd ks \<noteq> []" and "\<forall>a \<in> set allowed. \<not> starts_with a (dotted [] ks @ ''.'')"
    and "\<forall>i < length ks. dotted [] (take (Suc i) ks) \<notin> set allowed" and "ks \<noteq> []"
  shows "jpath merged ks = jpath (JObj t) ks"
proof -
  have v: "validate_extra_allowlist extra allowed [] = Inr ()" and m: "merged = merge_patch (JObj t) (JObj extra)"
    using assms(1) by (auto simp: merge_allowed_extra_def)
  obtain k ks0 where ks: "ks = k # ks0" "k \<noteq> []" using assms(2,5) by (cases ks) auto
  have ne: "dotted [] ks \<noteq> []" using dotted_nonempty [OF ks(2)] by (simp add: ks(1))
  have full: "dotted [] ks \<notin> set allowed"
    using assms(4) ks(1) by (metis length_Cons lessI take_all_iff order_refl)
  have "dotted [] (take (Suc i) ks) \<notin> set allowed" for i
    using assms(4) full by (cases "i < length ks") simp_all
  moreover have "dotted [] (ks @ ks') \<notin> set allowed" for ks'
    using dotted_extends [OF ne, of ks'] full assms(3) unfolding dotted_append by metis
  ultimately have "untouched allowed [] ks" by (simp add: untouched_def)
  from merge_members_untouched [OF v assms(5) this, of t] show ?thesis
    unfolding m by (simp add: members_def)
qed

theorem override_touches_only_allowed_witness:
  "let derived = JObj [(''employer'', JObj [(''bin'', JStr ''123'')]), (''net'', JInt 5)];
       merged = JObj [(''employer'', JObj [(''bin'', JStr ''123''), (''director'', JStr ''D'')]), (''net'', JInt 5)]
   in merge_allowed_extra derived [(''employer'', JObj [(''director'', JStr ''D'')])] [''employer.director''] = Inr merged \<and>
      jpath merged [''employer'', ''bin''] = Some (JStr ''123'')"
proof -
  define t where "t = [(''employer'', JObj [(''bin'', JStr ''123'')]), (''net'', JInt 5)]"
  define merged where "merged = JObj [(''employer'', JObj [(''bin'', JStr ''123''), (''director'', JStr ''D'')]), (''net'', JInt 5)]"
  have m: "merge_allowed_extra (JObj t) [(''employer'', JObj [(''director'', JStr ''D'')])] [''employer.director''] = Inr merged"
    by (simp add: merge_allowed_extra_def t_def merged_def members_def less_char_def)
  have "jpath merged [''employer'', ''bin''] = jpath (JObj t) [''employer'', ''bin'']"
    by (rule override_touches_only_allowed [OF m]) (auto simp: starts_with_def less_Suc_eq)
  then show ?thesis using m by (simp add: Let_def t_def merged_def)
qed

end
