(* ===== verification/Calendar.thy ===== *)
theory Calendar
  imports Prelude "HOL-Library.Product_Lexorder"
begin

text \<open>
  The part of C++20 \<open>std::chrono\<close> the calendars of the program use: \<open>year_month_day\<close> as a triple,
  whose comparison is the lexicographic one, \<open>year_month\<close> as a pair, \<open>sys_days\<close> as the number of
  days since 1970-01-01, and the two conversions between them in the proleptic Gregorian
  calendar. \<open>sys_days\<close> accepts any day number, as the standard says of dates whose year and
  month are valid; a month outside 1 .. 12 is not used.
\<close>

type_synonym year_month_day = "int \<times> int \<times> int"
type_synonym year_month = "int \<times> int"

definition is_leap :: "int \<Rightarrow> bool" where
  "is_leap y \<longleftrightarrow> 4 dvd y \<and> (\<not> 100 dvd y \<or> 400 dvd y)"

definition days_in_month :: "int \<Rightarrow> int \<Rightarrow> int" where
  "days_in_month y m =
     (if m = 2 then (if is_leap y then 29 else 28) else if m \<in> {4, 6, 9, 11} then 30 else 31)"

definition ymd_ok :: "year_month_day \<Rightarrow> bool" where
  "ymd_ok x = (case x of (y, m, d) \<Rightarrow> 1 \<le> m \<and> m \<le> 12 \<and> 1 \<le> d \<and> d \<le> days_in_month y m)"

text \<open>Years that start in March put the leap day at their end.\<close>

definition march_year :: "int \<Rightarrow> int \<Rightarrow> int" where
  "march_year y m = (if m \<le> 2 then y - 1 else y)"

definition march_month :: "int \<Rightarrow> int" where
  "march_month m = (if m > 2 then m - 3 else m + 9)"

definition year_start :: "int \<Rightarrow> int" where
  "year_start y = 365 * y + y div 4 - y div 100 + y div 400 - 719468"

definition month_start :: "int \<Rightarrow> int" where
  "month_start mp = (153 * mp + 2) div 5"

definition sys_days :: "year_month_day \<Rightarrow> int" where
  "sys_days x = (case x of (y, m, d) \<Rightarrow>
     year_start (march_year y m) + month_start (march_month m) + (d - 1))"

definition to_ymd :: "int \<Rightarrow> year_month_day" where
  "to_ymd n =
     (let z = n + 719468; era = z div 146097; doe = z mod 146097;
          c = min 3 (doe div 36524); r1 = doe - 36524 * c;
          q = r1 div 1461; r2 = r1 - 1461 * q;
          k = min 3 (r2 div 365); doy = r2 - 365 * k;
          mp = (5 * doy + 2) div 153;
          m = (if mp < 10 then mp + 3 else mp - 9);
          y = 400 * era + 100 * c + 4 * q + k
      in (if m \<le> 2 then y + 1 else y, m, doy - month_start mp + 1))"

definition add_months :: "year_month \<Rightarrow> int \<Rightarrow> year_month" where
  "add_months ym n = (case ym of (y, m) \<Rightarrow>
     (let k = 12 * y + (m - 1) + n in (k div 12, k mod 12 + 1)))"

definition weekday :: "int \<Rightarrow> int" where
  "weekday n = (n + 4) mod 7"

section \<open>The conversions are inverse\<close>

lemma year_start_decomposed:
  assumes "0 \<le> c" "c \<le> 3" "0 \<le> q" "q \<le> 24" "0 \<le> k" "k \<le> 3"
  shows "year_start (400 * era + 100 * c + 4 * q + k) = 146097 * era + 36524 * c + 1461 * q + 365 * k - 719468"
proof -
  let ?y = "400 * era + 100 * c + 4 * q + k"
  have "?y div 4 = 100 * era + 25 * c + q" "?y div 100 = 4 * era + c" "?y div 400 = era" using assms by auto
  then show ?thesis by (simp add: year_start_def)
qed

lemma month_decomposed:
  fixes doy :: int
  assumes "0 \<le> doy" "doy \<le> 365" "mp = (5 * doy + 2) div 153"
  shows "0 \<le> mp" "mp \<le> 11" "month_start mp \<le> doy" "doy < month_start (mp + 1)"
proof -
  have b: "153 * mp \<le> 5 * doy + 2" "5 * doy + 2 < 153 * mp + 153" using assms(3) by linarith+
  show "0 \<le> mp" "mp \<le> 11" using b assms(1,2) by linarith+
  show "month_start mp \<le> doy" using b unfolding month_start_def by linarith
  have "5 * (doy + 1) div 5 \<le> (153 * (mp + 1) + 2) div 5" using b by (intro zdiv_mono1) simp_all
  then show "doy < month_start (mp + 1)" unfolding month_start_def by simp
qed

lemma to_ymd_fields:
  obtains era c q k doy mp m where "0 \<le> c" "c \<le> 3" "0 \<le> q" "q \<le> 24" "0 \<le> k" "k \<le> 3"
    "n = 146097 * era + 36524 * c + 1461 * q + 365 * k + doy - 719468"
    "0 \<le> doy" "doy \<le> 365" "doy = 365 \<longrightarrow> k = 3 \<and> (q < 24 \<or> c = 3)"
    "mp = (5 * doy + 2) div 153" "m = (if mp < 10 then mp + 3 else mp - 9)"
    "to_ymd n = (if m \<le> 2 then 400 * era + 100 * c + 4 * q + k + 1 else 400 * era + 100 * c + 4 * q + k, m,
       doy - month_start mp + 1)"
proof -
  define z where "z = n + 719468"
  define era where "era = z div 146097"
  define doe where "doe = z mod 146097"
  define c where "c = min 3 (doe div 36524)"
  define r1 where "r1 = doe - 36524 * c"
  define q where "q = r1 div 1461"
  define r2 where "r2 = r1 - 1461 * q"
  define k where "k = min 3 (r2 div 365)"
  define doy where "doy = r2 - 365 * k"
  define mp where "mp = (5 * doy + 2) div 153"
  define m where "m = (if mp < 10 then mp + 3 else mp - 9)"
  have z: "z = 146097 * era + doe" by (simp add: era_def doe_def)
  have doe: "0 \<le> doe" "doe < 146097" by (simp_all add: doe_def)
  have c: "0 \<le> c" "c \<le> 3" "0 \<le> r1" "r1 \<le> 36524" "c < 3 \<Longrightarrow> r1 < 36524"
    using doe unfolding r1_def c_def by (auto simp: min_def)
  have q: "0 \<le> q" "q \<le> 24" "0 \<le> r2" "r2 \<le> 1460" "q = 24 \<Longrightarrow> c < 3 \<Longrightarrow> r2 < 1460"
    using c unfolding r2_def q_def by auto
  have k: "0 \<le> k" "k \<le> 3" "0 \<le> doy" "doy \<le> 365" "doy = 365 \<longrightarrow> k = 3 \<and> r2 = 1460"
    using q(3,4) unfolding doy_def k_def by (cases "3 \<le> r2 div 365"; simp add: min_def; linarith)+
  have n: "n = 146097 * era + 36524 * c + 1461 * q + 365 * k + doy - 719468"
    using z unfolding doy_def r2_def r1_def z_def by simp
  have last: "doy = 365 \<longrightarrow> k = 3 \<and> (q < 24 \<or> c = 3)"
    using k(5) q(2,5) c(2) by linarith
  have "to_ymd n = (if m \<le> 2 then 400 * era + 100 * c + 4 * q + k + 1 else 400 * era + 100 * c + 4 * q + k, m,
      doy - month_start mp + 1)"
    unfolding to_ymd_def Let_def z_def [symmetric] era_def [symmetric] doe_def [symmetric] c_def [symmetric]
      r1_def [symmetric] q_def [symmetric] r2_def [symmetric] k_def [symmetric] doy_def [symmetric]
      mp_def [symmetric] m_def [symmetric] by (rule refl)
  with that c(1,2) q(1,2) k(1,2) n k(3,4) last mp_def m_def show thesis by blast
qed

lemma sys_days_to_ymd [simp]: "sys_days (to_ymd n) = n"
proof -
  obtain era c q k doy mp m where f: "0 \<le> c" "c \<le> 3" "0 \<le> q" "q \<le> 24" "0 \<le> k" "k \<le> 3"
      "n = 146097 * era + 36524 * c + 1461 * q + 365 * k + doy - 719468"
      "0 \<le> doy" "doy \<le> 365" "doy = 365 \<longrightarrow> k = 3 \<and> (q < 24 \<or> c = 3)"
      "mp = (5 * doy + 2) div 153" "m = (if mp < 10 then mp + 3 else mp - 9)"
      "to_ymd n = (if m \<le> 2 then 400 * era + 100 * c + 4 * q + k + 1 else 400 * era + 100 * c + 4 * q + k, m,
         doy - month_start mp + 1)"
    by (rule to_ymd_fields [of n])
  have mp: "0 \<le> mp" "mp \<le> 11" using month_decomposed [OF f(8,9,11)] by simp_all
  then have m: "march_month m = mp" "m \<le> 2 \<longleftrightarrow> 10 \<le> mp" using f(12) by (auto simp: march_month_def)
  have y: "march_year (if m \<le> 2 then 400 * era + 100 * c + 4 * q + k + 1 else 400 * era + 100 * c + 4 * q + k) m =
      400 * era + 100 * c + 4 * q + k" by (simp add: march_year_def)
  show ?thesis
    unfolding f(13) sys_days_def prod.case y m(1) year_start_decomposed [OF f(1-6)] using f(7) by simp
qed

lemma ymd_ok_to_ymd [simp]: "ymd_ok (to_ymd n)"
proof -
  obtain era c q k doy mp m where f: "0 \<le> c" "c \<le> 3" "0 \<le> q" "q \<le> 24" "0 \<le> k" "k \<le> 3"
    and "n = 146097 * era + 36524 * c + 1461 * q + 365 * k + doy - 719468"
    and g: "0 \<le> doy" "doy \<le> 365" and last: "doy = 365 \<longrightarrow> k = 3 \<and> (q < 24 \<or> c = 3)"
    and mp_def: "mp = (5 * doy + 2) div 153" and m_def: "m = (if mp < 10 then mp + 3 else mp - 9)"
    and e: "to_ymd n = (if m \<le> 2 then 400 * era + 100 * c + 4 * q + k + 1 else 400 * era + 100 * c + 4 * q + k, m,
         doy - month_start mp + 1)"
    by (rule to_ymd_fields [of n])
  define y where "y = 400 * era + 100 * c + 4 * q + k"
  note mp = month_decomposed [OF g mp_def]
  have leap: "is_leap (y + 1)" if "doy = 365"
  proof -
    from last that have "k = 3" and d: "q < 24 \<or> c = 3" by simp_all
    then have y1: "y + 1 = 4 * (100 * era + 25 * c + q + 1)" by (simp add: y_def)
    show ?thesis
    proof (cases "q = 24")
      case True
      with d y1 have "y + 1 = 400 * (era + 1)" by simp
      then show ?thesis by (auto simp: is_leap_def)
    next
      case False
      have e: "y + 1 = 100 * (4 * era + c) + 4 * (q + 1)" using y1 by simp
      have "\<not> 100 dvd 4 * (q + 1)" using f(3,4) False by (intro zdvd_not_zless) simp_all
      then have "\<not> 100 dvd y + 1" unfolding e by (simp only: dvd_add_right_iff dvd_triv_left not_False_eq_True)
      moreover have "4 dvd y + 1" unfolding y1 by simp
      ultimately show ?thesis by (simp add: is_leap_def)
    qed
  qed
  have leap': "doy \<le> 364 \<or> is_leap (y + 1)" using leap g(2) by linarith
  have "mp = 0 \<or> mp = 1 \<or> mp = 2 \<or> mp = 3 \<or> mp = 4 \<or> mp = 5 \<or> mp = 6 \<or> mp = 7 \<or> mp = 8 \<or> mp = 9 \<or> mp = 10 \<or> mp = 11"
    using mp(1,2) by presburger
  then have "doy - month_start mp + 1 \<le> days_in_month (if m \<le> 2 then y + 1 else y) m"
    using mp(4) g(2) leap' unfolding m_def month_start_def days_in_month_def by (elim disjE) simp_all
  then show ?thesis using mp unfolding e y_def [symmetric] by (auto simp: ymd_ok_def m_def)
qed

section \<open>The order of dates is the order of days\<close>

lemma div_step:
  fixes y n :: int
  assumes "0 < n"
  shows "(y + 1) div n = y div n + (if n dvd y + 1 then 1 else 0)"
proof (cases "y mod n = n - 1")
  case True
  then have "y + 1 = n * (y div n) + n" using mult_div_mod_eq [of n y] by linarith
  then have "y + 1 = n * (y div n + 1)" by (simp only: distrib_left mult_1_right)
  then show ?thesis using assms by (metis dvd_triv_left less_irrefl nonzero_mult_div_cancel_left)
next
  case False
  have b: "0 \<le> y mod n" "y mod n < n" using assms by simp_all
  have e: "y + 1 = y mod n + 1 + y div n * n" by simp
  have r: "0 \<le> y mod n + 1" "y mod n + 1 < n" using b False by linarith+
  have "(y + 1) div n = y div n" unfolding e using r assms by (subst div_mult_self1) (simp_all)
  moreover have "(y + 1) mod n = y mod n + 1" unfolding e using r by (subst mod_mult_self1) simp
  then have "\<not> n dvd y + 1" using b by (simp add: dvd_eq_mod_eq_0)
  ultimately show ?thesis by simp
qed

lemma year_start_step:
  "year_start (y + 1) = year_start y + (if is_leap (y + 1) then 366 else 365)"
proof -
  define a b c where "a \<longleftrightarrow> 4 dvd y + 1" and "b \<longleftrightarrow> 100 dvd y + 1" and "c \<longleftrightarrow> 400 dvd y + 1"
  have d: "(y + 1) div 4 = y div 4 + (if a then 1 else 0)" "(y + 1) div 100 = y div 100 + (if b then 1 else 0)"
      "(y + 1) div 400 = y div 400 + (if c then 1 else 0)"
    using div_step [of 4 y] div_step [of 100 y] div_step [of 400 y] by (simp_all only: a_def b_def c_def zero_less_numeral simp_thms)
  have "c \<longrightarrow> b" unfolding b_def c_def by (rule impI, rule dvd_trans [of "100::int" 400]) simp_all
  moreover have "b \<longrightarrow> a" unfolding a_def b_def by (rule impI, rule dvd_trans [of "4::int" 100]) simp_all
  ultimately show ?thesis
    unfolding year_start_def is_leap_def d a_def [symmetric] b_def [symmetric] c_def [symmetric]
    by (cases a; cases b; cases c) simp_all
qed

text \<open>The months in a row: month \<open>k\<close> starts where month \<open>k - 1\<close> ends.\<close>

definition month_index :: "year_month \<Rightarrow> int" where
  "month_index ym = 12 * fst ym + (snd ym - 1)"

definition month_at :: "int \<Rightarrow> year_month" where
  "month_at k = (k div 12, k mod 12 + 1)"

definition first_of :: "year_month \<Rightarrow> int" where
  "first_of ym = sys_days (fst ym, snd ym, 1)"

lemma month_at_index [simp]: "1 \<le> m \<Longrightarrow> m \<le> 12 \<Longrightarrow> month_at (month_index (y, m)) = (y, m)"
  by (simp add: month_at_def month_index_def)

lemma month_index_at [simp]: "month_index (month_at k) = k"
  by (simp add: month_at_def month_index_def)

lemma snd_month_at: "1 \<le> snd (month_at k)" "snd (month_at k) \<le> 12"
  by (simp_all add: month_at_def)

lemma add_months_at [simp]: "add_months (month_at k) n = month_at (k + n)"
  by (simp add: month_at_def add_months_def Let_def)

lemma first_of_step: "first_of (month_at (k + 1)) = first_of (month_at k) + days_in_month (fst (month_at k)) (snd (month_at k))"
proof -
  define y where "y = k div 12"
  define r where "r = k mod 12"
  have k: "k = 12 * y + r" by (simp add: y_def r_def)
  have "0 \<le> r" "r < 12" by (simp_all add: r_def)
  then have r: "r = 0 \<or> r = 1 \<or> r = 2 \<or> r = 3 \<or> r = 4 \<or> r = 5 \<or> r = 6 \<or> r = 7 \<or> r = 8 \<or> r = 9 \<or> r = 10 \<or> r = 11"
    by presburger
  then have m: "month_at k = (y, r + 1)" "month_at (k + 1) = (if r = 11 then (y + 1, 1) else (y, r + 2))"
    unfolding k month_at_def by auto
  have s: "year_start (y + 1 - 1) = year_start (y - 1) + (if is_leap y then 366 else 365)"
    using year_start_step [of "y - 1"] by simp
  show ?thesis
    unfolding m using r s
    by (elim disjE) (simp_all add: first_of_def sys_days_def march_year_def march_month_def month_start_def days_in_month_def)
qed

lemma days_in_month_bounds: "28 \<le> days_in_month y m" "days_in_month y m \<le> 31"
  by (simp_all add: days_in_month_def)

lemma first_of_mono: "k \<le> l \<Longrightarrow> first_of (month_at k) + 28 * (l - k) \<le> first_of (month_at l)"
proof (induction l rule: int_ge_induct)
  case (step l)
  then show ?case using first_of_step [of l] days_in_month_bounds(1) [of "fst (month_at l)" "snd (month_at l)"] by simp
qed simp

lemma sys_days_in_month:
  assumes "1 \<le> m" "m \<le> 12"
  shows "sys_days (y, m, d) = first_of (month_at (month_index (y, m))) + d - 1"
  using assms by (simp add: first_of_def sys_days_def)

lemma sys_days_strict:
  assumes "ymd_ok a" "ymd_ok b" "a < b"
  shows "sys_days a < sys_days b"
proof -
  obtain y m d where a: "a = (y, m, d)" by (cases a)
  obtain y' m' d' where b: "b = (y', m', d')" by (cases b)
  have okm: "1 \<le> m" "m \<le> 12" "1 \<le> m'" "m' \<le> 12" and okd: "d \<le> days_in_month y m" "1 \<le> d'"
    using assms(1,2) by (auto simp: ymd_ok_def a b)
  have lex: "y < y' \<or> y = y' \<and> (m < m' \<or> m = m' \<and> d < d')" using assms(3) by (auto simp: a b less_prod_def)
  show ?thesis
  proof (cases "y = y' \<and> m = m'")
    case True
    with lex show ?thesis by (simp add: a b sys_days_def)
  next
    case False
    with lex okm have "month_index (y, m) + 1 \<le> month_index (y', m')" by (auto simp: month_index_def)
    then have "first_of (month_at (month_index (y, m) + 1)) \<le> first_of (month_at (month_index (y', m')))"
      using first_of_mono by fastforce
    then show ?thesis
      using okd first_of_step [of "month_index (y, m)"] okm by (simp add: a b sys_days_in_month)
  qed
qed

lemma sys_days_less_iff: "ymd_ok a \<Longrightarrow> ymd_ok b \<Longrightarrow> sys_days a < sys_days b \<longleftrightarrow> a < b"
  by (metis sys_days_strict less_asym linorder_neqE)

lemma sys_days_le_iff: "ymd_ok a \<Longrightarrow> ymd_ok b \<Longrightarrow> sys_days a \<le> sys_days b \<longleftrightarrow> a \<le> b"
  by (metis sys_days_less_iff linorder_not_less)

lemma to_ymd_sys_days [simp]: "ymd_ok a \<Longrightarrow> to_ymd (sys_days a) = a"
  by (metis sys_days_to_ymd sys_days_less_iff ymd_ok_to_ymd linorder_neqE less_irrefl)

end
