(* ===== verification/TaxCalendar.thy ===== *)
theory TaxCalendar
  imports Calendar CxxText TaxReference
begin

text \<open>
  Model of \<^verbatim>\<open>src/src/tax/TaxCalendar.hpp\<close>: the rules of \<open>tax_deadlines\<close> expanded into the due
  dates that fall into a window. The two unbounded loops of \<open>expand_rule\<close> are the functions
  \<open>later_periods\<close> and \<open>earlier_periods\<close>, whose termination is proved for every rule.
\<close>

record Deadline =
  dl_form :: string
  dl_kind :: string
  dl_period_label :: string
  dl_due_date :: string
  dl_days_left :: int

record Rule =
  r_form :: string
  r_kind :: string
  r_period_kind :: string
  r_due_day :: int
  r_due_month_offset :: int
  r_effective_from :: string
  r_source_note :: string

datatype calendar_error = BadDateText text_error | UnspecifiedDate

text \<open>\<open>SELECT DISTINCT ON (form, kind) ... ORDER BY form, kind, effective_from DESC\<close>.\<close>

definition load_rules :: "Rule list \<Rightarrow> string \<Rightarrow> Rule list" where
  "load_rules table on_date =
     distinct_on (\<lambda>r. (r_form r, r_kind r)) r_effective_from (filter (\<lambda>r. r_effective_from r \<le> on_date) table)"

text \<open>
  The constructors \<open>month\<close> and \<open>day\<close> leave the value of an argument outside a byte unspecified,
  and a date in a month outside 1 .. 12 has no specified \<open>sys_days\<close>.
\<close>

definition lift_text :: "text_error + 'a \<Rightarrow> calendar_error + 'a" where
  "lift_text x = (case x of Inl e \<Rightarrow> Inl (BadDateText e) | Inr a \<Rightarrow> Inr a)"

definition parse_date :: "string \<Rightarrow> calendar_error + year_month_day" where
  "parse_date s =
     rbind (lift_text (rbind (substr s 0 4) stoi)) (\<lambda>y.
     rbind (lift_text (rbind (substr s 5 2) stoi)) (\<lambda>m.
     rbind (lift_text (rbind (substr s 8 2) stoi)) (\<lambda>d.
     if m < 1 \<or> 12 < m \<or> d < 0 then Inl UnspecifiedDate else Inr (y, m, d))))"

definition format_date :: "year_month_day \<Rightarrow> string" where
  "format_date x = (case x of (y, m, d) \<Rightarrow>
     (if y < 0 then CHR ''-'' # pad_left 3 (dec (nat (- y))) else dec04 (nat y)) @ ''-'' @
     dec02 (nat m) @ ''-'' @ dec02 (nat d))"

definition last_day_of :: "year_month \<Rightarrow> year_month_day" where
  "last_day_of ym = (fst ym, snd ym, days_in_month (fst ym) (snd ym))"

definition days_between :: "year_month_day \<Rightarrow> year_month_day \<Rightarrow> int" where
  "days_between a b = sys_days b - sys_days a"

definition period_length_months :: "string \<Rightarrow> int" where
  "period_length_months period_kind =
     (if period_kind = ''month'' then 1
      else if period_kind = ''quarter'' then 3
      else if period_kind = ''half_year'' then 6
      else 12)"

definition current_period_end_month :: "year_month_day \<Rightarrow> string \<Rightarrow> year_month" where
  "current_period_end_month on_date period_kind = (case on_date of (y, m, d) \<Rightarrow>
     (if period_kind = ''month'' then (y, m)
      else if period_kind = ''quarter'' then (y, ((m - 1) div 3 + 1) * 3)
      else if period_kind = ''half_year'' then (y, if m \<le> 6 then 6 else 12)
      else (y, 12)))"

lemma weekday_next: "weekday (n + 1) = (weekday n + 1) mod 7"
  unfolding weekday_def by presburger

function shift_days :: "int \<Rightarrow> int" where
  "shift_days n = (if weekday n = 6 \<or> weekday n = 0 then shift_days (n + 1) else n)"
  by pat_completeness auto
termination
  by (relation "measure (\<lambda>n. if weekday n = 6 then 2 else if weekday n = 0 then 1 else 0)")
     (simp, fastforce simp: weekday_next)

definition shift_weekend_forward :: "year_month_day \<Rightarrow> year_month_day" where
  "shift_weekend_forward d = to_ymd (shift_days (sys_days d))"

definition kRoman :: "string list" where
  "kRoman = [''I'', ''II'', ''III'', ''IV'']"

definition kMonthsRu :: "string list" where
  "kMonthsRu =
     [[],
      utf8 [1071, 1085, 1074, 1072, 1088, 1100],
      utf8 [1060, 1077, 1074, 1088, 1072, 1083, 1100],
      utf8 [1052, 1072, 1088, 1090],
      utf8 [1040, 1087, 1088, 1077, 1083, 1100],
      utf8 [1052, 1072, 1081],
      utf8 [1048, 1102, 1085, 1100],
      utf8 [1048, 1102, 1083, 1100],
      utf8 [1040, 1074, 1075, 1091, 1089, 1090],
      utf8 [1057, 1077, 1085, 1090, 1103, 1073, 1088, 1100],
      utf8 [1054, 1082, 1090, 1103, 1073, 1088, 1100],
      utf8 [1053, 1086, 1103, 1073, 1088, 1100],
      utf8 [1044, 1077, 1082, 1072, 1073, 1088, 1100]]"

definition period_label :: "year_month \<Rightarrow> string \<Rightarrow> string" where
  "period_label end_ym period_kind =
     (let y = fst end_ym; m = snd end_ym in
      if period_kind = ''half_year'' then
        (if m = 6 then ''I '' else ''II '') @ utf8 [1087, 1086, 1083, 1091, 1075, 1086, 1076, 1080, 1077] @ '' '' @ to_string y
      else if period_kind = ''quarter'' then
        kRoman ! nat (m div 3 - 1) @ '' '' @ utf8 [1082, 1074, 1072, 1088, 1090, 1072, 1083] @ '' '' @ to_string y
      else if period_kind = ''year'' then to_string y @ '' '' @ utf8 [1075, 1086, 1076]
      else kMonthsRu ! nat m @ '' '' @ to_string y)"

definition due_for :: "Rule \<Rightarrow> year_month \<Rightarrow> year_month_day" where
  "due_for r end_ym =
     (let due_ym = add_months end_ym (r_due_month_offset r)
      in shift_weekend_forward (fst due_ym, snd due_ym, r_due_day r))"

definition make_deadline :: "Rule \<Rightarrow> year_month_day \<Rightarrow> year_month \<Rightarrow> year_month_day \<Rightarrow> Deadline" where
  "make_deadline r on_date end_ym due =
     \<lparr>dl_form = r_form r, dl_kind = r_kind r, dl_period_label = period_label end_ym (r_period_kind r),
      dl_due_date = format_date due, dl_days_left = days_between on_date due\<rparr>"

definition period_end :: "Rule \<Rightarrow> year_month \<Rightarrow> int \<Rightarrow> year_month" where
  "period_end r current_end_ym i = add_months current_end_ym (period_length_months (r_period_kind r) * i)"

section \<open>Facts the loops end by\<close>

declare shift_days.simps [simp del]

lemma shift_days_cases:
  "shift_days n = (if weekday n = 6 then n + 2 else if weekday n = 0 then n + 1 else n)"
proof -
  have sun: "shift_days k = k + 1" if "weekday k = 0" for k
    using that weekday_next [of k] by (subst shift_days.simps) (simp add: shift_days.simps [of "k + 1"])
  show ?thesis
  proof (cases "weekday n = 6")
    case True
    then have "shift_days n = shift_days (n + 1)" by (subst shift_days.simps) simp
    also have "\<dots> = n + 2" using True weekday_next [of n] by (subst sun) simp_all
    finally show ?thesis using True by simp
  next
    case False
    then show ?thesis using sun [of n] by (simp add: shift_days.simps [of n])
  qed
qed

lemma shift_days_bounds: "n \<le> shift_days n \<and> shift_days n \<le> n + 2"
  by (simp add: shift_days_cases)

lemma period_length_pos: "1 \<le> period_length_months k"
  by (simp add: period_length_months_def)

lemma add_months_index: "add_months ym n = month_at (month_index ym + n)"
  by (simp add: add_months_def month_at_def month_index_def Let_def split: prod.split)

definition raw_due :: "Rule \<Rightarrow> year_month \<Rightarrow> int" where
  "raw_due r end_ym = first_of (month_at (month_index end_ym + r_due_month_offset r)) + r_due_day r - 1"

lemma sys_days_due:
  "raw_due r end_ym \<le> sys_days (due_for r end_ym)" "sys_days (due_for r end_ym) \<le> raw_due r end_ym + 2"
proof -
  define ym where "ym = add_months end_ym (r_due_month_offset r)"
  have ym: "ym = month_at (month_index end_ym + r_due_month_offset r)" by (simp add: ym_def add_months_index)
  have "sys_days (fst ym, snd ym, r_due_day r) = raw_due r end_ym"
    unfolding raw_due_def ym by (subst sys_days_in_month) (simp_all add: snd_month_at)
  then have "sys_days (due_for r end_ym) = shift_days (raw_due r end_ym)"
    by (simp add: due_for_def ym_def [symmetric] Let_def shift_weekend_forward_def)
  then show "raw_due r end_ym \<le> sys_days (due_for r end_ym)" "sys_days (due_for r end_ym) \<le> raw_due r end_ym + 2"
    using shift_days_bounds by simp_all
qed

lemma due_ok [simp]: "ymd_ok (due_for r end_ym)"
  by (simp add: due_for_def Let_def shift_weekend_forward_def)

lemma period_end_at: "period_end r cur i = month_at (month_index cur + period_length_months (r_period_kind r) * i)"
  by (simp add: period_end_def add_months_index)

lemma period_end_mono:
  assumes "i \<le> j"
  shows "first_of (period_end r cur i) + 28 * (j - i) \<le> first_of (period_end r cur j)"
    and "raw_due r (period_end r cur i) + 28 * (j - i) \<le> raw_due r (period_end r cur j)"
proof -
  define len where "len = period_length_months (r_period_kind r)"
  have "1 * (j - i) \<le> len * (j - i)"
    using assms period_length_pos unfolding len_def by (intro mult_right_mono) simp_all
  then have l: "j - i \<le> len * j - len * i" by (simp add: right_diff_distrib)
  show "first_of (period_end r cur i) + 28 * (j - i) \<le> first_of (period_end r cur j)"
    using first_of_mono [of "month_index cur + len * i" "month_index cur + len * j"] l assms
    by (simp add: period_end_at len_def)
  show "raw_due r (period_end r cur i) + 28 * (j - i) \<le> raw_due r (period_end r cur j)"
    using first_of_mono [of "month_index cur + len * i + r_due_month_offset r" "month_index cur + len * j + r_due_month_offset r"] l assms
    by (simp add: period_end_at raw_due_def len_def)
qed

lemma last_day_of_ok [simp]: "ymd_ok (last_day_of (month_at k))"
  using days_in_month_bounds(1) [of "fst (month_at k)" "snd (month_at k)"] snd_month_at [of k]
  by (simp add: last_day_of_def ymd_ok_def)

section \<open>expand\_rule and upcoming\<close>

lemma year_le: "a \<le> b \<Longrightarrow> fst a \<le> fst (b :: year_month_day)"
  by (auto simp: less_eq_prod_def)

function later_periods ::
  "Rule \<Rightarrow> year_month_day \<Rightarrow> year_month_day \<Rightarrow> year_month_day \<Rightarrow> year_month \<Rightarrow> int \<Rightarrow> Deadline list" where
  "later_periods r on_date horizon_end effective_from cur i =
     (let end_ym = period_end r cur i; due = due_for r end_ym in
      if due > horizon_end then []
      else if last_day_of end_ym < effective_from then later_periods r on_date horizon_end effective_from cur (i + 1)
      else if due \<ge> on_date
      then make_deadline r on_date end_ym due # later_periods r on_date horizon_end effective_from cur (i + 1)
      else later_periods r on_date horizon_end effective_from cur (i + 1))"
  by pat_completeness auto

lemma later_measure:
  assumes "\<not> due_for r (period_end r cur i) > h"
  shows "nat (sys_days (fst h + 1, 1, 1) - raw_due r (period_end r cur (i + 1))) < nat (sys_days (fst h + 1, 1, 1) - raw_due r (period_end r cur i))"
proof -
  have "due_for r (period_end r cur i) < (fst h + 1, 1, 1)"
    using assms year_le [of "due_for r (period_end r cur i)" h] by (cases "due_for r (period_end r cur i)") (auto simp: less_prod_def not_less)
  then have "sys_days (due_for r (period_end r cur i)) < sys_days (fst h + 1, 1, 1)"
    by (rule sys_days_strict [OF due_ok, rotated]) (simp add: ymd_ok_def days_in_month_def)
  then show ?thesis
    using sys_days_due(1) [of r "period_end r cur i"] period_end_mono(2) [of i "i + 1" r cur] by simp
qed

termination later_periods
  by (relation "measure (\<lambda>(r, on_date, h, eff, cur, i). nat (sys_days (fst h + 1, 1, 1) - raw_due r (period_end r cur i)))")
     (auto dest: later_measure)

function earlier_periods ::
  "Rule \<Rightarrow> year_month_day \<Rightarrow> year_month_day \<Rightarrow> year_month_day \<Rightarrow> year_month \<Rightarrow> int \<Rightarrow> Deadline list" where
  "earlier_periods r on_date horizon_end effective_from cur i =
     (let end_ym = period_end r cur i in
      if last_day_of end_ym < effective_from then []
      else
        let due = due_for r end_ym in
        if due < on_date then []
        else if due \<le> horizon_end
        then make_deadline r on_date end_ym due # earlier_periods r on_date horizon_end effective_from cur (i - 1)
        else earlier_periods r on_date horizon_end effective_from cur (i - 1))"
  by pat_completeness auto

lemma earlier_measure:
  assumes "\<not> last_day_of (period_end r cur i) < eff"
  shows "nat (first_of (period_end r cur (i - 1)) - sys_days (fst eff, 1, 1) + 1) < nat (first_of (period_end r cur i) - sys_days (fst eff, 1, 1) + 1)"
proof -
  obtain y m where ym: "period_end r cur i = (y, m)" and m: "1 \<le> m" "m \<le> 12"
    by (metis period_end_at snd_month_at prod.collapse)
  have "fst eff \<le> y" using assms year_le [of eff "last_day_of (period_end r cur i)"] by (simp add: ym last_day_of_def not_less)
  then have "(fst eff, 1, 1) \<le> (y, m, 1::int)" using m by (auto simp: less_eq_prod_def)
  then have "sys_days (fst eff, 1, 1) \<le> sys_days (y, m, 1)"
    using m days_in_month_bounds(1) [of y m] by (subst sys_days_le_iff) (simp_all add: ymd_ok_def days_in_month_def)
  then show ?thesis
    using period_end_mono(1) [of "i - 1" i r cur] by (simp add: ym first_of_def)
qed

termination earlier_periods
  by (relation "measure (\<lambda>(r, on_date, h, eff, cur, i). nat (first_of (period_end r cur i) - sys_days (fst eff, 1, 1) + 1))")
     (auto dest: earlier_measure)

declare later_periods.simps [simp del] earlier_periods.simps [simp del]

definition expand_rule :: "Rule \<Rightarrow> year_month_day \<Rightarrow> year_month_day \<Rightarrow> calendar_error + Deadline list" where
  "expand_rule r on_date horizon_end =
     rbind (parse_date (r_effective_from r)) (\<lambda>effective_from.
     let cur = current_period_end_month on_date (r_period_kind r) in
     Inr (later_periods r on_date horizon_end effective_from cur 0 @
          earlier_periods r on_date horizon_end effective_from cur (- 1)))"

fun expand_rules :: "Rule list \<Rightarrow> year_month_day \<Rightarrow> year_month_day \<Rightarrow> calendar_error + Deadline list" where
  "expand_rules [] on_date horizon_end = Inr []"
| "expand_rules (r # rs) on_date horizon_end =
     rbind (expand_rule r on_date horizon_end) (\<lambda>ds.
     rbind (expand_rules rs on_date horizon_end) (\<lambda>rest. Inr (ds @ rest)))"

definition upcoming :: "Rule list \<Rightarrow> string \<Rightarrow> int \<Rightarrow> calendar_error + Deadline list" where
  "upcoming table on_date horizon_days =
     rbind (parse_date on_date) (\<lambda>on.
     rbind (expand_rules (load_rules table on_date) on (to_ymd (sys_days on + horizon_days))) (\<lambda>out.
     Inr (sort_key dl_due_date out)))"

section \<open>The loops compute the window\<close>

text \<open>Due dates and period ends grow with the period.\<close>

lemma due_mono: "i < j \<Longrightarrow> due_for r (period_end r cur i) < due_for r (period_end r cur j)"
  using sys_days_due [of r "period_end r cur i"] sys_days_due [of r "period_end r cur j"] period_end_mono(2) [of i j r cur]
  by (simp flip: sys_days_less_iff)

lemma last_day_mono: "i \<le> j \<Longrightarrow> last_day_of (period_end r cur i) \<le> last_day_of (period_end r cur j)"
proof -
  assume le: "i \<le> j"
  have e: "sys_days (last_day_of (month_at k)) = first_of (month_at (k + 1)) - 1" for k
    using snd_month_at [of k] by (simp add: last_day_of_def sys_days_in_month first_of_step)
  have "period_length_months (r_period_kind r) * i \<le> period_length_months (r_period_kind r) * j"
    using le period_length_pos [of "r_period_kind r"] by (intro mult_left_mono) simp_all
  then have "sys_days (last_day_of (period_end r cur i)) \<le> sys_days (last_day_of (period_end r cur j))"
    using first_of_mono [of "month_index cur + period_length_months (r_period_kind r) * i + 1"
        "month_index cur + period_length_months (r_period_kind r) * j + 1"]
    by (simp add: period_end_at e)
  then show ?thesis by (simp add: sys_days_le_iff period_end_at)
qed

definition due_in_window ::
  "Rule \<Rightarrow> year_month_day \<Rightarrow> year_month_day \<Rightarrow> year_month_day \<Rightarrow> year_month \<Rightarrow> int \<Rightarrow> bool" where
  "due_in_window r on_date h eff cur k \<longleftrightarrow>
     eff \<le> last_day_of (period_end r cur k) \<and> on_date \<le> due_for r (period_end r cur k) \<and> due_for r (period_end r cur k) \<le> h"

abbreviation deadline_of :: "Rule \<Rightarrow> year_month_day \<Rightarrow> year_month \<Rightarrow> int \<Rightarrow> Deadline" where
  "deadline_of r on_date cur k \<equiv> make_deadline r on_date (period_end r cur k) (due_for r (period_end r cur k))"

lemma set_later_periods:
  "set (later_periods r on_date h eff cur i) = deadline_of r on_date cur ` {k. i \<le> k \<and> due_in_window r on_date h eff cur k}"
proof (induction r on_date h eff cur i rule: later_periods.induct)
  case (1 r on_date h eff cur i)
  have split: "{k. i \<le> k \<and> Q k} = (if Q i then insert i {k. i + 1 \<le> k \<and> Q k} else {k. i + 1 \<le> k \<and> Q k})" for Q
    by (auto simp: order_le_less)
  show ?case
  proof (cases "due_for r (period_end r cur i) > h")
    case True
    have "\<not> due_in_window r on_date h eff cur k" if "i \<le> k" for k
      using True due_mono [of i k r cur] that by (cases "i = k") (auto simp: due_in_window_def)
    then show ?thesis using True by (subst later_periods.simps) (auto simp: Let_def)
  next
    case False
    note IH = 1 [OF refl refl this]
    show ?thesis
      using IH False
      by (subst later_periods.simps, subst split)
         (auto simp: Let_def due_in_window_def not_less not_le)
  qed
qed

lemma set_earlier_periods:
  "set (earlier_periods r on_date h eff cur i) = deadline_of r on_date cur ` {k. k \<le> i \<and> due_in_window r on_date h eff cur k}"
proof (induction r on_date h eff cur i rule: earlier_periods.induct)
  case (1 r on_date h eff cur i)
  have split: "{k. k \<le> i \<and> Q k} = (if Q i then insert i {k. k \<le> i - 1 \<and> Q k} else {k. k \<le> i - 1 \<and> Q k})" for Q
    by (auto simp: order_le_less)
  show ?case
  proof (cases "last_day_of (period_end r cur i) < eff \<or> due_for r (period_end r cur i) < on_date")
    case True
    have "\<not> due_in_window r on_date h eff cur k" if "k \<le> i" for k
      using True due_mono [of k i r cur] last_day_mono [OF that, of r cur] that
      by (cases "i = k") (auto simp: due_in_window_def)
    then show ?thesis using True by (subst earlier_periods.simps) (auto simp: Let_def)
  next
    case False
    then have F: "\<not> last_day_of (period_end r cur i) < eff" "\<not> due_for r (period_end r cur i) < on_date" by simp_all
    note IH = 1 [OF refl F(1) refl F(2)]
    show ?thesis
      using IH F
      by (subst earlier_periods.simps, subst split)
         (auto simp: Let_def due_in_window_def not_less not_le)
  qed
qed

definition rule_deadlines :: "Rule \<Rightarrow> year_month_day \<Rightarrow> year_month_day \<Rightarrow> Deadline set" where
  "rule_deadlines r on_date h =
     (case parse_date (r_effective_from r) of
        Inl e \<Rightarrow> {}
      | Inr eff \<Rightarrow>
          let cur = current_period_end_month on_date (r_period_kind r)
          in deadline_of r on_date cur ` {k. due_in_window r on_date h eff cur k})"

lemma set_expand_rule: "expand_rule r on_date h = Inr ds \<Longrightarrow> set ds = rule_deadlines r on_date h"
proof -
  assume ds: "expand_rule r on_date h = Inr ds"
  define cur where "cur = current_period_end_month on_date (r_period_kind r)"
  obtain eff where eff: "parse_date (r_effective_from r) = Inr eff" using ds by (auto simp: expand_rule_def)
  have "ds = later_periods r on_date h eff cur 0 @ earlier_periods r on_date h eff cur (- 1)"
    using ds eff by (simp add: expand_rule_def cur_def Let_def)
  moreover have "{k. due_in_window r on_date h eff cur k} =
      {k. 0 \<le> k \<and> due_in_window r on_date h eff cur k} \<union> {k. k \<le> - 1 \<and> due_in_window r on_date h eff cur k}" by auto
  ultimately show ?thesis
    using eff by (simp add: set_later_periods set_earlier_periods image_Un rule_deadlines_def cur_def Let_def)
qed

lemma set_expand_rules:
  "expand_rules rs on_date h = Inr out \<Longrightarrow> set out = (\<Union>r \<in> set rs. rule_deadlines r on_date h)"
proof (induction rs arbitrary: out)
  case (Cons r rs)
  then obtain ds rest where "expand_rule r on_date h = Inr ds" and rest: "expand_rules rs on_date h = Inr rest"
    and out: "out = ds @ rest" by auto
  then show ?case using Cons.IH [OF rest] set_expand_rule by simp
qed simp

text \<open>
  C33: the tax calendar. \<open>upcoming\<close> returns, ordered by due date, exactly the deadlines that fall
  on the day asked about or up to \<open>horizon_days\<close> later: one for every period, before or after the
  current one, of every rule in force whose period ends on or after the day the rule takes
  effect. The two loops of \<open>expand_rule\<close>, one forward and one backward, miss none.
\<close>

theorem upcoming_is_the_window:
  assumes "upcoming table day horizon_days = Inr out" and "parse_date day = Inr on"
  shows "sorted (map dl_due_date out) \<and>
    (dl \<in> set out \<longleftrightarrow>
      (\<exists>r k eff. r \<in> set (load_rules table day) \<and> parse_date (r_effective_from r) = Inr eff \<and>
        (let end_ym = period_end r (current_period_end_month on (r_period_kind r)) k; due = due_for r end_ym
         in eff \<le> last_day_of end_ym \<and> on \<le> due \<and> sys_days due \<le> sys_days on + horizon_days \<and>
            dl = make_deadline r on end_ym due)))"
proof -
  define h where "h = to_ymd (sys_days on + horizon_days)"
  obtain ds where ds: "expand_rules (load_rules table day) on h = Inr ds" and out: "out = sort_key dl_due_date ds"
    using assms by (auto simp: upcoming_def h_def)
  have h: "due_for r e \<le> h \<longleftrightarrow> sys_days (due_for r e) \<le> sys_days on + horizon_days" for r e
    unfolding h_def by (simp flip: sys_days_le_iff)
  have "dl \<in> rule_deadlines r on h \<longleftrightarrow>
      (\<exists>k eff. parse_date (r_effective_from r) = Inr eff \<and>
        (let end_ym = period_end r (current_period_end_month on (r_period_kind r)) k; due = due_for r end_ym
         in eff \<le> last_day_of end_ym \<and> on \<le> due \<and> sys_days due \<le> sys_days on + horizon_days \<and>
            dl = make_deadline r on end_ym due))" for r
    by (cases "parse_date (r_effective_from r)") (auto simp: rule_deadlines_def due_in_window_def h Let_def)
  moreover have "dl \<in> set out \<longleftrightarrow> (\<exists>r. r \<in> set (load_rules table day) \<and> dl \<in> rule_deadlines r on h)"
    unfolding out set_sort set_expand_rules [OF ds] by blast
  ultimately have "dl \<in> set out \<longleftrightarrow>
      (\<exists>r k eff. r \<in> set (load_rules table day) \<and> parse_date (r_effective_from r) = Inr eff \<and>
        (let end_ym = period_end r (current_period_end_month on (r_period_kind r)) k; due = due_for r end_ym
         in eff \<le> last_day_of end_ym \<and> on \<le> due \<and> sys_days due \<le> sys_days on + horizon_days \<and>
            dl = make_deadline r on end_ym due))"
    by (simp only: ex_simps)
  then show ?thesis unfolding out by simp
qed

definition rule_910 :: Rule where
  "rule_910 =
     \<lparr>r_form = ''910.00'', r_kind = ''report'', r_period_kind = ''half_year'', r_due_day = 15, r_due_month_offset = 2,
      r_effective_from = ''2026-01-01'', r_source_note = []\<rparr>"

lemma parse_2026:
  "parse_date ''2026-01-01'' = Inr (2026, 1, 1)" "parse_date ''2026-07-01'' = Inr (2026, 7, 1)"
  by (simp_all add: parse_date_def lift_text_def substr_def stoi_digits isdigit_def dec_val_def digit_val_def)

lemma load_910: "load_rules [rule_910] ''2026-07-01'' = [rule_910]"
  by (simp add: load_rules_def distinct_on_def rule_910_def List.map_filter_def less_char_def)

text \<open>The declaration for the first half of 2026 is due on Saturday 15 August, hence on Monday 17.\<close>

theorem upcoming_is_the_window_witness:
  "\<exists>out. upcoming [rule_910] ''2026-07-01'' 60 = Inr out \<and>
     (\<exists>dl \<in> set out. dl_due_date dl = ''2026-08-17'' \<and> dl_days_left dl = 47)"
proof -
  have cur: "current_period_end_month (2026, 7, 1) ''half_year'' = (2026, 12)" by (simp add: current_period_end_month_def)
  have e: "period_end rule_910 (2026, 12) (- 1) = (2026, 6)"
    by (simp add: period_end_def rule_910_def period_length_months_def add_months_def)
  have s: "sys_days (2026, 8, 15) = 20680" "sys_days (2026, 7, 1) = 20635"
    by (simp_all add: sys_days_def year_start_def month_start_def march_month_def march_year_def)
  have "shift_days 20680 = 20682" unfolding shift_days_cases by (simp add: weekday_def)
  moreover have "to_ymd 20682 = (2026, 8, 17)"
    using to_ymd_sys_days [of "(2026, 8, 17)"]
    by (simp add: ymd_ok_def days_in_month_def sys_days_def year_start_def month_start_def march_month_def march_year_def)
  ultimately have "shift_weekend_forward (2026, 8, 15) = (2026, 8, 17)" by (simp only: shift_weekend_forward_def s)
  moreover have "add_months (2026, 6) 2 = (2026, 8)" by (simp add: add_months_def)
  ultimately have d: "due_for rule_910 (2026, 6) = (2026, 8, 17)" by (simp add: due_for_def rule_910_def)
  have "\<exists>ds. expand_rules [rule_910] on h = Inr ds" for on h
    by (simp add: expand_rule_def rule_910_def parse_2026 Let_def)
  then obtain ds where "expand_rules [rule_910] (2026, 7, 1) (to_ymd (sys_days (2026, 7, 1) + 60)) = Inr ds" by blast
  then obtain out where out: "upcoming [rule_910] ''2026-07-01'' 60 = Inr out"
    by (simp only: upcoming_def load_910 parse_2026 rbind_simps)
  have "make_deadline rule_910 (2026, 7, 1) (2026, 6) (2026, 8, 17) \<in> set out"
    unfolding upcoming_is_the_window [OF out parse_2026(2), THEN conjunct2] load_910
    by (rule exI [of _ rule_910], rule exI [of _ "- 1"], rule exI [of _ "(2026, 1, 1)"])
       (use e d s in \<open>simp add: rule_910_def parse_2026 cur last_day_of_def days_in_month_def less_eq_prod_def
          sys_days_def year_start_def month_start_def march_month_def march_year_def\<close>)
  moreover have "dl_due_date (make_deadline rule_910 (2026, 7, 1) (2026, 6) (2026, 8, 17)) = ''2026-08-17''"
    "dl_days_left (make_deadline rule_910 (2026, 7, 1) (2026, 6) (2026, 8, 17)) = 47"
    by (simp_all add: make_deadline_def format_date_def dec04_def dec02_def pad_left_def dec_simps days_between_def
        sys_days_def year_start_def month_start_def march_month_def march_year_def)
  ultimately show ?thesis using out by blast
qed

text \<open>
  C36: a deadline on a weekend moves to the next working day: the date \<open>shift_weekend_forward\<close> returns
  is a valid date from Monday to Friday, not before the given one, and no working day lies between.
\<close>

theorem shift_weekend_forward_next_working_day:
  "ymd_ok (shift_weekend_forward d) \<and> weekday (sys_days (shift_weekend_forward d)) \<in> {1, 2, 3, 4, 5} \<and>
   sys_days d \<le> sys_days (shift_weekend_forward d) \<and>
   {n. sys_days d \<le> n \<and> n < sys_days (shift_weekend_forward d) \<and> weekday n \<in> {1, 2, 3, 4, 5}} = {}"
proof -
  define n where "n = sys_days d"
  define work where "work k \<longleftrightarrow> weekday k \<in> {1, 2, 3, 4, 5}" for k
  have next1: "weekday (n + 1) = (weekday n + 1) mod 7" and next2: "weekday (n + 2) = (weekday n + 2) mod 7"
    unfolding weekday_def by presburger+
  have range: "0 \<le> weekday n" "weekday n < 7" by (simp_all add: weekday_def)
  consider (sat) "weekday n = 6" | (sun) "weekday n = 0" | (weekday) "1 \<le> weekday n" "weekday n \<le> 5"
    using range by linarith
  then have "work (shift_days n) \<and> n \<le> shift_days n \<and> {k. n \<le> k \<and> k < shift_days n \<and> work k} = {}"
  proof cases
    case sat
    then have "\<not> work n" "\<not> work (n + 1)" "work (n + 2)" "shift_days n = n + 2"
      unfolding work_def next1 next2 by (simp_all add: shift_days_cases)
    moreover have "k = n \<or> k = n + 1" if "n \<le> k" "k < n + 2" for k using that by linarith
    ultimately show ?thesis by auto
  next
    case sun
    then have "\<not> work n" "work (n + 1)" "shift_days n = n + 1"
      unfolding work_def next1 by (simp_all add: shift_days_cases)
    moreover have "k = n" if "n \<le> k" "k < n + 1" for k using that by linarith
    ultimately show ?thesis by auto
  next
    case weekday
    then have "weekday n = 1 \<or> weekday n = 2 \<or> weekday n = 3 \<or> weekday n = 4 \<or> weekday n = 5" by linarith
    then have "work n" "shift_days n = n" unfolding work_def by (auto simp: shift_days_cases)
    then show ?thesis by auto
  qed
  then show ?thesis
    unfolding n_def work_def shift_weekend_forward_def sys_days_to_ymd by (simp only: ymd_ok_to_ymd simp_thms)
qed

end
