(* ===== verification/DateText.thy ===== *)
theory DateText
  imports Validation TaxCalendar
begin

text \<open>
  The dates of the API and the dates of the calendar: what \<open>is_valid_date\<close> (\<^verbatim>\<open>api/Validation.hpp\<close>)
  lets through is what \<open>parse_date\<close> and \<open>format_date\<close> (\<^verbatim>\<open>tax/TaxCalendar.hpp\<close>) read and print.
\<close>

lemma decimal_split: "10 * a + c = 10 * b + d \<Longrightarrow> c < 10 \<Longrightarrow> d < (10::nat) \<Longrightarrow> a = b \<and> c = d"
  by presburger

lemma digits_inject:
  "\<forall>c \<in> set s. isdigit c \<Longrightarrow> \<forall>c \<in> set t. isdigit c \<Longrightarrow> length s = length t \<Longrightarrow> dec_val s = dec_val t \<Longrightarrow> s = t"
proof (induction s arbitrary: t rule: rev_induct)
  case (snoc c s)
  then obtain d u where t: "t = u @ [d]" by (cases t rule: rev_cases) auto
  have c: "digit_val c < 10" "digit_val d < 10" using snoc.prems t by (simp_all add: digit_val_less)
  have "10 * dec_val s + digit_val c = 10 * dec_val u + digit_val d" using snoc.prems t by simp
  from decimal_split [OF this c] have "dec_val s = dec_val u" "digit_val c = digit_val d" by simp_all
  moreover have "isdigit c" "isdigit d" using snoc.prems t by simp_all
  ultimately have "c = d" by (metis digit_char_digit_val)
  moreover have "s = u"
    by (rule snoc.IH) (use snoc.prems t \<open>dec_val s = dec_val u\<close> in simp_all)
  ultimately show ?case using t by simp
qed simp

lemma pad_left_props:
  assumes "n < 10 ^ k" "0 < k"
  shows "length (pad_left k (dec n)) = k" "\<forall>c \<in> set (pad_left k (dec n)). isdigit c"
  using length_dec_le [OF assms] by (auto simp: pad_left_def)

lemma pad_left_dec_val:
  assumes "\<forall>c \<in> set s. isdigit c" "0 < length s"
  shows "pad_left (length s) (dec (dec_val s)) = s"
  using assms dec_val_bound [OF assms(1)] pad_left_props [of "dec_val s" "length s"]
  by (intro digits_inject) simp_all

lemma date_shape_parts:
  "date_shape s \<longleftrightarrow>
     (\<exists>a b c. length a = 4 \<and> length b = 2 \<and> length c = 2 \<and> (\<forall>x \<in> set (a @ b @ c). isdigit x) \<and>
        s = a @ ''-'' @ b @ ''-'' @ c)"
proof
  assume sh: "date_shape s"
  then have n: "length s = 10" by (simp add: date_shape_def)
  then obtain c0 c1 c2 c3 c4 c5 c6 c7 c8 c9 where s: "s = [c0, c1, c2, c3, c4, c5, c6, c7, c8, c9]"
    by (auto simp: eval_nat_numeral length_Suc_conv)
  have "isdigit c0" "isdigit c1" "isdigit c2" "isdigit c3" "c4 = CHR ''-''" "isdigit c5" "isdigit c6" "c7 = CHR ''-''"
      "isdigit c8" "isdigit c9"
    using sh by (simp_all add: date_shape_def s upt_rec)
  then show "\<exists>a b c. length a = 4 \<and> length b = 2 \<and> length c = 2 \<and> (\<forall>x \<in> set (a @ b @ c). isdigit x) \<and>
        s = a @ ''-'' @ b @ ''-'' @ c"
    unfolding s by (intro exI [of _ "[c0, c1, c2, c3]"] exI [of _ "[c5, c6]"] exI [of _ "[c8, c9]"]) simp
next
  assume "\<exists>a b c. length a = 4 \<and> length b = 2 \<and> length c = 2 \<and> (\<forall>x \<in> set (a @ b @ c). isdigit x) \<and>
        s = a @ ''-'' @ b @ ''-'' @ c"
  then obtain a b c where p: "length a = 4" "length b = 2" "length c = 2" "\<forall>x \<in> set (a @ b @ c). isdigit x"
    and s: "s = a @ ''-'' @ b @ ''-'' @ c" by blast
  obtain a0 a1 a2 a3 where a: "a = [a0, a1, a2, a3]" using p(1) by (auto simp: eval_nat_numeral length_Suc_conv)
  obtain b0 b1 where b: "b = [b0, b1]" using p(2) by (auto simp: eval_nat_numeral length_Suc_conv)
  obtain c0 c1 where c: "c = [c0, c1]" using p(3) by (auto simp: eval_nat_numeral length_Suc_conv)
  show "date_shape s" using p(4) unfolding s a b c by (simp add: date_shape_def upt_rec)
qed

lemma valid_date_parts:
  assumes "length a = 4" "length b = 2" "length c = 2" "\<forall>x \<in> set (a @ b @ c). isdigit x"
  shows "is_valid_date (a @ ''-'' @ b @ ''-'' @ c) \<longleftrightarrow> ymd_ok (int (dec_val a), int (dec_val b), int (dec_val c))"
proof -
  define y m d where "y = int (dec_val a)" and "m = int (dec_val b)" and "d = int (dec_val c)"
  have sh: "date_shape (a @ ''-'' @ b @ ''-'' @ c)" unfolding date_shape_parts using assms by blast
  have leap: "is_leap y \<longleftrightarrow> y mod 4 = 0 \<and> (y mod 100 \<noteq> 0 \<or> y mod 400 = 0)"
    by (simp add: is_leap_def dvd_eq_mod_eq_0)
  have v: "is_valid_date (a @ ''-'' @ b @ ''-'' @ c) \<longleftrightarrow>
      \<not> (m < 1 \<or> m > 12 \<or> d < 1) \<and> d \<le> (if m = 2 \<and> is_leap y then 29 else date_days_in_month ! nat (m - 1))"
  proof -
    have t: "take 4 (a @ ''-'' @ b @ ''-'' @ c) = a" "take 2 (drop 5 (a @ ''-'' @ b @ ''-'' @ c)) = b"
        "drop 8 (a @ ''-'' @ b @ ''-'' @ c) = c"
      using assms(1,2) by simp_all
    show ?thesis
      unfolding is_valid_date_def t Let_def y_def [symmetric] m_def [symmetric] d_def [symmetric] leap [symmetric]
      by (cases "m < 1 \<or> m > 12 \<or> d < 1") (simp_all only: sh if_True if_False simp_thms)
  qed
  have "(if m = 2 \<and> is_leap y then 29 else date_days_in_month ! nat (m - 1)) = days_in_month y m" if "1 \<le> m" "m \<le> 12"
  proof -
    have "m = 1 \<or> m = 2 \<or> m = 3 \<or> m = 4 \<or> m = 5 \<or> m = 6 \<or> m = 7 \<or> m = 8 \<or> m = 9 \<or> m = 10 \<or> m = 11 \<or> m = 12"
      using that by presburger
    then show ?thesis by (elim disjE) (simp_all add: date_days_in_month_def days_in_month_def)
  qed
  then show ?thesis
    unfolding v y_def [symmetric] m_def [symmetric] d_def [symmetric] ymd_ok_def by auto
qed

lemma parse_date_parts:
  assumes "length a = 4" "length b = 2" "length c = 2" "\<forall>x \<in> set (a @ b @ c). isdigit x"
  shows "parse_date (a @ ''-'' @ b @ ''-'' @ c) =
    (if dec_val b < 1 \<or> 12 < dec_val b then Inl UnspecifiedDate
     else Inr (int (dec_val a), int (dec_val b), int (dec_val c)))"
proof -
  have "stoi a = Inr (int (dec_val a))" "stoi b = Inr (int (dec_val b))" "stoi c = Inr (int (dec_val c))"
    using assms by (auto intro: stoi_digits)
  then show ?thesis using assms(1,2,3) by (simp add: parse_date_def lift_text_def substr_def)
qed

text \<open>
  the API's date check and the calendar's date functions agree. A text is accepted by
  \<open>is_valid_date\<close> exactly when \<open>parse_date\<close> reads it as a date that exists, with a year of at most
  four digits, and \<open>format_date\<close> prints that date back as the same text: a date let through by the
  API is never unspecified behaviour in the calendar.
\<close>

theorem valid_date_is_calendar_date:
  "is_valid_date s \<longleftrightarrow>
     (\<exists>x. parse_date s = Inr x \<and> ymd_ok x \<and> 0 \<le> fst x \<and> fst x \<le> 9999 \<and> format_date x = s)"
proof
  assume v: "is_valid_date s"
  then have "date_shape s" by (simp add: is_valid_date_def)
  then obtain a b c where p: "length a = 4" "length b = 2" "length c = 2" "\<forall>x \<in> set (a @ b @ c). isdigit x"
    and s: "s = a @ ''-'' @ b @ ''-'' @ c" unfolding date_shape_parts by blast
  have ok: "ymd_ok (int (dec_val a), int (dec_val b), int (dec_val c))" using v valid_date_parts [OF p] by (simp add: s)
  then have "\<not> (dec_val b < 1 \<or> 12 < dec_val b)" by (auto simp: ymd_ok_def)
  then have "parse_date s = Inr (int (dec_val a), int (dec_val b), int (dec_val c))"
    unfolding s parse_date_parts [OF p] by (simp only: if_False)
  moreover have "dec_val a < 10 ^ 4" using dec_val_bound [of a] p(1,4) by auto
  moreover have "pad_left 4 (dec (dec_val a)) = a" "pad_left 2 (dec (dec_val b)) = b" "pad_left 2 (dec (dec_val c)) = c"
    using pad_left_dec_val [of a] pad_left_dec_val [of b] pad_left_dec_val [of c] p by auto
  ultimately show "\<exists>x. parse_date s = Inr x \<and> ymd_ok x \<and> 0 \<le> fst x \<and> fst x \<le> 9999 \<and> format_date x = s"
    using ok by (auto simp: format_date_def dec04_def dec02_def s)
next
  assume "\<exists>x. parse_date s = Inr x \<and> ymd_ok x \<and> 0 \<le> fst x \<and> fst x \<le> 9999 \<and> format_date x = s"
  then obtain y m d where ok: "ymd_ok (y, m, d)" and y: "0 \<le> y" "y \<le> 9999" and s: "format_date (y, m, d) = s" by auto
  have md: "1 \<le> m" "m \<le> 12" "1 \<le> d" "d \<le> 31"
    using ok days_in_month_bounds(2) [of y m] by (auto simp: ymd_ok_def)
  define a b c where "a = pad_left 4 (dec (nat y))" and "b = pad_left 2 (dec (nat m))" and "c = pad_left 2 (dec (nat d))"
  have p: "length a = 4" "length b = 2" "length c = 2" "\<forall>x \<in> set (a @ b @ c). isdigit x"
    using pad_left_props [of "nat y" 4] pad_left_props [of "nat m" 2] pad_left_props [of "nat d" 2] y md
    by (auto simp: a_def b_def c_def)
  have "s = a @ ''-'' @ b @ ''-'' @ c" using s y by (simp add: format_date_def dec04_def dec02_def a_def b_def c_def)
  then show "is_valid_date s" using valid_date_parts [OF p] ok y md by (simp add: a_def b_def c_def)
qed

end
