(* ===== verification/TaxService.thy ===== *)
theory TaxService
  imports Journal TaxReference Json CxxText
begin

text \<open>
  Model of \<^verbatim>\<open>src/src/tax/TaxService.hpp\<close> and \<^verbatim>\<open>src/src/tax/TaxCalculationRepository.hpp\<close>: the
  simplified-regime tax and the VAT of a period, summed over the posted journal, stored by an
  upsert, and the alerts of approaching thresholds.

  The journal is read on the primary; rates and constants are read through \<open>execute_read\<close>,
  their rows are the argument \<open>ref\<close>. The rounding of the sum in SQL is exact, since the model
  keeps \<open>NUMERIC(18,2)\<close> in tiyn. A JSON snapshot is stored as its value. Overflow of a signed
  64-bit product is the error \<open>TaxOverflow\<close>.
\<close>

datatype tax_error =
  MissingTaxReference | MalformedDate | BadYear text_error | TaxOverflow | TaxSql sql_error

record Calculation =
  calc_id :: string
  calc_org :: string
  calc_kind :: string
  calc_from :: string
  calc_to :: string
  computed_at :: int
  input_snapshot :: json
  result_snapshot :: json
  total_tiyn :: int

record Alert =
  al_kind :: string
  al_message :: string
  al_current_tiyn :: int
  al_threshold_tiyn :: int

record tax_ref =
  ref_rates :: "Rate list"
  ref_constants :: "Constant list"

definition tax_sql :: "sql_error + 'a \<Rightarrow> tax_error + 'a" where
  "tax_sql x = (case x of Inl e \<Rightarrow> Inl (TaxSql e) | Inr a \<Rightarrow> Inr a)"

section \<open>TaxCalculationRepository\<close>

definition same_period :: "string \<Rightarrow> string \<Rightarrow> string \<Rightarrow> string \<Rightarrow> Calculation \<Rightarrow> bool" where
  "same_period org kind pf pt c \<longleftrightarrow> calc_org c = org \<and> calc_kind c = kind \<and> calc_from c = pf \<and> calc_to c = pt"

text \<open>\<open>INSERT ... ON CONFLICT (org_id, kind, period_from, period_to) DO UPDATE\<close>.\<close>

definition upsert ::
  "pg \<Rightarrow> string list \<Rightarrow> string \<Rightarrow> int \<Rightarrow> string \<Rightarrow> string \<Rightarrow> string \<Rightarrow> string \<Rightarrow> json \<Rightarrow> json \<Rightarrow> int \<Rightarrow>
   Calculation list \<Rightarrow> tax_error + Calculation \<times> Calculation list" where
  "upsert p orgs new_id now org kind period_from period_to inp res tot cs =
     (case (date_in p period_from, date_in p period_to) of
        (Some pf, Some pt) \<Rightarrow>
          if kind \<notin> {''snr_simplified'', ''vat''} \<or> pt < pf then Inl (TaxSql CheckViolation)
          else
            (case find (same_period org kind pf pt) cs of
               Some c \<Rightarrow>
                 let c' = c\<lparr>computed_at := now, input_snapshot := inp, result_snapshot := res, total_tiyn := tot\<rparr>
                 in Inr (c', map (\<lambda>x. if same_period org kind pf pt x then c' else x) cs)
             | None \<Rightarrow>
                 if new_id \<in> calc_id ` set cs then Inl (TaxSql UniqueViolation)
                 else if org \<notin> set orgs then Inl (TaxSql ForeignKeyViolation)
                 else
                   let c' = \<lparr>calc_id = new_id, calc_org = org, calc_kind = kind, calc_from = pf, calc_to = pt,
                             computed_at = now, input_snapshot = inp, result_snapshot = res, total_tiyn = tot\<rparr>
                   in Inr (c', cs @ [c']))
      | _ \<Rightarrow> Inl (TaxSql InvalidText))"

definition find_by_period :: "Calculation list \<Rightarrow> string \<Rightarrow> string \<Rightarrow> string \<Rightarrow> string \<Rightarrow> Calculation option" where
  "find_by_period cs org kind pf pt = find (same_period org kind pf pt) cs"

text \<open>\<open>EXTRACT(YEAR FROM period_from)::int = $3::int\<close>: the year is the text before the first dash.\<close>

definition kind_and_year :: "string option \<Rightarrow> int option \<Rightarrow> Calculation \<Rightarrow> bool" where
  "kind_and_year kind year c \<longleftrightarrow>
     (case kind of None \<Rightarrow> True | Some k \<Rightarrow> calc_kind c = k) \<and>
     (case year of None \<Rightarrow> True | Some y \<Rightarrow> int (dec_val (takeWhile isdigit (calc_from c))) = y)"

definition year_arg :: "string option \<Rightarrow> tax_error + int option" where
  "year_arg year =
     (case year of
        None \<Rightarrow> Inr None
      | Some y \<Rightarrow> (case stoi y of Inl _ \<Rightarrow> Inl (TaxSql InvalidText) | Inr n \<Rightarrow> Inr (Some n)))"

text \<open>\<open>ORDER BY period_from DESC, kind\<close>.\<close>

definition calculation_order :: "Calculation list \<Rightarrow> Calculation list" where
  "calculation_order cs = rev (sort_key calc_from (rev (sort_key calc_kind cs)))"

definition list_calculations ::
  "Calculation list \<Rightarrow> string \<Rightarrow> string option \<Rightarrow> string option \<Rightarrow> nat \<Rightarrow> nat \<Rightarrow> tax_error + Calculation list" where
  "list_calculations cs org kind year limit offset =
     rbind (year_arg year) (\<lambda>y.
     Inr (take limit (drop offset (calculation_order (filter (\<lambda>c. calc_org c = org \<and> kind_and_year kind y c) cs)))))"

definition count_calculations :: "Calculation list \<Rightarrow> string \<Rightarrow> string option \<Rightarrow> string option \<Rightarrow> tax_error + nat" where
  "count_calculations cs org kind year =
     rbind (year_arg year) (\<lambda>y. Inr (length (filter (\<lambda>c. calc_org c = org \<and> kind_and_year kind y c) cs)))"

section \<open>Sums over the posted journal\<close>

definition kIncomeAccounts :: "string list" where
  "kIncomeAccounts = [''6010'', ''6110'', ''6250'', ''6290'']"

definition kVatDeductibleAccounts :: "string list" where
  "kVatDeductibleAccounts = [''1330'', ''7010'', ''7210'']"

definition sum_column :: "bool \<Rightarrow> line_row \<Rightarrow> int option" where
  "sum_column vat_only l = (if vat_only then l_vat l else Some (l_amount l))"

definition summed_lines :: "db \<Rightarrow> string \<Rightarrow> string list \<Rightarrow> string \<Rightarrow> string \<Rightarrow> string \<Rightarrow> line_row list" where
  "summed_lines d org accts sd pf pt =
     [l. l \<leftarrow> jlines d, e \<leftarrow> entries d,
         e_id e = l_entry l \<and> e_org e = l_org l \<and> l_org l = org \<and> e_status e = ''posted'' \<and> l_side l = sd \<and>
         pf \<le> e_date e \<and> e_date e \<le> pt \<and> l_account l \<in> set accts]"

definition sum_line_amount_tiyn ::
  "pg \<Rightarrow> db \<Rightarrow> string \<Rightarrow> string list \<Rightarrow> string \<Rightarrow> string \<Rightarrow> string \<Rightarrow> bool \<Rightarrow> tax_error + int" where
  "sum_line_amount_tiyn p d org accts sd period_from period_to vat_only =
     (case (date_in p period_from, date_in p period_to) of
        (Some pf, Some pt) \<Rightarrow>
          let s = sum_list (List.map_filter (sum_column vat_only) (summed_lines d org accts sd pf pt))
          in if in_ll s then Inr s else Inl (TaxSql NumericOverflow)
      | _ \<Rightarrow> Inl (TaxSql InvalidText))"

section \<open>Checked arithmetic\<close>

definition tax_ll :: "int \<Rightarrow> tax_error + int" where
  "tax_ll x = (if in_ll x then Inr x else Inl TaxOverflow)"

definition tax_apply_bp :: "int \<Rightarrow> int \<Rightarrow> tax_error + int" where
  "tax_apply_bp base_tiyn bp =
     rbind (tax_ll (base_tiyn * bp)) (\<lambda>x. rbind (tax_ll (x + 5000)) (\<lambda>y. Inr (cdiv y 10000)))"

definition kNearThresholdNum :: int where "kNearThresholdNum = 9"
definition kNearThresholdDen :: int where "kNearThresholdDen = 10"

definition is_near_or_over :: "int \<Rightarrow> int \<Rightarrow> tax_error + bool" where
  "is_near_or_over current_tiyn threshold_tiyn =
     rbind (tax_ll (current_tiyn * kNearThresholdDen)) (\<lambda>a.
     rbind (tax_ll (threshold_tiyn * kNearThresholdNum)) (\<lambda>b. Inr (a \<ge> b)))"

text \<open>\<open>setw(4)\<close> with fill zero pads on the left, in front of a minus sign too.\<close>

definition subtract_one_year :: "string \<Rightarrow> tax_error + string" where
  "subtract_one_year date =
     (if length date < 4 then Inl MalformedDate
      else
        (case stoi (take 4 date) of
           Inl e \<Rightarrow> Inl (BadYear e)
         | Inr y \<Rightarrow> Inr (pad_left 4 (to_string (y - 1)) @ drop 4 date)))"

section \<open>The calculations\<close>

definition calculate_snr ::
  "pg \<Rightarrow> tax_ref \<Rightarrow> db \<Rightarrow> string \<Rightarrow> int \<Rightarrow> string \<Rightarrow> string \<Rightarrow> string \<Rightarrow> Calculation list \<Rightarrow>
   tax_error + Calculation \<times> Calculation list" where
  "calculate_snr p ref d new_id now org half_year_start half_year_end cs =
     rbind (sum_line_amount_tiyn p d org kIncomeAccounts ''credit'' half_year_start half_year_end False) (\<lambda>income_tiyn.
     case rate_on (ref_rates ref) kSnrSimplified half_year_end [] of
       None \<Rightarrow> Inl MissingTaxReference
     | Some r \<Rightarrow>
         rbind (tax_apply_bp income_tiyn (rate_bp r)) (\<lambda>tax_tiyn.
         upsert p (organizations d) new_id now org ''snr_simplified'' half_year_start half_year_end
           (object [(''period_from'', JStr half_year_start), (''period_to'', JStr half_year_end), (''rate_bp'', JInt (rate_bp r)),
                    (''rate_effective_from'', JStr (rate_from r)), (''income_accounts'', JArr (map JStr kIncomeAccounts))])
           (object [(''income_tiyn'', JInt income_tiyn), (''rate_bp'', JInt (rate_bp r)), (''tax_tiyn'', JInt tax_tiyn)])
           tax_tiyn cs))"

definition calculate_vat ::
  "pg \<Rightarrow> tax_ref \<Rightarrow> db \<Rightarrow> string \<Rightarrow> int \<Rightarrow> string \<Rightarrow> string \<Rightarrow> string \<Rightarrow> Calculation list \<Rightarrow>
   tax_error + Calculation \<times> Calculation list" where
  "calculate_vat p ref d new_id now org quarter_start quarter_end cs =
     rbind (sum_line_amount_tiyn p d org kIncomeAccounts ''credit'' quarter_start quarter_end True) (\<lambda>accrued_tiyn.
     rbind (sum_line_amount_tiyn p d org kVatDeductibleAccounts ''debit'' quarter_start quarter_end True) (\<lambda>deductible_tiyn.
     rbind (tax_ll (accrued_tiyn - deductible_tiyn)) (\<lambda>balance_tiyn.
     rbind (sum_line_amount_tiyn p d org kIncomeAccounts ''credit'' quarter_start quarter_end False) (\<lambda>income_tiyn.
     let base = [(''period_from'', JStr quarter_start), (''period_to'', JStr quarter_end),
                 (''income_accounts'', JArr (map JStr kIncomeAccounts)),
                 (''deductible_accounts'', JArr (map JStr kVatDeductibleAccounts))];
         inp = object (case rate_on (ref_rates ref) kVat quarter_end [] of
                         None \<Rightarrow> base
                       | Some r \<Rightarrow> base @ [(''vat_rate_bp'', JInt (rate_bp r))])
     in upsert p (organizations d) new_id now org ''vat'' quarter_start quarter_end inp
          (object [(''accrued_tiyn'', JInt accrued_tiyn), (''deductible_tiyn'', JInt deductible_tiyn),
                   (''balance_tiyn'', JInt balance_tiyn), (''income_tiyn'', JInt income_tiyn)])
          balance_tiyn cs))))"

definition vat_alert :: "int \<Rightarrow> int \<Rightarrow> Alert" where
  "vat_alert income_tiyn threshold =
     \<lparr>al_kind = ''vat_registration'',
      al_message = ''12-month income ('' @ to_string income_tiyn @
        '' tiyn) is approaching or over the VAT registration threshold ('' @ to_string threshold @ '' tiyn) '' @ utf8 [8212] @ '' '' @ utf8 [1053, 1050] @ '' '' @ utf8 [1056, 1050] @ '' '' @ utf8 [1089, 1090] @ ''.99 '' @ utf8 [1087] @ ''.4 '' @ utf8 [1087, 1087] @ ''.2 / '' @ utf8 [1089, 1090] @ ''.101 '' @ utf8 [1087] @ ''.3'',
      al_current_tiyn = income_tiyn, al_threshold_tiyn = threshold\<rparr>"

definition snr_alert :: "int \<Rightarrow> int \<Rightarrow> Alert" where
  "snr_alert income_tiyn threshold =
     \<lparr>al_kind = ''snr_limit'',
      al_message = ''12-month income ('' @ to_string income_tiyn @
        '' tiyn) is approaching or over the SNR simplified-declaration income limit ('' @ to_string threshold @ '' tiyn) '' @ utf8 [8212] @ '' '' @ utf8 [1053, 1050] @ '' '' @ utf8 [1056, 1050] @ '' '' @ utf8 [1089, 1090] @ ''.722'',
      al_current_tiyn = income_tiyn, al_threshold_tiyn = threshold\<rparr>"

definition threshold_alerts :: "pg \<Rightarrow> tax_ref \<Rightarrow> db \<Rightarrow> string \<Rightarrow> string \<Rightarrow> tax_error + Alert list" where
  "threshold_alerts p ref d org on_date =
     rbind (subtract_one_year on_date) (\<lambda>period_from.
     rbind (sum_line_amount_tiyn p d org kIncomeAccounts ''credit'' period_from on_date False) (\<lambda>income_tiyn.
     case constant_on (ref_constants ref) ''vat_threshold_tenge'' on_date of
       None \<Rightarrow> Inl MissingTaxReference
     | Some vat_threshold \<Rightarrow>
         rbind (is_near_or_over income_tiyn (value_tiyn vat_threshold)) (\<lambda>near_vat.
         case (constant_on (ref_constants ref) ''mrp'' on_date, constant_on (ref_constants ref) ''snr_income_limit_mrp'' on_date) of
           (Some mrp, Some limit) \<Rightarrow>
             (case value_units limit of
                None \<Rightarrow> Inl MissingTaxReference
              | Some units \<Rightarrow>
                  rbind (tax_ll (value_tiyn mrp * units)) (\<lambda>snr_threshold_tiyn.
                  rbind (is_near_or_over income_tiyn snr_threshold_tiyn) (\<lambda>near_snr.
                  Inr ((if near_vat then [vat_alert income_tiyn (value_tiyn vat_threshold)] else []) @
                       (if near_snr then [snr_alert income_tiyn snr_threshold_tiyn] else [])))))
         | _ \<Rightarrow> Inl MissingTaxReference)))"

end
