(* ===== verification/TaxProperties.thy ===== *)
theory TaxProperties
  imports TaxService JournalProperties
begin

text \<open>
  What the tax calculations owe to the journal: the income of a period is the sum over its
  posted entries, and a storno changes it by what its original booked; and what a stored
  calculation says.
\<close>

section \<open>Sums by entry\<close>

definition booked :: "string list \<Rightarrow> string \<Rightarrow> line_row list \<Rightarrow> int" where
  "booked accts sd ls = sum_list (map l_amount (filter (\<lambda>l. l_side l = sd \<and> l_account l \<in> set accts) ls))"

definition counted :: "string \<Rightarrow> string \<Rightarrow> string \<Rightarrow> entry_row \<Rightarrow> bool" where
  "counted org pf pt e \<longleftrightarrow> e_org e = org \<and> e_status e = ''posted'' \<and> pf \<le> e_date e \<and> e_date e \<le> pt"

definition income :: "db \<Rightarrow> string \<Rightarrow> string list \<Rightarrow> string \<Rightarrow> string \<Rightarrow> string \<Rightarrow> int" where
  "income d org accts sd pf pt = sum_list (map (\<lambda>e. booked accts sd (lines_of d (e_id e))) (filter (counted org pf pt) (entries d)))"

lemma sum_matching:
  "sum_list (map f (concat (map (\<lambda>e. if C e \<and> Q e then [l] else []) es))) = sum_list (map (\<lambda>e. if Q e then f l else 0) (filter C es))"
  for f :: "'l \<Rightarrow> int"
  by (induction es) simp_all

lemma sum_line_income_eq:
  assumes "\<forall>l \<in> set ls. \<forall>e \<in> set es. e_id e = l_entry l \<longrightarrow> e_org e = l_org l"
  shows "sum_list (map l_amount [l. l \<leftarrow> ls, e \<leftarrow> es, e_id e = l_entry l \<and> e_org e = l_org l \<and> l_org l = org \<and>
           e_status e = ''posted'' \<and> l_side l = sd \<and> pf \<le> e_date e \<and> e_date e \<le> pt \<and> l_account l \<in> set accts]) =
         sum_list (map (\<lambda>e. booked accts sd (filter (\<lambda>l. l_entry l = e_id e) ls)) (filter (counted org pf pt) es))"
  using assms
proof (induction ls)
  case (Cons l ls)
  have e: "sum_list (map l_amount (concat (map (\<lambda>e. if e_id e = l_entry l \<and> e_org e = l_org l \<and> l_org l = org \<and>
           e_status e = ''posted'' \<and> l_side l = sd \<and> pf \<le> e_date e \<and> e_date e \<le> pt \<and> l_account l \<in> set accts then [l] else []) es))) =
      sum_list (map (\<lambda>e. if l_entry l = e_id e \<and> l_side l = sd \<and> l_account l \<in> set accts then l_amount l else 0) (filter (counted org pf pt) es))"
  proof -
    have c: "(e_id e = l_entry l \<and> e_org e = l_org l \<and> l_org l = org \<and> e_status e = ''posted'' \<and> l_side l = sd \<and>
          pf \<le> e_date e \<and> e_date e \<le> pt \<and> l_account l \<in> set accts) \<longleftrightarrow>
        counted org pf pt e \<and> (l_entry l = e_id e \<and> l_side l = sd \<and> l_account l \<in> set accts)" if "e \<in> set es" for e
      using Cons.prems that by (simp add: counted_def) metis
    show ?thesis by (simp only: c sum_matching cong: map_cong)
  qed
  have "booked accts sd (filter (\<lambda>k. l_entry k = i) (l # ls)) =
      (if l_entry l = i \<and> l_side l = sd \<and> l_account l \<in> set accts then l_amount l else 0) + booked accts sd (filter (\<lambda>k. l_entry k = i) ls)" for i
    by (simp add: booked_def)
  then show ?case using Cons e by (simp add: sum_list_addf)
qed (simp add: booked_def)

lemma summed_income:
  assumes "keys_ok d"
  shows "sum_list (List.map_filter (sum_column False) (summed_lines d org accts sd pf pt)) = income d org accts sd pf pt"
proof -
  have m: "List.map_filter (sum_column False) ls = map l_amount ls" for ls
    by (induction ls) (simp_all add: List.map_filter_def sum_column_def)
  have "e_org e = l_org l" if l: "l \<in> set (jlines d)" and e: "e \<in> set (entries d)" "e_id e = l_entry l" for l e
  proof -
    obtain x where x: "x \<in> set (entries d)" "e_id x = l_entry l" "e_org x = l_org l"
      using assms l unfolding keys_ok_def by blast
    then show ?thesis using key_eqD [OF keys_okD(1) [OF assms], of e x] e by simp
  qed
  then show ?thesis
    unfolding m summed_lines_def income_def lines_of_def by (intro sum_line_income_eq) blast
qed

lemma sum_line_income:
  assumes "sum_line_amount_tiyn p d org accts sd period_from period_to False = Inr s" and "keys_ok d"
    and "date_in p period_from = Some pf" and "date_in p period_to = Some pt"
  shows "s = income d org accts sd pf pt"
  using assms by (auto simp: sum_line_amount_tiyn_def Let_def summed_income split: if_splits)

section \<open>Mirrored lines\<close>

definition booked_content :: "string list \<Rightarrow> string \<Rightarrow> (string \<times> string \<times> int \<times> string option \<times> int option) multiset \<Rightarrow> int" where
  "booked_content accts sd M = (\<Sum>(a, s, n, _, _) \<in># M. if s = sd \<and> a \<in> set accts then n else 0)"

lemma booked_content: "booked accts sd ls = booked_content accts sd (mset (map line_content ls))"
  by (induction ls) (auto simp: booked_def booked_content_def line_content_def)

lemma booked_mirrored:
  "\<forall>l \<in> set ls. line_ok l \<Longrightarrow>
     booked_content accts ''credit'' (mset (map (\<lambda>l. line_content (mirrored l)) ls)) = booked accts ''debit'' ls"
  by (induction ls)
     (auto simp: booked_def booked_content_def line_content_def mirrored_def mirrored_side_def line_ok_def)

lemma booked_mirror_of:
  "mirror_of ls ms \<Longrightarrow> \<forall>l \<in> set ls. line_ok l \<Longrightarrow> booked accts ''credit'' ms = booked accts ''debit'' ls"
  using booked_mirrored [of ls accts] by (simp add: booked_content [of accts "''credit''" ms] mirror_of_def)

section \<open>A storno and the income of a period\<close>

lemma counted_reversed:
  assumes "distinct (map e_id es)" and "r \<in> set es" and "counted org pf pt r"
    and "\<forall>e \<in> set es. f (e\<lparr>e_status := ''reversed''\<rparr>) = f e"
  shows "sum_list (map f (filter (counted org pf pt) (set_status (e_id r) ''reversed'' es))) =
    sum_list (map f (filter (counted org pf pt) es)) - (f r :: int)"
proof -
  have split: "sum_list (map f (filter C xs)) =
      sum_list (map f (filter (\<lambda>e. e_id e = e_id r \<and> C e) xs)) + sum_list (map f (filter (\<lambda>e. e_id e \<noteq> e_id r \<and> C e) xs))"
    for C :: "entry_row \<Rightarrow> bool" and xs
    by (induction xs) simp_all
  have "filter (counted org pf pt) (set_status (e_id r) ''reversed'' xs) = filter (\<lambda>e. e_id e \<noteq> e_id r \<and> counted org pf pt e) xs" for xs
    by (induction xs) (simp_all add: counted_def)
  then show ?thesis
    using split [of "counted org pf pt" es] filter_distinct_key [where P = "counted org pf pt", OF assms(1,2,3)] by simp
qed

lemma reversal_income:
  assumes "reverse_txn p gen now org user original ls d = Inr (e, d')" and ok: "journal_ok d"
    and f: "flight_ok p d (org, original, ls)" and pg: "pg_ok p"
    and r: "r \<in> set (entries d)" "e_id r = je_id original" "pf \<le> e_date r" "e_date r \<le> pt"
    and e: "pf \<le> entry_date e" "entry_date e \<le> pt"
  shows "income d' org accts ''credit'' pf pt =
    income d org accts ''credit'' pf pt - booked accts ''credit'' (lines_of d (je_id original)) +
    booked accts ''debit'' (lines_of d (je_id original))"
proof -
  obtain ols where o: "ls = map (JournalLine_from_row p) ols" "mset ols = mset (lines_of d (je_id original))"
      "2 \<le> length ls" "je_id original \<in> e_id ` set (entries d)" "\<forall>l \<in> set ols. line_ok l"
    by (rule flight_okE [OF f ok])
  have k: "keys_ok d" using ok by (simp add: journal_ok_def)
  have ne: "ls \<noteq> []" using o(3) by auto
  obtain er rows x where n: "new_entry p org mirrored_side now ls d er rows"
    and x: "x \<in> set (entries d)" "e_id x = je_id original" "e_org x = org" "e_status x = ''posted''"
    and d': "d' = d\<lparr>entries := set_status (je_id original) ''reversed'' (entries d) @ [er\<lparr>e_status := ''posted''\<rparr>],
               jlines := jlines d @ rows\<rparr>"
    and e': "e = (JournalEntry_from_row (er\<lparr>e_status := ''posted''\<rparr>))\<lparr>lines := map (JournalLine_from_row p) rows\<rparr>"
    by (rule reverse_txn_spec [OF assms(1) keys_okD(2,1,3) [OF k] ne o(4)])
  have xr: "x = r" using key_eqD [OF keys_okD(1) [OF k] _ x(1) r(1)] x(2) r(2) by simp
  have cr: "counted org pf pt r" using x r xr by (simp add: counted_def)
  have ce: "counted org pf pt (er\<lparr>e_status := ''posted''\<rparr>)"
    using n e by (simp add: counted_def new_entry_def e' JournalEntry_from_row_def)
  have lines: "lines_of d' i = (if i = e_id er then rows else lines_of d i)" for i
    unfolding d' by (rule new_entry_lines [OF n keys_okD(3) [OF k]])
  have fresh: "e_id y \<noteq> e_id er" if "y \<in> set (entries d)" for y using n that by (metis new_entry_def imageI)
  have "map line_content rows = map (\<lambda>l. line_content (mirrored l)) ols"
    using n [unfolded o(1)] o(5) by (rule mirror_of_new) (use pg in \<open>unfold pg_ok_def, blast\<close>)
  moreover have "mset (map g ols) = mset (map g (lines_of d (je_id original)))" for g :: "line_row \<Rightarrow> 'b"
    by (simp add: o(2))
  ultimately have m: "mirror_of (lines_of d (je_id original)) rows" unfolding mirror_of_def by metis
  have "income d' org accts ''credit'' pf pt =
      sum_list (map (\<lambda>y. booked accts ''credit'' (lines_of d' (e_id y)))
        (filter (counted org pf pt) (set_status (e_id r) ''reversed'' (entries d)))) + booked accts ''credit'' rows"
    using ce lines [of "e_id er"] by (simp add: income_def d' r(2))
  also have "sum_list (map (\<lambda>y. booked accts ''credit'' (lines_of d' (e_id y)))
        (filter (counted org pf pt) (set_status (e_id r) ''reversed'' (entries d)))) =
      sum_list (map (\<lambda>y. booked accts ''credit'' (lines_of d' (e_id y))) (filter (counted org pf pt) (entries d))) -
      booked accts ''credit'' (lines_of d' (e_id r))"
    by (rule counted_reversed [OF keys_okD(1) [OF k] r(1) cr]) simp
  also have "sum_list (map (\<lambda>y. booked accts ''credit'' (lines_of d' (e_id y))) (filter (counted org pf pt) (entries d))) =
      income d org accts ''credit'' pf pt"
    unfolding income_def using fresh lines by (intro arg_cong [of _ _ sum_list] map_cong refl) simp
  also have "lines_of d' (e_id r) = lines_of d (je_id original)" using lines fresh [OF r(1)] r(2) by simp
  finally show ?thesis
    using booked_mirror_of [OF m lines_of_ok [OF ok], of accts] by simp
qed

text \<open>
  a storno and the income the taxes are computed from. When a posted entry of a reachable
  journal is reversed, the income summed over a period that contains both entries falls by what
  the original credited to the income accounts, and rises by what it debited to them: the storno
  of a sale withdraws the sale, and the storno of a refund (a debit of income) is counted as new
  income although the refund itself was never subtracted.
\<close>

theorem storno_changes_income:
  assumes "jreach p s" and "pg_ok p" and "find_entry (store s) i org = Some original"
    and "reverse_entry p gen now org i user (store s) = Inr (Some e, d')"
    and "date_in p period_from = Some pf" and "date_in p period_to = Some pt"
    and "pf \<le> entry_date original" and "entry_date original \<le> pt" and "pf \<le> entry_date e" and "entry_date e \<le> pt"
    and "sum_line_amount_tiyn p (store s) org accts ''credit'' period_from period_to False = Inr before"
    and "sum_line_amount_tiyn p d' org accts ''credit'' period_from period_to False = Inr aft"
  shows "aft = before - booked accts ''credit'' (lines_of (store s) i) + booked accts ''debit'' (lines_of (store s) i)"
proof -
  have sys: "sys_ok p s" using jreach_ok [OF assms(1,2)] .
  then have ok: "journal_ok (store s)" by (simp add: sys_ok_def)
  have g: "reverse_guard p (store s) org i = Inr (Some (original, load_lines p (store s) original))"
    and t: "reverse_txn p gen now org user original (load_lines p (store s) original) (store s) = Inr (e, d')"
    using assms(3,4) by (auto simp: reverse_entry_def reverse_guard_def split: if_splits)
  have f: "flight_ok p (store s) (org, original, load_lines p (store s) original)"
    using jstep_ok [OF jstep.reverse_begin [OF g] sys assms(2)] by (simp add: sys_ok_def flight_ok_def)
  obtain r where r: "r \<in> set (entries (store s))" "e_id r = i" "original = JournalEntry_from_row r"
    using assms(3) unfolding find_entry_def by (rule find_in_org_SomeD)
  then have o: "je_id original = i" "entry_date original = e_date r" by (simp_all add: JournalEntry_from_row_def)
  have ok': "journal_ok d'" using reverse_txn_ok [OF t ok f assms(2)] by simp
  have "before = income (store s) org accts ''credit'' pf pt" "aft = income d' org accts ''credit'' pf pt"
    using sum_line_income [OF assms(11) _ assms(5,6)] sum_line_income [OF assms(12) _ assms(5,6)] ok ok'
    by (simp_all add: journal_ok_def)
  then show ?thesis
    using reversal_income [OF t ok f assms(2) r(1) _ _ _ assms(9,10), of accts] assms(7,8) r(2) o by simp
qed

text \<open>A refund of 100 tenge, booked as a debit of income, and its storno.\<close>

definition refund_db :: "string \<Rightarrow> db" where
  "refund_db st = demo_d0
     \<lparr>entries := [demo_entry ''a0'' st ''refund'' None],
      jlines := [demo_row ''a1'' ''a0'' ''6010'' ''debit'', demo_row ''a2'' ''a0'' ''1010'' ''credit'']\<rparr>"

definition refund_reversed :: db where
  "refund_reversed = demo_d0
     \<lparr>entries := [demo_entry ''a0'' ''reversed'' ''refund'' None,
                  demo_entry ''b0'' ''posted'' (storno_prefix @ ''refund'') (Some ''a0'')],
      jlines := [demo_row ''a1'' ''a0'' ''6010'' ''debit'', demo_row ''a2'' ''a0'' ''1010'' ''credit'',
                 demo_row ''b1'' ''b0'' ''6010'' ''credit'', demo_row ''b2'' ''b0'' ''1010'' ''debit'']\<rparr>"

lemma refund_reach: "jreach pg_text \<lparr>store = refund_db ''posted'', in_flight = []\<rparr>"
proof -
  have s0: "jreach pg_text \<lparr>store = demo_d0, in_flight = []\<rparr>" by (rule jreach.start) (simp_all add: demo_d0_def)
  have "\<exists>e. create_draft pg_text demo_d0 (demo_gen (CHR ''a'')) 0 ''o'' ''u'' ''2026-01-31'' ''refund''
      [demo_line ''6010'' ''debit'', demo_line ''1010'' ''credit''] demo_d0 = Inr (e, refund_db ''draft'')"
    by (simp add: create_draft_def refund_db_def demo_defs sql_defs parse_demo pg_text_demo demo_gen_simps in_ll_def find_visible_def
        JournalEntry_from_row_def JournalLine_from_row_def Let_def)
  then obtain e1 where c: "create_draft pg_text demo_d0 (demo_gen (CHR ''a'')) 0 ''o'' ''u'' ''2026-01-31'' ''refund''
      [demo_line ''6010'' ''debit'', demo_line ''1010'' ''credit''] demo_d0 = Inr (e1, refund_db ''draft'')" by blast
  have "\<exists>e. post_txn pg_text ''o'' ''a0'' (refund_db ''draft'') = Inr (e, refund_db ''posted'')"
    by (simp add: post_txn_def refund_db_def demo_defs sql_defs Let_def)
  then obtain e2 where po: "post_txn pg_text ''o'' ''a0'' (refund_db ''draft'') = Inr (e2, refund_db ''posted'')" by blast
  have s1: "jreach pg_text \<lparr>store = refund_db ''draft'', in_flight = []\<rparr>"
    using jreach.step [OF s0 jstep.draft [of pg_text demo_d0 "demo_gen (CHR ''a'')" 0 "''o''" "''u''" "''2026-01-31''" "''refund''"
      "[demo_line ''6010'' ''debit'', demo_line ''1010'' ''credit'']"]] c by simp
  show ?thesis
    using jreach.step [OF s1 jstep.post [of pg_text "''o''" "''a0''"]] po by simp
qed

definition refund_entry :: JournalEntry where
  "refund_entry = JournalEntry_from_row (demo_entry ''a0'' ''posted'' ''refund'' None)"

lemma refund_found: "find_entry (refund_db ''posted'') ''a0'' ''o'' = Some refund_entry"
  by (simp add: find_entry_def find_in_org_def refund_entry_def refund_db_def demo_entry_def)

lemma refund_reverse:
  obtains e where "reverse_entry pg_text (demo_gen (CHR ''b'')) 0 ''o'' ''a0'' ''u'' (refund_db ''posted'') = Inr (Some e, refund_reversed)"
    and "entry_date e = ''2026-01-31''"
proof -
  have "reverse_guard pg_text (refund_db ''posted'') ''o'' ''a0'' = Inr (Some (refund_entry, map (JournalLine_from_row pg_text)
      [demo_row ''a1'' ''a0'' ''6010'' ''debit'', demo_row ''a2'' ''a0'' ''1010'' ''credit'']))"
    by (simp add: reverse_guard_def refund_found)
       (simp add: refund_entry_def refund_db_def demo_defs JournalEntry_from_row_def load_lines_def lines_of_def)
  moreover have "\<exists>e. reverse_txn pg_text (demo_gen (CHR ''b'')) 0 ''o'' ''u'' refund_entry (map (JournalLine_from_row pg_text)
      [demo_row ''a1'' ''a0'' ''6010'' ''debit'', demo_row ''a2'' ''a0'' ''1010'' ''credit'']) (refund_db ''posted'') =
      Inr (e, refund_reversed) \<and> entry_date e = ''2026-01-31''"
    by (simp add: reverse_txn_def refund_entry_def refund_db_def demo_defs refund_reversed_def sql_defs pg_text_demo demo_gen_simps
        JournalEntry_from_row_def JournalLine_from_row_def mirrored_side_def Let_def)
  ultimately show thesis using that by (auto simp: reverse_entry_def)
qed

theorem storno_changes_income_witness:
  "\<exists>e d'. reverse_entry pg_text (demo_gen (CHR ''b'')) 0 ''o'' ''a0'' ''u'' (refund_db ''posted'') = Inr (Some e, d') \<and>
     sum_line_amount_tiyn pg_text (refund_db ''posted'') ''o'' kIncomeAccounts ''credit'' ''2026-01-01'' ''2026-06-30'' False = Inr 0 \<and>
     sum_line_amount_tiyn pg_text d' ''o'' kIncomeAccounts ''credit'' ''2026-01-01'' ''2026-06-30'' False = Inr 10000 \<and>
     booked kIncomeAccounts ''debit'' (lines_of (refund_db ''posted'') ''a0'') -
     booked kIncomeAccounts ''credit'' (lines_of (refund_db ''posted'') ''a0'') = 10000"
proof -
  obtain e where e: "reverse_entry pg_text (demo_gen (CHR ''b'')) 0 ''o'' ''a0'' ''u'' (refund_db ''posted'') = Inr (Some e, refund_reversed)"
      "entry_date e = ''2026-01-31''" by (rule refund_reverse)
  have d: "''2026-01-01'' \<le> (''2026-01-31'' :: string)" "''2026-01-31'' \<le> (''2026-06-30'' :: string)"
    by (simp_all add: less_char_def)
  have o: "entry_date refund_entry = ''2026-01-31''" by (simp add: refund_entry_def demo_entry_def JournalEntry_from_row_def)
  have b: "sum_line_amount_tiyn pg_text (refund_db ''posted'') ''o'' kIncomeAccounts ''credit'' ''2026-01-01'' ''2026-06-30'' False = Inr 0"
    by (simp add: sum_line_amount_tiyn_def summed_lines_def pg_text_demo refund_db_def demo_defs kIncomeAccounts_def List.map_filter_def in_ll_def)
  have a: "sum_line_amount_tiyn pg_text refund_reversed ''o'' kIncomeAccounts ''credit'' ''2026-01-01'' ''2026-06-30'' False = Inr 10000"
    by (simp add: sum_line_amount_tiyn_def summed_lines_def pg_text_demo refund_reversed_def demo_defs kIncomeAccounts_def List.map_filter_def
        sum_column_def in_ll_def d)
  have "10000 = 0 - booked kIncomeAccounts ''credit'' (lines_of (refund_db ''posted'') ''a0'') +
      booked kIncomeAccounts ''debit'' (lines_of (refund_db ''posted'') ''a0'')"
    using storno_changes_income [OF refund_reach pg_text_ok, of "''a0''" "''o''" refund_entry "demo_gen (CHR ''b'')" 0 "''u''" e
        refund_reversed "''2026-01-01''" "''2026-01-01''" "''2026-06-30''" "''2026-06-30''" kIncomeAccounts 0 10000]
      refund_found e d o a b by (simp add: pg_text_demo)
  then show ?thesis using e a b by (intro exI [of _ e] exI [of _ refund_reversed]) simp
qed

section \<open>Stored calculations\<close>

definition calculations_ok :: "Calculation list \<Rightarrow> bool" where
  "calculations_ok cs \<longleftrightarrow>
     distinct (map calc_id cs) \<and> distinct (map (\<lambda>c. (calc_org c, calc_kind c, calc_from c, calc_to c)) cs)"

lemma upsert_spec:
  assumes "upsert p orgs new_id now org kind period_from period_to inp res tot cs = Inr (c, cs')" and "calculations_ok cs"
  obtains pf pt where "date_in p period_from = Some pf" and "date_in p period_to = Some pt" and "pf \<le> pt"
    and "same_period org kind pf pt c" and "input_snapshot c = inp" and "result_snapshot c = res" and "total_tiyn c = tot"
    and "filter (same_period org kind pf pt) cs' = [c]"
    and "filter (\<lambda>x. \<not> same_period org kind pf pt x) cs' = filter (\<lambda>x. \<not> same_period org kind pf pt x) cs"
    and "calculations_ok cs'"
proof -
  obtain pf pt where d: "date_in p period_from = Some pf" "date_in p period_to = Some pt" "pf \<le> pt"
    using assms(1) by (auto simp: upsert_def not_less split: option.splits if_splits)
  define Q where "Q = same_period org kind pf pt"
  define key :: "Calculation \<Rightarrow> string \<times> string \<times> string \<times> string" where
    "key = (\<lambda>c. (calc_org c, calc_kind c, calc_from c, calc_to c))"
  have Q: "Q x \<longleftrightarrow> key x = (org, kind, pf, pt)" for x by (auto simp: Q_def key_def same_period_def)
  show thesis
  proof (cases "find Q cs")
    case None
    then have c: "c = \<lparr>calc_id = new_id, calc_org = org, calc_kind = kind, calc_from = pf, calc_to = pt, computed_at = now,
        input_snapshot = inp, result_snapshot = res, total_tiyn = tot\<rparr>" and cs': "cs' = cs @ [c]" and new: "new_id \<notin> calc_id ` set cs"
      using assms(1) d by (auto simp: upsert_def Q_def Let_def split: if_splits)
    have n: "\<forall>x \<in> set cs. \<not> Q x" using None by (auto simp: find_None_iff)
    have Qc: "Q c" by (simp add: Q_def same_period_def c)
    have "key c \<notin> key ` set cs" using n Qc by (auto simp: Q)
    then have "calculations_ok cs'" using assms(2) new c by (auto simp: calculations_ok_def cs' key_def)
    moreover have "filter Q cs = []" "filter (\<lambda>x. \<not> Q x) cs = cs" using n by (auto simp: filter_empty_conv filter_id_conv)
    ultimately show thesis using that [of pf pt] d Qc unfolding cs' Q_def by (simp add: c)
  next
    case (Some x)
    then have x: "x \<in> set cs" "Q x" by (auto simp: find_Some_iff)
    have c: "c = x\<lparr>computed_at := now, input_snapshot := inp, result_snapshot := res, total_tiyn := tot\<rparr>"
      and cs': "cs' = map (\<lambda>y. if Q y then c else y) cs"
      using assms(1) d Some by (auto simp: upsert_def Q_def Let_def split: if_splits)
    have ck: "key c = key x" "calc_id c = calc_id x" by (simp_all add: c key_def)
    have only: "y = x" if "y \<in> set cs" "Q y" for y
      using key_eqD [of key cs y x] assms(2) that x by (simp add: calculations_ok_def key_def Q)
    have "map key cs' = map key cs" "map calc_id cs' = map calc_id cs"
      unfolding cs' using ck only by auto
    then have ok: "calculations_ok cs'" using assms(2) by (simp add: calculations_ok_def key_def)
    have Qc: "Q c" using x(2) ck by (simp add: Q)
    have "filter Q cs' = map (\<lambda>_. c) (filter Q cs)" unfolding cs' using Qc by (induction cs) simp_all
    moreover have "filter Q cs = [x]"
    proof -
      have "filter Q cs = filter (\<lambda>y. calc_id y = calc_id x \<and> Q y) cs"
        using only by (intro filter_cong refl) blast
      then show ?thesis using filter_distinct_key [where P = Q and id_col = calc_id] x assms(2) by (simp add: calculations_ok_def)
    qed
    moreover have "filter (\<lambda>x. \<not> Q x) cs' = filter (\<lambda>x. \<not> Q x) cs" unfolding cs' using Qc by (induction cs) simp_all
    ultimately show thesis using that [of pf pt] d Qc ok unfolding Q_def by (simp add: c)
  qed
qed


definition old_vat :: Calculation where
  "old_vat = \<lparr>calc_id = ''k1'', calc_org = ''o'', calc_kind = ''vat'', calc_from = ''2026-01-01'', calc_to = ''2026-03-31'',
     computed_at = 0, input_snapshot = JNull, result_snapshot = JNull, total_tiyn = 77\<rparr>"


end
