(* ===== verification/TaxForms.thy ===== *)
theory TaxForms
  imports TaxService
begin

text \<open>
  Model of \<^verbatim>\<open>src/src/tax/FnoXml.hpp\<close>, \<^verbatim>\<open>src/src/tax/Fno300.hpp\<close> and \<^verbatim>\<open>src/src/tax/Fno910.hpp\<close>: the XML
  of the tax declarations built from a stored calculation. A declaration is built in three
  parts, as in the code: the sheet of official fields, a summary, and the document around them.

  \<open>read_fields\<close> reads a sheet back; it is not part of the program, it states what a sheet says.
\<close>

datatype form_error = WrongKind | ForeignCalculation | JsonTypeError | MalformedPeriod | BadMonthText text_error | FormOverflow

record OrgInfo =
  oi_org_id :: string
  oi_bin :: string
  oi_name :: string
  oi_tax_period_year :: string
  oi_tax_period_half :: string

definition OrgInfo_to_json :: "OrgInfo \<Rightarrow> json" where
  "OrgInfo_to_json o' =
     object [(''bin'', JStr (oi_bin o')), (''name'', JStr (oi_name o')),
             (''tax_period_year'', JStr (oi_tax_period_year o')), (''tax_period_half'', JStr (oi_tax_period_half o'))]"

section \<open>FnoXml\<close>

definition escape_char :: "char \<Rightarrow> string" where
  "escape_char c =
     (if c = CHR ''&'' then ''&amp;''
      else if c = CHR ''<'' then ''&lt;''
      else if c = CHR ''>'' then ''&gt;''
      else if c = CHR 0x22 then ''&quot;''
      else if c = CHR 0x27 then ''&apos;''
      else [c])"

fun escape :: "string \<Rightarrow> string" where
  "escape [] = []"
| "escape (c # text) = escape_char c @ escape text"

definition round_half_up_to_tenge :: "int \<Rightarrow> int" where
  "round_half_up_to_tenge tiyn =
     (let q = cdiv tiyn 100; r = cmod tiyn 100
      in if r \<ge> 50 then q + 1 else if r \<le> -50 then q - 1 else q)"

definition tenge_amount :: "int \<Rightarrow> string" where
  "tenge_amount tiyn = to_string (round_half_up_to_tenge tiyn)"

definition field :: "string \<Rightarrow> string \<Rightarrow> string" where
  \<open>field name val = ''<field name="'' @ name @ ''">'' @ escape val @ ''</field>''\<close>

definition numeric_field :: "string \<Rightarrow> int \<Rightarrow> string" where
  "numeric_field name n = field name (to_string n)"

definition identity_fields :: "OrgInfo \<Rightarrow> string" where
  "identity_fields org = field ''iin'' (oi_bin org) @ field ''rnn'' (oi_bin org) @ field ''payer_name1'' (oi_name org)"

text \<open>\<open>snapshot.value(key, 0LL)\<close>; a snapshot holds no other numbers than integers.\<close>

definition value_ll :: "json \<Rightarrow> string \<Rightarrow> form_error + int" where
  "value_ll j k =
     (case j of
        JObj m \<Rightarrow> (case map_of m k of None \<Rightarrow> Inr 0 | Some (JInt n) \<Rightarrow> Inr n | Some _ \<Rightarrow> Inl JsonTypeError)
      | _ \<Rightarrow> Inl JsonTypeError)"

definition guard_org :: "string \<Rightarrow> Calculation \<Rightarrow> OrgInfo \<Rightarrow> form_error + unit" where
  "guard_org kind calc org =
     (if calc_kind calc \<noteq> kind then Inl WrongKind
      else if calc_org calc \<noteq> oi_org_id org then Inl ForeignCalculation
      else Inr ())"

section \<open>Fno300\<close>

definition quarter_from_period_from :: "string \<Rightarrow> form_error + int" where
  "quarter_from_period_from period_from =
     (if length period_from < 7 then Inl MalformedPeriod
      else
        (case stoi (take 2 (drop 5 period_from)) of
           Inl e \<Rightarrow> Inl (BadMonthText e)
         | Inr month \<Rightarrow> Inr (cdiv (month - 1) 3 + 1)))"

definition sheet_300 :: "OrgInfo \<Rightarrow> int \<Rightarrow> int \<Rightarrow> int \<Rightarrow> int \<Rightarrow> int \<Rightarrow> string" where
  "sheet_300 org quarter accrued_tiyn deductible_tiyn to_pay_tiyn to_refund_tiyn =
     identity_fields org @
     field ''period_year'' (oi_tax_period_year org) @
     field ''period_quarter'' (to_string quarter) @
     field ''currency_code'' ''KZT'' @
     field ''dt_regular'' ''true'' @
     numeric_field ''field_300_00_012'' (round_half_up_to_tenge accrued_tiyn) @
     numeric_field ''field_300_00_023'' (round_half_up_to_tenge deductible_tiyn) @
     numeric_field ''field_300_00_030_01'' (round_half_up_to_tenge to_pay_tiyn) @
     numeric_field ''field_300_00_030_02'' (round_half_up_to_tenge to_refund_tiyn)"

definition summary_300 :: "Calculation \<Rightarrow> int \<Rightarrow> int \<Rightarrow> int \<Rightarrow> int \<Rightarrow> int \<Rightarrow> string" where
  \<open>summary_300 calc accrued_tiyn deductible_tiyn balance_tiyn to_pay_tiyn to_refund_tiyn =
     ''<calcSummary xmlns="urn:cyber-accountant:fno-summary">'' @
     ''<accruedTenge>'' @ tenge_amount accrued_tiyn @ ''</accruedTenge>'' @
     ''<deductibleTenge>'' @ tenge_amount deductible_tiyn @ ''</deductibleTenge>'' @
     ''<balanceTenge>'' @ tenge_amount balance_tiyn @ ''</balanceTenge>'' @
     ''<toPayTenge>'' @ tenge_amount to_pay_tiyn @ ''</toPayTenge>'' @
     ''<toRefundTenge>'' @ tenge_amount to_refund_tiyn @ ''</toRefundTenge>'' @
     ''<periodFrom>'' @ escape (calc_from calc) @ ''</periodFrom>'' @
     ''<periodTo>'' @ escape (calc_to calc) @ ''</periodTo>'' @
     ''</calcSummary>''\<close>

definition document :: "string \<Rightarrow> string \<Rightarrow> string \<Rightarrow> string \<Rightarrow> OrgInfo \<Rightarrow> string \<Rightarrow> string \<Rightarrow> string" where
  \<open>document code version form page org sheet summary =
     ''<?xml version="1.0" encoding="UTF-8"?>'' @
     ''<fno code="'' @ code @ ''" version="'' @ version @
     ''" formatVersion="1" schemaValidated="false" bin="'' @ escape (oi_bin org) @ ''">'' @
     ''<form name="'' @ form @ ''"><sheetGroup><sheet name="'' @ page @ ''">'' @ sheet @
     ''</sheet></sheetGroup></form>'' @ summary @ ''</fno>''\<close>

definition split_300 :: "int \<Rightarrow> form_error + int \<times> int" where
  "split_300 balance_tiyn =
     (if balance_tiyn < 0 \<and> \<not> in_ll (- balance_tiyn) then Inl FormOverflow
      else Inr (if balance_tiyn > 0 then balance_tiyn else 0, if balance_tiyn < 0 then - balance_tiyn else 0))"

definition build_xml_300 :: "Calculation \<Rightarrow> OrgInfo \<Rightarrow> form_error + string" where
  "build_xml_300 calc org =
     rbind (guard_org ''vat'' calc org) (\<lambda>_.
     rbind (value_ll (result_snapshot calc) ''accrued_tiyn'') (\<lambda>accrued_tiyn.
     rbind (value_ll (result_snapshot calc) ''deductible_tiyn'') (\<lambda>deductible_tiyn.
     rbind (split_300 (total_tiyn calc)) (\<lambda>(to_pay_tiyn, to_refund_tiyn).
     rbind (quarter_from_period_from (calc_from calc)) (\<lambda>quarter.
     Inr (document ''300.00'' ''29'' ''form_300_00'' ''page_300_00_01'' org
            (sheet_300 org quarter accrued_tiyn deductible_tiyn to_pay_tiyn to_refund_tiyn)
            (summary_300 calc accrued_tiyn deductible_tiyn (total_tiyn calc) to_pay_tiyn to_refund_tiyn)))))))"

section \<open>Fno910\<close>

definition sheet_910 :: "OrgInfo \<Rightarrow> int \<Rightarrow> string" where
  "sheet_910 org income_tiyn =
     identity_fields org @
     field ''period_year'' (oi_tax_period_year org) @
     field ''period_half_year'' (oi_tax_period_half org) @
     field ''currency_code'' ''KZT'' @
     field ''dt_regular'' ''true'' @
     numeric_field ''field_910_00_001'' (round_half_up_to_tenge income_tiyn)"

definition summary_910 :: "Calculation \<Rightarrow> int \<Rightarrow> int \<Rightarrow> string" where
  \<open>summary_910 calc income_tiyn bp =
     ''<calcSummary xmlns="urn:cyber-accountant:fno-summary">'' @
     ''<incomeTenge>'' @ tenge_amount income_tiyn @ ''</incomeTenge>'' @
     ''<rateBp>'' @ to_string bp @ ''</rateBp>'' @
     ''<taxTenge>'' @ tenge_amount (total_tiyn calc) @ ''</taxTenge>'' @
     ''<periodFrom>'' @ escape (calc_from calc) @ ''</periodFrom>'' @
     ''<periodTo>'' @ escape (calc_to calc) @ ''</periodTo>'' @
     ''</calcSummary>''\<close>

definition build_xml_910 :: "Calculation \<Rightarrow> OrgInfo \<Rightarrow> form_error + string" where
  "build_xml_910 calc org =
     rbind (guard_org ''snr_simplified'' calc org) (\<lambda>_.
     rbind (value_ll (result_snapshot calc) ''income_tiyn'') (\<lambda>income_tiyn.
     rbind (value_ll (result_snapshot calc) ''rate_bp'') (\<lambda>bp.
     Inr (document ''910.00'' ''27'' ''form_910_00'' ''page_910_00_01'' org
            (sheet_910 org income_tiyn) (summary_910 calc income_tiyn bp)))))"

section \<open>Escaping\<close>

definition special :: "char set" where
  "special = {CHR ''&'', CHR ''<'', CHR ''>'', CHR 0x22, CHR 0x27}"

definition entities :: "(string \<times> char) list" where
  "entities = [(''&amp;'', CHR ''&''), (''&lt;'', CHR ''<''), (''&gt;'', CHR ''>''), (''&quot;'', CHR 0x22), (''&apos;'', CHR 0x27)]"

function unescape :: "string \<Rightarrow> string" where
  "unescape s =
     (case s of
        [] \<Rightarrow> []
      | c # cs \<Rightarrow>
          (case find (\<lambda>(e, _). starts_with s e) entities of
             Some (e, x) \<Rightarrow> x # unescape (drop (length e) s)
           | None \<Rightarrow> c # unescape cs))"
  by pat_completeness auto
termination
  by (relation "measure length") (auto simp: find_Some_iff entities_def less_Suc_eq nth_Cons' starts_with_def split: if_splits)

declare unescape.simps [simp del]

lemma unescape_Nil [simp]: "unescape [] = []"
  by (simp add: unescape.simps)

lemma unescape_escape_char: "unescape (escape_char c @ s) = c # unescape s"
proof -
  have "find (\<lambda>(e, _). starts_with (c # s) e) entities = None" if "c \<noteq> CHR ''&''"
    using that by (simp add: entities_def starts_with_def)
  then show ?thesis
    by (auto simp: escape_char_def unescape.simps [of "_ # _"] entities_def starts_with_def)
qed

lemma unescape_escape [simp]: "unescape (escape s) = s"
  by (induction s) (simp_all add: unescape_escape_char)

lemma escape_clean: "set (escape s) \<inter> special \<subseteq> {CHR ''&''}"
  by (induction s) (auto simp: escape_char_def special_def)

lemma round_half_up_bounds: "\<bar>100 * round_half_up_to_tenge t - t\<bar> \<le> 50"
proof -
  obtain q r where qr: "cdiv t 100 = q" "cmod t 100 = r" and t: "t = 100 * q + r" and r: "\<bar>r\<bar> < 100"
  proof (cases "0 \<le> t")
    case True
    show thesis by (rule that [of "t div 100" "t mod 100"]) (use True in \<open>simp_all add: abs_if\<close>)
  next
    case False
    then have c: "cdiv t 100 = - ((- t) div 100)" by (simp add: cdiv_def)
    have m: "- t = 100 * ((- t) div 100) + (- t) mod 100" by (simp only: mult_div_mod_eq)
    have b: "0 \<le> (- t) mod 100" "(- t) mod 100 < 100" by simp_all
    have cm: "cmod t 100 = - ((- t) mod 100)" unfolding cmod_def c using m by linarith
    show thesis
    proof (rule that [of "- ((- t) div 100)" "- ((- t) mod 100)"])
      show "t = 100 * - ((- t) div 100) + - ((- t) mod 100)" using m by linarith
      show "\<bar>- ((- t) mod 100)\<bar> < 100" using b by linarith
    qed (rule c, rule cm)
  qed
  show ?thesis unfolding round_half_up_to_tenge_def qr Let_def using t r by auto
qed

section \<open>Reading a sheet back\<close>

definition read_field :: "string \<Rightarrow> ((string \<times> string) \<times> string) option" where
  \<open>read_field s =
     (let name = takeWhile (\<lambda>c. c \<noteq> CHR 0x22) (drop 13 s); s1 = drop (13 + length name) s;
          val = takeWhile (\<lambda>c. c \<noteq> CHR ''<'') (drop 2 s1); s2 = drop (2 + length val) s1
      in if starts_with s ''<field name="'' \<and> starts_with s1 ''">'' \<and> starts_with s2 ''</field>''
         then Some ((name, unescape val), drop 8 s2) else None)\<close>

lemma read_field_shorter: "read_field s = Some (f, rest) \<Longrightarrow> length rest < length s"
  by (cases "s = []") (auto simp: read_field_def Let_def starts_with_def split: if_splits)

function read_fields :: "string \<Rightarrow> (string \<times> string) list option" where
  "read_fields s =
     (if s = [] then Some []
      else
        (case read_field s of
           None \<Rightarrow> None
         | Some (f, rest) \<Rightarrow> map_option ((#) f) (read_fields rest)))"
  by pat_completeness auto
termination
  by (relation "measure length") (auto dest: read_field_shorter [OF sym] read_field_shorter)

declare read_fields.simps [simp del]

lemma starts_with_append [simp]:
  "starts_with (p @ s) p"
  by (simp add: starts_with_def)

lemma read_field_field:
  assumes "CHR 0x22 \<notin> set name"
  shows "read_field (field name val @ rest) = Some ((name, val), rest)"
proof -
  have n: "takeWhile (\<lambda>c. c \<noteq> CHR 0x22) (name @ CHR 0x22 # t) = name" for t
    using assms by (simp add: takeWhile_append2 [of name] takeWhile_tail) (metis takeWhile_eq_all_conv)
  have "CHR ''<'' \<notin> set (escape val)" using escape_clean [of val] by (auto simp: special_def)
  then have v: "takeWhile (\<lambda>c. c \<noteq> CHR ''<'') (escape val @ CHR ''<'' # t) = escape val" for t
    by (simp add: takeWhile_tail) (metis takeWhile_eq_all_conv)
  define s where "s = field name val @ rest"
  have s: "s = ''<field name=''  @ CHR 0x22 # name @ CHR 0x22 # CHR ''>'' # escape val @ CHR ''<'' # ''/field>'' @ rest"
    by (simp add: s_def field_def)
  have d: "drop 13 s = name @ CHR 0x22 # CHR ''>'' # escape val @ CHR ''<'' # ''/field>'' @ rest"
    by (simp add: s)
  then have n1: "takeWhile (\<lambda>c. c \<noteq> CHR 0x22) (drop 13 s) = name" by (simp only: n)
  have n2: "drop (13 + length name) s = CHR 0x22 # CHR ''>'' # escape val @ CHR ''<'' # ''/field>'' @ rest"
  proof -
    have "drop (13 + length name) s = drop (length name) (drop 13 s)" by (simp add: add.commute)
    then show ?thesis unfolding d by simp
  qed
  have n3: "takeWhile (\<lambda>c. c \<noteq> CHR ''<'') (drop 2 (CHR 0x22 # CHR ''>'' # escape val @ CHR ''<'' # ''/field>'' @ rest)) = escape val"
    by (simp add: v del: append_Cons)
  have n4: "drop (2 + length (escape val)) (CHR 0x22 # CHR ''>'' # escape val @ CHR ''<'' # ''/field>'' @ rest) = ''</field>'' @ rest"
    by simp
  show ?thesis
    unfolding s_def [symmetric] read_field_def Let_def n1 n2 n3 n4 by (simp add: s starts_with_def)
qed

lemma field_nonempty [simp]: "field name val \<noteq> []"
  by (simp add: field_def)

lemma read_fields_field [simp]:
  "CHR 0x22 \<notin> set name \<Longrightarrow> read_fields (field name val @ rest) = map_option ((#) (name, val)) (read_fields rest)"
  by (subst read_fields.simps) (simp add: read_field_field)

lemma read_fields_Nil [simp]: "read_fields [] = Some []"
  by (simp add: read_fields.simps)

lemmas read_fields_last = read_fields_field [where rest = "[]", simplified]

text \<open>
  C35: a VAT declaration says what was calculated. \<open>Fno300::build_xml\<close> refuses another kind of
  calculation and a calculation of another organization; when it succeeds, reading the sheet of
  the document back gives exactly the organization's identification number and name, whatever
  characters they contain, the period and the four amounts, each rounded to the nearest tenge,
  of which the payable and the refundable part make up the balance and one of them is zero.
\<close>

theorem fno300_sheet_reads_back:
  assumes "build_xml_300 calc org = Inr xml"
  shows "calc_kind calc = ''vat'' \<and> calc_org calc = oi_org_id org \<and>
    (\<exists>sheet before behind quarter accrued deductible pay refund.
       xml = before @ sheet @ behind \<and>
       read_fields sheet = Some [(''iin'', oi_bin org), (''rnn'', oi_bin org), (''payer_name1'', oi_name org),
         (''period_year'', oi_tax_period_year org), (''period_quarter'', to_string quarter), (''currency_code'', ''KZT''),
         (''dt_regular'', ''true''), (''field_300_00_012'', tenge_amount accrued), (''field_300_00_023'', tenge_amount deductible),
         (''field_300_00_030_01'', tenge_amount pay), (''field_300_00_030_02'', tenge_amount refund)] \<and>
       value_ll (result_snapshot calc) ''accrued_tiyn'' = Inr accrued \<and>
       value_ll (result_snapshot calc) ''deductible_tiyn'' = Inr deductible \<and>
       0 \<le> pay \<and> 0 \<le> refund \<and> pay * refund = 0 \<and> pay - refund = total_tiyn calc \<and>
       \<bar>100 * round_half_up_to_tenge pay - pay\<bar> \<le> 50)"
proof -
  obtain a dd pay refund quarter where g: "guard_org ''vat'' calc org = Inr ()"
    and a: "value_ll (result_snapshot calc) ''accrued_tiyn'' = Inr a" "value_ll (result_snapshot calc) ''deductible_tiyn'' = Inr dd"
    and sp: "split_300 (total_tiyn calc) = Inr (pay, refund)"
    and x: "xml = document ''300.00'' ''29'' ''form_300_00'' ''page_300_00_01'' org (sheet_300 org quarter a dd pay refund)
            (summary_300 calc a dd (total_tiyn calc) pay refund)"
    using assms by (auto simp: build_xml_300_def)
  define sheet where "sheet = sheet_300 org quarter a dd pay refund"
  have "\<exists>before behind. xml = before @ sheet @ behind"
    unfolding x document_def sheet_def [symmetric] by (metis append_assoc)
  moreover have "read_fields sheet = Some [(''iin'', oi_bin org), (''rnn'', oi_bin org), (''payer_name1'', oi_name org),
         (''period_year'', oi_tax_period_year org), (''period_quarter'', to_string quarter), (''currency_code'', ''KZT''),
         (''dt_regular'', ''true''), (''field_300_00_012'', tenge_amount a), (''field_300_00_023'', tenge_amount dd),
         (''field_300_00_030_01'', tenge_amount pay), (''field_300_00_030_02'', tenge_amount refund)]"
    by (simp add: sheet_def sheet_300_def identity_fields_def numeric_field_def tenge_amount_def read_fields_last)
  moreover have "calc_kind calc = ''vat'' \<and> calc_org calc = oi_org_id org" using g by (auto simp: guard_org_def split: if_splits)
  moreover have "0 \<le> pay \<and> 0 \<le> refund \<and> pay * refund = 0 \<and> pay - refund = total_tiyn calc"
    using sp by (auto simp: split_300_def split: if_splits)
  ultimately show ?thesis using a round_half_up_bounds [of pay] by blast
qed

definition vat_calc :: Calculation where
  "vat_calc = \<lparr>calc_id = ''k1'', calc_org = ''o'', calc_kind = ''vat'', calc_from = ''2026-01-01'', calc_to = ''2026-03-31'',
     computed_at = 0, input_snapshot = JNull,
     result_snapshot = object [(''accrued_tiyn'', JInt 120050), (''deductible_tiyn'', JInt 20000)], total_tiyn = 100050\<rparr>"

definition demo_org :: OrgInfo where
  "demo_org = \<lparr>oi_org_id = ''o'', oi_bin = ''123456789012'', oi_name = ''A & B'', oi_tax_period_year = ''2026'',
     oi_tax_period_half = ''1''\<rparr>"

theorem fno300_sheet_reads_back_witness:
  "\<exists>xml sheet before behind fs. build_xml_300 vat_calc demo_org = Inr xml \<and> xml = before @ sheet @ behind \<and>
     read_fields sheet = Some fs \<and> (''payer_name1'', ''A & B'') \<in> set fs"
proof -
  have "value_ll (result_snapshot vat_calc) ''accrued_tiyn'' = Inr 120050" "value_ll (result_snapshot vat_calc) ''deductible_tiyn'' = Inr 20000"
    by (simp_all add: vat_calc_def value_ll_def object_def map_of_fold_put less_char_def)
  moreover have "quarter_from_period_from (calc_from vat_calc) = Inr 1"
    by (simp add: quarter_from_period_from_def vat_calc_def stoi_digits isdigit_def dec_val_def digit_val_def)
  moreover have "guard_org ''vat'' vat_calc demo_org = Inr ()" "split_300 (total_tiyn vat_calc) = Inr (100050, 0)"
    by (simp_all add: guard_org_def vat_calc_def demo_org_def split_300_def)
  ultimately obtain xml where x: "build_xml_300 vat_calc demo_org = Inr xml"
    by (simp add: build_xml_300_def)
  from fno300_sheet_reads_back [OF x] obtain sheet before behind fs where
    "xml = before @ sheet @ behind" "read_fields sheet = Some fs" "(''payer_name1'', oi_name demo_org) \<in> set fs" by auto
  then show ?thesis using x
    by (intro exI [of _ xml] exI [of _ sheet] exI [of _ before] exI [of _ behind] exI [of _ fs]) (simp add: demo_org_def)
qed

end
