(* ===== verification/OrgPermissions.thy ===== *)
theory OrgPermissions
  imports Prelude
begin

text \<open>
  The matrix of rights of an organization's members, \<^verbatim>\<open>src/src/tenancy/OrgPermissions.hpp\<close>.
  A grant is \<open>''rw''\<close>, \<open>''r''\<close> or \<open>''''\<close>; \<open>None\<close> is the null pointer of a pair the table does
  not have. A row lists its grants by position, in the order of \<open>kRoles\<close>.
\<close>

definition kEmployees :: string where "kEmployees = ''employees''"
definition kHrDocs :: string where "kHrDocs = ''hr_docs''"
definition kPayroll :: string where "kPayroll = ''payroll''"
definition kPayrollPosting :: string where "kPayrollPosting = ''payroll_posting''"
definition kJournal :: string where "kJournal = ''journal''"
definition kCounterparties :: string where "kCounterparties = ''counterparties''"
definition kDocuments :: string where "kDocuments = ''documents''"
definition kTax :: string where "kTax = ''tax''"
definition kMembers :: string where "kMembers = ''members''"
definition kRequisites :: string where "kRequisites = ''requisites''"
definition kTemplates :: string where "kTemplates = ''templates''"
definition kHrTemplates :: string where "kHrTemplates = ''hr_templates''"

lemmas resource_names = kEmployees_def kHrDocs_def kPayroll_def kPayrollPosting_def kJournal_def
  kCounterparties_def kDocuments_def kTax_def kMembers_def kRequisites_def kTemplates_def kHrTemplates_def

definition kRead :: string where "kRead = ''read''"
definition kWrite :: string where "kWrite = ''write''"

definition kRoles :: "string list" where
  "kRoles = [''owner'', ''accountant'', ''hr'', ''viewer'', ''agent'']"

record MatrixRow =
  row_resource :: string
  grants :: "string option list"

definition row :: "string \<Rightarrow> string \<Rightarrow> string \<Rightarrow> string \<Rightarrow> string \<Rightarrow> string \<Rightarrow> MatrixRow" where
  "row res owner accountant hr viewer agent =
     \<lparr>row_resource = res, grants = map Some [owner, accountant, hr, viewer, agent]\<rparr>"

definition kMatrix :: "MatrixRow list" where
  "kMatrix =
    [row kEmployees       ''rw'' ''rw'' ''rw'' ''r'' ''rw'',
     row kHrDocs          ''rw'' ''rw'' ''rw'' ''r'' ''rw'',
     row kPayroll         ''rw'' ''rw'' ''''   ''r'' ''rw'',
     row kPayrollPosting  ''rw'' ''rw'' ''''   ''''  ''rw'',
     row kJournal         ''rw'' ''rw'' ''''   ''r'' ''rw'',
     row kCounterparties  ''rw'' ''rw'' ''''   ''r'' ''rw'',
     row kDocuments       ''rw'' ''rw'' ''''   ''r'' ''rw'',
     row kTax             ''rw'' ''rw'' ''''   ''r'' ''rw'',
     row kMembers         ''rw'' ''''   ''''   ''''  '''',
     row kRequisites      ''rw'' ''r''  ''''   ''r'' ''r'',
     row kTemplates       ''rw'' ''rw'' ''''   ''r'' ''rw'',
     row kHrTemplates     ''rw'' ''rw'' ''rw'' ''r'' ''rw'']"

text \<open>The index of a role in a list of roles; the length of the list for an unknown role.\<close>

fun index_in :: "string list \<Rightarrow> string \<Rightarrow> nat" where
  "index_in [] x = 0"
| "index_in (y # ys) x = (if x = y then 0 else Suc (index_in ys x))"

definition role_index :: "string \<Rightarrow> nat" where
  "role_index role = index_in kRoles role"

definition grant_for :: "MatrixRow list \<Rightarrow> string \<Rightarrow> string \<Rightarrow> string option" where
  "grant_for rows role resource =
     (let r = role_index role
      in if r = length kRoles then None
         else case find (\<lambda>m. resource = row_resource m) rows of
                None \<Rightarrow> None
              | Some m \<Rightarrow> grants m ! r)"

definition allows :: "string \<Rightarrow> string \<Rightarrow> string \<Rightarrow> bool" where
  "allows role resource action =
     (case grant_for kMatrix role resource of
        None \<Rightarrow> False
      | Some granted \<Rightarrow>
          if action = kRead then granted \<noteq> []
          else if action = kWrite then CHR ''w'' \<in> set granted
          else False)"

section \<open>What the matrix grants\<close>

lemma index_in_length: "index_in xs x \<le> length xs"
  by (induction xs) auto

lemma index_in_unknown: "x \<notin> set xs \<Longrightarrow> index_in xs x = length xs"
  by (induction xs) auto

text \<open>Denial is the default in every dimension.\<close>

lemma allows_unknown_role: "role \<notin> set kRoles \<Longrightarrow> \<not> allows role resource action"
  by (simp add: allows_def grant_for_def role_index_def index_in_unknown)

lemma allows_unknown_resource:
  "resource \<notin> row_resource ` set kMatrix \<Longrightarrow> \<not> allows role resource action"
  by (auto simp: allows_def grant_for_def Let_def find_Some_iff split: option.splits)

lemma allows_unknown_action: "action \<notin> {kRead, kWrite} \<Longrightarrow> \<not> allows role resource action"
  by (simp add: allows_def split: option.split)

text \<open>Who may write reads as well.\<close>

lemma write_implies_read: "allows role resource kWrite \<Longrightarrow> allows role resource kRead"
  by (auto simp: allows_def kRead_def kWrite_def split: option.splits)

lemma role_index_eval:
  "role_index ''owner'' = 0" "role_index ''accountant'' = 1" "role_index ''hr'' = 2"
  "role_index ''viewer'' = 3" "role_index ''agent'' = 4"
  by (simp_all add: role_index_def kRoles_def)

text \<open>The agent has the rights of an accountant, and the owner has every right anybody has.\<close>

lemma agent_acts_as_accountant: "allows ''agent'' res action = allows ''accountant'' res action"
  by (simp add: allows_def grant_for_def role_index_eval kRoles_def kMatrix_def row_def)

lemma allows_owner: "allows ''owner'' res action \<longleftrightarrow> res \<in> row_resource ` set kMatrix \<and> action \<in> {kRead, kWrite}"
  by (simp add: allows_def grant_for_def role_index_eval kRoles_def kMatrix_def row_def kRead_def kWrite_def
      resource_names)

lemma owner_may_everything: "allows role res action \<Longrightarrow> allows ''owner'' res action"
  using allows_unknown_resource allows_unknown_action unfolding allows_owner by blast

lemma allows_eval:
  "allows ''agent'' kMembers action = False"
  "allows ''agent'' kRequisites kWrite = False"
  "allows ''agent'' kRequisites kRead = True"
  "allows ''agent'' kJournal kWrite = True"
  by (simp_all add: allows_def grant_for_def role_index_def kRoles_def kMatrix_def row_def resource_names kRead_def kWrite_def)

end
