(* ===== verification/AgentPolicy.thy ===== *)
theory AgentPolicy
  imports OrgPermissions Json
begin

text \<open>
  The autonomy policy of the agent and the one point through which it runs a tool:
  \<^verbatim>\<open>src/src/agent/AutonomyPolicy.hpp\<close> and \<^verbatim>\<open>src/src/agent/ToolRegistry.hpp\<close>.

  A handler is an argument of the model, \<open>std::function\<close> in the code: a function of the
  context, the arguments and the state of the world it acts on, which may throw (\<open>Inl\<close>).
  The state is returned in either case, as what a handler did before it threw stays done.
  The registry is the association list of a \<open>std::map\<close>, sorted by name. The texts are
  the Russian sentences of the source, as UTF-8.
\<close>

section \<open>AutonomyPolicy\<close>

datatype Mode = kAuto | kApprove | kForbid

definition mode_name :: "Mode \<Rightarrow> string" where
  "mode_name m = (case m of kAuto \<Rightarrow> ''auto'' | kApprove \<Rightarrow> ''approve'' | kForbid \<Rightarrow> ''forbid'')"

definition parse_mode :: "string \<Rightarrow> Mode option" where
  "parse_mode s =
     (if s = ''auto'' then Some kAuto
      else if s = ''approve'' then Some kApprove
      else if s = ''forbid'' then Some kForbid
      else None)"

record Policy =
  pol_action :: string
  pol_mode :: Mode
  max_amount_tiyn :: "int option"
  counterparty_allowlist :: "string list"
  pol_doc_type :: "string option"
  require_prior_approval :: bool

record Action =
  act_name :: string
  amount_tiyn :: "int option"
  act_counterparty :: "string option"
  act_doc_type :: "string option"
  has_prior_approval :: bool

record Decision =
  dec_mode :: Mode
  dec_reason :: string

definition mode_rank :: "Mode \<Rightarrow> nat" where
  "mode_rank m = (case m of kAuto \<Rightarrow> 0 | kApprove \<Rightarrow> 1 | kForbid \<Rightarrow> 2)"

definition strictest_of :: "Mode \<Rightarrow> Mode \<Rightarrow> Mode" where
  "strictest_of a b = (if mode_rank a \<ge> mode_rank b then a else b)"

definition why_no_policy :: "string \<Rightarrow> string" where
  "why_no_policy name =
    utf8 [0x434, 0x43B, 0x44F, 0x20, 0x434, 0x435, 0x439, 0x441, 0x442, 0x432, 0x438, 0x44F, 0x20, 0x27] @ name @
    utf8 [0x27, 0x20, 0x43F, 0x43E, 0x43B, 0x438, 0x442, 0x438, 0x43A, 0x430, 0x20, 0x43D, 0x435, 0x20, 0x437,
    0x430, 0x434, 0x430, 0x43D, 0x430, 0x20, 0x2014, 0x20, 0x43F, 0x43E, 0x20, 0x443, 0x43C, 0x43E,
    0x43B, 0x447, 0x430, 0x43D, 0x438, 0x44E, 0x20, 0x442, 0x440, 0x435, 0x431, 0x443, 0x435, 0x442,
    0x441, 0x44F, 0x20, 0x43E, 0x434, 0x43E, 0x431, 0x440, 0x435, 0x43D, 0x438, 0x435]"

definition why_forbidden :: "string \<Rightarrow> string" where
  "why_forbidden name =
    utf8 [0x434, 0x435, 0x439, 0x441, 0x442, 0x432, 0x438, 0x435, 0x20, 0x27] @ name @
    utf8 [0x27, 0x20, 0x437, 0x430, 0x43F, 0x440, 0x435, 0x449, 0x435, 0x43D, 0x43E, 0x20, 0x43F, 0x43E,
    0x43B, 0x438, 0x442, 0x438, 0x43A, 0x43E, 0x439, 0x20, 0x43E, 0x440, 0x433, 0x430, 0x43D, 0x438,
    0x437, 0x430, 0x446, 0x438, 0x438]"

definition why_approve :: "string \<Rightarrow> string" where
  "why_approve name =
    utf8 [0x43F, 0x43E, 0x43B, 0x438, 0x442, 0x438, 0x43A, 0x430, 0x20, 0x434, 0x43B, 0x44F, 0x20, 0x27] @ name @
    utf8 [0x27, 0x20, 0x442, 0x440, 0x435, 0x431, 0x443, 0x435, 0x442, 0x20, 0x43E, 0x434, 0x43E, 0x431,
    0x440, 0x435, 0x43D, 0x438, 0x44F]"

definition why_auto :: "string \<Rightarrow> string" where
  "why_auto name =
    utf8 [0x43F, 0x43E, 0x43B, 0x438, 0x442, 0x438, 0x43A, 0x430, 0x20, 0x440, 0x430, 0x437, 0x440, 0x435,
    0x448, 0x430, 0x435, 0x442, 0x20, 0x27] @ name @
    utf8 [0x27, 0x20, 0x430, 0x432, 0x442, 0x43E, 0x43C, 0x430, 0x442, 0x438, 0x447, 0x435, 0x441, 0x43A,
    0x438]"

definition why_no_amount :: string where
  "why_no_amount =
    utf8 [0x443, 0x20, 0x434, 0x435, 0x439, 0x441, 0x442, 0x432, 0x438, 0x44F, 0x20, 0x43D, 0x435, 0x442,
    0x20, 0x441, 0x443, 0x43C, 0x43C, 0x44B, 0x2C, 0x20, 0x430, 0x20, 0x43F, 0x43E, 0x43B, 0x438, 0x442,
    0x438, 0x43A, 0x430, 0x20, 0x437, 0x430, 0x434, 0x430, 0x451, 0x442, 0x20, 0x43F, 0x440, 0x435,
    0x434, 0x435, 0x43B, 0x20, 0x2014, 0x20, 0x43F, 0x440, 0x43E, 0x432, 0x435, 0x440, 0x438, 0x442,
    0x44C, 0x20, 0x447, 0x435, 0x43B, 0x43E, 0x432, 0x435, 0x43A, 0x443]"

definition why_over_limit :: string where
  "why_over_limit =
    utf8 [0x441, 0x443, 0x43C, 0x43C, 0x430, 0x20, 0x43F, 0x440, 0x435, 0x432, 0x44B, 0x448, 0x430, 0x435,
    0x442, 0x20, 0x43F, 0x440, 0x435, 0x434, 0x435, 0x43B, 0x20, 0x43F, 0x43E, 0x43B, 0x438, 0x442,
    0x438, 0x43A, 0x438]"

definition why_not_listed :: string where
  "why_not_listed =
    utf8 [0x43A, 0x43E, 0x43D, 0x442, 0x440, 0x430, 0x433, 0x435, 0x43D, 0x442, 0x20, 0x43D, 0x435, 0x20,
    0x432, 0x20, 0x431, 0x435, 0x43B, 0x43E, 0x43C, 0x20, 0x441, 0x43F, 0x438, 0x441, 0x43A, 0x435,
    0x20, 0x43F, 0x43E, 0x43B, 0x438, 0x442, 0x438, 0x43A, 0x438]"

definition why_no_counterparty :: string where
  "why_no_counterparty =
    utf8 [0x443, 0x20, 0x434, 0x435, 0x439, 0x441, 0x442, 0x432, 0x438, 0x44F, 0x20, 0x43D, 0x435, 0x442,
    0x20, 0x43A, 0x43E, 0x43D, 0x442, 0x440, 0x430, 0x433, 0x435, 0x43D, 0x442, 0x430, 0x2C, 0x20,
    0x430, 0x20, 0x43F, 0x43E, 0x43B, 0x438, 0x442, 0x438, 0x43A, 0x430, 0x20, 0x437, 0x430, 0x434,
    0x430, 0x451, 0x442, 0x20, 0x431, 0x435, 0x43B, 0x44B, 0x439, 0x20, 0x441, 0x43F, 0x438, 0x441,
    0x43E, 0x43A]"

definition why_other_doc_type :: string where
  "why_other_doc_type =
    utf8 [0x442, 0x438, 0x43F, 0x20, 0x434, 0x43E, 0x43A, 0x443, 0x43C, 0x435, 0x43D, 0x442, 0x430, 0x20,
    0x43D, 0x435, 0x20, 0x442, 0x43E, 0x442, 0x2C, 0x20, 0x434, 0x43B, 0x44F, 0x20, 0x43A, 0x43E, 0x442,
    0x43E, 0x440, 0x43E, 0x433, 0x43E, 0x20, 0x437, 0x430, 0x434, 0x430, 0x43D, 0x430, 0x20, 0x43F,
    0x43E, 0x43B, 0x438, 0x442, 0x438, 0x43A, 0x430]"

definition why_no_precedent :: string where
  "why_no_precedent =
    utf8 [0x43F, 0x43E, 0x43B, 0x438, 0x442, 0x438, 0x43A, 0x430, 0x20, 0x440, 0x430, 0x437, 0x440, 0x435,
    0x448, 0x430, 0x435, 0x442, 0x20, 0x430, 0x432, 0x442, 0x43E, 0x43C, 0x430, 0x442, 0x438, 0x447,
    0x435, 0x441, 0x43A, 0x438, 0x20, 0x442, 0x43E, 0x43B, 0x44C, 0x43A, 0x43E, 0x20, 0x43F, 0x43E,
    0x432, 0x442, 0x43E, 0x440, 0x435, 0x43D, 0x438, 0x435, 0x20, 0x443, 0x436, 0x435, 0x20, 0x43E,
    0x434, 0x43E, 0x431, 0x440, 0x435, 0x43D, 0x43D, 0x43E, 0x433, 0x43E, 0x20, 0x434, 0x435, 0x439,
    0x441, 0x442, 0x432, 0x438, 0x44F]"

text \<open>The four boundaries of an \<open>auto\<close> policy, each a step on the mode and the reason.\<close>

definition check_amount :: "Policy \<Rightarrow> Action \<Rightarrow> Mode \<times> string \<Rightarrow> Mode \<times> string" where
  "check_amount p a = (\<lambda>(mode, reason).
     case max_amount_tiyn p of
       None \<Rightarrow> (mode, reason)
     | Some limit \<Rightarrow>
         (case amount_tiyn a of
            None \<Rightarrow> (strictest_of mode kApprove, why_no_amount)
          | Some x \<Rightarrow> if x > limit then (strictest_of mode kApprove, why_over_limit) else (mode, reason)))"

definition check_counterparty :: "Policy \<Rightarrow> Action \<Rightarrow> Mode \<times> string \<Rightarrow> Mode \<times> string" where
  "check_counterparty p a = (\<lambda>(mode, reason).
     if counterparty_allowlist p \<noteq> [] then
       let listed = (case act_counterparty a of None \<Rightarrow> False | Some c \<Rightarrow> c \<in> set (counterparty_allowlist p))
       in if \<not> listed
          then (strictest_of mode kApprove, if act_counterparty a \<noteq> None then why_not_listed else why_no_counterparty)
          else (mode, reason)
     else (mode, reason))"

definition check_doc_type :: "Policy \<Rightarrow> Action \<Rightarrow> Mode \<times> string \<Rightarrow> Mode \<times> string" where
  "check_doc_type p a = (\<lambda>(mode, reason).
     if pol_doc_type p \<noteq> None \<and> act_doc_type a \<noteq> None \<and> pol_doc_type p \<noteq> act_doc_type a
     then (strictest_of mode kApprove, why_other_doc_type) else (mode, reason))"

definition check_precedent :: "Policy \<Rightarrow> Action \<Rightarrow> Mode \<times> string \<Rightarrow> Mode \<times> string" where
  "check_precedent p a = (\<lambda>(mode, reason).
     if require_prior_approval p \<and> \<not> has_prior_approval a
     then (strictest_of mode kApprove, why_no_precedent) else (mode, reason))"

definition evaluate :: "Policy option \<Rightarrow> Action \<Rightarrow> Decision" where
  "evaluate policy action =
     (case policy of
        None \<Rightarrow> \<lparr>dec_mode = kApprove, dec_reason = why_no_policy (act_name action)\<rparr>
      | Some p \<Rightarrow>
          if pol_mode p = kForbid then \<lparr>dec_mode = kForbid, dec_reason = why_forbidden (act_name action)\<rparr>
          else if pol_mode p = kApprove then \<lparr>dec_mode = kApprove, dec_reason = why_approve (act_name action)\<rparr>
          else
            let (mode, reason) =
              check_precedent p action (check_doc_type p action (check_counterparty p action
                (check_amount p action (kAuto, why_auto (act_name action)))))
            in \<lparr>dec_mode = mode, dec_reason = reason\<rparr>)"

section \<open>ToolRegistry\<close>

record ToolSpec =
  spec_name :: string
  spec_resource :: string
  spec_action :: string
  spec_summary :: string
  carries_amount :: bool

record ToolContext =
  ctx_org :: string
  ctx_run :: string
  ctx_role :: string

datatype tool_status = kExecuted | kNeedsApproval | kRefused

record ToolOutcome =
  out_status :: tool_status
  out_result :: json
  out_reason :: string
  policy_mode :: "Mode option"

type_synonym ('w, 'x) ToolHandler = "ToolContext \<Rightarrow> json \<Rightarrow> 'w \<Rightarrow> ('x + json) \<times> 'w"

record ('w, 'x) Entry =
  entry_spec :: ToolSpec
  handler :: "('w, 'x) ToolHandler"
  extractor :: "(json \<Rightarrow> Action) option"

type_synonym ('w, 'x) ToolRegistry = "(string \<times> ('w, 'x) Entry) list"

text \<open>\<open>std::map::emplace\<close> keeps the entry a name already has.\<close>

definition add_tool ::
  "ToolSpec \<Rightarrow> ('w, 'x) ToolHandler \<Rightarrow> (json \<Rightarrow> Action) option \<Rightarrow> ('w, 'x) ToolRegistry \<Rightarrow> ('w, 'x) ToolRegistry" where
  "add_tool spec h ex reg =
     (if map_of reg (spec_name spec) \<noteq> None then reg
      else put (spec_name spec) \<lparr>entry_spec = spec, handler = h, extractor = ex\<rparr> reg)"

definition knows :: "('w, 'x) ToolRegistry \<Rightarrow> string \<Rightarrow> bool" where
  "knows reg name \<longleftrightarrow> map_of reg name \<noteq> None"

definition catalogue :: "('w, 'x) ToolRegistry \<Rightarrow> (string \<times> string) list" where
  "catalogue reg = map (\<lambda>(name, e). (name, spec_summary (entry_spec e))) reg"

definition no_action :: Action where
  "no_action = \<lparr>act_name = [], amount_tiyn = None, act_counterparty = None, act_doc_type = None, has_prior_approval = False\<rparr>"

definition action_of :: "('w, 'x) Entry \<Rightarrow> string \<Rightarrow> json \<Rightarrow> Action" where
  "action_of entry name args =
     (case extractor entry of Some f \<Rightarrow> f args | None \<Rightarrow> no_action)\<lparr>act_name := name\<rparr>"

definition why_unknown_tool :: "string \<Rightarrow> string" where
  "why_unknown_tool name =
    utf8 [0x438, 0x43D, 0x441, 0x442, 0x440, 0x443, 0x43C, 0x435, 0x43D, 0x442, 0x20, 0x27] @ name @
    utf8 [0x27, 0x20, 0x43D, 0x435, 0x20, 0x441, 0x443, 0x449, 0x435, 0x441, 0x442, 0x432, 0x443, 0x435, 0x442]"

definition why_no_access :: "string \<Rightarrow> string \<Rightarrow> string \<Rightarrow> string" where
  "why_no_access role action resource =
    utf8 [0x440, 0x43E, 0x43B, 0x438, 0x20, 0x27] @ role @
    utf8 [0x27, 0x20, 0x43D, 0x435, 0x20, 0x440, 0x430, 0x437, 0x440, 0x435, 0x448, 0x451, 0x43D, 0x20, 0x434,
    0x43E, 0x441, 0x442, 0x443, 0x43F, 0x20, 0x27] @ action @
    utf8 [0x27, 0x20, 0x43A, 0x20, 0x27] @ resource @ [CHR 0x27]"

definition execute ::
  "('w, 'x) ToolRegistry \<Rightarrow> ToolContext \<Rightarrow> string \<Rightarrow> json \<Rightarrow> (string \<Rightarrow> string \<Rightarrow> Policy option) \<Rightarrow> 'w
     \<Rightarrow> ('x + ToolOutcome) \<times> 'w" where
  "execute reg ctx name args load_policy w =
     (case map_of reg name of
        None \<Rightarrow> (Inr \<lparr>out_status = kRefused, out_result = JObj [], out_reason = why_unknown_tool name, policy_mode = None\<rparr>, w)
      | Some entry \<Rightarrow>
          if \<not> allows (ctx_role ctx) (spec_resource (entry_spec entry)) (spec_action (entry_spec entry)) then
            (Inr \<lparr>out_status = kRefused, out_result = JObj [],
                  out_reason = why_no_access (ctx_role ctx) (spec_action (entry_spec entry)) (spec_resource (entry_spec entry)),
                  policy_mode = None\<rparr>, w)
          else
            let action = action_of entry name args;
                decision = evaluate (load_policy (ctx_org ctx) name) action
            in if dec_mode decision = kForbid then
                 (Inr \<lparr>out_status = kRefused, out_result = JObj [], out_reason = dec_reason decision,
                       policy_mode = Some (dec_mode decision)\<rparr>, w)
               else if dec_mode decision = kApprove then
                 (Inr \<lparr>out_status = kNeedsApproval, out_result = JObj [], out_reason = dec_reason decision,
                       policy_mode = Some (dec_mode decision)\<rparr>, w)
               else
                 (case handler entry ctx args w of
                    (Inl x, w') \<Rightarrow> (Inl x, w')
                  | (Inr r, w') \<Rightarrow>
                      (Inr \<lparr>out_status = kExecuted, out_result = r, out_reason = dec_reason decision,
                            policy_mode = Some (dec_mode decision)\<rparr>, w')))"

section \<open>When a tool runs without a human\<close>

lemma parse_mode_name [simp]: "parse_mode (mode_name m) = Some m"
  by (cases m) (simp_all add: mode_name_def parse_mode_def)

lemma strictest_of_simps [simp]:
  "strictest_of kAuto m = m" "strictest_of kApprove kApprove = kApprove"
  "strictest_of m m = m"
  by (cases m; simp add: strictest_of_def mode_rank_def)+

text \<open>Every boundary of an automatic policy is met by the action.\<close>

definition within_bounds :: "Policy \<Rightarrow> Action \<Rightarrow> bool" where
  "within_bounds p a \<longleftrightarrow>
     (case max_amount_tiyn p of None \<Rightarrow> True | Some limit \<Rightarrow> (\<exists>x. amount_tiyn a = Some x \<and> x \<le> limit)) \<and>
     (counterparty_allowlist p = [] \<or> act_counterparty a \<in> Some ` set (counterparty_allowlist p)) \<and>
     (pol_doc_type p = None \<or> act_doc_type a = None \<or> pol_doc_type p = act_doc_type a) \<and>
     (\<not> require_prior_approval p \<or> has_prior_approval a)"

lemma check_keeps_approve:
  "fst (check_amount p a (kApprove, r)) = kApprove"
  "fst (check_counterparty p a (kApprove, r)) = kApprove"
  "fst (check_doc_type p a (kApprove, r)) = kApprove"
  "fst (check_precedent p a (kApprove, r)) = kApprove"
  by (simp_all add: check_amount_def check_counterparty_def check_doc_type_def check_precedent_def Let_def
      split: option.split)

lemma fst_checks:
  "fst (check_amount p a (kAuto, r)) =
     (case max_amount_tiyn p of None \<Rightarrow> kAuto
      | Some limit \<Rightarrow> (case amount_tiyn a of None \<Rightarrow> kApprove | Some x \<Rightarrow> if x > limit then kApprove else kAuto))"
  "fst (check_counterparty p a (m, r)) =
     (if counterparty_allowlist p = [] \<or> act_counterparty a \<in> Some ` set (counterparty_allowlist p) then m
      else strictest_of m kApprove)"
  "fst (check_doc_type p a (m, r)) =
     (if pol_doc_type p = None \<or> act_doc_type a = None \<or> pol_doc_type p = act_doc_type a then m
      else strictest_of m kApprove)"
  "fst (check_precedent p a (m, r)) =
     (if \<not> require_prior_approval p \<or> has_prior_approval a then m else strictest_of m kApprove)"
  by (auto simp: check_amount_def check_counterparty_def check_doc_type_def check_precedent_def Let_def
      split: option.split)

lemma fst_checks_prod:
  "fst (check_counterparty p a x) =
     (if counterparty_allowlist p = [] \<or> act_counterparty a \<in> Some ` set (counterparty_allowlist p) then fst x
      else strictest_of (fst x) kApprove)"
  "fst (check_doc_type p a x) =
     (if pol_doc_type p = None \<or> act_doc_type a = None \<or> pol_doc_type p = act_doc_type a then fst x
      else strictest_of (fst x) kApprove)"
  "fst (check_precedent p a x) =
     (if \<not> require_prior_approval p \<or> has_prior_approval a then fst x else strictest_of (fst x) kApprove)"
  by (cases x; simp only: fst_checks fst_conv)+

lemma evaluate_mode:
  "dec_mode (evaluate policy a) =
     (case policy of None \<Rightarrow> kApprove
      | Some p \<Rightarrow> strictest_of (pol_mode p) (if pol_mode p = kAuto \<and> \<not> within_bounds p a then kApprove else kAuto))"
proof (cases policy)
  case (Some p)
  show ?thesis
  proof (cases "pol_mode p")
    case kAuto
    with Some show ?thesis
      by (auto simp: evaluate_def case_prod_beta fst_checks_prod fst_checks(1) within_bounds_def split: option.splits)
  qed (simp_all add: evaluate_def Some strictest_of_def mode_rank_def)
qed (simp add: evaluate_def)

lemma evaluate_auto_iff:
  "dec_mode (evaluate policy a) = kAuto \<longleftrightarrow> (\<exists>p. policy = Some p \<and> pol_mode p = kAuto \<and> within_bounds p a)"
  by (cases policy) (auto simp: evaluate_mode strictest_of_def mode_rank_def split: Mode.splits)

end
