(* ===== verification/AgentStore.thy ===== *)
theory AgentStore
  imports AgentPolicy LedgerStore
begin

text \<open>
  The tables of the agent and the statements on them: \<^verbatim>\<open>src/src/agent/AgentRepository.hpp\<close> over
  \<^verbatim>\<open>src/migrations/029_agent_foundation.sql\<close>, with their \<open>CHECK\<close>, key and width constraints.

  What comes from outside is the record \<open>agent_env\<close>: the identifiers PostgreSQL draws and
  the time, both by the number of the draw (\<open>ticks\<close> counts them), the reading of a
  \<open>timestamptz\<close>, the order in which a query without \<open>ORDER BY\<close> meets the rows, and what a
  read replica shows when the primary is in a given state. A \<open>jsonb\<close> column holds its value.
\<close>

record Run =
  run_id :: string
  run_org :: string
  run_trigger :: string
  started_by :: "string option"
  run_status :: string
  run_summary :: string
  input_tokens :: int
  output_tokens :: int
  cost_tiyn :: int
  run_error :: "string option"
  run_created_at :: int

record Step =
  step_id :: string
  step_run :: string
  step_seq :: int
  step_kind :: string
  step_tool :: "string option"
  step_payload :: json
  policy_decision :: "string option"
  policy_reason :: "string option"
  step_created_at :: int

record ApprovalRequest =
  apr_id :: string
  apr_org :: string
  apr_run :: "string option"
  apr_action :: string
  apr_payload :: json
  apr_human_diff :: string
  apr_status :: string
  decided_by :: "string option"
  apr_comment :: string
  apr_created_at :: int

record policy_row =
  plc_org :: string
  plc_action :: string
  plc_mode :: string
  plc_max_amount :: "int option"
  plc_allowlist :: "string option"
  plc_doc_type :: "string option"
  plc_prior :: bool

record agent_db =
  agent_orgs :: "string list"
  agent_users :: "string list"
  runs :: "Run list"
  steps :: "Step list"
  policies :: "policy_row list"
  approvals :: "ApprovalRequest list"
  ticks :: nat

record agent_env =
  drawn_uuid :: "nat \<Rightarrow> string"
  now_at :: "nat \<Rightarrow> int"
  ts_in :: "string \<Rightarrow> int option"
  scan :: "policy_row list \<Rightarrow> policy_row list"
  replica :: "agent_db \<Rightarrow> agent_db"

definition in_int :: "int \<Rightarrow> bool" where
  "in_int n \<longleftrightarrow> - (2 ^ 31) \<le> n \<and> n < 2 ^ 31"

section \<open>Runs\<close>

definition run_triggers :: "string list" where
  "run_triggers = [''chat'', ''schedule'', ''event'']"

definition run_statuses :: "string list" where
  "run_statuses = [''running'', ''succeeded'', ''failed'', ''awaiting_approval'', ''budget_exceeded'']"

definition start_run ::
  "agent_env \<Rightarrow> string \<Rightarrow> string \<Rightarrow> string option \<Rightarrow> agent_db \<Rightarrow> sql_error + Run \<times> agent_db" where
  "start_run e org trig starter d =
     (let i = drawn_uuid e (ticks d);
          r = \<lparr>run_id = i, run_org = org, run_trigger = trig, started_by = starter, run_status = ''running'',
               run_summary = [], input_tokens = 0, output_tokens = 0, cost_tiyn = 0, run_error = None,
               run_created_at = now_at e (ticks d)\<rparr>
      in if trig \<notin> set run_triggers then Inl CheckViolation
         else if i \<in> run_id ` set (runs d) then Inl UniqueViolation
         else if org \<notin> set (agent_orgs d) \<or> (case starter of None \<Rightarrow> False | Some u \<Rightarrow> u \<notin> set (agent_users d)) then Inl ForeignKeyViolation
         else Inr (r, d\<lparr>runs := runs d @ [r], ticks := Suc (ticks d)\<rparr>))"

definition own_run :: "string \<Rightarrow> string \<Rightarrow> Run \<Rightarrow> bool" where
  "own_run org i r \<longleftrightarrow> run_id r = i \<and> run_org r = org"

definition finish_run ::
  "string \<Rightarrow> string \<Rightarrow> string \<Rightarrow> string \<Rightarrow> string option \<Rightarrow> agent_db \<Rightarrow> sql_error + bool \<times> agent_db" where
  "finish_run org i status_text summary_text err d =
     (if \<exists>r \<in> set (runs d). own_run org i r then
        if status_text \<notin> set run_statuses then Inl CheckViolation
        else Inr (True, d\<lparr>runs := map (\<lambda>r. if own_run org i r
                          then r\<lparr>run_status := status_text, run_summary := summary_text, run_error := err\<rparr> else r) (runs d)\<rparr>)
      else Inr (False, d))"

definition spent :: "int \<Rightarrow> int \<Rightarrow> int \<Rightarrow> Run \<Rightarrow> Run" where
  "spent inp outp cost r =
     r\<lparr>input_tokens := input_tokens r + inp, output_tokens := output_tokens r + outp, cost_tiyn := cost_tiyn r + cost\<rparr>"

definition add_usage ::
  "string \<Rightarrow> string \<Rightarrow> int \<Rightarrow> int \<Rightarrow> int \<Rightarrow> agent_db \<Rightarrow> sql_error + bool \<times> agent_db" where
  "add_usage org i inp outp cost d =
     (let hit = filter (own_run org i) (runs d)
      in if \<exists>r \<in> set hit. let r' = spent inp outp cost r
                          in \<not> in_ll (input_tokens r') \<or> \<not> in_ll (output_tokens r') \<or> \<not> in_ll (cost_tiyn r')
         then Inl NumericOverflow
         else Inr (hit \<noteq> [], d\<lparr>runs := map (\<lambda>r. if own_run org i r then spent inp outp cost r else r) (runs d)\<rparr>))"

definition find_run :: "string \<Rightarrow> string \<Rightarrow> agent_db \<Rightarrow> Run option" where
  "find_run org i d = find (own_run org i) (runs d)"

text \<open>The sum is a \<open>numeric\<close>; reading it as \<open>long long\<close> fails outside that range.\<close>

definition cost_since :: "agent_env \<Rightarrow> string \<Rightarrow> string \<Rightarrow> agent_db \<Rightarrow> sql_error + int" where
  "cost_since e org since_iso d =
     (case ts_in e since_iso of
        None \<Rightarrow> Inl InvalidText
      | Some t \<Rightarrow>
          let s = sum_list (map cost_tiyn (filter (\<lambda>r. run_org r = org \<and> run_created_at r \<ge> t) (runs d)))
          in if in_ll s then Inr s else Inl NumericOverflow)"

section \<open>Steps\<close>

definition step_kinds :: "string list" where
  "step_kinds = [''prompt'', ''model_reply'', ''tool_call'', ''tool_result'', ''error'']"

definition next_seq :: "string \<Rightarrow> agent_db \<Rightarrow> int" where
  "next_seq i d = (let qs = map step_seq (filter (\<lambda>s. step_run s = i) (steps d)) in if qs = [] then 1 else Max (set qs) + 1)"

definition append_step ::
  "agent_env \<Rightarrow> string \<Rightarrow> string \<Rightarrow> json \<Rightarrow> string option \<Rightarrow> string option \<Rightarrow> string option \<Rightarrow> agent_db
     \<Rightarrow> sql_error + Step \<times> agent_db" where
  "append_step e i kind payload tool decision reason d =
     (let s = \<lparr>step_id = drawn_uuid e (ticks d), step_run = i, step_seq = next_seq i d, step_kind = kind, step_tool = tool,
               step_payload = payload, policy_decision = decision, policy_reason = reason,
               step_created_at = now_at e (ticks d)\<rparr>
      in if \<not> in_int (next_seq i d) then Inl NumericOverflow
         else if kind \<notin> set step_kinds \<or> (case decision of None \<Rightarrow> False | Some x \<Rightarrow> parse_mode x = None) then Inl CheckViolation
         else if step_id s \<in> step_id ` set (steps d) then Inl UniqueViolation
         else if i \<notin> run_id ` set (runs d) then Inl ForeignKeyViolation
         else Inr (s, d\<lparr>steps := steps d @ [s], ticks := Suc (ticks d)\<rparr>))"

definition list_steps :: "string \<Rightarrow> agent_db \<Rightarrow> Step list" where
  "list_steps i d = sort_key step_seq (filter (\<lambda>s. step_run s = i) (steps d))"

section \<open>Policies\<close>

text \<open>The loop over the characters of a \<open>uuid[]\<close> in its text form.\<close>

fun uuid_array_loop :: "string \<Rightarrow> string list \<Rightarrow> string \<Rightarrow> string list \<times> string" where
  "uuid_array_loop [] out cur = (out, cur)"
| "uuid_array_loop (c # cs) out cur =
     (if c \<in> {CHR ''{'', CHR ''}'', CHR 0x22} then uuid_array_loop cs out cur
      else if c = CHR '','' then uuid_array_loop cs (if cur \<noteq> [] then out @ [cur] else out) []
      else uuid_array_loop cs out (cur @ [c]))"

definition parse_uuid_array :: "string \<Rightarrow> string list" where
  "parse_uuid_array raw = (case uuid_array_loop raw [] [] of (out, cur) \<Rightarrow> if cur \<noteq> [] then out @ [cur] else out)"

definition policy_of_row :: "policy_row \<Rightarrow> Policy" where
  "policy_of_row r =
     \<lparr>pol_action = plc_action r,
      pol_mode = (case parse_mode (plc_mode r) of Some m \<Rightarrow> m | None \<Rightarrow> kApprove),
      max_amount_tiyn = plc_max_amount r,
      counterparty_allowlist = (case plc_allowlist r of Some t \<Rightarrow> parse_uuid_array t | None \<Rightarrow> []),
      pol_doc_type = plc_doc_type r,
      require_prior_approval = plc_prior r\<rparr>"

definition find_policy :: "agent_env \<Rightarrow> string \<Rightarrow> string \<Rightarrow> agent_db \<Rightarrow> Policy option" where
  "find_policy e org action d =
     map_option policy_of_row (find (\<lambda>r. plc_org r = org \<and> plc_action r = action) (scan e (policies d)))"

section \<open>Approvals\<close>

definition request_approval ::
  "agent_env \<Rightarrow> string \<Rightarrow> string option \<Rightarrow> string \<Rightarrow> json \<Rightarrow> string \<Rightarrow> agent_db
     \<Rightarrow> sql_error + ApprovalRequest \<times> agent_db" where
  "request_approval e org rid action payload diff d =
     (let a = \<lparr>apr_id = drawn_uuid e (ticks d), apr_org = org, apr_run = rid, apr_action = action, apr_payload = payload,
               apr_human_diff = diff, apr_status = ''pending'', decided_by = None, apr_comment = [],
               apr_created_at = now_at e (ticks d)\<rparr>
      in if apr_id a \<in> apr_id ` set (approvals d) then Inl UniqueViolation
         else if org \<notin> set (agent_orgs d) \<or> (case rid of None \<Rightarrow> False | Some r \<Rightarrow> r \<notin> run_id ` set (runs d)) then Inl ForeignKeyViolation
         else Inr (a, d\<lparr>approvals := approvals d @ [a], ticks := Suc (ticks d)\<rparr>))"

definition undecided :: "string \<Rightarrow> string \<Rightarrow> ApprovalRequest \<Rightarrow> bool" where
  "undecided org i a \<longleftrightarrow> apr_id a = i \<and> apr_org a = org \<and> apr_status a = ''pending''"

text \<open>With \<open>decided_by\<close> and \<open>decided_at\<close> set, the table admits two statuses only.\<close>

definition decide ::
  "string \<Rightarrow> string \<Rightarrow> string \<Rightarrow> string \<Rightarrow> string \<Rightarrow> agent_db \<Rightarrow> sql_error + ApprovalRequest option \<times> agent_db" where
  "decide org i status_text decider comment_text d =
     (case find (undecided org i) (approvals d) of
        None \<Rightarrow> Inr (None, d)
      | Some a \<Rightarrow>
          let a' = a\<lparr>apr_status := status_text, decided_by := Some decider, apr_comment := comment_text\<rparr>
          in if status_text \<notin> {''approved'', ''rejected''} then Inl CheckViolation
             else if decider \<notin> set (agent_users d) then Inl ForeignKeyViolation
             else Inr (Some a', d\<lparr>approvals := map (\<lambda>x. if undecided org i x
                       then x\<lparr>apr_status := status_text, decided_by := Some decider, apr_comment := comment_text\<rparr> else x)
                       (approvals d)\<rparr>))"

definition list_pending :: "string \<Rightarrow> agent_db \<Rightarrow> ApprovalRequest list" where
  "list_pending org d =
     sort_key (\<lambda>a. - apr_created_at a) (filter (\<lambda>a. apr_org a = org \<and> apr_status a = ''pending'') (approvals d))"

definition has_approved :: "string \<Rightarrow> string \<Rightarrow> agent_db \<Rightarrow> bool" where
  "has_approved org action d \<longleftrightarrow>
     (\<exists>a \<in> set (approvals d). apr_org a = org \<and> apr_action a = action \<and> apr_status a = ''approved'')"

section \<open>What a statement keeps\<close>

lemma find_policy_row:
  assumes "find_policy e org action d = Some p" and "set (scan e (policies d)) = set (policies d)"
  obtains r where "r \<in> set (policies d)" "plc_org r = org" "plc_action r = action" "p = policy_of_row r"
  using assms unfolding find_policy_def by (auto simp: find_Some_iff) (metis nth_mem)

lemma next_seq_contiguous:
  "map step_seq (filter (\<lambda>s. step_run s = i) (steps d)) = map int [1..<Suc n] \<Longrightarrow> next_seq i d = int n + 1"
proof -
  assume eq: "map step_seq (filter (\<lambda>s. step_run s = i) (steps d)) = map int [1..<Suc n]"
  show ?thesis
  proof (cases n)
    case 0
    with eq show ?thesis by (simp add: next_seq_def)
  next
    case (Suc m)
    have "Max (int ` set [1..<Suc n]) = int n"
      by (rule Max_eqI) (auto simp: Suc)
    with eq Suc show ?thesis by (simp add: next_seq_def Let_def)
  qed
qed

end
