(* ===== verification/Effects.thy ===== *)
theory Effects
  imports Prelude
begin

text \<open>
  Stateful C++ code that may throw: a function from the state to the exception or the
  result and the state it leaves behind, since the effects before a \<open>throw\<close> stay. \<open>seq\<close>
  is the semicolon, \<open>give\<close> the return, \<open>raise\<close> the throw.

  \<open>within\<close> says that a program moves the state along a relation; the locale \<open>effect_order\<close>
  collects what a reflexive and transitive relation promises for composed programs. \<open>triple\<close>
  is a Hoare triple with a postcondition for the result and one for the exception.
\<close>

type_synonym ('e, 's, 'a) prog = "'s \<Rightarrow> ('e + 'a) \<times> 's"

definition give :: "'a \<Rightarrow> ('e, 's, 'a) prog" where
  "give a = (\<lambda>s. (Inr a, s))"

definition raise :: "'e \<Rightarrow> ('e, 's, 'a) prog" where
  "raise e = (\<lambda>s. (Inl e, s))"

definition seq :: "('e, 's, 'a) prog \<Rightarrow> ('a \<Rightarrow> ('e, 's, 'b) prog) \<Rightarrow> ('e, 's, 'b) prog" where
  "seq m f = (\<lambda>s. case m s of (Inl e, s') \<Rightarrow> (Inl e, s') | (Inr a, s') \<Rightarrow> f a s')"

definition lift_result :: "'e + 'a \<Rightarrow> ('e, 's, 'a) prog" where
  "lift_result r = (\<lambda>s. (r, s))"

text \<open>\<open>try { m } catch (...) { h }\<close>: what \<open>m\<close> has done so far stays done.\<close>

definition attempt :: "('e, 's, 'a) prog \<Rightarrow> ('e, 's, 'a) prog \<Rightarrow> ('e, 's, 'a) prog" where
  "attempt m h = (\<lambda>s. case m s of (Inl e, s') \<Rightarrow> h s' | (Inr a, s') \<Rightarrow> (Inr a, s'))"

text \<open>A loop over a list, each turn carrying a value on.\<close>

fun for_each :: "'x list \<Rightarrow> ('x \<Rightarrow> 'a \<Rightarrow> ('e, 's, 'a) prog) \<Rightarrow> 'a \<Rightarrow> ('e, 's, 'a) prog" where
  "for_each [] f a = give a"
| "for_each (x # xs) f a = seq (f x a) (for_each xs f)"

lemma seq_simps [simp]:
  "seq (give a) f = f a"
  "seq (raise e) f = raise e"
  by (auto simp: seq_def give_def raise_def)

lemma seq_eval:
  "m s = (Inr a, s') \<Longrightarrow> seq m f s = f a s'"
  "m s = (Inl e, s') \<Longrightarrow> seq m f s = (Inl e, s')"
  by (auto simp: seq_def)

lemma seq_InrE:
  assumes "seq m f s = (Inr b, s')"
  obtains a t where "m s = (Inr a, t)" and "f a t = (Inr b, s')"
  using assms by (auto simp: seq_def split: prod.splits sum.splits)

definition within :: "('s \<Rightarrow> 's \<Rightarrow> bool) \<Rightarrow> ('e, 's, 'a) prog \<Rightarrow> bool" where
  "within R m \<longleftrightarrow> (\<forall>s. R s (snd (m s)))"

lemma withinI: "(\<And>s r s'. m s = (r, s') \<Longrightarrow> R s s') \<Longrightarrow> within R m"
  unfolding within_def by (metis surjective_pairing)

lemma withinD: "within R m \<Longrightarrow> m s = (r, s') \<Longrightarrow> R s s'"
  by (auto simp: within_def dest: spec [of _ s])

locale effect_order =
  fixes R :: "'s \<Rightarrow> 's \<Rightarrow> bool"
  assumes stay: "R s s"
    and further: "R s t \<Longrightarrow> R t u \<Longrightarrow> R s u"
begin

lemma give_within: "within R (give a)"
  by (simp add: within_def give_def stay)

lemma raise_within: "within R (raise e)"
  by (simp add: within_def raise_def stay)

lemma lift_within: "within R (lift_result r)"
  by (simp add: within_def lift_result_def stay)

lemma seq_within:
  assumes m: "within R m" and f: "\<And>a. within R (f a)"
  shows "within R (seq m f)"
proof (rule withinI)
  fix s r s' assume run: "seq m f s = (r, s')"
  obtain x t where x: "m s = (x, t)" by (cases "m s")
  with m have st: "R s t" by (rule withinD)
  show "R s s'"
  proof (cases x)
    case (Inl e)
    with run x st show ?thesis by (simp add: seq_eval)
  next
    case (Inr a)
    with run x have "f a t = (r, s')" by (simp add: seq_eval)
    with st show ?thesis using withinD [OF f] further by blast
  qed
qed

lemma attempt_within: "within R m \<Longrightarrow> within R h \<Longrightarrow> within R (attempt m h)"
  unfolding attempt_def
  by (rule withinI) (auto split: prod.splits sum.splits dest: withinD intro: further)

lemma for_each_within: "(\<And>x a. within R (f x a)) \<Longrightarrow> within R (for_each xs f a)"
  by (induction xs arbitrary: a) (auto intro: give_within seq_within)

lemmas within_intros = give_within raise_within lift_within seq_within attempt_within for_each_within

end

definition triple :: "('s \<Rightarrow> bool) \<Rightarrow> ('e, 's, 'a) prog \<Rightarrow> ('a \<Rightarrow> 's \<Rightarrow> bool) \<Rightarrow> ('e \<Rightarrow> 's \<Rightarrow> bool) \<Rightarrow> bool" where
  "triple P m Q X \<longleftrightarrow> (\<forall>s. P s \<longrightarrow> (case m s of (Inl e, s') \<Rightarrow> X e s' | (Inr a, s') \<Rightarrow> Q a s'))"

lemma triple_seq:
  assumes m: "triple P m Q X" and f: "\<And>a. triple (Q a) (f a) Q' X"
  shows "triple P (seq m f) Q' X"
  unfolding triple_def
proof (intro allI impI)
  fix s assume "P s"
  with m have post: "case m s of (Inl e, s') \<Rightarrow> X e s' | (Inr a, s') \<Rightarrow> Q a s'" by (simp add: triple_def)
  obtain x t where x: "m s = (x, t)" by (cases "m s")
  show "case seq m f s of (Inl e, s') \<Rightarrow> X e s' | (Inr a, s') \<Rightarrow> Q' a s'"
  proof (cases x)
    case (Inl e)
    with x post show ?thesis by (simp add: seq_eval)
  next
    case (Inr a)
    with x post f [of a] show ?thesis by (simp add: seq_eval triple_def)
  qed
qed

lemma triple_attempt:
  assumes m: "triple P m Q Y" and h: "\<And>e. triple (Y e) h Q X"
  shows "triple P (attempt m h) Q X"
  unfolding triple_def
proof (intro allI impI)
  fix s assume "P s"
  with m have post: "case m s of (Inl e, s') \<Rightarrow> Y e s' | (Inr a, s') \<Rightarrow> Q a s'" by (simp add: triple_def)
  obtain x t where x: "m s = (x, t)" by (cases "m s")
  show "case attempt m h s of (Inl e, s') \<Rightarrow> X e s' | (Inr a, s') \<Rightarrow> Q a s'"
    using x post h by (cases x) (auto simp: attempt_def triple_def)
qed

lemma triple_raise: "(\<And>s. P s \<Longrightarrow> X e s) \<Longrightarrow> triple P (raise e) Q X"
  by (simp add: triple_def raise_def)

lemma triple_give: "(\<And>s. P s \<Longrightarrow> Q a s) \<Longrightarrow> triple P (give a) Q X"
  by (simp add: triple_def give_def)

text \<open>Over a list, the invariant sees what has been done and what is left.\<close>

lemma triple_for_each:
  assumes "\<And>x dn b. triple (I dn b) (f x b) (I (insert x dn)) X"
  shows "triple (I dn a) (for_each xs f a) (I (dn \<union> set xs)) X"
proof (induction xs arbitrary: "dn" a)
  case Nil
  show ?case by (auto intro: triple_give)
next
  case (Cons x xs)
  show ?case
    using triple_seq [OF assms Cons.IH] by simp
qed

lemma triple_weaken:
  "triple P m Q X \<Longrightarrow> (\<And>s. P' s \<Longrightarrow> P s) \<Longrightarrow> (\<And>a s. Q a s \<Longrightarrow> Q' a s) \<Longrightarrow> triple P' m Q' X"
  unfolding triple_def by (auto split: sum.splits prod.splits) blast+

lemma triple_pre: "triple P m Q X \<Longrightarrow> (\<And>s. P' s \<Longrightarrow> P s) \<Longrightarrow> triple P' m Q X"
  by (erule triple_weaken)

lemma triple_pure: "(b \<Longrightarrow> triple P m Q X) \<Longrightarrow> triple (\<lambda>s. P s \<and> b) m Q X"
  by (auto simp: triple_def)

lemma triple_if:
  "(b \<Longrightarrow> triple P m Q X) \<Longrightarrow> (\<not> b \<Longrightarrow> triple P m' Q X) \<Longrightarrow> triple P (if b then m else m') Q X"
  by simp

lemma triple_result: "triple P m Q X \<Longrightarrow> P s \<Longrightarrow> m s = (Inr a, s') \<Longrightarrow> Q a s'"
  by (auto simp: triple_def dest!: spec [of _ s])

text \<open>
  An invariant \<open>I\<close> that a program keeps however it ends; \<open>Q\<close> holds of the result, \<open>E\<close> of the
  exception.
\<close>

definition safe :: "('s \<Rightarrow> bool) \<Rightarrow> ('e \<Rightarrow> bool) \<Rightarrow> ('e, 's, 'a) prog \<Rightarrow> ('a \<Rightarrow> bool) \<Rightarrow> bool" where
  "safe I E m Q \<longleftrightarrow>
     (\<forall>s r s'. I s \<longrightarrow> m s = (r, s') \<longrightarrow> I s' \<and> (case r of Inl e \<Rightarrow> E e | Inr a \<Rightarrow> Q a))"

lemma safeI:
  "(\<And>s r s'. I s \<Longrightarrow> m s = (r, s') \<Longrightarrow> I s' \<and> (case r of Inl e \<Rightarrow> E e | Inr a \<Rightarrow> Q a)) \<Longrightarrow> safe I E m Q"
  unfolding safe_def by blast

lemma safeD:
  "safe I E m Q \<Longrightarrow> I s \<Longrightarrow> m s = (r, s') \<Longrightarrow> I s' \<and> (case r of Inl e \<Rightarrow> E e | Inr a \<Rightarrow> Q a)"
  unfolding safe_def by blast

lemma safe_give: "Q a \<Longrightarrow> safe I E (give a) Q"
  by (rule safeI) (auto simp: give_def)

lemma safe_raise: "E e \<Longrightarrow> safe I E (raise e) Q"
  by (rule safeI) (auto simp: raise_def)

lemma safe_lift: "(\<And>e. r = Inl e \<Longrightarrow> E e) \<Longrightarrow> (\<And>a. r = Inr a \<Longrightarrow> Q a) \<Longrightarrow> safe I E (lift_result r) Q"
  by (rule safeI) (auto simp: lift_result_def split: sum.split)

lemma safe_seq:
  assumes m: "safe I E m Q" and f: "\<And>a. Q a \<Longrightarrow> safe I E (f a) Q'"
  shows "safe I E (seq m f) Q'"
proof (rule safeI)
  fix s r s' assume I: "I s" and run: "seq m f s = (r, s')"
  obtain x t where x: "m s = (x, t)" by (cases "m s")
  show "I s' \<and> (case r of Inl e \<Rightarrow> E e | Inr a \<Rightarrow> Q' a)"
  proof (cases x)
    case (Inl e)
    with run x safeD [OF m I x] show ?thesis by (auto simp: seq_eval)
  next
    case (Inr a)
    with run x have "f a t = (r, s')" by (simp add: seq_eval)
    with safeD [OF m I x] Inr show ?thesis using safeD [OF f] by fastforce
  qed
qed

lemma safe_attempt:
  assumes m: "safe I E' m Q" and h: "safe I E h Q"
  shows "safe I E (attempt m h) Q"
proof (rule safeI)
  fix s r s' assume I: "I s" and run: "attempt m h s = (r, s')"
  obtain x t where x: "m s = (x, t)" by (cases "m s")
  from safeD [OF m I x] run x show "I s' \<and> (case r of Inl e \<Rightarrow> E e | Inr a \<Rightarrow> Q a)"
    using safeD [OF h, of t r s'] by (cases x) (auto simp: attempt_def)
qed

lemma safe_for_each:
  "(\<And>x a. x \<in> set xs \<Longrightarrow> Q a \<Longrightarrow> safe I E (f x a) Q) \<Longrightarrow> Q a \<Longrightarrow> safe I E (for_each xs f a) Q"
  by (induction xs arbitrary: a) (auto intro!: safe_give intro: safe_seq)

lemma safe_weaken: "safe I E m Q \<Longrightarrow> (\<And>a. Q a \<Longrightarrow> Q' a) \<Longrightarrow> safe I E m Q'"
  by (rule safeI) (auto dest: safeD split: sum.splits)

end
