(* ===== verification/AgentRun.thy ===== *)
theory AgentRun
  imports AgentStore MoneyFormat CxxText Effects
begin

text \<open>
  One run of the agent, \<^verbatim>\<open>src/src/agent/Orchestrator.hpp\<close>: model, tools, model, until the
  model asks for no tool, a tool needs a human, or the limit of calls is reached.

  The state is the agent's tables and the world \<open>'w\<close> the tool handlers and the model act
  on. The model is the argument \<open>call_model\<close>, as in the code; \<open>dump\<close> prints a JSON value.
  The \<open>for\<close> loop over the calls of the model recurses on the number of calls left, so it ends.
\<close>

datatype model_error = NotConfigured string | ModelFailure string

record ModelReply =
  reply_text :: string
  tool_calls :: "(string \<times> json) list"
  reply_input_tokens :: int
  reply_output_tokens :: int
  stop_reason :: string

type_synonym 'w ModelCaller = "json \<Rightarrow> json \<Rightarrow> 'w \<Rightarrow> (model_error + ModelReply) \<times> 'w"

record RunLimits =
  budget_tiyn :: "int option"
  period_start :: string
  max_model_calls :: int

definition default_limits :: RunLimits where
  "default_limits = \<lparr>budget_tiyn = None, period_start = ''1970-01-01T00:00:00Z'', max_model_calls = 12\<rparr>"

record RunResult =
  res_run :: string
  res_status :: string
  res_summary :: string
  res_approval :: "string option"

text \<open>What escapes a run: a failed statement, a tool that throws, an amount that cannot be printed.\<close>

datatype 'x agent_error = AgentSql sql_error | ToolThrew 'x | Unprintable money_error

type_synonym ('w, 'x, 'a) agent_prog = "('x agent_error, agent_db \<times> 'w, 'a) prog"

definition stmt :: "(agent_db \<Rightarrow> sql_error + 'a \<times> agent_db) \<Rightarrow> ('w, 'x, 'a) agent_prog" where
  "stmt f = (\<lambda>(d, w). case f d of Inl x \<Rightarrow> (Inl (AgentSql x), (d, w)) | Inr (a, d') \<Rightarrow> (Inr a, (d', w)))"

definition query :: "(agent_db \<Rightarrow> sql_error + 'a) \<Rightarrow> ('w, 'x, 'a) agent_prog" where
  "query f = (\<lambda>(d, w). case f d of Inl x \<Rightarrow> (Inl (AgentSql x), (d, w)) | Inr a \<Rightarrow> (Inr a, (d, w)))"

definition status_name :: "tool_status \<Rightarrow> string" where
  "status_name s = (case s of kExecuted \<Rightarrow> ''executed'' | kNeedsApproval \<Rightarrow> ''needs_approval'' | kRefused \<Rightarrow> ''refused'')"

text \<open>\<open>get<long long>\<close> of an integer above \<open>2 ^ 63\<close> (an unsigned one) wraps.\<close>

definition as_ll :: "int \<Rightarrow> int" where
  "as_ll n = (if n \<ge> 2 ^ 63 then n - 2 ^ 64 else n)"

definition human_diff :: "string \<Rightarrow> json \<Rightarrow> money_error + string" where
  "human_diff action args =
     rbind (case member args ''amount_tiyn'' of
              Some (JInt n) \<Rightarrow>
                rbind (format_tiyn_ru (as_ll n)) (\<lambda>t. Inr (action @ utf8 [0x2C, 0x20, 0x441, 0x443, 0x43C, 0x43C, 0x430, 0x20] @ t @ utf8 [0x20, 0x20B8]))
            | _ \<Rightarrow> Inr action) (\<lambda>out.
     let out = (case member args ''counterparty_name'' of
                  Some (JStr s) \<Rightarrow> out @ utf8 [0x2C, 0x20, 0x43A, 0x43E, 0x43D, 0x442, 0x440, 0x430, 0x433, 0x435, 0x43D, 0x442, 0x20] @ s
                | _ \<Rightarrow> out)
     in Inr (case member args ''doc_type'' of
               Some (JStr s) \<Rightarrow> out @ utf8 [0x2C, 0x20, 0x434, 0x43E, 0x43A, 0x443, 0x43C, 0x435, 0x43D, 0x442, 0x20] @ s
             | _ \<Rightarrow> out))"

definition why_budget :: "int \<Rightarrow> int \<Rightarrow> string" where
  "why_budget spent_tiyn budget =
    utf8 [0x431, 0x44E, 0x434, 0x436, 0x435, 0x442, 0x20, 0x43E, 0x440, 0x433, 0x430, 0x43D, 0x438, 0x437,
    0x430, 0x446, 0x438, 0x438, 0x20, 0x438, 0x441, 0x447, 0x435, 0x440, 0x43F, 0x430, 0x43D, 0x3A,
    0x20, 0x43F, 0x43E, 0x442, 0x440, 0x430, 0x447, 0x435, 0x43D, 0x43E, 0x20] @ to_string spent_tiyn @
    utf8 [0x20, 0x442, 0x438, 0x44B, 0x43D, 0x20, 0x43F, 0x440, 0x438, 0x20, 0x43F, 0x440, 0x435, 0x434,
    0x435, 0x43B, 0x435, 0x20] @ to_string budget"

definition why_model_failed :: "string \<Rightarrow> string" where
  "why_model_failed what =
    utf8 [0x43E, 0x431, 0x440, 0x430, 0x449, 0x435, 0x43D, 0x438, 0x435, 0x20, 0x43A, 0x20, 0x43C, 0x43E,
    0x434, 0x435, 0x43B, 0x438, 0x20, 0x43D, 0x435, 0x20, 0x443, 0x434, 0x430, 0x43B, 0x43E, 0x441,
    0x44C, 0x3A, 0x20] @ what"

definition why_call_limit :: "int \<Rightarrow> string" where
  "why_call_limit n =
    utf8 [0x43F, 0x440, 0x43E, 0x433, 0x43E, 0x43D, 0x20, 0x43E, 0x441, 0x442, 0x430, 0x43D, 0x43E, 0x432,
    0x43B, 0x435, 0x43D, 0x3A, 0x20, 0x434, 0x43E, 0x441, 0x442, 0x438, 0x433, 0x43D, 0x443, 0x442,
    0x20, 0x43F, 0x440, 0x435, 0x434, 0x435, 0x43B, 0x20, 0x43E, 0x431, 0x440, 0x430, 0x449, 0x435,
    0x43D, 0x438, 0x439, 0x20, 0x43A, 0x20, 0x43C, 0x43E, 0x434, 0x435, 0x43B, 0x438, 0x20, 0x28] @ to_string n @ '')''"

definition reason_json :: "string \<Rightarrow> json" where
  "reason_json why = object [(''reason'', JStr why)]"

text \<open>The error step, the closing of the run and the result of the three failures.\<close>

definition give_up :: "agent_env \<Rightarrow> string \<Rightarrow> string \<Rightarrow> string \<Rightarrow> string \<Rightarrow> ('w, 'x, RunResult) agent_prog" where
  "give_up e org i status_text why =
     seq (stmt (append_step e i ''error'' (reason_json why) None None None)) (\<lambda>_.
     seq (stmt (finish_run org i status_text why (Some why))) (\<lambda>_.
     give \<lparr>res_run = i, res_status = status_text, res_summary = why, res_approval = None\<rparr>))"

definition run_tool ::
  "agent_env \<Rightarrow> ('w, 'x) ToolRegistry \<Rightarrow> string \<Rightarrow> string \<Rightarrow> string \<Rightarrow> json \<Rightarrow> ('w, 'x, ToolOutcome) agent_prog" where
  "run_tool e reg org i name args = (\<lambda>(d, w).
     case execute reg \<lparr>ctx_org = org, ctx_run = i, ctx_role = ''agent''\<rparr> name args
            (\<lambda>_ action. find_policy e org action (replica e d)) w of
       (Inl x, w') \<Rightarrow> (Inl (ToolThrew x), (d, w'))
     | (Inr outcome, w') \<Rightarrow> (Inr outcome, (d, w')))"

definition call_payload :: "json \<Rightarrow> ToolOutcome \<Rightarrow> json" where
  "call_payload args outcome = object [(''args'', args), (''status'', JStr (status_name (out_status outcome)))]"

definition result_entry :: "string \<Rightarrow> ToolOutcome \<Rightarrow> json" where
  "result_entry name outcome =
     object [(''tool'', JStr name), (''status'', JStr (status_name (out_status outcome))),
             (''result'', out_result outcome), (''reason'', JStr (out_reason outcome))]"

definition ask_human ::
  "agent_env \<Rightarrow> string \<Rightarrow> string \<Rightarrow> string \<Rightarrow> json \<Rightarrow> ToolOutcome \<Rightarrow> ('w, 'x, RunResult) agent_prog" where
  "ask_human e org i name args outcome =
     seq (lift_result (case human_diff name args of Inl x \<Rightarrow> Inl (Unprintable x) | Inr t \<Rightarrow> Inr t)) (\<lambda>diff.
     seq (stmt (request_approval e org (Some i) name args diff)) (\<lambda>req.
     seq (stmt (finish_run org i ''awaiting_approval'' (out_reason outcome) None)) (\<lambda>_.
     give \<lparr>res_run = i, res_status = ''awaiting_approval'', res_summary = out_reason outcome,
           res_approval = Some (apr_id req)\<rparr>)))"

text \<open>The tools one reply asks for: \<open>Inr\<close> ends the run, \<open>Inl\<close> are the results for the model.\<close>

fun tool_loop ::
  "agent_env \<Rightarrow> ('w, 'x) ToolRegistry \<Rightarrow> string \<Rightarrow> string \<Rightarrow> (string \<times> json) list \<Rightarrow> json list
     \<Rightarrow> ('w, 'x, json list + RunResult) agent_prog" where
  "tool_loop e reg org i [] results = give (Inl results)"
| "tool_loop e reg org i ((name, args) # calls) results =
     seq (run_tool e reg org i name args) (\<lambda>outcome.
     seq (stmt (append_step e i ''tool_call'' (call_payload args outcome) (Some name)
                  (map_option mode_name (policy_mode outcome)) (Some (out_reason outcome)))) (\<lambda>_.
     if out_status outcome = kNeedsApproval
     then seq (ask_human e org i name args outcome) (\<lambda>r. give (Inr r))
     else tool_loop e reg org i calls (results @ [result_entry name outcome])))"

definition message :: "string \<Rightarrow> string \<Rightarrow> json" where
  "message role content = object [(''role'', JStr role), (''content'', JStr content)]"

definition reply_payload :: "ModelReply \<Rightarrow> json" where
  "reply_payload reply =
     object [(''text'', JStr (reply_text reply)), (''tool_calls'', JInt (int (length (tool_calls reply)))),
             (''stop_reason'', JStr (stop_reason reply))]"

definition ask_model :: "'w ModelCaller \<Rightarrow> json list \<Rightarrow> json \<Rightarrow> ('w, 'x, model_error + ModelReply) agent_prog" where
  "ask_model call_model messages tools_json = (\<lambda>(d, w).
     case call_model (JArr messages) tools_json w of (r, w') \<Rightarrow> (Inr r, (d, w')))"

text \<open>The turns of the model: \<open>Inr\<close> ends the run, \<open>Inl\<close> is \<open>final_text\<close>, empty when the calls ran out.\<close>

fun model_loop ::
  "agent_env \<Rightarrow> (json \<Rightarrow> string) \<Rightarrow> 'w ModelCaller \<Rightarrow> ('w, 'x) ToolRegistry \<Rightarrow> string \<Rightarrow> json \<Rightarrow> string \<Rightarrow> nat \<Rightarrow> json list
     \<Rightarrow> ('w, 'x, string + RunResult) agent_prog" where
  "model_loop e dump call_model reg org tools_json i 0 messages = give (Inl [])"
| "model_loop e dump call_model reg org tools_json i (Suc n) messages =
     seq (ask_model call_model messages tools_json) (\<lambda>r.
     case r of
       Inl (NotConfigured what) \<Rightarrow> seq (give_up e org i ''failed'' what) (\<lambda>x. give (Inr x))
     | Inl (ModelFailure what) \<Rightarrow> seq (give_up e org i ''failed'' (why_model_failed what)) (\<lambda>x. give (Inr x))
     | Inr reply \<Rightarrow>
         seq (stmt (add_usage org i (reply_input_tokens reply) (reply_output_tokens reply) 0)) (\<lambda>_.
         seq (stmt (append_step e i ''model_reply'' (reply_payload reply) None None None)) (\<lambda>_.
         if tool_calls reply = [] then give (Inl (reply_text reply))
         else
           seq (tool_loop e reg org i (tool_calls reply) []) (\<lambda>t.
           case t of
             Inr x \<Rightarrow> give (Inr x)
           | Inl results \<Rightarrow>
               seq (stmt (append_step e i ''tool_result'' (JArr results) None None None)) (\<lambda>_.
               model_loop e dump call_model reg org tools_json i n
                 (messages @ [message ''assistant'' (reply_text reply), message ''user'' (dump (JArr results))]))))))"

definition conclude ::
  "agent_env \<Rightarrow> string \<Rightarrow> RunLimits \<Rightarrow> string \<Rightarrow> string + RunResult \<Rightarrow> ('w, 'x, RunResult) agent_prog" where
  "conclude e org limits i t =
     (case t of
        Inr x \<Rightarrow> give x
      | Inl final_text \<Rightarrow>
          if final_text = [] then give_up e org i ''failed'' (why_call_limit (max_model_calls limits))
          else seq (stmt (finish_run org i ''succeeded'' final_text None)) (\<lambda>_.
               give \<lparr>res_run = i, res_status = ''succeeded'', res_summary = final_text, res_approval = None\<rparr>))"

definition work ::
  "agent_env \<Rightarrow> (json \<Rightarrow> string) \<Rightarrow> 'w ModelCaller \<Rightarrow> ('w, 'x) ToolRegistry \<Rightarrow> string \<Rightarrow> string \<Rightarrow> string option \<Rightarrow> string
     \<Rightarrow> json \<Rightarrow> RunLimits \<Rightarrow> ('w, 'x, RunResult) agent_prog" where
  "work e dump call_model reg org trig starter user_message tools_json limits =
     seq (stmt (start_run e org trig starter)) (\<lambda>run_row.
     seq (stmt (append_step e (run_id run_row) ''prompt'' (object [(''text'', JStr user_message)]) None None None)) (\<lambda>_.
     seq (model_loop e dump call_model reg org tools_json (run_id run_row) (nat (max_model_calls limits))
            [message ''user'' user_message])
         (conclude e org limits (run_id run_row))))"

definition run ::
  "agent_env \<Rightarrow> (json \<Rightarrow> string) \<Rightarrow> 'w ModelCaller \<Rightarrow> ('w, 'x) ToolRegistry \<Rightarrow> string \<Rightarrow> string \<Rightarrow> string option \<Rightarrow> string
     \<Rightarrow> json \<Rightarrow> RunLimits \<Rightarrow> ('w, 'x, RunResult) agent_prog" where
  "run e dump call_model reg org trig starter user_message tools_json limits =
     (case budget_tiyn limits of
        None \<Rightarrow> work e dump call_model reg org trig starter user_message tools_json limits
      | Some budget \<Rightarrow>
          seq (query (\<lambda>d. cost_since e org (period_start limits) (replica e d))) (\<lambda>spent_tiyn.
          if spent_tiyn \<ge> budget then
            seq (stmt (start_run e org trig starter)) (\<lambda>run_row.
            give_up e org (run_id run_row) ''budget_exceeded'' (why_budget spent_tiyn budget))
          else work e dump call_model reg org trig starter user_message tools_json limits))"

end
