(* ===== verification/AgentProperties.thy ===== *)
theory AgentProperties
  imports AgentRun
begin

text \<open>
  What a run of the agent guarantees: the world changes only by calls of the model and by
  tools the matrix of rights and an automatic policy let through (a refinement of a
  reference monitor), every step is traced, and a run that returns is closed.
\<close>

section \<open>Rules for the programs of a run\<close>

lemma stmt_withinI:
  "(\<And>d w a d'. f d = Inr (a, d') \<Longrightarrow> R (d, w) (d', w)) \<Longrightarrow> (\<And>s. R s s) \<Longrightarrow> within R (stmt f)"
  by (auto simp: within_def stmt_def split: sum.split)

lemma query_withinI: "(\<And>s. R s s) \<Longrightarrow> within R (query f)"
  by (auto simp: within_def query_def split: sum.split)

text \<open>
  A relation that the statements, the tools and the model respect, the whole run respects.
\<close>

locale run_relation = effect_order R
  for R :: "agent_db \<times> 'w \<Rightarrow> agent_db \<times> 'w \<Rightarrow> bool" +
  fixes e :: agent_env and call_model :: "'w ModelCaller" and reg :: "('w, 'x) ToolRegistry" and org :: string
  assumes starts: "start_run e org trig starter d = Inr (a, d') \<Longrightarrow> R (d, w) (d', w)"
    and closes: "finish_run org i st sm er d = Inr (b, d') \<Longrightarrow> R (d, w) (d', w)"
    and counts: "add_usage org i inp outp 0 d = Inr (b, d') \<Longrightarrow> R (d, w) (d', w)"
    and traces: "append_step e i kind payload tool dc rs d = Inr (s, d') \<Longrightarrow> R (d, w) (d', w)"
    and asks: "request_approval e org rid action payload diff d = Inr (q, d') \<Longrightarrow> R (d, w) (d', w)"
    and thinks: "R (d, w) (d, snd (call_model ms ts w))"
    and acts: "R (d, w) (d, snd (execute reg \<lparr>ctx_org = org, ctx_run = i, ctx_role = ''agent''\<rparr> name args
                               (\<lambda>_ action. find_policy e org action (replica e d')) w))"
begin

lemma stmts_within:
  "within R (stmt (start_run e org trig starter))"
  "within R (stmt (finish_run org i st sm er))"
  "within R (stmt (add_usage org i inp outp 0))"
  "within R (stmt (append_step e i kind payload tool dc rs))"
  "within R (stmt (request_approval e org rid action payload diff))"
  by (rule stmt_withinI, erule starts closes counts traces asks, rule stay)+

lemma query_within: "within R (query f)"
  by (rule query_withinI) (rule stay)

lemma run_tool_within: "within R (run_tool e reg org i name args)"
proof (rule withinI)
  fix s :: "agent_db \<times> 'w" and r s'
  assume run: "run_tool e reg org i name args s = (r, s')"
  obtain d w where s: "s = (d, w)" by (cases s)
  show "R s s'"
    using acts [of d w i name args d] run unfolding s run_tool_def
    by (auto split: prod.splits sum.splits)
qed

lemma ask_model_within: "within R (ask_model call_model ms ts)"
  using thinks by (auto simp: within_def ask_model_def split: prod.splits) (metis snd_conv)

lemma give_up_within: "within R (give_up e org i st why)"
  unfolding give_up_def by (intro within_intros stmts_within)

lemma ask_human_within: "within R (ask_human e org i name args outcome)"
  unfolding ask_human_def by (intro within_intros stmts_within)

lemma tool_loop_within: "within R (tool_loop e reg org i calls results)"
  by (induction calls arbitrary: results)
     (auto intro!: within_intros stmts_within run_tool_within ask_human_within split: if_splits)

lemma model_loop_within: "within R (model_loop e dump call_model reg org tools_json i n messages)"
proof (induction n arbitrary: messages)
  case 0
  show ?case by (simp add: give_within)
next
  case (Suc n)
  show ?case
    unfolding model_loop.simps
    by (intro within_intros ask_model_within)
       (auto split: sum.split model_error.split
         intro!: within_intros stmts_within give_up_within tool_loop_within Suc.IH)
qed

lemma run_within:
  "within R (run e dump call_model reg org trig starter user_message tools_json limits)"
proof -
  have "within R (conclude e org limits i t)" for i t
    unfolding conclude_def by (auto split: sum.split intro!: within_intros stmts_within give_up_within)
  then have "within R (work e dump call_model reg org trig starter user_message tools_json limits)"
    unfolding work_def by (intro within_intros stmts_within model_loop_within)
  then show ?thesis
    unfolding run_def by (auto split: option.split intro!: within_intros stmts_within query_within give_up_within)
qed

end

section \<open>The reference monitor\<close>

text \<open>
  The abstract specification: the world moves by calls of the model and by handlers of
  registered tools, called for the organization and as the agent, each let through by the
  matrix and by a row of the policy table with mode \<open>auto\<close> whose bounds the arguments meet.
\<close>

inductive monitored ::
  "policy_row list \<Rightarrow> ('w, 'x) ToolRegistry \<Rightarrow> string \<Rightarrow> 'w ModelCaller \<Rightarrow> 'w \<Rightarrow> 'w \<Rightarrow> bool"
  for pol reg org call_model where
  mon_stop: "monitored pol reg org call_model w w"
| mon_model: "monitored pol reg org call_model w w1 \<Longrightarrow> monitored pol reg org call_model w (snd (call_model ms ts w1))"
| mon_tool: "monitored pol reg org call_model w w1 \<Longrightarrow>
     map_of reg name = Some entry \<Longrightarrow>
     allows ''agent'' (spec_resource (entry_spec entry)) (spec_action (entry_spec entry)) \<Longrightarrow>
     r \<in> set pol \<Longrightarrow> plc_org r = org \<Longrightarrow> plc_action r = name \<Longrightarrow> plc_mode r = ''auto'' \<Longrightarrow>
     within_bounds (policy_of_row r) (action_of entry name args) \<Longrightarrow>
     monitored pol reg org call_model w
       (snd (handler entry \<lparr>ctx_org = org, ctx_run = i, ctx_role = ''agent''\<rparr> args w1))"

lemma monitored_trans:
  "monitored pol reg org cm v w \<Longrightarrow> monitored pol reg org cm u v \<Longrightarrow> monitored pol reg org cm u w"
  by (induction rule: monitored.induct) (auto intro: monitored.intros)

text \<open>The reads of a run see the policy table \<open>pol\<close>, in whatever order.\<close>

definition reads_policies :: "agent_env \<Rightarrow> policy_row list \<Rightarrow> bool" where
  "reads_policies e pol \<longleftrightarrow> (\<forall>d. policies (replica e d) = pol) \<and> set (scan e pol) = set pol"

lemma policy_mode_auto: "pol_mode (policy_of_row r) = kAuto \<longleftrightarrow> plc_mode r = ''auto''"
  by (auto simp: policy_of_row_def parse_mode_def)

lemma execute_monitored:
  assumes reads: "reads_policies e pol"
  shows "monitored pol reg org cm w
           (snd (execute reg \<lparr>ctx_org = org, ctx_run = i, ctx_role = ''agent''\<rparr> name args
                   (\<lambda>_ action. find_policy e org action (replica e d)) w))"
proof (cases "map_of reg name")
  case None
  then show ?thesis by (simp add: execute_def mon_stop)
next
  case (Some entry)
  let ?dec = "evaluate (find_policy e org name (replica e d)) (action_of entry name args)"
  let ?may = "allows ''agent'' (spec_resource (entry_spec entry)) (spec_action (entry_spec entry))"
  show ?thesis
  proof (cases "?may \<and> dec_mode ?dec = kAuto")
    case False
    then have "\<not> ?may \<or> dec_mode ?dec = kForbid \<or> dec_mode ?dec = kApprove"
      using Mode.exhaust by blast
    then show ?thesis by (auto simp: execute_def Some Let_def mon_stop)
  next
    case True
    then obtain p where p: "find_policy e org name (replica e d) = Some p" "pol_mode p = kAuto"
        "within_bounds p (action_of entry name args)"
      by (auto simp: evaluate_auto_iff)
    moreover have "set (scan e (policies (replica e d))) = set (policies (replica e d))"
      using reads by (simp add: reads_policies_def)
    ultimately obtain r where "r \<in> set (policies (replica e d))" "plc_org r = org" "plc_action r = name"
        "p = policy_of_row r"
      by (blast elim: find_policy_row)
    then have "monitored pol reg org cm w
        (snd (handler entry \<lparr>ctx_org = org, ctx_run = i, ctx_role = ''agent''\<rparr> args w))"
      using True p reads
      by (intro mon_tool [OF mon_stop Some, of r]) (simp_all add: policy_mode_auto reads_policies_def)
    with True show ?thesis by (auto simp: execute_def Some Let_def split: prod.split sum.split)
  qed
qed

interpretation monitor: run_relation
  "\<lambda>s s'. reads_policies e pol \<longrightarrow> monitored pol reg org call_model (snd s) (snd s')" e call_model reg org
  for e pol call_model reg org
  by unfold_locales
     (auto intro: mon_stop monitored_trans mon_model [OF mon_stop] execute_monitored)

text \<open>
  C8: A run of the agent refines the reference monitor: whatever the model asks for and
  however the run ends, the world changes only by calls of the model and by tools that the
  matrix of rights allows the agent and that an automatic policy of the organization lets
  through within its bounds.
\<close>

theorem agent_run_refines_monitor:
  assumes "reads_policies e pol"
    and "run e dump call_model reg org trig starter user_message tools_json limits (d, w) = (r, (d', w'))"
  shows "monitored pol reg org call_model w w'"
  using withinD [OF monitor.run_within assms(2)] assms(1) by auto

section \<open>The budget\<close>

definition costless :: "agent_db \<Rightarrow> bool" where
  "costless d \<longleftrightarrow> (\<forall>r \<in> set (runs d). cost_tiyn r = 0)"

lemma costless_start: "start_run e org trig starter d = Inr (a, d') \<Longrightarrow> costless d \<Longrightarrow> costless d'"
  unfolding start_run_def Let_def by (auto simp: costless_def split: if_splits)

lemma costless_same: "runs d' = runs d \<Longrightarrow> costless d' = costless d" by (simp add: costless_def)

lemma costless_map: "(\<And>r. cost_tiyn (f r) = cost_tiyn r) \<Longrightarrow> runs d' = map f (runs d) \<Longrightarrow> costless d' = costless d"
  by (simp add: costless_def)

lemma costless_finish: "finish_run org i st sm er d = Inr (b, d') \<Longrightarrow> costless d \<Longrightarrow> costless d'"
  unfolding finish_run_def by (auto simp: costless_def split: if_splits)

lemma costless_usage: "add_usage org i inp outp 0 d = Inr (b, d') \<Longrightarrow> costless d \<Longrightarrow> costless d'"
  unfolding add_usage_def Let_def by (simp split: if_splits) (erule conjE, hypsubst, auto simp: costless_def spent_def)

lemma append_step_runs: "append_step e i kind payload tool dc rs d = Inr (s, d') \<Longrightarrow> runs d' = runs d"
  unfolding append_step_def Let_def by (simp split: if_split_asm del: not_None_eq) (erule conjE, hypsubst, simp)

lemma request_approval_runs: "request_approval e org rid action payload diff d = Inr (q, d') \<Longrightarrow> runs d' = runs d"
  unfolding request_approval_def Let_def by (simp split: if_split_asm del: not_None_eq) (erule conjE, hypsubst, simp)

lemma costless_step: "append_step e i kind payload tool dc rs d = Inr (s, d') \<Longrightarrow> costless d \<Longrightarrow> costless d'"
  by (rule costless_same [THEN iffD2], rule append_step_runs)

lemma costless_ask: "request_approval e org rid action payload diff d = Inr (q, d') \<Longrightarrow> costless d \<Longrightarrow> costless d'"
  by (rule costless_same [THEN iffD2], rule request_approval_runs)

interpretation spending: run_relation
  "\<lambda>s s'. costless (fst s) \<longrightarrow> costless (fst s')" e call_model reg org
  for e call_model reg org
  by unfold_locales (simp_all add: costless_start costless_finish costless_usage costless_step costless_ask)

lemma costless_cost_since: "costless d \<Longrightarrow> cost_since e org t d = Inr c \<Longrightarrow> c = 0"
proof -
  assume "costless d" "cost_since e org t d = Inr c"
  moreover have zero: "sum_list (map cost_tiyn rs) = 0" if "\<forall>r \<in> set rs. cost_tiyn r = 0" for rs
    using that by (induction rs) auto
  ultimately show "c = 0" by (auto simp: costless_def cost_since_def Let_def split: option.splits if_splits intro!: zero)
qed

section \<open>The record of a run\<close>

text \<open>A run that returns has been closed with the status and summary it answers.\<close>

definition pending_request :: "string \<Rightarrow> string \<Rightarrow> string \<Rightarrow> agent_db \<Rightarrow> bool" where
  "pending_request org i a d \<longleftrightarrow>
     (\<exists>q \<in> set (approvals d). apr_id q = a \<and> apr_org q = org \<and> apr_run q = Some i \<and> apr_status q = ''pending'')"

definition closed :: "string \<Rightarrow> string \<Rightarrow> string set \<Rightarrow> RunResult \<Rightarrow> agent_db \<Rightarrow> bool" where
  "closed org i sts res d \<longleftrightarrow>
     res_run res = i \<and> res_status res \<in> sts \<and>
     (\<exists>r. find_run org i d = Some r \<and> run_status r = res_status res \<and> run_summary r = res_summary res) \<and>
     (case res_approval res of
        None \<Rightarrow> res_status res \<noteq> ''awaiting_approval''
      | Some a \<Rightarrow> res_status res = ''awaiting_approval'' \<and> pending_request org i a d)"

definition live :: "string \<Rightarrow> string \<Rightarrow> agent_db \<times> 'w \<Rightarrow> bool" where
  "live org i s \<longleftrightarrow> find_run org i (fst s) \<noteq> None"

abbreviation (input) returns :: "('s \<Rightarrow> bool) \<Rightarrow> ('e, 's, 'a) prog \<Rightarrow> ('a \<Rightarrow> 's \<Rightarrow> bool) \<Rightarrow> bool" where
  "returns P m Q \<equiv> triple P m Q (\<lambda>_ _. True)"

lemma returns_stmt:
  "(\<And>d w a d'. P (d, w) \<Longrightarrow> f d = Inr (a, d') \<Longrightarrow> Q a (d', w)) \<Longrightarrow> returns P (stmt f) Q"
  by (auto simp: triple_def stmt_def split: sum.split)

lemma returns_lift: "(\<And>s a. P s \<Longrightarrow> r = Inr a \<Longrightarrow> Q a s) \<Longrightarrow> returns P (lift_result r) Q"
  by (cases r) (auto simp: triple_def lift_result_def)

lemma find_run_map:
  "(\<And>r. own_run org i (f r) = own_run org i r) \<Longrightarrow>
   find (own_run org i) (map f rs) = map_option f (find (own_run org i) rs)"
  by (induction rs) auto

lemma start_run_live: "start_run e org trig st d = Inr (r, d') \<Longrightarrow> find_run org (run_id r) d' \<noteq> None"
  by (auto simp: start_run_def find_run_def own_run_def Let_def find_None_iff split: if_splits)

lemma finish_run_closes:
  assumes "finish_run org i st sm er d = Inr (b, d')" and "find_run org i d \<noteq> None"
  shows "\<exists>r. find_run org i d' = Some r \<and> run_status r = st \<and> run_summary r = sm"
proof -
  obtain r where r: "find (own_run org i) (runs d) = Some r" using assms(2) by (auto simp: find_run_def)
  then have "\<exists>r \<in> set (runs d). own_run org i r" "own_run org i r" by (auto simp: find_Some_iff)
  with assms(1) r show ?thesis
    by (auto simp: finish_run_def find_run_def find_run_map own_run_def split: if_splits)
qed

lemma stmts_live:
  "add_usage org i inp outp c d = Inr (b, d') \<Longrightarrow> find_run org i d \<noteq> None \<Longrightarrow> find_run org i d' \<noteq> None"
  "append_step e i kind payload tool dc rs d = Inr (s, d') \<Longrightarrow> find_run org i d \<noteq> None \<Longrightarrow> find_run org i d' \<noteq> None"
  "request_approval e org rid action payload diff d = Inr (q, d') \<Longrightarrow> find_run org i d \<noteq> None \<Longrightarrow>
     find_run org i d' \<noteq> None"
  by (auto simp: add_usage_def append_step_def request_approval_def find_run_def find_run_map own_run_def spent_def
      Let_def split: if_splits)

lemma give_up_closes:
  assumes "st \<noteq> ''awaiting_approval''"
  shows "returns (live org i) (give_up e org i st why) (\<lambda>res s. closed org i {st} res (fst s))"
  unfolding give_up_def
proof (rule triple_seq, rule returns_stmt)
  show "live org i (d', w)" if "live org i (d, w)" "append_step e i ''error'' (reason_json why) None None None d = Inr (a, d')"
    for d w a d' using that stmts_live(2) by (auto simp: live_def)
next
  fix a
  show "returns (live org i)
      (seq (stmt (finish_run org i st why (Some why)))
        (\<lambda>_. give \<lparr>res_run = i, res_status = st, res_summary = why, res_approval = None\<rparr>))
      (\<lambda>res s. closed org i {st} res (fst s))"
    by (rule triple_seq, rule returns_stmt [where Q = "\<lambda>_ s. \<exists>r. find_run org i (fst s) = Some r \<and> run_status r = st \<and> run_summary r = why"])
       (use assms in \<open>auto simp: live_def closed_def dest: finish_run_closes intro!: triple_give\<close>)
qed

lemma asked_live_pending:
  assumes "request_approval e org (Some i) name args diff d = Inr (q, d')" and "find_run org i d \<noteq> None"
  shows "find_run org i d' \<noteq> None" "pending_request org i (apr_id q) d'"
  using stmts_live(3) [OF assms] assms(1)
  by (auto simp: pending_request_def request_approval_def Let_def split: if_splits)

lemma finish_run_pending:
  "finish_run org i st sm er d = Inr (b, d') \<Longrightarrow> pending_request org j a d \<Longrightarrow> pending_request org j a d'"
  by (auto simp: finish_run_def pending_request_def split: if_splits)

lemma ask_human_closes:
  "returns (live org i) (ask_human e org i name args outcome)
     (\<lambda>res s. closed org i {''awaiting_approval''} res (fst s))"
  unfolding ask_human_def
proof (rule triple_seq, rule returns_lift)
  show "live org i s" if "live org i s" for s :: "agent_db \<times> 'a" using that .
next
  fix diff
  show "returns (live org i)
     (seq (stmt (request_approval e org (Some i) name args diff)) (\<lambda>req.
      seq (stmt (finish_run org i ''awaiting_approval'' (out_reason outcome) None)) (\<lambda>_.
      give \<lparr>res_run = i, res_status = ''awaiting_approval'', res_summary = out_reason outcome,
            res_approval = Some (apr_id req)\<rparr>)))
     (\<lambda>res s. closed org i {''awaiting_approval''} res (fst s))"
  proof (rule triple_seq, rule returns_stmt
      [where Q = "\<lambda>q s. find_run org i (fst s) \<noteq> None \<and> pending_request org i (apr_id q) (fst s)"])
    fix q
    show "returns (\<lambda>s. find_run org i (fst s) \<noteq> None \<and> pending_request org i (apr_id q) (fst s))
       (seq (stmt (finish_run org i ''awaiting_approval'' (out_reason outcome) None))
         (\<lambda>_. give \<lparr>res_run = i, res_status = ''awaiting_approval'', res_summary = out_reason outcome,
            res_approval = Some (apr_id q)\<rparr>))
       (\<lambda>res s. closed org i {''awaiting_approval''} res (fst s))"
      by (rule triple_seq, rule returns_stmt [where Q = "\<lambda>_ s. pending_request org i (apr_id q) (fst s) \<and>
            (\<exists>r. find_run org i (fst s) = Some r \<and> run_status r = ''awaiting_approval'' \<and> run_summary r = out_reason outcome)"])
         (auto simp: closed_def dest: finish_run_closes finish_run_pending intro!: triple_give)
  qed (auto simp: live_def dest: asked_live_pending)
qed

lemma run_tool_live: "returns (live org i) (run_tool e reg org i name args) (\<lambda>_. live org i)"
  by (auto simp: triple_def run_tool_def live_def split: prod.split sum.split)

lemma trace_live:
  "returns (live org i) (stmt (append_step e i kind payload tool dc rs)) (\<lambda>_. live org i)"
  by (rule returns_stmt) (auto simp: live_def dest: stmts_live(2))

lemma usage_live: "returns (live org i) (stmt (add_usage org i inp outp c)) (\<lambda>_. live org i)"
  by (rule returns_stmt) (auto simp: live_def dest: stmts_live(1))

definition run_ends :: "string set" where
  "run_ends = {''succeeded'', ''failed'', ''awaiting_approval''}"

lemma closed_mono: "closed org i sts res d \<Longrightarrow> sts \<subseteq> sts' \<Longrightarrow> closed org i sts' res d"
  by (auto simp: closed_def)

lemma closed_own: "closed org i sts res d \<Longrightarrow> closed org (res_run res) sts res d"
  by (auto simp: closed_def)

text \<open>After a loop: the run is still open, or it has been closed with the given result.\<close>

definition open_or_closed :: "string \<Rightarrow> string \<Rightarrow> 'b + RunResult \<Rightarrow> agent_db \<times> 'w \<Rightarrow> bool" where
  "open_or_closed org i t s \<longleftrightarrow> (case t of Inl _ \<Rightarrow> live org i s | Inr res \<Rightarrow> closed org i run_ends res (fst s))"

lemma give_up_open_or_closed:
  "returns (live org i) (seq (give_up e org i ''failed'' why) (\<lambda>x. give (Inr x))) (open_or_closed org i)"
  by (rule triple_seq, rule give_up_closes)
     (auto intro!: triple_give simp: open_or_closed_def run_ends_def elim: closed_mono)

lemma tool_loop_closes:
  "returns (live org i) (tool_loop e reg org i calls results) (open_or_closed org i)"
proof (induction calls arbitrary: results)
  case Nil
  show ?case by (auto intro!: triple_give simp: open_or_closed_def)
next
  case (Cons c calls)
  obtain name args where c: "c = (name, args)" by (cases c)
  have ask: "returns (live org i) (seq (ask_human e org i name args outcome) (\<lambda>r. give (Inr r))) (open_or_closed org i)"
    for outcome
    by (rule triple_seq, rule ask_human_closes)
       (auto intro!: triple_give simp: open_or_closed_def run_ends_def elim: closed_mono)
  show ?case
    unfolding c tool_loop.simps
    by (rule triple_seq, rule run_tool_live, rule triple_seq, rule trace_live) (simp add: ask Cons.IH)
qed

lemma model_loop_closes:
  "returns (live org i) (model_loop e dump call_model reg org tools_json i n messages) (open_or_closed org i)"
proof (induction n arbitrary: messages)
  case 0
  show ?case by (auto intro!: triple_give simp: open_or_closed_def)
next
  case (Suc n)
  have asked: "returns (live org i) (ask_model call_model messages tools_json) (\<lambda>_. live org i)"
    by (auto simp: triple_def ask_model_def live_def split: prod.split)
  have results: "returns (open_or_closed org i t)
      (case t of Inr x \<Rightarrow> give (Inr x)
       | Inl results \<Rightarrow>
           seq (stmt (append_step e i ''tool_result'' (JArr results) None None None)) (\<lambda>_.
           model_loop e dump call_model reg org tools_json i n
             (messages @ [message ''assistant'' (reply_text reply), message ''user'' (dump (JArr results))])))
      (open_or_closed org i)" for t reply
  proof (cases t)
    case (Inl results)
    have still: "open_or_closed org i (Inl results) = live org i" by (simp add: open_or_closed_def fun_eq_iff)
    show ?thesis unfolding Inl still sum.case by (rule triple_seq, rule trace_live, rule Suc.IH)
  qed (auto intro!: triple_give simp: open_or_closed_def)
  show ?case
    unfolding model_loop.simps
  proof (rule triple_seq, rule asked, goal_cases)
    case (1 a)
    show ?case
    proof (cases a)
      case (Inl m)
      then show ?thesis by (cases m) (simp_all add: give_up_open_or_closed)
    next
      case (Inr reply)
      have said: "returns (live org i) (give (Inl (reply_text reply))) (open_or_closed org i)"
        by (auto intro!: triple_give simp: open_or_closed_def)
      show ?thesis
        unfolding Inr sum.case
        by (rule triple_seq, rule usage_live, rule triple_seq, rule trace_live)
           (auto simp: said intro: triple_seq [OF tool_loop_closes results])
    qed
  qed
qed

lemma work_closes:
  "returns (\<lambda>_. True) (work e dump call_model reg org trig starter user_message tools_json limits)
     (\<lambda>res s. closed org (res_run res) run_ends res (fst s))"
proof -
  have live: "returns (\<lambda>_. True) (stmt (start_run e org trig starter)) (\<lambda>r. live org (run_id r))"
    by (rule returns_stmt) (auto simp: live_def dest: start_run_live)
  have succeed: "returns (live org i) (seq (stmt (finish_run org i ''succeeded'' fin None)) (\<lambda>_.
        give \<lparr>res_run = i, res_status = ''succeeded'', res_summary = fin, res_approval = None\<rparr>))
      (\<lambda>res s. closed org (res_run res) run_ends res (fst s))" for i fin
    by (rule triple_seq, rule returns_stmt [where Q = "\<lambda>_ s. \<exists>r. find_run org i (fst s) = Some r \<and>
          run_status r = ''succeeded'' \<and> run_summary r = fin"])
       (auto simp: live_def closed_def run_ends_def dest: finish_run_closes intro!: triple_give)
  have fail: "returns (live org i) (give_up e org i ''failed'' why)
      (\<lambda>res s. closed org (res_run res) run_ends res (fst s))" for i why
    by (rule triple_weaken [OF give_up_closes]) (auto simp: closed_def run_ends_def)
  have concludes: "returns (open_or_closed org i t) (conclude e org limits i t)
      (\<lambda>res s. closed org (res_run res) run_ends res (fst s))" for i t
  proof (cases t)
    case (Inl fin)
    have still: "open_or_closed org i (Inl fin) = live org i" by (simp add: open_or_closed_def fun_eq_iff)
    show ?thesis unfolding Inl still by (simp add: conclude_def succeed fail)
  qed (auto intro!: triple_give simp: open_or_closed_def conclude_def dest: closed_own)
  show ?thesis
    unfolding work_def
    by (rule triple_seq [OF live], rule triple_seq [OF trace_live], rule triple_seq [OF model_loop_closes], rule concludes)
qed

lemma run_closes:
  assumes "run e dump call_model reg org trig starter user_message tools_json limits (d, w) = (Inr res, s')"
  shows "closed org (res_run res) (insert ''budget_exceeded'' run_ends) res (fst s')"
proof -
  have work: "returns (\<lambda>_. True) (work e dump call_model reg org trig starter user_message tools_json limits)
      (\<lambda>res s. closed org (res_run res) (insert ''budget_exceeded'' run_ends) res (fst s))"
    by (rule triple_weaken [OF work_closes]) (auto elim: closed_mono)
  have over: "returns (\<lambda>_. True)
      (seq (stmt (start_run e org trig starter)) (\<lambda>r. give_up e org (run_id r) ''budget_exceeded'' why))
      (\<lambda>res s. closed org (res_run res) (insert ''budget_exceeded'' run_ends) res (fst s))" for why
  proof (rule triple_seq)
    show "returns (\<lambda>_. True) (stmt (start_run e org trig starter)) (\<lambda>r. live org (run_id r))"
      by (rule returns_stmt) (auto simp: live_def dest: start_run_live)
    show "returns (live org (run_id r)) (give_up e org (run_id r) ''budget_exceeded'' why)
        (\<lambda>res s. closed org (res_run res) (insert ''budget_exceeded'' run_ends) res (fst s))" for r
      by (rule triple_weaken [OF give_up_closes]) (auto simp: closed_def)
  qed
  have query: "returns (\<lambda>_. True) (query f) (\<lambda>_ _. True)" for f :: "agent_db \<Rightarrow> sql_error + int"
    by (auto simp: triple_def split: sum.split prod.split)
  have "returns (\<lambda>_. True) (run e dump call_model reg org trig starter user_message tools_json limits)
      (\<lambda>res s. closed org (res_run res) (insert ''budget_exceeded'' run_ends) res (fst s))"
  proof (cases "budget_tiyn limits")
    case (Some budget)
    have "returns (\<lambda>_. True)
        (if c \<ge> budget then
           seq (stmt (start_run e org trig starter)) (\<lambda>run_row.
           give_up e org (run_id run_row) ''budget_exceeded'' (why_budget c budget))
         else work e dump call_model reg org trig starter user_message tools_json limits)
        (\<lambda>res s. closed org (res_run res) (insert ''budget_exceeded'' run_ends) res (fst s))" for c
      by (simp add: work over)
    then show ?thesis by (simp add: run_def Some triple_seq [OF query])
  qed (simp add: run_def work)
  from triple_result [OF this TrueI assms] show ?thesis .
qed

definition numbered :: "int list \<Rightarrow> bool" where
  "numbered ks \<longleftrightarrow> (\<exists>n. ks = map int [1..<Suc n])"

lemma numbered_next:
  "numbered (map step_seq (filter (\<lambda>s. step_run s = i) (steps d))) \<Longrightarrow>
   numbered (map step_seq (filter (\<lambda>s. step_run s = i) (steps d)) @ [next_seq i d])"
  unfolding numbered_def
proof (elim exE)
  fix n assume eq: "map step_seq (filter (\<lambda>s. step_run s = i) (steps d)) = map int [1..<Suc n]"
  then have "next_seq i d = int n + 1" by (rule next_seq_contiguous)
  with eq show "\<exists>m. map step_seq (filter (\<lambda>s. step_run s = i) (steps d)) @ [next_seq i d] = map int [1..<Suc m]"
    by (intro exI [of _ "Suc n"]) simp
qed

definition traced_db :: "agent_db \<Rightarrow> bool" where
  "traced_db d \<longleftrightarrow>
     (\<forall>i. numbered (map step_seq (filter (\<lambda>s. step_run s = i) (steps d)))) \<and>
     step_run ` set (steps d) \<subseteq> run_id ` set (runs d)"

lemma append_step_traced:
  assumes "append_step e i kind payload tool dc rs d = Inr (s, d')" and "traced_db d"
  shows "traced_db d'"
proof -
  from assms(1) have d': "steps d' = steps d @ [s]" "runs d' = runs d" and s: "step_run s = i" "step_seq s = next_seq i d"
      and fk: "i \<in> run_id ` set (runs d)"
    by (auto simp: append_step_def Let_def split: if_splits)
  have "numbered (map step_seq (filter (\<lambda>s. step_run s = j) (steps d')))" for j
    using assms(2) numbered_next [of j d] by (cases "j = i") (auto simp: d' s traced_db_def)
  with assms(2) fk show ?thesis by (auto simp: traced_db_def d' s)
qed

lemma traced_db_runs:
  "traced_db d \<Longrightarrow> steps d' = steps d \<Longrightarrow> run_id ` set (runs d) \<subseteq> run_id ` set (runs d') \<Longrightarrow> traced_db d'"
  by (simp add: traced_db_def) (erule conjE, erule (1) subset_trans)

lemma stmts_run_ids:
  "start_run e org trig st d = Inr (r, d') \<Longrightarrow> steps d' = steps d \<and> run_id ` set (runs d) \<subseteq> run_id ` set (runs d')"
  "finish_run org i sta sm er d = Inr (b, d') \<Longrightarrow> steps d' = steps d \<and> map run_id (runs d') = map run_id (runs d)"
  "add_usage org i inp outp c d = Inr (b, d') \<Longrightarrow> steps d' = steps d \<and> map run_id (runs d') = map run_id (runs d)"
  "request_approval e org rid action payload diff d = Inr (q, d') \<Longrightarrow> steps d' = steps d \<and> runs d' = runs d"
  by (auto simp: start_run_def finish_run_def add_usage_def request_approval_def spent_def Let_def split: if_splits)

lemma traced_db_ids:
  "traced_db d \<Longrightarrow> steps d' = steps d \<and> map run_id (runs d') = map run_id (runs d) \<Longrightarrow> traced_db d'"
  by (elim conjE, erule (1) traced_db_runs) (metis order_refl set_map)

lemma stmts_traced:
  "start_run e org trig st d = Inr (r, d') \<Longrightarrow> traced_db d \<Longrightarrow> traced_db d'"
  "finish_run org i sta sm er d = Inr (b, d') \<Longrightarrow> traced_db d \<Longrightarrow> traced_db d'"
  "add_usage org i inp outp c d = Inr (b, d') \<Longrightarrow> traced_db d \<Longrightarrow> traced_db d'"
  "request_approval e org rid action payload diff d = Inr (q, d') \<Longrightarrow> traced_db d \<Longrightarrow> traced_db d'"
  using traced_db_runs [of d d'] traced_db_ids [of d d'] by (auto dest: stmts_run_ids)

interpretation tracing: run_relation
  "\<lambda>s s'. traced_db (fst s) \<longrightarrow> traced_db (fst s')" e call_model reg org
  for e call_model reg org
  by unfold_locales (auto dest: stmts_traced append_step_traced)

text \<open>
  C28: A run that returns has left its record: the row of the run carries the status and the
  summary that were answered, a run that waits for a human has its pending request in the
  inbox, and the steps of every run are numbered from one without a gap.
\<close>

theorem agent_run_is_recorded:
  assumes "traced_db d"
    and "run e dump call_model reg org trig starter user_message tools_json limits (d, w) = (Inr res, (d', w'))"
  shows "closed org (res_run res) (insert ''budget_exceeded'' run_ends) res d' \<and> traced_db d'"
  using run_closes [OF assms(2)] withinD [OF tracing.run_within assms(2)] assms(1) by simp

text \<open>
  Runs are recorded at no cost, so a positive budget never stops one.
\<close>

theorem budget_never_stops_a_run:
  assumes "costless d" and "\<And>d. costless d \<Longrightarrow> costless (replica e d)"
    and "run e dump call_model reg org trig starter user_message tools_json limits (d, w) = (Inr res, (d', w'))"
    and "budget_tiyn limits = Some budget" and "0 < budget"
  shows "res_status res \<noteq> ''budget_exceeded'' \<and> costless d'"
proof
  show "costless d'" using withinD [OF spending.run_within assms(3)] assms(1) by simp
  obtain c where c: "cost_since e org (period_start limits) (replica e d) = Inr c"
      and rest: "(if c \<ge> budget then
            seq (stmt (start_run e org trig starter)) (\<lambda>run_row.
            give_up e org (run_id run_row) ''budget_exceeded'' (why_budget c budget))
          else work e dump call_model reg org trig starter user_message tools_json limits) (d, w) = (Inr res, (d', w'))"
    using assms(3) unfolding run_def assms(4) option.case
    by (rule seq_InrE) (auto simp: query_def split: sum.splits)
  from c assms(1,2) have "c = 0" by (blast dest: costless_cost_since)
  with rest assms(5) have "work e dump call_model reg org trig starter user_message tools_json limits (d, w) = (Inr res, (d', w'))"
    by simp
  from triple_result [OF work_closes TrueI this] show "res_status res \<noteq> ''budget_exceeded''"
    by (auto simp: closed_def run_ends_def)
qed

text \<open>An amount the printer refuses escapes the run instead of reaching the inbox.\<close>

lemma human_diff_negative:
  "member args ''amount_tiyn'' = Some (JInt n) \<Longrightarrow> as_ll n < 0 \<Longrightarrow> human_diff action args = Inl NegativeAmount"
  by (simp add: human_diff_def format_tiyn_ru_def)

section \<open>A run\<close>

text \<open>
  An organization lets the agent book entries up to 1000 tiyn by itself. The model, played
  by a script of replies, books one of 500 tiyn and says so. The world is the script and
  the list of booked arguments.
\<close>

type_synonym demo_world = "ModelReply list \<times> json list"

definition demo_model :: "demo_world ModelCaller" where
  "demo_model messages tools w =
     (case w of ([], log) \<Rightarrow> (Inl (ModelFailure ''no reply''), w) | (r # rs, log) \<Rightarrow> (Inr r, (rs, log)))"

definition demo_book :: "(demo_world, unit) ToolHandler" where
  "demo_book ctx args = (\<lambda>(rs, log). (Inr (object [(''ok'', JBool True)]), (rs, args # log)))"

definition demo_tools :: "(demo_world, unit) ToolRegistry" where
  "demo_tools =
     add_tool \<lparr>spec_name = ''book'', spec_resource = kJournal, spec_action = kWrite, spec_summary = [], carries_amount = True\<rparr>
       demo_book (Some (\<lambda>args. no_action\<lparr>amount_tiyn := (case member args ''amount_tiyn'' of Some (JInt n) \<Rightarrow> Some n | _ \<Rightarrow> None)\<rparr>)) []"

definition demo_policy :: policy_row where
  "demo_policy = \<lparr>plc_org = ''org'', plc_action = ''book'', plc_mode = ''auto'', plc_max_amount = Some 1000,
                  plc_allowlist = None, plc_doc_type = None, plc_prior = False\<rparr>"

definition demo_db :: agent_db where
  "demo_db = \<lparr>agent_orgs = [''org''], agent_users = [], runs = [], steps = [], policies = [demo_policy],
              approvals = [], ticks = 0\<rparr>"

definition demo_env :: agent_env where
  "demo_env = \<lparr>drawn_uuid = (\<lambda>n. replicate n (CHR ''u'')), now_at = int, ts_in = (\<lambda>_. Some 0), scan = (\<lambda>rs. rs),
               replica = (\<lambda>d. d\<lparr>policies := [demo_policy]\<rparr>)\<rparr>"

definition demo_args :: json where
  "demo_args = JObj [(''amount_tiyn'', JInt 500)]"

definition demo_script :: "ModelReply list" where
  "demo_script =
     [\<lparr>reply_text = [], tool_calls = [(''book'', demo_args)], reply_input_tokens = 10, reply_output_tokens = 5,
       stop_reason = ''tool_use''\<rparr>,
      \<lparr>reply_text = ''booked'', tool_calls = [], reply_input_tokens = 12, reply_output_tokens = 3, stop_reason = ''end''\<rparr>]"

definition demo_limits :: RunLimits where
  "demo_limits = default_limits\<lparr>budget_tiyn := Some 100\<rparr>"

definition demo_run :: "(unit agent_error + RunResult) \<times> agent_db \<times> demo_world" where
  "demo_run = run demo_env (\<lambda>_. ''[]'') demo_model demo_tools ''org'' ''chat'' None ''book it'' (JArr []) demo_limits
                (demo_db, (demo_script, []))"

lemma demo_run_eval:
  "(case demo_run of
      (Inr res, (d, w)) \<Rightarrow> res_status res = ''succeeded'' \<and> res_summary res = ''booked'' \<and> length (steps d) = 5 \<and> w = ([], [demo_args])
    | _ \<Rightarrow> False)"
  by (simp add: demo_run_def run_def work_def demo_limits_def default_limits_def query_def cost_since_def demo_env_def
      demo_db_def seq_def stmt_def start_run_def append_step_def run_triggers_def step_kinds_def next_seq_def in_int_def in_ll_def
      demo_script_def ask_model_def demo_model_def add_usage_def own_run_def spent_def eval_nat_numeral
      run_tool_def execute_def demo_tools_def add_tool_def allows_eval action_of_def evaluate_def no_action_def demo_policy_def
      find_policy_def policy_of_row_def parse_mode_def check_amount_def check_counterparty_def check_doc_type_def check_precedent_def
      demo_args_def demo_book_def mode_name_def give_def conclude_def finish_run_def run_statuses_def Let_def)

lemma demo_run_cases:
  obtains res d where "demo_run = (Inr res, (d, ([], [demo_args])))" "res_status res = ''succeeded''" "length (steps d) = 5"
  using demo_run_eval by (auto split: prod.splits sum.splits)

theorem agent_run_refines_monitor_witness:
  "\<exists>r d w. demo_run = (r, (d, w)) \<and> snd w = [demo_args] \<and>
           monitored [demo_policy] demo_tools ''org'' demo_model (demo_script, []) w"
proof (rule demo_run_cases)
  fix res d assume eq: "demo_run = (Inr res, (d, ([], [demo_args])))"
  have "reads_policies demo_env [demo_policy]" by (simp add: reads_policies_def demo_env_def)
  from agent_run_refines_monitor [OF this eq [unfolded demo_run_def]] eq show ?thesis by auto
qed

theorem agent_run_is_recorded_witness:
  "\<exists>res d w. demo_run = (Inr res, (d, w)) \<and> length (steps d) = 5 \<and> traced_db d \<and>
             closed ''org'' (res_run res) (insert ''budget_exceeded'' run_ends) res d"
proof (rule demo_run_cases)
  fix res d assume eq: "demo_run = (Inr res, (d, ([], [demo_args])))" and five: "length (steps d) = 5"
  have "traced_db demo_db" by (simp add: traced_db_def demo_db_def numbered_def exI [of _ 0])
  from agent_run_is_recorded [OF this eq [unfolded demo_run_def]] eq five show ?thesis by blast
qed

theorem budget_never_stops_a_run_witness:
  "\<exists>res d w. demo_run = (Inr res, (d, w)) \<and> budget_tiyn demo_limits = Some 100 \<and>
             res_status res \<noteq> ''budget_exceeded'' \<and> costless d"
proof (rule demo_run_cases)
  fix res d assume eq: "demo_run = (Inr res, (d, ([], [demo_args])))"
  have "costless demo_db" "costless (replica demo_env d)" if "costless d" for d
    using that by (simp_all add: costless_def demo_db_def demo_env_def)
  from budget_never_stops_a_run [OF _ _ eq [unfolded demo_run_def]] this eq show ?thesis
    by (auto simp: demo_limits_def costless_def demo_db_def demo_env_def)
qed

end
