(* ===== verification/Redis.thy ===== *)
theory Redis
  imports Effects Json "HOL-Library.Char_ord" "HOL-Library.List_Lexorder" "HOL-Library.Product_Lexorder"
begin

text \<open>
  The commands of the Redis server the job queue uses, by their documented behaviour. The
  server is not under \<^verbatim>\<open>src\<close>; it is a record of the keyspaces the code touches: values
  (parsed JSON with an expiry time), lists with the left end first, sorted sets as members
  with their scores, and sets.

  Commands are counted, and the record \<open>surroundings\<close> gives for each number the time and what
  becomes of the command: it is answered, it is lost before the server has seen it, or it is
  carried out and the answer is lost. In both last cases the client library throws.
\<close>

datatype fault = Answered | Lost | Unanswered

record redis =
  kv :: "string \<Rightarrow> (json \<times> int option) option"
  lists :: "string \<Rightarrow> string list"
  zsets :: "string \<Rightarrow> (string \<times> int) list"
  sets :: "string \<Rightarrow> string list"
  calls :: nat

record surroundings =
  fault_of :: "nat \<Rightarrow> fault"
  clock_ms :: "nat \<Rightarrow> int"
  new_uuid :: "nat \<Rightarrow> string"
  traceparent_of :: "nat \<Rightarrow> string"
  trunc_float :: "string \<Rightarrow> int"

definition no_data :: redis where
  "no_data = \<lparr>kv = (\<lambda>_. None), lists = (\<lambda>_. []), zsets = (\<lambda>_. []), sets = (\<lambda>_. []), calls = 0\<rparr>"

datatype job_error =
  NotInitialized | JobNotFound string | RedisFailure | BadJson | LengthError | CounterOverflow

type_synonym 'a jobs_prog = "(job_error, redis, 'a) prog"

definition command :: "surroundings \<Rightarrow> (int \<Rightarrow> redis \<Rightarrow> 'a \<times> redis) \<Rightarrow> 'a jobs_prog" where
  "command e f = (\<lambda>s.
     let n = calls s;
         (a, s') = f (clock_ms e n) (s\<lparr>calls := Suc n\<rparr>)
     in case fault_of e n of
          Answered \<Rightarrow> (Inr a, s')
        | Lost \<Rightarrow> (Inl RedisFailure, s\<lparr>calls := Suc n\<rparr>)
        | Unanswered \<Rightarrow> (Inl RedisFailure, s'))"

definition now_ms :: "surroundings \<Rightarrow> int jobs_prog" where
  "now_ms e = (\<lambda>s. (Inr (clock_ms e (calls s)), s))"

definition now_epoch :: "surroundings \<Rightarrow> int jobs_prog" where
  "now_epoch e = (\<lambda>s. (Inr (clock_ms e (calls s) div 1000), s))"

section \<open>Values\<close>

definition unexpired :: "int \<Rightarrow> json \<times> int option \<Rightarrow> bool" where
  "unexpired now v = (case snd v of None \<Rightarrow> True | Some t \<Rightarrow> now < t)"

definition do_get :: "string \<Rightarrow> int \<Rightarrow> redis \<Rightarrow> json option \<times> redis" where
  "do_get k now s =
     ((case kv s k of None \<Rightarrow> None | Some v \<Rightarrow> if unexpired now v then Some (fst v) else None), s)"

definition do_mget :: "string list \<Rightarrow> int \<Rightarrow> redis \<Rightarrow> json option list \<times> redis" where
  "do_mget ks now s = (map (\<lambda>k. fst (do_get k now s)) ks, s)"

definition do_set :: "string \<Rightarrow> json \<Rightarrow> int \<Rightarrow> redis \<Rightarrow> unit \<times> redis" where
  "do_set k j now s = ((), s\<lparr>kv := (kv s)(k := Some (j, None))\<rparr>)"

definition do_setex :: "string \<Rightarrow> int \<Rightarrow> json \<Rightarrow> int \<Rightarrow> redis \<Rightarrow> unit \<times> redis" where
  "do_setex k ttl j now s = ((), s\<lparr>kv := (kv s)(k := Some (j, Some (now + ttl * 1000)))\<rparr>)"

section \<open>Lists\<close>

definition do_lpush :: "string \<Rightarrow> string \<Rightarrow> int \<Rightarrow> redis \<Rightarrow> unit \<times> redis" where
  "do_lpush k x now s = ((), s\<lparr>lists := (lists s)(k := x # lists s k)\<rparr>)"

definition do_rpush :: "string \<Rightarrow> string \<Rightarrow> int \<Rightarrow> redis \<Rightarrow> unit \<times> redis" where
  "do_rpush k x now s = ((), s\<lparr>lists := (lists s)(k := lists s k @ [x])\<rparr>)"

definition do_brpoplpush :: "string \<Rightarrow> string \<Rightarrow> int \<Rightarrow> redis \<Rightarrow> string option \<times> redis" where
  "do_brpoplpush src dst now s =
     (if lists s src = [] then (None, s)
      else let x = last (lists s src);
               ls = (lists s)(src := butlast (lists s src))
           in (Some x, s\<lparr>lists := ls(dst := x # ls dst)\<rparr>))"

definition do_brpop :: "string list \<Rightarrow> int \<Rightarrow> redis \<Rightarrow> (string \<times> string) option \<times> redis" where
  "do_brpop ks now s =
     (case find (\<lambda>k. lists s k \<noteq> []) ks of
        None \<Rightarrow> (None, s)
      | Some k \<Rightarrow> (Some (k, last (lists s k)), s\<lparr>lists := (lists s)(k := butlast (lists s k))\<rparr>))"

definition do_lrem :: "string \<Rightarrow> string \<Rightarrow> int \<Rightarrow> redis \<Rightarrow> unit \<times> redis" where
  "do_lrem k x now s = ((), s\<lparr>lists := (lists s)(k := filter (\<lambda>y. y \<noteq> x) (lists s k))\<rparr>)"

definition do_del_list :: "string \<Rightarrow> int \<Rightarrow> redis \<Rightarrow> unit \<times> redis" where
  "do_del_list k now s = ((), s\<lparr>lists := (lists s)(k := [])\<rparr>)"

text \<open>Positions count from zero, negative ones from the end; both ends are included.\<close>

definition redis_range :: "int \<Rightarrow> int \<Rightarrow> 'a list \<Rightarrow> 'a list" where
  "redis_range start stop xs =
     (let n = int (length xs);
          a = (if start < 0 then max 0 (n + start) else start);
          b = (if stop < 0 then n + stop else stop)
      in if a > b \<or> a \<ge> n then [] else take (nat (min b (n - 1) - a + 1)) (drop (nat a) xs))"

definition do_lrange :: "string \<Rightarrow> int \<Rightarrow> int \<Rightarrow> int \<Rightarrow> redis \<Rightarrow> string list \<times> redis" where
  "do_lrange k start stop now s = (redis_range start stop (lists s k), s)"

section \<open>Sorted sets and sets\<close>

definition do_zadd :: "string \<Rightarrow> string \<Rightarrow> int \<Rightarrow> int \<Rightarrow> redis \<Rightarrow> unit \<times> redis" where
  "do_zadd k x score now s =
     ((), s\<lparr>zsets := (zsets s)(k := filter (\<lambda>(y, _). y \<noteq> x) (zsets s k) @ [(x, score)])\<rparr>)"

definition do_zrem :: "string \<Rightarrow> string \<Rightarrow> int \<Rightarrow> redis \<Rightarrow> nat \<times> redis" where
  "do_zrem k x now s =
     ((if x \<in> fst ` set (zsets s k) then 1 else 0),
      s\<lparr>zsets := (zsets s)(k := filter (\<lambda>(y, _). y \<noteq> x) (zsets s k))\<rparr>)"

definition zordered :: "(string \<times> int) list \<Rightarrow> string list" where
  "zordered z = map fst (sort_key (\<lambda>(x, score). (score, x)) z)"

definition do_zrangebyscore :: "string \<Rightarrow> int \<Rightarrow> int \<Rightarrow> int \<Rightarrow> redis \<Rightarrow> string list \<times> redis" where
  "do_zrangebyscore k lo hi now s = (zordered (filter (\<lambda>(_, score). lo \<le> score \<and> score \<le> hi) (zsets s k)), s)"

definition do_zrevrange :: "string \<Rightarrow> int \<Rightarrow> int \<Rightarrow> int \<Rightarrow> redis \<Rightarrow> string list \<times> redis" where
  "do_zrevrange k start stop now s = (redis_range start stop (rev (zordered (zsets s k))), s)"

definition do_zcard :: "string \<Rightarrow> int \<Rightarrow> redis \<Rightarrow> nat \<times> redis" where
  "do_zcard k now s = (length (zsets s k), s)"

definition do_sadd :: "string \<Rightarrow> string \<Rightarrow> int \<Rightarrow> redis \<Rightarrow> unit \<times> redis" where
  "do_sadd k x now s = ((), s\<lparr>sets := (sets s)(k := (if x \<in> set (sets s k) then sets s k else sets s k @ [x]))\<rparr>)"

definition do_srem :: "string \<Rightarrow> string \<Rightarrow> int \<Rightarrow> redis \<Rightarrow> unit \<times> redis" where
  "do_srem k x now s = ((), s\<lparr>sets := (sets s)(k := filter (\<lambda>y. y \<noteq> x) (sets s k))\<rparr>)"

definition do_smembers :: "string \<Rightarrow> int \<Rightarrow> redis \<Rightarrow> string list \<times> redis" where
  "do_smembers k now s = (sets s k, s)"

definition do_scard :: "string \<Rightarrow> int \<Rightarrow> redis \<Rightarrow> nat \<times> redis" where
  "do_scard k now s = (length (sets s k), s)"

lemmas list_commands = do_lpush_def do_rpush_def do_brpoplpush_def do_brpop_def do_lrem_def do_del_list_def do_lrange_def
lemmas zset_commands = do_zadd_def do_zrem_def do_zrangebyscore_def do_zrevrange_def do_zcard_def
lemmas set_commands = do_sadd_def do_srem_def do_smembers_def do_scard_def

section \<open>Commands and relations\<close>

text \<open>
  Whatever becomes of a command, it counts one call and either has its effect or has none.
\<close>

lemma command_within:
  assumes "\<And>s. R s (s\<lparr>calls := Suc (calls s)\<rparr>)"
    and "\<And>now s. R s (snd (f now (s\<lparr>calls := Suc (calls s)\<rparr>)))"
  shows "within R (command e f)"
proof (rule withinI)
  fix s r s' assume run: "command e f s = (r, s')"
  obtain a t where t: "f (clock_ms e (calls s)) (s\<lparr>calls := Suc (calls s)\<rparr>) = (a, t)"
    by (cases "f (clock_ms e (calls s)) (s\<lparr>calls := Suc (calls s)\<rparr>)")
  with assms(2) [of s "clock_ms e (calls s)"] have "R s t" by simp
  then show "R s s'"
    using run t assms(1) [of s] by (auto simp: command_def Let_def split: fault.splits)
qed

lemma command_answered:
  "fault_of e (calls s) = Answered \<Longrightarrow>
   command e f s = (case f (clock_ms e (calls s)) (s\<lparr>calls := Suc (calls s)\<rparr>) of (a, s') \<Rightarrow> (Inr a, s'))"
  by (simp add: command_def split: prod.split)

end
