(* ===== verification/Jobs.thy ===== *)
theory Jobs
  imports Redis CxxText
begin

text \<open>
  The background job queue on Redis: \<^verbatim>\<open>src/src/jobs/Job.hpp\<close> and \<^verbatim>\<open>src/src/jobs/Jobs.hpp\<close>.

  A job is a JSON value under \<open>job:<id>\<close>; its identifier moves between the queue of its
  type, the processing list of a worker, the delayed set and the dead-letter list. An
  operation is a program over the commands of \<open>Redis\<close>, any of which may fail. The fields
  of the \<open>JobQueue\<close> object are the record \<open>queue_cfg\<close>. Seconds and milliseconds are
  integers; a blocking pop is the moment at which it returns.
\<close>

section \<open>Job\<close>

record Job =
  job_id :: string
  job_type :: string
  payload :: json
  job_status :: string
  job_result :: json
  job_error_text :: string
  worker_id :: string
  trace_id :: string
  traceparent :: string
  retry_count :: int
  max_retries :: int
  created_at :: int
  updated_at :: int

definition to_json :: "Job \<Rightarrow> json" where
  "to_json j =
     object [(''id'', JStr (job_id j)), (''type'', JStr (job_type j)), (''payload'', payload j),
             (''status'', JStr (job_status j)), (''result'', job_result j), (''error'', JStr (job_error_text j)),
             (''worker_id'', JStr (worker_id j)), (''trace_id'', JStr (trace_id j)),
             (''traceparent'', JStr (traceparent j)), (''retry_count'', JInt (retry_count j)),
             (''max_retries'', JInt (max_retries j)), (''created_at'', JInt (created_at j)),
             (''updated_at'', JInt (updated_at j))]"

definition wrap :: "nat \<Rightarrow> int \<Rightarrow> int" where
  "wrap w n = (n + 2 ^ (w - 1)) mod 2 ^ w - 2 ^ (w - 1)"

text \<open>\<open>get<int>\<close> and \<open>get<int64_t>\<close> convert every arithmetic value, \<open>get<std::string>\<close> only text.\<close>

definition get_int :: "surroundings \<Rightarrow> nat \<Rightarrow> json \<Rightarrow> job_error + int" where
  "get_int e w j =
     (case j of
        JInt n \<Rightarrow> Inr (wrap w n)
      | JBool b \<Rightarrow> Inr (if b then 1 else 0)
      | JFloat t \<Rightarrow> Inr (trunc_float e t)
      | _ \<Rightarrow> Inl BadJson)"

definition get_string :: "json \<Rightarrow> job_error + string" where
  "get_string j = (case j of JStr s \<Rightarrow> Inr s | _ \<Rightarrow> Inl BadJson)"

definition at_key :: "json \<Rightarrow> string \<Rightarrow> job_error + json" where
  "at_key j k = (case member j k of Some v \<Rightarrow> Inr v | None \<Rightarrow> Inl BadJson)"

definition value_or :: "json \<Rightarrow> string \<Rightarrow> 'a \<Rightarrow> (json \<Rightarrow> job_error + 'a) \<Rightarrow> job_error + 'a" where
  "value_or j k dflt get =
     (if \<not> is_object j then Inl BadJson else case member j k of Some v \<Rightarrow> get v | None \<Rightarrow> Inr dflt)"

definition from_json :: "surroundings \<Rightarrow> json \<Rightarrow> job_error + Job" where
  "from_json e j =
     rbind (rbind (at_key j ''id'') get_string) (\<lambda>i.
     rbind (rbind (at_key j ''type'') get_string) (\<lambda>ty.
     rbind (value_or j ''payload'' (JObj []) Inr) (\<lambda>pl.
     rbind (rbind (at_key j ''status'') get_string) (\<lambda>st.
     rbind (value_or j ''result'' JNull Inr) (\<lambda>res.
     rbind (value_or j ''error'' [] get_string) (\<lambda>er.
     rbind (value_or j ''worker_id'' [] get_string) (\<lambda>wk.
     rbind (value_or j ''trace_id'' [] get_string) (\<lambda>tr.
     rbind (value_or j ''traceparent'' [] get_string) (\<lambda>tp.
     rbind (value_or j ''retry_count'' 0 (get_int e 32)) (\<lambda>rc.
     rbind (value_or j ''max_retries'' 3 (get_int e 32)) (\<lambda>mr.
     rbind (value_or j ''created_at'' 0 (get_int e 64)) (\<lambda>ca.
     rbind (value_or j ''updated_at'' 0 (get_int e 64)) (\<lambda>ua.
     Inr \<lparr>job_id = i, job_type = ty, payload = pl, job_status = st, job_result = res, job_error_text = er,
          worker_id = wk, trace_id = tr, traceparent = tp, retry_count = rc, max_retries = mr,
          created_at = ca, updated_at = ua\<rparr>)))))))))))))"

definition job_key :: "string \<Rightarrow> string" where "job_key i = ''job:'' @ i"
definition queue_key :: "string \<Rightarrow> string" where "queue_key ty = ''jobs:queue:'' @ ty"
definition dlq_key :: "string \<Rightarrow> string" where "dlq_key ty = ''jobs:dlq:'' @ ty"
definition index_key :: string where "index_key = ''jobs:index''"
definition index_key_for :: "string \<Rightarrow> string" where "index_key_for ty = ''jobs:index:'' @ ty"
definition processing_key :: "string \<Rightarrow> string" where "processing_key w = ''jobs:processing:'' @ w"
definition delayed_key :: string where "delayed_key = ''jobs:delayed''"
definition leases_key :: string where "leases_key = ''jobs:leases''"
definition kDlqAllKey :: string where "kDlqAllKey = ''jobs:dlq:_all''"

section \<open>JobQueue\<close>

record queue_cfg =
  initialized :: bool
  result_ttl :: int
  default_max_retries :: int
  retry_backoff_base_ms :: int
  retry_backoff_max_ms :: int
  visibility_timeout_ms :: int

definition set_retry_backoff :: "int \<Rightarrow> int \<Rightarrow> queue_cfg \<Rightarrow> queue_cfg" where
  "set_retry_backoff base_ms max_ms q =
     q\<lparr>retry_backoff_base_ms := (if base_ms < 0 then 0 else base_ms),
       retry_backoff_max_ms := (if max_ms < base_ms then base_ms else max_ms)\<rparr>"

definition set_visibility_timeout :: "int \<Rightarrow> queue_cfg \<Rightarrow> queue_cfg" where
  "set_visibility_timeout sec q = q\<lparr>visibility_timeout_ms := (if sec \<le> 0 then 0 else sec * 1000)\<rparr>"

text \<open>The shift wraps to 64 bits, as C++20 has it.\<close>

definition backoff_delay_ms :: "queue_cfg \<Rightarrow> int \<Rightarrow> int" where
  "backoff_delay_ms q retries =
     (if retry_backoff_base_ms q \<le> 0 then 0
      else
        let shift = (if retries > 0 then retries - 1 else 0);
            shift = (if shift > 30 then 30 else shift);
            delay = wrap 64 (retry_backoff_base_ms q * 2 ^ nat shift)
        in if delay \<le> 0 \<or> delay > retry_backoff_max_ms q then retry_backoff_max_ms q else delay)"

definition check_initialized :: "queue_cfg \<Rightarrow> unit jobs_prog" where
  "check_initialized q = (if initialized q then give () else raise NotInitialized)"

definition get_job :: "surroundings \<Rightarrow> string \<Rightarrow> json option jobs_prog" where
  "get_job e i = command e (do_get (job_key i))"

definition decode :: "surroundings \<Rightarrow> json \<Rightarrow> Job jobs_prog" where
  "decode e v = lift_result (from_json e v)"

definition store :: "surroundings \<Rightarrow> string \<Rightarrow> Job \<Rightarrow> unit jobs_prog" where
  "store e i j = command e (do_set (job_key i) (to_json j))"

text \<open>The server refuses an expiry that is not positive.\<close>

definition store_for :: "surroundings \<Rightarrow> string \<Rightarrow> int \<Rightarrow> Job \<Rightarrow> unit jobs_prog" where
  "store_for e i ttl j =
     (if ttl \<le> 0 then raise RedisFailure else command e (do_setex (job_key i) ttl (to_json j)))"

definition clear_lease :: "surroundings \<Rightarrow> queue_cfg \<Rightarrow> string \<Rightarrow> unit jobs_prog" where
  "clear_lease e q i =
     (if visibility_timeout_ms q \<le> 0 then give ()
      else attempt (seq (command e (do_zrem leases_key i)) (\<lambda>_. give ())) (give ()))"

definition leave_processing :: "surroundings \<Rightarrow> Job \<Rightarrow> string \<Rightarrow> unit jobs_prog" where
  "leave_processing e j i =
     (if worker_id j \<noteq> [] then attempt (command e (do_lrem (processing_key (worker_id j)) i)) (give ()) else give ())"

definition fresh_job :: "surroundings \<Rightarrow> queue_cfg \<Rightarrow> string \<Rightarrow> json \<Rightarrow> int \<Rightarrow> int \<Rightarrow> nat \<Rightarrow> Job" where
  "fresh_job e q ty pl mr now n =
     \<lparr>job_id = new_uuid e n, job_type = ty, payload = pl, job_status = ''pending'', job_result = JNull,
      job_error_text = [], worker_id = [], trace_id = [], traceparent = traceparent_of e n, retry_count = 0,
      max_retries = (if mr \<ge> 0 then mr else default_max_retries q), created_at = now, updated_at = now\<rparr>"

definition submit :: "surroundings \<Rightarrow> queue_cfg \<Rightarrow> string \<Rightarrow> json \<Rightarrow> int \<Rightarrow> Job jobs_prog" where
  "submit e q ty pl mr =
     seq (check_initialized q) (\<lambda>_.
     seq (now_epoch e) (\<lambda>now.
     seq (\<lambda>s. (Inr (fresh_job e q ty pl mr now (calls s)), s)) (\<lambda>job.
     seq (store e (job_id job) job) (\<lambda>_.
     seq (command e (do_lpush (queue_key ty) (job_id job))) (\<lambda>_.
     seq (attempt
           (seq (command e (do_zadd index_key (job_id job) (created_at job))) (\<lambda>_.
            command e (do_zadd (index_key_for ty) (job_id job) (created_at job))))
           (give ())) (\<lambda>_.
     give job))))))"

text \<open>The identifier a worker takes, with the queue it came from already behind it.\<close>

definition take_id :: "surroundings \<Rightarrow> string list \<Rightarrow> string \<Rightarrow> string option jobs_prog" where
  "take_id e types proc_list =
     (case types of
        [] \<Rightarrow> raise RedisFailure
      | [ty] \<Rightarrow> command e (do_brpoplpush (queue_key ty) proc_list)
      | _ \<Rightarrow>
          seq (command e (do_brpop (map queue_key types))) (\<lambda>r.
          case r of
            None \<Rightarrow> give None
          | Some (k, i) \<Rightarrow>
              attempt (seq (command e (do_rpush proc_list i)) (\<lambda>_. give (Some i)))
                (attempt (seq (command e (do_rpush k i)) (\<lambda>_. give None)) (give None))))"

definition lease :: "surroundings \<Rightarrow> queue_cfg \<Rightarrow> string \<Rightarrow> unit jobs_prog" where
  "lease e q i =
     (if visibility_timeout_ms q > 0 then
        attempt (seq (now_ms e) (\<lambda>now. command e (do_zadd leases_key i (now + visibility_timeout_ms q)))) (give ())
      else give ())"

definition claim :: "surroundings \<Rightarrow> queue_cfg \<Rightarrow> string \<Rightarrow> json \<Rightarrow> Job jobs_prog" where
  "claim e q w v =
     seq (decode e v) (\<lambda>j.
     seq (now_epoch e) (\<lambda>now.
     let job = j\<lparr>job_status := ''processing'', worker_id := w, updated_at := now\<rparr>
     in seq (store e (job_id job) job) (\<lambda>_.
        seq (lease e q (job_id job)) (\<lambda>_.
        give job))))"

definition pick :: "surroundings \<Rightarrow> queue_cfg \<Rightarrow> string list \<Rightarrow> string \<Rightarrow> Job option jobs_prog" where
  "pick e q types w =
     seq (check_initialized q) (\<lambda>_.
     seq (take_id e types (processing_key w)) (\<lambda>taken.
     case taken of
       None \<Rightarrow> give None
     | Some i \<Rightarrow>
         seq (get_job e i) (\<lambda>data.
         case data of
           None \<Rightarrow> seq (attempt (command e (do_lrem (processing_key w) i)) (give ())) (\<lambda>_. give None)
         | Some v \<Rightarrow> seq (claim e q w v) (\<lambda>job. give (Some job)))))"

text \<open>Reading the job an operation is about; a missing one is an error.\<close>

definition need_job :: "surroundings \<Rightarrow> string \<Rightarrow> Job jobs_prog" where
  "need_job e i =
     seq (get_job e i) (\<lambda>data. case data of None \<Rightarrow> raise (JobNotFound i) | Some v \<Rightarrow> decode e v)"

definition complete :: "surroundings \<Rightarrow> queue_cfg \<Rightarrow> string \<Rightarrow> json \<Rightarrow> unit jobs_prog" where
  "complete e q i res =
     seq (check_initialized q) (\<lambda>_.
     seq (need_job e i) (\<lambda>j.
     seq (now_epoch e) (\<lambda>now.
     let job = j\<lparr>job_status := ''completed'', job_result := res, updated_at := now\<rparr>
     in seq (store_for e i (result_ttl q) job) (\<lambda>_.
        seq (leave_processing e job i) (\<lambda>_.
        clear_lease e q i)))))"

definition retry :: "surroundings \<Rightarrow> queue_cfg \<Rightarrow> string \<Rightarrow> string \<Rightarrow> Job \<Rightarrow> unit jobs_prog" where
  "retry e q i err j =
     (let job = j\<lparr>job_status := ''pending'', job_error_text := err\<rparr>;
          delay_ms = backoff_delay_ms q (retry_count job)
      in seq (store e i job) (\<lambda>_.
         if delay_ms > 0
         then seq (now_ms e) (\<lambda>now. command e (do_zadd delayed_key i (now + delay_ms)))
         else command e (do_lpush (queue_key (job_type job)) i)))"

definition bury :: "surroundings \<Rightarrow> string \<Rightarrow> string \<Rightarrow> Job \<Rightarrow> unit jobs_prog" where
  "bury e i err j =
     (let job = j\<lparr>job_status := ''dead'', job_error_text := err\<rparr>
      in seq (store e i job) (\<lambda>_.
         seq (command e (do_lpush (dlq_key (job_type job)) i)) (\<lambda>_.
         command e (do_sadd kDlqAllKey i))))"

definition fail :: "surroundings \<Rightarrow> queue_cfg \<Rightarrow> string \<Rightarrow> string \<Rightarrow> unit jobs_prog" where
  "fail e q i err =
     seq (check_initialized q) (\<lambda>_.
     seq (need_job e i) (\<lambda>j.
     if retry_count j = 2 ^ 31 - 1 then raise CounterOverflow
     else
       seq (now_epoch e) (\<lambda>now.
       let job = j\<lparr>retry_count := retry_count j + 1, updated_at := now\<rparr>
       in seq (leave_processing e job i) (\<lambda>_.
          seq (clear_lease e q i) (\<lambda>_.
          if retry_count job < max_retries job then retry e q i err job else bury e i err job)))))"

definition dead_letter :: "surroundings \<Rightarrow> queue_cfg \<Rightarrow> string \<Rightarrow> string \<Rightarrow> unit jobs_prog" where
  "dead_letter e q i err =
     seq (check_initialized q) (\<lambda>_.
     seq (need_job e i) (\<lambda>j.
     seq (now_epoch e) (\<lambda>now.
     seq (leave_processing e j i) (\<lambda>_.
     seq (clear_lease e q i) (\<lambda>_.
     let job = j\<lparr>updated_at := now, job_status := ''dead'', job_error_text := err\<rparr>
     in seq (command e (do_lpush (dlq_key (job_type job)) i)) (\<lambda>_.
        seq (command e (do_sadd kDlqAllKey i)) (\<lambda>_.
        store e i job)))))))"

text \<open>The blobs of a list of identifiers, the missing and the undecodable ones left out.\<close>

definition decoded :: "surroundings \<Rightarrow> json option list \<Rightarrow> Job list" where
  "decoded e vs = concat (map (\<lambda>v. case v of None \<Rightarrow> [] | Some x \<Rightarrow> (case from_json e x of Inl _ \<Rightarrow> [] | Inr j \<Rightarrow> [j])) vs)"

definition fetch_jobs_by_ids :: "surroundings \<Rightarrow> string list \<Rightarrow> Job list jobs_prog" where
  "fetch_jobs_by_ids e ids =
     (if ids = [] then give [] else seq (command e (do_mget (map job_key ids))) (\<lambda>vals. give (decoded e vals)))"

definition list_dlq :: "surroundings \<Rightarrow> queue_cfg \<Rightarrow> string \<Rightarrow> int \<Rightarrow> Job list jobs_prog" where
  "list_dlq e q ty limit =
     seq (check_initialized q) (\<lambda>_.
     seq (if ty = [] then command e (do_smembers kDlqAllKey) else command e (do_lrange (dlq_key ty) 0 (limit - 1))) (\<lambda>ids.
     if int (length ids) > limit \<and> limit < 0 then raise LengthError
     else fetch_jobs_by_ids e (if int (length ids) > limit then take (nat limit) ids else ids)))"

definition requeue_from_dlq :: "surroundings \<Rightarrow> queue_cfg \<Rightarrow> string \<Rightarrow> bool jobs_prog" where
  "requeue_from_dlq e q i =
     seq (check_initialized q) (\<lambda>_.
     seq (get_job e i) (\<lambda>data.
     case data of
       None \<Rightarrow> give False
     | Some v \<Rightarrow>
         (case from_json e v of
            Inl _ \<Rightarrow> give False
          | Inr j \<Rightarrow>
              if job_status j \<noteq> ''dead'' then give False
              else
                seq (command e (do_lrem (dlq_key (job_type j)) i)) (\<lambda>_.
                seq (command e (do_srem kDlqAllKey i)) (\<lambda>_.
                seq (now_epoch e) (\<lambda>now.
                let job = j\<lparr>job_status := ''pending'', retry_count := 0, job_error_text := [], updated_at := now\<rparr>
                in seq (store e i job) (\<lambda>_.
                   seq (command e (do_lpush (queue_key (job_type job)) i)) (\<lambda>_.
                   give True))))))))"

definition dlq_depth :: "surroundings \<Rightarrow> queue_cfg \<Rightarrow> nat jobs_prog" where
  "dlq_depth e q = (if \<not> initialized q then give 0 else attempt (command e (do_scard kDlqAllKey)) (give 0))"

definition rescue :: "surroundings \<Rightarrow> string \<Rightarrow> nat \<Rightarrow> nat jobs_prog" where
  "rescue e i recovered =
     attempt
       (seq (get_job e i) (\<lambda>data.
        case data of
          None \<Rightarrow> give recovered
        | Some v \<Rightarrow>
            (case from_json e v of
               Inl _ \<Rightarrow> give recovered
             | Inr j \<Rightarrow>
                 seq (now_epoch e) (\<lambda>now.
                 let job = j\<lparr>job_status := ''pending'', worker_id := [], updated_at := now\<rparr>
                 in seq (store e i job) (\<lambda>_.
                    seq (command e (do_lpush (queue_key (job_type job)) i)) (\<lambda>_.
                    give (recovered + 1)))))))
       (give recovered)"

definition recover_processing :: "surroundings \<Rightarrow> queue_cfg \<Rightarrow> string \<Rightarrow> nat jobs_prog" where
  "recover_processing e q w =
     seq (check_initialized q) (\<lambda>_.
     if w = [] then give 0
     else
       seq (attempt (seq (command e (do_lrange (processing_key w) 0 (- 1))) (\<lambda>ids. give (Some ids))) (give None)) (\<lambda>r.
       case r of
         None \<Rightarrow> give 0
       | Some ids \<Rightarrow>
           seq (for_each ids (rescue e) 0) (\<lambda>recovered.
           seq (attempt (command e (do_del_list (processing_key w))) (give ())) (\<lambda>_.
           give recovered))))"

definition due_members :: "surroundings \<Rightarrow> string \<Rightarrow> string list option jobs_prog" where
  "due_members e k =
     seq (now_ms e) (\<lambda>now.
     attempt (seq (command e (do_zrangebyscore k 0 now)) (\<lambda>ids. give (Some ids))) (give None))"

definition promote :: "surroundings \<Rightarrow> string \<Rightarrow> nat \<Rightarrow> nat jobs_prog" where
  "promote e i moved =
     attempt
       (seq (command e (do_zrem delayed_key i)) (\<lambda>n.
        if n = 0 then give moved
        else
          seq (get_job e i) (\<lambda>data.
          case data of
            None \<Rightarrow> give moved
          | Some v \<Rightarrow>
              seq (decode e v) (\<lambda>j.
              seq (command e (do_lpush (queue_key (job_type j)) i)) (\<lambda>_.
              give (moved + 1))))))
       (give moved)"

definition promote_due_jobs :: "surroundings \<Rightarrow> queue_cfg \<Rightarrow> nat jobs_prog" where
  "promote_due_jobs e q =
     (if \<not> initialized q \<or> retry_backoff_base_ms q \<le> 0 then give 0
      else
        seq (due_members e delayed_key) (\<lambda>r.
        case r of None \<Rightarrow> give 0 | Some ids \<Rightarrow> for_each ids (promote e) 0))"

definition reap :: "surroundings \<Rightarrow> queue_cfg \<Rightarrow> string \<Rightarrow> nat \<Rightarrow> nat jobs_prog" where
  "reap e q i reaped =
     attempt
       (seq (command e (do_zrem leases_key i)) (\<lambda>n.
        if n = 0 then give reaped
        else seq (fail e q i ''visibility timeout exceeded'') (\<lambda>_. give (reaped + 1))))
       (give reaped)"

definition reap_expired_leases :: "surroundings \<Rightarrow> queue_cfg \<Rightarrow> nat jobs_prog" where
  "reap_expired_leases e q =
     (if \<not> initialized q \<or> visibility_timeout_ms q \<le> 0 then give 0
      else
        seq (due_members e leases_key) (\<lambda>r.
        case r of None \<Rightarrow> give 0 | Some ids \<Rightarrow> for_each ids (reap e q) 0))"

definition get_status :: "surroundings \<Rightarrow> queue_cfg \<Rightarrow> string \<Rightarrow> Job option jobs_prog" where
  "get_status e q i =
     seq (check_initialized q) (\<lambda>_.
     seq (get_job e i) (\<lambda>data.
     case data of None \<Rightarrow> give None | Some v \<Rightarrow> seq (decode e v) (\<lambda>j. give (Some j))))"

definition cancel :: "surroundings \<Rightarrow> queue_cfg \<Rightarrow> string \<Rightarrow> bool jobs_prog" where
  "cancel e q i =
     seq (check_initialized q) (\<lambda>_.
     seq (get_job e i) (\<lambda>data.
     case data of
       None \<Rightarrow> give False
     | Some v \<Rightarrow>
         seq (decode e v) (\<lambda>j.
         if job_status j \<in> {''completed'', ''dead'', ''failed''} then give False
         else
           seq (now_epoch e) (\<lambda>now.
           let job = j\<lparr>job_status := ''failed'', job_error_text := ''cancelled'', updated_at := now\<rparr>
           in seq (store_for e i (result_ttl q) job) (\<lambda>_.
              seq (command e (do_lrem (queue_key (job_type job)) i)) (\<lambda>_.
              seq (if job_status j = ''processing'' \<and> worker_id job \<noteq> []
                   then command e (do_lrem (processing_key (worker_id job)) i) else give ()) (\<lambda>_.
              seq (clear_lease e q i) (\<lambda>_.
              give True))))))))"

record JobPage =
  page_jobs :: "Job list"
  page_total :: nat

definition stale_ids :: "surroundings \<Rightarrow> string list \<Rightarrow> json option list \<Rightarrow> string list" where
  "stale_ids e ids vals =
     concat (map (\<lambda>(i, v). case v of None \<Rightarrow> [i] | Some x \<Rightarrow> (case from_json e x of Inl _ \<Rightarrow> [i] | Inr _ \<Rightarrow> []))
       (zip ids vals))"

definition drop_stale :: "surroundings \<Rightarrow> string \<Rightarrow> string \<Rightarrow> string \<Rightarrow> unit \<Rightarrow> unit jobs_prog" where
  "drop_stale e k ty i u =
     attempt
       (seq (command e (do_zrem k i)) (\<lambda>_.
        if ty \<noteq> [] then seq (command e (do_zrem index_key i)) (\<lambda>_. give ()) else give ()))
       (give ())"

definition list_paged :: "surroundings \<Rightarrow> queue_cfg \<Rightarrow> string \<Rightarrow> int \<Rightarrow> int \<Rightarrow> JobPage jobs_prog" where
  "list_paged e q ty limit offset =
     seq (check_initialized q) (\<lambda>_.
     let k = (if ty = [] then index_key else index_key_for ty)
     in seq (command e (do_zrevrange k offset (offset + limit - 1))) (\<lambda>ids.
        seq (if ids = [] then give []
             else
               seq (command e (do_mget (map job_key ids))) (\<lambda>vals.
               seq (for_each (stale_ids e ids vals) (drop_stale e k ty) ()) (\<lambda>_.
               give (decoded e vals)))) (\<lambda>js.
        seq (command e (do_zcard k)) (\<lambda>n.
        give \<lparr>page_jobs = js, page_total = n\<rparr>))))"

definition set_trace_id :: "surroundings \<Rightarrow> queue_cfg \<Rightarrow> string \<Rightarrow> string \<Rightarrow> unit jobs_prog" where
  "set_trace_id e q i tr =
     seq (check_initialized q) (\<lambda>_.
     seq (get_job e i) (\<lambda>data.
     case data of
       None \<Rightarrow> give ()
     | Some v \<Rightarrow>
         attempt
           (seq (decode e v) (\<lambda>j.
            seq (now_epoch e) (\<lambda>now.
            store e i (j\<lparr>trace_id := tr, updated_at := now\<rparr>))))
           (give ())))"

end
