(* ===== verification/JobsTracking.thy ===== *)
theory JobsTracking
  imports JobsProperties
begin

text \<open>
  No job is lost while the commands succeed: in every state the operations can reach, a
  pending job is in the queue of its type or in the delayed set, a job in processing is in
  the list of its worker, and a dead job is in the dead-letter list and its index.
\<close>

definition kept_pending :: "redis \<Rightarrow> Job \<Rightarrow> bool" where
  "kept_pending s j \<longleftrightarrow> job_status j = ''pending'' \<longrightarrow>
     job_id j \<in> set (lists s (queue_key (job_type j))) \<or> job_id j \<in> fst ` set (zsets s delayed_key)"

definition kept_claimed :: "redis \<Rightarrow> Job \<Rightarrow> bool" where
  "kept_claimed s j \<longleftrightarrow>
     (job_status j = ''processing'' \<longrightarrow> job_id j \<in> set (lists s (processing_key (worker_id j)))) \<and>
     (job_status j = ''dead'' \<longrightarrow> job_id j \<in> set (lists s (dlq_key (job_type j))) \<and> job_id j \<in> set (sets s kDlqAllKey))"

definition kept :: "redis \<Rightarrow> Job \<Rightarrow> bool" where
  "kept s j \<longleftrightarrow> kept_pending s j \<and> kept_claimed s j"

definition stored :: "redis \<Rightarrow> Job \<Rightarrow> bool" where
  "stored s j \<longleftrightarrow> wf_job j \<and> kv s (job_key (job_id j)) = Some (to_json j, None)"

text \<open>All jobs are kept, those of \<open>X\<close> excepted; a blob with an expiry is that of a finished job.\<close>

definition tracked_but :: "string set \<Rightarrow> redis \<Rightarrow> bool" where
  "tracked_but X s \<longleftrightarrow> typed s \<and>
     (\<forall>i j t. wf_job j \<longrightarrow> kv s (job_key i) = Some (to_json j, Some t) \<longrightarrow> job_status j \<in> {''completed'', ''failed''}) \<and>
     (\<forall>j. stored s j \<longrightarrow> job_id j \<notin> X \<longrightarrow> kept s j)"

abbreviation tracked :: "redis \<Rightarrow> bool" where
  "tracked s \<equiv> tracked_but {} s"

definition calm :: "surroundings \<Rightarrow> bool" where
  "calm e \<longleftrightarrow> (\<forall>n. fault_of e n = Answered)"

lemma to_json_inject: "wf_job j \<Longrightarrow> wf_job j' \<Longrightarrow> to_json j = to_json j' \<longleftrightarrow> j = j'"
  by (metis job_json_reads sum.inject(2))

lemma keys_distinct [simp]:
  "queue_key a = queue_key b \<longleftrightarrow> a = b" "dlq_key a = dlq_key b \<longleftrightarrow> a = b"
  "processing_key a = processing_key b \<longleftrightarrow> a = b"
  "queue_key a \<noteq> dlq_key b" "queue_key a \<noteq> processing_key b" "dlq_key a \<noteq> processing_key b"
  "dlq_key a \<noteq> queue_key b" "processing_key a \<noteq> queue_key b" "processing_key a \<noteq> dlq_key b"
  "delayed_key \<noteq> leases_key" "leases_key \<noteq> delayed_key"
  "delayed_key \<noteq> index_key" "index_key \<noteq> delayed_key"
  "delayed_key \<noteq> index_key_for a" "index_key_for a \<noteq> delayed_key"
  by (simp_all add: queue_key_def dlq_key_def processing_key_def delayed_key_def leases_key_def index_key_def index_key_for_def)

lemma calm_command:
  assumes "calm e" and "\<And>now n s. P s \<Longrightarrow> Q (fst (f now (s\<lparr>calls := n\<rparr>))) (snd (f now (s\<lparr>calls := n\<rparr>)))"
  shows "triple P (command e f) Q X"
  unfolding triple_def
proof (intro allI impI)
  fix s assume "P s"
  then have "Q (fst (f (clock_ms e (calls s)) (s\<lparr>calls := Suc (calls s)\<rparr>)))
               (snd (f (clock_ms e (calls s)) (s\<lparr>calls := Suc (calls s)\<rparr>)))"
    by (rule assms(2))
  then show "case command e f s of (Inl e, s') \<Rightarrow> X e s' | (Inr a, s') \<Rightarrow> Q a s'"
    using assms(1)
    by (cases "f (clock_ms e (calls s)) (s\<lparr>calls := Suc (calls s)\<rparr>)") (simp add: command_answered calm_def)
qed

section \<open>What the commands keep\<close>

lemma tracked_mono:
  assumes "tracked_but X s" and "kv s' = kv s"
    and "\<And>j. stored s j \<Longrightarrow> job_id j \<notin> X \<Longrightarrow> job_id j \<notin> Y \<Longrightarrow> kept s j \<Longrightarrow> kept s' j" and "X \<subseteq> Y"
  shows "tracked_but Y s'"
  using assms unfolding tracked_but_def typed_def stored_def by auto

lemma tracked_calls [simp]: "tracked_but X (s\<lparr>calls := n\<rparr>) = tracked_but X s"
  by (simp add: tracked_but_def typed_def stored_def kept_def kept_pending_def kept_claimed_def)

lemma stored_calls [simp]: "stored (s\<lparr>calls := n\<rparr>) j = stored s j"
  by (simp add: stored_def)

lemmas kept_defs = kept_def kept_pending_def kept_claimed_def

lemma tracked_grow:
  "tracked_but X s \<Longrightarrow> tracked_but X (snd (do_lpush k x now s))"
  "tracked_but X s \<Longrightarrow> tracked_but X (snd (do_rpush k x now s))"
  "tracked_but X s \<Longrightarrow> tracked_but X (snd (do_sadd k x now s))"
  "tracked_but X s \<Longrightarrow> tracked_but X (snd (do_zadd k x sc now s))"
  by (erule tracked_mono; force simp: kept_defs do_lpush_def do_rpush_def do_sadd_def do_zadd_def)+

lemma tracked_shrink:
  assumes "tracked_but X s"
  shows "tracked_but (insert i X) (snd (do_lrem k i now s))"
    and "tracked_but (insert i X) (snd (do_srem k i now s))"
    and "tracked_but (insert i X) (snd (do_zrem k i now s))"
    and "k \<noteq> delayed_key \<Longrightarrow> tracked_but X (snd (do_zrem k i now s))"
  by (rule tracked_mono [OF assms]; auto simp: kept_defs do_lrem_def do_srem_def do_zrem_def)+

lemma tracked_more: "tracked_but X s \<Longrightarrow> X \<subseteq> Y \<Longrightarrow> tracked_but Y s"
  by (auto simp: tracked_but_def)

text \<open>When a job is no longer an exception.\<close>

lemma tracked_kept:
  assumes "tracked_but {i} s" "stored s j" "job_id j = i" "kept s j"
  shows "tracked s"
proof -
  have "kept s j'" if "stored s j'" for j'
  proof (cases "job_id j' = i")
    case True
    with that assms(2,3) have "wf_job j'" "wf_job j" "to_json j' = to_json j" by (simp_all add: stored_def)
    then have "j' = j" by (simp add: to_json_inject)
    with assms(4) show ?thesis by simp
  next
    case False
    with that assms(1) show ?thesis by (simp add: tracked_but_def)
  qed
  with assms(1) show ?thesis by (simp add: tracked_but_def)
qed

lemma tracked_no_duty:
  assumes "tracked_but {i} s" "\<And>v. kv s (job_key i) \<noteq> Some (v, None)"
  shows "tracked s"
proof -
  have "job_id j \<noteq> i" if "stored s j" for j using that assms(2) by (auto simp: stored_def)
  with assms(1) show ?thesis by (simp add: tracked_but_def)
qed

lemma do_set_tracked:
  assumes "tracked_but X s" "X \<subseteq> {i}" "job_id j = i" "wf_job j"
  shows "tracked_but {i} (snd (do_set (job_key i) (to_json j) now s))"
    and "stored (snd (do_set (job_key i) (to_json j) now s)) j"
    and "kept (snd (do_set (job_key i) (to_json j) now s)) j' = kept s j'"
  using assms by (auto simp: do_set_def tracked_but_def typed_def stored_def kept_defs)

lemma do_setex_tracked:
  assumes "tracked_but X s" "X \<subseteq> {i}" "job_id j = i" "wf_job j" "job_status j \<in> {''completed'', ''failed''}"
  shows "tracked_but {i} (snd (do_setex (job_key i) ttl (to_json j) now s))"
    and "kv (snd (do_setex (job_key i) ttl (to_json j) now s)) (job_key i) \<noteq> Some (v, None)"
  using assms by (auto simp: do_setex_def tracked_but_def typed_def stored_def kept_defs to_json_inject split: if_splits)

section \<open>The operations without faults\<close>

definition no_duty :: "string \<Rightarrow> redis \<Rightarrow> bool" where
  "no_duty i s \<longleftrightarrow> (\<forall>v. kv s (job_key i) \<noteq> Some (v, None))"

definition has_blob :: "string \<Rightarrow> json \<Rightarrow> redis \<Rightarrow> bool" where
  "has_blob i v s \<longleftrightarrow> (\<exists>t. kv s (job_key i) = Some (v, t))"

definition steady :: "(redis \<Rightarrow> bool) \<Rightarrow> bool" where
  "steady P \<longleftrightarrow> (\<forall>s n. P (s\<lparr>calls := n\<rparr>) = P s)"

lemma steadyD: "steady P \<Longrightarrow> P s \<Longrightarrow> P (s\<lparr>calls := n\<rparr>)"
  by (simp add: steady_def)

lemma steady_simps [simp]:
  "steady (tracked_but X)" "steady (no_duty i)" "steady (has_blob i v)" "steady (\<lambda>s. x \<in> set (lists s k))"
  by (simp_all add: steady_def no_duty_def has_blob_def)

lemma steady_conj [simp]: "steady P \<Longrightarrow> steady Q \<Longrightarrow> steady (\<lambda>s. P s \<and> Q s)"
  by (simp add: steady_def)

lemma calm_get:
  assumes "calm e" "steady P"
  shows "triple P (get_job e i) (\<lambda>d s. P s \<and> (case d of None \<Rightarrow> no_duty i s | Some v \<Rightarrow> has_blob i v s)) X"
  unfolding get_job_def
  by (rule calm_command [OF assms(1)])
     (auto simp: do_get_def no_duty_def has_blob_def unexpired_def dest: steadyD [OF assms(2)] split: option.split)

lemma calm_get_case:
  assumes "calm e" "steady P" "triple (\<lambda>s. P s \<and> no_duty i s) m Q X" "\<And>v. triple (\<lambda>s. P s \<and> has_blob i v s) (f v) Q X"
  shows "triple P (seq (get_job e i) (\<lambda>d. case d of None \<Rightarrow> m | Some v \<Rightarrow> f v)) Q X"
  by (rule triple_seq [OF calm_get [OF assms(1,2)]]) (use assms(3,4) in \<open>simp split: option.split\<close>)

lemma has_blob_typed: "tracked_but X s \<Longrightarrow> has_blob i v s \<Longrightarrow> blob_of i v"
  by (auto simp: tracked_but_def typed_def has_blob_def blob_of_def)

lemma calm_decode:
  "(\<And>s. P s \<Longrightarrow> tracked_but Y s \<and> has_blob i v s) \<Longrightarrow>
   triple P (decode e v) (\<lambda>j s. P s \<and> v = to_json j \<and> job_id j = i \<and> wf_job j) X"
  unfolding triple_def
proof (intro allI impI)
  fix s assume P: "P s" and "\<And>s. P s \<Longrightarrow> tracked_but Y s \<and> has_blob i v s"
  then have "blob_of i v" by (blast intro: has_blob_typed)
  then obtain j where j: "v = to_json j" "job_id j = i" "wf_job j" by (auto simp: blob_of_def)
  with P show "case decode e v s of (Inl x, s') \<Rightarrow> X x s'
      | (Inr j, s') \<Rightarrow> P s' \<and> v = to_json j \<and> job_id j = i \<and> wf_job j"
    by (simp add: decode_def lift_result_def job_json_reads)
qed

lemma calm_now: "(\<And>n. fits e) \<Longrightarrow> triple P (now_epoch e) (\<lambda>t s. P s \<and> in_ll t) X" "triple P (now_ms e) (\<lambda>_. P) X"
  by (simp_all add: triple_def now_epoch_def now_ms_def fits_def)

lemma calm_check: "(\<And>s. P s \<Longrightarrow> tracked s) \<Longrightarrow> triple P (check_initialized q) (\<lambda>_. P) (\<lambda>_. tracked)"
  by (auto simp: check_initialized_def intro: triple_give triple_raise)

lemma calm_quiet:
  assumes "calm e"
  shows "triple (tracked_but Y) (command e (do_zadd k x sc)) (\<lambda>_. tracked_but Y) X"
    and "k \<noteq> delayed_key \<Longrightarrow> triple (tracked_but Y) (command e (do_zrem k x)) (\<lambda>_. tracked_but Y) X"
    and "triple (tracked_but Y) (command e (do_lpush k x)) (\<lambda>_. tracked_but Y) X"
    and "k \<noteq> delayed_key \<Longrightarrow> triple (\<lambda>s. tracked_but Y s \<and> no_duty i s) (command e (do_zrem k x))
           (\<lambda>_ s. tracked_but Y s \<and> no_duty i s) X"
  by (rule calm_command [OF assms], simp add: tracked_grow tracked_shrink; simp add: no_duty_def do_zrem_def)+

lemma calm_attempt: "triple P m Q (\<lambda>_ _. False) \<Longrightarrow> triple P (attempt m h) Q X"
  by (erule triple_attempt) (simp add: triple_def)

lemma calm_clear_lease:
  assumes "calm e"
  shows "triple (tracked_but Y) (clear_lease e q i') (\<lambda>_. tracked_but Y) X"
    and "triple (\<lambda>s. tracked_but Y s \<and> no_duty i s) (clear_lease e q i') (\<lambda>_ s. tracked_but Y s \<and> no_duty i s) X"
  unfolding clear_lease_def
  by (auto intro!: triple_give calm_attempt triple_seq [OF calm_quiet(2) [OF assms]] triple_seq [OF calm_quiet(4) [OF assms]])

lemma lrem_loose: "Y \<subseteq> {i} \<Longrightarrow> tracked_but Y s \<Longrightarrow> tracked_but {i} (snd (do_lrem k i now s))"
  using tracked_shrink(1) [of Y s i k now] tracked_more by blast

lemma lrem_no_duty: "no_duty i (snd (do_lrem k i' now s)) = no_duty i s"
  by (simp add: no_duty_def do_lrem_def)

lemma no_duty_calls [simp]: "no_duty i (s\<lparr>calls := n\<rparr>) = no_duty i s"
  by (simp add: no_duty_def)

lemma calm_lrem:
  assumes "calm e"
  shows "Y \<subseteq> {i} \<Longrightarrow> triple (tracked_but Y) (command e (do_lrem k i)) (\<lambda>_. tracked_but {i}) X"
    and "triple (\<lambda>s. tracked_but {i} s \<and> no_duty i s) (command e (do_lrem k i)) (\<lambda>_ s. tracked_but {i} s \<and> no_duty i s) X"
proof -
  show "triple (tracked_but Y) (command e (do_lrem k i)) (\<lambda>_. tracked_but {i}) X" if "Y \<subseteq> {i}"
    by (rule calm_command [OF assms], rule lrem_loose [OF that]) simp
  show "triple (\<lambda>s. tracked_but {i} s \<and> no_duty i s) (command e (do_lrem k i)) (\<lambda>_ s. tracked_but {i} s \<and> no_duty i s) X"
    by (rule calm_command [OF assms]) (simp add: lrem_no_duty lrem_loose [of "{i}"])
qed

lemma calm_leave:
  assumes "calm e"
  shows "triple (tracked_but {i}) (leave_processing e j i) (\<lambda>_. tracked_but {i}) X"
    and "triple (\<lambda>s. tracked_but {i} s \<and> no_duty i s) (leave_processing e j i) (\<lambda>_ s. tracked_but {i} s \<and> no_duty i s) X"
  unfolding leave_processing_def by (auto intro!: triple_give calm_attempt calm_lrem [OF assms])

lemma no_duty_tracked: "tracked_but {i} s \<Longrightarrow> no_duty i s \<Longrightarrow> tracked s"
  by (auto simp: no_duty_def intro: tracked_no_duty)

lemma calm_need:
  assumes "calm e"
  shows "triple tracked (need_job e i) (\<lambda>j s. tracked s \<and> job_id j = i \<and> wf_job j) (\<lambda>_. tracked)"
  unfolding need_job_def
proof (rule triple_seq, rule calm_get [OF assms], simp)
  fix d
  show "triple (\<lambda>s. tracked s \<and> (case d of None \<Rightarrow> no_duty i s | Some v \<Rightarrow> has_blob i v s))
     (case d of None \<Rightarrow> raise (JobNotFound i) | Some v \<Rightarrow> decode e v)
     (\<lambda>j s. tracked s \<and> job_id j = i \<and> wf_job j) (\<lambda>_. tracked)"
  proof (cases d)
    case (Some v)
    have dec: "triple (\<lambda>s. tracked s \<and> has_blob i v s) (decode e v)
        (\<lambda>j s. (tracked s \<and> has_blob i v s) \<and> v = to_json j \<and> job_id j = i \<and> wf_job j) (\<lambda>_. tracked)"
      by (rule calm_decode [where Y = "{}"]) simp
    show ?thesis unfolding Some option.case by (rule triple_weaken [OF dec]) auto
  qed (auto intro: triple_raise)
qed

text \<open>Writing the blob of an unfinished job, then putting its identifier where it belongs.\<close>

lemma calm_store:
  assumes "calm e" "Y \<subseteq> {i}" "job_id j = i" "wf_job j"
  shows "triple (tracked_but Y) (store e i j) (\<lambda>_ s. tracked_but {i} s \<and> stored s j) X"
  unfolding store_def
  by (rule calm_command [OF assms(1)]) (simp add: do_set_tracked [OF _ assms(2-4)])

lemma stored_moves [simp]:
  "stored (snd (do_lpush k x now s)) j = stored s j" "stored (snd (do_zadd k x sc now s)) j = stored s j"
  "stored (snd (do_sadd k x now s)) j = stored s j"
  by (simp_all add: stored_def do_lpush_def do_zadd_def do_sadd_def)

lemma calm_requeue:
  assumes "calm e" "job_id j = i" "job_status j = ''pending''"
  shows "triple (\<lambda>s. tracked_but {i} s \<and> stored s j) (command e (do_lpush (queue_key (job_type j)) i)) (\<lambda>_. tracked) X"
    and "triple (\<lambda>s. tracked_but {i} s \<and> stored s j) (command e (do_zadd delayed_key i sc)) (\<lambda>_. tracked) X"
proof -
  have "kept (snd (do_lpush (queue_key (job_type j)) i now s)) j" "kept (snd (do_zadd delayed_key i sc now s)) j" for now s
    using assms(2,3) by (auto simp: kept_defs do_lpush_def do_zadd_def)
  then have "tracked (snd (do_lpush (queue_key (job_type j)) i now s))" "tracked (snd (do_zadd delayed_key i sc now s))"
    if "tracked_but {i} s" "stored s j" for now s
    using that assms(2) by (simp_all add: tracked_kept [of i _ j] tracked_grow)
  then show "triple (\<lambda>s. tracked_but {i} s \<and> stored s j) (command e (do_lpush (queue_key (job_type j)) i)) (\<lambda>_. tracked) X"
    "triple (\<lambda>s. tracked_but {i} s \<and> stored s j) (command e (do_zadd delayed_key i sc)) (\<lambda>_. tracked) X"
    by (auto intro!: calm_command [OF assms(1)])
qed

lemma calm_retry:
  assumes "calm e" "job_id j = i" "wf_job j"
  shows "triple (tracked_but {i}) (retry e q i err j) (\<lambda>_. tracked) X"
proof -
  let ?j = "j\<lparr>job_status := ''pending'', job_error_text := err\<rparr>"
  have j: "job_id ?j = i" "wf_job ?j" "job_status ?j = ''pending''" "job_type ?j = job_type j"
    using assms by (simp_all add: wf_job_def)
  show ?thesis
    unfolding retry_def Let_def
    by (rule triple_seq, rule calm_store [OF assms(1) _ j(1,2)], simp)
       (use calm_requeue [OF assms(1) j(1,3)] in \<open>auto intro!: triple_seq [OF calm_now(2)]\<close>)
qed

lemma calm_bury:
  assumes "calm e" "job_id j = i" "wf_job j"
  shows "triple (tracked_but {i}) (bury e i err j) (\<lambda>_. tracked) X"
proof -
  let ?j = "j\<lparr>job_status := ''dead'', job_error_text := err\<rparr>"
  have j: "job_id ?j = i" "wf_job ?j" using assms by (simp_all add: wf_job_def)
  let ?P = "\<lambda>s. (tracked_but {i} s \<and> stored s ?j) \<and> i \<in> set (lists s (dlq_key (job_type j)))"
  have push: "triple (\<lambda>s. tracked_but {i} s \<and> stored s ?j) (command e (do_lpush (dlq_key (job_type j)) i)) (\<lambda>_. ?P) X"
    by (rule calm_command [OF assms(1)]) (simp add: tracked_grow, simp add: do_lpush_def)
  have "kept (snd (do_sadd kDlqAllKey i now s)) ?j" if "?P s" for now s
    using that assms(2) by (auto simp: kept_defs do_sadd_def)
  then have "tracked (snd (do_sadd kDlqAllKey i now s))" if "?P s" for now s
    using that j(1) by (simp add: tracked_kept [of i _ ?j] tracked_grow)
  then have index: "triple ?P (command e (do_sadd kDlqAllKey i)) (\<lambda>_. tracked) X"
    by (auto intro!: calm_command [OF assms(1)])
  show ?thesis
    unfolding bury_def Let_def
    by (rule triple_seq, rule calm_store [OF assms(1) _ j], simp, rule triple_seq [OF _ index]) (use push in simp)
qed

lemma calm_fail:
  assumes "calm e" "fits e"
  shows "triple tracked (fail e q i err) (\<lambda>_. tracked) (\<lambda>_. tracked)"
  unfolding fail_def
proof (rule triple_seq [OF calm_check], simp, rule triple_seq [OF calm_need [OF assms(1)]])
  fix j
  let ?rest = "\<lambda>now. let job = j\<lparr>retry_count := retry_count j + 1, updated_at := now\<rparr>
         in seq (leave_processing e job i) (\<lambda>_. seq (clear_lease e q i) (\<lambda>_.
            if retry_count job < max_retries job then retry e q i err job else bury e i err job))"
  have after: "triple (tracked_but {i}) (?rest now) (\<lambda>_. tracked) (\<lambda>_. tracked)"
    if "in_ll now" "job_id j = i" "wf_job j" "retry_count j \<noteq> 2 ^ 31 - 1" for now
    unfolding Let_def
    by (rule triple_seq [OF calm_leave(1) [OF assms(1)]], rule triple_seq [OF calm_clear_lease(1) [OF assms(1)]])
       (use that in \<open>auto intro!: calm_retry [OF assms(1)] calm_bury [OF assms(1)] simp: wf_job_def\<close>)
  have "triple tracked (seq (now_epoch e) ?rest) (\<lambda>_. tracked) (\<lambda>_. tracked)"
    if "job_id j = i" "wf_job j" "retry_count j \<noteq> 2 ^ 31 - 1"
    by (rule triple_seq, rule calm_now(1) [OF assms(2)], rule triple_pure, rule triple_pre, rule after)
       (use that in \<open>auto elim: tracked_more\<close>)
  then show "triple (\<lambda>s. tracked s \<and> job_id j = i \<and> wf_job j)
     (if retry_count j = 2 ^ 31 - 1 then raise CounterOverflow else seq (now_epoch e) ?rest)
     (\<lambda>_. tracked) (\<lambda>_. tracked)"
    by (intro triple_pure) (auto intro: triple_raise)
qed

text \<open>Finishing a job: its blob carries an expiry and owes nothing.\<close>

lemma calm_finish:
  assumes "calm e" "job_id j = i" "wf_job j" "job_status j \<in> {''completed'', ''failed''}"
  shows "triple tracked (store_for e i ttl j) (\<lambda>_ s. tracked_but {i} s \<and> no_duty i s) (\<lambda>_. tracked)"
  unfolding store_for_def
  using do_setex_tracked [OF _ _ assms(2-4), of "{}"]
  by (auto intro!: triple_raise calm_command [OF assms(1)] simp: no_duty_def)

lemma calm_complete:
  assumes "calm e" "fits e"
  shows "triple tracked (complete e q i res) (\<lambda>_. tracked) (\<lambda>_. tracked)"
  unfolding complete_def
proof (rule triple_seq [OF calm_check], simp, rule triple_seq [OF calm_need [OF assms(1)]], rule triple_pure)
  fix j assume "job_id j = i \<and> wf_job j"
  then have j: "job_id j = i" "wf_job j" by simp_all
  have "triple (\<lambda>s. tracked s \<and> in_ll now)
     (let job = j\<lparr>job_status := ''completed'', job_result := res, updated_at := now\<rparr>
      in seq (store_for e i (result_ttl q) job) (\<lambda>_. seq (leave_processing e job i) (\<lambda>_. clear_lease e q i)))
     (\<lambda>_. tracked) (\<lambda>_. tracked)" for now
    unfolding Let_def
    by (rule triple_pure, rule triple_seq [OF calm_finish [OF assms(1)]], use j in \<open>auto simp: wf_job_def\<close>)
       (rule triple_seq [OF calm_leave(2) [OF assms(1)]],
        rule triple_weaken [OF calm_clear_lease(2) [OF assms(1)]], auto intro: no_duty_tracked)
  then show "triple tracked
     (seq (now_epoch e) (\<lambda>now. let job = j\<lparr>job_status := ''completed'', job_result := res, updated_at := now\<rparr>
        in seq (store_for e i (result_ttl q) job) (\<lambda>_. seq (leave_processing e job i) (\<lambda>_. clear_lease e q i))))
     (\<lambda>_. tracked) (\<lambda>_. tracked)"
    by (rule triple_seq [OF calm_now(1) [OF assms(2)]])
qed

lemma calm_index:
  assumes "calm e"
  shows "triple tracked (attempt (seq (command e (do_zadd k i sc)) (\<lambda>_. command e (do_zadd k' i sc'))) (give ())) (\<lambda>_. tracked) X"
  by (rule calm_attempt, rule triple_seq; rule calm_quiet(1) [OF assms])

lemma calm_submit:
  assumes "calm e" "fits e" "cfg_fits q" "- (2 ^ 31) \<le> mr" "mr < 2 ^ 31"
  shows "triple tracked (submit e q ty pl mr) (\<lambda>_. tracked) (\<lambda>_. tracked)"
  unfolding submit_def
proof (rule triple_seq [OF calm_check], simp, rule triple_seq [OF calm_now(1) [OF assms(2)]], rule triple_pure)
  fix now assume now: "in_ll now"
  have fresh: "triple tracked (\<lambda>s. (Inr (fresh_job e q ty pl mr now (calls s)), s))
      (\<lambda>j s. tracked s \<and> wf_job j \<and> job_status j = ''pending'' \<and> job_type j = ty) (\<lambda>_. tracked)"
    using assms(3-5) now by (auto simp: triple_def fresh_job_def wf_job_def cfg_fits_def)
  show "triple tracked
     (seq (\<lambda>s. (Inr (fresh_job e q ty pl mr now (calls s)), s)) (\<lambda>job.
      seq (store e (job_id job) job) (\<lambda>_.
      seq (command e (do_lpush (queue_key ty) (job_id job))) (\<lambda>_.
      seq (attempt (seq (command e (do_zadd index_key (job_id job) (created_at job))) (\<lambda>_.
             command e (do_zadd (index_key_for ty) (job_id job) (created_at job)))) (give ())) (\<lambda>_. give job)))))
     (\<lambda>_. tracked) (\<lambda>_. tracked)"
  proof (rule triple_seq [OF fresh], rule triple_pure)
    fix job assume "wf_job job \<and> job_status job = ''pending'' \<and> job_type job = ty"
    then have job: "wf_job job" "job_status job = ''pending''" "job_type job = ty" by simp_all
    show "triple tracked
      (seq (store e (job_id job) job) (\<lambda>_.
       seq (command e (do_lpush (queue_key ty) (job_id job))) (\<lambda>_.
       seq (attempt (seq (command e (do_zadd index_key (job_id job) (created_at job))) (\<lambda>_.
             command e (do_zadd (index_key_for ty) (job_id job) (created_at job)))) (give ())) (\<lambda>_. give job))))
      (\<lambda>_. tracked) (\<lambda>_. tracked)"
      by (rule triple_seq [OF calm_store [OF assms(1) _ refl job(1)]], simp,
          rule triple_seq [OF calm_requeue(1) [OF assms(1) refl job(2), unfolded job(3)]],
          rule triple_seq [OF calm_index [OF assms(1)]], rule triple_give)
  qed
qed

lemma calm_dead_letter:
  assumes "calm e" "fits e"
  shows "triple tracked (dead_letter e q i err) (\<lambda>_. tracked) (\<lambda>_. tracked)"
  unfolding dead_letter_def
proof (rule triple_seq [OF calm_check], simp, rule triple_seq [OF calm_need [OF assms(1)]], rule triple_pure)
  fix j assume "job_id j = i \<and> wf_job j"
  then have j: "job_id j = i" "wf_job j" by simp_all
  let ?L = "\<lambda>s. tracked_but {i} s \<and> i \<in> set (lists s (dlq_key (job_type j)))"
  let ?M = "\<lambda>s. tracked_but {i} s \<and> i \<in> set (lists s (dlq_key (job_type j))) \<and> i \<in> set (sets s kDlqAllKey)"
  have push: "triple (tracked_but {i}) (command e (do_lpush (dlq_key (job_type j)) i)) (\<lambda>_. ?L) X" for X
    by (rule calm_command [OF assms(1)]) (simp add: tracked_grow, simp add: do_lpush_def)
  have index: "triple ?L (command e (do_sadd kDlqAllKey i)) (\<lambda>_. ?M) X" for X
    by (rule calm_command [OF assms(1)]) (simp add: tracked_grow, simp add: do_sadd_def)
  have bury: "triple ?M (store e i (j\<lparr>updated_at := now, job_status := ''dead'', job_error_text := err\<rparr>)) (\<lambda>_. tracked) X"
    if "in_ll now" for now X
  proof -
    let ?j = "j\<lparr>updated_at := now, job_status := ''dead'', job_error_text := err\<rparr>"
    have wf: "job_id ?j = i" "wf_job ?j" using j that by (simp_all add: wf_job_def)
    have "tracked (snd (do_set (job_key i) (to_json ?j) t s))" if "?M s" for t s
      by (rule tracked_kept [of i _ ?j])
         (use that wf in \<open>simp_all add: do_set_tracked [OF _ subset_refl wf], simp add: kept_defs\<close>)
    then show ?thesis unfolding store_def by (auto intro!: calm_command [OF assms(1)])
  qed
  show "triple tracked
     (seq (now_epoch e) (\<lambda>now. seq (leave_processing e j i) (\<lambda>_. seq (clear_lease e q i) (\<lambda>_.
      let job = j\<lparr>updated_at := now, job_status := ''dead'', job_error_text := err\<rparr>
      in seq (command e (do_lpush (dlq_key (job_type job)) i)) (\<lambda>_.
         seq (command e (do_sadd kDlqAllKey i)) (\<lambda>_. store e i job))))))
     (\<lambda>_. tracked) (\<lambda>_. tracked)"
    by (rule triple_seq [OF calm_now(1) [OF assms(2)]], rule triple_pure, rule triple_pre [where P = "tracked_but {i}"],
        rule triple_seq [OF calm_leave(1) [OF assms(1)]], rule triple_seq [OF calm_clear_lease(1) [OF assms(1)]])
       (auto intro: triple_seq [OF push] triple_seq [OF index] bury elim: tracked_more)
qed

lemma calm_requeue_from_dlq:
  assumes "calm e" "fits e"
  shows "triple tracked (requeue_from_dlq e q i) (\<lambda>_. tracked) (\<lambda>_. tracked)"
proof -
  have srem: "triple (tracked_but {i}) (command e (do_srem kDlqAllKey i)) (\<lambda>_. tracked_but {i}) X" for X
    by (rule calm_command [OF assms(1)]) (use tracked_shrink(2) [of "{i}" _ i] in simp)
  have put_back: "triple (tracked_but {i})
     (seq (store e i (j\<lparr>job_status := ''pending'', retry_count := 0, job_error_text := [], updated_at := now\<rparr>)) (\<lambda>_.
      seq (command e (do_lpush (queue_key (job_type j)) i)) (\<lambda>_. give True))) (\<lambda>_. tracked) (\<lambda>_. tracked)"
    if "job_id j = i" "wf_job j" "in_ll now" for j now
  proof -
    let ?j = "j\<lparr>job_status := ''pending'', retry_count := 0, job_error_text := [], updated_at := now\<rparr>"
    have j: "job_id ?j = i" "wf_job ?j" "job_status ?j = ''pending''" using that by (simp_all add: wf_job_def)
    have push: "triple (\<lambda>s. tracked_but {i} s \<and> stored s ?j) (command e (do_lpush (queue_key (job_type j)) i))
        (\<lambda>_. tracked) (\<lambda>_. tracked)"
      using calm_requeue(1) [OF assms(1) j(1,3)] by simp
    show ?thesis
      by (rule triple_seq [OF calm_store [OF assms(1) _ j(1,2)]], simp, rule triple_seq [OF push], rule triple_give)
  qed
  have "triple (\<lambda>s. tracked s \<and> (case d of None \<Rightarrow> no_duty i s | Some v \<Rightarrow> has_blob i v s))
     (case d of None \<Rightarrow> give False
      | Some v \<Rightarrow> (case from_json e v of Inl _ \<Rightarrow> give False
         | Inr j \<Rightarrow> if job_status j \<noteq> ''dead'' then give False
            else seq (command e (do_lrem (dlq_key (job_type j)) i)) (\<lambda>_.
                 seq (command e (do_srem kDlqAllKey i)) (\<lambda>_.
                 seq (now_epoch e) (\<lambda>now.
                 let job = j\<lparr>job_status := ''pending'', retry_count := 0, job_error_text := [], updated_at := now\<rparr>
                 in seq (store e i job) (\<lambda>_. seq (command e (do_lpush (queue_key (job_type job)) i)) (\<lambda>_. give True)))))))
     (\<lambda>_. tracked) (\<lambda>_. tracked)" for d
  proof (cases "\<exists>v j. d = Some v \<and> from_json e v = Inr j \<and> job_status j = ''dead'' \<and> blob_of i v")
    case True
    then obtain v j where v: "d = Some v" "from_json e v = Inr j" "job_status j = ''dead''" "blob_of i v" by blast
    then have j: "job_id j = i" "wf_job j" using blob_of_decodes [OF v(4), of e] by auto
    show ?thesis
      by (simp add: v, rule triple_pre [where P = tracked], rule triple_seq [OF calm_lrem(1) [OF assms(1), of "{}"]], simp,
          rule triple_seq [OF srem], rule triple_seq [OF calm_now(1) [OF assms(2)]], rule triple_pure)
         (use put_back [OF j] in \<open>simp_all add: Let_def\<close>)
  next
    case False
    then show ?thesis
      by (auto simp: triple_def give_def dest!: has_blob_typed split: option.splits sum.splits)
  qed
  then show ?thesis
    unfolding requeue_from_dlq_def
    by (intro triple_seq [OF calm_check] triple_seq [OF calm_get [OF assms(1)]]) simp_all
qed

lemma calm_cancel:
  assumes "calm e" "fits e"
  shows "triple tracked (cancel e q i) (\<lambda>_. tracked) (\<lambda>_. tracked)"
proof -
  let ?N = "\<lambda>s. tracked_but {i} s \<and> no_duty i s"
  have maybe: "triple ?N (if b then command e (do_lrem k i) else give ()) (\<lambda>_. ?N) (\<lambda>_. tracked)" for b k
    by (auto intro: triple_give calm_lrem(2) [OF assms(1)])
  have mark: "triple tracked
     (let job = j\<lparr>job_status := ''failed'', job_error_text := ''cancelled'', updated_at := now\<rparr>
      in seq (store_for e i (result_ttl q) job) (\<lambda>_.
         seq (command e (do_lrem (queue_key (job_type job)) i)) (\<lambda>_.
         seq (if job_status j = ''processing'' \<and> worker_id job \<noteq> []
              then command e (do_lrem (processing_key (worker_id job)) i) else give ()) (\<lambda>_.
         seq (clear_lease e q i) (\<lambda>_. give True)))))
     (\<lambda>_. tracked) (\<lambda>_. tracked)" if "job_id j = i" "wf_job j" "in_ll now" for j now
  proof -
    let ?j = "j\<lparr>job_status := ''failed'', job_error_text := ''cancelled'', updated_at := now\<rparr>"
    have j: "job_id ?j = i" "wf_job ?j" "job_status ?j \<in> {''completed'', ''failed''}" using that by (simp_all add: wf_job_def)
    show ?thesis
      unfolding Let_def
      by (rule triple_seq [OF calm_finish [OF assms(1) j]], rule triple_seq [OF calm_lrem(2) [OF assms(1)]],
          rule triple_seq [OF maybe], rule triple_seq [OF calm_clear_lease(2) [OF assms(1)]])
         (auto intro: triple_give no_duty_tracked)
  qed
  have found: "triple (\<lambda>s. tracked s \<and> has_blob i v s)
     (seq (decode e v) (\<lambda>j. if job_status j \<in> {''completed'', ''dead'', ''failed''} then give False
      else seq (now_epoch e) (\<lambda>now.
        let job = j\<lparr>job_status := ''failed'', job_error_text := ''cancelled'', updated_at := now\<rparr>
        in seq (store_for e i (result_ttl q) job) (\<lambda>_.
           seq (command e (do_lrem (queue_key (job_type job)) i)) (\<lambda>_.
           seq (if job_status j = ''processing'' \<and> worker_id job \<noteq> []
                then command e (do_lrem (processing_key (worker_id job)) i) else give ()) (\<lambda>_.
           seq (clear_lease e q i) (\<lambda>_. give True)))))))
     (\<lambda>_. tracked) (\<lambda>_. tracked)" for v
  proof (rule triple_seq, rule calm_decode [where Y = "{}" and i = i], simp, rule triple_pure)
    fix j assume "v = to_json j \<and> job_id j = i \<and> wf_job j"
    then have j: "job_id j = i" "wf_job j" by simp_all
    show "triple (\<lambda>s. tracked s \<and> has_blob i v s)
      (if job_status j \<in> {''completed'', ''dead'', ''failed''} then give False
       else seq (now_epoch e) (\<lambda>now.
        let job = j\<lparr>job_status := ''failed'', job_error_text := ''cancelled'', updated_at := now\<rparr>
        in seq (store_for e i (result_ttl q) job) (\<lambda>_.
           seq (command e (do_lrem (queue_key (job_type job)) i)) (\<lambda>_.
           seq (if job_status j = ''processing'' \<and> worker_id job \<noteq> []
                then command e (do_lrem (processing_key (worker_id job)) i) else give ()) (\<lambda>_.
           seq (clear_lease e q i) (\<lambda>_. give True))))))
      (\<lambda>_. tracked) (\<lambda>_. tracked)"
      by (rule triple_pre [where P = tracked], rule triple_if, rule triple_give, assumption,
          rule triple_seq [OF calm_now(1) [OF assms(2)]], rule triple_pure, rule mark [OF j], assumption) simp
  qed
  show ?thesis
    unfolding cancel_def
    by (rule triple_seq [OF calm_check], simp, rule calm_get_case [OF assms(1)], simp, rule triple_give, simp, rule found)
qed

text \<open>Taking an identifier puts it in the list of the worker.\<close>

lemma pop_tracked:
  assumes "tracked s" "lists s k \<noteq> []" "lists s' = (lists s)(k := butlast (lists s k))" "kv s' = kv s"
    "zsets s' = zsets s" "sets s' = sets s"
  shows "tracked_but {last (lists s k)} s'"
proof (rule tracked_mono [OF assms(1,4)])
  have "set (lists s k') \<subseteq> insert (last (lists s k)) (set (lists s' k'))" for k'
    using append_butlast_last_id [OF assms(2)] assms(3) by (cases "k' = k") (auto, metis UnE empty_iff insert_iff list.set set_append)
  then show "kept s' j" if "kept s j" "job_id j \<notin> {last (lists s k)}" for j
    using that assms(5,6) by (auto simp: kept_defs dest!: subsetD)
qed auto

definition taken :: "string \<Rightarrow> string option \<Rightarrow> redis \<Rightarrow> bool" where
  "taken w r s \<longleftrightarrow> (case r of None \<Rightarrow> tracked s | Some i \<Rightarrow> tracked_but {i} s \<and> i \<in> set (lists s (processing_key w)))"

lemma brpoplpush_taken:
  assumes "tracked s"
  shows "taken w (fst (do_brpoplpush (queue_key ty) (processing_key w) now s))
                 (snd (do_brpoplpush (queue_key ty) (processing_key w) now s))"
proof (cases "lists s (queue_key ty) = []")
  case True
  with assms show ?thesis by (simp add: taken_def do_brpoplpush_def)
next
  case False
  let ?q = "queue_key ty" and ?p = "processing_key w"
  let ?i = "last (lists s ?q)" and ?t = "s\<lparr>lists := (lists s)(?q := butlast (lists s ?q))\<rparr>"
  have "tracked_but {?i} ?t" by (rule pop_tracked [OF assms False]) simp_all
  then have "tracked_but {?i} (snd (do_lpush ?p ?i now ?t))" by (rule tracked_grow)
  with False show ?thesis by (simp add: taken_def do_brpoplpush_def do_lpush_def Let_def)
qed

definition popped :: "(string \<times> string) option \<Rightarrow> redis \<Rightarrow> bool" where
  "popped r s \<longleftrightarrow> (case r of None \<Rightarrow> tracked s | Some (k, i) \<Rightarrow> tracked_but {i} s)"

lemma brpop_popped:
  assumes "tracked s"
  shows "popped (fst (do_brpop ks now s)) (snd (do_brpop ks now s))"
proof (cases "find (\<lambda>k. lists s k \<noteq> []) ks")
  case None
  with assms show ?thesis by (simp add: popped_def do_brpop_def)
next
  case (Some k)
  then have "lists s k \<noteq> []" by (auto simp: find_Some_iff)
  then have "tracked_but {last (lists s k)} (s\<lparr>lists := (lists s)(k := butlast (lists s k))\<rparr>)"
    by (intro pop_tracked [OF assms]) simp_all
  with Some show ?thesis by (simp add: popped_def do_brpop_def)
qed

lemma calm_take:
  assumes "calm e"
  shows "triple tracked (take_id e types (processing_key w)) (taken w) (\<lambda>_. tracked)"
proof -
  have multi: "triple tracked
     (seq (command e (do_brpop ks)) (\<lambda>r. case r of None \<Rightarrow> give None
        | Some (k, i) \<Rightarrow> attempt (seq (command e (do_rpush (processing_key w) i)) (\<lambda>_. give (Some i)))
            (attempt (seq (command e (do_rpush k i)) (\<lambda>_. give None)) (give None))))
     (taken w) (\<lambda>_. tracked)" for ks
  proof (rule triple_seq)
    show "triple tracked (command e (do_brpop ks)) popped (\<lambda>_. tracked)"
      by (rule calm_command [OF assms]) (simp add: brpop_popped)
    fix r
    show "triple (popped r) (case r of None \<Rightarrow> give None
        | Some (k, i) \<Rightarrow> attempt (seq (command e (do_rpush (processing_key w) i)) (\<lambda>_. give (Some i)))
            (attempt (seq (command e (do_rpush k i)) (\<lambda>_. give None)) (give None)))
     (taken w) (\<lambda>_. tracked)"
    proof (cases r)
      case None
      then show ?thesis by (auto intro: triple_give simp: popped_def taken_def)
    next
      case (Some ki)
      obtain k i where ki: "ki = (k, i)" by (cases ki)
      have push: "triple (tracked_but {i}) (command e (do_rpush (processing_key w) i)) (\<lambda>_. taken w (Some i)) X" for X
        by (rule calm_command [OF assms]) (simp add: taken_def tracked_grow, simp add: do_rpush_def)
      have "popped (Some (k, i)) = tracked_but {i}" by (simp add: popped_def fun_eq_iff)
      then show ?thesis
        unfolding Some ki option.case prod.case
        by (simp only:) (rule calm_attempt, rule triple_seq [OF push], rule triple_give)
    qed
  qed
  have single: "triple tracked (command e (do_brpoplpush (queue_key ty) (processing_key w))) (taken w) (\<lambda>_. tracked)" for ty
    by (rule calm_command [OF assms]) (simp add: brpoplpush_taken)
  show ?thesis
    unfolding take_id_def
    by (cases types rule: remdups_adj.cases) (simp_all add: single multi triple_raise)
qed

lemma calm_lease:
  assumes "calm e"
  shows "triple tracked (lease e q i) (\<lambda>_. tracked) X"
  unfolding lease_def
  by (auto intro!: triple_give calm_attempt triple_seq [OF calm_now(2)] calm_quiet(1) [OF assms])

lemma calm_claim:
  assumes "calm e" "fits e"
  shows "triple (\<lambda>s. (tracked_but {i} s \<and> i \<in> set (lists s (processing_key w))) \<and> has_blob i v s) (claim e q w v)
           (\<lambda>_. tracked) (\<lambda>_. tracked)"
  unfolding claim_def
proof (rule triple_seq, rule calm_decode [where Y = "{i}" and i = i], simp, rule triple_pure)
  fix j assume "v = to_json j \<and> job_id j = i \<and> wf_job j"
  then have j: "job_id j = i" "wf_job j" by simp_all
  have store: "triple (\<lambda>s. tracked_but {i} s \<and> i \<in> set (lists s (processing_key w)))
     (store e i (j\<lparr>job_status := ''processing'', worker_id := w, updated_at := now\<rparr>)) (\<lambda>_. tracked) (\<lambda>_. tracked)"
    if "in_ll now" for now
  proof -
    let ?j = "j\<lparr>job_status := ''processing'', worker_id := w, updated_at := now\<rparr>"
    have wf: "job_id ?j = i" "wf_job ?j" using j that by (simp_all add: wf_job_def)
    have "tracked (snd (do_set (job_key i) (to_json ?j) t s))"
      if "tracked_but {i} s" "i \<in> set (lists s (processing_key w))" for t s
      by (rule tracked_kept [of i _ ?j])
         (use that wf in \<open>simp_all add: do_set_tracked [OF _ subset_refl wf], simp add: kept_defs\<close>)
    then show ?thesis unfolding store_def by (auto intro!: calm_command [OF assms(1)])
  qed
  have rest: "triple (\<lambda>s. tracked_but {i} s \<and> i \<in> set (lists s (processing_key w)))
     (let job = j\<lparr>job_status := ''processing'', worker_id := w, updated_at := now\<rparr>
      in seq (store e (job_id job) job) (\<lambda>_. seq (lease e q (job_id job)) (\<lambda>_. give job)))
     (\<lambda>_. tracked) (\<lambda>_. tracked)" if "in_ll now" for now
    unfolding Let_def
    by (rule triple_seq) (use store [OF that] j in simp, rule triple_seq [OF calm_lease [OF assms(1)]], rule triple_give)
  show "triple (\<lambda>s. (tracked_but {i} s \<and> i \<in> set (lists s (processing_key w))) \<and> has_blob i v s)
     (seq (now_epoch e) (\<lambda>now. let job = j\<lparr>job_status := ''processing'', worker_id := w, updated_at := now\<rparr>
        in seq (store e (job_id job) job) (\<lambda>_. seq (lease e q (job_id job)) (\<lambda>_. give job))))
     (\<lambda>_. tracked) (\<lambda>_. tracked)"
    by (rule triple_seq [OF calm_now(1) [OF assms(2)]], rule triple_pure, rule triple_pre, rule rest) simp_all
qed

lemma calm_pick:
  assumes "calm e" "fits e"
  shows "triple tracked (pick e q types w) (\<lambda>_. tracked) (\<lambda>_. tracked)"
proof -
  have drop: "triple (\<lambda>s. (tracked_but {i} s \<and> i \<in> set (lists s (processing_key w))) \<and> no_duty i s)
     (seq (attempt (command e (do_lrem (processing_key w) i)) (give ())) (\<lambda>_. give None)) (\<lambda>_. tracked) (\<lambda>_. tracked)" for i
    by (rule triple_seq, rule calm_attempt, rule triple_pre, rule calm_lrem(2) [OF assms(1)])
       (auto intro: triple_give no_duty_tracked)
  have got: "triple (\<lambda>s. (tracked_but {i} s \<and> i \<in> set (lists s (processing_key w))) \<and> has_blob i v s)
     (seq (claim e q w v) (\<lambda>job. give (Some job))) (\<lambda>_. tracked) (\<lambda>_. tracked)" for i v
    by (rule triple_seq [OF calm_claim [OF assms]], rule triple_give)
  have body: "triple (taken w r) (case r of None \<Rightarrow> give None
       | Some i \<Rightarrow> seq (get_job e i) (\<lambda>data. case data of
           None \<Rightarrow> seq (attempt (command e (do_lrem (processing_key w) i)) (give ())) (\<lambda>_. give None)
         | Some v \<Rightarrow> seq (claim e q w v) (\<lambda>job. give (Some job)))) (\<lambda>_. tracked) (\<lambda>_. tracked)" for r
  proof (cases r)
    case (Some i)
    have "taken w (Some i) = (\<lambda>s. tracked_but {i} s \<and> i \<in> set (lists s (processing_key w)))"
      by (simp add: taken_def fun_eq_iff)
    then show ?thesis
      unfolding Some option.case by (simp only:) (rule calm_get_case [OF assms(1) _ drop got], simp)
  qed (auto intro: triple_give simp: taken_def)
  show ?thesis
    unfolding pick_def by (rule triple_seq [OF calm_check], simp, rule triple_seq [OF calm_take [OF assms(1)]], rule body)
qed

text \<open>
  Recovery of the list of a worker: no job that has been seen is still claimed by that
  worker, so the list can go.
\<close>

definition in_flight :: "string \<Rightarrow> string \<Rightarrow> redis \<Rightarrow> bool" where
  "in_flight w i s \<longleftrightarrow> (\<exists>j. stored s j \<and> job_id j = i \<and> job_status j = ''processing'' \<and> worker_id j = w)"

definition recovering :: "string \<Rightarrow> string list \<Rightarrow> string set \<Rightarrow> redis \<Rightarrow> bool" where
  "recovering w ids seen s \<longleftrightarrow> lists s (processing_key w) = ids \<and> (\<forall>i \<in> seen. \<not> in_flight w i s)"

lemma steady_recovering [simp]: "steady (recovering w ids seen)"
  by (simp add: steady_def recovering_def in_flight_def)

lemma recovering_calls [simp]: "recovering w ids seen (s\<lparr>calls := n\<rparr>) = recovering w ids seen s"
  by (simp add: recovering_def in_flight_def)

lemma no_duty_not_in_flight: "no_duty i s \<Longrightarrow> \<not> in_flight w i s"
  by (auto simp: no_duty_def in_flight_def stored_def)

lemma stored_set:
  "stored (snd (do_set (job_key i) (to_json j) now s)) j' \<Longrightarrow> wf_job j \<Longrightarrow> job_id j = i \<Longrightarrow>
   if job_id j' = i then j' = j else stored s j'"
  by (auto simp: stored_def do_set_def to_json_inject)

lemma calm_rescue:
  assumes "calm e" "fits e"
  shows "triple (\<lambda>s. tracked s \<and> recovering w ids seen s) (rescue e i n)
           (\<lambda>_ s. tracked s \<and> recovering w ids (insert i seen) s) X"
  unfolding rescue_def
proof (rule calm_attempt, rule calm_get_case [OF assms(1)], simp)
  show "triple (\<lambda>s. (tracked s \<and> recovering w ids seen s) \<and> no_duty i s) (give n)
      (\<lambda>_ s. tracked s \<and> recovering w ids (insert i seen) s) (\<lambda>_ _. False)"
    by (rule triple_give) (auto simp: recovering_def dest: no_duty_not_in_flight)
next
  fix v
  let ?P = "\<lambda>s. (tracked s \<and> recovering w ids seen s) \<and> has_blob i v s"
  let ?Q = "\<lambda>_ s. tracked s \<and> recovering w ids (insert i seen) s"
  let ?body = "\<lambda>j. seq (now_epoch e) (\<lambda>now.
       let job = j\<lparr>job_status := ''pending'', worker_id := [], updated_at := now\<rparr>
       in seq (store e i job) (\<lambda>_. seq (command e (do_lpush (queue_key (job_type job)) i)) (\<lambda>_. give (n + 1))))"
  have body: "triple (\<lambda>s. tracked s \<and> recovering w ids seen s)
       (let job = j\<lparr>job_status := ''pending'', worker_id := [], updated_at := now\<rparr>
        in seq (store e i job) (\<lambda>_. seq (command e (do_lpush (queue_key (job_type job)) i)) (\<lambda>_. give (n + 1)))) ?Q (\<lambda>_ _. False)"
    if j: "job_id j = i" "wf_job j" and now: "in_ll now" for j now
  proof -
    let ?j = "j\<lparr>job_status := ''pending'', worker_id := [], updated_at := now\<rparr>"
    have wf: "job_id ?j = i" "wf_job ?j" using j now by (simp_all add: wf_job_def)
    let ?S = "\<lambda>s. (tracked_but {i} s \<and> stored s ?j) \<and> recovering w ids (insert i seen) s"
    have "recovering w ids (insert i seen) (snd (do_set (job_key i) (to_json ?j) t s))" if "recovering w ids seen s" for t s
      using that wf by (auto simp: recovering_def in_flight_def dest!: stored_set split: if_splits)
        (simp_all add: do_set_def, blast)
    then have put: "triple (\<lambda>s. tracked s \<and> recovering w ids seen s) (store e i ?j) (\<lambda>_. ?S) (\<lambda>_ _. False)"
      unfolding store_def
      by (intro calm_command [OF assms(1)]) (simp add: do_set_tracked [OF _ _ wf, of "{}"])
    have "recovering w ids (insert i seen) (snd (do_lpush (queue_key (job_type j)) i t s))"
      if "recovering w ids (insert i seen) s" for t s
      using that by (auto simp: recovering_def in_flight_def) (simp add: do_lpush_def)
    moreover have "tracked (snd (do_lpush (queue_key (job_type j)) i t s))" if "tracked_but {i} s" "stored s ?j" for t s
      by (rule tracked_kept [of i _ ?j]) (use that wf in \<open>simp_all add: tracked_grow\<close>, simp add: kept_defs do_lpush_def)
    ultimately have push: "triple ?S (command e (do_lpush (queue_key (job_type j)) i)) ?Q (\<lambda>_ _. False)"
      by (intro calm_command [OF assms(1)]) simp
    show ?thesis
      unfolding Let_def by (rule triple_seq [OF put]) (use push in \<open>auto intro!: triple_seq intro: triple_give\<close>)
  qed
  show "triple ?P (case from_json e v of Inl _ \<Rightarrow> give n | Inr j \<Rightarrow> ?body j) ?Q (\<lambda>_ _. False)"
  proof (cases "\<exists>s. ?P s")
    case True
    then obtain j where j: "from_json e v = Inr j" "job_id j = i" "wf_job j"
      using blob_of_decodes [of i v e] has_blob_typed by blast
    show ?thesis
      unfolding j(1) sum.case
      by (rule triple_seq [OF calm_now(1) [OF assms(2)]], rule triple_pure, rule triple_pre, rule body [OF j(2,3)]) simp_all
  qed (unfold triple_def, blast)
qed

lemma recovered_tracked:
  assumes "tracked s" "recovering w ids (set ids) s"
  shows "tracked (snd (do_del_list (processing_key w) now s))"
proof (rule tracked_mono [OF assms(1)])
  show "kept (snd (do_del_list (processing_key w) now s)) j" if "stored s j" "kept s j" for j
  proof -
    have "worker_id j \<noteq> w" if "job_status j = ''processing''"
      using that \<open>stored s j\<close> \<open>kept s j\<close> assms(2) by (auto simp: recovering_def in_flight_def kept_defs)
    with \<open>kept s j\<close> show ?thesis by (auto simp: kept_defs do_del_list_def)
  qed
qed (auto simp: do_del_list_def)

lemma calm_recover:
  assumes "calm e" "fits e"
  shows "triple tracked (recover_processing e q w) (\<lambda>_. tracked) (\<lambda>_. tracked)"
proof -
  have "redis_range 0 (- 1) xs = xs" for xs :: "string list"
    by (cases xs) (auto simp: redis_range_def Let_def)
  then have look: "triple tracked (attempt (seq (command e (do_lrange (processing_key w) 0 (- 1))) (\<lambda>ids. give (Some ids))) (give None))
      (\<lambda>r s. case r of None \<Rightarrow> tracked s | Some ids \<Rightarrow> tracked s \<and> recovering w ids {} s) (\<lambda>_. tracked)"
    by (intro calm_attempt triple_seq [OF calm_command [OF assms(1), where Q = "\<lambda>ids s. tracked s \<and> recovering w ids {} s"]])
       (auto simp: do_lrange_def recovering_def intro: triple_give)
  have loop: "triple (\<lambda>s. tracked s \<and> recovering w ids {} s) (for_each ids (rescue e) 0)
      (\<lambda>_ s. tracked s \<and> recovering w ids (set ids) s) (\<lambda>_. tracked)" for ids
    using triple_for_each [of "\<lambda>seen _ s. tracked s \<and> recovering w ids seen s" "rescue e" "\<lambda>_. tracked" "{}" 0 ids]
      calm_rescue [OF assms] by simp
  have clear: "triple (\<lambda>s. tracked s \<and> recovering w ids (set ids) s)
      (attempt (command e (do_del_list (processing_key w))) (give ())) (\<lambda>_. tracked) (\<lambda>_. tracked)" for ids
    by (rule calm_attempt, rule calm_command [OF assms(1)])
       (auto intro!: recovered_tracked [where ids = ids])
  have "triple (\<lambda>s. case r of None \<Rightarrow> tracked s | Some ids \<Rightarrow> tracked s \<and> recovering w ids {} s)
     (case r of None \<Rightarrow> give 0 | Some ids \<Rightarrow> seq (for_each ids (rescue e) 0) (\<lambda>recovered.
        seq (attempt (command e (do_del_list (processing_key w))) (give ())) (\<lambda>_. give recovered)))
     (\<lambda>_. tracked) (\<lambda>_. tracked)" for r
    by (cases r) (auto intro: triple_give triple_seq [OF loop triple_seq [OF clear]])
  then show ?thesis
    unfolding recover_processing_def
    by (intro triple_seq [OF calm_check] triple_if triple_give triple_seq [OF look]) simp_all
qed

text \<open>Moving a due job from the delayed set to its queue.\<close>

definition exposed :: "string \<Rightarrow> redis \<Rightarrow> bool" where
  "exposed i s \<longleftrightarrow> tracked_but {i} s \<and> (\<forall>j. stored s j \<longrightarrow> job_id j = i \<longrightarrow> kept_claimed s j)"

lemma steady_exposed [simp]: "steady (exposed i)"
  by (simp add: steady_def exposed_def kept_claimed_def)

lemma exposed_calls [simp]: "exposed i (s\<lparr>calls := n\<rparr>) = exposed i s" "has_blob i v (s\<lparr>calls := n\<rparr>) = has_blob i v s"
  using steady_exposed [of i] by (simp_all add: steady_def has_blob_def)

lemma zrem_exposed:
  assumes "tracked s"
  shows "if fst (do_zrem delayed_key i now s) = 0 then tracked (snd (do_zrem delayed_key i now s))
         else exposed i (snd (do_zrem delayed_key i now s))"
proof -
  let ?s = "snd (do_zrem delayed_key i now s)"
  have same: "stored ?s j = stored s j" "kept_claimed ?s j = kept_claimed s j" for j
    by (simp_all add: do_zrem_def stored_def kept_claimed_def)
  have "filter (\<lambda>(y, _). y \<noteq> i) (zsets s delayed_key) = zsets s delayed_key" if "i \<notin> fst ` set (zsets s delayed_key)"
    using that by (force simp: filter_id_conv)
  then have "?s = s" if "fst (do_zrem delayed_key i now s) = 0"
    using that by (auto simp: do_zrem_def split: if_splits)
  moreover have "kept_claimed ?s j" if "stored ?s j" for j
    using that assms by (auto simp: same tracked_but_def kept_def)
  ultimately show ?thesis
    using assms tracked_shrink(3) [OF assms, of i delayed_key now] by (auto simp: exposed_def)
qed

lemma exposed_requeued:
  assumes "exposed i s" "has_blob i (to_json j) s" "wf_job j" "job_id j = i"
  shows "tracked (snd (do_lpush (queue_key (job_type j)) i now s))"
proof (cases "no_duty i s")
  case True
  then show ?thesis using assms(1) by (auto intro: no_duty_tracked tracked_grow simp: exposed_def)
next
  case False
  with assms(2-4) have j: "stored s j" by (auto simp: no_duty_def has_blob_def stored_def)
  with assms(1,4) have "kept (snd (do_lpush (queue_key (job_type j)) i now s)) j"
    by (auto simp: exposed_def kept_defs do_lpush_def)
  then show ?thesis
    using assms(1,4) j by (intro tracked_kept [of i _ j]) (auto simp: exposed_def tracked_grow)
qed

lemma calm_promote:
  assumes "calm e"
  shows "triple tracked (promote e i n) (\<lambda>_. tracked) (\<lambda>_. tracked)"
proof -
  have gate: "triple tracked (command e (do_zrem delayed_key i)) (\<lambda>m s. if m = 0 then tracked s else exposed i s) X" for X
    by (rule calm_command [OF assms]) (use zrem_exposed in force)
  have again: "triple (\<lambda>s. exposed i s \<and> has_blob i v s)
      (seq (decode e v) (\<lambda>j. seq (command e (do_lpush (queue_key (job_type j)) i)) (\<lambda>_. give (n + 1)))) (\<lambda>_. tracked) (\<lambda>_ _. False)" for v
  proof (rule triple_seq, rule calm_decode [where Y = "{i}" and i = i], simp add: exposed_def, rule triple_pure)
    fix j assume j: "v = to_json j \<and> job_id j = i \<and> wf_job j"
    have "triple (\<lambda>s. exposed i s \<and> has_blob i v s) (command e (do_lpush (queue_key (job_type j)) i)) (\<lambda>_. tracked) (\<lambda>_ _. False)"
      by (rule calm_command [OF assms]) (use exposed_requeued j in auto)
    then show "triple (\<lambda>s. exposed i s \<and> has_blob i v s)
        (seq (command e (do_lpush (queue_key (job_type j)) i)) (\<lambda>_. give (n + 1))) (\<lambda>_. tracked) (\<lambda>_ _. False)"
      by (rule triple_seq) (rule triple_give)
  qed
  have look: "triple (exposed i) (seq (get_job e i) (\<lambda>data. case data of None \<Rightarrow> give n
      | Some v \<Rightarrow> seq (decode e v) (\<lambda>j. seq (command e (do_lpush (queue_key (job_type j)) i)) (\<lambda>_. give (n + 1)))))
      (\<lambda>_. tracked) (\<lambda>_ _. False)"
    by (rule calm_get_case [OF assms _ _ again], simp, rule triple_give) (auto intro: no_duty_tracked simp: exposed_def)
  show ?thesis
    unfolding promote_def
    by (rule calm_attempt, rule triple_seq [OF gate], rule triple_if, rule triple_give, simp, rule triple_pre [OF look], simp)
qed

lemma calm_due:
  assumes "calm e"
  shows "triple tracked (due_members e k) (\<lambda>_. tracked) X"
  unfolding due_members_def
  by (rule triple_seq [OF calm_now(2)], rule calm_attempt, rule triple_seq [OF calm_command [OF assms, where Q = "\<lambda>_. tracked"]])
     (auto simp: do_zrangebyscore_def intro: triple_give)

lemma calm_each:
  "(\<And>x a. triple tracked (f x a) (\<lambda>_. tracked) (\<lambda>_. tracked)) \<Longrightarrow>
   triple tracked (for_each xs f b) (\<lambda>_. tracked) (\<lambda>_. tracked)"
  using triple_for_each [of "\<lambda>_ _. tracked" f "\<lambda>_. tracked" "{}" b xs] by blast

lemma calm_promote_due:
  assumes "calm e"
  shows "triple tracked (promote_due_jobs e q) (\<lambda>_. tracked) (\<lambda>_. tracked)"
  unfolding promote_due_jobs_def
  by (auto intro!: triple_give triple_seq [OF calm_due [OF assms]] calm_each calm_promote [OF assms] split: option.split)

lemma calm_reap:
  assumes "calm e" "fits e"
  shows "triple tracked (reap e q i n) (\<lambda>_. tracked) (\<lambda>_. tracked)"
  unfolding reap_def
  by (rule triple_attempt [where Y = "\<lambda>_. tracked"], rule triple_seq [OF calm_quiet(2) [OF assms(1)]], simp)
     (auto intro!: triple_give triple_seq [OF calm_fail [OF assms]])

lemma calm_reap_expired:
  assumes "calm e" "fits e"
  shows "triple tracked (reap_expired_leases e q) (\<lambda>_. tracked) (\<lambda>_. tracked)"
  unfolding reap_expired_leases_def
  by (auto intro!: triple_give triple_seq [OF calm_due [OF assms(1)]] calm_each calm_reap [OF assms] split: option.split)

lemma calm_set_trace:
  assumes "calm e" "fits e"
  shows "triple tracked (set_trace_id e q i tr) (\<lambda>_. tracked) (\<lambda>_. tracked)"
proof -
  have touch: "tracked (snd (do_set (job_key i) (to_json (j\<lparr>trace_id := tr, updated_at := now\<rparr>)) t s))"
    if "tracked s" "has_blob i (to_json j) s" "job_id j = i" "wf_job j" "in_ll now" for s j now t
  proof -
    let ?j = "j\<lparr>trace_id := tr, updated_at := now\<rparr>"
    have wf: "job_id ?j = i" "wf_job ?j" using that by (simp_all add: wf_job_def)
    have "kept s j"
    proof (cases "kv s (job_key i) = Some (to_json j, None)")
      case True
      with that show ?thesis by (auto simp: tracked_but_def stored_def)
    next
      case False
      with that(2) obtain u where "kv s (job_key i) = Some (to_json j, Some u)" by (auto simp: has_blob_def)
      with that(1,4) have "job_status j \<in> {''completed'', ''failed''}" unfolding tracked_but_def by blast
      then show ?thesis by (auto simp: kept_defs)
    qed
    then have "kept s ?j" by (simp add: kept_defs)
    then show ?thesis
      by (intro tracked_kept [of i _ ?j]) (simp_all add: do_set_tracked [OF that(1) _ wf] wf)
  qed
  have "triple (\<lambda>s. tracked s \<and> has_blob i v s)
     (seq (decode e v) (\<lambda>j. seq (now_epoch e) (\<lambda>now. store e i (j\<lparr>trace_id := tr, updated_at := now\<rparr>)))) (\<lambda>_. tracked) (\<lambda>_ _. False)" for v
  proof (rule triple_seq, rule calm_decode [where Y = "{}" and i = i], simp, rule triple_pure,
      rule triple_seq [OF calm_now(1) [OF assms(2)]], rule triple_pure)
    fix j now assume j: "v = to_json j \<and> job_id j = i \<and> wf_job j" and now: "in_ll now"
    show "triple (\<lambda>s. tracked s \<and> has_blob i v s) (store e i (j\<lparr>trace_id := tr, updated_at := now\<rparr>)) (\<lambda>_. tracked) (\<lambda>_ _. False)"
      unfolding store_def
      by (rule calm_command [OF assms(1)]) (use touch j now in auto)
  qed
  then show ?thesis
    unfolding set_trace_id_def
    by (intro triple_seq [OF calm_check] calm_get_case [OF assms(1)] calm_attempt) (auto intro: triple_give)
qed

lemma calm_list_paged:
  assumes "calm e"
  shows "triple tracked (list_paged e q ty limit offset) (\<lambda>_. tracked) (\<lambda>_. tracked)"
proof -
  let ?k = "if ty = [] then index_key else index_key_for ty"
  have reads: "triple tracked (command e (do_zrevrange k a b)) (\<lambda>_. tracked) X"
    "triple tracked (command e (do_mget ks)) (\<lambda>_. tracked) X" "triple tracked (command e (do_zcard k)) (\<lambda>_. tracked) X" for k a b ks X
    by (rule calm_command [OF assms]; simp add: do_zrevrange_def do_mget_def do_zcard_def)+
  have stale: "triple tracked (drop_stale e ?k ty i u) (\<lambda>_. tracked) X" for i u X
    unfolding drop_stale_def
    by (rule calm_attempt, rule triple_seq [OF calm_quiet(2) [OF assms]])
       (auto intro!: triple_give triple_seq [OF calm_quiet(2) [OF assms]])
  have fetch: "triple tracked (if ids = [] then give [] else seq (command e (do_mget (map job_key ids))) (\<lambda>vals.
      seq (for_each (stale_ids e ids vals) (drop_stale e ?k ty) ()) (\<lambda>_. give (decoded e vals))))
      (\<lambda>_. tracked) (\<lambda>_. tracked)" for ids
    by (rule triple_if, rule triple_give, assumption, rule triple_seq [OF reads(2)], rule triple_seq [OF calm_each], rule stale,
        rule triple_give)
  show ?thesis
    unfolding list_paged_def Let_def
    by (rule triple_seq [OF calm_check], simp, rule triple_seq [OF reads(1)], rule triple_seq [OF fetch],
        rule triple_seq [OF reads(3)], rule triple_give)
qed

lemma calm_reads:
  assumes "calm e"
  shows "triple tracked (list_dlq e q ty limit) (\<lambda>_. tracked) (\<lambda>_. tracked)"
    and "triple tracked (get_status e q i) (\<lambda>_. tracked) (\<lambda>_. tracked)"
    and "triple tracked (dlq_depth e q) (\<lambda>_. tracked) (\<lambda>_. tracked)"
proof -
  have reads: "triple tracked (command e (do_smembers k)) (\<lambda>_. tracked) X" "triple tracked (command e (do_lrange k a b)) (\<lambda>_. tracked) X"
    "triple tracked (command e (do_mget ks)) (\<lambda>_. tracked) X" "triple tracked (command e (do_scard k)) (\<lambda>_. tracked) X" for k a b ks X
    by (rule calm_command [OF assms]; simp add: do_smembers_def do_lrange_def do_mget_def do_scard_def)+
  have fetch: "triple tracked (fetch_jobs_by_ids e ids) (\<lambda>_. tracked) (\<lambda>_. tracked)" for ids
    unfolding fetch_jobs_by_ids_def by (auto intro!: triple_give triple_seq [OF reads(3)])
  show "triple tracked (list_dlq e q ty limit) (\<lambda>_. tracked) (\<lambda>_. tracked)"
    unfolding list_dlq_def
    by (rule triple_seq [OF calm_check], simp, rule triple_seq, rule triple_if, rule reads(1), rule reads(2))
       (auto intro: triple_raise fetch)
  show "triple tracked (dlq_depth e q) (\<lambda>_. tracked) (\<lambda>_. tracked)"
    unfolding dlq_depth_def by (auto intro!: triple_give calm_attempt reads)
  have "triple (\<lambda>s. tracked s \<and> has_blob i v s) (seq (decode e v) (\<lambda>j. give (Some j))) (\<lambda>_. tracked) (\<lambda>_. tracked)" for v
    by (rule triple_seq, rule calm_decode [where Y = "{}" and i = i]) (auto intro: triple_give)
  then show "triple tracked (get_status e q i) (\<lambda>_. tracked) (\<lambda>_. tracked)"
    unfolding get_status_def
    by (intro triple_seq [OF calm_check] calm_get_case [OF assms]) (auto intro: triple_give)
qed

lemma calm_ignore:
  "triple tracked m (\<lambda>_. tracked) (\<lambda>_. tracked) \<Longrightarrow> triple tracked (ignore m) (\<lambda>_. tracked) (\<lambda>_. tracked)"
  unfolding ignore_def by (erule triple_seq) (rule triple_give)

lemma calm_perform:
  assumes "calm e" "fits e" "cfg_fits q" "op_fits opn"
  shows "triple tracked (perform e q opn) (\<lambda>_. tracked) (\<lambda>_. tracked)"
proof (cases opn)
  case (Submit ty pl mr)
  with assms(4) have "- (2 ^ 31) \<le> mr" "mr < 2 ^ 31" by simp_all
  with assms(1-3) show ?thesis unfolding Submit perform.simps by (intro calm_ignore calm_submit)
qed (simp_all only: perform.simps, (intro calm_ignore calm_pick calm_complete calm_fail calm_dead_letter calm_requeue_from_dlq
       calm_recover calm_promote_due calm_reap_expired calm_cancel calm_list_paged calm_reads calm_set_trace assms)+)

lemma jobs_reach_tracked:
  assumes "jobs_reach e q s" "calm e" "fits e" "cfg_fits q"
  shows "tracked s"
  using assms(1)
proof (induction rule: jobs_reach.induct)
  case jobs_start
  show ?case by (simp add: tracked_but_def typed_def no_data_def stored_def)
next
  case (jobs_op s opn)
  from calm_perform [OF assms(2-4) jobs_op.hyps(2), unfolded triple_def] jobs_op.IH
  show ?case by (cases "perform e q opn s") (auto split: sum.splits dest!: spec [of _ s])
qed


section \<open>Runs\<close>

definition ticking :: surroundings where
  "ticking = \<lparr>fault_of = (\<lambda>_. Answered), clock_ms = (\<lambda>n. if n < 100 then 100000 * int n else 10000000), new_uuid = (\<lambda>_. ''j''),
              traceparent_of = (\<lambda>_. []), trunc_float = (\<lambda>_. 0)\<rparr>"

fun after :: "surroundings \<Rightarrow> queue_cfg \<Rightarrow> queue_op list \<Rightarrow> redis" where
  "after e q ops = fold (\<lambda>opn s. snd (perform e q opn s)) ops no_data"

lemma after_reaches:
  "list_all op_fits ops \<Longrightarrow> jobs_reach e q (after e q ops)"
  by (induction ops rule: rev_induct) (auto intro: jobs_start jobs_op)

lemmas jobs_ops = ignore_def submit_def fresh_job_def pick_def take_id_def claim_def lease_def fail_def retry_def bury_def
  leave_processing_def clear_lease_def backoff_delay_ms_def wrap_def cancel_def promote_due_jobs_def promote_def due_members_def
  complete_def recover_processing_def rescue_def zordered_def


text \<open>
  Cancelling a job that waits for its retry does not stop it: \<open>cancel\<close> answers true and
  marks the job failed, but leaves its identifier in the delayed set, from where the next sweep
  puts it back into the queue and a worker picks it up and runs it.
\<close>

theorem cancelled_job_runs_again:
  "let s = after ticking demo_cfg [Submit ''mail'' JNull 5, Pick [''mail''] ''w'', Fail ''j'' ''timeout'']
   in case cancel ticking demo_cfg ''j'' s of
        (Inr True, s') \<Rightarrow>
          (case pick ticking demo_cfg [''mail''] ''w'' (snd (perform ticking demo_cfg Promote s')) of
             (Inr (Some j), _) \<Rightarrow> job_id j = ''j'' \<and> job_status j = ''processing''
           | _ \<Rightarrow> False)
      | _ \<Rightarrow> False"
  by (simp add: jobs_ops ticking_def demo_cfg_def no_data_def jobs_eval job_json_reads wf_job_def in_ll_def delayed_key_def)

end
