(* ===== verification/Documents.thy ===== *)
theory Documents
  imports LedgerStore Json
begin

text \<open>
  Documents and their versions: \<^verbatim>\<open>src/src/ledger/DocumentRepository.hpp\<close> over the tables of
  \<^verbatim>\<open>src/migrations/010\<close>, \<^verbatim>\<open>018\<close>, \<^verbatim>\<open>019\<close> and \<^verbatim>\<open>023\<close>, the entities \<open>Document\<close> and
  \<open>DocumentVersion\<close> their rows are read into, and the storage keys of
  \<^verbatim>\<open>src/src/files/FileKeys.hpp\<close>.

  Statements are functions on \<open>doc_db\<close>, as in \<open>LedgerStore\<close>; the journal they refer to is its
  \<open>db\<close>. \<open>held\<close> lists the documents that rows of \<open>hr_orders\<close> and \<open>tax_filings\<close> name. A \<open>jsonb\<close>
  column holds its value; \<open>now\<close> and the drawn identifiers are arguments.
\<close>

section \<open>Rows\<close>

record document_row =
  d_id :: string
  d_org :: string
  d_type :: string
  d_source :: string
  d_status :: string
  d_counterparty :: "string option"
  d_template :: "string option"
  d_current :: "string option"
  d_voided_at :: "int option"
  d_voided_by :: "string option"
  d_void_reason :: "string option"
  d_created_at :: int

record version_row =
  v_id :: string
  v_org :: string
  v_document :: string
  v_no :: int
  v_key :: "string option"
  v_checksum :: "string option"
  v_mime :: "string option"
  v_size :: "int option"
  v_template :: "string option"
  v_engine :: "string option"
  v_input :: "json option"
  v_author :: "string option"
  v_created_at :: int

record link_row =
  k_org :: string
  k_document :: string
  k_entry :: string

record doc_db =
  documents :: "document_row list"
  versions :: "version_row list"
  links :: "link_row list"
  held :: "string list"

definition doc_types :: "string list" where
  "doc_types = [''invoice'', ''avr'', ''waybill'', ''tax_invoice'', ''reconciliation'', ''power_of_attorney'', ''incoming'',
                ''bank_statement'', ''hr'', ''payroll'', ''fno'', ''other'']"

definition doc_sources :: "string list" where
  "doc_sources = [''generated'', ''uploaded'', ''email'']"

definition doc_statuses :: "string list" where
  "doc_statuses = [''inbox'', ''recognized'', ''linked'', ''archived'', ''draft'', ''final'', ''sent'']"

section \<open>Entities\<close>

record Document =
  doc_id :: string
  doc_org :: string
  doc_type :: string
  doc_source :: string
  doc_status :: string
  doc_counterparty :: "string option"
  doc_s3_key :: "string option"
  doc_checksum :: "string option"
  doc_mime :: "string option"
  doc_size :: "int option"
  doc_template_slug :: "string option"
  doc_template_version :: "string option"
  doc_input :: "json option"
  doc_current_version :: "string option"
  doc_latest_no :: int
  doc_voided_at :: "int option"
  doc_voided_by :: "string option"
  doc_void_reason :: "string option"
  doc_created_at :: int

record DocumentVersion =
  ver_id :: string
  ver_org :: string
  ver_document :: string
  version_no :: int
  ver_s3_key :: "string option"
  ver_checksum :: "string option"
  ver_mime :: "string option"
  ver_size :: "int option"
  ver_template_version :: "string option"
  render_engine :: "string option"
  ver_input :: "json option"
  ver_author :: "string option"
  ver_created_at :: int

definition versions_of :: "doc_db \<Rightarrow> string \<Rightarrow> version_row list" where
  "versions_of d i = filter (\<lambda>v. v_document v = i) (versions d)"

text \<open>\<open>COALESCE((SELECT MAX(version_no) ...), 0)\<close>.\<close>

definition max_no :: "doc_db \<Rightarrow> string \<Rightarrow> int" where
  "max_no d i = (let ns = map v_no (versions_of d i) in if ns = [] then 0 else Max (set ns))"

definition joined :: "doc_db \<Rightarrow> document_row \<Rightarrow> version_row option" where
  "joined d r = find (\<lambda>v. d_current r = Some (v_id v)) (versions d)"

definition Document_from_row :: "doc_db \<Rightarrow> document_row \<Rightarrow> Document" where
  "Document_from_row d r =
     (let file = (\<lambda>f. Option.bind (joined d r) f) in
      \<lparr>doc_id = d_id r, doc_org = d_org r, doc_type = d_type r, doc_source = d_source r, doc_status = d_status r,
       doc_counterparty = d_counterparty r, doc_s3_key = file v_key, doc_checksum = file v_checksum, doc_mime = file v_mime,
       doc_size = Option.bind (joined d r) v_size, doc_template_slug = d_template r, doc_template_version = file v_template,
       doc_input = Option.bind (joined d r) v_input, doc_current_version = d_current r, doc_latest_no = max_no d (d_id r),
       doc_voided_at = d_voided_at r, doc_voided_by = d_voided_by r, doc_void_reason = d_void_reason r,
       doc_created_at = d_created_at r\<rparr>)"

definition DocumentVersion_from_row :: "version_row \<Rightarrow> DocumentVersion" where
  "DocumentVersion_from_row r =
     \<lparr>ver_id = v_id r, ver_org = v_org r, ver_document = v_document r, version_no = v_no r, ver_s3_key = v_key r,
      ver_checksum = v_checksum r, ver_mime = v_mime r, ver_size = v_size r, ver_template_version = v_template r,
      render_engine = v_engine r, ver_input = v_input r, ver_author = v_author r, ver_created_at = v_created_at r\<rparr>"

section \<open>Reads\<close>

definition doc_order :: "document_row list \<Rightarrow> document_row list" where
  "doc_order = sort_key (\<lambda>r. - d_created_at r)"

definition find_document :: "doc_db \<Rightarrow> string \<Rightarrow> string \<Rightarrow> Document option" where
  "find_document d i org = find_in_org d_id d_org (Document_from_row d) (documents d) i org"

definition matches :: "string \<Rightarrow> string option \<Rightarrow> string option \<Rightarrow> document_row \<Rightarrow> bool" where
  "matches org ty st r \<longleftrightarrow> d_org r = org \<and> (ty = None \<or> ty = Some (d_type r)) \<and> (st = None \<or> st = Some (d_status r))"

definition list_documents ::
  "doc_db \<Rightarrow> string \<Rightarrow> string option \<Rightarrow> string option \<Rightarrow> nat \<Rightarrow> nat \<Rightarrow> Document list" where
  "list_documents d org ty st limit offset =
     map (Document_from_row d) (take limit (drop offset (doc_order (filter (matches org ty st) (documents d)))))"

definition count_documents :: "doc_db \<Rightarrow> string \<Rightarrow> string option \<Rightarrow> string option \<Rightarrow> nat" where
  "count_documents d org ty st = length (filter (matches org ty st) (documents d))"

definition version_rows :: "doc_db \<Rightarrow> string \<Rightarrow> string \<Rightarrow> version_row list" where
  "version_rows d org i = sort_key v_no (filter (\<lambda>v. v_org v = org \<and> v_document v = i) (versions d))"

definition list_versions :: "doc_db \<Rightarrow> string \<Rightarrow> string \<Rightarrow> DocumentVersion list" where
  "list_versions d org i = map DocumentVersion_from_row (version_rows d org i)"

definition find_version :: "doc_db \<Rightarrow> string \<Rightarrow> string \<Rightarrow> int \<Rightarrow> DocumentVersion option" where
  "find_version d org i n =
     map_option DocumentVersion_from_row (find (\<lambda>v. v_org v = org \<and> v_document v = i \<and> v_no v = n) (versions d))"

definition latest_version :: "doc_db \<Rightarrow> string \<Rightarrow> string \<Rightarrow> DocumentVersion option" where
  "latest_version d org i =
     (case rev (version_rows d org i) of [] \<Rightarrow> None | v # _ \<Rightarrow> Some (DocumentVersion_from_row v))"

datatype VersionRenderState = kMissing | kRenderable | kAlreadyRendered | kSuperseded | kDocVoided

definition version_render_state :: "doc_db \<Rightarrow> string \<Rightarrow> string \<Rightarrow> string \<Rightarrow> VersionRenderState" where
  "version_render_state d org i ver =
     (case find (\<lambda>v. v_id v = ver \<and> v_document v = i \<and> v_org v = org) (versions d) of
        None \<Rightarrow> kMissing
      | Some v \<Rightarrow>
          (case find (\<lambda>r. d_id r = i) (documents d) of
             None \<Rightarrow> kMissing
           | Some r \<Rightarrow>
               if d_voided_at r \<noteq> None then kDocVoided
               else if v_no v \<noteq> max_no d i then kSuperseded
               else if v_key v \<noteq> None then kAlreadyRendered
               else kRenderable))"

section \<open>Writes\<close>

datatype doc_error = DocumentNotFound | DocSql sql_error

definition insert_document ::
  "db \<Rightarrow> string \<Rightarrow> int \<Rightarrow> string \<Rightarrow> string \<Rightarrow> string \<Rightarrow> string \<Rightarrow> string option \<Rightarrow> string option \<Rightarrow> doc_db
     \<Rightarrow> sql_error + doc_db" where
  "insert_document j i now org ty src st cp slug d =
     (if ty \<notin> set doc_types \<or> src \<notin> set doc_sources \<or> st \<notin> set doc_statuses then Inl CheckViolation
      else if i \<in> d_id ` set (documents d) then Inl UniqueViolation
      else if org \<notin> set (organizations j) \<or> (case cp of None \<Rightarrow> False | Some c \<Rightarrow> c \<notin> c_id ` set (counterparties j))
      then Inl ForeignKeyViolation
      else Inr (d\<lparr>documents := documents d @
             [\<lparr>d_id = i, d_org = org, d_type = ty, d_source = src, d_status = st, d_counterparty = cp, d_template = slug,
               d_current = None, d_voided_at = None, d_voided_by = None, d_void_reason = None, d_created_at = now\<rparr>]\<rparr>))"

definition insert_version ::
  "db \<Rightarrow> string \<Rightarrow> int \<Rightarrow> string \<Rightarrow> string \<Rightarrow> int \<Rightarrow> string option \<Rightarrow> json option \<Rightarrow> string option \<Rightarrow> doc_db
     \<Rightarrow> sql_error + version_row \<times> doc_db" where
  "insert_version j vid now org i n tpl inp author d =
     (let v = \<lparr>v_id = vid, v_org = org, v_document = i, v_no = n, v_key = None, v_checksum = None, v_mime = None,
               v_size = None, v_template = tpl, v_engine = None, v_input = inp, v_author = author, v_created_at = now\<rparr>
      in if n \<ge> 2 ^ 31 then Inl NumericOverflow
         else if n < 1 then Inl CheckViolation
         else if vid \<in> v_id ` set (versions d) \<or> (i, n) \<in> (\<lambda>v. (v_document v, v_no v)) ` set (versions d)
         then Inl UniqueViolation
         else if org \<notin> set (organizations j) \<or> (i, org) \<notin> (\<lambda>r. (d_id r, d_org r)) ` set (documents d) \<or>
                 (case author of None \<Rightarrow> False | Some u \<Rightarrow> u \<notin> set (users j))
         then Inl ForeignKeyViolation
         else Inr (v, d\<lparr>versions := versions d @ [v]\<rparr>))"

text \<open>One transaction: the row, its version 1, and the read of what was written.\<close>

definition create_document ::
  "db \<Rightarrow> (nat \<Rightarrow> string) \<Rightarrow> int \<Rightarrow> string \<Rightarrow> string \<Rightarrow> string \<Rightarrow> string \<Rightarrow> string option \<Rightarrow> string option \<Rightarrow> string option
     \<Rightarrow> json option \<Rightarrow> string option \<Rightarrow> doc_db \<Rightarrow> sql_error + Document option \<times> doc_db" where
  "create_document j gen now org ty src st cp slug tpl inp author d =
     rbind (insert_document j (gen 0) now org ty src st cp slug d) (\<lambda>d1.
     rbind (insert_version j (gen 1) now org (gen 0) 1 tpl inp author d1) (\<lambda>(_, d2).
     Inr (find_document d2 (gen 0) org, d2)))"

definition add_version ::
  "db \<Rightarrow> string \<Rightarrow> int \<Rightarrow> string \<Rightarrow> string \<Rightarrow> json option \<Rightarrow> string option \<Rightarrow> string option \<Rightarrow> doc_db
     \<Rightarrow> doc_error + DocumentVersion \<times> doc_db" where
  "add_version j vid now org i inp tpl author d =
     (case find (\<lambda>r. d_id r = i \<and> d_org r = org) (documents d) of
        None \<Rightarrow> Inl DocumentNotFound
      | Some r \<Rightarrow>
          (case insert_version j vid now (d_org r) (d_id r) (max_no d (d_id r) + 1) tpl inp author d of
             Inl e \<Rightarrow> Inl (DocSql e)
           | Inr (v, d') \<Rightarrow> Inr (DocumentVersion_from_row v, d')))"

definition upd_document :: "(document_row \<Rightarrow> bool) \<Rightarrow> (document_row \<Rightarrow> document_row) \<Rightarrow> doc_db \<Rightarrow> doc_db" where
  "upd_document P f d = d\<lparr>documents := map (\<lambda>r. if P r then f r else r) (documents d)\<rparr>"

definition upd_version :: "(version_row \<Rightarrow> bool) \<Rightarrow> (version_row \<Rightarrow> version_row) \<Rightarrow> doc_db \<Rightarrow> doc_db" where
  "upd_version P f d = d\<lparr>versions := map (\<lambda>v. if P v then f v else v) (versions d)\<rparr>"

definition own_document :: "string \<Rightarrow> string \<Rightarrow> document_row \<Rightarrow> bool" where
  "own_document org i r \<longleftrightarrow> d_id r = i \<and> d_org r = org"

text \<open>The file goes to the newest version of a draft, which becomes the current one.\<close>

definition set_pending_upload :: "string \<Rightarrow> string \<Rightarrow> string \<Rightarrow> string \<Rightarrow> doc_db \<Rightarrow> bool \<times> doc_db" where
  "set_pending_upload org i key mime d =
     (if \<exists>r \<in> set (documents d). own_document org i r \<and> d_status r = ''draft'' then
        (case find (\<lambda>v. v_document v = i \<and> v_org v = org \<and> v_no v = max_no d i) (versions d) of
           None \<Rightarrow> (False, d)
         | Some v \<Rightarrow>
             (True, upd_document (own_document org i) (\<lambda>r. r\<lparr>d_current := Some (v_id v)\<rparr>)
                (upd_version (\<lambda>w. v_id w = v_id v) (\<lambda>w. w\<lparr>v_key := Some key, v_mime := Some mime\<rparr>) d)))
      else (False, d))"

text \<open>A \<open>CHAR(64)\<close> column pads with blanks and refuses what is longer.\<close>

definition char64 :: "string \<Rightarrow> sql_error + string" where
  "char64 s =
     (if length s \<le> 64 then Inr (s @ replicate (64 - length s) (CHR '' ''))
      else if list_all (\<lambda>c. c = CHR '' '') (drop 64 s) then Inr (take 64 s) else Inl InvalidText)"

definition own_version :: "string \<Rightarrow> string \<Rightarrow> version_row \<Rightarrow> bool" where
  "own_version org ver v \<longleftrightarrow> v_id v = ver \<and> v_org v = org"

definition set_version_file ::
  "string \<Rightarrow> string \<Rightarrow> string \<Rightarrow> string \<Rightarrow> string \<Rightarrow> int \<Rightarrow> string option \<Rightarrow> doc_db \<Rightarrow> sql_error + bool \<times> doc_db" where
  "set_version_file org ver key checksum mime bytes engine d =
     (if \<exists>v \<in> set (versions d). own_version org ver v then
        rbind (char64 checksum) (\<lambda>sum.
        Inr (True, upd_version (own_version org ver) (\<lambda>v. v\<lparr>v_key := Some key, v_checksum := Some sum, v_mime := Some mime,
                     v_size := Some bytes, v_engine := (case engine of None \<Rightarrow> v_engine v | Some _ \<Rightarrow> engine)\<rparr>) d))
      else Inr (False, d))"

text \<open>Published only while it is the newest version of that document.\<close>

definition publishable :: "doc_db \<Rightarrow> string \<Rightarrow> string \<Rightarrow> string \<Rightarrow> bool" where
  "publishable d org i ver \<longleftrightarrow>
     (\<exists>v \<in> set (versions d). v_id v = ver \<and> v_org v = org \<and> v_document v = i \<and> v_no v = max_no d i)"

definition set_current_version :: "string \<Rightarrow> string \<Rightarrow> string \<Rightarrow> doc_db \<Rightarrow> bool \<times> doc_db" where
  "set_current_version org i ver d =
     (if (\<exists>r \<in> set (documents d). own_document org i r) \<and> publishable d org i ver
      then (True, upd_document (own_document org i) (\<lambda>r. r\<lparr>d_current := Some ver\<rparr>) d)
      else (False, d))"

definition set_status :: "string \<Rightarrow> string \<Rightarrow> string \<Rightarrow> doc_db \<Rightarrow> sql_error + bool \<times> doc_db" where
  "set_status org i st d =
     (if \<exists>r \<in> set (documents d). own_document org i r then
        if st \<notin> set doc_statuses then Inl CheckViolation
        else Inr (True, upd_document (own_document org i) (\<lambda>r. r\<lparr>d_status := st\<rparr>) d)
      else Inr (False, d))"

definition set_status_if :: "string \<Rightarrow> string \<Rightarrow> string \<Rightarrow> string \<Rightarrow> doc_db \<Rightarrow> sql_error + bool \<times> doc_db" where
  "set_status_if org i from_st to_st d =
     (if \<exists>r \<in> set (documents d). own_document org i r \<and> d_status r = from_st then
        if to_st \<notin> set doc_statuses then Inl CheckViolation
        else Inr (True, upd_document (\<lambda>r. own_document org i r \<and> d_status r = from_st) (\<lambda>r. r\<lparr>d_status := to_st\<rparr>) d)
      else Inr (False, d))"

definition void_document ::
  "db \<Rightarrow> int \<Rightarrow> string \<Rightarrow> string \<Rightarrow> string \<Rightarrow> string \<Rightarrow> doc_db \<Rightarrow> sql_error + bool \<times> doc_db" where
  "void_document j now org i user reason d =
     (if \<exists>r \<in> set (documents d). own_document org i r \<and> d_voided_at r = None then
        if user \<notin> set (users j) then Inl ForeignKeyViolation
        else Inr (True, upd_document (\<lambda>r. own_document org i r \<and> d_voided_at r = None)
                    (\<lambda>r. r\<lparr>d_voided_at := Some now, d_voided_by := Some user, d_void_reason := Some reason\<rparr>) d)
      else Inr (False, d))"

section \<open>Links to the journal\<close>

definition insert_link :: "db \<Rightarrow> string \<Rightarrow> string \<Rightarrow> string \<Rightarrow> doc_db \<Rightarrow> sql_error + doc_db" where
  "insert_link j org i entry d =
     (if (i, entry) \<in> (\<lambda>k. (k_document k, k_entry k)) ` set (links d) then Inl UniqueViolation
      else if org \<notin> set (organizations j) \<or> (i, org) \<notin> (\<lambda>r. (d_id r, d_org r)) ` set (documents d) \<or>
              (entry, org) \<notin> (\<lambda>e. (e_id e, e_org e)) ` set (entries j)
      then Inl ForeignKeyViolation
      else Inr (d\<lparr>links := links d @ [\<lparr>k_org = org, k_document = i, k_entry = entry\<rparr>]\<rparr>))"

definition link_entry :: "db \<Rightarrow> string \<Rightarrow> string \<Rightarrow> string \<Rightarrow> doc_db \<Rightarrow> sql_error + bool \<times> doc_db" where
  "link_entry j org i entry d =
     (case insert_link j org i entry d of
        Inr d' \<Rightarrow> Inr (True, d')
      | Inl e \<Rightarrow> if e = ForeignKeyViolation \<or> e = UniqueViolation then Inr (False, d) else Inl e)"

definition list_for_entry :: "doc_db \<Rightarrow> string \<Rightarrow> string \<Rightarrow> Document list" where
  "list_for_entry d org entry =
     map (Document_from_row d) (doc_order
       (concat (map (\<lambda>r. map (\<lambda>_. r) (filter (\<lambda>k. k_document k = d_id r \<and> k_org k = org \<and> k_entry k = entry) (links d)))
          (documents d))))"

text \<open>The statuses of the linked entries, in the order the join meets them.\<close>

definition linked_statuses :: "db \<Rightarrow> string \<Rightarrow> string \<Rightarrow> doc_db \<Rightarrow> string list" where
  "linked_statuses j org i d =
     concat (map (\<lambda>k. map e_status (filter (\<lambda>e. e_id e = k_entry k) (entries j)))
       (filter (\<lambda>k. k_document k = i \<and> k_org k = org) (links d)))"

definition has_posted_entry_link :: "db \<Rightarrow> string \<Rightarrow> string \<Rightarrow> doc_db \<Rightarrow> bool" where
  "has_posted_entry_link j org i d \<longleftrightarrow> (\<exists>st \<in> set (linked_statuses j org i d). st \<in> {''posted'', ''reversed''})"

fun any_posted :: "string list \<Rightarrow> bool" where
  "any_posted [] = False"
| "any_posted (st # rest) = (if st = ''posted'' \<or> st = ''reversed'' then True else any_posted rest)"

definition linked_posted_entry_exists_locked :: "db \<Rightarrow> string \<Rightarrow> string \<Rightarrow> doc_db \<Rightarrow> bool" where
  "linked_posted_entry_exists_locked j org i d = any_posted (linked_statuses j org i d)"

section \<open>Deletion\<close>

datatype DeleteOutcome = kDeleted | kNotFound | kHasPostedEntries | kReferenced | kVoided

text \<open>
  \<open>DELETE FROM documents\<close>: the versions and links go by cascade, and a row of another table
  that names the document makes the statement, or the commit, fail.
\<close>

definition delete_document :: "string \<Rightarrow> string \<Rightarrow> doc_db \<Rightarrow> sql_error + bool \<times> doc_db" where
  "delete_document org i d =
     (if \<exists>r \<in> set (documents d). own_document org i r then
        if i \<in> set (held d) then Inl ForeignKeyViolation
        else Inr (True, d\<lparr>documents := filter (\<lambda>r. \<not> own_document org i r) (documents d),
                         versions := filter (\<lambda>v. \<not> (v_document v = i \<and> v_org v = org)) (versions d),
                         links := filter (\<lambda>k. \<not> (k_document k = i \<and> k_org k = org)) (links d)\<rparr>)
      else Inr (False, d))"

definition remove_document :: "db \<Rightarrow> string \<Rightarrow> string \<Rightarrow> doc_db \<Rightarrow> sql_error + DeleteOutcome \<times> doc_db" where
  "remove_document j org i d =
     (case find (own_document org i) (documents d) of
        None \<Rightarrow> Inr (kNotFound, d)
      | Some r \<Rightarrow>
          if d_voided_at r \<noteq> None then Inr (kVoided, d)
          else if linked_posted_entry_exists_locked j org i d then Inr (kHasPostedEntries, d)
          else
            (case delete_document org i d of
               Inl e \<Rightarrow> if e = ForeignKeyViolation then Inr (kReferenced, d) else Inl e
             | Inr (gone, d') \<Rightarrow> Inr (if gone then kDeleted else kNotFound, d')))"

section \<open>Storage keys\<close>

definition safe_char :: "char \<Rightarrow> bool" where
  "safe_char c \<longleftrightarrow>
     (let n = (of_char c :: nat) in
      65 \<le> n \<and> n \<le> 90 \<or> 97 \<le> n \<and> n \<le> 122 \<or> 48 \<le> n \<and> n \<le> 57 \<or> c = CHR ''.'' \<or> c = CHR ''_'' \<or> c = CHR ''-'')"

definition sanitize_filename :: "string \<Rightarrow> string" where
  "sanitize_filename filename =
     (if filename = [] then ''file'' else map (\<lambda>c. if safe_char c then c else CHR ''_'') filename)"

definition org_key :: "string \<Rightarrow> string \<Rightarrow> string \<Rightarrow> string \<Rightarrow> string" where
  "org_key uuid org kind filename = ''org/'' @ org @ ''/'' @ kind @ ''/'' @ uuid @ ''-'' @ sanitize_filename filename"

definition version_key :: "string \<Rightarrow> string \<Rightarrow> string \<Rightarrow> string \<Rightarrow> string" where
  "version_key org kind ver filename =
     ''org/'' @ sanitize_filename org @ ''/'' @ sanitize_filename kind @ ''/'' @ sanitize_filename ver @ ''/'' @
     sanitize_filename filename"

section \<open>What the reads show\<close>

interpretation docs: org_repo d_id d_org doc_order "Document_from_row d" doc_id doc_org for d
  by unfold_locales (simp_all add: doc_order_def Document_from_row_def Let_def)

lemma has_posted_is_any: "has_posted_entry_link j org i d = linked_posted_entry_exists_locked j org i d"
proof -
  have "any_posted sts \<longleftrightarrow> (\<exists>st \<in> set sts. st \<in> {''posted'', ''reversed''})" for sts
    by (induction sts) auto
  then show ?thesis by (simp add: has_posted_entry_link_def linked_posted_entry_exists_locked_def)
qed

lemma linked_status_iff:
  "st \<in> set (linked_statuses j org i d) \<longleftrightarrow>
     (\<exists>k \<in> set (links d). k_document k = i \<and> k_org k = org \<and> (\<exists>e \<in> set (entries j). e_id e = k_entry k \<and> e_status e = st))"
  by (auto simp: linked_statuses_def)

end
