(* ===== verification/RenderJob.thy ===== *)
theory RenderJob
  imports Documents
begin

text \<open>
  The worker's handler of \<open>docgen.render\<close>: \<open>process_job\<close> of \<^verbatim>\<open>src/src/docgen/RenderJob.hpp\<close>. The
  steps between which other callers run are definitions of their own (\<open>admit\<close>, \<open>put_object\<close>,
  \<open>store_file\<close>, \<open>publish\<close>, \<open>finish\<close>), and \<open>process_job\<close> runs them in a row.

  The template engine is a separate program and SHA-256 a library; \<open>render_env\<close> has what they
  answer and whether the object store takes a key. The bucket maps keys to bytes.
\<close>

record render_env =
  render_and_compile :: "string \<Rightarrow> json \<Rightarrow> string \<Rightarrow> (string \<times> string) option"
  sha256_hex :: "string \<Rightarrow> string"
  put_works :: "string \<Rightarrow> bool"

type_synonym bucket = "string \<rightharpoonup> string"

datatype render_error =
  BadPayload | RenderFailed | NoVersionFound | PutFailed | VersionGone | RenderSql sql_error

record render_task =
  rt_org :: string
  rt_document :: string
  rt_version :: string
  rt_slug :: string
  rt_pdf :: string
  rt_engine :: string

section \<open>The payload\<close>

definition text_at :: "json \<Rightarrow> string \<Rightarrow> render_error + string" where
  "text_at payload k = (case member payload k of Some (JStr s) \<Rightarrow> Inr s | _ \<Rightarrow> Inl BadPayload)"

definition input_of :: "json \<Rightarrow> json" where
  "input_of payload = (case member payload ''input'' of None \<Rightarrow> JObj [] | Some j \<Rightarrow> j)"

definition version_of :: "json \<Rightarrow> render_error + string" where
  "version_of payload =
     (case member payload ''version_id'' of None \<Rightarrow> Inr [] | Some (JStr s) \<Rightarrow> Inr s | _ \<Rightarrow> Inl BadPayload)"

definition skipped :: "string \<Rightarrow> string \<Rightarrow> string \<Rightarrow> json" where
  "skipped i ver reason = object [(''document_id'', JStr i), (''version_id'', JStr ver), (''skipped'', JStr reason)]"

section \<open>Before anything is written\<close>

text \<open>A payload without a version means version 1, as long as it has no file.\<close>

definition resolve_version :: "doc_db \<Rightarrow> string \<Rightarrow> string \<Rightarrow> string \<Rightarrow> render_error + (json + string)" where
  "resolve_version d org i ver =
     (if ver \<noteq> [] then Inr (Inr ver)
      else
        case latest_version d org i of
          None \<Rightarrow> Inl NoVersionFound
        | Some v \<Rightarrow>
            if version_no v \<noteq> 1 \<or> ver_s3_key v \<noteq> None then
              Inr (Inl (skipped i (ver_id v) (if version_no v \<noteq> 1 then ''superseded'' else ''already_rendered'')))
            else Inr (Inr (ver_id v)))"

definition skip_reason :: "VersionRenderState \<Rightarrow> string" where
  "skip_reason st =
     (if st = kMissing then ''missing'' else if st = kDocVoided then ''voided''
      else if st = kAlreadyRendered then ''already_rendered'' else ''superseded'')"

definition admit :: "render_env \<Rightarrow> json \<Rightarrow> doc_db \<Rightarrow> render_error + (json + render_task)" where
  "admit e payload d =
     rbind (text_at payload ''org_id'') (\<lambda>org.
     rbind (text_at payload ''document_id'') (\<lambda>i.
     rbind (text_at payload ''slug'') (\<lambda>slug.
     rbind (version_of payload) (\<lambda>ver0.
     case render_and_compile e slug (input_of payload) org of
       None \<Rightarrow> Inl RenderFailed
     | Some (pdf, engine) \<Rightarrow>
         rbind (resolve_version d org i ver0) (\<lambda>r.
         case r of
           Inl skip \<Rightarrow> Inr (Inl skip)
         | Inr ver \<Rightarrow>
             let st = version_render_state d org i ver
             in if st \<noteq> kRenderable then Inr (Inl (skipped i ver (skip_reason st)))
                else Inr (Inr \<lparr>rt_org = org, rt_document = i, rt_version = ver, rt_slug = slug, rt_pdf = pdf,
                               rt_engine = engine\<rparr>))))))"

section \<open>The writes\<close>

definition task_key :: "render_task \<Rightarrow> string" where
  "task_key t = version_key (rt_org t) ''generated'' (rt_version t) (rt_slug t @ ''.pdf'')"

definition put_object :: "render_env \<Rightarrow> render_task \<Rightarrow> bucket \<Rightarrow> render_error + bucket" where
  "put_object e t b = (if put_works e (task_key t) then Inr (b(task_key t \<mapsto> rt_pdf t)) else Inl PutFailed)"

definition store_file :: "render_env \<Rightarrow> render_task \<Rightarrow> doc_db \<Rightarrow> render_error + doc_db" where
  "store_file e t d =
     (case set_version_file (rt_org t) (rt_version t) (task_key t) (sha256_hex e (rt_pdf t)) ''application/pdf''
             (int (length (rt_pdf t))) (Some (rt_engine t)) d of
        Inl x \<Rightarrow> Inl (RenderSql x)
      | Inr (True, d') \<Rightarrow> Inr d'
      | Inr (False, _) \<Rightarrow> Inl VersionGone)"

definition publish :: "render_task \<Rightarrow> doc_db \<Rightarrow> bool \<times> doc_db" where
  "publish t d = set_current_version (rt_org t) (rt_document t) (rt_version t) d"

definition finish :: "render_task \<Rightarrow> doc_db \<Rightarrow> render_error + doc_db" where
  "finish t d =
     (case set_status_if (rt_org t) (rt_document t) ''draft'' ''final'' d of
        Inl x \<Rightarrow> Inl (RenderSql x)
      | Inr (_, d') \<Rightarrow> Inr d')"

definition rendered_json :: "render_env \<Rightarrow> render_task \<Rightarrow> json" where
  "rendered_json e t =
     object [(''document_id'', JStr (rt_document t)), (''version_id'', JStr (rt_version t)), (''slug'', JStr (rt_slug t)),
             (''key'', JStr (task_key t)), (''checksum_sha256'', JStr (sha256_hex e (rt_pdf t))),
             (''size_bytes'', JInt (int (length (rt_pdf t)))), (''render_engine'', JStr (rt_engine t))]"

text \<open>What was written before an exception stays.\<close>

definition run_task :: "render_env \<Rightarrow> render_task \<Rightarrow> doc_db \<Rightarrow> bucket \<Rightarrow> (render_error + json) \<times> doc_db \<times> bucket" where
  "run_task e t d b =
     (case put_object e t b of
        Inl x \<Rightarrow> (Inl x, d, b)
      | Inr b1 \<Rightarrow>
          (case store_file e t d of
             Inl x \<Rightarrow> (Inl x, d, b1)
           | Inr d1 \<Rightarrow>
               (case publish t d1 of
                  (False, d2) \<Rightarrow> (Inr (skipped (rt_document t) (rt_version t) ''superseded''), d2, b1)
                | (True, d2) \<Rightarrow>
                    (case finish t d2 of
                       Inl x \<Rightarrow> (Inl x, d2, b1)
                     | Inr d3 \<Rightarrow> (Inr (rendered_json e t), d3, b1)))))"

definition process_job :: "render_env \<Rightarrow> json \<Rightarrow> doc_db \<Rightarrow> bucket \<Rightarrow> (render_error + json) \<times> doc_db \<times> bucket" where
  "process_job e payload d b =
     (case admit e payload d of
        Inl x \<Rightarrow> (Inl x, d, b)
      | Inr (Inl skip) \<Rightarrow> (Inr skip, d, b)
      | Inr (Inr t) \<Rightarrow> run_task e t d b)"

section \<open>Keys\<close>

lemma sanitized_safe: "c \<in> set (sanitize_filename s) \<Longrightarrow> safe_char c"
  by (auto simp: sanitize_filename_def safe_char_def split: if_splits)

lemma sanitized_no_slash: "CHR ''/'' \<notin> set (sanitize_filename s)"
  using sanitized_safe by (fastforce simp: safe_char_def)

lemma slash_split:
  assumes "CHR ''/'' \<notin> set a" "CHR ''/'' \<notin> set a'"
  shows "a @ CHR ''/'' # r = a' @ CHR ''/'' # r' \<longleftrightarrow> a = a' \<and> r = r'"
  using assms
proof (induction a arbitrary: a')
  case Nil
  then show ?case by (cases a') auto
next
  case (Cons c a)
  then show ?case by (cases a') auto
qed

lemma version_key_parts:
  "version_key o1 k1 v1 f1 = version_key o2 k2 v2 f2 \<longleftrightarrow>
     sanitize_filename o1 = sanitize_filename o2 \<and> sanitize_filename k1 = sanitize_filename k2 \<and>
     sanitize_filename v1 = sanitize_filename v2 \<and> sanitize_filename f1 = sanitize_filename f2"
  by (simp add: version_key_def slash_split sanitized_no_slash)

definition safe_text :: "string \<Rightarrow> bool" where
  "safe_text s \<longleftrightarrow> s \<noteq> [] \<and> list_all safe_char s"

lemma sanitize_safe: "safe_text s \<Longrightarrow> sanitize_filename s = s"
  by (auto simp: safe_text_def sanitize_filename_def list_all_iff intro: map_idI)

lemma other_version_other_key:
  "safe_text (rt_version t) \<Longrightarrow> safe_text (rt_version t') \<Longrightarrow> rt_version t \<noteq> rt_version t' \<Longrightarrow> task_key t \<noteq> task_key t'"
  by (auto simp: task_key_def version_key_parts sanitize_safe)

text \<open>Dots are safe characters, so a key can still step out of the tree of its organization.\<close>

lemma version_key_can_climb: "version_key ''o'' ''..'' ''..'' ''f'' = ''org/o/../../f''"
  by (simp add: version_key_def sanitize_filename_def safe_char_def)

end
