(* ===== verification/DocumentProperties.thy ===== *)
theory DocumentProperties
  imports RenderJob JournalProperties
begin

text \<open>
  What holds of documents whatever the callers do. \<open>dstep\<close> lets the transactions of
  \<open>DocumentRepository\<close> happen in any order, next to the steps of the journal, from any number
  of handlers and render jobs; the one order it keeps is that a version is published only
  after its file was stored, as \<open>process_job\<close> does. \<open>drawn\<close> collects the identifiers PostgreSQL
  has drawn, so that a new one differs from those of deleted rows as well, and \<open>filed\<close> the
  versions whose file was stored. Rows of other tables come and go in \<open>held\<close>.
\<close>

record doc_sys =
  journal :: journal_sys
  dstore :: doc_db
  drawn :: "string set"
  filed :: "string set"

inductive dstep :: "pg \<Rightarrow> doc_sys \<Rightarrow> doc_sys \<Rightarrow> bool" for p :: pg where
  journal: "jstep p (journal s) j' \<Longrightarrow> dstep p s (s\<lparr>journal := j'\<rparr>)"
| create: "create_document (store (journal s)) gen now org ty src st cp slug tpl inp author (dstore s) = Inr (r, d') \<Longrightarrow>
    gen 0 \<notin> drawn s \<Longrightarrow> gen 1 \<notin> drawn s \<Longrightarrow> dstep p s (s\<lparr>dstore := d', drawn := {gen 0, gen 1} \<union> drawn s\<rparr>)"
| version: "add_version (store (journal s)) vid now org i inp tpl author (dstore s) = Inr (v, d') \<Longrightarrow>
    vid \<notin> drawn s \<Longrightarrow> dstep p s (s\<lparr>dstore := d', drawn := insert vid (drawn s)\<rparr>)"
| pending: "set_pending_upload org i key mime (dstore s) = (b, d') \<Longrightarrow> dstep p s (s\<lparr>dstore := d'\<rparr>)"
| filing: "set_version_file org ver key checksum mime bytes engine (dstore s) = Inr (True, d') \<Longrightarrow>
    dstep p s (s\<lparr>dstore := d', filed := insert ver (filed s)\<rparr>)"
| publishing: "ver \<in> filed s \<Longrightarrow> set_current_version org i ver (dstore s) = (b, d') \<Longrightarrow> dstep p s (s\<lparr>dstore := d'\<rparr>)"
| status: "Documents.set_status org i st (dstore s) = Inr (b, d') \<Longrightarrow> dstep p s (s\<lparr>dstore := d'\<rparr>)"
| status_if: "set_status_if org i from_st to_st (dstore s) = Inr (b, d') \<Longrightarrow> dstep p s (s\<lparr>dstore := d'\<rparr>)"
| linking: "link_entry (store (journal s)) org i entry (dstore s) = Inr (b, d') \<Longrightarrow> dstep p s (s\<lparr>dstore := d'\<rparr>)"
| voiding: "void_document (store (journal s)) now org i user reason (dstore s) = Inr (b, d') \<Longrightarrow> dstep p s (s\<lparr>dstore := d'\<rparr>)"
| removing: "remove_document (store (journal s)) org i (dstore s) = Inr (outcome, d') \<Longrightarrow> dstep p s (s\<lparr>dstore := d'\<rparr>)"
| holding: "dstep p s (s\<lparr>dstore := (dstore s)\<lparr>held := ids\<rparr>\<rparr>)"

definition no_documents :: doc_db where
  "no_documents = \<lparr>documents = [], versions = [], links = [], held = []\<rparr>"

inductive dreach :: "pg \<Rightarrow> doc_sys \<Rightarrow> bool" for p :: pg where
  dstart: "jreach p j \<Longrightarrow> dreach p \<lparr>journal = j, dstore = no_documents, drawn = {}, filed = {}\<rparr>"
| dnext: "dreach p s \<Longrightarrow> dstep p s s' \<Longrightarrow> dreach p s'"

section \<open>The invariant\<close>

definition numbered :: "doc_db \<Rightarrow> string \<Rightarrow> bool" where
  "numbered d i \<longleftrightarrow> (let n = length (versions_of d i) in 0 < n \<and> map v_no (versions_of d i) = map int [1..<Suc n])"

definition published_ok :: "doc_db \<Rightarrow> document_row \<Rightarrow> bool" where
  "published_ok d r \<longleftrightarrow>
     (\<forall>c. d_current r = Some c \<longrightarrow>
        (\<exists>v \<in> set (versions d). v_id v = c \<and> v_document v = d_id r \<and> v_org v = d_org r \<and> v_key v \<noteq> None))"

definition docs_ok :: "string set \<Rightarrow> string set \<Rightarrow> doc_db \<Rightarrow> bool" where
  "docs_ok used fs d \<longleftrightarrow>
     distinct (map d_id (documents d)) \<and> distinct (map v_id (versions d)) \<and>
     d_id ` set (documents d) \<union> v_id ` set (versions d) \<union> fs \<subseteq> used \<and>
     (\<forall>r \<in> set (documents d). numbered d (d_id r) \<and> published_ok d r) \<and>
     (\<forall>v \<in> set (versions d). (\<exists>r \<in> set (documents d). d_id r = v_document v \<and> d_org r = v_org v) \<and>
        (v_id v \<in> fs \<longrightarrow> v_key v \<noteq> None))"

lemma docs_okD:
  assumes "docs_ok used fs d"
  shows "distinct (map d_id (documents d))" "distinct (map v_id (versions d))"
    and "d_id ` set (documents d) \<union> v_id ` set (versions d) \<union> fs \<subseteq> used"
    and "r \<in> set (documents d) \<Longrightarrow> numbered d (d_id r)" "r \<in> set (documents d) \<Longrightarrow> published_ok d r"
    and "v \<in> set (versions d) \<Longrightarrow> \<exists>r \<in> set (documents d). d_id r = v_document v \<and> d_org r = v_org v"
    and "v \<in> set (versions d) \<Longrightarrow> v_id v \<in> fs \<Longrightarrow> v_key v \<noteq> None"
  using assms unfolding docs_ok_def by blast+

lemma max_no_numbered: "numbered d i \<Longrightarrow> max_no d i = int (length (versions_of d i))"
proof -
  assume n: "numbered d i"
  let ?n = "length (versions_of d i)"
  have m: "map v_no (versions_of d i) = map int [1..<Suc ?n]" "0 < ?n" using n by (simp_all add: numbered_def Let_def)
  have "Max (set (map int [1..<Suc ?n])) = int ?n"
    using m(2) by (intro Max_eqI) (auto simp: Suc_le_eq)
  moreover have "map int [1..<Suc ?n] \<noteq> []" using m(2) by (simp add: Suc_le_eq)
  ultimately show ?thesis unfolding max_no_def Let_def m(1) by (simp only: if_False)
qed

lemma no_le_max: "v \<in> set (versions d) \<Longrightarrow> v_no v \<le> max_no d (v_document v)"
proof -
  assume "v \<in> set (versions d)"
  then have "v \<in> set (versions_of d (v_document v))" by (simp add: versions_of_def)
  then show ?thesis unfolding max_no_def Let_def by (auto simp: image_iff intro!: Max_ge)
qed

section \<open>Updates in place\<close>

text \<open>Rows that only change outside their keys.\<close>

lemma upd_document_simps [simp]:
  "versions (upd_document P f d) = versions d" "links (upd_document P f d) = links d" "held (upd_document P f d) = held d"
  by (simp_all add: upd_document_def)

lemma documents_upd: "documents (upd_document P f d) = map (\<lambda>r. if P r then f r else r) (documents d)"
  by (simp add: upd_document_def)

lemma upd_version_simps [simp]:
  "documents (upd_version P f d) = documents d" "links (upd_version P f d) = links d" "held (upd_version P f d) = held d"
  by (simp_all add: upd_version_def)

lemma versions_of_upd [simp]: "versions_of (upd_document P f d) i = versions_of d i"
  by (simp add: versions_of_def)

lemma numbered_upd [simp]: "numbered (upd_document P f d) i = numbered d i"
  by (simp add: numbered_def)

lemma published_upd [simp]: "published_ok (upd_document P f d) r = published_ok d r"
  by (simp add: published_ok_def)

lemma docs_ok_upd_document:
  assumes ok: "docs_ok used fs d"
    and same: "\<And>r. d_id (f r) = d_id r \<and> d_org (f r) = d_org r"
    and pub: "\<And>r. r \<in> set (documents d) \<Longrightarrow> P r \<Longrightarrow> published_ok d (f r)"
  shows "docs_ok used fs (upd_document P f d)"
proof -
  let ?g = "\<lambda>r. if P r then f r else r"
  have ids: "map d_id (documents (upd_document P f d)) = map d_id (documents d)"
    using same by (simp add: upd_document_def)
  moreover have "d_id ` set (documents (upd_document P f d)) = d_id ` set (documents d)"
    using arg_cong [OF ids, of set] by simp
  moreover have "\<exists>r \<in> set (documents (upd_document P f d)). d_id r = i \<and> d_org r = org"
    if "r \<in> set (documents d)" "d_id r = i" "d_org r = org" for r i org
    using that same by (intro bexI [of _ "?g r"]) (auto simp: upd_document_def)
  moreover have "numbered d (d_id r) \<and> published_ok d r" if "r \<in> set (documents (upd_document P f d))" for r
    using that docs_okD(4,5) [OF ok] same pub by (auto simp: upd_document_def)
  ultimately show ?thesis using ok unfolding docs_ok_def by simp blast
qed

lemma docs_ok_upd_version:
  assumes ok: "docs_ok used fs d"
    and same: "\<And>v. v_id (f v) = v_id v \<and> v_org (f v) = v_org v \<and> v_document (f v) = v_document v \<and> v_no (f v) = v_no v"
    and key: "\<And>v. v_key (f v) \<noteq> None"
    and new: "fs' \<subseteq> fs \<union> {v_id v |v. v \<in> set (versions d) \<and> P v}"
    and P: "\<And>v w. v \<in> set (versions d) \<Longrightarrow> w \<in> set (versions d) \<Longrightarrow> P v \<Longrightarrow> v_id w = v_id v \<Longrightarrow> P w"
  shows "docs_ok used fs' (upd_version P f d)"
proof -
  let ?g = "\<lambda>v. if P v then f v else v"
  have vs: "versions (upd_version P f d) = map ?g (versions d)" by (simp add: upd_version_def)
  have g: "v_id (?g v) = v_id v" "v_org (?g v) = v_org v" "v_document (?g v) = v_document v" "v_no (?g v) = v_no v" for v
    using same by simp_all
  have "map v_id (versions (upd_version P f d)) = map v_id (versions d)" by (simp add: vs g)
  moreover from this have "v_id ` set (versions (upd_version P f d)) = v_id ` set (versions d)" by (metis set_map)
  moreover have "versions_of (upd_version P f d) i = map ?g (versions_of d i)" for i
    unfolding versions_of_def vs filter_map comp_def g ..
  then have "numbered (upd_version P f d) i = numbered d i" for i
    by (simp add: numbered_def comp_def g)
  moreover have "published_ok (upd_version P f d) r" if "r \<in> set (documents d)" for r
  proof -
    have "\<exists>w \<in> set (versions (upd_version P f d)). v_id w = v_id v \<and> v_document w = v_document v \<and> v_org w = v_org v \<and> v_key w \<noteq> None"
      if "v \<in> set (versions d)" "v_key v \<noteq> None" for v
      using that key g by (intro bexI [of _ "?g v"]) (auto simp: vs)
    then show ?thesis using docs_okD(5) [OF ok that] unfolding published_ok_def by metis
  qed
  moreover have "(\<exists>r \<in> set (documents d). d_id r = v_document v \<and> d_org r = v_org v) \<and> (v_id v \<in> fs' \<longrightarrow> v_key v \<noteq> None)"
    if mem: "v \<in> set (versions (upd_version P f d))" for v
  proof -
    obtain w where w: "w \<in> set (versions d)" "v = ?g w" using mem unfolding vs set_map by blast
    have "v_key v \<noteq> None" if "v_id v \<in> fs'"
    proof (cases "P w")
      case False
      with that w new P [of _ w] have "v_id w \<in> fs" by (auto simp: g)
      with False w docs_okD(7) [OF ok w(1)] show ?thesis by simp
    qed (use w key in simp)
    with docs_okD(6) [OF ok w(1)] show ?thesis by (simp add: w(2) g)
  qed
  moreover have "fs' \<subseteq> used" using new docs_okD(3) [OF ok] by blast
  ultimately show ?thesis using ok unfolding docs_ok_def by simp
qed


section \<open>Steps keep the invariant\<close>

lemma docs_ok_journal_free [simp]:
  "docs_ok used fs (d\<lparr>links := ks\<rparr>) = docs_ok used fs d" "docs_ok used fs (d\<lparr>held := ids\<rparr>) = docs_ok used fs d"
  by (simp_all add: docs_ok_def numbered_def published_ok_def versions_of_def)

lemma docs_ok_more: "docs_ok used fs d \<Longrightarrow> used \<subseteq> used' \<Longrightarrow> docs_ok used' fs d"
  unfolding docs_ok_def by blast

lemma versions_of_append: "versions_of (d\<lparr>versions := versions d @ [v]\<rparr>) i = versions_of d i @ (if v_document v = i then [v] else [])"
  by (simp add: versions_of_def)

lemma docs_ok_add_version:
  assumes ok: "docs_ok used fs d" and ins: "insert_version j vid now org i n tpl inp author d = Inr (v, d')"
    and no: "n = int (length (versions_of d i)) + 1" and fresh: "vid \<notin> used"
  shows "docs_ok (insert vid used) fs d'"
proof -
  have d': "d' = d\<lparr>versions := versions d @ [v]\<rparr>" and v: "v_id v = vid" "v_org v = org" "v_document v = i" "v_no v = n"
    and own: "(i, org) \<in> (\<lambda>r. (d_id r, d_org r)) ` set (documents d)"
    using ins by (auto simp: insert_version_def Let_def split: if_splits)
  have "vid \<notin> v_id ` set (versions d)" "vid \<notin> fs" using fresh docs_okD(3) [OF ok] by blast+
  moreover have "numbered d' k" if "numbered d k" for k
    using that no v by (auto simp: numbered_def d' versions_of_append Let_def)
  moreover have "published_ok d' r" if "published_ok d r" for r
    using that by (auto simp: published_ok_def d')
  ultimately show ?thesis
    using ok own unfolding docs_ok_def by (auto simp: d' v)
qed

lemma create_keeps:
  assumes ok: "docs_ok used fs d" and new: "gen 0 \<notin> used" "gen 1 \<notin> used"
    and cr: "create_document j gen now org ty src st cp slug tpl inp author d = Inr (r, d')"
  shows "docs_ok ({gen 0, gen 1} \<union> used) fs d'"
proof -
  obtain d1 v where ins: "insert_document j (gen 0) now org ty src st cp slug d = Inr d1"
    and ver: "insert_version j (gen 1) now org (gen 0) 1 tpl inp author d1 = Inr (v, d')"
    using cr by (auto simp: create_document_def)
  then obtain row where d1: "d1 = d\<lparr>documents := documents d @ [row]\<rparr>" and row: "d_id row = gen 0" "d_org row = org" "d_current row = None"
    by (auto simp: insert_document_def split: if_splits)
  have v: "d' = d1\<lparr>versions := versions d @ [v]\<rparr>" "v_id v = gen 1" "v_org v = org" "v_document v = gen 0" "v_no v = 1" "v_key v = None"
    using ver by (auto simp: insert_version_def Let_def d1 split: if_splits)
  have none: "versions_of d (gen 0) = []"
    using new docs_okD(3,6) [OF ok] by (fastforce simp: versions_of_def filter_empty_conv)
  have "gen 1 \<notin> v_id ` set (versions d)" "gen 1 \<notin> fs" "gen 0 \<notin> d_id ` set (documents d)"
    using new docs_okD(3) [OF ok] by blast+
  moreover have "numbered d' (d_id x)" if "x \<in> set (documents d)" for x
    using that docs_okD(4) [OF ok that] \<open>gen 0 \<notin> d_id ` set (documents d)\<close> v d1
    by (auto simp: numbered_def versions_of_def)
  moreover have "numbered d' (gen 0)"
    using none v d1 by (simp add: numbered_def versions_of_def)
  moreover have "published_ok d' x" if "x \<in> set (documents d)" for x
    using docs_okD(5) [OF ok that] v by (auto simp: published_ok_def)
  ultimately show ?thesis
    using ok v d1 row unfolding docs_ok_def by (auto simp: published_ok_def)
qed

lemma remove_result:
  assumes "remove_document j org i d = Inr (outcome, d')"
  shows "d' = d \<or>
     (\<exists>r \<in> set (documents d). own_document org i r \<and> d_voided_at r = None \<and> \<not> has_posted_entry_link j org i d \<and> i \<notin> set (held d) \<and>
        d' = d\<lparr>documents := filter (\<lambda>r. \<not> own_document org i r) (documents d),
              versions := filter (\<lambda>v. \<not> (v_document v = i \<and> v_org v = org)) (versions d),
              links := filter (\<lambda>k. \<not> (k_document k = i \<and> k_org k = org)) (links d)\<rparr>)"
proof (cases "find (own_document org i) (documents d)")
  case None
  with assms show ?thesis by (simp add: remove_document_def)
next
  case (Some r)
  then have r: "r \<in> set (documents d)" "own_document org i r" by (metis find_Some_iff nth_mem)+
  with Some assms show ?thesis
    by (auto simp: remove_document_def delete_document_def has_posted_is_any split: if_splits)
qed

lemma remove_keeps:
  assumes ok: "docs_ok used fs d" and rm: "remove_document j org i d = Inr (outcome, d')"
  shows "docs_ok used fs d'"
proof -
  consider "d' = d" | r where "r \<in> set (documents d)" "own_document org i r"
      "d' = d\<lparr>documents := filter (\<lambda>r. \<not> own_document org i r) (documents d),
              versions := filter (\<lambda>v. \<not> (v_document v = i \<and> v_org v = org)) (versions d),
              links := filter (\<lambda>k. \<not> (k_document k = i \<and> k_org k = org)) (links d)\<rparr>"
    using remove_result [OF rm] by blast
  then show ?thesis
  proof cases
    case 1
    with ok show ?thesis by simp
  next
    case (2 r)
    have uniq: "x = r" if "x \<in> set (documents d)" "d_id x = i" for x
      using that 2(1,2) docs_okD(1) [OF ok] by (auto simp: own_document_def distinct_map dest: inj_onD)
    have left: "x \<in> set (documents d') \<longleftrightarrow> x \<in> set (documents d) \<and> d_id x \<noteq> i" for x
      using uniq 2 by (auto simp: own_document_def)
    have vleft: "v \<in> set (versions d') \<longleftrightarrow> v \<in> set (versions d) \<and> v_document v \<noteq> i" for v
      using docs_okD(6) [OF ok] uniq 2 by (auto simp: own_document_def) metis
    have "versions_of d' k = versions_of d k" if "k \<noteq> i" for k
      using that by (auto simp: versions_of_def 2(3) intro!: filter_cong)
    then have "numbered d' (d_id x) = numbered d (d_id x)" if "x \<in> set (documents d')" for x
      using that left by (simp add: numbered_def)
    moreover have "published_ok d' x" if "x \<in> set (documents d')" for x
      using docs_okD(5) [OF ok] that left vleft unfolding published_ok_def by metis
    moreover have "distinct (map d_id (documents d'))" "distinct (map v_id (versions d'))"
      using ok 2(3) by (simp_all add: docs_ok_def distinct_map_filter)
    moreover have "d_id ` set (documents d') \<union> v_id ` set (versions d') \<union> fs \<subseteq> used"
      using docs_okD(3) [OF ok] left vleft by blast
    ultimately show ?thesis
      using ok left vleft unfolding docs_ok_def by metis
  qed
qed

lemma found_in: "find P xs = Some x \<Longrightarrow> x \<in> set xs \<and> P x"
  by (metis find_Some_iff nth_mem)

lemma pending_result:
  assumes "set_pending_upload org i key mime d = (b, d')"
  shows "d' = d \<or>
    (\<exists>v \<in> set (versions d). v_document v = i \<and> v_org v = org \<and> v_no v = max_no d i \<and>
      d' = upd_document (own_document org i) (\<lambda>r. r\<lparr>d_current := Some (v_id v)\<rparr>)
              (upd_version (\<lambda>w. v_id w = v_id v) (\<lambda>w. w\<lparr>v_key := Some key, v_mime := Some mime\<rparr>) d))"
proof (cases "find (\<lambda>v. v_document v = i \<and> v_org v = org \<and> v_no v = max_no d i) (versions d)")
  case None
  with assms show ?thesis by (simp add: set_pending_upload_def split: if_splits)
next
  case (Some v)
  with assms found_in [OF Some] show ?thesis
    by (auto simp only: set_pending_upload_def option.case prod.inject split: if_splits)
qed

lemma pending_keeps:
  assumes ok: "docs_ok used fs d" and st: "set_pending_upload org i key mime d = (b, d')"
  shows "docs_ok used fs d'"
proof (cases "d' = d")
  case False
  let ?f = "\<lambda>w. w\<lparr>v_key := Some key, v_mime := Some mime\<rparr>"
  obtain v where v: "v \<in> set (versions d)" "v_document v = i" "v_org v = org"
    and d': "d' = upd_document (own_document org i) (\<lambda>r. r\<lparr>d_current := Some (v_id v)\<rparr>) (upd_version (\<lambda>w. v_id w = v_id v) ?f d)"
    using pending_result [OF st] False by blast
  have "docs_ok used fs (upd_version (\<lambda>w. v_id w = v_id v) ?f d)" by (rule docs_ok_upd_version [OF ok]) auto
  moreover have "?f v \<in> set (versions (upd_version (\<lambda>w. v_id w = v_id v) ?f d))"
    using v(1) by (auto simp: upd_version_def intro!: image_eqI [of _ _ v])
  then have "published_ok (upd_version (\<lambda>w. v_id w = v_id v) ?f d) (r\<lparr>d_current := Some (v_id v)\<rparr>)" if "own_document org i r" for r
    using that v unfolding published_ok_def own_document_def by (intro allI impI bexI [of _ "?f v"]) auto
  ultimately show ?thesis unfolding d' by (intro docs_ok_upd_document) auto
qed (use ok in simp)

lemma filing_keeps:
  assumes ok: "docs_ok used fs d" and st: "set_version_file org ver key checksum mime bytes engine d = Inr (True, d')"
  shows "docs_ok used (insert ver fs) d'"
proof -
  obtain f where d': "d' = upd_version (own_version org ver) f d"
    and f: "f = (\<lambda>v. v\<lparr>v_key := Some key, v_checksum := v_checksum (f v), v_mime := Some mime, v_size := Some bytes, v_engine := v_engine (f v)\<rparr>)"
    and some: "\<exists>v \<in> set (versions d). own_version org ver v"
    using st by (auto simp: set_version_file_def fun_eq_iff split: if_splits)
  have same: "v_id (f v) = v_id v \<and> v_org (f v) = v_org v \<and> v_document (f v) = v_document v \<and> v_no (f v) = v_no v" "v_key (f v) \<noteq> None" for v
    by (subst f, simp)+
  show ?thesis unfolding d'
  proof (rule docs_ok_upd_version [OF ok same])
    show "insert ver fs \<subseteq> fs \<union> {v_id v |v. v \<in> set (versions d) \<and> own_version org ver v}"
      using some by (auto simp: own_version_def)
  next
    fix v w assume "v \<in> set (versions d)" "w \<in> set (versions d)" "own_version org ver v" "v_id w = v_id v"
    then show "own_version org ver w"
      using docs_okD(2) [OF ok] by (auto simp: distinct_map dest: inj_onD)
  qed
qed

lemma publishing_result:
  assumes "set_current_version org i ver d = (b, d')"
  shows "d' = d \<or>
    (\<exists>v \<in> set (versions d). v_id v = ver \<and> v_org v = org \<and> v_document v = i \<and> v_no v = max_no d i \<and>
      d' = upd_document (own_document org i) (\<lambda>r. r\<lparr>d_current := Some ver\<rparr>) d)"
  using assms unfolding set_current_version_def publishable_def by (simp split: if_splits)

lemma publishing_keeps:
  assumes ok: "docs_ok used fs d" and st: "set_current_version org i ver d = (b, d')" and "ver \<in> fs"
  shows "docs_ok used fs d'"
proof (cases "d' = d")
  case False
  then obtain v where v: "v \<in> set (versions d)" "v_id v = ver" "v_org v = org" "v_document v = i"
    and d': "d' = upd_document (own_document org i) (\<lambda>r. r\<lparr>d_current := Some ver\<rparr>) d"
    using publishing_result [OF st] by blast
  have "published_ok d (r\<lparr>d_current := Some ver\<rparr>)" if "own_document org i r" for r
    using that v docs_okD(7) [OF ok v(1)] \<open>ver \<in> fs\<close> by (auto simp: published_ok_def own_document_def)
  then show ?thesis unfolding d' by (intro docs_ok_upd_document [OF ok]) auto
qed (use ok in simp)

text \<open>The other updates do not touch what is published.\<close>

lemma plain_update_keeps:
  assumes "docs_ok used fs d" and "\<And>r. d_id (f r) = d_id r \<and> d_org (f r) = d_org r \<and> d_current (f r) = d_current r"
  shows "docs_ok used fs (upd_document P f d)"
  using assms docs_okD(5) [OF assms(1)] by (intro docs_ok_upd_document) (auto simp: published_ok_def)

lemma link_result: "link_entry j org i entry d = Inr (b, d') \<Longrightarrow> d' = d \<or> (\<exists>k. d' = d\<lparr>links := links d @ [k]\<rparr>)"
  by (auto simp: link_entry_def insert_link_def split: if_splits)

lemma status_result:
  "Documents.set_status org i st d = Inr (b, d') \<Longrightarrow> d' = d \<or> d' = upd_document (own_document org i) (\<lambda>r. r\<lparr>d_status := st\<rparr>) d"
  "set_status_if org i st to_st d = Inr (b, d') \<Longrightarrow>
     d' = d \<or> d' = upd_document (\<lambda>r. own_document org i r \<and> d_status r = st) (\<lambda>r. r\<lparr>d_status := to_st\<rparr>) d"
  by (auto simp: Documents.set_status_def set_status_if_def split: if_splits)

lemma void_result:
  "void_document j now org i user reason d = Inr (b, d') \<Longrightarrow>
     d' = d \<or> d' = upd_document (\<lambda>r. own_document org i r \<and> d_voided_at r = None)
                    (\<lambda>r. r\<lparr>d_voided_at := Some now, d_voided_by := Some user, d_void_reason := Some reason\<rparr>) d"
  by (auto simp: void_document_def split: if_splits)

lemma add_version_result:
  assumes "add_version j vid now org i inp tpl author d = Inr (v, d')"
  obtains r w where "r \<in> set (documents d)" "d_id r = i" "d_org r = org"
    "insert_version j vid now org i (max_no d i + 1) tpl inp author d = Inr (w, d')"
proof (cases "find (\<lambda>r. d_id r = i \<and> d_org r = org) (documents d)")
  case (Some r)
  with assms found_in [OF Some] that show ?thesis
    by (auto simp: add_version_def split: sum.splits)
qed (use assms in \<open>simp add: add_version_def\<close>)

lemma version_keeps:
  assumes ok: "docs_ok used fs d" and st: "add_version j vid now org i inp tpl author d = Inr (v, d')" and "vid \<notin> used"
  shows "docs_ok (insert vid used) fs d'"
  using st
proof (rule add_version_result)
  fix r w assume r: "r \<in> set (documents d)" "d_id r = i"
    and ins: "insert_version j vid now org i (max_no d i + 1) tpl inp author d = Inr (w, d')"
  have "numbered d i" using docs_okD(4) [OF ok r(1)] r(2) by simp
  then show ?thesis by (intro docs_ok_add_version [OF ok ins _ assms(3)]) (simp add: max_no_numbered)
qed

definition dsys_ok :: "pg \<Rightarrow> doc_sys \<Rightarrow> bool" where
  "dsys_ok p s \<longleftrightarrow> sys_ok p (journal s) \<and> docs_ok (drawn s) (filed s) (dstore s)"

lemma dstep_ok:
  assumes "dstep p s s'" "dsys_ok p s" "pg_ok p"
  shows "dsys_ok p s'"
  using assms(1)
proof cases
  case (journal j')
  with assms jstep_ok show ?thesis by (auto simp: dsys_ok_def)
next
  case (create gen now org ty src st cp slug tpl inp author r d')
  with assms(2) create_keeps show ?thesis by (auto simp: dsys_ok_def)
next
  case (version vid now org i inp tpl author v d')
  with assms(2) version_keeps show ?thesis by (auto simp: dsys_ok_def)
next
  case (pending org i key mime b d')
  with assms(2) pending_keeps show ?thesis by (auto simp: dsys_ok_def)
next
  case (filing org ver key checksum mime bytes engine d')
  with assms(2) filing_keeps show ?thesis by (auto simp: dsys_ok_def)
next
  case (publishing ver org i b d')
  with assms(2) publishing_keeps show ?thesis by (auto simp: dsys_ok_def)
next
  case (status org i st b d')
  with assms(2) status_result(1) [OF status(2)] show ?thesis by (auto simp: dsys_ok_def intro: plain_update_keeps)
next
  case (status_if org i from_st to_st b d')
  with assms(2) status_result(2) [OF status_if(2)] show ?thesis by (auto simp: dsys_ok_def intro: plain_update_keeps)
next
  case (linking org i entry b d')
  with assms(2) link_result [OF linking(2)] show ?thesis by (auto simp: dsys_ok_def)
next
  case (voiding now org i user reason b d')
  with assms(2) void_result [OF voiding(2)] show ?thesis by (auto simp: dsys_ok_def intro: plain_update_keeps)
next
  case (removing org i outcome d')
  with assms(2) remove_keeps show ?thesis by (auto simp: dsys_ok_def)
next
  case (holding ids)
  with assms(2) show ?thesis by (simp add: dsys_ok_def)
qed

lemma dreach_ok: "dreach p s \<Longrightarrow> pg_ok p \<Longrightarrow> dsys_ok p s"
proof (induction rule: dreach.induct)
  case (dstart j)
  then show ?case using jreach_ok by (simp add: dsys_ok_def docs_ok_def no_documents_def)
qed (rule dstep_ok)


section \<open>What no step takes away\<close>

definition kept_row :: "document_row \<Rightarrow> document_row \<Rightarrow> bool" where
  "kept_row r r' \<longleftrightarrow>
     d_id r' = d_id r \<and> d_org r' = d_org r \<and> d_type r' = d_type r \<and> d_source r' = d_source r \<and>
     d_template r' = d_template r \<and> d_counterparty r' = d_counterparty r \<and> d_created_at r' = d_created_at r \<and>
     (d_voided_at r \<noteq> None \<longrightarrow>
        d_voided_at r' = d_voided_at r \<and> d_voided_by r' = d_voided_by r \<and> d_void_reason r' = d_void_reason r)"

definition kept_version :: "version_row \<Rightarrow> version_row \<Rightarrow> bool" where
  "kept_version v v' \<longleftrightarrow>
     v_id v' = v_id v \<and> v_org v' = v_org v \<and> v_document v' = v_document v \<and> v_no v' = v_no v \<and>
     v_template v' = v_template v \<and> v_input v' = v_input v \<and> v_author v' = v_author v \<and> v_created_at v' = v_created_at v"

text \<open>The number of the version a document reports; 0 before the first.\<close>

definition published_no :: "doc_db \<Rightarrow> document_row \<Rightarrow> int" where
  "published_no d r = (case joined d r of None \<Rightarrow> 0 | Some v \<Rightarrow> v_no v)"

definition carried :: "doc_db \<Rightarrow> doc_db \<Rightarrow> document_row \<Rightarrow> bool" where
  "carried d d' r \<longleftrightarrow>
     (\<exists>r' \<in> set (documents d'). kept_row r r' \<and> published_no d r \<le> published_no d' r') \<and>
     (\<forall>v \<in> set (versions d). v_document v = d_id r \<longrightarrow> (\<exists>v' \<in> set (versions d'). kept_version v v')) \<and>
     (\<forall>k \<in> set (links d). k_document k = d_id r \<longrightarrow> k \<in> set (links d'))"

lemma kept_refl [simp]: "kept_row r r" "kept_version v v"
  by (simp_all add: kept_row_def kept_version_def)

lemma carried_refl [simp]: "r \<in> set (documents d) \<Longrightarrow> carried d d r"
  by (auto simp: carried_def intro: kept_refl)

lemma joined_None: "d_current r = None \<Longrightarrow> joined d r = None"
  by (simp add: joined_def find_None_iff)

lemma joined_no:
  assumes "docs_ok used fs d" "v \<in> set (versions d)" "d_current r = Some (v_id v)"
  shows "joined d r = Some v"
proof -
  have "find (\<lambda>w. v_id v = v_id w) (versions d) = Some v"
  proof (cases "find (\<lambda>w. v_id v = v_id w) (versions d)")
    case None
    with assms(2) show ?thesis by (auto simp: find_None_iff)
  next
    case (Some w)
    then have "w = v" using found_in [OF Some] assms(2) docs_okD(2) [OF assms(1)] by (auto simp: distinct_map dest: inj_onD)
    with Some show ?thesis by simp
  qed
  with assms(3) show ?thesis by (simp add: joined_def)
qed

lemma published_le_max:
  assumes "docs_ok used fs d" "r \<in> set (documents d)"
  shows "published_no d r \<le> max_no d (d_id r)"
proof (cases "d_current r")
  case None
  have "max_no d (d_id r) \<ge> 0" using max_no_numbered [OF docs_okD(4) [OF assms]] by simp
  moreover have "joined d r = None" using None by (rule joined_None)
  ultimately show ?thesis by (simp add: published_no_def)
next
  case (Some c)
  with docs_okD(5) [OF assms] obtain v where "v \<in> set (versions d)" "v_id v = c" "v_document v = d_id r"
    by (auto simp: published_ok_def)
  with Some joined_no [OF assms(1), of v r] no_le_max [of v d] show ?thesis by (simp add: published_no_def)
qed

lemma carried_upd_document:
  assumes "r \<in> set (documents d)"
    and "P r \<Longrightarrow> kept_row r (f r)" "P r \<Longrightarrow> published_no d r \<le> published_no d (f r)"
  shows "carried d (upd_document P f d) r"
proof -
  let ?r = "if P r then f r else r"
  have "?r \<in> set (documents (upd_document P f d))"
    using imageI [OF assms(1), of "\<lambda>r. if P r then f r else r"] by (simp only: documents_upd set_map)
  moreover have "published_no (upd_document P f d) x = published_no d x" for x
    by (simp add: published_no_def joined_def)
  ultimately show ?thesis
    using assms by (auto simp: carried_def intro!: bexI [of _ ?r] intro: kept_refl)
qed

lemma carried_trans:
  assumes "carried d d1 r" "\<And>r1. r1 \<in> set (documents d1) \<Longrightarrow> kept_row r r1 \<Longrightarrow> carried d1 d2 r1"
  shows "carried d d2 r"
proof -
  obtain r1 where r1: "r1 \<in> set (documents d1)" "kept_row r r1" "published_no d r \<le> published_no d1 r1"
    using assms(1) by (auto simp: carried_def)
  note c = assms(2) [OF r1(1,2)]
  have row: "kept_row r r2" if "kept_row r1 r2" for r2 using that r1(2) by (simp add: kept_row_def)
  have ver: "kept_version v v2" if "kept_version v v1" "kept_version v1 v2" for v v1 v2
    using that by (simp add: kept_version_def)
  have i: "d_id r1 = d_id r" using r1(2) by (simp add: kept_row_def)
  have "\<exists>r' \<in> set (documents d2). kept_row r r' \<and> published_no d r \<le> published_no d2 r'"
    using c row r1(3) unfolding carried_def by (meson order_trans)
  moreover have "\<exists>v2 \<in> set (versions d2). kept_version v v2" if "v \<in> set (versions d)" "v_document v = d_id r" for v
  proof -
    obtain v1 where v1: "v1 \<in> set (versions d1)" "kept_version v v1" using assms(1) \<open>v \<in> set (versions d)\<close> \<open>v_document v = d_id r\<close> by (auto simp: carried_def)
    then have "v_document v1 = d_id r1" using that(2) i by (simp add: kept_version_def)
    with c v1 ver show ?thesis unfolding carried_def by meson
  qed
  moreover have "k \<in> set (links d2)" if "k \<in> set (links d)" "k_document k = d_id r" for k
    using that assms(1) c i by (auto simp: carried_def)
  ultimately show ?thesis by (auto simp: carried_def)
qed

lemma carried_versions:
  assumes ok: "docs_ok used fs d" and r: "r \<in> set (documents d)"
    and docs: "set (documents d) \<subseteq> set (documents d')" and links: "set (links d) \<subseteq> set (links d')"
    and vs: "versions d' = map g (versions d) @ new" and kept: "\<And>v. kept_version v (g v)"
  shows "carried d d' r"
proof -
  have "published_no d r \<le> published_no d' r"
  proof (cases "d_current r")
    case None
    then show ?thesis by (simp add: published_no_def joined_None)
  next
    case (Some c)
    have "find (\<lambda>v. Some c = Some (v_id v)) (map g xs @ ys) = Some (g v)" if "find (\<lambda>v. Some c = Some (v_id v)) xs = Some v" for xs ys v
      using that kept by (induction xs) (auto simp: kept_version_def split: if_splits)
    moreover obtain v where "v \<in> set (versions d)" "v_id v = c"
      using docs_okD(5) [OF ok r] Some by (auto simp: published_ok_def)
    ultimately show ?thesis
      using Some joined_no [OF ok, of v r] kept [of v] by (simp add: published_no_def joined_def vs kept_version_def)
  qed
  moreover have "\<exists>v' \<in> set (versions d'). kept_version v v'" if "v \<in> set (versions d)" for v
    using that kept [of v] by (intro bexI [of _ "g v"]) (auto simp: vs)
  ultimately show ?thesis
    using r docs links by (auto simp: carried_def intro!: bexI [of _ r])
qed

lemma published_new:
  assumes "docs_ok used fs d" "v \<in> set (versions d)"
  shows "published_no d (r\<lparr>d_current := Some (v_id v)\<rparr>) = v_no v"
  using joined_no [OF assms, of "r\<lparr>d_current := Some (v_id v)\<rparr>"] by (simp add: published_no_def)

text \<open>A document whose removal the repository refuses.\<close>

definition evidence :: "db \<Rightarrow> doc_db \<Rightarrow> document_row \<Rightarrow> bool" where
  "evidence j d r \<longleftrightarrow> d_voided_at r \<noteq> None \<or> has_posted_entry_link j (d_org r) (d_id r) d"

lemma carried_pending:
  assumes ok: "docs_ok used fs d" and r: "r \<in> set (documents d)" and st: "set_pending_upload org i key mime d = (b, d')"
  shows "carried d d' r"
proof (cases "d' = d")
  case False
  let ?f = "\<lambda>w. w\<lparr>v_key := Some key, v_mime := Some mime\<rparr>"
  obtain v where v: "v \<in> set (versions d)" "v_document v = i" "v_no v = max_no d i"
    and d': "d' = upd_document (own_document org i) (\<lambda>r. r\<lparr>d_current := Some (v_id v)\<rparr>) (upd_version (\<lambda>w. v_id w = v_id v) ?f d)"
    using pending_result [OF st] False by blast
  let ?d = "upd_version (\<lambda>w. v_id w = v_id v) ?f d"
  have ok': "docs_ok used fs ?d" by (rule docs_ok_upd_version [OF ok]) auto
  have "?f v \<in> set (versions ?d)" using v(1) by (auto simp: upd_version_def intro!: image_eqI [of _ _ v])
  note pub = published_new [OF ok' this, simplified]
  have "map v_no (versions_of ?d k) = map v_no (versions_of d k)" for k
  proof -
    have "versions_of ?d k = map (\<lambda>w. if v_id w = v_id v then ?f w else w) (versions_of d k)"
      by (auto simp: versions_of_def upd_version_def filter_map comp_def intro!: filter_cong arg_cong [where f = "map _"])
    then show ?thesis by (simp add: comp_def)
  qed
  then have max: "max_no ?d i = max_no d i" by (simp add: max_no_def)
  have "carried d ?d r"
    by (rule carried_versions [OF ok r, where g = "\<lambda>w. if v_id w = v_id v then ?f w else w" and new = "[]"])
       (auto simp: upd_version_def kept_version_def)
  then show ?thesis unfolding d'
  proof (rule carried_trans)
    fix r1 assume r1: "r1 \<in> set (documents ?d)"
    show "carried ?d (upd_document (own_document org i) (\<lambda>r. r\<lparr>d_current := Some (v_id v)\<rparr>) ?d) r1"
      using r1 published_le_max [OF ok' r1] pub v(3) max
      by (intro carried_upd_document) (auto simp: own_document_def kept_row_def)
  qed
qed (use r in simp)

lemma carried_publishing:
  assumes ok: "docs_ok used fs d" and r: "r \<in> set (documents d)" and st: "set_current_version org i ver d = (b, d')"
  shows "carried d d' r"
proof (cases "d' = d")
  case False
  then obtain v where v: "v \<in> set (versions d)" "v_id v = ver" "v_no v = max_no d i"
    and d': "d' = upd_document (own_document org i) (\<lambda>r. r\<lparr>d_current := Some ver\<rparr>) d"
    using publishing_result [OF st] by blast
  show ?thesis unfolding d'
    using r published_le_max [OF ok r] published_new [OF ok v(1)] v(2,3)
    by (intro carried_upd_document) (auto simp: own_document_def kept_row_def)
qed (use r in simp)

lemma carried_plain:
  assumes "r \<in> set (documents d)" "\<And>r. P r \<Longrightarrow> kept_row r (f r) \<and> d_current (f r) = d_current r"
  shows "carried d (upd_document P f d) r"
  using assms by (intro carried_upd_document) (auto simp: published_no_def joined_def)

text \<open>A step carries a document along, unless it is the removal of one that may be removed.\<close>

lemma dstep_carries:
  assumes "dstep p s s'" "dsys_ok p s" and r: "r \<in> set (documents (dstore s))" and ev: "evidence (store (journal s)) (dstore s) r"
  shows "carried (dstore s) (dstore s') r"
proof -
  have ok: "docs_ok (drawn s) (filed s) (dstore s)" using assms(2) by (simp add: dsys_ok_def)
  from assms(1) show ?thesis
  proof cases
    case (create gen now org ty src st cp slug tpl inp author x d')
    then obtain row v where "d' = (dstore s)\<lparr>documents := documents (dstore s) @ [row], versions := versions (dstore s) @ [v]\<rparr>"
      by (auto simp: create_document_def insert_document_def insert_version_def Let_def split: if_splits)
    with create(1) show ?thesis
      by (intro carried_versions [OF ok r, where g = "\<lambda>v. v" and new = "[v]"]) auto
  next
    case (version vid now org i inp tpl author x d')
    then obtain v where "d' = (dstore s)\<lparr>versions := versions (dstore s) @ [v]\<rparr>"
      by (auto simp: insert_version_def Let_def split: if_splits elim!: add_version_result)
    with version(1) show ?thesis
      by (intro carried_versions [OF ok r, where g = "\<lambda>v. v" and new = "[v]"]) auto
  next
    case (pending org i key mime b d')
    then show ?thesis using carried_pending [OF ok r] by simp
  next
    case (filing org ver key checksum mime bytes engine d')
    then obtain f where "d' = upd_version (own_version org ver) f (dstore s)" "\<And>v. kept_version v (f v)"
      by (auto simp: set_version_file_def kept_version_def split: if_splits)
    with filing(1) show ?thesis
      by (intro carried_versions [OF ok r, where g = "\<lambda>v. if own_version org ver v then f v else v" and new = "[]"])
         (auto simp: upd_version_def)
  next
    case (publishing ver org i b d')
    then show ?thesis using carried_publishing [OF ok r] by simp
  next
    case (status org i st b d')
    with status_result(1) [OF status(2)] r show ?thesis by (auto intro!: carried_plain simp: kept_row_def)
  next
    case (status_if org i from_st to_st b d')
    with status_result(2) [OF status_if(2)] r show ?thesis by (auto intro!: carried_plain simp: kept_row_def)
  next
    case (linking org i entry b d')
    with link_result [OF linking(2)] r show ?thesis
      by (auto intro!: carried_versions [OF ok r, where g = "\<lambda>v. v" and new = "[]"])
  next
    case (voiding now org i user reason b d')
    with void_result [OF voiding(2)] r show ?thesis by (auto intro!: carried_plain simp: kept_row_def)
  next
    case (removing org i outcome d')
    from remove_result [OF removing(2)] show ?thesis
    proof (elim disjE bexE conjE)
      assume "d' = dstore s"
      with removing(1) r show ?thesis by simp
    next
      fix x assume x: "x \<in> set (documents (dstore s))" "own_document org i x" "d_voided_at x = None"
        "\<not> has_posted_entry_link (store (journal s)) org i (dstore s)"
        and d': "d' = dstore s\<lparr>documents := filter (\<lambda>r. \<not> own_document org i r) (documents (dstore s)),
              versions := filter (\<lambda>v. \<not> (v_document v = i \<and> v_org v = org)) (versions (dstore s)),
              links := filter (\<lambda>k. \<not> (k_document k = i \<and> k_org k = org)) (links (dstore s))\<rparr>"
      have "x = r" if "d_id r = i" using that x(1,2) r docs_okD(1) [OF ok] by (auto simp: own_document_def distinct_map dest: inj_onD)
      note same = this
      have other: "d_id r \<noteq> i"
      proof
        assume "d_id r = i"
        with same have "x = r" by blast
        with x(2-4) ev show False by (simp add: evidence_def own_document_def)
      qed
      have "joined d' r = joined (dstore s) r"
      proof (cases "d_current r")
        case (Some c)
        then obtain v where v: "v \<in> set (versions (dstore s))" "v_id v = c" "v_document v = d_id r"
          using docs_okD(5) [OF ok r] by (auto simp: published_ok_def)
        have ok': "docs_ok (drawn s) (filed s) d'" using remove_keeps [OF ok removing(2)] .
        have "v \<in> set (versions d')" using v other by (simp add: d')
        with v Some show ?thesis using joined_no [OF ok', of v r] joined_no [OF ok v(1), of r] by simp
      qed (simp add: joined_None)
      then have "carried (dstore s) d' r"
        using r other by (auto simp: carried_def d' own_document_def published_no_def intro!: bexI [of _ r])
      with removing(1) show ?thesis by simp
    qed
  next
    case (holding ids)
    with r show ?thesis by (auto intro!: carried_versions [OF ok r, where g = "\<lambda>v. v" and new = "[]"])
  qed (use r in simp)
qed

lemma evidence_stays:
  assumes "dstep p s s'" "dsys_ok p s" "pg_ok p" and r: "r \<in> set (documents (dstore s))"
    and ev: "evidence (store (journal s)) (dstore s) r" and r': "kept_row r r'"
  shows "evidence (store (journal s')) (dstore s') r'"
proof (cases "d_voided_at r")
  case (Some t)
  with r' show ?thesis by (simp add: evidence_def kept_row_def)
next
  case None
  with ev obtain k e where k: "k \<in> set (links (dstore s))" "k_document k = d_id r" "k_org k = d_org r"
    and e: "e \<in> set (entries (store (journal s)))" "e_id e = k_entry k" "e_status e \<in> {''posted'', ''reversed''}"
    by (auto simp: evidence_def has_posted_entry_link_def linked_status_iff)
  have "k \<in> set (links (dstore s'))" using dstep_carries [OF assms(1,2) r ev] k by (simp add: carried_def)
  moreover have "\<exists>e' \<in> set (entries (store (journal s'))). e_id e' = k_entry k \<and> e_status e' \<in> {''posted'', ''reversed''}"
    using assms(1)
  proof cases
    case (journal j')
    then have "keeps (store (journal s)) (store j')" using jstep_ok assms(2,3) by (auto simp: dsys_ok_def)
    with e obtain e' where "e' \<in> set (entries (store j'))" "evolves e e'" by (auto simp: keeps_def)
    with e journal(1) show ?thesis by (intro bexI [of _ e']) (auto simp: evolves_def)
  qed (use e in auto)
  ultimately obtain e' where "k \<in> set (links (dstore s'))" "e' \<in> set (entries (store (journal s')))"
      "e_id e' = k_entry k" and st: "e_status e' \<in> {''posted'', ''reversed''}"
    by blast
  with k r' have "e_status e' \<in> set (linked_statuses (store (journal s')) (d_org r') (d_id r') (dstore s'))"
    unfolding linked_status_iff by (auto simp: kept_row_def)
  with st show ?thesis unfolding evidence_def has_posted_entry_link_def by blast
qed

text \<open>
  C9: Evidence cannot be destroyed. Once a document is voided, or linked to an entry that is
  posted or reversed, every later state has it: the same document with the same void record,
  all its versions with their numbers, inputs and authors, and its links. And the version it
  reports never goes back to an earlier one.
\<close>

theorem evidence_is_kept:
  assumes "dreach p s" and "pg_ok p" and "(dstep p)\<^sup>*\<^sup>* s s'" and "r \<in> set (documents (dstore s))"
    and "d_voided_at r \<noteq> None \<or> has_posted_entry_link (store (journal s)) (d_org r) (d_id r) (dstore s)"
  shows "carried (dstore s) (dstore s') r"
proof -
  have ok: "dsys_ok p s" using assms(1,2) by (rule dreach_ok)
  have ev: "evidence (store (journal s)) (dstore s) r" using assms(5) by (simp add: evidence_def)
  from assms(3) have "dsys_ok p s' \<and> carried (dstore s) (dstore s') r \<and>
      (\<forall>r' \<in> set (documents (dstore s')). kept_row r r' \<longrightarrow> evidence (store (journal s')) (dstore s') r')"
  proof (induction rule: rtranclp_induct)
    case base
    have "r' = r" if "r' \<in> set (documents (dstore s))" "kept_row r r'" for r'
      using that assms(4) ok by (auto simp: dsys_ok_def docs_ok_def distinct_map kept_row_def dest: inj_onD)
    with ok ev assms(4) show ?case by auto
  next
    case (step s1 s2)
    have ok2: "dsys_ok p s2" using dstep_ok [OF step(2)] step.IH assms(2) by blast
    have "carried (dstore s1) (dstore s2) r1" if "r1 \<in> set (documents (dstore s1))" "kept_row r r1" for r1
      using dstep_carries [OF step(2)] step.IH that by blast
    then have c: "carried (dstore s) (dstore s2) r" using step.IH by (blast intro: carried_trans)
    have "evidence (store (journal s2)) (dstore s2) r2" if r2: "r2 \<in> set (documents (dstore s2))" "kept_row r r2" for r2
    proof -
      obtain r1 where r1: "r1 \<in> set (documents (dstore s1))" "kept_row r r1" using step.IH by (auto simp: carried_def)
      then obtain x where x: "x \<in> set (documents (dstore s2))" "kept_row r1 x"
        using dstep_carries [OF step(2) _ r1(1)] step.IH by (auto simp: carried_def)
      have "d_id x = d_id r2" using r1(2) r2(2) x(2) by (simp add: kept_row_def)
      then have "x = r2" using x(1) r2(1) ok2 by (auto simp: dsys_ok_def docs_ok_def distinct_map dest: inj_onD)
      with x(2) show ?thesis using evidence_stays [OF step(2) _ assms(2) r1(1)] step.IH r1(2) r1(1) by blast
    qed
    with ok2 c show ?case by blast
  qed
  then show ?thesis by blast
qed

section \<open>A sample run\<close>

text \<open>A generated invoice, linked to the posted sale of the journal's sample, rendered and published.\<close>

definition demo_doc :: "string option \<Rightarrow> document_row" where
  "demo_doc cur =
     \<lparr>d_id = ''d'', d_org = ''o'', d_type = ''invoice'', d_source = ''generated'', d_status = ''draft'', d_counterparty = None,
      d_template = Some ''invoice'', d_current = cur, d_voided_at = None, d_voided_by = None, d_void_reason = None, d_created_at = 1\<rparr>"

definition demo_version :: "string option \<Rightarrow> version_row" where
  "demo_version key =
     \<lparr>v_id = ''v'', v_org = ''o'', v_document = ''d'', v_no = 1, v_key = key, v_checksum = map_option (\<lambda>_. replicate 64 (CHR '' '')) key,
      v_mime = map_option (\<lambda>_. ''application/pdf'') key, v_size = map_option (\<lambda>_. 1) key, v_template = None, v_engine = None,
      v_input = None, v_author = None, v_created_at = 1\<rparr>"

definition demo_docs :: "string option \<Rightarrow> string option \<Rightarrow> link_row list \<Rightarrow> doc_db" where
  "demo_docs cur key ks = \<lparr>documents = [demo_doc cur], versions = [demo_version key], links = ks, held = []\<rparr>"

definition demo_link :: link_row where
  "demo_link = \<lparr>k_org = ''o'', k_document = ''d'', k_entry = ''a0''\<rparr>"

definition demo_at :: "doc_db \<Rightarrow> string set \<Rightarrow> doc_sys" where
  "demo_at d fs = \<lparr>journal = \<lparr>store = demo_db ''posted'', in_flight = demo_flights\<rparr>, dstore = d, drawn = {''d'', ''v''}, filed = fs\<rparr>"

lemmas demo_docs_defs = demo_doc_def demo_version_def demo_docs_def demo_link_def demo_at_def

lemma demo_dreach:
  "dreach pg_text (demo_at (demo_docs None None [demo_link]) {})"
  "(dstep pg_text)\<^sup>*\<^sup>* (demo_at (demo_docs None None [demo_link]) {}) (demo_at (demo_docs (Some ''v'') (Some ''k'') [demo_link]) {''v''})"
proof -
  have s0: "dreach pg_text \<lparr>journal = \<lparr>store = demo_db ''posted'', in_flight = demo_flights\<rparr>, dstore = no_documents, drawn = {}, filed = {}\<rparr>"
    by (rule dstart [OF demo_reach(1)])
  let ?gen = "\<lambda>n. if n = 0 then ''d'' else ''v''"
  have "\<exists>r. create_document (demo_db ''posted'') ?gen 1 ''o'' ''invoice'' ''generated'' ''draft'' None (Some ''invoice'') None None None no_documents =
      Inr (r, demo_docs None None [])"
    by (simp add: create_document_def insert_document_def insert_version_def demo_defs demo_docs_defs no_documents_def doc_types_def
        doc_sources_def doc_statuses_def Let_def)
  then have s1: "dreach pg_text (demo_at (demo_docs None None []) {})"
    using dnext [OF s0 dstep.create [where gen = ?gen]] by (fastforce simp: demo_at_def insert_commute)
  have l: "link_entry (demo_db ''posted'') ''o'' ''d'' ''a0'' (demo_docs None None []) = Inr (True, demo_docs None None [demo_link])"
    by (simp add: link_entry_def insert_link_def demo_defs demo_docs_defs)
  show "dreach pg_text (demo_at (demo_docs None None [demo_link]) {})"
    using dnext [OF s1 dstep.linking, of "''o''" "''d''" "''a0''" True] l by (simp add: demo_at_def)
  have f: "set_version_file ''o'' ''v'' ''k'' [] ''application/pdf'' 1 None (demo_docs None None [demo_link]) =
      Inr (True, demo_docs None (Some ''k'') [demo_link])"
    by (simp add: set_version_file_def own_version_def char64_def upd_version_def demo_docs_defs)
  have p: "set_current_version ''o'' ''d'' ''v'' (demo_docs None (Some ''k'') [demo_link]) = (True, demo_docs (Some ''v'') (Some ''k'') [demo_link])"
    by (simp add: set_current_version_def publishable_def own_document_def upd_document_def max_no_def versions_of_def demo_docs_defs)
  have "dstep pg_text (demo_at (demo_docs None None [demo_link]) {}) (demo_at (demo_docs None (Some ''k'') [demo_link]) {''v''})"
    using dstep.filing [of "''o''" "''v''" "''k''" "[]" _ 1 None "demo_at (demo_docs None None [demo_link]) {}"] f by (simp add: demo_at_def)
  moreover have "dstep pg_text (demo_at (demo_docs None (Some ''k'') [demo_link]) {''v''}) (demo_at (demo_docs (Some ''v'') (Some ''k'') [demo_link]) {''v''})"
    using dstep.publishing [of "''v''" "demo_at (demo_docs None (Some ''k'') [demo_link]) {''v''}" "''o''" "''d''" True] p by (simp add: demo_at_def)
  ultimately show "(dstep pg_text)\<^sup>*\<^sup>* (demo_at (demo_docs None None [demo_link]) {}) (demo_at (demo_docs (Some ''v'') (Some ''k'') [demo_link]) {''v''})"
    by (meson rtranclp.rtrancl_into_rtrancl r_into_rtranclp)
qed

lemma demo_published: "dreach pg_text (demo_at (demo_docs (Some ''v'') (Some ''k'') [demo_link]) {''v''})"
proof -
  have "dreach p s'" if "(dstep p)\<^sup>*\<^sup>* s s'" "dreach p s" for p s s'
    using that by (induction rule: rtranclp_induct) (auto intro: dnext)
  with demo_dreach show ?thesis by blast
qed


theorem evidence_is_kept_witness:
  "carried (demo_docs None None [demo_link]) (demo_docs (Some ''v'') (Some ''k'') [demo_link]) (demo_doc None)"
  using evidence_is_kept [OF demo_dreach(1) pg_text_ok demo_dreach(2), of "demo_doc None"]
  by (simp add: demo_docs_defs demo_defs has_posted_entry_link_def linked_statuses_def)

section \<open>Rendering again\<close>

lemma not_renderable:
  assumes "distinct (map v_id (versions d))" "v \<in> set (versions d)" "v_id v = ver" "v_key v \<noteq> None"
  shows "version_render_state d org i ver \<noteq> kRenderable"
proof (cases "find (\<lambda>v. v_id v = ver \<and> v_document v = i \<and> v_org v = org) (versions d)")
  case (Some w)
  have "w = v" using found_in [OF Some] assms(1-3) by (auto simp: distinct_map dest: inj_onD)
  with Some assms(4) show ?thesis by (auto simp: version_render_state_def split: option.splits if_splits)
qed (simp add: version_render_state_def)

text \<open>
  A version that has its file is not rendered again. A repeated job for it, whatever the
  template engine produces the second time, leaves the documents and the bucket as they are
  and does not fail once the engine has run.
\<close>

theorem rendered_version_is_left_alone:
  assumes "distinct (map v_id (versions d))" and "v \<in> set (versions d)" and "v_key v \<noteq> None"
    and "version_of payload = Inr (v_id v)" and "v_id v \<noteq> []"
  shows "snd (process_job e payload d b) = (d, b) \<and>
         (\<forall>org i slug out. text_at payload ''org_id'' = Inr org \<longrightarrow> text_at payload ''document_id'' = Inr i \<longrightarrow>
            text_at payload ''slug'' = Inr slug \<longrightarrow> render_and_compile e slug (input_of payload) org = Some out \<longrightarrow>
            (\<exists>reason. fst (process_job e payload d b) = Inr (skipped i (v_id v) reason)))"
proof -
  have "version_render_state d org i (v_id v) \<noteq> kRenderable" for org i
    using not_renderable [OF assms(1,2) refl assms(3)] .
  then have adm: "admit e payload d \<noteq> Inr (Inr t)" for t
    using assms(4,5) by (auto simp: admit_def resolve_version_def Let_def split: option.splits prod.splits if_splits)
  then have "snd (process_job e payload d b) = (d, b)"
    by (auto simp: process_job_def split: sum.splits)
  moreover have "\<exists>reason. admit e payload d = Inr (Inl (skipped i (v_id v) reason))"
    if "text_at payload ''org_id'' = Inr org" "text_at payload ''document_id'' = Inr i" "text_at payload ''slug'' = Inr slug"
      "render_and_compile e slug (input_of payload) org = Some out" for org i slug out
    using that assms(4,5) \<open>\<And>org i. version_render_state d org i (v_id v) \<noteq> kRenderable\<close>
    by (auto simp: admit_def resolve_version_def Let_def split: prod.splits)
  ultimately show ?thesis by (fastforce simp: process_job_def)
qed

definition typst :: "string \<Rightarrow> render_env" where
  "typst pdf = \<lparr>render_and_compile = (\<lambda>_ _ _. Some (pdf, ''typst'')), sha256_hex = (\<lambda>s. s), put_works = (\<lambda>_. True)\<rparr>"

definition demo_payload :: json where
  "demo_payload = JObj [(''document_id'', JStr ''d''), (''org_id'', JStr ''o''), (''slug'', JStr ''invoice''), (''version_id'', JStr ''v'')]"

theorem rendered_version_is_left_alone_witness:
  "snd (process_job (typst ''second'') demo_payload (demo_docs (Some ''v'') (Some ''k'') []) Map.empty) =
     (demo_docs (Some ''v'') (Some ''k'') [], Map.empty)"
  using rendered_version_is_left_alone [of "demo_docs (Some ''v'') (Some ''k'') []" "demo_version (Some ''k'')" demo_payload
      "typst ''second''" Map.empty]
  by (simp add: demo_docs_defs demo_payload_def version_of_def)

text \<open>
  Two jobs for one version that are both admitted before either writes still render it
  twice: the second replaces the bytes under the key of the version that the first has
  published, and the checksum of its row, and both report success.
\<close>

theorem duplicate_render_replaces_published_file:
  "let d = demo_docs None None []; one = typst ''first''; two = typst ''second'';
       key = ''org/o/generated/v/invoice.pdf''
   in case (admit one demo_payload d, admit two demo_payload d) of
        (Inr (Inr t1), Inr (Inr t2)) \<Rightarrow>
          (case run_task one t1 d Map.empty of
             (r1, d1, b1) \<Rightarrow>
               case run_task two t2 d1 b1 of
                 (r2, d2, b2) \<Rightarrow>
                   r1 = Inr (rendered_json one t1) \<and> r2 = Inr (rendered_json two t2) \<and>
                   map d_current (documents d1) = [Some ''v''] \<and> map v_key (versions d1) = [Some key] \<and>
                   map v_key (versions d2) = [Some key] \<and> b1 key = Some ''first'' \<and> b2 key = Some ''second'' \<and>
                   map v_checksum (versions d1) \<noteq> map v_checksum (versions d2))
      | _ \<Rightarrow> False"
  by (simp add: admit_def run_task_def put_object_def store_file_def publish_def finish_def set_version_file_def set_current_version_def
      set_status_if_def publishable_def own_document_def own_version_def upd_document_def upd_version_def char64_def typst_def
      demo_payload_def demo_docs_defs text_at_def version_of_def input_of_def resolve_version_def version_render_state_def max_no_def
      versions_of_def task_key_def version_key_def sanitize_filename_def safe_char_def doc_statuses_def Let_def)

end
