(* ===== verification/Base64.thy ===== *)
theory Base64
  imports CxxText
begin

text \<open>
  base64url without padding: \<^verbatim>\<open>src/src/utils/Base64.hpp\<close>, which the session tokens and the signed
  links go through. The 32-bit buffer of both loops is a \<open>32 word\<close>; a byte is a \<open>char\<close>.

  The reference is RFC 4648 written on numbers: \<open>sextets\<close> cuts a list of bytes into groups of
  six bits, three bytes at a time, and \<open>octets\<close> puts them together again. The locale
  \<open>text_code\<close> states what the users of an encoding need and is interpreted by the two functions.
\<close>

unbundle bit_operations_syntax

section \<open>The code\<close>

definition alpha :: string where
  "alpha = ''ABCDEFGHIJKLMNOPQRSTUVWXYZabcdefghijklmnopqrstuvwxyz0123456789-_''"

text \<open>The inner loop of the encoder.\<close>

fun drain :: "32 word \<Rightarrow> nat \<Rightarrow> string \<Rightarrow> nat \<times> string" where
  "drain buf bits out =
     (if bits \<ge> 6 then drain buf (bits - 6) (out @ [alpha ! unat (drop_bit (bits - 6) buf AND 0x3F)]) else (bits, out))"

declare drain.simps [simp del]

fun encode_loop :: "string \<Rightarrow> 32 word \<Rightarrow> nat \<Rightarrow> string \<Rightarrow> 32 word \<times> nat \<times> string" where
  "encode_loop [] buf bits out = (buf, bits, out)"
| "encode_loop (c # cs) buf bits out =
     (let buf = push_bit 8 buf OR of_nat (of_char c)
      in case drain buf (bits + 8) out of (bits, out) \<Rightarrow> encode_loop cs buf bits out)"

definition url_encode :: "string \<Rightarrow> string" where
  "url_encode inp =
     (case encode_loop inp 0 0 [] of
        (buf, bits, out) \<Rightarrow> if bits > 0 then out @ [alpha ! unat (push_bit (6 - bits) buf AND 0x3F)] else out)"

text \<open>The decoding table, as the position in the alphabet.\<close>

definition table :: "char \<Rightarrow> nat option" where
  "table c = (let i = length (takeWhile (\<lambda>d. d \<noteq> c) alpha) in if i < 64 then Some i else None)"

datatype base64_error = InvalidCharacter | InvalidLength | InvalidPaddingBits

definition ignored :: "char \<Rightarrow> bool" where
  "ignored c \<longleftrightarrow> c = CHR ''='' \<or> c = CHR 0x0A \<or> c = CHR 0x0D"

fun decode_loop :: "string \<Rightarrow> 32 word \<Rightarrow> nat \<Rightarrow> nat \<Rightarrow> string \<Rightarrow> base64_error + 32 word \<times> nat \<times> nat \<times> string" where
  "decode_loop [] buf bits n out = Inr (buf, bits, n, out)"
| "decode_loop (c # cs) buf bits n out =
     (if ignored c then decode_loop cs buf bits n out
      else case table c of
        None \<Rightarrow> Inl InvalidCharacter
      | Some v \<Rightarrow>
          let buf = push_bit 6 buf OR of_nat v; bits = bits + 6
          in if bits \<ge> 8 then decode_loop cs buf (bits - 8) (n + 1) (out @ [char_of (unat (drop_bit (bits - 8) buf AND 0xFF))])
             else decode_loop cs buf bits (n + 1) out)"

definition url_decode :: "string \<Rightarrow> base64_error + string" where
  "url_decode inp =
     rbind (decode_loop inp 0 0 0 []) (\<lambda>(buf, bits, n, out).
     if n mod 4 = 1 then Inl InvalidLength
     else if bits > 0 \<and> buf AND (push_bit bits 1 - 1) \<noteq> 0 then Inl InvalidPaddingBits
     else Inr out)"

section \<open>The buffer as a number\<close>

text \<open>
  The buffer only ever loses high bits, which no later step reads, so it can be followed as
  an unbounded number.
\<close>

lemma mask_and: "w AND 0x3F = take_bit 6 (w :: 32 word)" "w AND 0xFF = take_bit 8 (w :: 32 word)"
  by (simp_all add: take_bit_eq_mask mask_eq_exp_minus_1)

lemma bits_at:
  assumes "k + j \<le> 32"
  shows "unat (take_bit j (drop_bit k (of_nat x :: 32 word))) = x div 2 ^ k mod 2 ^ j"
proof -
  have "unat (take_bit j (drop_bit k (of_nat x :: 32 word))) = take_bit j (drop_bit k (take_bit 32 x))"
    by (simp add: unsigned_take_bit_eq unat_drop_bit_eq unsigned_of_nat)
  also have "\<dots> = take_bit j (drop_bit k x)"
    using assms by (intro bit_eqI) (auto simp: bit_simps)
  finally show ?thesis by (simp add: take_bit_eq_mod drop_bit_eq_div)
qed

lemma sextet_at: "k \<le> 26 \<Longrightarrow> unat (drop_bit k (of_nat x :: 32 word) AND 0x3F) = x div 2 ^ k mod 64"
  by (simp add: mask_and bits_at)

lemma octet_at: "k \<le> 24 \<Longrightarrow> unat (drop_bit k (of_nat x :: 32 word) AND 0xFF) = x div 2 ^ k mod 256"
  by (simp add: mask_and bits_at)

lemma or_low: "v < 2 ^ k \<Longrightarrow> push_bit k (of_nat x :: 32 word) OR of_nat v = of_nat (x * 2 ^ k + v)"
proof -
  assume v: "v < 2 ^ k"
  have "push_bit k x OR v = push_bit k x + v"
  proof (rule disjunctive_add_eq_or [symmetric], rule bit_eqI)
    fix n show "bit (push_bit k x AND v) n = bit (0::nat) n"
      using v by (auto simp: bit_simps) (metis bit_take_bit_iff take_bit_nat_eq_self not_le)
  qed
  then have "of_nat (push_bit k x OR v) = (of_nat (x * 2 ^ k + v) :: 32 word)" by (simp add: push_bit_eq_mult)
  then show ?thesis by (simp add: of_nat_or_eq of_nat_push_bit)
qed

lemma last_sextet: "unat (push_bit k (of_nat x :: 32 word) AND 0x3F) = x * 2 ^ k mod 64"
  using bits_at [of 0 6 "x * 2 ^ k"] by (simp add: mask_and push_bit_eq_mult)

lemma pad_bits: "bits < 32 \<Longrightarrow> ((of_nat x :: 32 word) AND (push_bit bits 1 - 1) = 0) \<longleftrightarrow> x mod 2 ^ bits = 0"
proof -
  assume b: "bits < 32"
  have "(of_nat x :: 32 word) AND (push_bit bits 1 - 1) = of_nat (take_bit bits x)"
    by (simp add: push_bit_eq_mult take_bit_eq_mask mask_eq_exp_minus_1 [symmetric] of_nat_and_eq of_nat_mask_eq)
  moreover have "take_bit bits x < 2 ^ 32"
    using b by (meson less_trans take_bit_nat_less_exp power_strict_increasing one_less_numeral_iff semiring_norm(76))
  ultimately show ?thesis by (auto simp: word_of_nat_eq_0_iff take_bit_eq_mod dest: nat_dvd_not_less)
qed

lemma glue:
  fixes a b j k l :: nat
  assumes "0 < j" "b < j * k"
  shows "(a * (j * k) + b) div j mod (l * k) = a mod l * k + b div j"
proof -
  have bd: "b div j < k" using assms by (simp add: less_mult_imp_div_less mult.commute)
  have "(a * (j * k) + b) div j = a * k + b div j"
  proof -
    have "a * (j * k) + b = b + a * k * j" by simp
    then show ?thesis using assms(1) by (simp only: div_mult_self1)
  qed
  moreover have "a * k = (a div l * l + a mod l) * k" by (simp only: div_mult_mod_eq)
  ultimately have eq: "(a * (j * k) + b) div j = a div l * (l * k) + (a mod l * k + b div j)"
    by (simp only: add_mult_distrib mult.assoc add.assoc)
  show ?thesis
  proof (cases "l = 0")
    case False
    then have "a mod l * k + b div j < l * k"
    proof -
      have "a mod l * k + b div j < (a mod l + 1) * k" using bd by simp
      also have "\<dots> \<le> l * k" using False by (intro mult_right_mono) (auto simp: Suc_le_eq)
      finally show ?thesis .
    qed
    then show ?thesis by (simp only: eq mod_mult_self3 mod_less)
  qed (simp add: eq)
qed

lemmas cuts =
  glue [of 4 _ 64 _ 1, simplified] glue [of 16 _ 16 _ 4, simplified] glue [of 64 _ 4 _ 16, simplified]
  glue [of 16 _ 4 _ 64, simplified] glue [of 4 _ 16 _ 16, simplified] glue [of 1 _ 64 _ 4, simplified]

section \<open>The reference\<close>

fun sextets :: "nat list \<Rightarrow> nat list" where
  "sextets [] = []"
| "sextets [a] = [a div 4, a mod 4 * 16]"
| "sextets [a, b] = [a div 4, a mod 4 * 16 + b div 16, b mod 16 * 4]"
| "sextets (a # b # c # r) = [a div 4, a mod 4 * 16 + b div 16, b mod 16 * 4 + c div 64, c mod 64] @ sextets r"

fun octets :: "nat list \<Rightarrow> nat list option" where
  "octets [] = Some []"
| "octets [s] = None"
| "octets [s, t] = (if t mod 16 = 0 then Some [s * 4 + t div 16] else None)"
| "octets [s, t, u] = (if u mod 4 = 0 then Some [s * 4 + t div 16, t mod 16 * 16 + u div 4] else None)"
| "octets (s # t # u # v # r) =
     map_option (\<lambda>bs. [s * 4 + t div 16, t mod 16 * 16 + u div 4, u mod 4 * 64 + v] @ bs) (octets r)"

section \<open>The encoder is the reference\<close>

definition code_of :: "nat list \<Rightarrow> string" where
  "code_of vs = map (\<lambda>v. alpha ! v) vs"

lemma byte_bound [simp]: "(of_char c :: nat) < 256"
  using of_char_mod_256 [of c] by (metis mod_less_divisor zero_less_numeral)

lemma drain_eval:
  "drain (of_nat x) 8 out = (2, out @ code_of [x div 4 mod 64])"
  "drain (of_nat x) 10 out = (4, out @ code_of [x div 16 mod 64])"
  "drain (of_nat x) 12 out = (0, out @ code_of [x div 64 mod 64, x mod 64])"
  using sextet_at [of 2 x] sextet_at [of 4 x] sextet_at [of 6 x] sextet_at [of 0 x]
  by (simp_all add: drain.simps code_of_def)

text \<open>The buffer after one more byte.\<close>

definition byte_in :: "nat \<Rightarrow> nat \<Rightarrow> nat" where
  "byte_in x c = x * 256 + c"

lemma byte_in_cuts:
  "a < 256 \<Longrightarrow> byte_in x a div 4 mod 64 = a div 4"
  "a < 256 \<Longrightarrow> b < 256 \<Longrightarrow> byte_in (byte_in x a) b div 16 mod 64 = a mod 4 * 16 + b div 16"
  "b < 256 \<Longrightarrow> c < 256 \<Longrightarrow> byte_in (byte_in x b) c div 64 mod 64 = b mod 16 * 4 + c div 64"
  "byte_in x c mod 64 = c mod 64"
  "byte_in x a * 16 mod 64 = a mod 4 * 16"
  "byte_in x b * 4 mod 64 = b mod 16 * 4"
proof -
  have m: "(x * 256 + a) mod 4 = a mod 4" "(x * 256 + b) mod 16 = b mod 16" for x a b :: nat
    using mod_mult_self3 [of "x * 64" 4 a] mod_mult_self3 [of "x * 16" 16 b] by (simp_all add: mult.commute [of x])
  show "a < 256 \<Longrightarrow> byte_in x a div 4 mod 64 = a div 4"
    "a < 256 \<Longrightarrow> b < 256 \<Longrightarrow> byte_in (byte_in x a) b div 16 mod 64 = a mod 4 * 16 + b div 16"
    "b < 256 \<Longrightarrow> c < 256 \<Longrightarrow> byte_in (byte_in x b) c div 64 mod 64 = b mod 16 * 4 + c div 64"
    unfolding byte_in_def using cuts(1) [of a x] cuts(2) [of b "x * 256 + a"] cuts(3) [of c "x * 256 + b"] by (simp_all only: m)
  show "byte_in x c mod 64 = c mod 64"
    using mod_mult_self3 [of "x * 4" 64 c] by (simp add: byte_in_def mult.commute [of x])
  show "byte_in x a * 16 mod 64 = a mod 4 * 16" "byte_in x b * 4 mod 64 = b mod 16 * 4"
    using mult_mod_left [of "byte_in x a" 4 16] mult_mod_left [of "byte_in x b" 16 4] by (simp_all add: byte_in_def m)
qed

lemma encode_step:
  "encode_loop (c # cs) (of_nat x) bits out =
     (case drain (of_nat (byte_in x (of_char c))) (bits + 8) out of
        (bits, out) \<Rightarrow> encode_loop cs (of_nat (byte_in x (of_char c))) bits out)"
proof -
  have "push_bit 8 (of_nat x :: 32 word) OR of_nat (of_char c) = of_nat (byte_in x (of_char c))"
    using or_low [of "of_char c" 8 x] by (simp add: byte_in_def)
  then show ?thesis by (simp only: encode_loop.simps Let_def)
qed

definition encode_end :: "32 word \<times> nat \<times> string \<Rightarrow> string" where
  "encode_end st =
     (case st of (buf, bits, out) \<Rightarrow> if bits > 0 then out @ [alpha ! unat (push_bit (6 - bits) buf AND 0x3F)] else out)"

lemma encode_end_eval:
  "encode_end (of_nat x, 0, out) = out"
  "encode_end (of_nat x, 2, out) = out @ code_of [x * 16 mod 64]"
  "encode_end (of_nat x, 4, out) = out @ code_of [x * 4 mod 64]"
  using last_sextet [of 4 x] last_sextet [of 2 x] by (simp_all add: encode_end_def code_of_def)

lemma code_of_append [simp]: "code_of (xs @ ys) = code_of xs @ code_of ys"
  by (simp add: code_of_def)

lemma code_of_Cons: "code_of (x # xs) = code_of [x] @ code_of xs"
  by (simp add: code_of_def)

fun thirds :: "'a list \<Rightarrow> bool" where
  "thirds (a # b # c # r) = thirds r"
| "thirds _ = True"

lemma encode_from_zero:
  "encode_end (encode_loop s (of_nat x) 0 out) = out @ code_of (sextets (map of_char s))"
proof (induction s arbitrary: x out rule: thirds.induct [case_names three none one two])
  case (three a b c r)
  show ?case
    by (simp add: encode_step drain_eval byte_in_cuts three del: encode_loop.simps(2)) (simp add: code_of_def)
next
  case none
  show ?case by (simp add: encode_end_def code_of_def)
next
  case (one a)
  show ?case
    by (simp add: encode_step drain_eval byte_in_cuts encode_end_eval del: encode_loop.simps(2)) (simp add: code_of_def)
next
  case (two a b)
  show ?case
    by (simp add: encode_step drain_eval byte_in_cuts encode_end_eval del: encode_loop.simps(2)) (simp add: code_of_def)
qed

lemma url_encode_sextets: "url_encode s = code_of (sextets (map of_char s))"
  using encode_from_zero [of s 0 "[]"] by (simp add: url_encode_def encode_end_def)

section \<open>The decoder is the reference\<close>

lemma alpha_length [simp]: "length alpha = 64"
  by (simp add: alpha_def)

lemma alpha_distinct: "distinct alpha"
  by (simp add: alpha_def)

lemma table_alpha [simp]: "v < 64 \<Longrightarrow> table (alpha ! v) = Some v"
proof -
  assume v: "v < 64"
  then have "takeWhile (\<lambda>d. d \<noteq> alpha ! v) alpha = take v alpha"
    using alpha_distinct by (intro takeWhile_eq_take_P_nth) (auto simp: nth_eq_iff_index_eq)
  with v show ?thesis by (simp add: table_def)
qed

lemma table_SomeD: "table c = Some v \<Longrightarrow> v < 64 \<and> alpha ! v = c"
  using nth_length_takeWhile [of "\<lambda>d. d \<noteq> c" alpha] by (auto simp: table_def Let_def split: if_splits)

lemma alpha_kept [simp]: "v < 64 \<Longrightarrow> \<not> ignored (alpha ! v)"
proof -
  have "list_all (\<lambda>c. \<not> ignored c) alpha" by (simp add: alpha_def ignored_def)
  then show "v < 64 \<Longrightarrow> ?thesis" by (simp add: list_all_length)
qed

definition sextet_in :: "nat \<Rightarrow> nat \<Rightarrow> nat" where
  "sextet_in x v = x * 64 + v"

lemma sextet_in_cuts:
  "s < 64 \<Longrightarrow> t < 64 \<Longrightarrow> sextet_in (sextet_in x s) t div 16 mod 256 = s * 4 + t div 16"
  "t < 64 \<Longrightarrow> u < 64 \<Longrightarrow> sextet_in (sextet_in x t) u div 4 mod 256 = t mod 16 * 16 + u div 4"
  "u < 64 \<Longrightarrow> v < 64 \<Longrightarrow> sextet_in (sextet_in x u) v mod 256 = u mod 4 * 64 + v"
  "sextet_in x t mod 16 = t mod 16" "sextet_in x u mod 4 = u mod 4"
proof -
  have m: "(x * 64 + a) mod 64 = a mod 64" "(x * 64 + b) mod 16 = b mod 16" "(x * 64 + c) mod 4 = c mod 4" for x a b c :: nat
    using mod_mult_self3 [of "x" 64 a] mod_mult_self3 [of "x * 4" 16 b] mod_mult_self3 [of "x * 16" 4 c]
    by (simp_all add: mult.commute [of x])
  show "s < 64 \<Longrightarrow> t < 64 \<Longrightarrow> sextet_in (sextet_in x s) t div 16 mod 256 = s * 4 + t div 16"
    "t < 64 \<Longrightarrow> u < 64 \<Longrightarrow> sextet_in (sextet_in x t) u div 4 mod 256 = t mod 16 * 16 + u div 4"
    "u < 64 \<Longrightarrow> v < 64 \<Longrightarrow> sextet_in (sextet_in x u) v mod 256 = u mod 4 * 64 + v"
    unfolding sextet_in_def using cuts(4) [of t "x * 64 + s"] cuts(5) [of u "x * 64 + t"] cuts(6) [of v "x * 64 + u"]
    by (simp_all only: m mod_less)
  show "sextet_in x t mod 16 = t mod 16" "sextet_in x u mod 4 = u mod 4"
    by (simp_all add: sextet_in_def m)
qed

lemma decode_step:
  assumes "v < 64"
  shows "decode_loop (alpha ! v # cs) (of_nat x) bits n out =
     (if bits + 6 \<ge> 8
      then decode_loop cs (of_nat (sextet_in x v)) (bits + 6 - 8) (n + 1)
             (out @ [char_of (unat (drop_bit (bits + 6 - 8) (of_nat (sextet_in x v) :: 32 word) AND 0xFF))])
      else decode_loop cs (of_nat (sextet_in x v)) (bits + 6) (n + 1) out)"
proof -
  have "push_bit 6 (of_nat x :: 32 word) OR of_nat v = of_nat (sextet_in x v)"
    using assms or_low [of v 6 x] by (simp add: sextet_in_def)
  with assms show ?thesis by (simp only: decode_loop.simps Let_def alpha_kept table_alpha if_False option.case)
qed

lemma out_byte:
  "unat (drop_bit 4 (of_nat x :: 32 word) AND 0xFF) = x div 16 mod 256"
  "unat (drop_bit 2 (of_nat x :: 32 word) AND 0xFF) = x div 4 mod 256"
  "unat (drop_bit 0 (of_nat x :: 32 word) AND 0xFF) = x mod 256"
  "unat ((of_nat x :: 32 word) AND 0xFF) = x mod 256"
  using octet_at [of 4 x] octet_at [of 2 x] octet_at [of 0 x] by simp_all

definition decode_end :: "32 word \<times> nat \<times> nat \<times> string \<Rightarrow> base64_error + string" where
  "decode_end st =
     (case st of (buf, bits, n, out) \<Rightarrow>
        if n mod 4 = 1 then Inl InvalidLength
        else if bits > 0 \<and> buf AND (push_bit bits 1 - 1) \<noteq> 0 then Inl InvalidPaddingBits
        else Inr out)"

lemma decode_end_eval:
  "n mod 4 = 0 \<Longrightarrow> decode_end (of_nat x, 0, n, out) = Inr out"
  "n mod 4 = 0 \<Longrightarrow> decode_end (of_nat x, 6, Suc n, out) = Inl InvalidLength"
  "n mod 4 = 0 \<Longrightarrow> decode_end (of_nat x, 4, Suc (Suc n), out) = (if x mod 16 = 0 then Inr out else Inl InvalidPaddingBits)"
  "n mod 4 = 0 \<Longrightarrow> decode_end (of_nat x, 2, Suc (Suc (Suc n)), out) = (if x mod 4 = 0 then Inr out else Inl InvalidPaddingBits)"
  using pad_bits [of 4 x] pad_bits [of 2 x] by (simp_all add: decode_end_def mod_Suc)

fun quarters :: "'a list \<Rightarrow> bool" where
  "quarters (a # b # c # d # r) = quarters r"
| "quarters _ = True"

lemma decode_from_zero:
  assumes "list_all (\<lambda>v. v < 64) vs" "n mod 4 = 0"
  shows "(case rbind (decode_loop (code_of vs) (of_nat x) 0 n out) decode_end of Inl _ \<Rightarrow> None | Inr r \<Rightarrow> Some r) =
     map_option (\<lambda>bs. out @ map char_of bs) (octets vs)"
  using assms
proof (induction vs arbitrary: x n out rule: quarters.induct [case_names four none one two three])
  case (four a b c d r)
  have "Suc (Suc (Suc (Suc n))) mod 4 = 0" using four.prems by (simp add: mod_Suc)
  note IH = four.IH [OF _ this, unfolded code_of_def]
  from four.prems show ?case
    by (simp add: code_of_def decode_step out_byte sextet_in_cuts del: decode_loop.simps(2))
       (simp add: IH option.map_comp comp_def)
next
  case none
  then show ?case by (simp add: code_of_def decode_end_def)
next
  case (one a)
  then show ?case by (simp add: code_of_def decode_step decode_end_eval del: decode_loop.simps(2))
next
  case (two a b)
  then show ?case
    by (simp add: code_of_def decode_step decode_end_eval out_byte sextet_in_cuts del: decode_loop.simps(2))
next
  case (three a b c)
  then show ?case
    by (simp add: code_of_def decode_step decode_end_eval out_byte sextet_in_cuts del: decode_loop.simps(2))
qed

lemma decode_ignores: "decode_loop s buf bits n out = decode_loop (filter (\<lambda>c. \<not> ignored c) s) buf bits n out"
  by (induction s buf bits n out rule: decode_loop.induct) (auto simp: Let_def split: option.split)

lemma decode_chars:
  "decode_loop s buf bits n out = Inr r \<Longrightarrow> \<exists>vs. list_all (\<lambda>v. v < 64) vs \<and> filter (\<lambda>c. \<not> ignored c) s = code_of vs"
proof (induction s arbitrary: buf bits n out)
  case Nil
  show ?case by (rule exI [of _ "[]"]) (simp add: code_of_def)
next
  case (Cons c cs)
  show ?case
  proof (cases "ignored c")
    case True
    with Cons show ?thesis by simp
  next
    case False
    with Cons.prems obtain v where v: "table c = Some v" by (auto split: option.splits)
    with False Cons.prems have "\<exists>buf bits n out. decode_loop cs buf bits n out = Inr r"
      by (auto simp: Let_def split: if_splits)
    with Cons.IH obtain vs where "list_all (\<lambda>v. v < 64) vs" "filter (\<lambda>c. \<not> ignored c) cs = code_of vs" by blast
    then show ?thesis
      using False v table_SomeD [of c v] by (intro exI [of _ "v # vs"]) (simp add: code_of_def)
  qed
qed

lemma url_decode_octets:
  assumes "list_all (\<lambda>v. v < 64) vs"
  shows "url_decode (code_of vs) = Inr b \<longleftrightarrow> (\<exists>bs. octets vs = Some bs \<and> b = map char_of bs)"
proof -
  have "url_decode (code_of vs) = rbind (decode_loop (code_of vs) (of_nat 0) 0 0 []) decode_end"
    by (simp add: url_decode_def decode_end_def [abs_def])
  with decode_from_zero [OF assms, of 0 0 "[]"] show ?thesis
    by (cases "octets vs") (auto split: sum.splits)
qed

section \<open>Both ways\<close>

lemma sextets_bound: "list_all (\<lambda>a. a < 256) as \<Longrightarrow> list_all (\<lambda>v. v < 64) (sextets as)"
  by (induction as rule: sextets.induct) auto

lemma octets_bound: "list_all (\<lambda>v. v < 64) vs \<Longrightarrow> octets vs = Some bs \<Longrightarrow> list_all (\<lambda>a. a < 256) bs"
  by (induction vs arbitrary: bs rule: octets.induct) (auto split: if_splits)

lemma octets_sextets: "list_all (\<lambda>a. a < 256) as \<Longrightarrow> octets (sextets as) = Some as"
  by (induction as rule: sextets.induct) auto

lemma sextets_octets: "list_all (\<lambda>v. v < 64) vs \<Longrightarrow> octets vs = Some bs \<Longrightarrow> sextets bs = vs"
  by (induction vs arbitrary: bs rule: octets.induct) (auto split: if_splits)

text \<open>What the users of a text encoding rely on.\<close>

locale text_code =
  fixes enc :: "string \<Rightarrow> string" and dec :: "string \<Rightarrow> 'e + string" and core :: "string \<Rightarrow> string"
  assumes accepts: "dec s = Inr b \<longleftrightarrow> enc b = core s"
    and core_enc: "core (enc b) = enc b"
begin

lemma dec_enc: "dec (enc b) = Inr b"
  by (simp add: accepts core_enc)

lemma enc_inj: "enc b = enc b' \<Longrightarrow> b = b'"
  by (metis dec_enc sum.inject(2))

lemma dec_core: "dec s = Inr b \<Longrightarrow> dec t = Inr b \<Longrightarrow> core s = core t"
  by (simp add: accepts)

end

definition significant :: "string \<Rightarrow> string" where
  "significant s = filter (\<lambda>c. \<not> ignored c) s"

lemma bytes_bound: "list_all (\<lambda>a. a < 256) (map (of_char :: char \<Rightarrow> nat) s)"
  by (induction s) auto

lemma of_char_char_of_bytes: "list_all (\<lambda>a. a < 256) bs \<Longrightarrow> map (of_char \<circ> char_of) bs = (bs :: nat list)"
  by (induction bs) auto

lemma url_decode_significant: "url_decode s = url_decode (significant s)"
  unfolding url_decode_def significant_def by (subst decode_ignores) simp

lemma decode_accepts: "url_decode s = Inr b \<longleftrightarrow> url_encode b = significant s"
proof
  assume dec: "url_decode s = Inr b"
  then obtain r where "decode_loop s 0 0 0 [] = Inr r" by (auto simp: url_decode_def)
  then obtain vs where vs: "list_all (\<lambda>v. v < 64) vs" "significant s = code_of vs"
    using decode_chars unfolding significant_def by blast
  with dec have "url_decode (code_of vs) = Inr b" by (simp add: url_decode_significant [of s])
  then obtain bs where "octets vs = Some bs" "b = map char_of bs"
    unfolding url_decode_octets [OF vs(1)] by blast
  with vs show "url_encode b = significant s"
    by (simp add: url_encode_sextets sextets_octets of_char_char_of_bytes octets_bound)
next
  assume enc: "url_encode b = significant s"
  have "octets (sextets (map of_char b)) = Some (map of_char b)" by (rule octets_sextets [OF bytes_bound])
  then have "url_decode (code_of (sextets (map of_char b))) = Inr b"
    by (simp add: url_decode_octets [OF sextets_bound [OF bytes_bound]] comp_def)
  with enc show "url_decode s = Inr b"
    by (simp add: url_decode_significant [of s] url_encode_sextets)
qed

interpretation b64: text_code url_encode url_decode significant
proof
  show "significant (url_encode b) = url_encode b" for b
    using sextets_bound [OF bytes_bound [of b]]
    by (simp add: significant_def url_encode_sextets code_of_def filter_id_conv list_all_iff)
qed (rule decode_accepts)

text \<open>
  C26: The decoder accepts exactly the canonical encodings: \<open>url_decode\<close> answers some bytes for a
  text if and only if the text, apart from the characters it skips, is the encoding of these
  bytes. So decoding inverts encoding on every byte string, and no other spelling with other
  digits, another length or other padding bits is accepted.
\<close>

theorem base64_decodes_canonical_only:
  "(url_decode s = Inr b) = (url_encode b = filter (\<lambda>c. \<not> ignored c) s) \<and> url_decode (url_encode b) = Inr b"
  using decode_accepts b64.dec_enc by (simp add: significant_def)

text \<open>The skipped characters still give one token several spellings.\<close>

lemma base64_spellings: "url_decode ''QQ'' = Inr ''A'' \<and> url_decode ''QQ=='' = Inr ''A'' \<and> url_decode ''=Q=Q'' = Inr ''A''"
proof -
  have "url_encode ''A'' = ''QQ''" by (simp add: url_encode_sextets code_of_def alpha_def)
  then show ?thesis by (simp add: decode_accepts significant_def ignored_def)
qed

end
