(* ===== verification/Idempotency.thy ===== *)
theory Idempotency
  imports Redis Http
begin

text \<open>
  The middleware behind the \<open>Idempotency-Key\<close> header: \<^verbatim>\<open>src/src/security/Idempotency.hpp\<close> over the
  three calls of \<^verbatim>\<open>src/src/cache/Cache.hpp\<close> it uses, which answer as if nothing was found when
  Redis fails. \<open>pre_handle\<close> runs before the handler of a request and \<open>post_handle\<close> after it.

  The store maps keys to texts with the time they expire. SHA-256 and the JSON printer and
  parser are libraries: \<open>idem_env\<close> has them, and for every call of the cache the time and what
  becomes of it, as in \<open>Redis\<close>. The printer
  throws on text that is not UTF-8 (\<open>None\<close>); the parser reads back what it wrote (\<open>faithful\<close>).
\<close>

record idem_store =
  vals :: "string \<Rightarrow> (string \<times> int option) option"
  ncalls :: nat

record idem_env =
  fate :: "nat \<Rightarrow> fault"
  clock :: "nat \<Rightarrow> int"
  parse :: "string \<Rightarrow> json option"
  dump :: "json \<Rightarrow> string option"
  hash_hex :: "string \<Rightarrow> string"

definition faithful :: "idem_env \<Rightarrow> bool" where
  "faithful e \<longleftrightarrow> (\<forall>j t. dump e j = Some t \<longrightarrow> parse e t = Some j)"

section \<open>The cache\<close>

definition cache_call :: "idem_env \<Rightarrow> 'a \<Rightarrow> (int \<Rightarrow> idem_store \<Rightarrow> 'a \<times> idem_store) \<Rightarrow> idem_store \<Rightarrow> 'a \<times> idem_store" where
  "cache_call e failed f s =
     (let n = ncalls s; s0 = s\<lparr>ncalls := Suc n\<rparr>
      in case fate e n of
           Answered \<Rightarrow> f (clock e n) s0
         | Lost \<Rightarrow> (failed, s0)
         | Unanswered \<Rightarrow> (failed, snd (f (clock e n) s0)))"

definition live :: "int \<Rightarrow> string \<times> int option \<Rightarrow> bool" where
  "live now v = (case snd v of None \<Rightarrow> True | Some t \<Rightarrow> now < t)"

definition lookup :: "int \<Rightarrow> string \<Rightarrow> idem_store \<Rightarrow> string option" where
  "lookup now k s = (case vals s k of None \<Rightarrow> None | Some v \<Rightarrow> if live now v then Some (fst v) else None)"

definition cache_get :: "idem_env \<Rightarrow> string \<Rightarrow> idem_store \<Rightarrow> string option \<times> idem_store" where
  "cache_get e k = cache_call e None (\<lambda>now s. (lookup now k s, s))"

definition cache_del :: "idem_env \<Rightarrow> string \<Rightarrow> idem_store \<Rightarrow> unit \<times> idem_store" where
  "cache_del e k = cache_call e () (\<lambda>now s. ((), s\<lparr>vals := (vals s)(k := None)\<rparr>))"

definition cache_set :: "idem_env \<Rightarrow> string \<Rightarrow> string \<Rightarrow> int \<Rightarrow> idem_store \<Rightarrow> bool \<times> idem_store" where
  "cache_set e k v ttl =
     cache_call e False (\<lambda>now s. (True, s\<lparr>vals := (vals s)(k := Some (v, if ttl > 0 then Some (now + ttl * 1000) else None))\<rparr>))"

definition cache_set_nx :: "idem_env \<Rightarrow> string \<Rightarrow> string \<Rightarrow> int \<Rightarrow> idem_store \<Rightarrow> bool \<times> idem_store" where
  "cache_set_nx e k v ttl =
     cache_call e False (\<lambda>now s.
       if lookup now k s = None then (True, s\<lparr>vals := (vals s)(k := Some (v, Some (now + ttl * 1000)))\<rparr>) else (False, s))"

text \<open>The script of the lock guard: delete the key if it has the given value.\<close>

definition cache_cad :: "idem_env \<Rightarrow> string \<Rightarrow> string \<Rightarrow> idem_store \<Rightarrow> unit \<times> idem_store" where
  "cache_cad e k owner =
     cache_call e () (\<lambda>now s. ((), if lookup now k s = Some owner then s\<lparr>vals := (vals s)(k := None)\<rparr> else s))"

section \<open>Requests and replies\<close>

record idem_cfg =
  idem_enabled :: bool
  ttl_sec :: int
  max_body_bytes :: nat
  max_response_bytes :: nat
  lock_ttl_sec :: int

text \<open>\<open>initialize\<close>, from the configured values.\<close>

definition load_idem_cfg :: "bool \<Rightarrow> int \<Rightarrow> int \<Rightarrow> int \<Rightarrow> int \<Rightarrow> idem_cfg" where
  "load_idem_cfg on ttl body_kb response_kb lock =
     \<lparr>idem_enabled = on, ttl_sec = ttl, max_body_bytes = nat (max 1 body_kb) * 1024,
      max_response_bytes = nat (max 1 response_kb) * 1024, lock_ttl_sec = (if lock < 1 then 1 else lock)\<rparr>"

record idem_request =
  rq_method :: string
  rq_path :: string
  rq_key :: string
  rq_body :: string
  rq_subject :: "string option"
  rq_peer_ip :: string

record http_reply =
  rp_status :: int
  rp_content_type :: string
  rp_headers :: "(string \<times> string) list"
  rp_body :: string

definition is_mutating :: "string \<Rightarrow> bool" where
  "is_mutating m \<longleftrightarrow> m \<in> {''POST'', ''PUT'', ''DELETE'', ''PATCH''}"

definition cache_key :: "idem_env \<Rightarrow> string \<Rightarrow> string \<Rightarrow> string \<Rightarrow> string \<Rightarrow> string" where
  "cache_key e who method path key = ''idemp:'' @ who @ '':'' @ method @ '':'' @ hash_hex e path @ '':'' @ key"

definition lock_key :: "string \<Rightarrow> string" where
  "lock_key ck = ck @ '':lock''"

definition principal_scope :: "idem_request \<Rightarrow> string" where
  "principal_scope r =
     (case rq_subject r of
        None \<Rightarrow> ''anon:'' @ rq_peer_ip r
      | Some sub \<Rightarrow> if sub \<noteq> [] then sub else ''anon:'' @ rq_peer_ip r)"

definition entry_key :: "idem_env \<Rightarrow> idem_request \<Rightarrow> string" where
  "entry_key e r = cache_key e (principal_scope r) (rq_method r) (rq_path r) (rq_key r)"

text \<open>\<open>json::value\<close> throws on a value that is not an object and on a member of another type.\<close>

definition text_value :: "json \<Rightarrow> string \<Rightarrow> string \<Rightarrow> string option" where
  "text_value j k dflt =
     (if \<not> is_object j then None
      else case member j k of None \<Rightarrow> Some dflt | Some (JStr s) \<Rightarrow> Some s | Some _ \<Rightarrow> None)"

definition int_value :: "json \<Rightarrow> string \<Rightarrow> int \<Rightarrow> int option" where
  "int_value j k dflt =
     (if \<not> is_object j then None
      else case member j k of None \<Rightarrow> Some dflt | Some (JInt n) \<Rightarrow> Some n | Some _ \<Rightarrow> None)"

definition text_members :: "json \<Rightarrow> (string \<times> string) list" where
  "text_members j = concat (map (\<lambda>(k, v). case v of JStr s \<Rightarrow> [(k, s)] | _ \<Rightarrow> []) (members j))"

definition make_replay_response :: "json \<Rightarrow> http_reply option" where
  "make_replay_response stored =
     (case (int_value stored ''status'' 200, text_value stored ''content_type'' ''application/json'',
            text_value stored ''body'' []) of
        (Some st, Some ct, Some b) \<Rightarrow>
          Some \<lparr>rp_status = st, rp_content_type = ct,
                rp_headers = (case member stored ''headers'' of None \<Rightarrow> [] | Some h \<Rightarrow> text_members h) @
                             [(''X-Idempotent-Replayed'', ''true'')],
                rp_body = b\<rparr>
      | _ \<Rightarrow> None)"

definition make_conflict_response :: response where
  "make_conflict_response = unprocessable ''idempotency_key_conflict'' ''body hash mismatch for previously-seen key''"

definition make_in_progress_response :: "int \<Rightarrow> response \<times> string" where
  "make_in_progress_response retry_after_sec =
     (conflict ''idempotency_key_in_progress'' ''another request with this Idempotency-Key is in progress'',
      to_string (max 1 retry_after_sec))"

section \<open>Before the handler\<close>

datatype pre_result =
  Proceed "(string \<times> string) option"
| Replayed http_reply
| Answer response
| InProgress response string
| Thrown

definition read_stored_entry :: "idem_env \<Rightarrow> string \<Rightarrow> idem_store \<Rightarrow> json option \<times> idem_store" where
  "read_stored_entry e ck s =
     (case cache_get e ck s of
        (None, s1) \<Rightarrow> (None, s1)
      | (Some t, s1) \<Rightarrow>
          (case parse e t of Some j \<Rightarrow> (Some j, s1) | None \<Rightarrow> (None, snd (cache_del e ck s1))))"

definition answer_stored :: "json \<Rightarrow> string \<Rightarrow> pre_result" where
  "answer_stored stored body_hash =
     (case text_value stored ''req_hash'' [] of
        None \<Rightarrow> Thrown
      | Some h \<Rightarrow>
          if h \<noteq> body_hash then Answer make_conflict_response
          else (case make_replay_response stored of None \<Rightarrow> Thrown | Some r \<Rightarrow> Replayed r))"

definition pre_handle :: "idem_env \<Rightarrow> idem_cfg \<Rightarrow> bool \<Rightarrow> idem_request \<Rightarrow> idem_store \<Rightarrow> pre_result \<times> idem_store" where
  "pre_handle e c cache_up r s =
     (if \<not> idem_enabled c \<or> \<not> is_mutating (rq_method r) \<or> rq_key r = [] \<or> \<not> cache_up then (Proceed None, s)
      else if length (rq_body r) > max_body_bytes c then (Answer (payload_too_large ''body_too_large_for_idempotency''), s)
      else
        let body_hash = hash_hex e (rq_body r); ck = entry_key e r
        in case read_stored_entry e ck s of
             (Some stored, s1) \<Rightarrow> (answer_stored stored body_hash, s1)
           | (None, s1) \<Rightarrow>
               (case cache_set_nx e (lock_key ck) body_hash (lock_ttl_sec c) s1 of
                  (True, s2) \<Rightarrow> (Proceed (Some (ck, body_hash)), s2)
                | (False, s2) \<Rightarrow>
                    (case read_stored_entry e ck s2 of
                       (Some stored, s3) \<Rightarrow> (answer_stored stored body_hash, s3)
                     | (None, s3) \<Rightarrow>
                         (case make_in_progress_response (lock_ttl_sec c) of (b, h) \<Rightarrow> (InProgress b h, s3)))))"

section \<open>After the handler\<close>

definition kSkip :: "string list" where
  "kSkip = [''content-length'', ''date'', ''server'', ''connection'', ''transfer-encoding'', ''content-type'']"

definition tolower :: "char \<Rightarrow> char" where
  "tolower c = (if 65 \<le> (of_char c :: nat) \<and> (of_char c :: nat) \<le> 90 then char_of ((of_char c :: nat) + 32) else c)"

definition kept_headers :: "(string \<times> string) list \<Rightarrow> (string \<times> json) list" where
  "kept_headers hs = fold (\<lambda>(k, v) m. put k (JStr v) m) (filter (\<lambda>(k, _). map tolower k \<notin> set kSkip) hs) []"

definition stored_entry :: "string \<Rightarrow> http_reply \<Rightarrow> json" where
  "stored_entry body_hash resp =
     object [(''req_hash'', JStr body_hash), (''status'', JInt (rp_status resp)),
             (''content_type'', JStr (if rp_content_type resp = [] then ''application/json'' else rp_content_type resp)),
             (''headers'', JObj (kept_headers (rp_headers resp))), (''body'', JStr (rp_body resp))]"

definition post_handle ::
  "idem_env \<Rightarrow> idem_cfg \<Rightarrow> bool \<Rightarrow> (string \<times> string) option \<Rightarrow> http_reply \<Rightarrow> idem_store \<Rightarrow> idem_store" where
  "post_handle e c cache_up stamp resp s =
     (if \<not> idem_enabled c \<or> \<not> cache_up then s
      else
        case stamp of
          None \<Rightarrow> s
        | Some (ck, body_hash) \<Rightarrow>
            let s1 = (if rp_status resp < 200 \<or> rp_status resp \<ge> 300 \<or> length (rp_body resp) > max_response_bytes c then s
                      else case dump e (stored_entry body_hash resp) of
                             None \<Rightarrow> s
                           | Some t \<Rightarrow> snd (cache_set e ck t (ttl_sec c) s))
            in snd (cache_cad e (lock_key ck) body_hash s1))"

section \<open>Replays\<close>

lemmas cache_defs = cache_call_def cache_get_def cache_del_def cache_set_def cache_set_nx_def cache_cad_def

lemma lock_key_other [simp]: "lock_key ck \<noteq> ck" "ck \<noteq> lock_key ck"
  by (simp_all add: lock_key_def)

lemma kept_headers_text: "text_members (JObj (kept_headers hs)) = map (\<lambda>(k, v). (k, case v of JStr s \<Rightarrow> s | _ \<Rightarrow> [])) (kept_headers hs)"
proof -
  have strings: "\<forall>(k, v) \<in> set (fold (\<lambda>(k, v) m. put k (JStr v) m) xs m). \<exists>s. v = JStr s"
    if "\<forall>(k, v) \<in> set m. \<exists>s. v = JStr s" for xs :: "(string \<times> string) list" and m
    using that
  proof (induction xs arbitrary: m)
    case (Cons x xs)
    obtain k v where x: "x = (k, v)" by (cases x)
    have "\<forall>(k', v') \<in> set (put k (JStr v) m). \<exists>s. v' = JStr s"
      using Cons.prems by (induction k "JStr v" m rule: put.induct) auto
    from Cons.IH [OF this] show ?case by (simp add: x)
  qed simp
  have "concat (map (\<lambda>(k, v). case v of JStr s \<Rightarrow> [(k, s)] | _ \<Rightarrow> []) m) = map (\<lambda>(k, v). (k, case v of JStr s \<Rightarrow> s | _ \<Rightarrow> [])) m"
    if "\<forall>(k, v) \<in> set m. \<exists>s. v = JStr s" for m :: "(string \<times> json) list"
    using that by (induction m) auto
  with strings [of "[]"] show ?thesis by (simp add: text_members_def members_def kept_headers_def)
qed

definition replay_of :: "http_reply \<Rightarrow> http_reply" where
  "replay_of resp =
     \<lparr>rp_status = rp_status resp,
      rp_content_type = (if rp_content_type resp = [] then ''application/json'' else rp_content_type resp),
      rp_headers = map (\<lambda>(k, v). (k, case v of JStr s \<Rightarrow> s | _ \<Rightarrow> [])) (kept_headers (rp_headers resp)) @
                   [(''X-Idempotent-Replayed'', ''true'')],
      rp_body = rp_body resp\<rparr>"

lemma stored_values:
  "text_value (stored_entry h resp) ''req_hash'' d = Some h"
  "int_value (stored_entry h resp) ''status'' n = Some (rp_status resp)"
  "text_value (stored_entry h resp) ''content_type'' d =
     Some (if rp_content_type resp = [] then ''application/json'' else rp_content_type resp)"
  "text_value (stored_entry h resp) ''body'' d = Some (rp_body resp)"
  "member (stored_entry h resp) ''headers'' = Some (JObj (kept_headers (rp_headers resp)))"
proof -
  have o: "is_object (stored_entry h resp)" by (simp add: stored_entry_def object_def)
  show "text_value (stored_entry h resp) ''req_hash'' d = Some h"
    using o by (simp add: text_value_def stored_entry_def)
  show "int_value (stored_entry h resp) ''status'' n = Some (rp_status resp)"
    using o by (simp add: int_value_def stored_entry_def)
  show "text_value (stored_entry h resp) ''content_type'' d =
     Some (if rp_content_type resp = [] then ''application/json'' else rp_content_type resp)"
    using o by (simp add: text_value_def stored_entry_def)
  show "text_value (stored_entry h resp) ''body'' d = Some (rp_body resp)"
    using o by (simp add: text_value_def stored_entry_def)
  show "member (stored_entry h resp) ''headers'' = Some (JObj (kept_headers (rp_headers resp)))"
    by (simp add: stored_entry_def)
qed

lemma replay_stored:
  "answer_stored (stored_entry h resp) h' = (if h = h' then Replayed (replay_of resp) else Answer make_conflict_response)"
  by (simp add: answer_stored_def make_replay_response_def stored_values kept_headers_text replay_of_def)

section \<open>Interleaved requests\<close>

text \<open>
  Requests of one deployment as the middleware sees them: those that were let through and are
  still running, with the key, the body hash and the time their lock ends, and the replies kept
  so far. \<open>in_time\<close> is the premise the lock is built on: no handler outlives its lock.
\<close>

record idem_state =
  cached :: idem_store
  running :: "(string \<times> string \<times> int) list"
  kept :: "string \<Rightarrow> (string \<times> http_reply \<times> int option) option"

definition in_time :: "idem_env \<Rightarrow> idem_state \<Rightarrow> bool" where
  "in_time e x = (\<forall>(ck, h, t) \<in> set (running x). \<forall>n \<le> ncalls (cached x) + 4. clock e n < t)"

definition plain :: "string \<Rightarrow> bool" where
  "plain ck \<longleftrightarrow> (\<forall>ck'. ck \<noteq> lock_key ck')"

definition tracked :: "idem_cfg \<Rightarrow> idem_request \<Rightarrow> bool" where
  "tracked c r \<longleftrightarrow> idem_enabled c \<and> is_mutating (rq_method r) \<and> rq_key r \<noteq> [] \<and> length (rq_body r) \<le> max_body_bytes c"

definition kept_of :: "idem_env \<Rightarrow> idem_cfg \<Rightarrow> idem_store \<Rightarrow> string \<Rightarrow> http_reply \<Rightarrow> (string \<times> http_reply \<times> int option) option" where
  "kept_of e c s h resp =
     (if rp_status resp < 200 \<or> rp_status resp \<ge> 300 \<or> length (rp_body resp) > max_response_bytes c then None
      else case dump e (stored_entry h resp) of
             None \<Rightarrow> None
           | Some _ \<Rightarrow> Some (h, resp, if ttl_sec c > 0 then Some (clock e (ncalls s) + ttl_sec c * 1000) else None))"

inductive istep :: "idem_env \<Rightarrow> idem_cfg \<Rightarrow> idem_state \<Rightarrow> idem_state \<Rightarrow> bool" for e c where
  let_through: "\<lbrakk>in_time e x; tracked c r; plain (entry_key e r);
     pre_handle e c True r (cached x) = (Proceed (Some (ck, h)), s)\<rbrakk> \<Longrightarrow>
     istep e c x (x\<lparr>cached := s, running := (ck, h, clock e (ncalls s - 1) + lock_ttl_sec c * 1000) # running x\<rparr>)"
| answered: "\<lbrakk>in_time e x; tracked c r; plain (entry_key e r);
     pre_handle e c True r (cached x) = (a, s); \<forall>stamp. a \<noteq> Proceed stamp\<rbrakk> \<Longrightarrow> istep e c x (x\<lparr>cached := s\<rparr>)"
| finished: "\<lbrakk>in_time e x; running x = us @ (ck, h, t) # vs\<rbrakk> \<Longrightarrow>
     istep e c x (x\<lparr>cached := post_handle e c True (Some (ck, h)) resp (cached x), running := us @ vs,
                    kept := (case kept_of e c (cached x) h resp of None \<Rightarrow> kept x | Some k \<Rightarrow> (kept x)(ck := Some k))\<rparr>)"

inductive ireach :: "idem_env \<Rightarrow> idem_cfg \<Rightarrow> idem_state \<Rightarrow> bool" for e c where
  start: "vals s = (\<lambda>_. None) \<Longrightarrow> ireach e c \<lparr>cached = s, running = [], kept = (\<lambda>_. None)\<rparr>"
| next_step: "ireach e c x \<Longrightarrow> istep e c x y \<Longrightarrow> ireach e c y"

definition lock_held :: "idem_store \<Rightarrow> string \<times> string \<times> int \<Rightarrow> bool" where
  "lock_held s = (\<lambda>(ck, h, t). plain ck \<and> vals s (lock_key ck) = Some (h, Some t))"

definition reply_held :: "idem_env \<Rightarrow> idem_store \<Rightarrow> string \<Rightarrow> string \<times> http_reply \<times> int option \<Rightarrow> bool" where
  "reply_held e s ck = (\<lambda>(h, resp, t). plain ck \<and> (\<exists>d. dump e (stored_entry h resp) = Some d \<and> vals s ck = Some (d, t)))"

definition idem_ok :: "idem_env \<Rightarrow> idem_state \<Rightarrow> bool" where
  "idem_ok e x \<longleftrightarrow> distinct (map fst (running x)) \<and> (\<forall>k \<in> set (running x). lock_held (cached x) k) \<and>
     (\<forall>ck k. kept x ck = Some k \<longrightarrow> reply_held e (cached x) ck k)"

lemma lock_key_inject [simp]: "lock_key a = lock_key b \<longleftrightarrow> a = b"
  by (simp add: lock_key_def)

lemma plainD: "plain ck \<Longrightarrow> ck \<noteq> lock_key ck'"
  by (simp add: plain_def)

lemma lookup_ncalls [simp]: "lookup now k (s\<lparr>ncalls := n\<rparr>) = lookup now k s"
  by (simp add: lookup_def)

text \<open>What a read leaves of the store: all of it, or all but an entry that cannot be parsed.\<close>

lemma read_answered:
  assumes up: "\<forall>n. fate e n = Answered"
  shows "read_stored_entry e ck s =
     (case lookup (clock e (ncalls s)) ck s of
        None \<Rightarrow> (None, s\<lparr>ncalls := Suc (ncalls s)\<rparr>)
      | Some t \<Rightarrow> (case parse e t of
          Some j \<Rightarrow> (Some j, s\<lparr>ncalls := Suc (ncalls s)\<rparr>)
        | None \<Rightarrow> (None, s\<lparr>ncalls := Suc (Suc (ncalls s)), vals := (vals s)(ck := None)\<rparr>)))"
  using up by (simp add: read_stored_entry_def cache_defs Let_def split: option.split)

lemma read_kept:
  assumes up: "\<forall>n. fate e n = Answered" and f: "faithful e" and k: "reply_held e s ck (h, resp, t)"
    and l: "live (clock e (ncalls s)) (d, t)"
  shows "read_stored_entry e ck s = (Some (stored_entry h resp), s\<lparr>ncalls := Suc (ncalls s)\<rparr>)"
  using k l f by (auto simp: read_answered [OF up] reply_held_def lookup_def live_def faithful_def)

lemma read_frame:
  assumes up: "\<forall>n. fate e n = Answered" and f: "faithful e" and r: "read_stored_entry e ck s = (a, s')" and ck: "plain ck"
  shows "(\<forall>k. lock_held s k \<longrightarrow> lock_held s' k) \<and> (\<forall>ck' k. reply_held e s ck' k \<longrightarrow> reply_held e s' ck' k) \<and>
     ncalls s < ncalls s' \<and> ncalls s' \<le> ncalls s + 2"
  using r f ck [unfolded plain_def]
  by (auto simp: read_answered [OF up] lock_held_def reply_held_def lookup_def faithful_def split: option.splits if_splits)

lemma let_through_locks:
  assumes up: "\<forall>n. fate e n = Answered" and f: "faithful e" and r: "tracked c r" and ck: "plain (entry_key e r)"
    and p: "pre_handle e c True r s = (Proceed (Some (k, h)), s')"
  shows "\<exists>s1. read_stored_entry e k s = (None, s1) \<and> k = entry_key e r \<and> h = hash_hex e (rq_body r) \<and>
     lookup (clock e (ncalls s1)) (lock_key k) s1 = None \<and>
     s' = s1\<lparr>ncalls := Suc (ncalls s1), vals := (vals s1)(lock_key k := Some (h, Some (clock e (ncalls s1) + lock_ttl_sec c * 1000)))\<rparr>"
  using p r up
  by (auto simp: pre_handle_def tracked_def Let_def cache_set_nx_def cache_call_def answer_stored_def make_in_progress_response_def
      split: if_splits prod.splits option.splits bool.splits)

lemma pre_handle_frame:
  assumes up: "\<forall>n. fate e n = Answered" and f: "faithful e" and r: "tracked c r" and ck: "plain (entry_key e r)"
    and p: "pre_handle e c True r s = (a, s')" and a: "\<forall>stamp. a \<noteq> Proceed stamp"
  shows "(\<forall>k. lock_held s k \<longrightarrow> lock_held s' k) \<and> (\<forall>ck' k. reply_held e s ck' k \<longrightarrow> reply_held e s' ck' k)"
proof -
  let ?ck = "entry_key e r"
  obtain m1 s1 where r1: "read_stored_entry e ?ck s = (m1, s1)" by (cases "read_stored_entry e ?ck s")
  note f1 = read_frame [OF up f r1 ck]
  show ?thesis
  proof (cases m1)
    case (Some j)
    with p r r1 have "s' = s1" by (auto simp: pre_handle_def tracked_def Let_def)
    with f1 show ?thesis by simp
  next
    case None
    obtain got s2 where l: "cache_set_nx e (lock_key ?ck) (hash_hex e (rq_body r)) (lock_ttl_sec c) s1 = (got, s2)"
      by (cases "cache_set_nx e (lock_key ?ck) (hash_hex e (rq_body r)) (lock_ttl_sec c) s1")
    with p a r r1 None have got: "\<not> got" by (cases got) (auto simp: pre_handle_def tracked_def Let_def)
    with l up have s2: "s2 = s1\<lparr>ncalls := Suc (ncalls s1)\<rparr>"
      by (auto simp: cache_set_nx_def cache_call_def Let_def split: if_splits)
    obtain m2 s3 where r2: "read_stored_entry e ?ck s2 = (m2, s3)" by (cases "read_stored_entry e ?ck s2")
    have "s' = s3" using p r r1 None l got r2
      by (auto simp: pre_handle_def tracked_def Let_def make_in_progress_response_def split: option.splits)
    with f1 read_frame [OF up f r2 ck] show ?thesis
      by (simp add: s2) (simp add: lock_held_def reply_held_def)
  qed
qed

lemma post_handle_vals:
  assumes up: "\<forall>n. fate e n = Answered" and c: "idem_enabled c" and k: "k \<noteq> lock_key ck"
  shows "vals (post_handle e c True (Some (ck, h)) resp s) k =
     (case kept_of e c s h resp of
        None \<Rightarrow> vals s k
      | Some (_, _, t) \<Rightarrow> if k = ck then Some (the (dump e (stored_entry h resp)), t) else vals s k)"
  using up c k by (auto simp: post_handle_def kept_of_def cache_defs Let_def lookup_def split: option.split)

lemma kept_of_dumped: "kept_of e c s h resp = Some (h', resp', t) \<Longrightarrow>
   h' = h \<and> resp' = resp \<and> (\<exists>d. dump e (stored_entry h resp) = Some d)"
  by (auto simp: kept_of_def split: if_splits option.splits)

lemma idem_ok_let_through:
  assumes up: "\<forall>n. fate e n = Answered" and f: "faithful e" and ok: "idem_ok e x" and r: "tracked c r"
    and ck: "plain (entry_key e r)" and tm: "in_time e x" and p: "pre_handle e c True r (cached x) = (Proceed (Some (k, h)), s)"
  shows "idem_ok e (x\<lparr>cached := s, running := (k, h, clock e (ncalls s - 1) + lock_ttl_sec c * 1000) # running x\<rparr>)"
proof -
  from let_through_locks [OF up f r ck p] obtain s1 where
    r1: "read_stored_entry e k (cached x) = (None, s1)" and k: "k = entry_key e r" and
    free: "lookup (clock e (ncalls s1)) (lock_key k) s1 = None" and
    s: "s = s1\<lparr>ncalls := Suc (ncalls s1), vals := (vals s1)(lock_key k := Some (h, Some (clock e (ncalls s1) + lock_ttl_sec c * 1000)))\<rparr>"
    by blast
  note fr = read_frame [OF up f r1 ck [folded k]]
  have new: "k \<notin> fst ` set (running x)"
  proof
    assume "k \<in> fst ` set (running x)"
    then obtain h' t where m: "(k, h', t) \<in> set (running x)" by auto
    with ok fr have "lock_held s1 (k, h', t)" by (auto simp: idem_ok_def)
    moreover have "clock e (ncalls s1) < t" using tm m fr by (auto simp: in_time_def)
    ultimately show False using free by (simp add: lock_held_def lookup_def live_def)
  qed
  have "lock_held s (ck', h', t)" if "(ck', h', t) \<in> set (running x)" for ck' h' t
  proof -
    have "ck' \<noteq> k" using imageI [OF that, of fst] new by (metis fst_conv)
    moreover have "lock_held s1 (ck', h', t)" using ok fr that by (auto simp: idem_ok_def)
    ultimately show ?thesis by (simp add: lock_held_def s)
  qed
  moreover have "reply_held e s ck' (h', resp, t)" if "kept x ck' = Some (h', resp, t)" for ck' h' resp t
    using ok fr that by (auto simp: idem_ok_def reply_held_def s plain_def)
  moreover have "lock_held s (k, h, clock e (ncalls s - 1) + lock_ttl_sec c * 1000)"
    using ck by (simp add: lock_held_def s k)
  ultimately show ?thesis using ok new by (auto simp: idem_ok_def)
qed

lemma idem_ok_finished:
  assumes up: "\<forall>n. fate e n = Answered" and ok: "idem_ok e x" and c: "idem_enabled c"
    and u: "running x = us @ (ck, h, t) # vs"
  shows "idem_ok e (x\<lparr>cached := post_handle e c True (Some (ck, h)) resp (cached x), running := us @ vs,
       kept := (case kept_of e c (cached x) h resp of None \<Rightarrow> kept x | Some k \<Rightarrow> (kept x)(ck := Some k))\<rparr>)"
    (is "idem_ok e (x\<lparr>cached := ?s, running := _, kept := ?kept\<rparr>)")
proof -
  have d: "distinct (map fst (us @ (ck, h, t) # vs))" and ck: "plain ck" using ok u by (auto simp: idem_ok_def lock_held_def)
  have gone: "ck \<notin> fst ` set (us @ vs)" using d by auto
  have "lock_held ?s (ck', h', t')" if "(ck', h', t') \<in> set (us @ vs)" for ck' h' t'
  proof -
    have "ck' \<noteq> ck" using imageI [OF that, of fst] gone by (metis fst_conv)
    moreover have "lock_held (cached x) (ck', h', t')" using ok u that by (auto simp: idem_ok_def)
    ultimately show ?thesis using plainD [OF ck, of ck']
      by (auto simp: lock_held_def post_handle_vals [OF up c] split: option.split)
  qed
  moreover have "reply_held e ?s ck' k" if m: "?kept ck' = Some k" for ck' k
  proof (cases "kept_of e c (cached x) h resp")
    case None
    with m ok have "reply_held e (cached x) ck' k" by (cases k) (auto simp: idem_ok_def)
    then have "plain ck'" "reply_held e (cached x) ck' k" by (auto simp: reply_held_def)
    with None show ?thesis by (auto simp: reply_held_def post_handle_vals [OF up c plainD])
  next
    case (Some q)
    obtain t' d where q: "q = (h, resp, t')" and d: "dump e (stored_entry h resp) = Some d"
      using kept_of_dumped [of e c "cached x" h resp] Some by (cases q) auto
    show ?thesis
    proof (cases "ck' = ck")
      case True
      with m Some q d ck show ?thesis by (auto simp: reply_held_def post_handle_vals [OF up c plainD])
    next
      case False
      with m Some ok have "reply_held e (cached x) ck' k" by (cases k) (auto simp: idem_ok_def)
      then have "plain ck'" "reply_held e (cached x) ck' k" by (auto simp: reply_held_def)
      with Some q False show ?thesis by (auto simp: reply_held_def post_handle_vals [OF up c plainD])
    qed
  qed
  ultimately show ?thesis using d by (auto simp: idem_ok_def)
qed

lemma ireach_ok:
  assumes up: "\<forall>n. fate e n = Answered" and f: "faithful e" and c: "idem_enabled c" and x: "ireach e c x"
  shows "idem_ok e x"
  using x
proof (induction rule: ireach.induct)
  case (start s)
  then show ?case by (simp add: idem_ok_def)
next
  case (next_step x y)
  from next_step(2) next_step(3) show ?case
  proof (cases rule: istep.cases)
    case (let_through r ck h s)
    then show ?thesis using idem_ok_let_through [OF up f next_step(3)] by blast
  next
    case (answered r a s)
    with pre_handle_frame [OF up f] next_step(3) show ?thesis by (auto simp: idem_ok_def)
  next
    case (finished us ck h t vs resp)
    then show ?thesis using idem_ok_finished [OF up next_step(3) c] by blast
  qed
qed

section \<open>What the middleware promises\<close>

lemma answer_while_running:
  assumes up: "\<forall>n. fate e n = Answered" and f: "faithful e" and r: "tracked c r" and ck: "plain (entry_key e r)"
    and tm: "in_time e x" and ok: "idem_ok e x" and m: "entry_key e r \<in> fst ` set (running x)"
  shows "\<forall>stamp. fst (pre_handle e c True r (cached x)) \<noteq> Proceed stamp"
proof (intro allI notI)
  fix stamp
  assume a: "fst (pre_handle e c True r (cached x)) = Proceed stamp"
  then obtain k h where st: "stamp = Some (k, h)" using r
    by (auto simp: pre_handle_def tracked_def Let_def answer_stored_def make_in_progress_response_def
        split: prod.splits option.splits bool.splits if_splits)
  with a obtain s where p: "pre_handle e c True r (cached x) = (Proceed (Some (k, h)), s)"
    by (cases "pre_handle e c True r (cached x)") simp
  from let_through_locks [OF up f r ck p] have k: "k = entry_key e r" by blast
  from idem_ok_let_through [OF up f ok r ck tm p] have "k \<notin> fst ` set (running x)" by (auto simp: idem_ok_def)
  with k m show False by simp
qed

lemma answer_while_kept:
  assumes up: "\<forall>n. fate e n = Answered" and f: "faithful e" and r: "tracked c r" and ok: "idem_ok e x"
    and k: "kept x (entry_key e r) = Some (h, resp, t)" and l: "live (clock e (ncalls (cached x))) ([], t)"
  shows "fst (pre_handle e c True r (cached x)) =
     (if h = hash_hex e (rq_body r) then Replayed (replay_of resp) else Answer make_conflict_response)"
proof -
  have "reply_held e (cached x) (entry_key e r) (h, resp, t)" using ok k by (auto simp: idem_ok_def)
  from read_kept [OF up f this l] show ?thesis using r by (auto simp: pre_handle_def tracked_def Let_def replay_stored)
qed



section \<open>One key, three requests\<close>

text \<open>A request, its reply, and the store after the middleware saw both.\<close>

definition demo_rq :: idem_request where
  "demo_rq = \<lparr>rq_method = ''POST'', rq_path = ''/p'', rq_key = ''1'', rq_body = ''b'', rq_subject = Some ''u'', rq_peer_ip = []\<rparr>"

definition demo_rp :: http_reply where
  "demo_rp = \<lparr>rp_status = 201, rp_content_type = [], rp_headers = [(''Location'', ''/p/1''), (''Date'', ''x'')], rp_body = ''ok''\<rparr>"

definition demo_env :: "(nat \<Rightarrow> fault) \<Rightarrow> (nat \<Rightarrow> int) \<Rightarrow> idem_env" where
  "demo_env f now =
     \<lparr>fate = f, clock = now, parse = (\<lambda>t. if t = ''E'' then Some (stored_entry ''b'' demo_rp) else None),
      dump = (\<lambda>j. if j = stored_entry ''b'' demo_rp then Some ''E'' else None), hash_hex = (\<lambda>t. t)\<rparr>"

definition demo_cfg :: idem_cfg where
  "demo_cfg = load_idem_cfg True 60 1 1 30"

definition demo_ck :: string where
  "demo_ck = ''idemp:u:POST:/p:1''"

definition empty_store :: idem_store where
  "empty_store = \<lparr>vals = (\<lambda>_. None), ncalls = 0\<rparr>"

lemmas demo_idem = demo_rq_def demo_rp_def demo_env_def demo_cfg_def load_idem_cfg_def

lemma demo_fields [simp]:
  "fate (demo_env f now) = f" "clock (demo_env f now) = now" "hash_hex (demo_env f now) t = t"
  "rq_body demo_rq = ''b''" "lock_ttl_sec demo_cfg = 30" "ttl_sec demo_cfg = 60" "max_response_bytes demo_cfg = 1024"
  by (simp_all add: demo_idem)

lemma demo_key: "entry_key (demo_env f now) demo_rq = demo_ck"
  by (simp add: entry_key_def cache_key_def principal_scope_def demo_idem demo_ck_def)

lemma demo_tracked: "tracked demo_cfg demo_rq"
  by (simp add: tracked_def is_mutating_def demo_idem)

lemma demo_faithful: "faithful (demo_env f now)"
  by (simp add: faithful_def demo_env_def)

lemma demo_plain: "plain demo_ck"
proof -
  have "last demo_ck \<noteq> last (lock_key ck)" for ck by (simp add: demo_ck_def lock_key_def)
  then show ?thesis unfolding plain_def by metis
qed

lemma demo_first:
  "pre_handle (demo_env (\<lambda>_. Answered) now) demo_cfg True demo_rq empty_store =
     (Proceed (Some (demo_ck, ''b'')),
      \<lparr>vals = (\<lambda>_. None)(lock_key demo_ck := Some (''b'', Some (now 1 + 30000))), ncalls = 2\<rparr>)"
  using demo_tracked
  by (simp add: pre_handle_def tracked_def demo_key Let_def read_stored_entry_def cache_defs lookup_def empty_store_def)

definition demo_done :: idem_state where
  "demo_done =
     \<lparr>cached = post_handle (demo_env (\<lambda>_. Answered) (\<lambda>_. 0)) demo_cfg True (Some (demo_ck, ''b'')) demo_rp
        \<lparr>vals = (\<lambda>_. None)(lock_key demo_ck := Some (''b'', Some 30000)), ncalls = 2\<rparr>,
      running = [], kept = (\<lambda>_. None)(demo_ck := Some (''b'', demo_rp, Some 60000))\<rparr>"

lemma demo_done_reached: "ireach (demo_env (\<lambda>_. Answered) (\<lambda>_. 0)) demo_cfg demo_done"
proof -
  let ?e = "demo_env (\<lambda>_. Answered) (\<lambda>_. 0)"
  let ?x = "\<lparr>cached = empty_store, running = [], kept = (\<lambda>_. None)\<rparr>"
  let ?s = "\<lparr>vals = (\<lambda>_. None)(lock_key demo_ck := Some (''b'', Some 30000)), ncalls = 2\<rparr>"
  let ?y = "?x\<lparr>cached := ?s, running := [(demo_ck, ''b'', 30000)]\<rparr>"
  have x: "ireach ?e demo_cfg ?x" by (rule ireach.start) (simp add: empty_store_def)
  have "pre_handle ?e demo_cfg True demo_rq (cached ?x) = (Proceed (Some (demo_ck, ''b'')), ?s)"
    by (simp add: demo_first)
  from istep.let_through [OF _ demo_tracked _ this] have "istep ?e demo_cfg ?x ?y"
    by (simp add: in_time_def demo_key demo_plain)
  then have y: "ireach ?e demo_cfg ?y" by (rule ireach.next_step [OF x])
  have k: "kept_of ?e demo_cfg (cached ?y) ''b'' demo_rp = Some (''b'', demo_rp, Some 60000)"
    by (simp add: kept_of_def) (simp add: demo_env_def demo_rp_def)
  have "istep ?e demo_cfg ?y demo_done"
    using istep.finished [of ?e ?y "[]" demo_ck "''b''" 30000 "[]" demo_cfg demo_rp] k
    by (simp add: in_time_def demo_done_def)
  then show ?thesis by (rule ireach.next_step [OF y])
qed



text \<open>
  A handler that outlives its lock frees the lock of the request that took it over: the lock's
  value is the hash of the body, which a retry shares. Request 1 takes the lock at time 0, request
  2 at 31 s, when it has expired; request 1 then fails and its release deletes the lock, so
  request 3 runs beside request 2.
\<close>

lemma stale_owner_frees_the_lock:
  defines "e \<equiv> demo_env (\<lambda>_. Answered) (\<lambda>n. if n < 2 then 0 else 31000)"
  shows "\<exists>s1 s2 s4. pre_handle e demo_cfg True demo_rq empty_store = (Proceed (Some (demo_ck, ''b'')), s1) \<and>
     pre_handle e demo_cfg True demo_rq s1 = (Proceed (Some (demo_ck, ''b'')), s2) \<and>
     pre_handle e demo_cfg True demo_rq (post_handle e demo_cfg True (Some (demo_ck, ''b'')) (demo_rp\<lparr>rp_status := 500\<rparr>) s2) =
       (Proceed (Some (demo_ck, ''b'')), s4)"
  using demo_tracked
  by (simp add: demo_first e_def)
    (simp add: pre_handle_def post_handle_def tracked_def demo_key Let_def read_stored_entry_def cache_defs lookup_def live_def)

end
