(* ===== verification/Strings.thy ===== *)
theory Strings
  imports CxxText
begin

text \<open>
  The string helpers of \<^verbatim>\<open>src/src/utils/Strings.hpp\<close>. A configured set of paths is the list of its
  entries.
\<close>

definition kTrimChars :: string where
  "kTrimChars = [CHR '' '', CHR 0x09, CHR 0x0D, CHR 0x0A]"

definition trim :: "string \<Rightarrow> string" where
  "trim s = (let f = (\<lambda>c. c \<in> set kTrimChars) in rev (dropWhile f (rev (dropWhile f s))))"

text \<open>\<open>std::getline\<close> up to a delimiter: nothing is left after a final delimiter.\<close>

lemma tail_shorter [termination_simp]: "length (dropWhile P xs) - Suc 0 < Suc (length xs)"
  using length_dropWhile_le [of P xs] by linarith

fun pieces :: "char \<Rightarrow> string \<Rightarrow> string list" where
  "pieces d [] = []"
| "pieces d (c # cs) =
     (let s = c # cs; rest = dropWhile (\<lambda>x. x \<noteq> d) s
      in takeWhile (\<lambda>x. x \<noteq> d) s # (if rest = [] then [] else pieces d (tl rest)))"

definition split_csv_vec :: "string \<Rightarrow> string list" where
  "split_csv_vec csv = filter (\<lambda>t. t \<noteq> []) (map trim (pieces (CHR '','') csv))"

definition prefix_entry :: "string \<Rightarrow> string \<Rightarrow> bool" where
  "prefix_entry path p \<longleftrightarrow> p \<noteq> [] \<and> last p = CHR ''*'' \<and> starts_with path (butlast p)"

definition path_is_public :: "string list \<Rightarrow> string \<Rightarrow> bool" where
  "path_is_public public_paths path \<longleftrightarrow> path \<in> set public_paths \<or> list_ex (prefix_entry path) public_paths"

definition mask_email :: "string \<Rightarrow> string" where
  "mask_email email =
     (if email = [] then email
      else
        let local = takeWhile (\<lambda>c. c \<noteq> CHR ''@'') email;
            domain = dropWhile (\<lambda>c. c \<noteq> CHR ''@'') email
        in (if length local > 1 then hd local # ''***'' else ''***'') @ domain)"

definition kDefaultPublicPathsCsv :: string where
  "kDefaultPublicPathsCsv =
     ''/,/healthz,/ready,/health,/metrics,'' @
     ''/api/v1/docs,/api/v1/openapi.yaml,'' @
     ''/api/v1/auth/login,/api/v1/auth/register,/api/v1/auth/refresh,'' @
     ''/api/v1/account/confirm/*,/api/v1/account/reset-password-request,'' @
     ''/api/v1/account/reset-password/*,/api/v1/account/change-email/*,'' @
     ''/api/v1/account/join-from-invite/*''"

definition kDefaultProtectedPathsCsv :: string where
  "kDefaultProtectedPathsCsv =
     ''/api/v1/auth/login,/api/v1/auth/register,/api/v1/auth/refresh,'' @
     ''/api/v1/account/confirm/*,/api/v1/account/reset-password-request,'' @
     ''/api/v1/account/reset-password/*,/api/v1/account/change-email/*,'' @
     ''/api/v1/account/join-from-invite/*''"

section \<open>Facts\<close>

lemma trim_blank: "trim s = [] \<longleftrightarrow> set s \<subseteq> set kTrimChars"
proof -
  have "rev (dropWhile f (rev xs)) = [] \<longleftrightarrow> (\<forall>x \<in> set xs. f x)" for f and xs :: string
    by (simp add: dropWhile_eq_Nil_conv)
  moreover have "(\<forall>x \<in> set (dropWhile f xs). f x) \<longleftrightarrow> (\<forall>x \<in> set xs. f x)" for f and xs :: string
    by (induction xs) auto
  ultimately show ?thesis by (auto simp: trim_def Let_def)
qed

lemma set_trim: "set (trim s) \<subseteq> set s"
  by (auto simp: trim_def Let_def dest!: set_dropWhileD)

lemma trim_ends:
  assumes "trim s \<noteq> []"
  shows "hd (trim s) \<notin> set kTrimChars" "last (trim s) \<notin> set kTrimChars"
proof -
  let ?f = "\<lambda>c. c \<in> set kTrimChars"
  define u where "u = dropWhile ?f s"
  have t: "trim s = rev (dropWhile ?f (rev u))" by (simp add: trim_def u_def Let_def)
  with assms have ne: "dropWhile ?f (rev u) \<noteq> []" by simp
  then show "last (trim s) \<notin> set kTrimChars" using hd_dropWhile [OF ne] by (simp add: t last_rev)
  have "u \<noteq> []" using ne by auto
  then have "\<not> ?f (hd u)" unfolding u_def by (rule hd_dropWhile)
  moreover have "hd (trim s) = hd u"
  proof -
    have "u = trim s @ rev (takeWhile ?f (rev u))"
      unfolding t by (metis rev_append rev_rev_ident takeWhile_dropWhile_id)
    with assms show ?thesis by (metis hd_append2)
  qed
  ultimately show "hd (trim s) \<notin> set kTrimChars" by simp
qed

lemma csv_pieces: "t \<in> set (split_csv_vec csv) \<Longrightarrow> t \<noteq> [] \<and> CHR '','' \<notin> set t"
proof -
  have "CHR '','' \<notin> set p" if "p \<in> set (pieces (CHR '','') csv)" for p
    using that
  proof (induction "CHR '',''" csv rule: pieces.induct)
    case (2 c cs)
    show ?case
    proof (cases "p = takeWhile (\<lambda>x. x \<noteq> CHR '','') (c # cs)")
      case True
      then show ?thesis by (metis set_takeWhileD)
    next
      case False
      with 2(2) have "p \<in> set (pieces (CHR '','') (tl (dropWhile (\<lambda>x. x \<noteq> CHR '','') (c # cs))))"
          "dropWhile (\<lambda>x. x \<noteq> CHR '','') (c # cs) \<noteq> []"
        by (auto simp: Let_def split: if_splits)
      with 2(1) show ?thesis by simp
    qed
  qed simp
  then show "t \<in> set (split_csv_vec csv) \<Longrightarrow> t \<noteq> [] \<and> CHR '','' \<notin> set t"
    using set_trim by (fastforce simp: split_csv_vec_def)
qed

text \<open>A masked address shows the first character of its local part at most.\<close>

lemma mask_email_hides:
  assumes "takeWhile (\<lambda>c. c \<noteq> CHR ''@'') a = c # x # xs" "takeWhile (\<lambda>c. c \<noteq> CHR ''@'') b = c # y # ys"
    and "dropWhile (\<lambda>c. c \<noteq> CHR ''@'') a = dropWhile (\<lambda>c. c \<noteq> CHR ''@'') b"
  shows "mask_email a = mask_email b"
  using assms by (auto simp: mask_email_def Let_def)

end
