(* ===== verification/RateLimit.thy ===== *)
theory RateLimit
  imports Redis Strings
begin

text \<open>
  The request limiter: \<^verbatim>\<open>src/src/security/RateLimit.hpp\<close>. Each identity has a sorted set of the
  requests of its trailing window, which one Lua script prunes, counts and extends.

  A check takes the time of the application and that of Redis, which expires keys, and what becomes
  of the call, as in \<open>Redis\<close>. The counter in the names of the entries belongs to the process.
\<close>

section \<open>Configuration\<close>

datatype Scope = Ip | IpOrUser

definition parse_scope :: "string \<Rightarrow> Scope" where
  "parse_scope s = (if s = ''ip'' then Ip else IpOrUser)"

record rl_config =
  rl_enabled :: bool
  requests :: int
  window_sec :: int
  protected_requests :: int
  protected_window_sec :: int
  rl_scope :: Scope
  trust_proxy :: bool
  trusted_proxy_count :: int
  fail_open :: bool
  whitelist :: "string list"
  rl_public_paths :: "string list"
  protected_paths :: "string list"

text \<open>\<open>load_config_from_global\<close>: the configured values, with the counts and windows at least one.\<close>

definition load_config :: "rl_config \<Rightarrow> string \<Rightarrow> string \<Rightarrow> string \<Rightarrow> string \<Rightarrow> rl_config" where
  "load_config raw scope_text whitelist_csv public_csv protected_csv =
     raw\<lparr>requests := (if requests raw \<le> 0 then 1 else requests raw),
         window_sec := (if window_sec raw \<le> 0 then 1 else window_sec raw),
         protected_requests := (if protected_requests raw \<le> 0 then 1 else protected_requests raw),
         protected_window_sec := (if protected_window_sec raw \<le> 0 then 1 else protected_window_sec raw),
         rl_scope := parse_scope scope_text,
         trusted_proxy_count := (if trusted_proxy_count raw < 1 then 1 else trusted_proxy_count raw),
         whitelist := split_csv_vec whitelist_csv, rl_public_paths := split_csv_vec public_csv,
         protected_paths := split_csv_vec protected_csv\<rparr>"

section \<open>The sliding window\<close>

record window_set =
  marks :: "(string \<times> int) list"
  ends_at :: "int option"

definition alive :: "int \<Rightarrow> window_set \<Rightarrow> window_set" where
  "alive rt z = (case ends_at z of
     None \<Rightarrow> z | Some t \<Rightarrow> if rt < t then z else \<lparr>marks = [], ends_at = None\<rparr>)"

text \<open>\<open>ZREMRANGEBYSCORE key 0 cutoff\<close>.\<close>

definition prune :: "int \<Rightarrow> (string \<times> int) list \<Rightarrow> (string \<times> int) list" where
  "prune cutoff ms = filter (\<lambda>(_, s). \<not> (0 \<le> s \<and> s \<le> cutoff)) ms"

definition zadd :: "string \<Rightarrow> int \<Rightarrow> (string \<times> int) list \<Rightarrow> (string \<times> int) list" where
  "zadd m s ms = filter (\<lambda>(x, _). x \<noteq> m) ms @ [(m, s)]"

definition oldest_score :: "int \<Rightarrow> (string \<times> int) list \<Rightarrow> int" where
  "oldest_score now ms = (if ms = [] then now else Min (snd ` set ms))"

definition sliding_window :: "int \<Rightarrow> int \<Rightarrow> int \<Rightarrow> int \<Rightarrow> string \<Rightarrow> window_set \<Rightarrow> (bool \<times> int \<times> int) \<times> window_set" where
  "sliding_window rt now window limit m z0 =
     (let z = alive rt z0; ms = prune (now - window) (marks z); n = int (length ms)
      in if n \<ge> limit then ((False, n, max 1 (oldest_score now ms + window - now)), z\<lparr>marks := ms\<rparr>)
         else ((True, n + 1, 0), \<lparr>marks = zadd m now ms, ends_at = Some (rt + window + 1000)\<rparr>))"

section \<open>Checks\<close>

record rl_store =
  windows :: "string \<Rightarrow> window_set"
  counter :: "64 word"

record Verdict =
  allowed :: bool
  remaining :: int
  retry_after_sec :: int

record moment =
  app_ms :: int
  redis_ms :: int
  outcome :: fault

definition fallback :: "rl_config \<Rightarrow> int \<Rightarrow> Verdict" where
  "fallback c n = (if fail_open c then \<lparr>allowed = True, remaining = n, retry_after_sec = 0\<rparr>
                   else \<lparr>allowed = False, remaining = 0, retry_after_sec = 1\<rparr>)"

definition exempt :: "rl_config \<Rightarrow> string \<Rightarrow> bool" where
  "exempt c identity \<longleftrightarrow> identity \<in> set (whitelist c) \<or>
     (CHR '':'' \<in> set identity \<and> tl (dropWhile (\<lambda>x. x \<noteq> CHR '':'') identity) \<in> set (whitelist c))"

definition member_name :: "int \<Rightarrow> 64 word \<Rightarrow> string" where
  "member_name now n = to_string now @ '':'' @ to_string (uint n)"

definition verdict_of :: "int \<Rightarrow> bool \<times> int \<times> int \<Rightarrow> Verdict" where
  "verdict_of limit = (\<lambda>(ok, count_after, retry_ms).
     \<lparr>allowed = ok, remaining = max 0 (limit - count_after),
      retry_after_sec = (if ok then 0 else max 1 ((retry_ms + 999) div 1000))\<rparr>)"

definition check_window ::
  "rl_config \<Rightarrow> bool \<Rightarrow> moment \<Rightarrow> string \<Rightarrow> int \<Rightarrow> int \<Rightarrow> string \<Rightarrow> rl_store \<Rightarrow> Verdict \<times> rl_store" where
  "check_window c cache_up t identity limit window pre s =
     (if \<not> rl_enabled c \<or> exempt c identity then (\<lparr>allowed = True, remaining = limit, retry_after_sec = 0\<rparr>, s)
      else if \<not> cache_up then (fallback c limit, s)
      else
        let k = pre @ identity;
            m = member_name (app_ms t) (counter s);
            s1 = s\<lparr>counter := counter s + 1\<rparr>;
            (r, z) = sliding_window (redis_ms t) (app_ms t) (window * 1000) limit m (windows s k);
            s2 = s1\<lparr>windows := (windows s)(k := z)\<rparr>
        in case outcome t of
             Answered \<Rightarrow> (verdict_of limit r, s2)
           | Lost \<Rightarrow> (fallback c limit, s1)
           | Unanswered \<Rightarrow> (fallback c limit, s2))"

definition check :: "rl_config \<Rightarrow> bool \<Rightarrow> moment \<Rightarrow> string \<Rightarrow> rl_store \<Rightarrow> Verdict \<times> rl_store" where
  "check c up t identity = check_window c up t identity (requests c) (window_sec c) ''rl:sw:''"

definition check_protected :: "rl_config \<Rightarrow> bool \<Rightarrow> moment \<Rightarrow> string \<Rightarrow> rl_store \<Rightarrow> Verdict \<times> rl_store" where
  "check_protected c up t identity = check_window c up t identity (protected_requests c) (protected_window_sec c) ''rl:auth:''"

section \<open>Identities\<close>

record rl_request =
  x_real_ip :: string
  x_forwarded_for :: string
  rl_peer :: string
  rl_subject :: "string option"

function hop_texts :: "string \<Rightarrow> string list" where
  "hop_texts s =
     (let rest = dropWhile (\<lambda>x. x \<noteq> CHR '','') s
      in takeWhile (\<lambda>x. x \<noteq> CHR '','') s # (if rest = [] then [] else hop_texts (tl rest)))"
  by pat_completeness auto

termination
proof (relation "measure length", goal_cases)
  case (2 s rest)
  then have "length (tl rest) < length rest" by (cases rest) simp_all
  also have "\<dots> \<le> length s" using 2 by (simp add: length_dropWhile_le)
  finally show ?case by simp
qed simp

declare hop_texts.simps [simp del]

definition hops :: "string \<Rightarrow> string list" where
  "hops xff = filter (\<lambda>h. h \<noteq> []) (map trim (hop_texts xff))"

definition client_ip :: "rl_request \<Rightarrow> bool \<Rightarrow> int \<Rightarrow> string" where
  "client_ip r trust count =
     (if \<not> trust then rl_peer r
      else if x_real_ip r \<noteq> [] then x_real_ip r
      else if x_forwarded_for r \<noteq> [] \<and> hops (x_forwarded_for r) \<noteq> [] then
        hops (x_forwarded_for r) ! nat (max 0 (int (length (hops (x_forwarded_for r))) - count))
      else rl_peer r)"

definition identity_for :: "rl_request \<Rightarrow> rl_config \<Rightarrow> string" where
  "identity_for r c =
     (let ip = client_ip r (trust_proxy c) (trusted_proxy_count c);
          user = (case rl_subject r of None \<Rightarrow> [] | Some u \<Rightarrow> u)
      in if rl_scope c = Ip \<or> user = [] then ''ip:'' @ ip else ''user:'' @ user)"

definition ip_identity :: "rl_request \<Rightarrow> rl_config \<Rightarrow> string" where
  "ip_identity r c = ''ip:'' @ client_ip r (trust_proxy c) (trusted_proxy_count c)"

section \<open>The cap\<close>

text \<open>A sequence of checks of both tiers, and the times at which one identity was let through.\<close>

datatype tier = General | Protected

definition tier_prefix :: "tier \<Rightarrow> string" where
  "tier_prefix t = (case t of General \<Rightarrow> ''rl:sw:'' | Protected \<Rightarrow> ''rl:auth:'')"

definition tier_limit :: "rl_config \<Rightarrow> tier \<Rightarrow> int" where
  "tier_limit c t = (case t of General \<Rightarrow> requests c | Protected \<Rightarrow> protected_requests c)"

definition tier_window :: "rl_config \<Rightarrow> tier \<Rightarrow> int" where
  "tier_window c t = (case t of General \<Rightarrow> window_sec c | Protected \<Rightarrow> protected_window_sec c)"

definition do_check :: "rl_config \<Rightarrow> bool \<Rightarrow> tier \<Rightarrow> moment \<Rightarrow> string \<Rightarrow> rl_store \<Rightarrow> Verdict \<times> rl_store" where
  "do_check c up t m who = (case t of General \<Rightarrow> check c up m who | Protected \<Rightarrow> check_protected c up m who)"

fun serve :: "rl_config \<Rightarrow> bool \<Rightarrow> (tier \<times> moment \<times> string) list \<Rightarrow> rl_store \<Rightarrow> (tier \<times> string \<times> int) list \<times> rl_store" where
  "serve c up [] s = ([], s)"
| "serve c up (x # xs) s =
     (case x of (t, m, who) \<Rightarrow>
      case do_check c up t m who s of (v, s1) \<Rightarrow>
      case serve c up xs s1 of (ys, s2) \<Rightarrow>
      ((if allowed v then [(t, who, app_ms m)] else []) @ ys, s2))"

definition let_in :: "tier \<Rightarrow> string \<Rightarrow> (tier \<times> string \<times> int) list \<Rightarrow> int list" where
  "let_in t who ys = map (\<lambda>(_, _, n). n) (filter (\<lambda>(t', who', _). t' = t \<and> who' = who) ys)"

text \<open>Times of the application do not go back, and Redis is at most half a second away.\<close>

definition steady :: "(tier \<times> moment \<times> string) list \<Rightarrow> bool" where
  "steady xs \<longleftrightarrow> sorted (map (\<lambda>(_, m, _). app_ms m) xs) \<and>
     (\<forall>(_, m, _) \<in> set xs. 0 < app_ms m \<and> \<bar>redis_ms m - app_ms m\<bar> \<le> 500)"

definition empty_limits :: rl_store where
  "empty_limits = \<lparr>windows = (\<lambda>_. \<lparr>marks = [], ends_at = None\<rparr>), counter = 0\<rparr>"

lemma serve_append: "serve c up (xs @ ys) s =
   (case serve c up xs s of (a, s1) \<Rightarrow> case serve c up ys s1 of (b, s2) \<Rightarrow> (a @ b, s2))"
  by (induction xs arbitrary: s) (auto split: prod.splits)

lemma do_check_unfold:
  "do_check c up t m who s = check_window c up m who (tier_limit c t) (tier_window c t) (tier_prefix t) s"
  by (cases t) (simp_all add: do_check_def check_def check_protected_def tier_limit_def tier_window_def tier_prefix_def)

lemma tier_key: "tier_prefix t @ who = tier_prefix t' @ who' \<longleftrightarrow> t = t' \<and> who = who'"
  by (cases t; cases t') (simp_all add: tier_prefix_def)

text \<open>If at every moment the trailing window holds at most \<open>n\<close>, so does every window.\<close>

definition after :: "int \<Rightarrow> int list \<Rightarrow> nat" where
  "after c xs = length (filter (\<lambda>x. c < x) xs)"

lemma filter_length_mono: "(\<And>x. P x \<Longrightarrow> Q x) \<Longrightarrow> length (filter P xs) \<le> length (filter Q xs)"
  by (induction xs) auto

lemma trailing_windows:
  assumes "\<forall>j < length xs. after (xs ! j - w) (take (Suc j) xs) \<le> n"
  shows "length (filter (\<lambda>x. t - w < x \<and> x \<le> t) xs) \<le> n"
  using assms
proof (induction xs rule: rev_induct)
  case (snoc x xs)
  have "\<forall>j < length xs. after (xs ! j - w) (take (Suc j) xs) \<le> n"
    using snoc.prems by (metis (no_types, lifting) Suc_leI butlast_snoc length_append_singleton less_SucI nth_append nth_append_length take_butlast take_Suc_conv_app_nth not_less_eq)
  note ih = snoc.IH [OF this]
  show ?case
  proof (cases "t - w < x \<and> x \<le> t")
    case True
    have "length (filter (\<lambda>y. t - w < y \<and> y \<le> t) (xs @ [x])) \<le> after (x - w) (xs @ [x])"
      unfolding after_def by (rule filter_length_mono) (use True in auto)
    also have "\<dots> \<le> n" using snoc.prems [rule_format, of "length xs"] by simp
    finally show ?thesis .
  next
    case False
    then show ?thesis using ih by auto
  qed
qed simp

text \<open>Names of entries: the counter can be read off.\<close>

lemma member_name_counter:
  assumes "member_name a i = member_name b j"
  shows "i = j"
proof -
  have t: "takeWhile (\<lambda>c. c \<noteq> CHR '':'') (rev (member_name a i)) = rev (dec (nat (uint i)))" for a and i :: "64 word"
  proof -
    have "c \<noteq> CHR '':''" if "c \<in> set (dec n)" for c n
      using dec_set_isdigit [OF that] by (auto simp: isdigit_def)
    then have "takeWhile (\<lambda>c. c \<noteq> CHR '':'') (rev (dec n) @ CHR '':'' # ys) = rev (dec n)" for n ys
      by (subst takeWhile_append2) auto
    then show ?thesis by (simp add: member_name_def to_string_def)
  qed
  have "dec (nat (uint i)) = dec (nat (uint j))" using t [of a i] t [of b j] assms by simp
  then have "unat i = unat j" by (metis dec_val_dec unat_eq_nat_uint)
  then show ?thesis by (simp add: word_unat_eq_iff)
qed

definition marks_after :: "int \<Rightarrow> window_set \<Rightarrow> nat" where
  "marks_after c z = length (filter (\<lambda>(_, s). c < s) (marks z))"

definition win_ok :: "int \<Rightarrow> nat \<Rightarrow> int \<Rightarrow> int list \<Rightarrow> window_set \<Rightarrow> bool" where
  "win_ok w n now xs z \<longleftrightarrow>
     (\<forall>c \<ge> now - w. after c xs \<le> marks_after c z) \<and>
     (\<forall>x \<in> set xs. x \<le> now \<and> (\<forall>t. ends_at z = Some t \<longrightarrow> now - w < x \<longrightarrow> x + w + 500 \<le> t)) \<and>
     (\<forall>j < length xs. after (xs ! j - w) (take (Suc j) xs) \<le> n)"

lemma win_ok_later: "win_ok w n now xs z \<Longrightarrow> now \<le> now' \<Longrightarrow> win_ok w n now' xs z"
  by (force simp: win_ok_def)

lemma after_none: "\<forall>x \<in> set xs. x \<le> c \<Longrightarrow> after c xs = 0"
  by (force simp: after_def filter_empty_conv)

lemma win_ok_alive:
  assumes z: "win_ok w n now xs z" and rt: "\<bar>rt - now\<bar> \<le> 500"
  shows "win_ok w n now xs (alive rt z)"
proof (cases "alive rt z = z")
  case False
  then obtain t where t: "ends_at z = Some t" "t \<le> rt" "alive rt z = \<lparr>marks = [], ends_at = None\<rparr>"
    by (auto simp: alive_def split: option.splits if_splits)
  have "\<forall>x \<in> set xs. x \<le> now - w"
  proof
    fix x assume "x \<in> set xs"
    with z t have "now - w < x \<longrightarrow> x + w + 500 \<le> t" by (auto simp: win_ok_def)
    with t rt show "x \<le> now - w" by auto
  qed
  then have "\<forall>c \<ge> now - w. after c xs = 0" by (intro allI impI after_none) auto
  with z t show ?thesis by (simp add: win_ok_def)
qed (use z in simp)

lemma win_ok_prune:
  assumes "win_ok w n now xs z"
  shows "win_ok w n now xs (z\<lparr>marks := prune (now - w) (marks z)\<rparr>)"
proof -
  have "marks_after c (z\<lparr>marks := prune (now - w) (marks z)\<rparr>) = marks_after c z" if "c \<ge> now - w" for c
    using that by (auto simp: marks_after_def prune_def intro!: arg_cong [where f = length] filter_cong)
  with assms show ?thesis by (simp add: win_ok_def)
qed

lemma win_ok_added:
  assumes z: "win_ok w n now xs z" and m: "m \<notin> fst ` set (marks z)" and rt: "\<bar>rt - now\<bar> \<le> 500"
  shows "win_ok w n now xs \<lparr>marks = zadd m now (marks z), ends_at = Some (rt + w + 1000)\<rparr>"
    and "length (marks z) < n \<Longrightarrow>
      win_ok w n now (xs @ [now]) \<lparr>marks = zadd m now (marks z), ends_at = Some (rt + w + 1000)\<rparr>"
proof -
  have "filter (\<lambda>(x, _). x \<noteq> m) (marks z) = marks z" using m by (force simp: filter_id_conv)
  then have za: "zadd m now (marks z) = marks z @ [(m, now)]" by (simp add: zadd_def)
  let ?z = "\<lparr>marks = zadd m now (marks z), ends_at = Some (rt + w + 1000)\<rparr>"
  have more: "marks_after c ?z = marks_after c z + (if c < now then 1 else 0)" for c by (simp add: marks_after_def za)
  show a: "win_ok w n now xs ?z" using z rt by (auto simp: win_ok_def more trans_le_add1)
  show "win_ok w n now (xs @ [now]) ?z" if l: "length (marks z) < n"
  proof -
    have "after (now - w) xs \<le> marks_after (now - w) z" using z by (simp add: win_ok_def)
    also have "\<dots> \<le> length (marks z)" by (simp add: marks_after_def)
    finally have "after (now - w) (xs @ [now]) \<le> n" using l by (simp add: after_def)
    moreover have "after c (xs @ [now]) \<le> marks_after c ?z" if "c \<ge> now - w" for c
      using z that by (simp add: win_ok_def more) (simp add: after_def)
    ultimately show ?thesis using a rt by (auto simp: win_ok_def nth_append less_Suc_eq)
  qed
qed

lemma slide_ok:
  assumes z: "win_ok w (nat limit) T xs z" and T: "T \<le> now" and rt: "\<bar>rt - now\<bar> \<le> 500" and m: "m \<notin> fst ` set (marks z)"
    and r: "sliding_window rt now w limit m z = ((ok, a, b), z')"
  shows "win_ok w (nat limit) now xs z'" and "ok \<Longrightarrow> win_ok w (nat limit) now (xs @ [now]) z'"
proof -
  let ?p = "(alive rt z)\<lparr>marks := prune (now - w) (marks (alive rt z))\<rparr>"
  have p: "win_ok w (nat limit) now xs ?p" by (rule win_ok_prune [OF win_ok_alive [OF win_ok_later [OF z T] rt]])
  have "set (marks ?p) \<subseteq> set (marks z)" by (auto simp: prune_def alive_def split: option.splits if_splits)
  with m have m': "m \<notin> fst ` set (marks ?p)" by blast
  note add = win_ok_added [OF p m' rt]
  show "win_ok w (nat limit) now xs z'" using r p add(1) by (auto simp: sliding_window_def Let_def split: if_splits)
  show "win_ok w (nat limit) now (xs @ [now]) z'" if ok
    using r that add(2) by (auto simp: sliding_window_def Let_def split: if_splits)
qed

definition names_ok :: "nat \<Rightarrow> rl_store \<Rightarrow> bool" where
  "names_ok n s \<longleftrightarrow> uint (counter s) \<le> int n \<and>
     (\<forall>k. \<forall>m \<in> fst ` set (marks (windows s k)). \<exists>a i. m = member_name a i \<and> uint i < uint (counter s))"

lemma marks_slide:
  "sliding_window rt now w limit m z = (r, z') \<Longrightarrow> fst ` set (marks z') \<subseteq> insert m (fst ` set (marks z))"
  by (auto simp: sliding_window_def Let_def prune_def alive_def zadd_def split: if_splits option.splits)

lemma names_fresh: "names_ok n s \<Longrightarrow> member_name a (counter s) \<notin> fst ` set (marks (windows s k))"
  unfolding names_ok_def using member_name_counter by fastforce

text \<open>What a check of an identity that is limited does: its window slides, the others stay.\<close>

lemma check_window_cases:
  assumes "rl_enabled c" and "\<not> exempt c who" and "fail_open c \<longrightarrow> up \<and> outcome m = Answered"
    and "check_window c up m who limit window pre s = (v, s')"
  shows "(\<not> allowed v \<and> windows s' = windows s \<and> counter s' \<in> {counter s, counter s + 1}) \<or>
     (\<exists>ok a b z'. sliding_window (redis_ms m) (app_ms m) (window * 1000) limit (member_name (app_ms m) (counter s)) (windows s (pre @ who))
          = ((ok, a, b), z') \<and> (allowed v \<longrightarrow> ok) \<and> windows s' = (windows s)(pre @ who := z') \<and> counter s' = counter s + 1)"
proof -
  obtain ok a b z' where sl: "sliding_window (redis_ms m) (app_ms m) (window * 1000) limit (member_name (app_ms m) (counter s))
      (windows s (pre @ who)) = ((ok, a, b), z')" by (metis prod.exhaust)
  show ?thesis using assms sl
    by (auto simp: check_window_def Let_def fallback_def verdict_of_def split: if_splits fault.splits)
qed

lemma counter_step: "uint (n :: 64 word) \<le> int k \<Longrightarrow> Suc k < 2 ^ 64 \<Longrightarrow> uint (n + 1) = uint n + 1"
  by (subst uint_plus_simple) (simp_all add: word_le_def uint_word_ariths)

lemma check_window_frame:
  assumes n: "names_ok n s" and l: "Suc n < 2 ^ 64" and r: "check_window c up m who limit window pre s = (v, s')"
  shows "names_ok (Suc n) s' \<and> (\<forall>k. k \<noteq> pre @ who \<longrightarrow> windows s' k = windows s k)"
proof -
  obtain r' z' where sl: "sliding_window (redis_ms m) (app_ms m) (window * 1000) limit (member_name (app_ms m) (counter s))
      (windows s (pre @ who)) = (r', z')" by fastforce
  have up1: "uint (counter s + 1) = uint (counter s) + 1" using n l counter_step by (auto simp: names_ok_def)
  have mono: "\<exists>a i. x = member_name a i \<and> uint i < uint (counter s) + 1"
    if "x \<in> insert (member_name (app_ms m) (counter s)) (fst ` set (marks (windows s k)))" for x k
    using that n unfolding names_ok_def by (metis insertE less_add_one order_less_trans)
  have "windows s' = windows s \<and> counter s' \<in> {counter s, counter s + 1} \<or>
      windows s' = (windows s)(pre @ who := z') \<and> counter s' = counter s + 1"
    using r sl by (auto simp: check_window_def Let_def split: if_splits fault.splits)
  then show ?thesis
  proof
    assume w: "windows s' = windows s \<and> counter s' \<in> {counter s, counter s + 1}"
    have "\<exists>a i. x = member_name a i \<and> uint i < uint (counter s')" if "x \<in> fst ` set (marks (windows s' k))" for x k
    proof -
      have "uint (counter s) \<le> uint (counter s')" using w up1 by auto
      moreover have "\<exists>a i. x = member_name a i \<and> uint i < uint (counter s)" using that w n by (metis names_ok_def)
      ultimately show ?thesis by force
    qed
    with w n up1 show ?thesis by (auto simp: names_ok_def)
  next
    assume w: "windows s' = (windows s)(pre @ who := z') \<and> counter s' = counter s + 1"
    have "\<exists>a i. x = member_name a i \<and> uint i < uint (counter s')" if "x \<in> fst ` set (marks (windows s' k))" for x k
    proof (rule mono [of x k, folded up1, folded conjunct2 [OF w]])
      show "x \<in> insert (member_name (app_ms m) (counter s)) (fst ` set (marks (windows s k)))"
        using that w marks_slide [OF sl] by (auto split: if_splits)
    qed
    with w n up1 show ?thesis by (auto simp: names_ok_def)
  qed
qed

definition limits_ok :: "rl_config \<Rightarrow> int \<Rightarrow> (tier \<times> string \<times> int) list \<Rightarrow> rl_store \<Rightarrow> bool" where
  "limits_ok c now ys s \<longleftrightarrow> (\<forall>t who. \<not> exempt c who \<longrightarrow>
     win_ok (tier_window c t * 1000) (nat (tier_limit c t)) now (let_in t who ys) (windows s (tier_prefix t @ who)))"

lemma limits_ok_check:
  assumes en: "rl_enabled c" and ok: "limits_ok c (app_ms m) ys s" and n: "names_ok n s" and l: "Suc n < 2 ^ 64"
    and fo: "fail_open c \<longrightarrow> up \<and> outcome m = Answered" and rt: "\<bar>redis_ms m - app_ms m\<bar> \<le> 500"
    and r: "do_check c up t m who s = (v, s')"
  shows "limits_ok c (app_ms m) (ys @ (if allowed v then [(t, who, app_ms m)] else [])) s'"
    (is "limits_ok c _ (ys @ ?y) s'")
  unfolding limits_ok_def
proof (intro allI impI)
  fix t' who' assume ex: "\<not> exempt c who'"
  let ?win = "\<lambda>xs z. win_ok (tier_window c t' * 1000) (nat (tier_limit c t')) (app_ms m) xs z"
  note r' = r [unfolded do_check_unfold]
  have old: "?win (let_in t' who' ys) (windows s (tier_prefix t' @ who'))" using ok ex by (simp add: limits_ok_def)
  show "?win (let_in t' who' (ys @ ?y)) (windows s' (tier_prefix t' @ who'))"
  proof (cases "t' = t \<and> who' = who")
    case False
    then have "let_in t' who' (ys @ ?y) = let_in t' who' ys" by (auto simp: let_in_def)
    moreover have "windows s' (tier_prefix t' @ who') = windows s (tier_prefix t' @ who')"
      using check_window_frame [OF n l r'] tier_key [of t' who' t who] False by blast
    ultimately show ?thesis using old by simp
  next
    case True
    then have y: "let_in t' who' (ys @ ?y) = let_in t' who' ys @ (if allowed v then [app_ms m] else [])"
      by (simp add: let_in_def)
    have ex': "\<not> exempt c who" using ex True by simp
    from check_window_cases [OF en ex' fo r'] show ?thesis
    proof (elim disjE exE conjE)
      assume "\<not> allowed v" "windows s' = windows s"
      with old True show ?thesis unfolding y by simp
    next
      fix ok a b z'
      assume sl: "sliding_window (redis_ms m) (app_ms m) (tier_window c t * 1000) (tier_limit c t) (member_name (app_ms m) (counter s))
          (windows s (tier_prefix t @ who)) = ((ok, a, b), z')"
        and al: "allowed v \<longrightarrow> ok" and w: "windows s' = (windows s)(tier_prefix t @ who := z')"
      note old' = old [unfolded conjunct1 [OF True] conjunct2 [OF True]]
      show ?thesis unfolding y
        using slide_ok [OF old' order_refl rt names_fresh [OF n] sl] al w True by (simp split: if_split)
    qed
  qed
qed

lemma limits_ok_later: "limits_ok c now ys s \<Longrightarrow> now \<le> now' \<Longrightarrow> limits_ok c now' ys s"
  unfolding limits_ok_def by (blast intro: win_ok_later)

lemma serve_ok:
  assumes en: "rl_enabled c" and st: "steady xs" and fo: "fail_open c \<longrightarrow> up \<and> (\<forall>(_, m, _) \<in> set xs. outcome m = Answered)"
    and l: "length xs < 2 ^ 64" and now: "\<forall>(_, m, _) \<in> set xs. app_ms m \<le> now" and r: "serve c up xs empty_limits = (ys, s)"
  shows "limits_ok c now ys s \<and> names_ok (length xs) s"
  using st fo l now r
proof (induction xs arbitrary: ys s now rule: rev_induct)
  case Nil
  then show ?case
    by (auto simp: limits_ok_def names_ok_def win_ok_def let_in_def empty_limits_def after_def)
next
  case (snoc x xs)
  obtain t m who where x: "x = (t, m, who)" by (cases x)
  obtain ys0 s0 where r0: "serve c up xs empty_limits = (ys0, s0)" by fastforce
  obtain v s1 where r1: "do_check c up t m who s0 = (v, s1)" by fastforce
  have ys: "ys = ys0 @ (if allowed v then [(t, who, app_ms m)] else [])" and s: "s = s1"
    using snoc.prems(5) by (simp_all add: serve_append r0 x r1)
  have st: "steady xs" "\<forall>(_, m', _) \<in> set xs. app_ms m' \<le> app_ms m" "\<bar>redis_ms m - app_ms m\<bar> \<le> 500"
    using snoc.prems(1) by (auto simp: steady_def sorted_append x)
  have ih: "limits_ok c (app_ms m) ys0 s0" "names_ok (length xs) s0"
    using snoc.IH [OF st(1) _ _ st(2) r0] snoc.prems(2, 3) by auto
  have l: "Suc (length xs) < 2 ^ 64" using snoc.prems(3) by simp
  have "limits_ok c (app_ms m) ys s" unfolding ys s
    using limits_ok_check [OF en ih l _ st(3) r1] snoc.prems(2) by (auto simp: x)
  moreover have "names_ok (Suc (length xs)) s"
    using check_window_frame [OF ih(2) l r1 [unfolded do_check_unfold]] s by simp
  ultimately show ?case using snoc.prems(4) limits_ok_later by (auto simp: x)
qed


section \<open>Three requests\<close>

definition two_per_second :: rl_config where
  "two_per_second =
     \<lparr>rl_enabled = True, requests = 2, window_sec = 1, protected_requests = 1, protected_window_sec = 1, rl_scope = Ip,
      trust_proxy = False, trusted_proxy_count = 1, fail_open = True, whitelist = [], rl_public_paths = [], protected_paths = []\<rparr>"

definition at_ms :: "int \<Rightarrow> tier \<times> moment \<times> string" where
  "at_ms n = (General, \<lparr>app_ms = n, redis_ms = n, outcome = Answered\<rparr>, ''ip:a'')"

lemma third_is_refused: "fst (serve two_per_second True [at_ms 1000, at_ms 1400, at_ms 1900, at_ms 2000] empty_limits) =
   [(General, ''ip:a'', 1000), (General, ''ip:a'', 1400), (General, ''ip:a'', 2000)]"
  by code_simp


text \<open>
  The counter in the name of an entry is one of the process: processes that start together give
  requests of the same millisecond the same name, \<open>ZADD\<close> keeps one entry for all of them, and they
  are let through without a limit.
\<close>

lemma processes_share_a_name:
  defines "m \<equiv> \<lparr>app_ms = 1000, redis_ms = 1000, outcome = Answered\<rparr>"
  assumes "s1 = snd (check two_per_second True m ''ip:a'' empty_limits)"
    and "s2 = snd (check two_per_second True m ''ip:a'' (s1\<lparr>counter := 0\<rparr>))"
  shows "allowed (fst (check two_per_second True m ''ip:a'' (s2\<lparr>counter := 0\<rparr>)))"
proof -
  have "allowed (fst (check two_per_second True m ''ip:a''
      ((snd (check two_per_second True m ''ip:a'' ((snd (check two_per_second True m ''ip:a'' empty_limits))\<lparr>counter := 0\<rparr>)))
        \<lparr>counter := 0\<rparr>)))"
    unfolding m_def by code_simp
  with assms show ?thesis by simp
qed

end
