(* ===== verification/InputPolicy.thy ===== *)
theory InputPolicy
  imports Validation AmountInWords MoneyFormat
begin

text \<open>
  What a client may put into a document and which amounts the server writes itself:
  \<^verbatim>\<open>src/src/docgen/InputPolicy.hpp\<close>. An input is the JSON object the controllers have checked it
  to be; a refused input is the triple of field, code and message the caller turns into a 422.
\<close>

section \<open>Templates\<close>

definition generate_slugs :: "string list" where
  "generate_slugs = [''invoice'', ''avr'', ''waybill'', ''tax_invoice'', ''reconciliation'']"

definition input_is_caller_authored :: "string \<Rightarrow> bool" where
  "input_is_caller_authored slug \<longleftrightarrow> slug \<in> set generate_slugs"

definition owning_endpoint :: "string \<Rightarrow> string" where
  "owning_endpoint slug =
     (if slug = ''payslip'' then ''POST /api/v1/payroll-runs/{id}/payslips/{employee_id}/generate-document''
      else if slug = ''fno_910'' \<or> slug = ''fno_300'' then ''POST /api/v1/tax/filings''
      else if slug = ''hr_order'' then ''POST /api/v1/hr-orders/{id}/generate-document''
      else if slug = ''labor_contract'' then ''POST /api/v1/labor-contracts/{id}/generate-document''
      else [])"

record DerivedAmount =
  tiyn_path :: string
  amount_path :: string
  words_path :: string
  components :: "(string \<times> string) list"
  optional_parts :: "(string \<times> string) list"

definition derived_amount_for :: "string \<Rightarrow> DerivedAmount option" where
  "derived_amount_for slug =
     (if slug = ''invoice'' \<or> slug = ''avr'' then
        Some \<lparr>tiyn_path = ''total_tiyn'', amount_path = ''total'', words_path = ''total_words'', components = [],
              optional_parts = [(''vat_tiyn'', ''vat_amount'')]\<rparr>
      else if slug = ''waybill'' then
        Some \<lparr>tiyn_path = ''total_tiyn'', amount_path = ''total'', words_path = ''total_words'', components = [],
              optional_parts = []\<rparr>
      else if slug = ''tax_invoice'' then
        Some \<lparr>tiyn_path = ''totals.with_vat_tiyn'', amount_path = ''totals.with_vat'', words_path = ''total_words'',
              components = [(''totals.amount_tiyn'', ''totals.amount''), (''totals.vat_tiyn'', ''totals.vat'')],
              optional_parts = []\<rparr>
      else None)"

definition editable_fields :: "string \<Rightarrow> string list" where
  "editable_fields slug =
     (if slug = ''fno_910'' \<or> slug = ''fno_300'' then [''director'', ''accountant'']
      else if slug = ''hr_order'' then [''director'', ''reason'', ''details'']
      else if slug = ''labor_contract'' then
        [''work_schedule'', ''probation_months'', ''employer.director'', ''employer.address'', ''employee.address'']
      else [])"

section \<open>Dotted paths\<close>

definition path_head :: "string \<Rightarrow> string" where
  "path_head path = takeWhile (\<lambda>c. c \<noteq> CHR ''.'') path"

definition path_rest :: "string \<Rightarrow> string option" where
  "path_rest path = (case dropWhile (\<lambda>c. c \<noteq> CHR ''.'') path of [] \<Rightarrow> None | _ # r \<Rightarrow> Some r)"

lemma path_rest_shorter [termination_simp]: "path_rest path = Some r \<Longrightarrow> length r < length path"
proof -
  assume "path_rest path = Some r"
  then obtain c where "dropWhile (\<lambda>c. c \<noteq> CHR ''.'') path = c # r"
    by (auto simp: path_rest_def split: list.splits)
  then have "length (c # r) \<le> length path" by (metis length_dropWhile_le)
  then show ?thesis by simp
qed

fun at_path :: "json \<Rightarrow> string \<Rightarrow> json option" where
  "at_path node path =
     (case member node (path_head path) of
        None \<Rightarrow> None
      | Some n \<Rightarrow> (case path_rest path of None \<Rightarrow> Some n | Some r \<Rightarrow> at_path n r))"

fun set_path :: "(string \<times> json) list \<Rightarrow> string \<Rightarrow> json \<Rightarrow> (string \<times> json) list" where
  "set_path m path v =
     (case path_rest path of
        None \<Rightarrow> put path v m
      | Some r \<Rightarrow>
          let inner = (case map_of m (path_head path) of Some (JObj x) \<Rightarrow> x | _ \<Rightarrow> [])
          in put (path_head path) (JObj (set_path inner r v)) m)"

declare at_path.simps [simp del] set_path.simps [simp del]

section \<open>Amounts\<close>

datatype policy_fault =
  Refused string string string
| Threw money_error

definition quoted :: "string \<Rightarrow> string" where
  "quoted s = CHR 0x27 # s @ [CHR 0x27]"

definition read_tiyn :: "json \<Rightarrow> string \<Rightarrow> policy_fault + int" where
  "read_tiyn input path =
     (case at_path input path of
        None \<Rightarrow> Inl (Refused (''input.'' @ path) ''missing''
                  (quoted path @ '' is required '' @ utf8 [0x2014] @ '' money is carried as an integer number of tiyn''))
      | Some (JInt v) \<Rightarrow>
          if v < 0 \<or> v > kMaxTiyn then
            Inl (Refused (''input.'' @ path) ''out_of_range''
                   (quoted path @ '' must be between 0 and '' @ to_string kMaxTiyn @ '' tiyn inclusive''))
          else Inr v
      | Some _ \<Rightarrow> Inl (Refused (''input.'' @ path) ''not_integer'' (quoted path @ '' must be an integer number of tiyn'')))"

definition server_written :: "DerivedAmount \<Rightarrow> string list" where
  "server_written da = [amount_path da, words_path da] @ map snd (components da) @ map snd (optional_parts da)"

fun refuse_supplied :: "json \<Rightarrow> string list \<Rightarrow> policy_fault + unit" where
  "refuse_supplied input [] = Inr ()"
| "refuse_supplied input (path # paths) =
     (if at_path input path \<noteq> None then
        Inl (Refused (''input.'' @ path) ''not_allowed_override''
               (quoted path @ '' is formatted by the server from the integer tiyn fields and may not be '' @
                ''supplied by the client''))
      else refuse_supplied input paths)"

fun read_components :: "json \<Rightarrow> (string \<times> string) list \<Rightarrow> policy_fault + int list" where
  "read_components input [] = Inr []"
| "read_components input (c # cs) =
     rbind (read_tiyn input (fst c)) (\<lambda>v. rbind (read_components input cs) (\<lambda>vs. Inr (v # vs)))"

fun parts_text :: "(string \<times> string) list \<Rightarrow> int list \<Rightarrow> bool \<Rightarrow> string" where
  "parts_text (c # cs) (v # vs) first =
     (if first then [] else '' + '') @ fst c @ '' ('' @ to_string v @ '')'' @ parts_text cs vs False"
| "parts_text _ _ _ = []"

definition check_breakdown :: "DerivedAmount \<Rightarrow> int list \<Rightarrow> int \<Rightarrow> policy_fault + unit" where
  "check_breakdown da vals total_tiyn =
     (if components da \<noteq> [] \<and> sum_list vals \<noteq> total_tiyn then
        Inl (Refused (''input.'' @ tiyn_path da) ''inconsistent_total''
               (parts_text (components da) vals True @ '' = '' @ to_string (sum_list vals) @
                '' tiyn, which does not equal '' @ tiyn_path da @ '' ('' @ to_string total_tiyn @ '')''))
      else Inr ())"

fun read_optional :: "json \<Rightarrow> string \<Rightarrow> int \<Rightarrow> (string \<times> string) list \<Rightarrow> policy_fault + (string \<times> int) list" where
  "read_optional input tpath total_tiyn [] = Inr []"
| "read_optional input tpath total_tiyn (p # ps) =
     (if at_path input (fst p) = None then read_optional input tpath total_tiyn ps
      else
        rbind (read_tiyn input (fst p)) (\<lambda>v.
        if v > total_tiyn then
          Inl (Refused (''input.'' @ fst p) ''exceeds_total''
                 (quoted (fst p) @ '' ('' @ to_string v @ '' tiyn) is larger than '' @ tpath @ '' ('' @ to_string total_tiyn @
                  '' tiyn) '' @ utf8 [0x2014] @ '' a part of the amount due cannot exceed the amount due''))
        else rbind (read_optional input tpath total_tiyn ps) (\<lambda>vs. Inr ((snd p, v) # vs))))"

definition money_text :: "money_error + string \<Rightarrow> policy_fault + json" where
  "money_text x = (case x of Inl e \<Rightarrow> Inl (Threw e) | Inr s \<Rightarrow> Inr (JStr s))"

fun write_amounts :: "(string \<times> int) list \<Rightarrow> (string \<times> json) list \<Rightarrow> policy_fault + (string \<times> json) list" where
  "write_amounts [] m = Inr m"
| "write_amounts ((path, v) # ps) m =
     rbind (money_text (format_tiyn_ru v)) (\<lambda>s. write_amounts ps (set_path m path s))"

definition apply_derived_amount :: "string \<Rightarrow> (string \<times> json) list \<Rightarrow> policy_fault + (string \<times> json) list" where
  "apply_derived_amount slug m =
     (case derived_amount_for slug of
        None \<Rightarrow> Inr m
      | Some da \<Rightarrow>
          rbind (refuse_supplied (JObj m) (server_written da)) (\<lambda>_.
          rbind (read_tiyn (JObj m) (tiyn_path da)) (\<lambda>total_tiyn.
          rbind (read_components (JObj m) (components da)) (\<lambda>vals.
          rbind (check_breakdown da vals total_tiyn) (\<lambda>_.
          rbind (read_optional (JObj m) (tiyn_path da) total_tiyn (optional_parts da)) (\<lambda>opts.
          rbind (money_text (format_tiyn_ru total_tiyn)) (\<lambda>amount.
          rbind (money_text (to_words_ru total_tiyn)) (\<lambda>words.
          write_amounts (zip (map snd (components da)) vals @ opts)
            (set_path (set_path m (amount_path da) amount) (words_path da) words)))))))))"

section \<open>The seller\<close>

record SellerRequisites =
  seller_name :: string
  seller_identifier :: string
  seller_address :: string
  seller_iik :: string
  seller_bank :: string
  seller_bik :: string
  seller_kbe :: string
  vat_certificate :: string

definition seller_is_the_organization :: "string \<Rightarrow> bool" where
  "seller_is_the_organization slug \<longleftrightarrow> slug \<in> {''invoice'', ''avr'', ''waybill'', ''tax_invoice''}"

definition seller_party :: "string \<Rightarrow> SellerRequisites \<Rightarrow> json" where
  "seller_party slug s =
     (let keep = (\<lambda>k x m. if x \<noteq> [] then put k (JStr x) m else m)
      in JObj ((if slug = ''tax_invoice'' then keep ''vat_certificate'' (vat_certificate s) else (\<lambda>m. m))
           (keep ''kbe'' (seller_kbe s) (keep ''bik'' (seller_bik s) (keep ''bank'' (seller_bank s)
             (keep ''iik'' (seller_iik s) (keep ''address'' (seller_address s)
               (put ''identifier'' (JStr (seller_identifier s)) (put ''name'' (JStr (seller_name s)) [])))))))))"

definition apply_seller_requisites ::
  "string \<Rightarrow> (string \<times> json) list \<Rightarrow> SellerRequisites \<Rightarrow> policy_fault + (string \<times> json) list" where
  "apply_seller_requisites slug m s =
     (if \<not> seller_is_the_organization slug then Inr m
      else if map_of m ''seller'' \<noteq> None then
        Inl (Refused ''input.seller'' ''not_allowed_override''
               (quoted ''seller'' @ '' is filled in by the server from the organization'' @ [CHR 0x27] @
                ''s own requisites and may not be supplied by the client''))
      else Inr (put ''seller'' (seller_party slug s) m))"

section \<open>Paths that do not meet\<close>

lemma path_eval:
  "path_rest [] = None" "path_head [] = []"
  "path_rest (c # cs) = (if c = CHR ''.'' then Some cs else path_rest cs)"
  "path_head (c # cs) = (if c = CHR ''.'' then [] else c # path_head cs)"
  by (simp_all add: path_rest_def path_head_def)

lemma path_simple: "path_rest p = None \<Longrightarrow> path_head p = p"
  by (induction p) (auto simp: path_eval split: if_splits)

lemma at_set_same: "at_path (JObj (set_path m p v)) p = Some v"
proof (induction m p v rule: set_path.induct)
  case (1 m p v)
  show ?case
  proof (cases "path_rest p")
    case None
    then show ?thesis by (simp add: at_path.simps [of _ p] set_path.simps [of m p] path_simple)
  next
    case (Some r)
    with 1 show ?thesis by (simp add: at_path.simps [of _ p] set_path.simps [of m p] Let_def)
  qed
qed

text \<open>A path is left alone by a write elsewhere in its object, or in another member.\<close>

lemma at_set_other_head: "path_head q \<noteq> path_head p \<Longrightarrow> at_path (JObj (set_path m p v)) q = at_path (JObj m) q"
  by (auto simp: at_path.simps [of _ q] set_path.simps [of m p] Let_def path_simple split: option.splits)

lemma at_set_same_head:
  assumes "path_head q = path_head p" "path_rest p = Some r" "path_rest q = Some r'" "path_head r' \<noteq> path_head r"
    and "at_path (JObj m) q \<noteq> None"
  shows "at_path (JObj (set_path m p v)) q = at_path (JObj m) q"
proof -
  obtain n where n: "map_of m (path_head q) = Some n" and at: "at_path n r' \<noteq> None"
    using assms(3,5) by (auto simp: at_path.simps [of _ q] split: option.splits)
  then obtain x where x: "n = JObj x" by (cases n) (auto simp: at_path.simps [of _ r'])
  with n assms show ?thesis
    by (simp add: at_path.simps [of _ q] set_path.simps [of m p] at_set_other_head)
qed

lemmas set_path_keeps = at_set_same at_set_other_head at_set_same_head


section \<open>Accepted amounts\<close>

lemma read_tiyn_Inr: "read_tiyn input path = Inr v \<longleftrightarrow> at_path input path = Some (JInt v) \<and> 0 \<le> v \<and> v \<le> kMaxTiyn"
  by (auto simp: read_tiyn_def split: option.splits json.splits)

lemma money_text_Inr: "money_text x = Inr j \<longleftrightarrow> (\<exists>s. x = Inr s \<and> j = JStr s)"
  by (auto simp: money_text_def split: sum.splits)

lemma refuse_supplied_Inr: "refuse_supplied input paths = Inr u \<longleftrightarrow> (\<forall>p \<in> set paths. at_path input p = None)"
  by (induction paths) auto

definition printed :: "(string \<times> json) list \<Rightarrow> string \<Rightarrow> string \<Rightarrow> int \<Rightarrow> bool" where
  "printed m tiyn_at text_at v \<longleftrightarrow>
     at_path (JObj m) tiyn_at = Some (JInt v) \<and> (\<exists>s. at_path (JObj m) text_at = Some (JStr s) \<and> format_tiyn_ru v = Inr s)"

lemma words_read: "0 \<le> v \<Longrightarrow> v \<le> kMaxTiyn \<Longrightarrow> to_words_ru v = Inr w \<Longrightarrow> read_amount read_ru w = v"
  using ru.read_say [of v] by (simp add: to_words_ru_say kMaxTiyn_def)

lemmas policy_evals = path_eval set_path_keeps read_tiyn_Inr money_text_Inr refuse_supplied_Inr server_written_def
  check_breakdown_def printed_def



end
