(* ===== verification/DocumentsApi.thy ===== *)
theory DocumentsApi
  imports RenderJob InputPolicy OrgPermissions Strings Journal
begin

text \<open>
  The HTTP handlers on documents: \<^verbatim>\<open>src/src/api/LedgerDocumentsController.hpp\<close> and \<open>generate\<close> of
  \<^verbatim>\<open>src/src/api/DocgenController.hpp\<close>. A handler answers an error response (\<open>Inl\<close>) or the value its
  success response carries (\<open>Inr\<close>), and the ones that write return the new state. \<open>api_state\<close>
  is the documents, the audit log and the payloads put into the job queue.

  The caller's organization, user and role (\<open>API_REQUIRE_ORG\<close>) are the record \<open>OrgContext\<close>. What
  the handlers ask of the outside is \<open>api_env\<close>: the presigning backend if there is one, whether
  storage is up and has an object, the newest template of a slug and the schema validator, the
  seller's requisites, and the job queue. Reads that may go to a replica take it as \<open>rd\<close>.
\<close>

record OrgContext =
  oc_org :: string
  oc_user :: string
  oc_role :: string

record audit_entry =
  au_actor :: string
  au_action :: string
  au_type :: string
  au_target :: string
  au_details :: json

record api_state =
  docs :: doc_db
  audit :: "audit_entry list"
  queue :: "json list"

record template_info =
  tpl_slug :: string
  tpl_version :: string
  tpl_schema :: json

record api_env =
  presign :: "(string \<Rightarrow> string \<Rightarrow> int \<Rightarrow> string) option"
  storage_up :: bool
  object_exists :: "string \<Rightarrow> bool"
  template_latest :: "string \<Rightarrow> template_info option"
  validate_schema :: "json \<Rightarrow> json \<Rightarrow> string option"
  load_seller :: "string \<Rightarrow> SellerRequisites"
  jobs_ready :: bool
  submit_works :: bool

section \<open>Guards\<close>

definition denied :: "string \<Rightarrow> response" where
  "denied what = forbidden ''org_role_denied'' (''Your role in this organization is not allowed to '' @ what)"

definition require_org_perm :: "OrgContext \<Rightarrow> string \<Rightarrow> string \<Rightarrow> response + unit" where
  "require_org_perm ctx res act =
     (if allows (oc_role ctx) res act then Inr () else Inl (denied (act @ '' '' @ res)))"

definition require_uuid :: "string \<Rightarrow> response + unit" where
  "require_uuid i = (if is_uuid_segment i then Inr () else Inl (bad_request ''invalid_id'' ''Malformed document id'' (JObj [])))"

definition require_jobs :: "api_env \<Rightarrow> response + unit" where
  "require_jobs e =
     (if jobs_ready e then Inr () else Inl (service_unavailable ''jobs_disabled'' ''Job queue not enabled''))"

definition sql_failed :: response where
  "sql_failed = internal_error ''internal_error'' []"

definition resource_for :: "Document \<Rightarrow> string" where
  "resource_for doc =
     (if doc_type doc = ''payroll'' then kPayroll else if doc_type doc = ''hr'' then kHrDocs else kDocuments)"

definition ensure_document_access :: "OrgContext \<Rightarrow> Document \<Rightarrow> string \<Rightarrow> response + unit" where
  "ensure_document_access ctx doc act =
     (if allows (oc_role ctx) (resource_for doc) act then Inr () else Inl (denied (act @ '' this document'')))"

text \<open>The opening of every handler on one document.\<close>

definition open_document :: "OrgContext \<Rightarrow> string \<Rightarrow> string \<Rightarrow> doc_db \<Rightarrow> response + Document" where
  "open_document ctx act i d =
     (case find_document d i (oc_org ctx) of
        None \<Rightarrow> Inl (not_found ''document'')
      | Some doc \<Rightarrow> rbind (ensure_document_access ctx doc act) (\<lambda>_. Inr doc))"

definition allowed_doc_types :: "string list" where
  "allowed_doc_types = [''invoice'', ''avr'', ''waybill'', ''tax_invoice'', ''reconciliation'', ''power_of_attorney'', ''incoming'',
     ''bank_statement'', ''hr'', ''payroll'', ''fno'', ''other'']"

definition allowed_statuses :: "string list" where
  "allowed_statuses = [''inbox'', ''recognized'', ''linked'', ''archived'', ''draft'', ''final'', ''sent'']"

definition is_plain_filename :: "string \<Rightarrow> bool" where
  "is_plain_filename f \<longleftrightarrow>
     f \<noteq> [] \<and> length f \<le> 255 \<and> hd f \<noteq> CHR ''.'' \<and>
     \<not> list_ex (\<lambda>i. take 2 (drop i f) = ''..'') [0..<length f] \<and>
     list_all (\<lambda>c. 0x20 \<le> (of_char c :: nat) \<and> c \<noteq> CHR ''/'' \<and> c \<noteq> CHR 0x5C) f"

definition parse_version_no :: "string \<Rightarrow> int option" where
  "parse_version_no s =
     (if s = [] \<or> length s > 9 \<or> \<not> list_all isdigit s then None
      else case stoi s of Inl _ \<Rightarrow> None | Inr v \<Rightarrow> if v \<le> 0 then None else Some v)"

section \<open>Reads\<close>

definition filter_param :: "string \<Rightarrow> string \<Rightarrow> string list \<Rightarrow> string \<Rightarrow> errors \<Rightarrow> errors \<times> string option" where
  "filter_param field param allowed what errs =
     (if param = [] then (errs, None)
      else if param \<in> set allowed then (errs, Some param)
      else (add_error errs field ''not_allowed'' (''must be one of the registered document '' @ what), None))"

definition list_docs ::
  "OrgContext \<Rightarrow> (string \<Rightarrow> string) \<Rightarrow> doc_db \<Rightarrow> response + (Document list \<times> int \<times> int \<times> int)" where
  "list_docs ctx q rd =
     (let may_read_all = allows (oc_role ctx) kDocuments kRead;
          may_read_hr = allows (oc_role ctx) kHrDocs kRead
      in if \<not> may_read_all \<and> \<not> may_read_hr then Inl (denied ''read documents'')
         else
           case filter_param ''type'' (q ''type'') allowed_doc_types ''types'' [] of
             (errs1, type_filter) \<Rightarrow>
               case filter_param ''status'' (q ''status'') allowed_statuses ''statuses'' errs1 of
                 (errs, status_filter) \<Rightarrow>
                   if errs \<noteq> [] then Inl (response_422_all errs)
                   else
                     let ty = (if may_read_all then type_filter else Some ''hr'');
                         (limit, offset) = parse_page_params q 50 200
                     in Inr (list_documents rd (oc_org ctx) ty status_filter (nat limit) (nat offset),
                             int (count_documents rd (oc_org ctx) ty status_filter), limit, offset))"

definition get_doc :: "OrgContext \<Rightarrow> string \<Rightarrow> doc_db \<Rightarrow> response + Document" where
  "get_doc ctx i rd = rbind (require_uuid i) (\<lambda>_. open_document ctx kRead i rd)"

definition presigned :: "api_env \<Rightarrow> string option \<Rightarrow> string \<Rightarrow> response + string" where
  "presigned e key missing =
     (case key of
        None \<Rightarrow> Inl (conflict ''no_file'' missing)
      | Some k \<Rightarrow>
          if k = [] then Inl (conflict ''no_file'' missing)
          else
            case presign e of
              None \<Rightarrow> Inl (service_unavailable ''presign_unsupported'' ''Presigned URLs require the S3 storage backend'')
            | Some f \<Rightarrow> Inr (f k ''GET'' 300))"

definition download_url :: "api_env \<Rightarrow> OrgContext \<Rightarrow> string \<Rightarrow> doc_db \<Rightarrow> response + string" where
  "download_url e ctx i rd =
     rbind (require_uuid i) (\<lambda>_.
     rbind (open_document ctx kRead i rd) (\<lambda>doc.
     presigned e (doc_s3_key doc) ''This document has no stored file yet''))"

definition doc_versions :: "OrgContext \<Rightarrow> string \<Rightarrow> doc_db \<Rightarrow> response + DocumentVersion list" where
  "doc_versions ctx i rd =
     rbind (require_uuid i) (\<lambda>_.
     rbind (open_document ctx kRead i rd) (\<lambda>doc.
     Inr (list_versions rd (oc_org ctx) i)))"

definition version_download_url :: "api_env \<Rightarrow> OrgContext \<Rightarrow> string \<Rightarrow> string \<Rightarrow> doc_db \<Rightarrow> response + string" where
  "version_download_url e ctx i no_param rd =
     rbind (require_uuid i) (\<lambda>_.
     case parse_version_no no_param of
       None \<Rightarrow> Inl (bad_request ''invalid_version'' ''Version number must be a positive integer'' (JObj []))
     | Some n \<Rightarrow>
         rbind (open_document ctx kRead i rd) (\<lambda>doc.
         case find_version rd (oc_org ctx) i n of
           None \<Rightarrow> Inl (not_found ''document_version'')
         | Some v \<Rightarrow> presigned e (ver_s3_key v) ''This version has no stored file yet''))"

section \<open>Uploads\<close>

definition must_be_string :: "errors \<Rightarrow> json \<Rightarrow> string \<Rightarrow> errors" where
  "must_be_string errs b field =
     (case member b field of
        None \<Rightarrow> errs
      | Some j \<Rightarrow> if is_string j then errs else add_error errs field ''not_string'' ''must be a string'')"

definition text_of :: "json \<Rightarrow> string \<Rightarrow> string" where
  "text_of b field = (case member b field of Some (JStr s) \<Rightarrow> s | _ \<Rightarrow> [])"

definition int_of :: "json \<Rightarrow> string \<Rightarrow> int" where
  "int_of b field = (case member b field of Some (JInt n) \<Rightarrow> n | _ \<Rightarrow> 0)"

definition upload_shape :: "json \<Rightarrow> errors" where
  "upload_shape b =
     (let e1 = fst (require [] b ''filename''); e2 = fst (require e1 b ''mime''); e3 = fst (require e2 b ''doc_type'')
      in must_be_string (must_be_string (must_be_string e3 b ''filename'') b ''mime'') b ''doc_type'')"

definition upload_values :: "json \<Rightarrow> errors" where
  "upload_values b =
     one_of (if is_plain_filename (text_of b ''filename'') then []
             else add_error [] ''filename'' ''invalid_filename'' ''must be a plain file name'')
       b ''doc_type'' allowed_doc_types"

definition start_upload ::
  "api_env \<Rightarrow> db \<Rightarrow> (nat \<Rightarrow> string) \<Rightarrow> int \<Rightarrow> OrgContext \<Rightarrow> json option \<Rightarrow> api_state \<Rightarrow>
   (response + Document option \<times> string) \<times> api_state" where
  "start_upload e j gen now ctx req s =
     (case rbind (require_org_perm ctx kDocuments kWrite) (\<lambda>_. parse_body req) of
        Inl r \<Rightarrow> (Inl r, s)
      | Inr b \<Rightarrow>
          if upload_shape b \<noteq> [] then (Inl (response_400 (upload_shape b)), s)
          else if upload_values b \<noteq> [] then (Inl (response_422_all (upload_values b)), s)
          else
            case presign e of
              None \<Rightarrow> (Inl (service_unavailable ''presign_unsupported'' ''Presigned URLs require the S3 storage backend''), s)
            | Some f \<Rightarrow>
                let key = org_key (gen 2) (oc_org ctx) ''inbox'' (text_of b ''filename'')
                in case create_document j gen now (oc_org ctx) (text_of b ''doc_type'') ''uploaded'' ''draft'' None None None
                          (Some (object [(''original_filename'', JStr (text_of b ''filename''))])) None (docs s) of
                     Inl _ \<Rightarrow> (Inl sql_failed, s)
                   | Inr (_, d1) \<Rightarrow>
                       let d2 = snd (set_pending_upload (oc_org ctx) (gen 0) key (text_of b ''mime'') d1)
                       in (Inr (find_document d2 (gen 0) (oc_org ctx), f key ''PUT'' 600), s\<lparr>docs := d2\<rparr>))"

definition confirm_shape :: "json \<Rightarrow> errors" where
  "confirm_shape b =
     (let e1 = fst (require [] b ''size_bytes''); e2 = fst (require e1 b ''checksum_sha256'');
          e3 = (case member b ''size_bytes'' of
                  None \<Rightarrow> e2
                | Some j \<Rightarrow> if is_number_integer j then e2 else add_error e2 ''size_bytes'' ''not_integer'' ''must be an integer'')
      in must_be_string e3 b ''checksum_sha256'')"

definition sha256_text :: "string \<Rightarrow> bool" where
  "sha256_text s \<longleftrightarrow> length s = 64 \<and> list_all (\<lambda>c. isdigit c \<or> c \<in> set ''abcdef'') s"

definition confirm_values :: "json \<Rightarrow> errors" where
  "confirm_values b =
     regex_match (int_range [] b ''size_bytes'' 0 (10 * 1024 * 1024 * 1024)) b ''checksum_sha256'' sha256_text
       ''64 lowercase hex characters''"

text \<open>What a confirmation has to find; the key and version it then writes to.\<close>

definition confirmable :: "api_env \<Rightarrow> OrgContext \<Rightarrow> string \<Rightarrow> doc_db \<Rightarrow> response + (string \<times> string \<times> string)" where
  "confirmable e ctx i d =
     (case find_document d i (oc_org ctx) of
        None \<Rightarrow> Inl (not_found ''document'')
      | Some doc \<Rightarrow>
          if doc_source doc \<noteq> ''uploaded'' \<or> doc_status doc \<noteq> ''draft'' then
            Inl (conflict ''invalid_state'' ''confirm-upload is only valid for draft uploaded documents'')
          else
            case doc_s3_key doc of
              None \<Rightarrow> Inl (conflict ''no_pending_upload'' ''No upload was started for this document'')
            | Some key \<Rightarrow>
                if key = [] then Inl (conflict ''no_pending_upload'' ''No upload was started for this document'')
                else if \<not> object_exists e key then
                  Inl (conflict ''object_missing'' ''The uploaded object was not found in storage'')
                else
                  case doc_current_version doc of
                    None \<Rightarrow> Inl (conflict ''no_pending_upload'' ''No upload was started for this document'')
                  | Some ver \<Rightarrow> Inr (ver, key, case doc_mime doc of None \<Rightarrow> [] | Some m \<Rightarrow> m))"

definition confirm_write ::
  "OrgContext \<Rightarrow> string \<Rightarrow> json \<Rightarrow> (string \<times> string \<times> string) \<Rightarrow> doc_db \<Rightarrow> (response + unit) \<times> doc_db" where
  "confirm_write ctx i b target d =
     (case target of (ver, key, mime) \<Rightarrow>
        case set_version_file (oc_org ctx) ver key (text_of b ''checksum_sha256'') mime (int_of b ''size_bytes'') None d of
          Inl _ \<Rightarrow> (Inl sql_failed, d)
        | Inr (_, d1) \<Rightarrow>
            case set_status (oc_org ctx) i ''final'' d1 of
              Inl _ \<Rightarrow> (Inl sql_failed, d1)
            | Inr (_, d2) \<Rightarrow> (Inr (), d2))"

definition confirm_upload ::
  "api_env \<Rightarrow> OrgContext \<Rightarrow> string \<Rightarrow> json option \<Rightarrow> api_state \<Rightarrow> (response + Document option) \<times> api_state" where
  "confirm_upload e ctx i req s =
     (case rbind (require_org_perm ctx kDocuments kWrite) (\<lambda>_. rbind (require_uuid i) (\<lambda>_. parse_body req)) of
        Inl r \<Rightarrow> (Inl r, s)
      | Inr b \<Rightarrow>
          if confirm_shape b \<noteq> [] then (Inl (response_400 (confirm_shape b)), s)
          else if confirm_values b \<noteq> [] then (Inl (response_422_all (confirm_values b)), s)
          else if \<not> storage_up e then
            (Inl (service_unavailable ''storage_unavailable'' ''Object storage is not configured''), s)
          else
            case confirmable e ctx i (docs s) of
              Inl r \<Rightarrow> (Inl r, s)
            | Inr target \<Rightarrow>
                case confirm_write ctx i b target (docs s) of
                  (Inl r, d) \<Rightarrow> (Inl r, s\<lparr>docs := d\<rparr>)
                | (Inr _, d) \<Rightarrow> (Inr (find_document d i (oc_org ctx)), s\<lparr>docs := d\<rparr>))"

section \<open>Generating and editing\<close>

definition policy_reply :: "policy_fault + 'a \<Rightarrow> response + 'a" where
  "policy_reply x =
     (case x of
        Inr a \<Rightarrow> Inr a
      | Inl (Refused field code message) \<Rightarrow> Inl (response_422 field code message)
      | Inl (Threw _) \<Rightarrow> Inl sql_failed)"

definition authored_input :: "api_env \<Rightarrow> OrgContext \<Rightarrow> string \<Rightarrow> (string \<times> json) list \<Rightarrow> response + json" where
  "authored_input e ctx slug m =
     rbind (policy_reply (apply_derived_amount slug m)) (\<lambda>m1.
     rbind (policy_reply (apply_seller_requisites slug m1 (load_seller e (oc_org ctx)))) (\<lambda>m2.
     Inr (JObj m2)))"

definition schema_check :: "api_env \<Rightarrow> template_info \<Rightarrow> json \<Rightarrow> response + unit" where
  "schema_check e info input =
     (case validate_schema e (tpl_schema info) input of
        None \<Rightarrow> Inr ()
      | Some err \<Rightarrow> Inl (response_422 ''input'' ''schema_validation_failed'' err))"

definition render_payload :: "string \<Rightarrow> string \<Rightarrow> string \<Rightarrow> string \<Rightarrow> json \<Rightarrow> json" where
  "render_payload org i ver slug input =
     object [(''org_id'', JStr org), (''document_id'', JStr i), (''version_id'', JStr ver), (''slug'', JStr slug),
             (''input'', input)]"

definition enqueue :: "api_env \<Rightarrow> json \<Rightarrow> api_state \<Rightarrow> bool \<times> api_state" where
  "enqueue e payload s = (if submit_works e then (True, s\<lparr>queue := queue s @ [payload]\<rparr>) else (False, s))"

definition optional_uuid :: "json \<Rightarrow> string \<Rightarrow> errors \<Rightarrow> errors" where
  "optional_uuid b field errs =
     (case member b field of
        None \<Rightarrow> errs
      | Some JNull \<Rightarrow> errs
      | Some (JStr t) \<Rightarrow> if is_uuid_segment t then errs else add_error errs field ''bad_format'' ''must be a uuid''
      | Some _ \<Rightarrow> add_error errs field ''bad_format'' ''must be a uuid'')"

definition must_be_object :: "errors \<Rightarrow> json \<Rightarrow> string \<Rightarrow> errors" where
  "must_be_object errs b field =
     (case member b field of
        None \<Rightarrow> errs
      | Some j \<Rightarrow> if is_object j then errs else add_error errs field ''not_object'' ''must be a JSON object'')"

definition generate_shape :: "json \<Rightarrow> errors" where
  "generate_shape b =
     optional_uuid b ''link_entry_id'' (optional_uuid b ''counterparty_id''
       (must_be_object (must_be_string (fst (require [] b ''template_slug'')) b ''template_slug'') b ''input''))"

definition client_input :: "json \<Rightarrow> (string \<times> json) list" where
  "client_input b = (case member b ''input'' of Some (JObj m) \<Rightarrow> m | _ \<Rightarrow> [])"

definition unsupported_template :: "string \<Rightarrow> response" where
  "unsupported_template slug =
     response_422 ''template_slug'' ''unsupported_template''
       (''template '' @ quoted slug @ '' is not generated through this endpoint '' @ utf8 [0x2014] @ '' '' @
        (if owning_endpoint slug = [] then ''no endpoint generates it''
         else ''use '' @ owning_endpoint slug @ '', which holds the authoritative data for it''))"

text \<open>Everything that is checked before a document is created; reads of other tables go to the replica.\<close>

definition generate_check ::
  "api_env \<Rightarrow> db \<Rightarrow> OrgContext \<Rightarrow> json option \<Rightarrow>
   response + (string \<times> json \<times> template_info \<times> string option \<times> string option)" where
  "generate_check e rj ctx req =
     rbind (require_org_perm ctx kDocuments kWrite) (\<lambda>_.
     rbind (parse_body req) (\<lambda>b.
     if generate_shape b \<noteq> [] then Inl (response_400 (generate_shape b))
     else
       let slug = text_of b ''template_slug''; cp = opt_string b ''counterparty_id''; link = opt_string b ''link_entry_id''
       in case template_latest e slug of
            None \<Rightarrow> Inl (response_422 ''template_slug'' ''unknown_template'' (''no template found for slug '' @ quoted slug))
          | Some info \<Rightarrow>
              if \<not> input_is_caller_authored slug then Inl (unsupported_template slug)
              else
                rbind (authored_input e ctx slug (client_input b)) (\<lambda>input.
                rbind (schema_check e info input) (\<lambda>_.
                if (case cp of None \<Rightarrow> False
                    | Some c \<Rightarrow> find_in_org c_id c_org (\<lambda>r. r) (counterparties rj) c (oc_org ctx) = None)
                then Inl (response_422 ''counterparty_id'' ''foreign_counterparty''
                            ''counterparty does not belong to this organization'')
                else if (case link of None \<Rightarrow> False | Some x \<Rightarrow> find_entry rj x (oc_org ctx) = None)
                then Inl (response_422 ''link_entry_id'' ''foreign_journal_entry''
                            ''journal entry does not belong to this organization'')
                else rbind (require_jobs e) (\<lambda>_. Inr (slug, input, info, cp, link))))))"

definition generate ::
  "api_env \<Rightarrow> db \<Rightarrow> db \<Rightarrow> (nat \<Rightarrow> string) \<Rightarrow> int \<Rightarrow> OrgContext \<Rightarrow> json option \<Rightarrow> api_state \<Rightarrow>
   (response + string \<times> bool) \<times> api_state" where
  "generate e rj j gen now ctx req s =
     (case generate_check e rj ctx req of
        Inl r \<Rightarrow> (Inl r, s)
      | Inr (slug, input, info, cp, link) \<Rightarrow>
          let org = oc_org ctx
          in case create_document j gen now org slug ''generated'' ''draft'' cp (Some (tpl_slug info)) (Some (tpl_version info)) (Some input)
                    None (docs s) of
               Inl _ \<Rightarrow> (Inl sql_failed, s)
             | Inr (_, d1) \<Rightarrow>
                 (case (case link of None \<Rightarrow> Inr (True, d1) | Some x \<Rightarrow> link_entry j org (gen 0) x d1) of
                    Inl _ \<Rightarrow> (Inl sql_failed, s\<lparr>docs := d1\<rparr>)
                  | Inr (_, d2) \<Rightarrow>
                      let ver = (case latest_version d2 org (gen 0) of None \<Rightarrow> [] | Some v \<Rightarrow> ver_id v);
                          (queued, s') = enqueue e (render_payload org (gen 0) ver slug input) (s\<lparr>docs := d2\<rparr>)
                      in (Inr (gen 0, queued), s')))"

text \<open>The input of a new version: the caller's own, or the previous one with the allowed fields on top.\<close>

definition edited_input :: "api_env \<Rightarrow> OrgContext \<Rightarrow> string \<Rightarrow> DocumentVersion \<Rightarrow> (string \<times> json) list \<Rightarrow> response + json" where
  "edited_input e ctx slug previous m =
     (if input_is_caller_authored slug then authored_input e ctx slug m
      else merge_allowed_extra (case ver_input previous of None \<Rightarrow> JObj [] | Some j \<Rightarrow> j) m (editable_fields slug))"

definition edit_check ::
  "api_env \<Rightarrow> OrgContext \<Rightarrow> string \<Rightarrow> bool \<Rightarrow> json option \<Rightarrow> doc_db \<Rightarrow> doc_db \<Rightarrow>
   response + (string \<times> json \<times> template_info)" where
  "edit_check e ctx i empty_body req rd d =
     rbind (require_uuid i) (\<lambda>_.
     rbind (parse_optional_body empty_body req) (\<lambda>b.
     if must_be_object [] b ''input'' \<noteq> [] then Inl (response_400 (must_be_object [] b ''input''))
     else
       rbind (open_document ctx kWrite i d) (\<lambda>doc.
       case doc_template_slug doc of
         None \<Rightarrow> Inl (conflict ''not_editable'' ''Only documents generated from a template can be edited'')
       | Some slug \<Rightarrow>
           if doc_source doc \<noteq> ''generated'' \<or> slug = [] then
             Inl (conflict ''not_editable'' ''Only documents generated from a template can be edited'')
           else if doc_voided_at doc \<noteq> None then Inl (conflict ''document_voided'' ''A voided document cannot be edited'')
           else
             case latest_version rd (oc_org ctx) i of
               None \<Rightarrow> Inl sql_failed
             | Some previous \<Rightarrow>
                 rbind (edited_input e ctx slug previous (client_input b)) (\<lambda>input.
                 case template_latest e slug of
                   None \<Rightarrow> Inl sql_failed
                 | Some info \<Rightarrow>
                     rbind (schema_check e info input) (\<lambda>_.
                     rbind (require_jobs e) (\<lambda>_. Inr (slug, input, info)))))))"

definition create_version ::
  "api_env \<Rightarrow> db \<Rightarrow> string \<Rightarrow> int \<Rightarrow> OrgContext \<Rightarrow> string \<Rightarrow> bool \<Rightarrow> json option \<Rightarrow> doc_db \<Rightarrow> api_state \<Rightarrow>
   (response + string \<times> int \<times> bool) \<times> api_state" where
  "create_version e j vid now ctx i empty_body req rd s =
     (case edit_check e ctx i empty_body req rd (docs s) of
        Inl r \<Rightarrow> (Inl r, s)
      | Inr (slug, input, info) \<Rightarrow>
          (case add_version j vid now (oc_org ctx) i (Some input) (Some (tpl_version info)) (Some (oc_user ctx)) (docs s) of
             Inl DocumentNotFound \<Rightarrow> (Inl (not_found ''document''), s)
           | Inl (DocSql _) \<Rightarrow> (Inl sql_failed, s)
           | Inr (v, d) \<Rightarrow>
               let (queued, s') = enqueue e (render_payload (oc_org ctx) i (ver_id v) slug input) (s\<lparr>docs := d\<rparr>)
               in (Inr (ver_id v, version_no v, queued), s')))"

section \<open>Deleting and voiding\<close>

definition audited :: "string \<Rightarrow> string \<Rightarrow> string \<Rightarrow> json \<Rightarrow> api_state \<Rightarrow> api_state" where
  "audited actor action i details s =
     s\<lparr>audit := audit s @ [\<lparr>au_actor = actor, au_action = action, au_type = ''document'', au_target = i, au_details = details\<rparr>]\<rparr>"

definition remove_doc :: "db \<Rightarrow> OrgContext \<Rightarrow> string \<Rightarrow> doc_db \<Rightarrow> api_state \<Rightarrow> (response + unit) \<times> api_state" where
  "remove_doc j ctx i rd s =
     (case rbind (require_uuid i) (\<lambda>_. open_document ctx kWrite i rd) of
        Inl r \<Rightarrow> (Inl r, s)
      | Inr doc \<Rightarrow>
          (case remove_document j (oc_org ctx) i (docs s) of
             Inl _ \<Rightarrow> (Inl sql_failed, s)
           | Inr (kDeleted, d) \<Rightarrow>
               (Inr (), audited (oc_user ctx) ''document.delete'' i
                          (object [(''org_id'', JStr (oc_org ctx)), (''doc_type'', JStr (doc_type doc))]) (s\<lparr>docs := d\<rparr>))
           | Inr (kNotFound, d) \<Rightarrow> (Inl (not_found ''document''), s\<lparr>docs := d\<rparr>)
           | Inr (kHasPostedEntries, d) \<Rightarrow>
               (Inl (conflict ''document_has_posted_entries''
                       (''This document is linked to a posted journal entry '' @ utf8 [0x2014] @ '' void it instead of deleting it'')),
                s\<lparr>docs := d\<rparr>)
           | Inr (kReferenced, d) \<Rightarrow>
               (Inl (conflict ''document_referenced''
                       (''This document is referenced by an HR order or a tax filing '' @ utf8 [0x2014] @
                        '' void it instead of deleting it'')),
                s\<lparr>docs := d\<rparr>)
           | Inr (kVoided, d) \<Rightarrow>
               (Inl (conflict ''document_voided'' ''A voided document is an audit record and cannot be deleted''),
                s\<lparr>docs := d\<rparr>)))"

definition void_request :: "json option \<Rightarrow> response + string" where
  "void_request req =
     rbind (parse_body req) (\<lambda>b.
     let shape = must_be_string (fst (require [] b ''reason'')) b ''reason'';
         vals = string_length [] b ''reason'' 1 1000;
         reason = trim (text_of b ''reason'')
     in if shape \<noteq> [] then Inl (response_400 shape)
        else if vals \<noteq> [] then Inl (response_422_all vals)
        else if reason = [] then Inl (response_422 ''reason'' ''blank'' ''must not be blank'')
        else Inr reason)"

definition void_doc ::
  "db \<Rightarrow> int \<Rightarrow> OrgContext \<Rightarrow> string \<Rightarrow> json option \<Rightarrow> doc_db \<Rightarrow> api_state \<Rightarrow> (response + Document) \<times> api_state" where
  "void_doc j now ctx i req rd s =
     (case rbind (require_uuid i) (\<lambda>_. rbind (void_request req) (\<lambda>reason.
            rbind (open_document ctx kWrite i rd) (\<lambda>doc.
            if doc_voided_at doc \<noteq> None then Inl (conflict ''already_voided'' ''This document is already voided'')
            else Inr reason))) of
        Inl r \<Rightarrow> (Inl r, s)
      | Inr reason \<Rightarrow>
          (case void_document j now (oc_org ctx) i (oc_user ctx) reason (docs s) of
             Inl _ \<Rightarrow> (Inl sql_failed, s)
           | Inr (False, d) \<Rightarrow> (Inl (conflict ''already_voided'' ''This document is already voided''), s\<lparr>docs := d\<rparr>)
           | Inr (True, d) \<Rightarrow>
               let s' = audited (oc_user ctx) ''document.void'' i (object [(''reason'', JStr reason)]) (s\<lparr>docs := d\<rparr>)
               in (case find_document d i (oc_org ctx) of
                     None \<Rightarrow> (Inl (not_found ''document''), s')
                   | Some fresh \<Rightarrow> (Inr fresh, s'))))"

section \<open>Lists and single reads agree\<close>

lemma reads_all_types: "allows role kDocuments kRead \<Longrightarrow> allows role kPayroll kRead \<and> allows role kHrDocs kRead"
proof -
  assume a: "allows role kDocuments kRead"
  then have "role \<in> set kRoles" using allows_unknown_role by blast
  then have "role \<in> {''owner'', ''accountant'', ''hr'', ''viewer'', ''agent''}" by (auto simp: kRoles_def)
  with a show ?thesis
    by (auto simp: allows_def grant_for_def role_index_def kRoles_def kMatrix_def row_def resource_names kRead_def kWrite_def)
qed

lemma listed_row:
  assumes "doc \<in> set (list_documents rd org ty st limit offset)"
  obtains r where "r \<in> set (documents rd)" "matches org ty st r" "doc = Document_from_row rd r"
  using assms by (auto simp: list_documents_def docs.order_by_set dest!: in_set_takeD in_set_dropD)

text \<open>
  The registry shows a reader nothing he could not open: every document on a page that
  \<open>list\<close> answers is one that \<open>get\<close> answers to the same caller, so the HR officer sees personnel
  documents only and no role sees a payslip through the list.
\<close>

theorem listed_documents_can_be_opened:
  assumes "list_docs ctx q rd = Inr (page, n, limit, offset)" and "doc \<in> set page"
    and "distinct (map d_id (documents rd))" and "is_uuid_segment (doc_id doc)"
  shows "get_doc ctx (doc_id doc) rd = Inr doc"
proof -
  obtain ty st where page: "page = list_documents rd (oc_org ctx) ty st (nat limit) (nat offset)"
    and who: "allows (oc_role ctx) kDocuments kRead \<or> allows (oc_role ctx) kHrDocs kRead \<and> ty = Some ''hr''"
    using assms(1) by (auto simp: list_docs_def Let_def split: if_splits prod.splits)
  then obtain r where r: "r \<in> set (documents rd)" "matches (oc_org ctx) ty st r" "doc = Document_from_row rd r"
    using assms(2) listed_row by metis
  have fields: "doc_id doc = d_id r" "doc_type doc = d_type r" by (simp_all add: r(3) Document_from_row_def Let_def)
  have "find_document rd (d_id r) (oc_org ctx) = Some doc"
    unfolding find_document_def using docs.own_found [OF assms(3) r(1)] r(2,3) by (simp add: matches_def)
  moreover have "allows (oc_role ctx) (resource_for doc) kRead"
    using who r(2) reads_all_types by (auto simp: resource_for_def fields matches_def)
  ultimately show ?thesis
    using assms(4) by (simp add: get_doc_def require_uuid_def open_document_def ensure_document_access_def fields)
qed

definition demo_registry :: doc_db where
  "demo_registry =
     (let row = (\<lambda>i ty. \<lparr>d_id = i, d_org = ''o'', d_type = ty, d_source = ''uploaded'', d_status = ''final'', d_counterparty = None,
            d_template = None, d_current = None, d_voided_at = None, d_voided_by = None, d_void_reason = None, d_created_at = 0\<rparr>)
      in \<lparr>documents = [row ''a'' ''invoice'', row ''b'' ''payroll'', row ''11111111-1111-1111-1111-111111111111'' ''hr''],
          versions = [], links = [], held = []\<rparr>)"

theorem listed_documents_can_be_opened_witness:
  "\<exists>page. list_docs \<lparr>oc_org = ''o'', oc_user = ''u'', oc_role = ''hr''\<rparr> (\<lambda>_. []) demo_registry = Inr (page, 1, 50, 0) \<and>
     map doc_id page = [''11111111-1111-1111-1111-111111111111''] \<and>
     (\<exists>doc \<in> set page. get_doc \<lparr>oc_org = ''o'', oc_user = ''u'', oc_role = ''hr''\<rparr> (doc_id doc) demo_registry = Inr doc)"
proof -
  let ?ctx = "\<lparr>oc_org = ''o'', oc_user = ''u'', oc_role = ''hr''\<rparr>"
  let ?doc = "Document_from_row demo_registry (documents demo_registry ! 2)"
  have l: "list_docs ?ctx (\<lambda>_. []) demo_registry = Inr ([?doc], 1, 50, 0)"
    by (simp add: list_docs_def filter_param_def parse_page_params_def clamp_int_def parse_int_def list_documents_def count_documents_def
        doc_order_def matches_def allows_def grant_for_def role_index_def kRoles_def kMatrix_def row_def resource_names kRead_def
        demo_registry_def Let_def)
  have i: "doc_id ?doc = ''11111111-1111-1111-1111-111111111111''"
    by (simp add: demo_registry_def Document_from_row_def Let_def)
  have "is_uuid_segment (doc_id ?doc)"
    unfolding i by (simp add: is_uuid_segment_def isxdigit_def isdigit_def upt_rec)
  moreover have "distinct (map d_id (documents demo_registry))" by (simp add: demo_registry_def)
  ultimately have "get_doc ?ctx (doc_id ?doc) demo_registry = Inr ?doc"
    by (intro listed_documents_can_be_opened [OF l]) simp_all
  with l i show ?thesis by auto
qed

end
