(* ===== verification/Directory.thy ===== *)
theory Directory
  imports DocumentsApi KzIdentifiers "HOL-Library.Sublist"
begin

text \<open>
  The chart of accounts and the counterparties: \<^verbatim>\<open>src/src/ledger/AccountRepository.hpp\<close>,
  \<^verbatim>\<open>src/src/ledger/CounterpartyRepository.hpp\<close> and the handlers of \<^verbatim>\<open>src/src/api/AccountsController.hpp\<close>
  and \<^verbatim>\<open>src/src/api/CounterpartiesController.hpp\<close>, over the tables of \<open>LedgerStore\<close>.

  Reads go to the replica \<open>rd\<close>, statements to the primary \<open>d\<close>.
\<close>

section \<open>Accounts\<close>

datatype account_error =
  InvalidSubaccount string | DuplicateAccount | AccountSql sql_error

definition account_visible :: "string \<Rightarrow> account_row \<Rightarrow> bool" where
  "account_visible org a \<longleftrightarrow> a_org a = None \<or> a_org a = Some org"

definition list_visible :: "db \<Rightarrow> string \<Rightarrow> account_row list" where
  "list_visible d org = sort_key a_code (filter (account_visible org) (accounts d))"

definition account_types :: "string list" where
  "account_types = [''asset'', ''liability'', ''equity'', ''income'', ''expense'']"

definition insert_account :: "account_row \<Rightarrow> db \<Rightarrow> sql_error + db" where
  "insert_account r d =
     (if a_type r \<notin> set account_types then Inl CheckViolation
      else if a_id r \<in> a_id ` set (accounts d) \<or> (\<exists>a \<in> set (accounts d). a_org a = a_org r \<and> a_code a = a_code r)
      then Inl UniqueViolation
      else if (\<exists>g \<in> set_option (a_org r). g \<notin> set (organizations d)) then Inl ForeignKeyViolation
      else Inr (d\<lparr>accounts := accounts d @ [r]\<rparr>))"

definition quoted_code :: "string \<Rightarrow> string" where
  "quoted_code s = CHR 0x27 # s @ [CHR 0x27]"

definition create_subaccount ::
  "db \<Rightarrow> string \<Rightarrow> string \<Rightarrow> string \<Rightarrow> string \<Rightarrow> string \<Rightarrow> string \<Rightarrow> db \<Rightarrow> account_error + account_row \<times> db" where
  "create_subaccount rd new_id org code name_ru name_kk parent_code d =
     (case find_visible rd org parent_code of
        None \<Rightarrow> Inl (InvalidSubaccount (''parent account '' @ quoted_code parent_code @ '' not found or not visible to this organization''))
      | Some parent \<Rightarrow>
          if \<not> starts_with code (a_code parent) then
            Inl (InvalidSubaccount (''subaccount code '' @ quoted_code code @ '' must start with parent code '' @ quoted_code (a_code parent)))
          else if find_visible rd org code \<noteq> None then Inl DuplicateAccount
          else
            let r = \<lparr>a_id = new_id, a_org = Some org, a_code = code, a_name_ru = name_ru, a_name_kk = name_kk, a_type = a_type parent,
                     a_parent = Some (a_code parent), a_currency_tracked = a_currency_tracked parent\<rparr>
            in case insert_account r d of
                 Inl e \<Rightarrow> Inl (if e = UniqueViolation then DuplicateAccount else AccountSql e)
               | Inr d' \<Rightarrow> Inr (r, d'))"

section \<open>Counterparties\<close>

datatype counterparty_error = DuplicateCounterparty | CounterpartySql sql_error

text \<open>A \<open>CHAR(12)\<close> column pads with blanks and refuses what is longer.\<close>

definition identifier_column :: "string \<Rightarrow> sql_error + string" where
  "identifier_column s =
     (if length s \<le> 12 then Inr (s @ replicate (12 - length s) (CHR '' ''))
      else if list_all (\<lambda>c. c = CHR '' '') (drop 12 s) then Inr (take 12 s) else Inl InvalidText)"

definition identifier_taken :: "db \<Rightarrow> string \<Rightarrow> string \<Rightarrow> string \<Rightarrow> bool" where
  "identifier_taken d org ident i \<longleftrightarrow> (\<exists>c \<in> set (counterparties d). c_org c = org \<and> c_identifier c = ident \<and> c_id c \<noteq> i)"

definition translate_counterparty :: "sql_error + 'a \<Rightarrow> counterparty_error + 'a" where
  "translate_counterparty x =
     (case x of Inr a \<Rightarrow> Inr a | Inl e \<Rightarrow> Inl (if e = UniqueViolation then DuplicateCounterparty else CounterpartySql e))"

definition create_counterparty ::
  "string \<Rightarrow> int \<Rightarrow> string \<Rightarrow> counterparty_row \<Rightarrow> db \<Rightarrow> counterparty_error + counterparty_row \<times> db" where
  "create_counterparty new_id now org draft d =
     translate_counterparty
       (rbind (identifier_column (c_identifier draft)) (\<lambda>ident.
        let r = draft\<lparr>c_id := new_id, c_org := org, c_identifier := ident, c_created_at := now\<rparr>
        in if new_id \<in> c_id ` set (counterparties d) \<or> identifier_taken d org ident new_id then Inl UniqueViolation
           else if org \<notin> set (organizations d) then Inl ForeignKeyViolation
           else Inr (r, d\<lparr>counterparties := counterparties d @ [r]\<rparr>)))"

definition update_counterparty ::
  "string \<Rightarrow> string \<Rightarrow> counterparty_row \<Rightarrow> db \<Rightarrow> counterparty_error + counterparty_row option \<times> db" where
  "update_counterparty org i patch d =
     translate_counterparty
       (case find (\<lambda>c. c_id c = i \<and> c_org c = org) (counterparties d) of
          None \<Rightarrow> Inr (None, d)
        | Some old \<Rightarrow>
            rbind (identifier_column (c_identifier patch)) (\<lambda>ident.
            let r = patch\<lparr>c_id := c_id old, c_org := c_org old, c_identifier := ident, c_created_at := c_created_at old\<rparr>
            in if identifier_taken d org ident i then Inl UniqueViolation
               else Inr (Some r, d\<lparr>counterparties := map (\<lambda>c. if c_id c = i then r else c) (counterparties d)\<rparr>)))"

definition find_by_identifier :: "db \<Rightarrow> string \<Rightarrow> string \<Rightarrow> counterparty_row option" where
  "find_by_identifier d org ident = find (\<lambda>c. c_org c = org \<and> c_identifier c = ident) (counterparties d)"

section \<open>Handlers\<close>

definition account_shape :: "json \<Rightarrow> errors" where
  "account_shape b =
     (let e1 = fst (require [] b ''code''); e2 = fst (require e1 b ''name_ru''); e3 = fst (require e2 b ''parent_code'')
      in must_be_string (must_be_string (must_be_string (must_be_string e3 b ''code'') b ''name_ru'') b ''parent_code'') b ''name_kk'')"

definition accounts_list :: "OrgContext \<Rightarrow> db \<Rightarrow> response + account_row list" where
  "accounts_list ctx rd = rbind (require_org_perm ctx kJournal kRead) (\<lambda>_. Inr (list_visible rd (oc_org ctx)))"

definition account_reply :: "account_error \<Rightarrow> response" where
  "account_reply e =
     (case e of
        InvalidSubaccount what \<Rightarrow> unprocessable ''invalid_subaccount'' what
      | DuplicateAccount \<Rightarrow>
          conflict ''account_code_taken'' ''An account with that code already exists for this organization (or is a reserved system code)''
      | AccountSql _ \<Rightarrow> sql_failed)"

definition accounts_create :: "db \<Rightarrow> string \<Rightarrow> OrgContext \<Rightarrow> json option \<Rightarrow> db \<Rightarrow> (response + account_row) \<times> db" where
  "accounts_create rd new_id ctx req d =
     (case rbind (require_org_perm ctx kJournal kWrite) (\<lambda>_. parse_body req) of
        Inl r \<Rightarrow> (Inl r, d)
      | Inr b \<Rightarrow>
          if account_shape b \<noteq> [] then (Inl (response_400 (account_shape b)), d)
          else
            case create_subaccount rd new_id (oc_org ctx) (text_of b ''code'') (text_of b ''name_ru'') (text_of b ''name_kk'')
                   (text_of b ''parent_code'') d of
              Inl e \<Rightarrow> (Inl (account_reply e), d)
            | Inr (a, d') \<Rightarrow> (Inr a, d'))"

definition must_be_boolean :: "errors \<Rightarrow> json \<Rightarrow> string \<Rightarrow> errors" where
  "must_be_boolean errs b field =
     (case member b field of
        None \<Rightarrow> errs
      | Some j \<Rightarrow> if is_boolean j then errs else add_error errs field ''not_boolean'' ''must be a boolean'')"

definition counterparty_shape :: "json \<Rightarrow> errors" where
  "counterparty_shape b =
     (let e1 = fst (require [] b ''identifier''); e2 = fst (require e1 b ''name'');
          e3 = must_be_string (must_be_string e2 b ''identifier'') b ''name'';
          e4 = foldl (\<lambda>e f. must_be_string e b f) e3 [''address'', ''iik'', ''bik'', ''kbe'', ''contact_email'']
      in must_be_boolean (must_be_boolean e4 b ''is_resident'') b ''vat_payer'')"

definition bool_of :: "json \<Rightarrow> string \<Rightarrow> bool \<Rightarrow> bool" where
  "bool_of b field dflt = (case member b field of Some (JBool v) \<Rightarrow> v | _ \<Rightarrow> dflt)"

definition validate_and_fill :: "json \<Rightarrow> response + counterparty_row" where
  "validate_and_fill b =
     (if counterparty_shape b \<noteq> [] then Inl (response_400 (counterparty_shape b))
      else if \<not> is_valid_bin_iin (text_of b ''identifier'') then
        Inl (response_422 ''identifier'' ''invalid_identifier'' ''BIN/IIN check digit is invalid'')
      else Inr \<lparr>c_id = [], c_org = [], c_identifier = text_of b ''identifier'', c_name = text_of b ''name'',
                c_address = text_of b ''address'', c_iik = text_of b ''iik'', c_bik = text_of b ''bik'', c_kbe = text_of b ''kbe'',
                c_is_resident = bool_of b ''is_resident'' True, c_vat_payer = bool_of b ''vat_payer'' False,
                c_contact_email = text_of b ''contact_email'', c_created_at = 0\<rparr>)"

definition counterparty_reply :: "counterparty_error \<Rightarrow> response" where
  "counterparty_reply e =
     (case e of
        DuplicateCounterparty \<Rightarrow>
          conflict ''counterparty_identifier_taken'' ''A counterparty with that identifier already exists in this organization''
      | CounterpartySql _ \<Rightarrow> sql_failed)"

definition counterparties_list :: "OrgContext \<Rightarrow> (string \<Rightarrow> string) \<Rightarrow> db \<Rightarrow> response + counterparty_row list \<times> nat" where
  "counterparties_list ctx params rd =
     rbind (require_org_perm ctx kCounterparties kRead) (\<lambda>_.
     case parse_page_params params 50 200 of (limit, offset) \<Rightarrow>
     Inr (list_in_org c_org counterparty_order (\<lambda>r. r) (counterparties rd) (oc_org ctx) (nat limit) (nat offset),
          count_in_org c_org (counterparties rd) (oc_org ctx)))"

definition counterparty_uuid :: "string \<Rightarrow> response + unit" where
  "counterparty_uuid i =
     (if is_uuid_segment i then Inr () else Inl (bad_request ''invalid_id'' ''Malformed counterparty id'' (JObj [])))"

definition counterparties_get :: "OrgContext \<Rightarrow> string \<Rightarrow> db \<Rightarrow> response + counterparty_row" where
  "counterparties_get ctx i rd =
     rbind (require_org_perm ctx kCounterparties kRead) (\<lambda>_.
     rbind (counterparty_uuid i) (\<lambda>_.
     case find_counterparty rd i (oc_org ctx) of None \<Rightarrow> Inl (not_found ''counterparty'') | Some c \<Rightarrow> Inr c))"

definition counterparties_create ::
  "string \<Rightarrow> int \<Rightarrow> OrgContext \<Rightarrow> json option \<Rightarrow> db \<Rightarrow> (response + counterparty_row) \<times> db" where
  "counterparties_create new_id now ctx req d =
     (case rbind (require_org_perm ctx kCounterparties kWrite) (\<lambda>_. rbind (parse_body req) validate_and_fill) of
        Inl r \<Rightarrow> (Inl r, d)
      | Inr draft \<Rightarrow>
          (case create_counterparty new_id now (oc_org ctx) draft d of
             Inl e \<Rightarrow> (Inl (counterparty_reply e), d)
           | Inr (c, d') \<Rightarrow> (Inr c, d')))"

definition counterparties_patch :: "OrgContext \<Rightarrow> string \<Rightarrow> json option \<Rightarrow> db \<Rightarrow> (response + counterparty_row) \<times> db" where
  "counterparties_patch ctx i req d =
     (case rbind (require_org_perm ctx kCounterparties kWrite) (\<lambda>_. rbind (counterparty_uuid i) (\<lambda>_.
             rbind (parse_body req) validate_and_fill)) of
        Inl r \<Rightarrow> (Inl r, d)
      | Inr draft \<Rightarrow>
          (case update_counterparty (oc_org ctx) i draft d of
             Inl e \<Rightarrow> (Inl (counterparty_reply e), d)
           | Inr (None, d') \<Rightarrow> (Inl (not_found ''counterparty''), d')
           | Inr (Some c, d') \<Rightarrow> (Inr c, d')))"

section \<open>Any sequence of requests\<close>

text \<open>
  The ledger's database and the states it had, any of which a replica may still show. The chart of
  accounts starts as the system rows of the migration.
\<close>

record dir_state =
  dir_now :: db
  dir_past :: "db list"

inductive dir_step :: "dir_state \<Rightarrow> dir_state \<Rightarrow> bool" where
  new_account: "rd \<in> set (dir_now x # dir_past x) \<Longrightarrow>
     dir_step x \<lparr>dir_now = snd (accounts_create rd i ctx req (dir_now x)), dir_past = dir_now x # dir_past x\<rparr>"
| new_counterparty:
     "dir_step x \<lparr>dir_now = snd (counterparties_create i now ctx req (dir_now x)), dir_past = dir_now x # dir_past x\<rparr>"
| new_terms: "dir_step x \<lparr>dir_now = snd (counterparties_patch ctx i req (dir_now x)), dir_past = dir_now x # dir_past x\<rparr>"

definition seeded :: "db \<Rightarrow> bool" where
  "seeded d \<longleftrightarrow> counterparties d = [] \<and> distinct (map a_code (accounts d)) \<and>
     list_all (\<lambda>a. a_org a = None \<and> a_parent a = None \<and> a_type a \<in> set account_types) (accounts d)"

inductive dir_reach :: "dir_state \<Rightarrow> bool" where
  dir_start: "seeded d \<Longrightarrow> dir_reach \<lparr>dir_now = d, dir_past = []\<rparr>"
| dir_next: "dir_reach x \<Longrightarrow> dir_step x y \<Longrightarrow> dir_reach y"

definition rooted :: "db \<Rightarrow> account_row \<Rightarrow> bool" where
  "rooted d a \<longleftrightarrow> (\<exists>s \<in> set (accounts d). a_org s = None \<and> prefix (a_code s) (a_code a) \<and>
     a_type s = a_type a \<and> a_currency_tracked s = a_currency_tracked a)"

definition chart_ok :: "db \<Rightarrow> bool" where
  "chart_ok d \<longleftrightarrow> (\<forall>org. distinct (map a_code (filter (account_visible org) (accounts d)))) \<and> (\<forall>a \<in> set (accounts d). rooted d a)"

definition parties_ok :: "db \<Rightarrow> bool" where
  "parties_ok d \<longleftrightarrow> distinct (map c_id (counterparties d)) \<and>
     distinct (map (\<lambda>c. (c_org c, c_identifier c)) (counterparties d)) \<and>
     (\<forall>c \<in> set (counterparties d). is_valid_bin_iin (c_identifier c))"

definition same_system :: "db \<Rightarrow> db \<Rightarrow> bool" where
  "same_system rd d \<longleftrightarrow> set (accounts rd) \<subseteq> set (accounts d) \<and>
     (\<forall>a \<in> set (accounts d). a_org a = None \<longrightarrow> a \<in> set (accounts rd))"

definition dir_ok :: "dir_state \<Rightarrow> bool" where
  "dir_ok x \<longleftrightarrow> chart_ok (dir_now x) \<and> parties_ok (dir_now x) \<and>
     (\<forall>rd \<in> set (dir_now x # dir_past x). same_system rd (dir_now x))"

lemma starts_with_prefix: "starts_with s p \<longleftrightarrow> prefix p s"
  by (auto simp: starts_with_def prefix_def) (metis append_take_drop_id)

lemma find_visibleD: "find_visible d org code = Some a \<Longrightarrow> a \<in> set (accounts d) \<and> account_visible org a \<and> a_code a = code"
  by (auto simp: find_visible_def find_Some_iff account_visible_def in_set_conv_nth)

lemma find_visible_None: "find_visible d org code = None \<longleftrightarrow> code \<notin> a_code ` {a \<in> set (accounts d). account_visible org a}"
  by (auto simp: find_visible_def find_None_iff account_visible_def)

lemma insert_accountD:
  "insert_account r d = Inr d' \<Longrightarrow>
   d' = d\<lparr>accounts := accounts d @ [r]\<rparr> \<and> (\<forall>a \<in> set (accounts d). a_org a = a_org r \<longrightarrow> a_code a \<noteq> a_code r)"
  by (auto simp: insert_account_def split: if_splits)

lemma create_subaccount_ok:
  assumes c: "create_subaccount rd i org code ru kk parent d = Inr (r, d')" and ok: "chart_ok d" and rd: "same_system rd d"
  shows "chart_ok d' \<and> d' = d\<lparr>accounts := accounts d @ [r]\<rparr> \<and> a_org r = Some org"
proof -
  obtain p where p: "find_visible rd org parent = Some p" and pre: "prefix (a_code p) code"
    and free: "find_visible rd org code = None" and ins: "insert_account r d = Inr d'"
    and r: "a_org r = Some org" "a_code r = code" "a_type r = a_type p" "a_currency_tracked r = a_currency_tracked p"
    using c by (auto simp: create_subaccount_def Let_def starts_with_prefix split: option.splits if_splits sum.splits)
  note d' = insert_accountD [OF ins]
  have pd: "p \<in> set (accounts d)" using find_visibleD [OF p] rd by (auto simp: same_system_def)
  have new: "code \<notin> a_code ` {a \<in> set (accounts d). account_visible org a}"
  proof clarsimp
    fix a assume a: "a \<in> set (accounts d)" "account_visible org a" "code = a_code a"
    then have "a_org a = None" using d' r by (auto simp: account_visible_def)
    with a rd have "a \<in> set (accounts rd)" by (auto simp: same_system_def)
    with a free show False by (auto simp: find_visible_None)
  qed
  have "distinct (map a_code (filter (account_visible g) (accounts d')))" for g
    using ok new r d' by (auto simp: chart_ok_def account_visible_def)
  moreover obtain s where s: "s \<in> set (accounts d)" "a_org s = None" "prefix (a_code s) (a_code p)" "a_type s = a_type p"
    "a_currency_tracked s = a_currency_tracked p" using ok pd by (auto simp: chart_ok_def rooted_def)
  have "rooted d' a" if "a \<in> set (accounts d')" for a
  proof (cases "a = r")
    case True
    have "prefix (a_code s) code" using s(3) pre by (rule prefix_order.trans)
    with True s r d' show ?thesis unfolding rooted_def by (intro bexI [of _ s]) simp_all
  next
    case False
    with that d' ok have "rooted d a" by (auto simp: chart_ok_def)
    with d' show ?thesis by (auto simp: rooted_def)
  qed
  ultimately show ?thesis using d' r by (auto simp: chart_ok_def)
qed

lemma identifier_column_valid: "is_valid_bin_iin s \<Longrightarrow> identifier_column s = Inr s"
  by (auto simp: is_valid_bin_iin_def identifier_column_def split: if_splits)

lemma create_counterparty_ok:
  assumes "create_counterparty i now org draft d = Inr (c, d')" and "parties_ok d" and "is_valid_bin_iin (c_identifier draft)"
  shows "parties_ok d' \<and> accounts d' = accounts d"
proof -
  have d': "d' = d\<lparr>counterparties := counterparties d @ [c]\<rparr>" and i: "i \<notin> c_id ` set (counterparties d)"
    and free: "\<not> identifier_taken d org (c_identifier draft) i"
    and c: "c_id c = i" "c_org c = org" "c_identifier c = c_identifier draft"
    using assms by (auto simp: create_counterparty_def translate_counterparty_def identifier_column_valid Let_def split: sum.splits if_splits)
  have "(org, c_identifier draft) \<noteq> (c_org x, c_identifier x)" if "x \<in> set (counterparties d)" for x
    using free i that by (force simp: identifier_taken_def)
  then have "(org, c_identifier draft) \<notin> (\<lambda>c. (c_org c, c_identifier c)) ` set (counterparties d)" by blast
  with assms(2, 3) i c show ?thesis by (simp add: d' parties_ok_def)
qed

lemma update_counterparty_ok:
  assumes u: "update_counterparty org i patch d = Inr (c, d')" and ok: "parties_ok d" and v: "is_valid_bin_iin (c_identifier patch)"
  shows "parties_ok d' \<and> accounts d' = accounts d"
proof (cases "find (\<lambda>c. c_id c = i \<and> c_org c = org) (counterparties d)")
  case None
  with u ok show ?thesis by (simp add: update_counterparty_def translate_counterparty_def)
next
  case (Some old)
  then have old: "old \<in> set (counterparties d)" "c_id old = i" "c_org old = org" by (auto simp: find_Some_iff)
  let ?r = "patch\<lparr>c_id := c_id old, c_org := c_org old, c_identifier := c_identifier patch, c_created_at := c_created_at old\<rparr>"
  let ?f = "\<lambda>c. if c_id c = i then ?r else c"
  have d': "d' = d\<lparr>counterparties := map ?f (counterparties d)\<rparr>" and free: "\<not> identifier_taken d org (c_identifier patch) i"
    using u Some v by (auto simp: update_counterparty_def translate_counterparty_def identifier_column_valid Let_def split: if_splits)
  have ids: "map c_id (map ?f (counterparties d)) = map c_id (counterparties d)" using old by simp
  have "inj_on (\<lambda>c. (c_org (?f c), c_identifier (?f c))) (set (counterparties d))"
  proof (rule inj_onI)
    fix a b assume ab: "a \<in> set (counterparties d)" "b \<in> set (counterparties d)"
      and eq: "(c_org (?f a), c_identifier (?f a)) = (c_org (?f b), c_identifier (?f b))"
    have inj: "inj_on c_id (set (counterparties d))" "inj_on (\<lambda>c. (c_org c, c_identifier c)) (set (counterparties d))"
      using ok by (auto simp: parties_ok_def distinct_map)
    show "a = b"
    proof (cases "c_id a = i \<or> c_id b = i")
      case True
      then have "c_id a = c_id b" using eq ab free old by (auto simp: identifier_taken_def split: if_splits)
      with inj(1) ab show ?thesis by (auto dest: inj_onD)
    next
      case False
      with eq have "(c_org a, c_identifier a) = (c_org b, c_identifier b)" by simp
      with inj(2) ab show ?thesis by (auto dest: inj_onD)
    qed
  qed
  moreover have "distinct (counterparties d)" using ok by (auto simp: parties_ok_def distinct_map)
  ultimately have "distinct (map (\<lambda>c. (c_org c, c_identifier c)) (map ?f (counterparties d)))"
    by (simp add: distinct_map comp_def)
  moreover have "distinct (map c_id (map ?f (counterparties d)))" unfolding ids using ok by (simp add: parties_ok_def)
  moreover have "\<forall>c \<in> set (map ?f (counterparties d)). is_valid_bin_iin (c_identifier c)" using ok v by (auto simp: parties_ok_def)
  ultimately show ?thesis by (simp add: parties_ok_def d')
qed

lemma filled_valid: "validate_and_fill b = Inr draft \<Longrightarrow> is_valid_bin_iin (c_identifier draft)"
  by (auto simp: validate_and_fill_def split: if_splits)

lemma parties_ok_accounts: "counterparties d' = counterparties d \<Longrightarrow> parties_ok d \<Longrightarrow> parties_ok d'"
  by (simp add: parties_ok_def)

lemma chart_ok_accounts: "accounts d' = accounts d \<Longrightarrow> chart_ok d \<Longrightarrow> chart_ok d'"
  by (simp add: chart_ok_def rooted_def)

lemma accounts_create_ok:
  assumes ok: "chart_ok d" "parties_ok d" and rd: "same_system rd d" and all: "\<forall>r \<in> R. same_system r d"
    and d': "d' = snd (accounts_create rd i ctx req d)"
  shows "chart_ok d' \<and> parties_ok d' \<and> (\<forall>r \<in> insert d' (insert d R). same_system r d')"
proof (cases "d' = d")
  case False
  then obtain r code ru kk parent where "create_subaccount rd i (oc_org ctx) code ru kk parent d = Inr (r, d')"
    using d' by (auto simp: accounts_create_def split: sum.splits if_splits)
  from create_subaccount_ok [OF this ok(1) rd] ok(2) all show ?thesis
    by (auto simp: parties_ok_def same_system_def)
qed (use ok all in \<open>auto simp: same_system_def\<close>)

lemma parties_step_ok:
  assumes ok: "chart_ok d" "parties_ok d" and all: "\<forall>r \<in> R. same_system r d"
    and d': "d' = snd (counterparties_create i now ctx req d) \<or> d' = snd (counterparties_patch ctx i req d)"
  shows "chart_ok d' \<and> parties_ok d' \<and> (\<forall>r \<in> insert d' (insert d R). same_system r d')"
proof -
  have "parties_ok d' \<and> accounts d' = accounts d"
    using d'
  proof
    assume "d' = snd (counterparties_create i now ctx req d)"
    then show ?thesis using ok(2) create_counterparty_ok filled_valid
      by (auto simp: counterparties_create_def rbind_def split: sum.splits)
  next
    assume "d' = snd (counterparties_patch ctx i req d)"
    then show ?thesis using ok(2) update_counterparty_ok filled_valid
      by (auto simp: counterparties_patch_def rbind_def split: sum.splits option.splits)
  qed
  with ok all show ?thesis by (auto simp: chart_ok_def rooted_def same_system_def)
qed

lemma dir_reach_ok: "dir_reach x \<Longrightarrow> dir_ok x"
proof (induction rule: dir_reach.induct)
  case (dir_start d)
  then have "distinct (map a_code (filter (account_visible org) (accounts d)))" for org
    by (auto simp: seeded_def intro: distinct_map_filter)
  with dir_start show ?case
    by (auto simp: dir_ok_def chart_ok_def parties_ok_def same_system_def rooted_def seeded_def list_all_iff)
next
  case (dir_next x y)
  let ?d = "dir_now x" and ?R = "set (dir_past x)"
  have ok: "chart_ok ?d" "parties_ok ?d" "\<forall>r \<in> ?R. same_system r ?d" using dir_next(3) by (auto simp: dir_ok_def)
  from dir_next(2) show ?case
  proof cases
    case (new_account rd i ctx req)
    with dir_next(3) have "same_system rd ?d" by (auto simp: dir_ok_def)
    from accounts_create_ok [OF ok(1, 2) this ok(3) refl] new_account show ?thesis by (simp add: dir_ok_def)
  next
    case (new_counterparty i now ctx req)
    with parties_step_ok [OF ok disjI1 [OF refl]] show ?thesis by (simp add: dir_ok_def)
  next
    case (new_terms ctx i req)
    with parties_step_ok [OF ok disjI2 [OF refl]] show ?thesis by (simp add: dir_ok_def)
  qed
qed

text \<open>C22: However requests of many organizations interleave, with reads from any earlier state of the
database: no two accounts an organization sees have the same code, every subaccount extends the code
of a system account and has its type and currency flag, and the counterparties of an organization
have distinct identifiers, each with a valid check digit.\<close>

theorem directory_is_well_formed:
  assumes "dir_reach x"
  shows "distinct (map a_code (list_visible (dir_now x) org)) \<and>
     (\<forall>a \<in> set (accounts (dir_now x)). \<exists>s \<in> set (accounts (dir_now x)). a_org s = None \<and> prefix (a_code s) (a_code a) \<and>
        a_type s = a_type a \<and> a_currency_tracked s = a_currency_tracked a) \<and>
     distinct (map (\<lambda>c. (c_org c, c_identifier c)) (counterparties (dir_now x))) \<and>
     (\<forall>c \<in> set (counterparties (dir_now x)). is_valid_bin_iin (c_identifier c))"
proof -
  have "distinct (map a_code (filter (account_visible org) (accounts (dir_now x))))"
    using dir_reach_ok [OF assms] by (simp add: dir_ok_def chart_ok_def)
  then have "distinct (map a_code (list_visible (dir_now x) org))"
    by (simp add: list_visible_def distinct_map)
  with dir_reach_ok [OF assms] show ?thesis by (simp add: dir_ok_def chart_ok_def parties_ok_def rooted_def)
qed

definition demo_chart :: db where
  "demo_chart =
     \<lparr>organizations = [''o1''], users = [],
      accounts = [\<lparr>a_id = ''a1'', a_org = None, a_code = ''1030'', a_name_ru = [], a_name_kk = [], a_type = ''asset'', a_parent = None,
                   a_currency_tracked = False\<rparr>],
      counterparties = [], entries = [], jlines = []\<rparr>"

definition demo_member :: OrgContext where
  "demo_member = \<lparr>oc_org = ''o1'', oc_user = ''u1'', oc_role = ''owner''\<rparr>"

definition demo_body :: json where
  "demo_body = JObj [(''code'', JStr ''1030.1''), (''name_ru'', JStr ''x''), (''parent_code'', JStr ''1030'')]"

lemma demo_created: "map a_code (accounts (snd (accounts_create demo_chart ''a2'' demo_member (Some demo_body) demo_chart))) =
   [''1030'', ''1030.1'']"
  by code_simp

theorem directory_is_well_formed_witness:
  "distinct (map a_code (list_visible (snd (accounts_create demo_chart ''a2'' demo_member (Some demo_body) demo_chart)) ''o1''))"
proof -
  have "seeded demo_chart" by (simp add: seeded_def demo_chart_def account_types_def)
  from dir_reach.dir_next [OF dir_reach.dir_start [OF this] dir_step.new_account [of demo_chart]]
  have "dir_reach \<lparr>dir_now = snd (accounts_create demo_chart ''a2'' demo_member (Some demo_body) demo_chart), dir_past = [demo_chart]\<rparr>"
    by simp
  from directory_is_well_formed [OF this] show ?thesis by simp
qed

end
