(* ===== verification/IdentityStore.thy ===== *)
theory IdentityStore
  imports Directory
begin

unbundle bit_operations_syntax

text \<open>
  Users, roles, API keys and used link tokens: the entities of \<^verbatim>\<open>src/src/domain\<close> and the repositories
  of \<^verbatim>\<open>src/src/repositories\<close> over the tables of \<^verbatim>\<open>src/migrations/001\<close> to \<^verbatim>\<open>005\<close>, with the rows of the tenancy
  tables (\<^verbatim>\<open>006\<close>, \<^verbatim>\<open>025\<close>, \<^verbatim>\<open>026\<close>, \<^verbatim>\<open>029\<close>), which refer to the users.

  Permission masks are 32-bit words, both in the entity (\<open>uint32_t\<close>) and in the signed column. The
  column \<open>updated_at\<close>, which a trigger writes and nothing decides on, is left out. E-mail addresses
  are \<open>CITEXT\<close>: PostgreSQL's \<open>lower\<close> is an argument.
\<close>

section \<open>Rows\<close>

record Role =
  ro_id :: int
  ro_name :: string
  ro_permissions :: "32 word"
  ro_default :: bool
  ro_created_at :: int

record user_row =
  us_id :: string
  us_email :: string
  us_password :: "string option"
  us_first :: "string option"
  us_last :: "string option"
  us_confirmed :: bool
  us_role :: int
  us_created_at :: int

record api_key_row =
  ak_id :: string
  ak_user :: string
  ak_name :: string
  ak_hash :: string
  ak_prefix :: string
  ak_last_used :: "int option"
  ak_revoked :: "int option"
  ak_created_at :: int

record used_token =
  ut_hash :: string
  ut_expires_at :: int

record Organization =
  og_id :: string
  og_bin :: string
  og_name :: string
  og_regime :: string
  og_vat_payer :: bool
  og_status :: string
  og_address :: string
  og_director :: string
  og_director_position :: string
  og_vat_certificate :: string
  og_created_at :: int

record OrgMember =
  mb_id :: string
  mb_org :: string
  mb_user :: string
  mb_role :: string
  mb_created_at :: int

record BankAccount =
  bk_id :: string
  bk_org :: string
  bk_iik :: string
  bk_name :: string
  bk_bik :: string
  bk_kbe :: string
  bk_currency :: string
  bk_primary :: bool
  bk_created_at :: int

record tenant_db =
  roles_t :: "Role list"
  users_t :: "user_row list"
  api_keys_t :: "api_key_row list"
  used_tokens :: "used_token list"
  orgs :: "Organization list"
  org_members :: "OrgMember list"
  bank_accounts :: "BankAccount list"

datatype tenant_error =
  DuplicateEmail | UserNotFound | DuplicateRole | RoleNotFound | RoleInUse
| DuplicateBin | DuplicateMembership | DuplicateBankAccount | TenantSql sql_error

text \<open>\<open>translate_sql\<close>: one SQL state becomes an error of the repository.\<close>

definition on_sql :: "sql_error \<Rightarrow> tenant_error \<Rightarrow> sql_error + 'a \<Rightarrow> tenant_error + 'a" where
  "on_sql state e x = (case x of Inr a \<Rightarrow> Inr a | Inl s \<Rightarrow> Inl (if s = state then e else TenantSql s))"

lemma on_sql_Inr [simp]: "on_sql s e x = Inr a \<longleftrightarrow> x = Inr a"
  by (cases x) (simp_all add: on_sql_def)

section \<open>Permissions\<close>

definition kGeneral :: "32 word" where "kGeneral = 0x01"
definition kAuditRead :: "32 word" where "kAuditRead = 0x02"
definition kAdminister :: "32 word" where "kAdminister = 0x40000000"

definition role_has :: "Role \<Rightarrow> 32 word \<Rightarrow> bool" where
  "role_has r perm \<longleftrightarrow> ro_permissions r AND perm = perm"

definition role_is_admin :: "Role \<Rightarrow> bool" where
  "role_is_admin r \<longleftrightarrow> role_has r kAdminister"

definition role_json :: "Role \<Rightarrow> json" where
  "role_json r = object [(''id'', JInt (ro_id r)), (''name'', JStr (ro_name r)), (''permissions'', JInt (uint (ro_permissions r))),
     (''is_default'', JBool (ro_default r))]"

definition user_full_name :: "user_row \<Rightarrow> string" where
  "user_full_name u =
     (let out = (case us_first u of None \<Rightarrow> [] | Some f \<Rightarrow> f) @ (if us_first u \<noteq> None \<and> us_last u \<noteq> None then '' '' else []) @
                (case us_last u of None \<Rightarrow> [] | Some l \<Rightarrow> l)
      in if out = [] then us_email u else out)"

definition user_can :: "user_row \<times> Role option \<Rightarrow> 32 word \<Rightarrow> bool" where
  "user_can u perm \<longleftrightarrow> (case snd u of None \<Rightarrow> False | Some r \<Rightarrow> role_has r perm)"

definition user_json :: "(int \<Rightarrow> string) \<Rightarrow> user_row \<times> Role option \<Rightarrow> json" where
  "user_json show_time v =
     (case v of (u, r) \<Rightarrow>
      object ([(''id'', JStr (us_id u)), (''email'', JStr (us_email u)), (''first_name'', opt_json JStr (us_first u)),
               (''last_name'', opt_json JStr (us_last u)), (''full_name'', JStr (user_full_name u)), (''confirmed'', JBool (us_confirmed u)),
               (''role_id'', JInt (us_role u)), (''created_at'', JStr (show_time (us_created_at u)))] @
              (case r of None \<Rightarrow> [] | Some ro \<Rightarrow> [(''role'', role_json ro)])))"

text \<open>A \<open>VARCHAR\<close> column counts characters of UTF-8, cuts blanks at the end and refuses what is longer.\<close>

definition utf8_chars :: "string \<Rightarrow> nat" where
  "utf8_chars s = length (filter (\<lambda>c. \<not> (128 \<le> (of_char c :: nat) \<and> (of_char c :: nat) < 192)) s)"

definition varchar :: "nat \<Rightarrow> string \<Rightarrow> sql_error + string" where
  "varchar n s =
     (let keep = length s - (utf8_chars s - n)
      in if utf8_chars s \<le> n then Inr s
         else if list_all (\<lambda>c. c = CHR '' '') (drop keep s) then Inr (take keep s)
         else Inl InvalidText)"

definition opt_varchar :: "nat \<Rightarrow> string option \<Rightarrow> sql_error + string option" where
  "opt_varchar n v = (case v of None \<Rightarrow> Inr None | Some s \<Rightarrow> rbind (varchar n s) (\<lambda>t. Inr (Some t)))"

section \<open>Roles\<close>

definition find_role :: "tenant_db \<Rightarrow> int \<Rightarrow> Role option" where
  "find_role d i = find (\<lambda>r. ro_id r = i) (roles_t d)"

definition list_roles :: "tenant_db \<Rightarrow> nat \<Rightarrow> Role list" where
  "list_roles d limit = take limit (sort_key ro_id (roles_t d))"

definition find_role_by_name :: "tenant_db \<Rightarrow> string \<Rightarrow> Role option" where
  "find_role_by_name d name = find (\<lambda>r. ro_name r = name) (roles_t d)"

definition find_default_role :: "tenant_db \<Rightarrow> Role option" where
  "find_default_role d = find ro_default (roles_t d)"

definition clear_default :: "(Role \<Rightarrow> bool) \<Rightarrow> tenant_db \<Rightarrow> tenant_db" where
  "clear_default p d = d\<lparr>roles_t := map (\<lambda>r. if p r \<and> ro_default r then r\<lparr>ro_default := False\<rparr> else r) (roles_t d)\<rparr>"

text \<open>The unique index on the name and the partial one on the default.\<close>

definition role_clash :: "Role \<Rightarrow> Role \<Rightarrow> bool" where
  "role_clash r x \<longleftrightarrow> ro_id x \<noteq> ro_id r \<and> (ro_name x = ro_name r \<or> ro_default x \<and> ro_default r)"

definition create_role :: "int \<Rightarrow> int \<Rightarrow> string \<Rightarrow> 32 word \<Rightarrow> bool \<Rightarrow> tenant_db \<Rightarrow> tenant_error + Role \<times> tenant_db" where
  "create_role new_id now name perms dflt d =
     on_sql UniqueViolation DuplicateRole
       (let d1 = (if dflt then clear_default (\<lambda>_. True) d else d)
        in rbind (varchar 64 name) (\<lambda>nm.
           let r = \<lparr>ro_id = new_id, ro_name = nm, ro_permissions = perms, ro_default = dflt, ro_created_at = now\<rparr>
           in if new_id \<in> ro_id ` set (roles_t d1) \<or> list_ex (role_clash r) (roles_t d1) then Inl UniqueViolation
              else Inr (r, d1\<lparr>roles_t := roles_t d1 @ [r]\<rparr>)))"

definition update_role ::
  "int \<Rightarrow> string option \<Rightarrow> 32 word option \<Rightarrow> bool option \<Rightarrow> tenant_db \<Rightarrow> tenant_error + Role \<times> tenant_db" where
  "update_role i name perms dflt d =
     (let d1 = (if dflt = Some True then clear_default (\<lambda>r. ro_id r \<noteq> i) d else d)
      in case find_role d1 i of
           None \<Rightarrow> Inl RoleNotFound
         | Some old \<Rightarrow>
             on_sql UniqueViolation DuplicateRole
               (rbind (varchar 64 (case name of None \<Rightarrow> ro_name old | Some n \<Rightarrow> n)) (\<lambda>nm.
                let r = \<lparr>ro_id = i, ro_name = nm, ro_permissions = (case perms of None \<Rightarrow> ro_permissions old | Some p \<Rightarrow> p),
                         ro_default = (case dflt of None \<Rightarrow> ro_default old | Some b \<Rightarrow> b), ro_created_at = ro_created_at old\<rparr>
                in if list_ex (role_clash r) (roles_t d1) then Inl UniqueViolation
                   else Inr (r, d1\<lparr>roles_t := map (\<lambda>x. if ro_id x = i then r else x) (roles_t d1)\<rparr>))))"

definition remove_role :: "int \<Rightarrow> tenant_db \<Rightarrow> tenant_error + tenant_db" where
  "remove_role i d =
     (if i \<notin> ro_id ` set (roles_t d) then Inl RoleNotFound
      else if i \<in> us_role ` set (users_t d) then Inl RoleInUse
      else Inr (d\<lparr>roles_t := filter (\<lambda>r. ro_id r \<noteq> i) (roles_t d)\<rparr>))"

section \<open>Users\<close>

definition with_role :: "tenant_db \<Rightarrow> user_row \<Rightarrow> user_row \<times> Role option" where
  "with_role d u = (u, find_role d (us_role u))"

definition find_user :: "tenant_db \<Rightarrow> string \<Rightarrow> (user_row \<times> Role option) option" where
  "find_user d i = map_option (with_role d) (find (\<lambda>u. us_id u = i) (users_t d))"

definition find_user_by_email :: "(string \<Rightarrow> string) \<Rightarrow> tenant_db \<Rightarrow> string \<Rightarrow> (user_row \<times> Role option) option" where
  "find_user_by_email lc d mail = map_option (with_role d) (find (\<lambda>u. lc (us_email u) = lc mail) (users_t d))"

definition list_users :: "tenant_db \<Rightarrow> nat \<Rightarrow> nat \<Rightarrow> (user_row \<times> Role option) list" where
  "list_users d limit offset = map (with_role d) (take limit (drop offset (rev (sort_key us_created_at (users_t d)))))"

definition count_users :: "tenant_db \<Rightarrow> nat" where
  "count_users d = length (users_t d)"

definition email_taken :: "(string \<Rightarrow> string) \<Rightarrow> tenant_db \<Rightarrow> string \<Rightarrow> string \<Rightarrow> bool" where
  "email_taken lc d mail i \<longleftrightarrow> list_ex (\<lambda>u. us_id u \<noteq> i \<and> lc (us_email u) = lc mail) (users_t d)"

definition create_user ::
  "(string \<Rightarrow> string) \<Rightarrow> string \<Rightarrow> int \<Rightarrow> string \<Rightarrow> string option \<Rightarrow> string option \<Rightarrow> string option \<Rightarrow> int \<Rightarrow> bool \<Rightarrow>
   tenant_db \<Rightarrow> tenant_error + user_row \<times> tenant_db" where
  "create_user lc new_id now mail password fn ln role confirmed d =
     on_sql UniqueViolation DuplicateEmail
       (rbind (opt_varchar 64 fn) (\<lambda>f. rbind (opt_varchar 64 ln) (\<lambda>l.
        let u = \<lparr>us_id = new_id, us_email = mail, us_password = password, us_first = f, us_last = l, us_confirmed = confirmed,
                 us_role = role, us_created_at = now\<rparr>
        in if new_id \<in> us_id ` set (users_t d) \<or> email_taken lc d mail new_id then Inl UniqueViolation
           else if role \<notin> ro_id ` set (roles_t d) then Inl ForeignKeyViolation
           else Inr (u, d\<lparr>users_t := users_t d @ [u]\<rparr>))))"

definition update_user :: "string \<Rightarrow> (user_row \<Rightarrow> user_row) \<Rightarrow> tenant_db \<Rightarrow> tenant_db" where
  "update_user i f d = d\<lparr>users_t := map (\<lambda>u. if us_id u = i then f u else u) (users_t d)\<rparr>"

definition user_exists :: "tenant_db \<Rightarrow> string \<Rightarrow> bool" where
  "user_exists d i \<longleftrightarrow> i \<in> us_id ` set (users_t d)"

definition update_password_hash :: "string \<Rightarrow> string \<Rightarrow> tenant_db \<Rightarrow> tenant_error + tenant_db" where
  "update_password_hash i h d =
     (if user_exists d i then Inr (update_user i (\<lambda>u. u\<lparr>us_password := Some h\<rparr>) d) else Inl UserNotFound)"

definition mark_confirmed :: "string \<Rightarrow> tenant_db \<Rightarrow> bool \<times> tenant_db" where
  "mark_confirmed i d = (user_exists d i, update_user i (\<lambda>u. u\<lparr>us_confirmed := True\<rparr>) d)"

definition pending_invite :: "user_row \<Rightarrow> bool" where
  "pending_invite u \<longleftrightarrow> \<not> us_confirmed u \<and> us_password u = None"

definition redeem_invite :: "string \<Rightarrow> string \<Rightarrow> tenant_db \<Rightarrow> bool \<times> tenant_db" where
  "redeem_invite i h d =
     (list_ex (\<lambda>u. us_id u = i \<and> pending_invite u) (users_t d),
      update_user i (\<lambda>u. if pending_invite u then u\<lparr>us_password := Some h, us_confirmed := True\<rparr> else u) d)"

definition change_email :: "(string \<Rightarrow> string) \<Rightarrow> string \<Rightarrow> string \<Rightarrow> tenant_db \<Rightarrow> tenant_error + tenant_db" where
  "change_email lc i mail d =
     (if \<not> user_exists d i then Inl UserNotFound
      else if email_taken lc d mail i then Inl DuplicateEmail
      else Inr (update_user i (\<lambda>u. u\<lparr>us_email := mail\<rparr>) d))"

definition coalesce :: "'a option \<Rightarrow> 'a \<Rightarrow> 'a" where
  "coalesce v old = (case v of None \<Rightarrow> old | Some x \<Rightarrow> x)"

definition coalesce_opt :: "'a option \<Rightarrow> 'a option \<Rightarrow> 'a option" where
  "coalesce_opt v old = (case v of None \<Rightarrow> old | Some x \<Rightarrow> Some x)"

definition update_names :: "string \<Rightarrow> string option \<Rightarrow> string option \<Rightarrow> tenant_db \<Rightarrow> tenant_error + tenant_db" where
  "update_names i fn ln d =
     (if \<not> user_exists d i then Inl UserNotFound
      else on_sql UniqueViolation DuplicateEmail
        (rbind (opt_varchar 64 fn) (\<lambda>f. rbind (opt_varchar 64 ln) (\<lambda>l.
         Inr (update_user i (\<lambda>u. u\<lparr>us_first := coalesce_opt f (us_first u), us_last := coalesce_opt l (us_last u)\<rparr>) d)))))"

definition admin_update ::
  "(string \<Rightarrow> string) \<Rightarrow> string \<Rightarrow> string option \<Rightarrow> int option \<Rightarrow> string option \<Rightarrow> string option \<Rightarrow> tenant_db \<Rightarrow> tenant_error + tenant_db" where
  "admin_update lc i mail role fn ln d =
     (if \<not> user_exists d i then Inl UserNotFound
      else on_sql UniqueViolation DuplicateEmail
        (rbind (opt_varchar 64 fn) (\<lambda>f. rbind (opt_varchar 64 ln) (\<lambda>l.
         if (\<exists>m \<in> set_option mail. email_taken lc d m i) then Inl UniqueViolation
         else if (\<exists>r \<in> set_option role. r \<notin> ro_id ` set (roles_t d)) then Inl ForeignKeyViolation
         else Inr (update_user i (\<lambda>u. u\<lparr>us_email := coalesce mail (us_email u), us_role := coalesce role (us_role u),
                     us_first := coalesce_opt f (us_first u), us_last := coalesce_opt l (us_last u)\<rparr>) d)))))"

definition change_role :: "string \<Rightarrow> int \<Rightarrow> tenant_db \<Rightarrow> tenant_error + tenant_db" where
  "change_role i role d =
     (if \<not> user_exists d i then Inl UserNotFound
      else if role \<notin> ro_id ` set (roles_t d) then Inl (TenantSql ForeignKeyViolation)
      else Inr (update_user i (\<lambda>u. u\<lparr>us_role := role\<rparr>) d))"

text \<open>Deleting a user deletes its keys and its memberships.\<close>

definition remove_user :: "string \<Rightarrow> tenant_db \<Rightarrow> tenant_error + tenant_db" where
  "remove_user i d =
     (if \<not> user_exists d i then Inl UserNotFound
      else Inr (d\<lparr>users_t := filter (\<lambda>u. us_id u \<noteq> i) (users_t d), api_keys_t := filter (\<lambda>k. ak_user k \<noteq> i) (api_keys_t d),
                  org_members := filter (\<lambda>m. mb_user m \<noteq> i) (org_members d)\<rparr>))"

section \<open>API keys\<close>

definition create_api_key ::
  "string \<Rightarrow> int \<Rightarrow> string \<Rightarrow> string \<Rightarrow> string \<Rightarrow> string \<Rightarrow> tenant_db \<Rightarrow> sql_error + api_key_row \<times> tenant_db" where
  "create_api_key new_id now user name hash shown d =
     (let k = \<lparr>ak_id = new_id, ak_user = user, ak_name = name, ak_hash = hash, ak_prefix = shown, ak_last_used = None,
               ak_revoked = None, ak_created_at = now\<rparr>
      in if new_id \<in> ak_id ` set (api_keys_t d) \<or> hash \<in> ak_hash ` set (api_keys_t d) then Inl UniqueViolation
         else if \<not> user_exists d user then Inl ForeignKeyViolation
         else Inr (k, d\<lparr>api_keys_t := api_keys_t d @ [k]\<rparr>))"

definition list_api_keys :: "tenant_db \<Rightarrow> string \<Rightarrow> api_key_row list" where
  "list_api_keys d user = rev (sort_key ak_created_at (filter (\<lambda>k. ak_user k = user) (api_keys_t d)))"

definition revoke_api_key :: "int \<Rightarrow> string \<Rightarrow> string \<Rightarrow> tenant_db \<Rightarrow> bool \<times> tenant_db" where
  "revoke_api_key now i user d =
     (let hit = (\<lambda>k. ak_id k = i \<and> ak_user k = user \<and> ak_revoked k = None)
      in (list_ex hit (api_keys_t d),
          d\<lparr>api_keys_t := map (\<lambda>k. if hit k then k\<lparr>ak_revoked := Some now\<rparr> else k) (api_keys_t d)\<rparr>))"

section \<open>One default role, one user per address\<close>

definition roles_ok :: "tenant_db \<Rightarrow> bool" where
  "roles_ok d \<longleftrightarrow> distinct (map ro_id (roles_t d)) \<and> distinct (map ro_name (roles_t d)) \<and> length (filter ro_default (roles_t d)) \<le> 1"

definition users_ok :: "(string \<Rightarrow> string) \<Rightarrow> tenant_db \<Rightarrow> bool" where
  "users_ok lc d \<longleftrightarrow> distinct (map us_id (users_t d)) \<and> distinct (map (lc \<circ> us_email) (users_t d)) \<and>
     us_role ` set (users_t d) \<subseteq> ro_id ` set (roles_t d)"

lemmas user_ops = update_password_hash_def mark_confirmed_def redeem_invite_def change_email_def update_names_def admin_update_def
  change_role_def remove_user_def create_user_def

lemma update_user_rows [simp]:
  "roles_t (update_user i f d) = roles_t d" "org_members (update_user i f d) = org_members d" "orgs (update_user i f d) = orgs d"
  "api_keys_t (update_user i f d) = api_keys_t d" "used_tokens (update_user i f d) = used_tokens d"
  "bank_accounts (update_user i f d) = bank_accounts d"
  by (simp_all add: update_user_def)

lemma update_user_ids:
  assumes "\<And>u. us_id (f u) = us_id u"
  shows "map us_id (users_t (update_user i f d)) = map us_id (users_t d)"
  using assms by (simp add: update_user_def)

lemma user_exists_update [simp]:
  "(\<And>u. us_id (f u) = us_id u) \<Longrightarrow> user_exists (update_user i f d) j \<longleftrightarrow> user_exists d j"
  "user_exists (d\<lparr>used_tokens := us\<rparr>) j \<longleftrightarrow> user_exists d j"
  using update_user_ids [of f i d] by (auto simp: user_exists_def simp flip: set_map)

lemma update_user_new_email:
  assumes ok: "users_ok lc d" and f: "\<And>u. us_id (f u) = us_id u" and r: "\<And>u. us_role (f u) \<in> ro_id ` set (roles_t d) \<or> us_role (f u) = us_role u"
    and m: "\<And>u. u \<in> set (users_t d) \<Longrightarrow> us_id u = i \<Longrightarrow> us_email (f u) = us_email u \<or> \<not> email_taken lc d (us_email (f u)) i"
  shows "users_ok lc (update_user i f d)"
proof -
  let ?g = "\<lambda>u. if us_id u = i then f u else u"
  have d: "distinct (map us_id (users_t d))" "distinct (map (lc \<circ> us_email) (users_t d))"
    and sub: "us_role ` set (users_t d) \<subseteq> ro_id ` set (roles_t d)" using ok by (auto simp: users_ok_def)
  have "distinct (map ((lc \<circ> us_email) \<circ> ?g) (users_t d))"
    unfolding distinct_map
  proof (intro conjI inj_onI)
    show "distinct (users_t d)" using d(1) by (simp add: distinct_map)
    fix u v assume u: "u \<in> set (users_t d)" and v: "v \<in> set (users_t d)"
      and e: "((lc \<circ> us_email) \<circ> ?g) u = ((lc \<circ> us_email) \<circ> ?g) v"
    have inj: "us_id u = us_id v \<Longrightarrow> u = v" "lc (us_email u) = lc (us_email v) \<Longrightarrow> u = v"
      using d u v by (auto simp: distinct_map inj_on_def)
    have taken: "us_id x = i \<Longrightarrow> us_id y \<noteq> i \<Longrightarrow> x \<in> set (users_t d) \<Longrightarrow> y \<in> set (users_t d) \<Longrightarrow>
        lc (us_email (f x)) = lc (us_email y) \<Longrightarrow> lc (us_email x) = lc (us_email y)" for x y
      using m [of x] by (auto simp: email_taken_def list_ex_iff)
    show "u = v"
    proof (cases "us_id u = i \<longleftrightarrow> us_id v = i")
      case True
      with e inj show ?thesis by (auto split: if_splits)
    next
      case False
      with e taken [of u v] taken [of v u] u v inj(2) show ?thesis by (auto split: if_splits)
    qed
  qed
  moreover have "us_role ` set (users_t (update_user i f d)) \<subseteq> ro_id ` set (roles_t d)"
  proof
    fix x assume "x \<in> us_role ` set (users_t (update_user i f d))"
    then obtain u where u: "u \<in> set (users_t d)" "x = us_role (?g u)" by (auto simp: update_user_def)
    with sub have "us_role u \<in> ro_id ` set (roles_t d)" by blast
    with u(2) r [of u] show "x \<in> ro_id ` set (roles_t d)" by (cases "us_id u = i") auto
  qed
  moreover have "distinct (map us_id (users_t (update_user i f d)))"
    using d(1) by (simp only: update_user_ids [OF f])
  ultimately show ?thesis unfolding users_ok_def by (simp add: update_user_def comp_assoc)
qed

lemma update_user_same_email:
  assumes "users_ok lc d" "\<And>u. us_id (f u) = us_id u" "\<And>u. us_email (f u) = us_email u" "\<And>u. us_role (f u) = us_role u"
  shows "users_ok lc (update_user i f d)"
  by (rule update_user_new_email) (use assms in simp_all)

text \<open>Every operation on users keeps addresses unique and every user with a role.\<close>

lemma user_ops_ok:
  assumes "users_ok lc d"
  shows "update_password_hash i h d = Inr d' \<Longrightarrow> users_ok lc d'"
    and "mark_confirmed i d = (b, d') \<Longrightarrow> users_ok lc d'"
    and "redeem_invite i h d = (b, d') \<Longrightarrow> users_ok lc d'"
    and "change_email lc i mail d = Inr d' \<Longrightarrow> users_ok lc d'"
    and "admin_update lc i m r f l d = Inr d' \<Longrightarrow> users_ok lc d'"
    and "create_user lc i now mail pw f l role conf d = Inr (u, d') \<Longrightarrow> users_ok lc d'"
    and "remove_user i d = Inr d' \<Longrightarrow> users_ok lc d'"
proof -
  show "update_password_hash i h d = Inr d' \<Longrightarrow> users_ok lc d'"
    using assms by (auto simp: user_ops split: if_splits intro!: update_user_same_email)
  show "mark_confirmed i d = (b, d') \<Longrightarrow> users_ok lc d'"
    using assms by (auto simp: user_ops intro!: update_user_same_email)
  show "redeem_invite i h d = (b, d') \<Longrightarrow> users_ok lc d'"
    using assms by (auto simp: user_ops intro!: update_user_same_email)
  show "change_email lc i mail d = Inr d' \<Longrightarrow> users_ok lc d'"
    using assms by (auto simp: user_ops split: if_splits intro!: update_user_new_email)
  show "remove_user i d = Inr d' \<Longrightarrow> users_ok lc d'"
    using assms by (auto simp: user_ops users_ok_def distinct_map_filter split: if_splits dest: image_subset_iff [THEN iffD1, THEN bspec])
next
  assume c: "create_user lc i now mail pw f l role conf d = Inr (u, d')"
  then have d': "d' = d\<lparr>users_t := users_t d @ [u]\<rparr>" and u: "us_id u = i" "us_email u = mail" "us_role u = role"
    and free: "i \<notin> us_id ` set (users_t d)" "\<not> email_taken lc d mail i" and r: "role \<in> ro_id ` set (roles_t d)"
    by (auto simp: user_ops rbind_def Let_def split: sum.splits if_splits)
  have "lc mail \<notin> (lc \<circ> us_email) ` set (users_t d)"
    using free by (auto simp: email_taken_def list_ex_iff image_iff)
  with assms free(1) r u show "users_ok lc d'" by (simp add: d' users_ok_def)
next
  assume "admin_update lc i m r f l d = Inr d'"
  then obtain fn ln where d': "d' = update_user i (\<lambda>u. u\<lparr>us_email := coalesce m (us_email u), us_role := coalesce r (us_role u),
        us_first := coalesce_opt fn (us_first u), us_last := coalesce_opt ln (us_last u)\<rparr>) d"
    and m: "\<forall>x \<in> set_option m. \<not> email_taken lc d x i" and r: "\<forall>x \<in> set_option r. x \<in> ro_id ` set (roles_t d)"
    by (auto simp: user_ops rbind_def split: sum.splits if_splits)
  show "users_ok lc d'" unfolding d'
    by (rule update_user_new_email [OF assms]) (use m r in \<open>auto simp: coalesce_def split: option.splits\<close>)
qed

lemma clear_default_roles:
  "map ro_id (roles_t (clear_default p d)) = map ro_id (roles_t d)" "map ro_name (roles_t (clear_default p d)) = map ro_name (roles_t d)"
  "users_t (clear_default p d) = users_t d"
  by (simp_all add: clear_default_def)

end
