(* ===== verification/Authentication.thy ===== *)
theory Authentication
  imports CxxText IdentityStore Idempotency Base64 Strings
begin

unbundle bit_operations_syntax

text \<open>
  Who a request comes from: \<^verbatim>\<open>src/src/security/Jwt.hpp\<close>, \<^verbatim>\<open>Auth.hpp\<close>, \<^verbatim>\<open>SessionCookies.hpp\<close>, \<^verbatim>\<open>Csrf.hpp\<close> and
  \<^verbatim>\<open>ApiKeys.hpp\<close>, the guards of \<^verbatim>\<open>src/src/api/Guards.hpp\<close> and the advices of \<^verbatim>\<open>src/src/api/Middleware.hpp\<close> that
  decide on a request before its handler: authentication, CSRF and the content type.

  HMAC-SHA256, SHA-256 and the JSON printer and parser are libraries: \<open>auth_env\<close> has them, with
  the environment of the cache. A verification answers \<open>Refused\<close> with an error code; \<open>Thrown\<close> is an
  exception that leaves the function, as \<open>json::value\<close> throws on a member of another type. The number
  of seconds in a claim plus the leeway is taken to fit 64 bits.
\<close>

record auth_env =
  cache_env :: idem_env
  hmac :: "string \<Rightarrow> string \<Rightarrow> string"

record http_request =
  hr_method :: string
  hr_path :: string
  hr_header :: "string \<Rightarrow> string"
  hr_cookie :: "string \<Rightarrow> string"
  hr_body_empty :: bool

section \<open>Tokens\<close>

datatype jwt_failure = Refused string | Thrown

definition split_dot :: "string \<Rightarrow> (string \<times> string) option" where
  "split_dot s =
     (if CHR ''.'' \<in> set s then Some (takeWhile (\<lambda>c. c \<noteq> CHR ''.'') s, tl (dropWhile (\<lambda>c. c \<noteq> CHR ''.'') s)) else None)"

definition decoded_json :: "auth_env \<Rightarrow> string \<Rightarrow> json option" where
  "decoded_json e s = (case url_decode s of Inl _ \<Rightarrow> None | Inr t \<Rightarrow> parse (cache_env e) t)"

definition check_header :: "json \<Rightarrow> jwt_failure + unit" where
  "check_header h =
     (case text_value h ''alg'' [] of
        None \<Rightarrow> Inl Thrown
      | Some a \<Rightarrow>
          if a \<noteq> ''HS256'' then Inl (Refused ''unsupported_alg'')
          else
            (case text_value h ''typ'' ''JWT'' of
               None \<Rightarrow> Inl Thrown
             | Some t \<Rightarrow> if t \<noteq> ''JWT'' then Inl (Refused ''unsupported_alg'') else Inr ()))"

definition check_signature :: "auth_env \<Rightarrow> string \<Rightarrow> string \<Rightarrow> string \<Rightarrow> jwt_failure + unit" where
  "check_signature e secret signing_input sig_b64 =
     (case url_decode sig_b64 of
        Inl _ \<Rightarrow> Inl (Refused ''malformed_signature'')
      | Inr actual \<Rightarrow> if hmac e secret signing_input = actual then Inr () else Inl (Refused ''bad_signature''))"

definition verify_hs256_jwt :: "auth_env \<Rightarrow> string \<Rightarrow> string \<Rightarrow> jwt_failure + json" where
  "verify_hs256_jwt e token secret =
     (case split_dot token of
        None \<Rightarrow> Inl (Refused ''malformed_token'')
      | Some (header_b64, rest) \<Rightarrow>
          (case split_dot rest of
             None \<Rightarrow> Inl (Refused ''malformed_token'')
           | Some (payload_b64, sig_b64) \<Rightarrow>
               (case decoded_json e header_b64 of
                  None \<Rightarrow> Inl (Refused ''malformed_header'')
                | Some header \<Rightarrow>
                    rbind (check_header header) (\<lambda>_.
                    if secret = [] then Inl (Refused ''no_secret'')
                    else
                      rbind (check_signature e secret (header_b64 @ ''.'' @ payload_b64) sig_b64) (\<lambda>_.
                      case decoded_json e payload_b64 of
                        None \<Rightarrow> Inl (Refused ''malformed_payload'')
                      | Some claims \<Rightarrow> Inr claims)))))"

definition jwt_header :: json where
  "jwt_header = object [(''alg'', JStr ''HS256''), (''typ'', JStr ''JWT'')]"

text \<open>\<open>None\<close> where the call throws: an empty secret, or a text the JSON printer refuses.\<close>

definition issue_hs256_jwt :: "auth_env \<Rightarrow> json \<Rightarrow> string \<Rightarrow> string option" where
  "issue_hs256_jwt e claims secret =
     (if secret = [] then None
      else
        (case (dump (cache_env e) jwt_header, dump (cache_env e) claims) of
           (Some h, Some p) \<Rightarrow>
             let signing_input = url_encode h @ ''.'' @ url_encode p
             in Some (signing_input @ ''.'' @ url_encode (hmac e secret signing_input))
         | _ \<Rightarrow> None))"

section \<open>Configuration and principals\<close>

datatype AuthMode = AuthNone | Bearer | Jwt

definition parse_auth_mode :: "string \<Rightarrow> AuthMode" where
  "parse_auth_mode s = (if s = ''jwt'' then Jwt else if s = ''bearer'' then Bearer else AuthNone)"

record CookieConfig =
  cookies_enabled :: bool
  access_name :: string
  refresh_name :: string
  access_ttl_sec :: int
  refresh_ttl_sec :: int
  cookie_secure :: bool
  cookie_samesite :: string
  revocation_prefix :: string
  csrf_enabled :: bool
  csrf_cookie_name :: string

record AuthConfig =
  auth_mode :: AuthMode
  bearer_token :: string
  jwt_secret :: string
  jwt_issuer :: string
  jwt_audience :: string
  jwt_leeway_sec :: int
  jwt_roles_claim :: string
  jwt_scopes_claim :: string
  auth_public_paths :: "string list"
  cookies :: CookieConfig

text \<open>The checks at start-up: a mode that needs a secret has one, of at least 32 bytes for HS256.\<close>

definition load_auth_config :: "AuthConfig \<Rightarrow> string \<Rightarrow> string \<Rightarrow> string + AuthConfig" where
  "load_auth_config configured mode_str paths_csv =
     (let c = configured\<lparr>auth_mode := parse_auth_mode mode_str, auth_public_paths := split_csv_vec paths_csv\<rparr>
      in if auth_mode c = Jwt \<and> jwt_secret c = [] then Inl ''auth.mode=jwt but JWT_SECRET is empty''
         else if auth_mode c = Jwt \<and> length (jwt_secret c) < 32 then Inl ''auth.mode=jwt but JWT_SECRET is shorter than 32 chars''
         else if auth_mode c = Bearer \<and> bearer_token c = [] then Inl ''auth.mode=bearer but AUTH_BEARER_TOKEN is empty''
         else Inr c)"

record AuthPrincipal =
  pr_subject :: string
  pr_roles :: "string list"
  pr_scopes :: "string list"
  pr_org :: string
  pr_claims :: json

fun stream_words :: "string \<Rightarrow> string \<Rightarrow> string list" where
  "stream_words tok [] = (if tok = [] then [] else [tok])"
| "stream_words tok (c # cs) =
     (if isspace c then (if tok = [] then [] else [tok]) @ stream_words [] cs else stream_words (tok @ [c]) cs)"

definition extract_string_array :: "json \<Rightarrow> string list" where
  "extract_string_array j =
     (case j of
        JArr vs \<Rightarrow> concat (map (\<lambda>v. case v of JStr s \<Rightarrow> [s] | _ \<Rightarrow> []) vs)
      | JStr s \<Rightarrow> stream_words [] s
      | _ \<Rightarrow> [])"

definition claim_text :: "json \<Rightarrow> string \<Rightarrow> jwt_failure + string" where
  "claim_text claims k = (case text_value claims k [] of None \<Rightarrow> Inl Thrown | Some s \<Rightarrow> Inr s)"

definition in_validity :: "int \<Rightarrow> int \<Rightarrow> json \<Rightarrow> jwt_failure + unit" where
  "in_validity now leeway claims =
     (if (case member claims ''exp'' of Some (JInt x) \<Rightarrow> now > x + leeway | _ \<Rightarrow> False) then Inl (Refused ''token_expired'')
      else if (case member claims ''nbf'' of Some (JInt x) \<Rightarrow> now + leeway < x | _ \<Rightarrow> False) then Inl (Refused ''token_not_yet_valid'')
      else Inr ())"

definition audience_ok :: "AuthConfig \<Rightarrow> json \<Rightarrow> bool" where
  "audience_ok cfg claims \<longleftrightarrow>
     (case member claims ''aud'' of
        Some (JStr s) \<Rightarrow> s = jwt_audience cfg
      | Some (JArr vs) \<Rightarrow> JStr (jwt_audience cfg) \<in> set vs
      | _ \<Rightarrow> False)"

definition issuer_and_audience :: "AuthConfig \<Rightarrow> json \<Rightarrow> jwt_failure + unit" where
  "issuer_and_audience cfg claims =
     rbind (if jwt_issuer cfg = [] then Inr ()
            else rbind (claim_text claims ''iss'') (\<lambda>i. if i \<noteq> jwt_issuer cfg then Inl (Refused ''bad_issuer'') else Inr ()))
       (\<lambda>_. if jwt_audience cfg \<noteq> [] \<and> \<not> audience_ok cfg claims then Inl (Refused ''bad_audience'') else Inr ())"

definition claim_array :: "json \<Rightarrow> string \<Rightarrow> string list" where
  "claim_array claims k = (case member claims k of None \<Rightarrow> [] | Some j \<Rightarrow> extract_string_array j)"

definition verify_jwt :: "auth_env \<Rightarrow> AuthConfig \<Rightarrow> int \<Rightarrow> string \<Rightarrow> jwt_failure + AuthPrincipal" where
  "verify_jwt e cfg now token =
     rbind (verify_hs256_jwt e token (jwt_secret cfg)) (\<lambda>claims.
     rbind (claim_text claims ''typ'') (\<lambda>typ.
     if typ = ''refresh'' then Inl (Refused ''wrong_token_type'')
     else
       rbind (in_validity now (jwt_leeway_sec cfg) claims) (\<lambda>_.
       rbind (issuer_and_audience cfg claims) (\<lambda>_.
       rbind (claim_text claims ''sub'') (\<lambda>sub.
       rbind (claim_text claims ''org'') (\<lambda>org.
       Inr \<lparr>pr_subject = sub, pr_roles = claim_array claims (jwt_roles_claim cfg), pr_scopes = claim_array claims (jwt_scopes_claim cfg),
            pr_org = org, pr_claims = claims\<rparr>))))))"

section \<open>Guards\<close>

text \<open>The principal of a request is the attribute the middleware has set, if it has.\<close>

definition has_role :: "AuthPrincipal option \<Rightarrow> string \<Rightarrow> bool" where
  "has_role p role \<longleftrightarrow> (case p of None \<Rightarrow> False | Some x \<Rightarrow> role \<in> set (pr_roles x))"

definition has_any_role :: "AuthPrincipal option \<Rightarrow> string list \<Rightarrow> bool" where
  "has_any_role p wanted \<longleftrightarrow> (case p of None \<Rightarrow> False | Some x \<Rightarrow> list_ex (\<lambda>w. w \<in> set (pr_roles x)) wanted)"

definition forbidden_with :: "string \<Rightarrow> string \<Rightarrow> json \<Rightarrow> response" where
  "forbidden_with code message extra = make_error \<lparr>err_status = 403, err_code = code, err_message = message, err_extra = extra\<rparr>"

definition require_role :: "AuthConfig \<Rightarrow> AuthPrincipal option \<Rightarrow> string \<Rightarrow> response option" where
  "require_role cfg p role =
     (if auth_mode cfg = AuthNone \<or> has_role p role then None
      else Some (forbidden_with ''forbidden'' [] (object [(''required_role'', JStr role)])))"

definition require_any_role :: "AuthConfig \<Rightarrow> AuthPrincipal option \<Rightarrow> string list \<Rightarrow> response option" where
  "require_any_role cfg p wanted =
     (if auth_mode cfg = AuthNone \<or> has_any_role p wanted then None
      else Some (forbidden_with ''forbidden'' [] (object [(''required_roles'', JArr (map JStr wanted))])))"

datatype 'a escaped = Done 'a | Escaped

definition require_confirmed :: "AuthConfig \<Rightarrow> AuthPrincipal option \<Rightarrow> response option escaped" where
  "require_confirmed cfg p =
     (if auth_mode cfg = AuthNone then Done None
      else
        (case p of
           None \<Rightarrow> Done (Some (unauthorized ''unauthorized'' []))
         | Some x \<Rightarrow>
             if \<not> is_object (pr_claims x) then Escaped
             else
               (case member (pr_claims x) ''confirmed'' of
                  Some (JBool True) \<Rightarrow> Done None
                | Some (JBool False) \<Rightarrow> Done (Some (forbidden_with ''email_unconfirmed'' ''Confirm your email address to access this resource'' JNull))
                | None \<Rightarrow> Done (Some (forbidden_with ''email_unconfirmed'' ''Confirm your email address to access this resource'' JNull))
                | Some _ \<Rightarrow> Escaped)))"

definition current_permissions :: "AuthPrincipal option \<Rightarrow> 32 word" where
  "current_permissions p =
     (case p of
        None \<Rightarrow> 0
      | Some x \<Rightarrow> (case member (pr_claims x) ''permissions'' of Some (JInt n) \<Rightarrow> word_of_int n | _ \<Rightarrow> 0))"

definition current_user_can :: "AuthPrincipal option \<Rightarrow> 32 word \<Rightarrow> bool" where
  "current_user_can p perm \<longleftrightarrow>
     (let have = current_permissions p
      in if have AND kAdminister = kAdminister then True else have AND perm = perm)"

definition require_permission :: "AuthConfig \<Rightarrow> AuthPrincipal option \<Rightarrow> 32 word \<Rightarrow> response option" where
  "require_permission cfg p perm =
     (if auth_mode cfg = AuthNone \<or> current_user_can p perm then None
      else Some (forbidden_with ''forbidden'' [] (object [(''required_permission'', JInt (uint perm))])))"

definition require_admin :: "AuthConfig \<Rightarrow> AuthPrincipal option \<Rightarrow> response option" where
  "require_admin cfg p = require_permission cfg p kAdminister"

definition require_principal :: "AuthPrincipal option \<Rightarrow> response + AuthPrincipal" where
  "require_principal p = (case p of None \<Rightarrow> Inl (unauthorized ''unauthorized'' []) | Some x \<Rightarrow> Inr x)"

definition require_owner :: "AuthPrincipal option \<Rightarrow> response + string" where
  "require_owner p =
     (case p of
        None \<Rightarrow> Inl (unauthorized ''unauthorized'' [])
      | Some x \<Rightarrow> if pr_subject x = [] then Inl (unauthorized ''unauthorized'' []) else Inr (pr_subject x))"

section \<open>What a request carries\<close>

definition bearer_prefix :: string where "bearer_prefix = ''Bearer ''"

definition extract_access_token :: "http_request \<Rightarrow> CookieConfig \<Rightarrow> string" where
  "extract_access_token req ck =
     (let header = hr_header req ''Authorization''
      in if cookies_enabled ck \<and> hr_cookie req (access_name ck) \<noteq> [] then hr_cookie req (access_name ck)
         else if length header > length bearer_prefix \<and> starts_with header bearer_prefix then drop (length bearer_prefix) header
         else [])"

definition extract_refresh_token :: "http_request \<Rightarrow> CookieConfig \<Rightarrow> string" where
  "extract_refresh_token req ck = (if cookies_enabled ck then hr_cookie req (refresh_name ck) else [])"

definition csrf_passes :: "bool \<Rightarrow> string \<Rightarrow> string \<Rightarrow> string \<Rightarrow> bool" where
  "csrf_passes unsafe access token_cookie token_header \<longleftrightarrow>
     (if \<not> unsafe \<or> access = [] then True
      else if token_cookie = [] \<or> token_header = [] then False
      else token_cookie = token_header)"

definition kPrefix :: string where "kPrefix = ''cpk_''"

definition key_after :: "string \<Rightarrow> string \<Rightarrow> string option" where
  "key_after authz scheme =
     (let tok = drop (length scheme) authz
      in if length authz > length scheme \<and> starts_with authz scheme \<and> starts_with tok kPrefix then Some tok else None)"

definition extract_key :: "http_request \<Rightarrow> string" where
  "extract_key req =
     (let x = hr_header req ''X-API-Key''; authz = hr_header req ''Authorization''
      in if x \<noteq> [] then x
         else
           (case key_after authz ''Bearer '' of
              Some tok \<Rightarrow> tok
            | None \<Rightarrow> (case key_after authz ''ApiKey '' of Some tok \<Rightarrow> tok | None \<Rightarrow> [])))"

definition kLastUsedThrottleSecs :: int where "kLastUsedThrottleSecs = 60"

definition bump_last_used :: "int \<Rightarrow> api_key_row \<Rightarrow> api_key_row" where
  "bump_last_used now k =
     (case ak_last_used k of
        None \<Rightarrow> k\<lparr>ak_last_used := Some now\<rparr>
      | Some t \<Rightarrow> if t < now - kLastUsedThrottleSecs then k\<lparr>ak_last_used := Some now\<rparr> else k)"

text \<open>One statement on the primary; \<open>up\<close> tells whether the database answers.\<close>

definition authenticate_key ::
  "(string \<Rightarrow> string) \<Rightarrow> bool \<Rightarrow> int \<Rightarrow> http_request \<Rightarrow> tenant_db \<Rightarrow> AuthPrincipal option \<times> tenant_db" where
  "authenticate_key sha up now req d =
     (let key = extract_key req
      in if key = [] \<or> \<not> up then (None, d)
         else
           (case find (\<lambda>k. ak_hash k = sha key \<and> ak_revoked k = None) (api_keys_t d) of
              None \<Rightarrow> (None, d)
            | Some k \<Rightarrow>
                (case find_user d (ak_user k) of
                   Some (u, Some r) \<Rightarrow>
                     (Some \<lparr>pr_subject = us_id u, pr_roles = [], pr_scopes = [], pr_org = [],
                            pr_claims = object [(''sub'', JStr (us_id u)), (''permissions'', JInt (sint (ro_permissions r)))]\<rparr>,
                      d\<lparr>api_keys_t := map (\<lambda>x. if ak_id x = ak_id k then bump_last_used now x else x) (api_keys_t d)\<rparr>)
                 | _ \<Rightarrow> (None, d))))"

section \<open>Middleware\<close>

text \<open>
  An advice lets the request pass, with the principal it has found, or answers it. The answer to a
  refused token carries the code in a header too.
\<close>

datatype advice = Pass "AuthPrincipal option" | Answer response "(string \<times> string) option" | Fails

definition unauthorized_advice :: "string \<Rightarrow> advice" where
  "unauthorized_advice code =
     Answer (unauthorized code []) (Some (''WWW-Authenticate'', ''Bearer error='' @ [CHR 0x22] @ code @ [CHR 0x22]))"

definition auth_advice ::
  "auth_env \<Rightarrow> AuthConfig \<Rightarrow> bool \<Rightarrow> int \<Rightarrow> http_request \<Rightarrow> tenant_db \<Rightarrow> advice \<times> tenant_db" where
  "auth_advice e cfg up now req d =
     (if auth_mode cfg = AuthNone \<or> hr_method req = ''OPTIONS'' \<or> path_is_public (auth_public_paths cfg) (hr_path req) then (Pass None, d)
      else if auth_mode cfg = Bearer then
        (if hr_header req ''Authorization'' = bearer_prefix @ bearer_token cfg then Pass None else unauthorized_advice ''invalid_token'', d)
      else if extract_key req \<noteq> [] then
        (case authenticate_key (hash_hex (cache_env e)) up now req d of
           (None, d') \<Rightarrow> (unauthorized_advice ''invalid_api_key'', d')
         | (Some p, d') \<Rightarrow> (Pass (Some p), d'))
      else
        let token = extract_access_token req (cookies cfg)
        in (if token = [] then unauthorized_advice ''missing_token''
            else
              (case verify_jwt e cfg now token of
                 Inl (Refused code) \<Rightarrow> unauthorized_advice code
               | Inl Thrown \<Rightarrow> Fails
               | Inr p \<Rightarrow> Pass (Some p)), d))"

definition csrf_advice :: "AuthConfig \<Rightarrow> string \<Rightarrow> http_request \<Rightarrow> response option" where
  "csrf_advice cfg header_name req =
     (if \<not> csrf_enabled (cookies cfg) then None
      else if csrf_passes (hr_method req \<in> {''POST'', ''PUT'', ''PATCH'', ''DELETE''}) (hr_cookie req (access_name (cookies cfg)))
                (hr_cookie req (csrf_cookie_name (cookies cfg))) (hr_header req header_name)
      then None
      else Some (forbidden ''csrf_failed'' ''CSRF token missing or invalid''))"

definition media_type :: "string \<Rightarrow> string" where
  "media_type ct =
     (let blank = (\<lambda>c. c = CHR '' '' \<or> c = CHR 0x09)
      in dropWhile blank (rev (dropWhile blank (rev (takeWhile (\<lambda>c. c \<noteq> CHR '';'') ct)))))"

definition ends_with :: "string \<Rightarrow> string \<Rightarrow> bool" where
  "ends_with s t \<longleftrightarrow> starts_with (rev s) (rev t)"

definition content_type_advice :: "http_request \<Rightarrow> response option" where
  "content_type_advice req =
     (let ct = media_type (hr_header req ''Content-Type'')
      in if hr_method req \<notin> {''POST'', ''PUT'', ''PATCH''} \<or> hr_body_empty req then None
         else if ct = ''application/json'' \<or> starts_with ct ''application/'' \<and> ends_with ct ''+json'' \<or> starts_with ct ''multipart/form-data''
         then None
         else Some (unsupported_media_type ''unsupported_media_type'' ''Content-Type must be application/json or multipart/form-data''))"

section \<open>Issued tokens are read back\<close>

lemma dot_not_alpha: "CHR ''.'' \<notin> set (url_encode s)"
proof -
  have "set (url_encode s) \<subseteq> set alpha"
    using sextets_bound [OF bytes_bound [of s]]
    by (auto simp: url_encode_sextets code_of_def list_all_iff)
  moreover have "CHR ''.'' \<notin> set alpha" by (simp add: alpha_def)
  ultimately show ?thesis by blast
qed

lemma split_dot_append: "CHR ''.'' \<notin> set a \<Longrightarrow> split_dot (a @ CHR ''.'' # b) = Some (a, b)"
proof -
  assume "CHR ''.'' \<notin> set a"
  then have "c \<noteq> CHR ''.''" if "c \<in> set a" for c using that by blast
  then show ?thesis by (simp add: split_dot_def takeWhile_append2 dropWhile_append2)
qed

lemma split_dot_SomeD: "split_dot s = Some (a, b) \<Longrightarrow> s = a @ CHR ''.'' # b \<and> CHR ''.'' \<notin> set a"
proof -
  assume a: "split_dot s = Some (a, b)"
  then have dot: "CHR ''.'' \<in> set s" and ab: "a = takeWhile (\<lambda>c. c \<noteq> CHR ''.'') s" "b = tl (dropWhile (\<lambda>c. c \<noteq> CHR ''.'') s)"
    by (auto simp: split_dot_def split: if_splits)
  have "dropWhile (\<lambda>c. c \<noteq> CHR ''.'') s \<noteq> []" using dot by (simp add: dropWhile_eq_Nil_conv)
  then have "dropWhile (\<lambda>c. c \<noteq> CHR ''.'') s = CHR ''.'' # b"
    using hd_dropWhile [of "\<lambda>c. c \<noteq> CHR ''.''" s] by (cases "dropWhile (\<lambda>c. c \<noteq> CHR ''.'') s") (auto simp: ab)
  then show ?thesis using takeWhile_dropWhile_id [of "\<lambda>c. c \<noteq> CHR ''.''" s] by (auto simp: ab dest: set_takeWhileD)
qed

lemma decoded_json_encode: "faithful (cache_env e) \<Longrightarrow> dump (cache_env e) j = Some t \<Longrightarrow> decoded_json e (url_encode t) = Some j"
  by (simp add: decoded_json_def b64.dec_enc faithful_def)

lemma check_header_own [simp]: "check_header jwt_header = Inr ()"
  by (simp add: check_header_def jwt_header_def text_value_def object_def)

lemma issued_verifies:
  assumes "faithful (cache_env e)" "issue_hs256_jwt e claims secret = Some token"
  shows "verify_hs256_jwt e token secret = Inr claims"
proof -
  obtain h p where h: "dump (cache_env e) jwt_header = Some h" and p: "dump (cache_env e) claims = Some p" and s: "secret \<noteq> []"
    and token: "token = url_encode h @ CHR ''.'' # (url_encode p @ CHR ''.'' #
                  url_encode (hmac e secret (url_encode h @ ''.'' @ url_encode p)))"
    using assms(2) by (auto simp: issue_hs256_jwt_def Let_def split: if_splits option.splits)
  show ?thesis
    unfolding verify_hs256_jwt_def token split_dot_append [OF dot_not_alpha]
    by (simp add: split_dot_append [OF dot_not_alpha] decoded_json_encode [OF assms(1) h] decoded_json_encode [OF assms(1) p] s
        check_signature_def b64.dec_enc)
qed

text \<open>What an accepted token is: signed with the secret.\<close>

definition signed_with :: "auth_env \<Rightarrow> string \<Rightarrow> string \<Rightarrow> json \<Rightarrow> bool" where
  "signed_with e secret token claims \<longleftrightarrow> (\<exists>h p s. token = h @ ''.'' @ p @ ''.'' @ s \<and> CHR ''.'' \<notin> set h \<union> set p \<and>
     url_decode s = Inr (hmac e secret (h @ ''.'' @ p)) \<and> decoded_json e p = Some claims)"

lemma verified_is_signed:
  assumes "verify_hs256_jwt e token secret = Inr claims"
  shows "secret \<noteq> [] \<and> signed_with e secret token claims"
proof -
  obtain h r p s where h: "split_dot token = Some (h, r)" and r: "split_dot r = Some (p, s)" and ne: "secret \<noteq> []"
    and sig: "check_signature e secret (h @ ''.'' @ p) s = Inr ()" and c: "decoded_json e p = Some claims"
    using assms by (auto simp: verify_hs256_jwt_def rbind_def split: option.splits sum.splits if_splits)
  from sig have "url_decode s = Inr (hmac e secret (h @ ''.'' @ p))"
    by (auto simp: check_signature_def split: sum.splits if_splits)
  with split_dot_SomeD [OF h] split_dot_SomeD [OF r] ne c show ?thesis unfolding signed_with_def by auto
qed

text \<open>The bounds on time and kind of an accepted access token.\<close>

lemma verify_jwtD:
  assumes "verify_jwt e cfg now token = Inr p"
  shows "signed_with e (jwt_secret cfg) token (pr_claims p) \<and> is_object (pr_claims p) \<and>
     member (pr_claims p) ''typ'' \<noteq> Some (JStr ''refresh'') \<and>
     (\<forall>x. member (pr_claims p) ''exp'' = Some (JInt x) \<longrightarrow> now \<le> x + jwt_leeway_sec cfg) \<and>
     (\<forall>x. member (pr_claims p) ''nbf'' = Some (JInt x) \<longrightarrow> x \<le> now + jwt_leeway_sec cfg) \<and>
     claim_text (pr_claims p) ''sub'' = Inr (pr_subject p) \<and> claim_text (pr_claims p) ''org'' = Inr (pr_org p)"
proof -
  obtain claims ty where v: "verify_hs256_jwt e token (jwt_secret cfg) = Inr claims" and t: "claim_text claims ''typ'' = Inr ty"
    and nr: "ty \<noteq> ''refresh''" and i: "in_validity now (jwt_leeway_sec cfg) claims = Inr ()"
    and s: "claim_text claims ''sub'' = Inr (pr_subject p)" and g: "claim_text claims ''org'' = Inr (pr_org p)" and c: "pr_claims p = claims"
    using assms by (auto simp: verify_jwt_def rbind_def split: sum.splits if_splits)
  have "is_object claims" "member claims ''typ'' \<noteq> Some (JStr ''refresh'')"
    using t nr by (auto simp: claim_text_def text_value_def split: option.splits if_splits)
  moreover have "now \<le> x + jwt_leeway_sec cfg" if "member claims ''exp'' = Some (JInt x)" for x
    using i that by (simp add: in_validity_def split: if_splits)
  moreover have "x \<le> now + jwt_leeway_sec cfg" if "member claims ''nbf'' = Some (JInt x)" for x
    using i that by (simp add: in_validity_def split: if_splits)
  ultimately show ?thesis using verified_is_signed [OF v] s g by (simp add: c)
qed

lemma authenticate_keyD:
  assumes "authenticate_key sha up now req d = (Some p, d')"
  shows "\<exists>k u r. k \<in> set (api_keys_t d) \<and> ak_hash k = sha (extract_key req) \<and> ak_revoked k = None \<and> ak_user k = us_id u \<and>
     find_user d (us_id u) = Some (u, Some r) \<and> pr_subject p = us_id u \<and> pr_org p = [] \<and> current_permissions (Some p) = ro_permissions r"
proof -
  obtain k u r where k: "find (\<lambda>k. ak_hash k = sha (extract_key req) \<and> ak_revoked k = None) (api_keys_t d) = Some k"
    and u: "find_user d (ak_user k) = Some (u, Some r)"
    and p: "p = \<lparr>pr_subject = us_id u, pr_roles = [], pr_scopes = [], pr_org = [],
                 pr_claims = object [(''sub'', JStr (us_id u)), (''permissions'', JInt (sint (ro_permissions r)))]\<rparr>"
    using assms by (auto simp: authenticate_key_def Let_def split: if_splits option.splits prod.splits)
  from u have "ak_user k = us_id u" by (auto simp: find_user_def with_role_def find_Some_iff)
  with k u show ?thesis
    by (intro exI [of _ k] exI [of _ u] exI [of _ r]) (auto simp: p current_permissions_def find_Some_iff)
qed

lemma auth_advice_pass:
  assumes "auth_advice e cfg up now req d = (Pass v, d')" "auth_mode cfg = Jwt" "hr_method req \<noteq> ''OPTIONS''"
    "\<not> path_is_public (auth_public_paths cfg) (hr_path req)"
  shows "(\<exists>p. v = Some p \<and> extract_key req \<noteq> [] \<and> authenticate_key (hash_hex (cache_env e)) up now req d = (Some p, d')) \<or>
     (\<exists>p. v = Some p \<and> extract_key req = [] \<and> d' = d \<and> extract_access_token req (cookies cfg) \<noteq> [] \<and>
        verify_jwt e cfg now (extract_access_token req (cookies cfg)) = Inr p)"
  using assms
  by (auto simp: auth_advice_def Let_def unauthorized_advice_def split: if_splits prod.splits option.splits sum.splits jwt_failure.splits)

end
