(* ===== verification/Tenants.thy ===== *)
theory Tenants
  imports Authentication
begin

text \<open>
  Organizations, their members and bank accounts: the repositories of \<^verbatim>\<open>src/src/tenancy\<close> over the tables
  of \<open>IdentityStore\<close>, the organization a request acts for (\<^verbatim>\<open>OrgContext.hpp\<close>), the handlers of
  \<^verbatim>\<open>src/src/api/OrganizationsController.hpp\<close> and \<^verbatim>\<open>src/src/api/BankAccountsController.hpp\<close>, and the
  requisites of the seller that \<^verbatim>\<open>src/src/api/DocgenController.hpp\<close> prints.

  Reads go to the replica \<open>rd\<close>, statements to the primary. The principal of the request is an argument.
\<close>

section \<open>Organizations\<close>

definition find_organization :: "Organization list \<Rightarrow> string \<Rightarrow> Organization option" where
  "find_organization gs i = find (\<lambda>g. og_id g = i) gs"

definition org_order :: "Organization list \<Rightarrow> Organization list" where
  "org_order gs = rev (sort_key og_created_at gs)"

definition list_organizations :: "tenant_db \<Rightarrow> nat \<Rightarrow> nat \<Rightarrow> Organization list" where
  "list_organizations d limit offset = take limit (drop offset (org_order (orgs d)))"

definition create_organization ::
  "string \<Rightarrow> int \<Rightarrow> string \<Rightarrow> string \<Rightarrow> string \<Rightarrow> bool \<Rightarrow> tenant_db \<Rightarrow> tenant_error + Organization \<times> tenant_db" where
  "create_organization new_id now bin name regime vat d =
     on_sql UniqueViolation DuplicateBin
       (rbind (identifier_column bin) (\<lambda>b.
        let g = \<lparr>og_id = new_id, og_bin = b, og_name = name, og_regime = regime, og_vat_payer = vat, og_status = ''active'',
                 og_address = [], og_director = [], og_director_position = utf8 [0x414, 0x438, 0x440, 0x435, 0x43A, 0x442, 0x43E, 0x440], og_vat_certificate = [], og_created_at = now\<rparr>
        in if regime \<notin> {''snr_simplified'', ''standard''} then Inl CheckViolation
           else if new_id \<in> og_id ` set (orgs d) \<or> b \<in> og_bin ` set (orgs d) then Inl UniqueViolation
           else Inr (g, d\<lparr>orgs := orgs d @ [g]\<rparr>)))"

definition update_org :: "string \<Rightarrow> (Organization \<Rightarrow> Organization) \<Rightarrow> tenant_db \<Rightarrow> bool \<times> tenant_db" where
  "update_org i f d = (i \<in> og_id ` set (orgs d), d\<lparr>orgs := map (\<lambda>g. if og_id g = i then f g else g) (orgs d)\<rparr>)"

definition update_org_status :: "string \<Rightarrow> string \<Rightarrow> tenant_db \<Rightarrow> tenant_error + bool \<times> tenant_db" where
  "update_org_status i st d =
     (if i \<in> og_id ` set (orgs d) \<and> st \<notin> {''active'', ''suspended'', ''archived''} then Inl (TenantSql CheckViolation)
      else Inr (update_org i (\<lambda>g. g\<lparr>og_status := st\<rparr>) d))"

definition update_requisites :: "string \<Rightarrow> string \<Rightarrow> string \<Rightarrow> string \<Rightarrow> string \<Rightarrow> tenant_db \<Rightarrow> bool \<times> tenant_db" where
  "update_requisites i addr dir pos cert =
     update_org i (\<lambda>g. g\<lparr>og_address := addr, og_director := dir, og_director_position := pos, og_vat_certificate := cert\<rparr>)"

section \<open>Members\<close>

definition membership_of :: "string \<Rightarrow> string \<Rightarrow> OrgMember \<Rightarrow> bool" where
  "membership_of org user m \<longleftrightarrow> mb_org m = org \<and> mb_user m = user"

definition find_membership :: "tenant_db \<Rightarrow> string \<Rightarrow> string \<Rightarrow> OrgMember option" where
  "find_membership d org user = find (membership_of org user) (org_members d)"

definition list_for_user :: "tenant_db \<Rightarrow> string \<Rightarrow> OrgMember list" where
  "list_for_user d user = sort_key mb_created_at (filter (\<lambda>m. mb_user m = user) (org_members d))"

definition list_members :: "tenant_db \<Rightarrow> string \<Rightarrow> OrgMember list" where
  "list_members d org = sort_key mb_created_at (filter (\<lambda>m. mb_org m = org) (org_members d))"

definition list_members_with_email :: "tenant_db \<Rightarrow> string \<Rightarrow> (string \<times> string \<times> string \<times> int) list" where
  "list_members_with_email d org =
     concat (map (\<lambda>m. map (\<lambda>u. (mb_user m, us_email u, mb_role m, mb_created_at m)) (filter (\<lambda>u. us_id u = mb_user m) (users_t d)))
       (list_members d org))"

definition member_roles :: "string list" where
  "member_roles = [''owner'', ''accountant'', ''hr'', ''viewer'', ''agent'']"

definition add_member :: "string \<Rightarrow> int \<Rightarrow> string \<Rightarrow> string \<Rightarrow> string \<Rightarrow> tenant_db \<Rightarrow> tenant_error + OrgMember \<times> tenant_db" where
  "add_member new_id now org user role d =
     on_sql UniqueViolation DuplicateMembership
       (let m = \<lparr>mb_id = new_id, mb_org = org, mb_user = user, mb_role = role, mb_created_at = now\<rparr>
        in if role \<notin> set member_roles then Inl CheckViolation
           else if new_id \<in> mb_id ` set (org_members d) \<or> list_ex (membership_of org user) (org_members d) then Inl UniqueViolation
           else if org \<notin> og_id ` set (orgs d) \<or> user \<notin> us_id ` set (users_t d) then Inl ForeignKeyViolation
           else Inr (m, d\<lparr>org_members := org_members d @ [m]\<rparr>))"

definition set_role :: "string \<Rightarrow> string \<Rightarrow> string \<Rightarrow> tenant_db \<Rightarrow> tenant_error + bool \<times> tenant_db" where
  "set_role org user role d =
     (if \<not> list_ex (membership_of org user) (org_members d) then Inr (False, d)
      else if role \<notin> set member_roles then Inl (TenantSql CheckViolation)
      else Inr (True, d\<lparr>org_members := map (\<lambda>m. if membership_of org user m then m\<lparr>mb_role := role\<rparr> else m) (org_members d)\<rparr>))"

definition remove_member :: "string \<Rightarrow> string \<Rightarrow> tenant_db \<Rightarrow> bool \<times> tenant_db" where
  "remove_member org user d =
     (list_ex (membership_of org user) (org_members d),
      d\<lparr>org_members := filter (\<lambda>m. \<not> membership_of org user m) (org_members d)\<rparr>)"

section \<open>Bank accounts\<close>

definition bank_order :: "BankAccount list \<Rightarrow> BankAccount list" where
  "bank_order bs = rev (sort_key (\<lambda>b. (bk_primary b, bk_created_at b)) bs)"

definition find_bank :: "tenant_db \<Rightarrow> string \<Rightarrow> string \<Rightarrow> BankAccount option" where
  "find_bank d i org = find_in_org bk_id bk_org (\<lambda>b. b) (bank_accounts d) i org"

definition clear_primary :: "string \<Rightarrow> string \<Rightarrow> tenant_db \<Rightarrow> tenant_db" where
  "clear_primary org keep_id d =
     d\<lparr>bank_accounts := map (\<lambda>b. if bk_org b = org \<and> bk_primary b \<and> (keep_id = [] \<or> bk_id b \<noteq> keep_id)
                                 then b\<lparr>bk_primary := False\<rparr> else b) (bank_accounts d)\<rparr>"

text \<open>A \<open>CHAR(3)\<close> column.\<close>

definition currency_column :: "string \<Rightarrow> sql_error + string" where
  "currency_column s =
     (if length s \<le> 3 then Inr (s @ replicate (3 - length s) (CHR '' ''))
      else if list_all (\<lambda>c. c = CHR '' '') (drop 3 s) then Inr (take 3 s) else Inl InvalidText)"

definition bank_clash :: "BankAccount \<Rightarrow> BankAccount \<Rightarrow> bool" where
  "bank_clash b x \<longleftrightarrow> bk_id x \<noteq> bk_id b \<and> bk_org x = bk_org b \<and> (bk_iik x = bk_iik b \<or> bk_primary x \<and> bk_primary b)"

definition create_bank :: "string \<Rightarrow> int \<Rightarrow> string \<Rightarrow> BankAccount \<Rightarrow> tenant_db \<Rightarrow> tenant_error + BankAccount \<times> tenant_db" where
  "create_bank new_id now org draft d =
     on_sql UniqueViolation DuplicateBankAccount
       (let d1 = (if bk_primary draft then clear_primary org [] d else d)
        in rbind (currency_column (if bk_currency draft = [] then ''KZT'' else bk_currency draft)) (\<lambda>cur.
           let b = draft\<lparr>bk_id := new_id, bk_org := org, bk_currency := cur, bk_created_at := now\<rparr>
           in if new_id \<in> bk_id ` set (bank_accounts d1) \<or> list_ex (bank_clash b) (bank_accounts d1) then Inl UniqueViolation
              else if org \<notin> og_id ` set (orgs d1) then Inl ForeignKeyViolation
              else Inr (b, d1\<lparr>bank_accounts := bank_accounts d1 @ [b]\<rparr>)))"

definition update_bank :: "string \<Rightarrow> string \<Rightarrow> BankAccount \<Rightarrow> tenant_db \<Rightarrow> tenant_error + BankAccount option \<times> tenant_db" where
  "update_bank org i patch d =
     on_sql UniqueViolation DuplicateBankAccount
       (let d1 = (if bk_primary patch then clear_primary org i d else d)
        in case find (\<lambda>b. bk_id b = i \<and> bk_org b = org) (bank_accounts d1) of
             None \<Rightarrow> Inr (None, d1)
           | Some old \<Rightarrow>
               rbind (currency_column (if bk_currency patch = [] then ''KZT'' else bk_currency patch)) (\<lambda>cur.
               let b = patch\<lparr>bk_id := i, bk_org := org, bk_currency := cur, bk_created_at := bk_created_at old\<rparr>
               in if list_ex (bank_clash b) (bank_accounts d1) then Inl UniqueViolation
                  else Inr (Some b, d1\<lparr>bank_accounts := map (\<lambda>x. if bk_id x = i \<and> bk_org x = org then b else x) (bank_accounts d1)\<rparr>)))"

definition remove_bank :: "string \<Rightarrow> string \<Rightarrow> tenant_db \<Rightarrow> bool \<times> tenant_db" where
  "remove_bank org i d =
     (list_ex (\<lambda>b. bk_id b = i \<and> bk_org b = org) (bank_accounts d),
      d\<lparr>bank_accounts := filter (\<lambda>b. \<not> (bk_id b = i \<and> bk_org b = org)) (bank_accounts d)\<rparr>)"

definition find_primary :: "tenant_db \<Rightarrow> string \<Rightarrow> BankAccount option" where
  "find_primary d org = find (\<lambda>b. bk_org b = org \<and> bk_primary b) (bank_accounts d)"

text \<open>The requisites of the seller.\<close>

definition load_seller_of :: "tenant_db \<Rightarrow> string \<Rightarrow> SellerRequisites" where
  "load_seller_of d org =
     (let g = find_organization (orgs d) org; b = find_primary d org;
          of_org = (\<lambda>f. case g of None \<Rightarrow> [] | Some x \<Rightarrow> f x); of_bank = (\<lambda>f. case b of None \<Rightarrow> [] | Some x \<Rightarrow> f x)
      in \<lparr>seller_name = of_org og_name, seller_identifier = of_org og_bin, seller_address = of_org og_address,
          seller_iik = of_bank bk_iik, seller_bank = of_bank bk_name, seller_bik = of_bank bk_bik, seller_kbe = of_bank bk_kbe,
          vat_certificate = of_org og_vat_certificate\<rparr>)"

section \<open>The organization of a request\<close>

definition org_context_of :: "tenant_db \<Rightarrow> AuthPrincipal option \<Rightarrow> OrgContext option" where
  "org_context_of rd p =
     (case p of
        None \<Rightarrow> None
      | Some x \<Rightarrow>
          if pr_subject x = [] \<or> pr_org x = [] then None
          else
            (case find_membership rd (pr_org x) (pr_subject x) of
               None \<Rightarrow> None
             | Some m \<Rightarrow> Some \<lparr>oc_org = pr_org x, oc_user = pr_subject x, oc_role = mb_role m\<rparr>))"

definition require_org :: "tenant_db \<Rightarrow> AuthPrincipal option \<Rightarrow> response + OrgContext" where
  "require_org rd p = (case org_context_of rd p of None \<Rightarrow> Inl (forbidden ''forbidden'' []) | Some ctx \<Rightarrow> Inr ctx)"

definition is_valid_role :: "string \<Rightarrow> bool" where
  "is_valid_role r \<longleftrightarrow> r = ''owner'' \<or> r = ''accountant'' \<or> r = ''hr'' \<or> r = ''viewer''"

definition actor_of :: "AuthPrincipal option \<Rightarrow> string" where
  "actor_of p = (case p of None \<Rightarrow> [] | Some x \<Rightarrow> pr_subject x)"

end
