(* ===== verification/PayrollApi.thy ===== *)
theory PayrollApi
  imports Payroll DocumentsApi Tenants
begin

text \<open>
  The payroll endpoints: \<^verbatim>\<open>src/src/api/PayrollController.hpp\<close> over \<open>Payroll\<close>, with the filtered listing
  of \<^verbatim>\<open>src/src/payroll/PayrollRepository.hpp\<close>. Printing a payslip joins payroll, the employees, the
  organization and the document registry.

  A handler answers \<open>Reply\<close>, or \<open>Raised\<close> the exception of the service, which \<open>with_repo_errors\<close> turns
  into a reply: \<open>raised_reply\<close> has its status and code; the texts of these messages are left out.
\<close>

section \<open>Listing\<close>

definition run_order :: "PayrollRun list \<Rightarrow> PayrollRun list" where
  "run_order rs = rev (sort_key (\<lambda>r. (period_year r, period_month r)) rs)"

definition in_year :: "string option \<Rightarrow> PayrollRun \<Rightarrow> bool" where
  "in_year y r \<longleftrightarrow> (case y of None \<Rightarrow> True | Some t \<Rightarrow> period_year r = dec_val t)"

definition list_runs :: "pay_db \<Rightarrow> string \<Rightarrow> string option \<Rightarrow> nat \<Rightarrow> nat \<Rightarrow> PayrollRun list" where
  "list_runs d org y limit offset =
     take limit (drop offset (run_order (filter (\<lambda>r. run_org r = org \<and> in_year y r) (runs d))))"

definition count_runs :: "pay_db \<Rightarrow> string \<Rightarrow> string option \<Rightarrow> nat" where
  "count_runs d org y = length (filter (\<lambda>r. run_org r = org \<and> in_year y r) (runs d))"

section \<open>Replies\<close>

datatype fault_reply = Reply response | Raised pay_error

definition raised_reply :: "pay_error \<Rightarrow> int \<times> string" where
  "raised_reply e =
     (case e of
        InvalidRunState \<Rightarrow> (409, ''invalid_run_state'')
      | GrossSalaryOutOfRange _ \<Rightarrow> (409, ''gross_salary_out_of_range'')
      | RunNotFound \<Rightarrow> (404, ''not_found'')
      | _ \<Rightarrow> (500, ''internal_error''))"

definition reply_of :: "response + 'a \<Rightarrow> fault_reply + 'a" where
  "reply_of x = (case x of Inl r \<Rightarrow> Inl (Reply r) | Inr a \<Rightarrow> Inr a)"

definition run_uuid :: "string \<Rightarrow> response + unit" where
  "run_uuid i = (if is_uuid_segment i then Inr () else Inl (bad_request ''invalid_id'' ''Malformed payroll run id'' (JObj [])))"

definition kMinYear :: int where "kMinYear = 2000"
definition kMaxYear :: int where "kMaxYear = 2100"

definition year_range_text :: string where
  "year_range_text = ''must be between '' @ to_string kMinYear @ '' and '' @ to_string kMaxYear"

definition is_plain_integer :: "string \<Rightarrow> bool" where
  "is_plain_integer s \<longleftrightarrow> s \<noteq> [] \<and> length s \<le> 9 \<and> list_all isdigit s"

definition parse_year_filter :: "string \<Rightarrow> response + string option" where
  "parse_year_filter param =
     (if param = [] then Inr None
      else if \<not> is_plain_integer param then Inl (response_422 ''year'' ''not_integer'' ''must be a 4-digit calendar year'')
      else if parse_int param 0 < kMinYear \<or> parse_int param 0 > kMaxYear then
        Inl (response_422 ''year'' ''out_of_range'' year_range_text)
      else Inr (Some param))"

section \<open>Handlers\<close>

definition payroll_list :: "OrgContext \<Rightarrow> (string \<Rightarrow> string) \<Rightarrow> pay_db \<Rightarrow> response + PayrollRun list \<times> nat" where
  "payroll_list ctx q rd =
     rbind (require_org_perm ctx kPayroll kRead) (\<lambda>_.
     rbind (parse_year_filter (q ''year'')) (\<lambda>y.
     case parse_page_params q 50 200 of (limit, offset) \<Rightarrow>
     Inr (list_runs rd (oc_org ctx) y (nat limit) (nat offset), count_runs rd (oc_org ctx) y)))"

text \<open>\<open>json::get<int>\<close> of an integer converts it to 32 bits.\<close>

definition get_int32 :: "json \<Rightarrow> string \<Rightarrow> int" where
  "get_int32 b field = sint (word_of_int (int_of b field) :: 32 word)"

definition must_be_integer :: "errors \<Rightarrow> json \<Rightarrow> string \<Rightarrow> errors" where
  "must_be_integer errs b field =
     (case member b field of
        None \<Rightarrow> errs
      | Some (JInt _) \<Rightarrow> errs
      | Some _ \<Rightarrow> add_error errs field ''not_integer'' ''must be an integer'')"

definition period_shape :: "json \<Rightarrow> errors" where
  "period_shape b =
     (let e1 = fst (require [] b ''year''); e2 = fst (require e1 b ''month'')
      in must_be_integer (must_be_integer e2 b ''year'') b ''month'')"

definition period_values :: "int \<Rightarrow> int \<Rightarrow> errors" where
  "period_values y m =
     (let e1 = (if y < kMinYear \<or> y > kMaxYear then add_error [] ''year'' ''out_of_range'' year_range_text else [])
      in if m < 1 \<or> m > 12 then add_error e1 ''month'' ''out_of_range'' ''must be between 1 and 12'' else e1)"

definition payroll_period :: "OrgContext \<Rightarrow> json option \<Rightarrow> response + nat \<times> nat" where
  "payroll_period ctx req =
     rbind (require_org_perm ctx kPayroll kWrite) (\<lambda>_.
     rbind (parse_body req) (\<lambda>b.
     if period_shape b \<noteq> [] then Inl (response_400 (period_shape b))
     else
       let y = get_int32 b ''year''; m = get_int32 b ''month''
       in if period_values y m \<noteq> [] then Inl (response_422_all (period_values y m)) else Inr (nat y, nat m)))"

definition payroll_calculate ::
  "pay_db \<Rightarrow> (nat \<Rightarrow> string) \<Rightarrow> int \<Rightarrow> OrgContext \<Rightarrow> json option \<Rightarrow> pay_db \<Rightarrow> (fault_reply + PayrollRun) \<times> pay_db" where
  "payroll_calculate rd gen now ctx req d =
     (case payroll_period ctx req of
        Inl r \<Rightarrow> (Inl (Reply r), d)
      | Inr (y, m) \<Rightarrow>
          (case calculate_run rd gen now (oc_org ctx) y m d of
             Inl (MissingPayrollReference kind ref date) \<Rightarrow>
               (Inl (Reply (response_422 ''year'' ''missing_tax_reference''
                  (''no tax '' @ kind @ '' '' @ quoted ref @ '' is in force on '' @ date @ '' (the last day of the requested period)''))), d)
           | Inl e \<Rightarrow> (Inl (Raised e), d)
           | Inr (run, d') \<Rightarrow> (Inr run, d')))"

definition payroll_approve :: "OrgContext \<Rightarrow> string \<Rightarrow> pay_db \<Rightarrow> (fault_reply + PayrollRun) \<times> pay_db" where
  "payroll_approve ctx i d =
     (case rbind (require_org_perm ctx kPayroll kWrite) (\<lambda>_. run_uuid i) of
        Inl r \<Rightarrow> (Inl (Reply r), d)
      | Inr _ \<Rightarrow>
          (case approve (oc_org ctx) i d of
             Inl e \<Rightarrow> (Inl (Raised e), d)
           | Inr (None, d') \<Rightarrow> (Inl (Reply (not_found ''payroll run'')), d')
           | Inr (Some r, d') \<Rightarrow> (Inr r, d')))"

definition payroll_post ::
  "pg \<Rightarrow> db \<Rightarrow> (nat \<Rightarrow> string) \<Rightarrow> int \<Rightarrow> OrgContext \<Rightarrow> string \<Rightarrow> app \<Rightarrow> (fault_reply + string) \<times> app" where
  "payroll_post p rd gen now ctx i s =
     (case rbind (require_org_perm ctx kPayrollPosting kWrite) (\<lambda>_. run_uuid i) of
        Inl r \<Rightarrow> (Inl (Reply r), s)
      | Inr _ \<Rightarrow>
          (case find_run_in_org (pay s) i (oc_org ctx) of
             None \<Rightarrow> (Inl (Reply (not_found ''payroll run'')), s)
           | Some run \<Rightarrow>
               if list_payslips (pay s) run = [] then
                 (Inl (Reply (conflict ''empty_run'' (''This payroll run has no payslips yet '' @ utf8 [0x2014] @ '' calculate it first''))), s)
               else
                 (case post_to_journal p rd gen now (oc_org ctx) i (oc_user ctx) s of
                    (s', Inl e) \<Rightarrow> (Inl (Raised e), s')
                  | (s', Inr eid) \<Rightarrow> (Inr eid, s'))))"

definition payroll_payslips :: "OrgContext \<Rightarrow> string \<Rightarrow> pay_db \<Rightarrow> response + Payslip list" where
  "payroll_payslips ctx i rd =
     rbind (require_org_perm ctx kPayroll kRead) (\<lambda>_.
     rbind (run_uuid i) (\<lambda>_.
     case find_run_in_org rd i (oc_org ctx) of
       None \<Rightarrow> Inl (not_found ''payroll run'')
     | Some run \<Rightarrow> Inr (list_payslips rd run)))"

section \<open>The printed payslip\<close>

definition full_name :: "Employee \<Rightarrow> string" where
  "full_name e =
     last_name e @ '' '' @ first_name e @
     (case middle_name e of None \<Rightarrow> [] | Some m \<Rightarrow> if m = [] then [] else '' '' @ m)"

definition payslip_kMonthsRu :: "string list" where
  "payslip_kMonthsRu = [[], utf8 [0x42F, 0x43D, 0x432, 0x430, 0x440, 0x44C], utf8 [0x424, 0x435, 0x432, 0x440, 0x430, 0x43B, 0x44C], utf8 [0x41C, 0x430, 0x440, 0x442], utf8 [0x410, 0x43F, 0x440, 0x435, 0x43B, 0x44C], utf8 [0x41C, 0x430, 0x439], utf8 [0x418, 0x44E, 0x43D, 0x44C], utf8 [0x418, 0x44E, 0x43B, 0x44C], utf8 [0x410, 0x432, 0x433, 0x443, 0x441, 0x442], utf8 [0x421, 0x435, 0x43D, 0x442, 0x44F, 0x431, 0x440, 0x44C], utf8 [0x41E, 0x43A, 0x442, 0x44F, 0x431, 0x440, 0x44C], utf8 [0x41D, 0x43E, 0x44F, 0x431, 0x440, 0x44C], utf8 [0x414, 0x435, 0x43A, 0x430, 0x431, 0x440, 0x44C]]"

definition period_label_ru :: "nat \<Rightarrow> nat \<Rightarrow> string" where
  "period_label_ru year month =
     (if month < 1 \<or> month > 12 then dec month @ ''.'' @ dec year else payslip_kMonthsRu ! month @ '' '' @ dec year)"

definition payslip_allowed_extra_fields :: "string list" where
  "payslip_allowed_extra_fields = []"

fun printed_amounts :: "(string \<times> int) list \<Rightarrow> money_error + (string \<times> json) list" where
  "printed_amounts [] = Inr []"
| "printed_amounts ((k, v) # xs) =
     rbind (format_tiyn_ru v) (\<lambda>t. rbind (printed_amounts xs) (\<lambda>ys. Inr ((k, JStr t) # ys)))"

definition payslip_amounts :: "Payslip \<Rightarrow> (string \<times> int) list" where
  "payslip_amounts p =
     [(''gross_tenge'', ps_gross p), (''opv'', ps_opv p), (''vosms'', ps_vosms p), (''ipn'', ps_ipn p), (''net'', ps_net p),
      (''opvr'', ps_opvr p), (''so'', ps_so p), (''osms'', ps_osms p), (''social_tax'', ps_social_tax p)]"

definition payslip_input :: "PayrollRun \<Rightarrow> Payslip \<Rightarrow> Employee \<Rightarrow> Organization \<Rightarrow> money_error + json" where
  "payslip_input run p e g =
     rbind (printed_amounts (payslip_amounts p)) (\<lambda>amounts.
     rbind (to_words_ru (ps_net p)) (\<lambda>words.
     Inr (object ([(''period_label'', JStr (period_label_ru (period_year run) (period_month run))),
                   (''employer'', object [(''name'', JStr (og_name g)), (''bin'', JStr (og_bin g))]),
                   (''employee'', object [(''full_name'', JStr (full_name e)), (''iin'', JStr (iin e)), (''position'', JStr (emp_position e))])]
                  @ amounts @ [(''net_words'', JStr words)]))))"

definition employee_uuid :: "string \<Rightarrow> response + unit" where
  "employee_uuid i = (if is_uuid_segment i then Inr () else Inl (bad_request ''invalid_employee_id'' ''Malformed employee id'' (JObj [])))"

text \<open>Everything before the document is created; all reads may go to the replica.\<close>

definition payslip_check ::
  "api_env \<Rightarrow> pay_db \<Rightarrow> Organization list \<Rightarrow> OrgContext \<Rightarrow> string \<Rightarrow> string \<Rightarrow> bool \<Rightarrow> json option \<Rightarrow> response + json \<times> template_info" where
  "payslip_check e rd gs ctx i eid empty_body req =
     rbind (require_org_perm ctx kPayroll kWrite) (\<lambda>_.
     rbind (run_uuid i) (\<lambda>_.
     rbind (employee_uuid eid) (\<lambda>_.
     rbind (parse_optional_body empty_body req) (\<lambda>extra.
     case find_run_in_org rd i (oc_org ctx) of
       None \<Rightarrow> Inl (not_found ''payroll run'')
     | Some run \<Rightarrow>
         (case find (\<lambda>p. ps_employee p = eid) (list_payslips rd run) of
            None \<Rightarrow> Inl (not_found ''payslip'')
          | Some p \<Rightarrow>
              (case find_in_org emp_id emp_org (\<lambda>x. x) (employees rd) eid (oc_org ctx) of
                 None \<Rightarrow> Inl sql_failed
               | Some emp \<Rightarrow>
                   (case find_organization gs (oc_org ctx) of
                      None \<Rightarrow> Inl sql_failed
                    | Some g \<Rightarrow>
                        (case payslip_input run p emp g of
                           Inl _ \<Rightarrow> Inl sql_failed
                         | Inr input0 \<Rightarrow>
                             rbind (merge_allowed_extra input0 (members extra) payslip_allowed_extra_fields) (\<lambda>input.
                             case template_latest e ''payslip'' of
                               None \<Rightarrow> Inl sql_failed
                             | Some info \<Rightarrow>
                                 rbind (schema_check e info input) (\<lambda>_.
                                 rbind (require_jobs e) (\<lambda>_. Inr (input, info))))))))))))"

definition generate_payslip ::
  "api_env \<Rightarrow> pay_db \<Rightarrow> Organization list \<Rightarrow> db \<Rightarrow> (nat \<Rightarrow> string) \<Rightarrow> int \<Rightarrow> OrgContext \<Rightarrow> string \<Rightarrow> string \<Rightarrow> bool \<Rightarrow>
   json option \<Rightarrow> api_state \<Rightarrow> (response + string \<times> bool) \<times> api_state" where
  "generate_payslip e rd gs j gen now ctx i eid empty_body req s =
     (case payslip_check e rd gs ctx i eid empty_body req of
        Inl r \<Rightarrow> (Inl r, s)
      | Inr (input, info) \<Rightarrow>
          let org = oc_org ctx
          in case create_document j gen now org ''payroll'' ''generated'' ''draft'' None (Some (tpl_slug info)) (Some (tpl_version info))
                    (Some input) None (docs s) of
               Inl _ \<Rightarrow> (Inl sql_failed, s)
             | Inr (_, d1) \<Rightarrow>
                 let ver = (case latest_version d1 org (gen 0) of None \<Rightarrow> [] | Some v \<Rightarrow> ver_id v);
                     (queued, s') = enqueue e (render_payload org (gen 0) ver ''payslip'' input) (s\<lparr>docs := d1\<rparr>)
                 in (Inr (gen 0, queued), s'))"

section \<open>What a printed payslip shows\<close>

lemma no_extra: "validate_extra_allowlist m [] p = Inr () \<Longrightarrow> m = []"
proof (induction m "[] :: string list" p rule: validate_extra_allowlist.induct)
  case (2 k v m p)
  then show ?case by (auto simp: Let_def rbind_def split: json.splits list.splits sum.splits)
qed simp

lemma merge_no_extra: "merge_allowed_extra (object kvs) m [] = Inr j \<Longrightarrow> j = object kvs"
  using no_extra by (fastforce simp: merge_allowed_extra_def rbind_def members_def object_def split: sum.splits)

lemma printed_amounts_map_of:
  "printed_amounts xs = Inr ys \<Longrightarrow> map fst ys = map fst xs \<and> (\<forall>(k, v) \<in> set xs. \<exists>t. format_tiyn_ru v = Inr t \<and> (k, JStr t) \<in> set ys)"
proof (induction xs arbitrary: ys rule: printed_amounts.induct)
  case (2 k v xs)
  then show ?case by (fastforce simp: rbind_def split: sum.splits)
qed simp

definition shows_payslip :: "json \<Rightarrow> Payslip \<Rightarrow> bool" where
  "shows_payslip input p \<longleftrightarrow>
     (\<forall>(k, v) \<in> set (payslip_amounts p). \<exists>t. format_tiyn_ru v = Inr t \<and> member input k = Some (JStr t)) \<and>
     (\<exists>w. to_words_ru (ps_net p) = Inr w \<and> read_amount read_ru w = ps_net p \<and> member input ''net_words'' = Some (JStr w))"

lemma to_words_ru_range: "to_words_ru n = Inr w \<Longrightarrow> 0 \<le> n \<and> n \<le> kMaxTiyn"
  by (auto simp: to_words_ru_def split: if_splits)

lemma payslip_input_shows:
  assumes "payslip_input run p e g = Inr input"
  shows "shows_payslip input p \<and> (\<exists>kvs. input = object kvs)"
proof -
  from assms obtain ys w where ys: "printed_amounts (payslip_amounts p) = Inr ys" and w: "to_words_ru (ps_net p) = Inr w"
    and input: "input = object ([(''period_label'', JStr (period_label_ru (period_year run) (period_month run))),
                   (''employer'', object [(''name'', JStr (og_name g)), (''bin'', JStr (og_bin g))]),
                   (''employee'', object [(''full_name'', JStr (full_name e)), (''iin'', JStr (iin e)), (''position'', JStr (emp_position e))])]
                  @ ys @ [(''net_words'', JStr w)])"
    by (auto simp: payslip_input_def rbind_def split: sum.splits)
  note pa = printed_amounts_map_of [OF ys]
  have keys: "map fst ys = [''gross_tenge'', ''opv'', ''vosms'', ''ipn'', ''net'', ''opvr'', ''so'', ''osms'', ''social_tax'']"
    using pa by (simp add: payslip_amounts_def)
  have "member input k = Some (JStr t)" if t: "(k, JStr t) \<in> set ys" for k t
  proof -
    have k: "k \<in> set (map fst ys)" using t by force
    have "distinct (map fst (rev ys))" using keys by (simp flip: rev_map)
    then have "map_of (rev ys) k = Some (JStr t)" using t by (simp add: map_of_eq_Some_iff)
    moreover have "k \<noteq> ''net_words''" using k unfolding keys by auto
    ultimately show ?thesis by (simp add: input map_of_append map_add_Some_iff)
  qed
  then have "\<forall>(k, v) \<in> set (payslip_amounts p). \<exists>t. format_tiyn_ru v = Inr t \<and> member input k = Some (JStr t)"
    using pa by blast
  moreover have "member input ''net_words'' = Some (JStr w)" by (simp add: input)
  moreover have "read_amount read_ru w = ps_net p"
    using to_words_ru_range [OF w] ru.read_say [of "ps_net p"] w by (simp add: to_words_ru_say kMaxTiyn_def)
  ultimately show ?thesis using w input by (auto simp: shows_payslip_def)
qed

lemma create_documentD:
  assumes "create_document j gen now org ty src st cp slug tpl inp author d = Inr (x, d')"
  shows "\<exists>r v. documents d' = documents d @ [r] \<and> versions d' = versions d @ [v] \<and> d_id r = gen 0 \<and> d_org r = org \<and> d_type r = ty \<and>
     v_document v = gen 0 \<and> v_no v = 1 \<and> v_input v = inp"
proof -
  obtain d1 v where d1: "insert_document j (gen 0) now org ty src st cp slug d = Inr d1"
    and v: "insert_version j (gen 1) now org (gen 0) 1 tpl inp author d1 = Inr (v, d')"
    using assms by (auto simp: create_document_def rbind_def split: sum.splits)
  from d1 have "\<exists>r. d1 = d\<lparr>documents := documents d @ [r]\<rparr> \<and> d_id r = gen 0 \<and> d_org r = org \<and> d_type r = ty"
    unfolding insert_document_def Let_def by (simp split: if_splits) force
  with v show ?thesis by (auto simp: insert_version_def Let_def split: if_splits)
qed

lemma payslip_check_shows:
  assumes "payslip_check e rd gs ctx i eid empty_body req = Inr (input, info)"
  shows "\<exists>run p. find_run_in_org rd i (oc_org ctx) = Some run \<and> p \<in> set (list_payslips rd run) \<and> ps_employee p = eid \<and>
     shows_payslip input p"
proof -
  from assms obtain run p emp g input0 m where
    run: "find_run_in_org rd i (oc_org ctx) = Some run" and p: "find (\<lambda>p. ps_employee p = eid) (list_payslips rd run) = Some p"
    and inp: "payslip_input run p emp g = Inr input0" and mg: "merge_allowed_extra input0 m [] = Inr input"
    by (auto simp: payslip_check_def rbind_def payslip_allowed_extra_fields_def
        split: sum.splits option.splits if_splits)
  obtain kvs where "input0 = object kvs" using payslip_input_shows [OF inp] by blast
  with mg merge_no_extra have "input = input0" by blast
  moreover have "p \<in> set (list_payslips rd run)" "ps_employee p = eid"
    using p by (auto simp: find_Some_iff in_set_conv_nth)
  ultimately show ?thesis using payslip_input_shows [OF inp] run by blast
qed


text \<open>A run of one employee, with the files of the endpoint.\<close>

definition uid :: "string \<Rightarrow> string" where
  "uid s = s @ ''0000000-0000-0000-0000-000000000000''"

definition demo_slip :: Payslip where
  "demo_slip = \<lparr>ps_id = ''p'', ps_org = ''o'', ps_run = uid ''1'', ps_employee = uid ''2'', ps_gross = 20000000, ps_opv = 2000000, ps_vosms = 400000,
     ps_ipn = 1000000, ps_net = 16600000, ps_opvr = 300000, ps_so = 900000, ps_osms = 600000, ps_social_tax = 0, ps_created_at = 1\<rparr>"

definition demo_pay :: pay_db where
  "demo_pay =
     \<lparr>runs = [\<lparr>run_id = uid ''1'', run_org = ''o'', period_year = 2026, period_month = 2, run_status = ''approved'',
               rates_snapshot = (undefined, []), journal_entry_id = None, run_payslips = []\<rparr>],
      payslips = [demo_slip],
      employees = [\<lparr>emp_id = uid ''2'', emp_org = ''o'', iin = ''i'', last_name = ''A'', first_name = ''B'', middle_name = None,
                    emp_position = ''c'', salary_tiyn = 20000000, hired_on = [], dismissed_on = None, ipn_deduction = False,
                    opvr_free = False, payout_iik = [], emp_status = ''active'', emp_created_at = 0\<rparr>],
      tax_rates = [], tax_constants = [], tax_regimes = []\<rparr>"

definition demo_api :: api_env where
  "demo_api =
     \<lparr>presign = None, storage_up = True, object_exists = (\<lambda>_. False),
      template_latest = (\<lambda>slug. Some \<lparr>tpl_slug = slug, tpl_version = ''1.0'', tpl_schema = JNull\<rparr>),
      validate_schema = (\<lambda>_ _. None), load_seller = (\<lambda>_. \<lparr>seller_name = [], seller_identifier = [], seller_address = [], seller_iik = [],
        seller_bank = [], seller_bik = [], seller_kbe = [], vat_certificate = []\<rparr>), jobs_ready = True, submit_works = True\<rparr>"

definition demo_company :: Organization where
  "demo_company = \<lparr>og_id = ''o'', og_bin = ''b'', og_name = ''n'', og_regime = ''standard'', og_vat_payer = False, og_status = ''active'', og_address = [],
     og_director = [], og_director_position = [], og_vat_certificate = [], og_created_at = 0\<rparr>"

lemma demo_company_simps [simp]: "og_id demo_company = ''o''"
  by (simp add: demo_company_def)

definition demo_request :: "(response + string \<times> bool) \<times> api_state" where
  "demo_request =
     generate_payslip demo_api demo_pay [demo_company]
       \<lparr>organizations = [''o''], users = [], accounts = [], counterparties = [], entries = [], jlines = []\<rparr>
       (\<lambda>n. if n = 0 then ''d'' else ''v'') 5 \<lparr>oc_org = ''o'', oc_user = ''u'', oc_role = ''owner''\<rparr> (uid ''1'') (uid ''2'') True None
       \<lparr>docs = \<lparr>documents = [], versions = [], links = [], held = []\<rparr>, audit = [], queue = []\<rparr>"

lemma printed_amounts_total: "\<forall>(k, v) \<in> set xs. 0 \<le> v \<Longrightarrow> \<exists>ys. printed_amounts xs = Inr ys"
  by (induction xs rule: printed_amounts.induct) (auto simp: format_tiyn_ru_def rbind_def Let_def)

lemma payslip_input_total:
  assumes "\<forall>(k, v) \<in> set (payslip_amounts p). 0 \<le> v" and "ps_net p \<le> kMaxTiyn"
  shows "\<exists>kvs. payslip_input run p e g = Inr (object kvs)"
proof -
  obtain ys where "printed_amounts (payslip_amounts p) = Inr ys" using printed_amounts_total [OF assms(1)] by blast
  moreover have "0 \<le> ps_net p" using assms(1) by (simp add: payslip_amounts_def)
  with assms(2) obtain w where "to_words_ru (ps_net p) = Inr w" by (auto simp: to_words_ru_say kMaxTiyn_def)
  ultimately show ?thesis by (auto simp: payslip_input_def)
qed

lemma demo_rights: "allows ''owner'' kPayroll kWrite" "is_uuid_segment (uid ''1'')" "is_uuid_segment (uid ''2'')"
  by code_simp+

lemma demo_request_accepted: "fst demo_request = Inr (''d'', True)"
proof -
  let ?run = "\<lparr>run_id = uid ''1'', run_org = ''o'', period_year = 2026, period_month = 2, run_status = ''approved'',
               rates_snapshot = (undefined, []), journal_entry_id = None, run_payslips = []\<rparr>"
  have slips: "list_payslips demo_pay ?run = [demo_slip]" by (simp add: list_payslips_def demo_pay_def demo_slip_def)
  have "\<exists>kvs. payslip_input ?run demo_slip em g = Inr (object kvs)" for em g
    by (rule payslip_input_total) (simp_all add: payslip_amounts_def demo_slip_def kMaxTiyn_def)
  then obtain kvs where inp: "payslip_input ?run demo_slip (hd (employees demo_pay)) demo_company = Inr (object kvs)"
    by blast
  have run: "find_run_in_org demo_pay (uid ''1'') ''o'' = Some ?run"
    by (simp add: find_run_in_org_def find_in_org_def demo_pay_def)
  have emp: "find_in_org emp_id emp_org (\<lambda>x. x) (employees demo_pay) (uid ''2'') ''o'' = Some (hd (employees demo_pay))"
    by (simp add: find_in_org_def demo_pay_def)
  have slip: "ps_employee demo_slip = uid ''2''" by (simp add: demo_slip_def)
  have mg: "merge_allowed_extra (object kvs) [] [] = Inr (object kvs)"
    by (simp add: merge_allowed_extra_def members_def object_def)
  show ?thesis
    by (simp add: demo_request_def generate_payslip_def payslip_check_def require_org_perm_def demo_rights run_uuid_def employee_uuid_def
        parse_optional_body_def run slips slip emp find_organization_def inp payslip_allowed_extra_fields_def members_def mg demo_api_def
        schema_check_def require_jobs_def create_document_def insert_document_def insert_version_def doc_types_def doc_sources_def
        doc_statuses_def Let_def enqueue_def)
qed


end
