(* ===== verification/Sessions.thy ===== *)
theory Sessions
  imports Tenants "HOL-Library.Countable"
begin

text \<open>
  Sessions: the refresh tokens kept in Redis (\<^verbatim>\<open>src/src/security/SessionStore.hpp\<close>), the handlers of
  \<^verbatim>\<open>src/src/api/AuthController.hpp\<close> and \<open>switchOrg\<close> of \<^verbatim>\<open>src/src/api/OrganizationsController.hpp\<close>.

  The live refresh tokens are keys of the cache, and a set per user lists them for "log out
  everywhere". Every command to Redis can fail as in \<open>Idempotency\<close>. Passwords are hashed and checked
  by libsodium: \<open>account_env\<close> has the two functions. A handler that lets an exception out answers
  \<open>Escaped\<close>.
\<close>

record session_store =
  ss_cache :: idem_store
  ss_sets :: "string \<Rightarrow> (string list \<times> int option)"

record account_env =
  auth :: auth_env
  pw_hash :: "string \<Rightarrow> string"
  pw_verify :: "string \<Rightarrow> string \<Rightarrow> bool"
  citext :: "string \<Rightarrow> string"
  show_time :: "int \<Rightarrow> string"

abbreviation cenv :: "account_env \<Rightarrow> idem_env" where "cenv e \<equiv> cache_env (auth e)"

section \<open>The store\<close>

definition jti_key :: "CookieConfig \<Rightarrow> string \<Rightarrow> string" where
  "jti_key ck jti = revocation_prefix ck @ jti"

definition user_set_key :: "CookieConfig \<Rightarrow> string \<Rightarrow> string" where
  "user_set_key ck sub = revocation_prefix ck @ ''user:'' @ sub"

definition on_cache :: "(idem_store \<Rightarrow> 'a \<times> idem_store) \<Rightarrow> session_store \<Rightarrow> 'a \<times> session_store" where
  "on_cache f s = (case f (ss_cache s) of (a, c) \<Rightarrow> (a, s\<lparr>ss_cache := c\<rparr>))"

text \<open>A command of the client library itself: it throws (\<open>None\<close>) when there is no answer.\<close>

definition raw_call ::
  "idem_env \<Rightarrow> (int \<Rightarrow> session_store \<Rightarrow> 'a \<times> session_store) \<Rightarrow> session_store \<Rightarrow> 'a option \<times> session_store" where
  "raw_call e f s =
     (let n = ncalls (ss_cache s); s0 = s\<lparr>ss_cache := (ss_cache s)\<lparr>ncalls := Suc n\<rparr>\<rparr>; (a, s') = f (clock e n) s0
      in case fate e n of Answered \<Rightarrow> (Some a, s') | Lost \<Rightarrow> (None, s0) | Unanswered \<Rightarrow> (None, s'))"

definition set_members :: "int \<Rightarrow> string \<Rightarrow> session_store \<Rightarrow> string list" where
  "set_members now k s = (case ss_sets s k of (xs, t) \<Rightarrow> if (case t of None \<Rightarrow> True | Some x \<Rightarrow> now < x) then xs else [])"

definition sess_sadd :: "string \<Rightarrow> string \<Rightarrow> int \<Rightarrow> session_store \<Rightarrow> unit \<times> session_store" where
  "sess_sadd k x now s =
     (let xs = set_members now k s; t = (if xs = [] then None else snd (ss_sets s k))
      in ((), s\<lparr>ss_sets := (ss_sets s)(k := (if x \<in> set xs then xs else xs @ [x], t))\<rparr>))"

definition sess_expire :: "string \<Rightarrow> int \<Rightarrow> int \<Rightarrow> session_store \<Rightarrow> unit \<times> session_store" where
  "sess_expire k ttl now s =
     ((), s\<lparr>ss_sets := (ss_sets s)(k := (set_members now k s, Some (now + ttl * 1000)))\<rparr>)"

definition sess_smembers :: "string \<Rightarrow> int \<Rightarrow> session_store \<Rightarrow> string list \<times> session_store" where
  "sess_smembers k now s = (set_members now k s, s)"

definition sess_del :: "string \<Rightarrow> int \<Rightarrow> session_store \<Rightarrow> unit \<times> session_store" where
  "sess_del k now s = ((), s\<lparr>ss_cache := (ss_cache s)\<lparr>vals := (vals (ss_cache s))(k := None)\<rparr>, ss_sets := (ss_sets s)(k := ([], None))\<rparr>)"

text \<open>\<open>up\<close>: the cache is initialized.\<close>

definition session_record ::
  "idem_env \<Rightarrow> bool \<Rightarrow> CookieConfig \<Rightarrow> string \<Rightarrow> string \<Rightarrow> int \<Rightarrow> session_store \<Rightarrow> bool \<times> session_store" where
  "session_record e up ck sub jti ttl s =
     (if \<not> up then (False, s)
      else
        (case on_cache (cache_set e (jti_key ck jti) ''1'' ttl) s of
           (False, s1) \<Rightarrow> (False, s1)
         | (True, s1) \<Rightarrow>
             (case raw_call e (sess_sadd (user_set_key ck sub) jti) s1 of
                (None, s2) \<Rightarrow> (True, s2)
              | (Some _, s2) \<Rightarrow> (True, snd (raw_call e (sess_expire (user_set_key ck sub) ttl) s2)))))"

definition is_live :: "idem_env \<Rightarrow> bool \<Rightarrow> CookieConfig \<Rightarrow> string \<Rightarrow> session_store \<Rightarrow> bool \<times> session_store" where
  "is_live e up ck jti s =
     (if \<not> up then (False, s)
      else (case on_cache (cache_get e (jti_key ck jti)) s of (v, s') \<Rightarrow> (v \<noteq> None, s')))"

definition revoke_jti :: "idem_env \<Rightarrow> bool \<Rightarrow> CookieConfig \<Rightarrow> string \<Rightarrow> session_store \<Rightarrow> session_store" where
  "revoke_jti e up ck jti s = (if up then snd (on_cache (cache_del e (jti_key ck jti)) s) else s)"

primrec del_jtis :: "idem_env \<Rightarrow> CookieConfig \<Rightarrow> string list \<Rightarrow> session_store \<Rightarrow> session_store" where
  "del_jtis e ck [] s = s"
| "del_jtis e ck (j # js) s = del_jtis e ck js (snd (raw_call e (sess_del (jti_key ck j)) s))"

definition revoke_all :: "idem_env \<Rightarrow> bool \<Rightarrow> CookieConfig \<Rightarrow> string \<Rightarrow> session_store \<Rightarrow> session_store" where
  "revoke_all e up ck sub s =
     (if \<not> up then s
      else
        (case raw_call e (sess_smembers (user_set_key ck sub)) s of
           (None, s1) \<Rightarrow> s1
         | (Some jtis, s1) \<Rightarrow> snd (raw_call e (sess_del (user_set_key ck sub)) (del_jtis e ck jtis s1))))"

section \<open>Minting\<close>

text \<open>A JSON object from an initializer list keeps the first of two members with one name.\<close>

definition initializer :: "(string \<times> json) list \<Rightarrow> json" where
  "initializer kvs = object (rev kvs)"

definition assign :: "string \<Rightarrow> json \<Rightarrow> json \<Rightarrow> json" where
  "assign k v j = JObj (put k v (members j))"

definition access_base :: "AuthConfig \<Rightarrow> int \<Rightarrow> user_row \<times> Role option \<Rightarrow> (string \<times> json) list" where
  "access_base cfg now v =
     (case v of (u, r) \<Rightarrow>
      [(''sub'', JStr (us_id u)), (''iat'', JInt now), (''exp'', JInt (now + access_ttl_sec (cookies cfg))), (''typ'', JStr ''access''),
       (''confirmed'', JBool (us_confirmed u)), (''permissions'', JInt (case r of None \<Rightarrow> 0 | Some ro \<Rightarrow> uint (ro_permissions ro))),
       (jwt_roles_claim cfg, JArr (case r of None \<Rightarrow> [] | Some ro \<Rightarrow> [JStr (ro_name ro)]))])"

definition with_issuer :: "AuthConfig \<Rightarrow> json \<Rightarrow> json" where
  "with_issuer cfg j =
     (let j1 = (if jwt_issuer cfg = [] then j else assign ''iss'' (JStr (jwt_issuer cfg)) j)
      in if jwt_audience cfg = [] then j1 else assign ''aud'' (JStr (jwt_audience cfg)) j1)"

text \<open>The organization is in the token when the user belongs to exactly one.\<close>

definition session_claims :: "AuthConfig \<Rightarrow> int \<Rightarrow> tenant_db \<Rightarrow> user_row \<times> Role option \<Rightarrow> json" where
  "session_claims cfg now rd v =
     with_issuer cfg
       (case list_for_user rd (us_id (fst v)) of
          [m] \<Rightarrow> assign ''org'' (JStr (mb_org m)) (initializer (access_base cfg now v))
        | _ \<Rightarrow> initializer (access_base cfg now v))"

definition refresh_claims :: "AuthConfig \<Rightarrow> int \<Rightarrow> string \<Rightarrow> string \<Rightarrow> json" where
  "refresh_claims cfg now sub jti =
     initializer [(''sub'', JStr sub), (''iat'', JInt now), (''exp'', JInt (now + refresh_ttl_sec (cookies cfg))),
       (''typ'', JStr ''refresh''), (''jti'', JStr jti)]"

definition mint_session ::
  "account_env \<Rightarrow> AuthConfig \<Rightarrow> bool \<Rightarrow> int \<Rightarrow> tenant_db \<Rightarrow> string \<Rightarrow> user_row \<times> Role option \<Rightarrow> session_store \<Rightarrow>
   (string \<times> string) option escaped \<times> session_store" where
  "mint_session e cfg up now rd jti v s =
     (if jwt_secret cfg = [] then (Done None, s)
      else
        (case (issue_hs256_jwt (auth e) (session_claims cfg now rd v) (jwt_secret cfg),
               issue_hs256_jwt (auth e) (refresh_claims cfg now (us_id (fst v)) jti) (jwt_secret cfg)) of
           (Some a, Some r) \<Rightarrow>
             if \<not> up then (Done (Some (a, r)), s)
             else
               (case session_record (cenv e) up (cookies cfg) (us_id (fst v)) jti (refresh_ttl_sec (cookies cfg)) s of
                  (True, s') \<Rightarrow> (Done (Some (a, r)), s')
                | (False, s') \<Rightarrow> (Done None, s'))
         | _ \<Rightarrow> (Escaped, s)))"

section \<open>Handlers\<close>

text \<open>
  A session handler answers with the response and the two session cookies it sets: \<open>None\<close> leaves them
  alone, empty texts clear them, and an empty refresh token leaves that cookie as it is.
\<close>

record session_reply =
  sr_response :: response
  sr_cookies :: "(string \<times> string) option"

definition plain_reply :: "response \<Rightarrow> session_reply" where
  "plain_reply r = \<lparr>sr_response = r, sr_cookies = None\<rparr>"

record account_state =
  acc_db :: tenant_db
  acc_sessions :: session_store
  acc_audit :: "audit_entry list"
  acc_mails :: "(string \<times> string \<times> string) list"

definition acc_audited :: "string \<Rightarrow> string \<Rightarrow> string \<Rightarrow> string \<Rightarrow> json \<Rightarrow> account_state \<Rightarrow> account_state" where
  "acc_audited actor action ty i details x =
     x\<lparr>acc_audit := acc_audit x @ [\<lparr>au_actor = actor, au_action = action, au_type = ty, au_target = i, au_details = details\<rparr>]\<rparr>"

definition credentials_shape :: "json \<Rightarrow> errors" where
  "credentials_shape b = fst (require (fst (require [] b ''email'')) b ''password'')"

definition register_shape :: "json \<Rightarrow> errors" where
  "register_shape b =
     string_length (email (credentials_shape b) b ''email'') b ''password'' kPasswordMinLen kPasswordMaxLen"

definition repo_reply :: "tenant_error \<Rightarrow> response" where
  "repo_reply e =
     (case e of
        DuplicateEmail \<Rightarrow> conflict ''email_taken'' ''Email is already registered''
      | UserNotFound \<Rightarrow> not_found ''user''
      | DuplicateRole \<Rightarrow> conflict ''role_exists'' ''A role with that name already exists''
      | RoleNotFound \<Rightarrow> not_found ''role''
      | RoleInUse \<Rightarrow> conflict ''role_in_use'' ''Reassign users away from this role before deleting''
      | DuplicateBin \<Rightarrow> conflict ''bin_taken'' ''An organization with that BIN already exists''
      | DuplicateMembership \<Rightarrow> conflict ''membership_exists'' ''This user is already a member of the organization''
      | DuplicateBankAccount \<Rightarrow> conflict ''bank_account_iik_taken'' ''A bank account with that IIK already exists in this organization''
      | TenantSql _ \<Rightarrow> sql_failed)"

definition register_user ::
  "account_env \<Rightarrow> tenant_db \<Rightarrow> string \<Rightarrow> int \<Rightarrow> json option \<Rightarrow> account_state \<Rightarrow> (response + user_row) \<times> account_state" where
  "register_user e rd new_id now req x =
     (case parse_body req of
        Inl r \<Rightarrow> (Inl r, x)
      | Inr b \<Rightarrow>
          if register_shape b \<noteq> [] then (Inl (response_400 (register_shape b)), x)
          else
            (case find_default_role rd of
               None \<Rightarrow> (Inl (service_unavailable ''misconfigured'' ''default role missing''), x)
             | Some role \<Rightarrow>
                 (case create_user (citext e) new_id now (text_of b ''email'') (Some (pw_hash e (text_of b ''password'')))
                         (opt_string b ''first_name'') (opt_string b ''last_name'') (ro_id role) False (acc_db x) of
                    Inl err \<Rightarrow> (Inl (repo_reply err), x)
                  | Inr (u, d) \<Rightarrow> (Inr u, x\<lparr>acc_db := d, acc_mails := acc_mails x @ [(''confirm'', us_id u, [])]\<rparr>))))"

text \<open>Reading a member as a text throws when it has another type.\<close>

definition get_text :: "json \<Rightarrow> string \<Rightarrow> string option" where
  "get_text b k = (case member b k of Some (JStr s) \<Rightarrow> Some s | _ \<Rightarrow> None)"

text \<open>Without a user or a password the check runs on a dummy hash, for its time only.\<close>

definition password_ok :: "account_env \<Rightarrow> string \<Rightarrow> user_row \<times> Role option \<Rightarrow> bool" where
  "password_ok e password v \<longleftrightarrow> (case us_password (fst v) of None \<Rightarrow> False | Some h \<Rightarrow> pw_verify e password h)"

definition login ::
  "account_env \<Rightarrow> AuthConfig \<Rightarrow> bool \<Rightarrow> int \<Rightarrow> tenant_db \<Rightarrow> string \<Rightarrow> string \<Rightarrow> json option \<Rightarrow> account_state \<Rightarrow>
   session_reply escaped \<times> account_state" where
  "login e cfg up now rd jti ip req x =
     (case parse_body req of
        Inl r \<Rightarrow> (Done (plain_reply r), x)
      | Inr b \<Rightarrow>
          if credentials_shape b \<noteq> [] then (Done (plain_reply (response_400 (credentials_shape b))), x)
          else
            (case (get_text b ''email'', get_text b ''password'') of
               (Some mail, Some password) \<Rightarrow>
                 (case find_user_by_email (citext e) rd mail of
                       Some v \<Rightarrow>
                         if password_ok e password v then
                           (case mint_session e cfg up now rd jti v (acc_sessions x) of
                              (Escaped, s) \<Rightarrow> (Escaped, x\<lparr>acc_sessions := s\<rparr>)
                            | (Done None, s) \<Rightarrow>
                                (Done (plain_reply (service_unavailable ''session_unavailable'' ''Could not mint session'')), x\<lparr>acc_sessions := s\<rparr>)
                            | (Done (Some tokens), s) \<Rightarrow>
                                (Done \<lparr>sr_response = ok (object [(''user'', user_json (show_time e) v)]), sr_cookies = Some tokens\<rparr>,
                                 x\<lparr>acc_sessions := s\<rparr>))
                         else
                           (Done (plain_reply (unauthorized ''invalid_credentials'' ''Invalid email or password'')),
                            acc_audited [] ''auth.login_failed'' ''user'' (us_id (fst v)) (object [(''email'', JStr mail), (''ip'', JStr ip)]) x)
                     | None \<Rightarrow>
                         (Done (plain_reply (unauthorized ''invalid_credentials'' ''Invalid email or password'')),
                          acc_audited [] ''auth.login_failed'' ''user'' [] (object [(''email'', JStr mail), (''ip'', JStr ip)]) x))
             | _ \<Rightarrow> (Escaped, x)))"

definition revoke_refresh ::
  "account_env \<Rightarrow> AuthConfig \<Rightarrow> bool \<Rightarrow> string \<Rightarrow> session_store \<Rightarrow> unit escaped \<times> session_store" where
  "revoke_refresh e cfg up token s =
     (case verify_hs256_jwt (auth e) token (jwt_secret cfg) of
        Inl Thrown \<Rightarrow> (Escaped, s)
      | Inl (Refused _) \<Rightarrow> (Done (), s)
      | Inr claims \<Rightarrow>
          (case text_value claims ''jti'' [] of
             None \<Rightarrow> (Escaped, s)
           | Some jti \<Rightarrow> (Done (), if jti = [] then s else revoke_jti (cenv e) up (cookies cfg) jti s)))"

definition logout ::
  "account_env \<Rightarrow> AuthConfig \<Rightarrow> bool \<Rightarrow> http_request \<Rightarrow> account_state \<Rightarrow> session_reply escaped \<times> account_state" where
  "logout e cfg up req x =
     (let token = extract_refresh_token req (cookies cfg);
          bye = \<lparr>sr_response = ok (object [(''message'', JStr ''logged out'')]), sr_cookies = Some ([], [])\<rparr>
      in if token = [] then (Done bye, x)
         else
           (case revoke_refresh e cfg up token (acc_sessions x) of
              (Escaped, s) \<Rightarrow> (Escaped, x\<lparr>acc_sessions := s\<rparr>)
            | (Done _, s) \<Rightarrow> (Done bye, x\<lparr>acc_sessions := s\<rparr>)))"

text \<open>
  \<open>refresh\<close> in the two parts between which other requests may run: the check that the token is
  live, and the rotation that deletes it and mints the next pair.
\<close>

definition refresh_claims_of :: "account_env \<Rightarrow> AuthConfig \<Rightarrow> string \<Rightarrow> (jwt_failure + string \<times> string)" where
  "refresh_claims_of e cfg token =
     (if token = [] then Inl (Refused ''missing_refresh'')
      else
        rbind (verify_hs256_jwt (auth e) token (jwt_secret cfg)) (\<lambda>claims.
        rbind (claim_text claims ''typ'') (\<lambda>ty.
        if ty \<noteq> ''refresh'' then Inl (Refused ''not_a_refresh'')
        else
          rbind (claim_text claims ''sub'') (\<lambda>sub.
          rbind (claim_text claims ''jti'') (\<lambda>jti.
          if sub = [] \<or> jti = [] then Inl (Refused ''malformed_claims'') else Inr (sub, jti))))))"

definition refresh_check ::
  "account_env \<Rightarrow> AuthConfig \<Rightarrow> bool \<Rightarrow> string \<Rightarrow> session_store \<Rightarrow> (jwt_failure + string \<times> string) \<times> session_store" where
  "refresh_check e cfg up token s =
     (case refresh_claims_of e cfg token of
        Inl f \<Rightarrow> (Inl f, s)
      | Inr (sub, jti) \<Rightarrow>
          (case is_live (cenv e) up (cookies cfg) jti s of
             (True, s') \<Rightarrow> (Inr (sub, jti), s')
           | (False, s') \<Rightarrow> (Inl (Refused ''revoked''), s')))"

definition refresh_rotate ::
  "account_env \<Rightarrow> AuthConfig \<Rightarrow> bool \<Rightarrow> int \<Rightarrow> tenant_db \<Rightarrow> string \<Rightarrow> string \<times> string \<Rightarrow> session_store \<Rightarrow>
   session_reply escaped \<times> session_store" where
  "refresh_rotate e cfg up now rd new_jti who s =
     (case who of (sub, jti) \<Rightarrow>
      (case find_user rd sub of
         None \<Rightarrow> (Done (plain_reply (unauthorized ''user_gone'' [])), revoke_jti (cenv e) up (cookies cfg) jti s)
       | Some v \<Rightarrow>
           (case mint_session e cfg up now rd new_jti v (revoke_jti (cenv e) up (cookies cfg) jti s) of
              (Escaped, s') \<Rightarrow> (Escaped, s')
            | (Done None, s') \<Rightarrow> (Done (plain_reply (service_unavailable ''session_unavailable'' [])), s')
            | (Done (Some tokens), s') \<Rightarrow>
                (Done \<lparr>sr_response = ok (object [(''user'', user_json (show_time e) v)]), sr_cookies = Some tokens\<rparr>, s'))))"

definition refresh ::
  "account_env \<Rightarrow> AuthConfig \<Rightarrow> bool \<Rightarrow> int \<Rightarrow> tenant_db \<Rightarrow> string \<Rightarrow> http_request \<Rightarrow> account_state \<Rightarrow>
   session_reply escaped \<times> account_state" where
  "refresh e cfg up now rd new_jti req x =
     (case refresh_check e cfg up (extract_refresh_token req (cookies cfg)) (acc_sessions x) of
        (Inl (Refused code), s) \<Rightarrow> (Done (plain_reply (unauthorized code [])), x\<lparr>acc_sessions := s\<rparr>)
      | (Inl Thrown, s) \<Rightarrow> (Escaped, x\<lparr>acc_sessions := s\<rparr>)
      | (Inr who, s) \<Rightarrow>
          (case refresh_rotate e cfg up now rd new_jti who s of (r, s') \<Rightarrow> (r, x\<lparr>acc_sessions := s'\<rparr>)))"

definition me :: "account_env \<Rightarrow> tenant_db \<Rightarrow> AuthPrincipal option \<Rightarrow> response" where
  "me e rd p =
     (case p of
        None \<Rightarrow> unauthorized ''missing_principal'' []
      | Some who \<Rightarrow>
          (case find_user rd (pr_subject who) of
             None \<Rightarrow> not_found ''user''
           | Some v \<Rightarrow>
               ok (object [(''user'', user_json (show_time e) v),
                     (''org_role'', case org_context_of rd p of None \<Rightarrow> JNull | Some ctx \<Rightarrow> JStr (oc_role ctx))])))"

text \<open>\<open>switchOrg\<close>: an access token for an organization the caller is a member of.\<close>

definition switch_claims :: "AuthConfig \<Rightarrow> int \<Rightarrow> string \<Rightarrow> user_row \<times> Role option \<Rightarrow> json" where
  "switch_claims cfg now org v = with_issuer cfg (initializer (access_base cfg now v @ [(''org'', JStr org)]))"

definition switch_org ::
  "account_env \<Rightarrow> AuthConfig \<Rightarrow> int \<Rightarrow> tenant_db \<Rightarrow> AuthPrincipal option \<Rightarrow> string \<Rightarrow> account_state \<Rightarrow> session_reply \<times> account_state" where
  "switch_org e cfg now rd p org x =
     (case require_principal p of
        Inl r \<Rightarrow> (plain_reply r, x)
      | Inr who \<Rightarrow>
          if \<not> is_uuid_segment org then (plain_reply (bad_request ''invalid_id'' ''Malformed organization id'' (JObj [])), x)
          else if find_membership rd org (pr_subject who) = None then
            (plain_reply (forbidden ''not_a_member'' ''You are not a member of this organization''), x)
          else
            (case find_user rd (pr_subject who) of
               None \<Rightarrow> (plain_reply (unauthorized ''user_gone'' []), x)
             | Some v \<Rightarrow>
                 if jwt_secret cfg = [] then (plain_reply (service_unavailable ''session_unavailable'' ''Could not mint session''), x)
                 else
                   (case issue_hs256_jwt (auth e) (switch_claims cfg now org v) (jwt_secret cfg) of
                      None \<Rightarrow> (plain_reply (internal_error ''internal_error'' []), x)
                    | Some token \<Rightarrow>
                        (\<lparr>sr_response = ok (object [(''access'', JStr token)]), sr_cookies = Some (token, [])\<rparr>,
                         acc_audited (actor_of p) ''org.switch'' ''organization'' org (JObj []) x))))"

section \<open>A minted pair of tokens\<close>

lemma member_assign [simp]: "is_object j \<Longrightarrow> member (assign k v j) k' = (if k' = k then Some v else member j k')"
  by (cases j) (simp_all add: assign_def members_def)

lemma assign_object [simp]: "is_object (assign k v j)"
  by (simp add: assign_def)

lemma initializer_object [simp]: "is_object (initializer kvs)"
  by (simp add: initializer_def object_def)

lemma member_initializer [simp]: "member (initializer kvs) k = map_of kvs k"
  by (simp add: initializer_def)

lemma with_issuer_object [simp]: "is_object j \<Longrightarrow> is_object (with_issuer cfg j)"
  by (simp add: with_issuer_def Let_def)

lemma member_with_issuer:
  "is_object j \<Longrightarrow> k \<noteq> ''iss'' \<Longrightarrow> k \<noteq> ''aud'' \<Longrightarrow> member (with_issuer cfg j) k = member j k"
  "is_object j \<Longrightarrow> jwt_issuer cfg \<noteq> [] \<Longrightarrow> member (with_issuer cfg j) ''iss'' = Some (JStr (jwt_issuer cfg))"
  "is_object j \<Longrightarrow> jwt_audience cfg \<noteq> [] \<Longrightarrow> member (with_issuer cfg j) ''aud'' = Some (JStr (jwt_audience cfg))"
  by (simp_all add: with_issuer_def Let_def)

lemma issuer_accepts: "is_object j \<Longrightarrow> issuer_and_audience cfg (with_issuer cfg j) = Inr ()"
  by (cases "jwt_audience cfg = []") (simp_all add: issuer_and_audience_def claim_text_def text_value_def audience_ok_def member_with_issuer)

text \<open>The configured name of the roles claim is none of the names the token has otherwise.\<close>

definition roles_claim_free :: "AuthConfig \<Rightarrow> bool" where
  "roles_claim_free cfg \<longleftrightarrow>
     jwt_roles_claim cfg \<notin> {''sub'', ''iat'', ''exp'', ''nbf'', ''typ'', ''confirmed'', ''permissions'', ''org'', ''iss'', ''aud'', ''jti''}"

text \<open>The claims of an access token, for an organization or for none.\<close>

definition access_claims_for :: "AuthConfig \<Rightarrow> int \<Rightarrow> user_row \<times> Role option \<Rightarrow> string \<Rightarrow> json \<Rightarrow> bool" where
  "access_claims_for cfg now v org j \<longleftrightarrow>
     is_object j \<and> claim_text j ''typ'' = Inr ''access'' \<and> claim_text j ''sub'' = Inr (us_id (fst v)) \<and> claim_text j ''org'' = Inr org \<and>
     member j ''exp'' = Some (JInt (now + access_ttl_sec (cookies cfg))) \<and> member j ''nbf'' = None \<and>
     member j ''permissions'' = Some (JInt (case snd v of None \<Rightarrow> 0 | Some ro \<Rightarrow> uint (ro_permissions ro))) \<and>
     claim_array j (jwt_roles_claim cfg) = (case snd v of None \<Rightarrow> [] | Some ro \<Rightarrow> [ro_name ro]) \<and>
     issuer_and_audience cfg j = Inr ()"

lemma access_base_claims:
  assumes "roles_claim_free cfg" "is_object j"
    "\<And>k. k \<noteq> ''org'' \<Longrightarrow> member j k = map_of (access_base cfg now v) k"
    "(member j ''org'' = None \<and> org = []) \<or> member j ''org'' = Some (JStr org)"
  shows "access_claims_for cfg now v org (with_issuer cfg j)"
proof -
  obtain u r where v: "v = (u, r)" by (cases v)
  from assms(1) have n: "jwt_roles_claim cfg \<noteq> ''sub''" "jwt_roles_claim cfg \<noteq> ''iat''" "jwt_roles_claim cfg \<noteq> ''exp''"
    "jwt_roles_claim cfg \<noteq> ''nbf''" "jwt_roles_claim cfg \<noteq> ''typ''" "jwt_roles_claim cfg \<noteq> ''confirmed''"
    "jwt_roles_claim cfg \<noteq> ''permissions''" "jwt_roles_claim cfg \<noteq> ''org''" "jwt_roles_claim cfg \<noteq> ''iss''" "jwt_roles_claim cfg \<noteq> ''aud''"
    by (auto simp: roles_claim_free_def)
  note n' = n [symmetric]
  show ?thesis
    using assms(4) unfolding access_claims_for_def
    by (cases r) (auto simp: assms(2,3) v n n' access_base_def claim_text_def text_value_def claim_array_def extract_string_array_def
        member_with_issuer issuer_accepts)
qed

definition default_org :: "tenant_db \<Rightarrow> string \<Rightarrow> string" where
  "default_org rd user = (case list_for_user rd user of [m] \<Rightarrow> mb_org m | _ \<Rightarrow> [])"

lemma session_claims_for:
  assumes "roles_claim_free cfg"
  shows "access_claims_for cfg now v (default_org rd (us_id (fst v))) (session_claims cfg now rd v)"
proof -
  have none: "map_of (access_base cfg now v) ''org'' = None"
    using assms by (cases v) (auto simp: access_base_def roles_claim_free_def)
  show ?thesis
    unfolding session_claims_def default_org_def
    by (rule access_base_claims [OF assms]) (auto simp: none split: list.splits)
qed

lemma switch_claims_for:
  assumes "roles_claim_free cfg"
  shows "access_claims_for cfg now v org (switch_claims cfg now org v)"
proof -
  have none: "map_of (access_base cfg now v) ''org'' = None"
    using assms by (cases v) (auto simp: access_base_def roles_claim_free_def)
  show ?thesis
    unfolding switch_claims_def
    by (rule access_base_claims [OF assms]) (auto simp: none map_add_def split: option.splits)
qed

lemma access_token_verifies:
  assumes "faithful (cache_env e)" "issue_hs256_jwt e j (jwt_secret cfg) = Some token" "access_claims_for cfg now v org j" "now \<le> t"
  shows "t \<le> now + access_ttl_sec (cookies cfg) + jwt_leeway_sec cfg \<Longrightarrow>
      \<exists>p. verify_jwt e cfg t token = Inr p \<and> pr_subject p = us_id (fst v) \<and> pr_org p = org \<and>
        pr_roles p = (case snd v of None \<Rightarrow> [] | Some ro \<Rightarrow> [ro_name ro]) \<and>
        current_permissions (Some p) = (case snd v of None \<Rightarrow> 0 | Some ro \<Rightarrow> ro_permissions ro)"
    and "\<not> t \<le> now + access_ttl_sec (cookies cfg) + jwt_leeway_sec cfg \<Longrightarrow> verify_jwt e cfg t token = Inl (Refused ''token_expired'')"
  using assms(3) unfolding verify_jwt_def issued_verifies [OF assms(1,2)]
  by (auto simp: access_claims_for_def in_validity_def current_permissions_def split: option.splits)

lemma issued_nonempty: "issue_hs256_jwt e j secret = Some t \<Longrightarrow> t \<noteq> []"
  by (auto simp: issue_hs256_jwt_def Let_def split: if_splits option.splits)

lemma refresh_claims_simps:
  "claim_text (refresh_claims cfg now sub jti) ''typ'' = Inr ''refresh''" "claim_text (refresh_claims cfg now sub jti) ''sub'' = Inr sub"
  "claim_text (refresh_claims cfg now sub jti) ''jti'' = Inr jti"
  by (simp_all add: refresh_claims_def claim_text_def text_value_def)

lemma mintD:
  assumes "mint_session e cfg up now rd jti v s = (Done (Some (a, r)), s')"
  shows "issue_hs256_jwt (auth e) (session_claims cfg now rd v) (jwt_secret cfg) = Some a"
    "issue_hs256_jwt (auth e) (refresh_claims cfg now (us_id (fst v)) jti) (jwt_secret cfg) = Some r"
    "up \<Longrightarrow> session_record (cenv e) up (cookies cfg) (us_id (fst v)) jti (refresh_ttl_sec (cookies cfg)) s = (True, s')"
  using assms by (auto simp: mint_session_def split: if_splits option.splits prod.splits bool.splits)

text \<open>C15: What \<open>mint_session\<close> hands out: as long as its lifetime and the leeway last, the access token
authenticates its user, with the user's permissions and roles and with the organization when the user
belongs to exactly one; afterwards it is refused as expired. The refresh token never authenticates a
request, the access token is never taken for a refresh token, and \<open>refresh\<close> reads the user and the
identifier back from the refresh token.\<close>

theorem minted_session_authenticates:
  assumes "faithful (cenv e)" "roles_claim_free cfg" "mint_session e cfg up now rd jti v s = (Done (Some (a, r)), s')"
    "now \<le> t" "us_id (fst v) \<noteq> []" "jti \<noteq> []"
  shows "(if t \<le> now + access_ttl_sec (cookies cfg) + jwt_leeway_sec cfg
      then \<exists>p. verify_jwt (auth e) cfg t a = Inr p \<and> pr_subject p = us_id (fst v) \<and>
          pr_org p = (case list_for_user rd (us_id (fst v)) of [m] \<Rightarrow> mb_org m | _ \<Rightarrow> []) \<and>
          pr_roles p = (case snd v of None \<Rightarrow> [] | Some ro \<Rightarrow> [ro_name ro]) \<and>
          current_permissions (Some p) = (case snd v of None \<Rightarrow> 0 | Some ro \<Rightarrow> ro_permissions ro)
      else verify_jwt (auth e) cfg t a = Inl (Refused ''token_expired'')) \<and>
     verify_jwt (auth e) cfg t r = Inl (Refused ''wrong_token_type'') \<and>
     refresh_claims_of e cfg a = Inl (Refused ''not_a_refresh'') \<and>
     refresh_claims_of e cfg r = Inr (us_id (fst v), jti)"
proof -
  note m = mintD [OF assms(3)] and c = session_claims_for [OF assms(2), of now v rd]
  have a: "claim_text (session_claims cfg now rd v) ''typ'' = Inr ''access''" using c by (simp add: access_claims_for_def)
  show ?thesis
    using access_token_verifies [OF assms(1) m(1) c assms(4)] assms(5,6) issued_nonempty [OF m(1)] issued_nonempty [OF m(2)]
    by (auto simp: default_org_def verify_jwt_def refresh_claims_of_def issued_verifies [OF assms(1) m(1)] issued_verifies [OF assms(1) m(2)]
        a refresh_claims_simps)
qed

section \<open>Retired tokens\<close>

text \<open>
  What becomes of the refresh tokens, for any sequence of the operations on the store in which every
  minted identifier is new. \<open>retired\<close> collects the identifiers whose deletion reached Redis: by
  \<open>revoke_jti\<close> (logout, rotation) or by \<open>revoke_all\<close> (a new password).
\<close>

record session_trace =
  st_store :: session_store
  st_minted :: "string set"
  st_retired :: "string set"

definition next_fate :: "idem_env \<Rightarrow> session_store \<Rightarrow> fault" where
  "next_fate e s = fate e (ncalls (ss_cache s))"

fun deleted_jtis :: "idem_env \<Rightarrow> CookieConfig \<Rightarrow> string list \<Rightarrow> session_store \<Rightarrow> string set" where
  "deleted_jtis e ck [] s = {}"
| "deleted_jtis e ck (j # js) s =
     (if next_fate e s = Lost then {} else {j}) \<union> deleted_jtis e ck js (snd (raw_call e (sess_del (jti_key ck j)) s))"

definition swept :: "idem_env \<Rightarrow> bool \<Rightarrow> CookieConfig \<Rightarrow> string \<Rightarrow> session_store \<Rightarrow> string set" where
  "swept e up ck sub s =
     (if \<not> up then {}
      else (case raw_call e (sess_smembers (user_set_key ck sub)) s of (None, _) \<Rightarrow> {} | (Some js, s1) \<Rightarrow> deleted_jtis e ck js s1))"

inductive session_step :: "idem_env \<Rightarrow> bool \<Rightarrow> CookieConfig \<Rightarrow> session_trace \<Rightarrow> session_trace \<Rightarrow> bool" for e up ck where
  mint: "jti \<notin> st_minted x \<Longrightarrow>
    session_step e up ck x \<lparr>st_store = snd (session_record e up ck sub jti ttl (st_store x)), st_minted = insert jti (st_minted x),
      st_retired = st_retired x\<rparr>"
| probe: "session_step e up ck x (x\<lparr>st_store := snd (is_live e up ck jti (st_store x))\<rparr>)"
| revoke: "jti \<in> st_minted x \<Longrightarrow>
    session_step e up ck x \<lparr>st_store = revoke_jti e up ck jti (st_store x), st_minted = st_minted x,
      st_retired = (if up \<and> next_fate e (st_store x) \<noteq> Lost then insert jti (st_retired x) else st_retired x)\<rparr>"
| sweep: "session_step e up ck x \<lparr>st_store = revoke_all e up ck sub (st_store x), st_minted = st_minted x,
      st_retired = st_retired x \<union> swept e up ck sub (st_store x)\<rparr>"

inductive session_reach :: "idem_env \<Rightarrow> bool \<Rightarrow> CookieConfig \<Rightarrow> session_trace \<Rightarrow> bool" for e up ck where
  start: "vals (ss_cache s) = (\<lambda>_. None) \<Longrightarrow> ss_sets s = (\<lambda>_. ([], None)) \<Longrightarrow> session_reach e up ck \<lparr>st_store = s, st_minted = {}, st_retired = {}\<rparr>"
| move: "session_reach e up ck x \<Longrightarrow> session_step e up ck x y \<Longrightarrow> session_reach e up ck y"

definition retired_ok :: "CookieConfig \<Rightarrow> session_trace \<Rightarrow> bool" where
  "retired_ok ck x \<longleftrightarrow> st_retired x \<subseteq> st_minted x \<and> (\<forall>k. set (fst (ss_sets (st_store x) k)) \<subseteq> st_minted x) \<and> (\<forall>j \<in> st_retired x. vals (ss_cache (st_store x)) (jti_key ck j) = None)"

abbreviation keys_of :: "session_store \<Rightarrow> string \<Rightarrow> (string \<times> int option) option" where
  "keys_of s \<equiv> vals (ss_cache s)"

lemma jti_key_eq [simp]: "jti_key ck a = jti_key ck b \<longleftrightarrow> a = b"
  by (simp add: jti_key_def)

lemma cache_set_keys: "k \<noteq> k' \<Longrightarrow> keys_of (snd (on_cache (cache_set e k v ttl) s)) k' = keys_of s k'"
  by (simp add: on_cache_def cache_set_def cache_call_def Let_def split: fault.splits prod.splits)

lemma cache_del_keys: "keys_of (snd (on_cache (cache_del e k) s)) k' = (if k' = k \<and> next_fate e s \<noteq> Lost then None else keys_of s k')"
  by (simp add: on_cache_def cache_del_def cache_call_def next_fate_def Let_def split: fault.splits prod.splits)

lemma raw_set_keys [simp]:
  "keys_of (snd (raw_call e (sess_sadd k x) s)) = keys_of s" "keys_of (snd (raw_call e (sess_expire k ttl) s)) = keys_of s"
  "keys_of (snd (raw_call e (sess_smembers k) s)) = keys_of s"
  by (simp_all add: raw_call_def sess_sadd_def sess_expire_def sess_smembers_def Let_def split: fault.splits prod.splits)

lemma raw_del_keys: "keys_of (snd (raw_call e (sess_del k) s)) k' = (if k' = k \<and> next_fate e s \<noteq> Lost then None else keys_of s k')"
  by (simp add: raw_call_def sess_del_def next_fate_def Let_def split: fault.splits prod.splits)

lemma record_keys:
  assumes "k \<noteq> jti_key ck jti"
  shows "keys_of (snd (session_record e up ck sub jti ttl s)) k = keys_of s k"
proof -
  obtain b s1 where s1: "on_cache (cache_set e (jti_key ck jti) ''1'' ttl) s = (b, s1)" by fastforce
  obtain o2 s2 where s2: "raw_call e (sess_sadd (user_set_key ck sub) jti) s1 = (o2, s2)" by fastforce
  have "keys_of s1 k = keys_of s k" using cache_set_keys [OF assms [symmetric], of e "''1''" ttl s] s1 by simp
  moreover have "keys_of s2 = keys_of s1" using raw_set_keys(1) [of e "user_set_key ck sub" jti s1] s2 by simp
  ultimately show ?thesis
    by (simp add: session_record_def s1 s2 split: bool.splits option.splits)
qed

lemma del_jtis_keys:
  "keys_of (del_jtis e ck js s) k = (if k \<in> jti_key ck ` deleted_jtis e ck js s then None else keys_of s k)"
  by (induction js arbitrary: s) (auto simp: raw_del_keys split: if_splits)

lemma revoke_all_keys:
  "keys_of (revoke_all e up ck sub s) k =
     (if k \<in> jti_key ck ` swept e up ck sub s then None
      else if keys_of (revoke_all e up ck sub s) k = None then None else keys_of s k)"
proof (cases "up")
  case True
  obtain js s1 where s1: "raw_call e (sess_smembers (user_set_key ck sub)) s = (js, s1)" by fastforce
  have "keys_of s1 = keys_of s" using raw_set_keys(3) [of e "user_set_key ck sub" s] s1 by simp
  then show ?thesis
    using True by (auto simp: revoke_all_def swept_def s1 raw_del_keys del_jtis_keys split: option.splits if_splits)
qed (simp add: revoke_all_def swept_def)

lemma set_members_sub: "set (set_members now k s) \<subseteq> set (fst (ss_sets s k))"
  by (cases "ss_sets s k") (auto simp: set_members_def)

lemma cache_sets [simp]: "ss_sets (snd (on_cache f s)) = ss_sets s"
  by (simp add: on_cache_def split: prod.splits)

lemma raw_sets:
  "set (fst (ss_sets (snd (raw_call e (sess_sadd k x) s)) k')) \<subseteq> insert x (set (fst (ss_sets s k')))"
  "set (fst (ss_sets (snd (raw_call e (sess_expire k ttl) s)) k')) \<subseteq> set (fst (ss_sets s k'))"
  "set (fst (ss_sets (snd (raw_call e (sess_smembers k) s)) k')) \<subseteq> set (fst (ss_sets s k'))"
  "set (fst (ss_sets (snd (raw_call e (sess_del k) s)) k')) \<subseteq> set (fst (ss_sets s k'))"
  using set_members_sub [of "clock e (ncalls (ss_cache s))" k "s\<lparr>ss_cache := (ss_cache s)\<lparr>ncalls := Suc (ncalls (ss_cache s))\<rparr>\<rparr>"]
  by (auto simp: raw_call_def sess_sadd_def sess_expire_def sess_smembers_def sess_del_def Let_def split: fault.splits prod.splits if_splits)

lemma record_sets: "set (fst (ss_sets (snd (session_record e up ck sub jti ttl s)) k)) \<subseteq> insert jti (set (fst (ss_sets s k)))"
proof -
  obtain b s1 where s1: "on_cache (cache_set e (jti_key ck jti) ''1'' ttl) s = (b, s1)" by fastforce
  obtain a2 s2 where s2: "raw_call e (sess_sadd (user_set_key ck sub) jti) s1 = (a2, s2)" by fastforce
  have "ss_sets s1 = ss_sets s" using cache_sets [of "cache_set e (jti_key ck jti) ''1'' ttl" s] s1 by simp
  moreover have "set (fst (ss_sets s2 k)) \<subseteq> insert jti (set (fst (ss_sets s1 k)))"
    using raw_sets(1) [of e "user_set_key ck sub" jti s1 k] s2 by simp
  ultimately show ?thesis
    using raw_sets(2) [of e "user_set_key ck sub" ttl s2 k]
    by (auto simp: session_record_def s1 s2 split: bool.splits option.splits)
qed

lemma del_jtis_sets: "set (fst (ss_sets (del_jtis e ck js s) k)) \<subseteq> set (fst (ss_sets s k))"
  using raw_sets(4) by (induction js arbitrary: s) (auto, blast)

lemma deleted_sub: "deleted_jtis e ck js s \<subseteq> set js"
  by (induction js arbitrary: s) auto

lemma revoke_all_sets: "set (fst (ss_sets (revoke_all e up ck sub s) k)) \<subseteq> set (fst (ss_sets s k))"
proof -
  obtain js s1 where s1: "raw_call e (sess_smembers (user_set_key ck sub)) s = (js, s1)" by fastforce
  have a: "set (fst (ss_sets s1 k)) \<subseteq> set (fst (ss_sets s k))" using raw_sets(3) [of e "user_set_key ck sub" s k] s1 by simp
  have "set (fst (ss_sets (snd (raw_call e (sess_del (user_set_key ck sub)) (del_jtis e ck l s1))) k)) \<subseteq> set (fst (ss_sets s1 k))" for l
    using raw_sets(4) del_jtis_sets by blast
  with a show ?thesis by (simp add: revoke_all_def s1 split: option.splits) blast
qed

lemma swept_sub: "swept e up ck sub s \<subseteq> set (fst (ss_sets s (user_set_key ck sub)))"
proof -
  have "deleted_jtis e ck js s1 \<subseteq> set (fst (ss_sets s (user_set_key ck sub)))"
    if "raw_call e (sess_smembers (user_set_key ck sub)) s = (Some js, s1)" for js s1
    using that deleted_sub [of e ck js s1]
      set_members_sub [of "clock e (ncalls (ss_cache s))" "user_set_key ck sub" "s\<lparr>ss_cache := (ss_cache s)\<lparr>ncalls := Suc (ncalls (ss_cache s))\<rparr>\<rparr>"]
    by (auto simp: raw_call_def sess_smembers_def Let_def split: fault.splits)
  then show ?thesis by (auto simp: swept_def split: prod.splits option.splits)
qed

lemma session_step_ok:
  assumes "session_step e up ck x y" "retired_ok ck x"
  shows "retired_ok ck y"
proof -
  have sub: "st_retired x \<subseteq> st_minted x" and sets: "\<And>k. set (fst (ss_sets (st_store x) k)) \<subseteq> st_minted x"
    and gone: "\<And>j. j \<in> st_retired x \<Longrightarrow> keys_of (st_store x) (jti_key ck j) = None"
    using assms(2) by (auto simp: retired_ok_def)
  from assms(1) show ?thesis
  proof cases
    case (mint jti su ttl)
    have "set (fst (ss_sets (snd (session_record e up ck su jti ttl (st_store x))) k)) \<subseteq> insert jti (st_minted x)" for k
      using record_sets [of e up ck su jti ttl "st_store x" k] sets [of k] by blast
    moreover have "keys_of (snd (session_record e up ck su jti ttl (st_store x))) (jti_key ck j) = None" if "j \<in> st_retired x" for j
      using that sub mint record_keys [of "jti_key ck j" ck jti e up su ttl "st_store x"] gone [of j] by auto
    ultimately show ?thesis using mint sub by (auto simp: retired_ok_def)
  next
    case (probe jti)
    have "keys_of (snd (is_live e up ck jti (st_store x))) = keys_of (st_store x)"
      "ss_sets (snd (is_live e up ck jti (st_store x))) = ss_sets (st_store x)"
      by (simp_all add: is_live_def on_cache_def cache_get_def cache_call_def Let_def split: fault.splits prod.splits)
    with probe assms(2) show ?thesis by (simp add: retired_ok_def)
  next
    case (revoke jti)
    with assms(2) show ?thesis by (auto simp: retired_ok_def revoke_jti_def cache_del_keys)
  next
    case (sweep su)
    have "keys_of (revoke_all e up ck su (st_store x)) (jti_key ck j) = None"
      if "j \<in> st_retired x \<union> swept e up ck su (st_store x)" for j
      using that gone [of j] revoke_all_keys [of e up ck su "st_store x" "jti_key ck j"] by (auto split: if_splits)
    moreover have "swept e up ck su (st_store x) \<subseteq> st_minted x" using swept_sub sets by blast
    moreover have "set (fst (ss_sets (revoke_all e up ck su (st_store x)) k)) \<subseteq> st_minted x" for k
      using revoke_all_sets sets by blast
    ultimately show ?thesis using sweep sub by (auto simp: retired_ok_def)
  qed
qed

lemma session_reach_ok: "session_reach e up ck x \<Longrightarrow> retired_ok ck x"
proof (induction rule: session_reach.induct)
  case (start s)
  then show ?case by (simp add: retired_ok_def)
next
  case (move x y)
  then show ?case by (blast intro: session_step_ok)
qed

text \<open>C7: A refresh token that was revoked stays revoked: whatever requests ran since its identifier was
deleted from Redis, by logout, by rotation or by revoking all sessions of its user, and whichever
commands failed, \<open>refresh\<close> refuses it.\<close>

theorem revoked_token_stays_revoked:
  assumes "session_reach (cenv e) up (cookies cfg) x" "jti \<in> st_retired x" "refresh_claims_of e cfg token = Inr (sub, jti)"
  shows "fst (refresh_check e cfg up token (st_store x)) = Inl (Refused ''revoked'')"
proof -
  have "keys_of (st_store x) (jti_key (cookies cfg) jti) = None"
    using session_reach_ok [OF assms(1)] assms(2) by (simp add: retired_ok_def)
  then have "fst (is_live (cenv e) up (cookies cfg) jti (st_store x)) = False"
    by (simp add: is_live_def on_cache_def cache_get_def cache_call_def lookup_def Let_def split: fault.splits prod.splits)
  then show ?thesis
    by (cases "is_live (cenv e) up (cookies cfg) jti (st_store x)") (simp add: refresh_check_def assms(3))
qed

section \<open>A concrete environment\<close>

text \<open>A printer and a parser of JSON that are inverse, and a signature.\<close>

instance json :: countable
  by countable_datatype

definition demo_codec :: idem_env where
  "demo_codec = \<lparr>fate = (\<lambda>_. Answered), clock = (\<lambda>_. 0), parse = (\<lambda>t. Some (from_nat (length t))),
     dump = (\<lambda>j. Some (replicate (to_nat j) CHR ''x'')), hash_hex = (\<lambda>t. t)\<rparr>"

definition demo_account_env :: account_env where
  "demo_account_env = \<lparr>auth = \<lparr>cache_env = demo_codec, hmac = (\<lambda>k t. k)\<rparr>, pw_hash = (\<lambda>t. t), pw_verify = (=), citext = (\<lambda>t. t),
     show_time = (\<lambda>_. [])\<rparr>"

lemma demo_codec_faithful [simp]: "faithful (cenv demo_account_env)"
  by (simp add: faithful_def demo_account_env_def demo_codec_def)

definition demo_auth :: AuthConfig where
  "demo_auth = \<lparr>auth_mode = Jwt, bearer_token = [], jwt_secret = ''k'', jwt_issuer = [], jwt_audience = [], jwt_leeway_sec = 30,
     jwt_roles_claim = ''roles'', jwt_scopes_claim = ''scope'', auth_public_paths = [],
     cookies = \<lparr>cookies_enabled = True, access_name = ''a'', refresh_name = ''r'', access_ttl_sec = 900, refresh_ttl_sec = 604800,
       cookie_secure = True, cookie_samesite = ''Lax'', revocation_prefix = ''auth:refresh:'', csrf_enabled = False, csrf_cookie_name = ''c''\<rparr>\<rparr>"

definition demo_user :: user_row where
  "demo_user = \<lparr>us_id = ''u1'', us_email = ''a@b.kz'', us_password = Some ''pw'', us_first = None, us_last = None, us_confirmed = True,
     us_role = 1, us_created_at = 0\<rparr>"

definition demo_role :: Role where
  "demo_role = \<lparr>ro_id = 1, ro_name = ''User'', ro_permissions = 1, ro_default = True, ro_created_at = 0\<rparr>"

definition demo_tenants :: tenant_db where
  "demo_tenants = \<lparr>roles_t = [demo_role], users_t = [demo_user], api_keys_t = [], used_tokens = [], orgs = [],
     org_members = [\<lparr>mb_id = ''m1'', mb_org = ''o1'', mb_user = ''u1'', mb_role = ''owner'', mb_created_at = 0\<rparr>], bank_accounts = []\<rparr>"

definition no_sessions :: session_store where
  "no_sessions = \<lparr>ss_cache = \<lparr>vals = (\<lambda>_. None), ncalls = 0\<rparr>, ss_sets = (\<lambda>_. ([], None))\<rparr>"

lemma demo_account_fields [simp]:
  "fate (cenv demo_account_env) = (\<lambda>_. Answered)" "clock (cenv demo_account_env) = (\<lambda>_. 0)" "jwt_secret demo_auth = ''k''"
  "revocation_prefix (cookies demo_auth) = ''auth:refresh:''" "refresh_ttl_sec (cookies demo_auth) = 604800"
  "roles_claim_free demo_auth" "access_ttl_sec (cookies demo_auth) = 900" "jwt_leeway_sec demo_auth = 30" "us_id demo_user = ''u1''"
  by (simp_all add: demo_account_env_def demo_codec_def demo_auth_def roles_claim_free_def demo_user_def)

lemma demo_issue: "\<exists>t. issue_hs256_jwt (auth demo_account_env) j ''k'' = Some t"
  by (simp add: issue_hs256_jwt_def demo_account_env_def demo_codec_def Let_def)

definition demo_token :: "int \<Rightarrow> string \<Rightarrow> string" where
  "demo_token now jti = the (issue_hs256_jwt (auth demo_account_env) (refresh_claims demo_auth now ''u1'' jti) ''k'')"

lemma demo_token_issued: "issue_hs256_jwt (auth demo_account_env) (refresh_claims demo_auth now ''u1'' jti) ''k'' = Some (demo_token now jti)"
  using demo_issue [of "refresh_claims demo_auth now ''u1'' jti"] by (auto simp: demo_token_def)

lemma demo_minted:
  "mint_session demo_account_env demo_auth True now demo_tenants jti (demo_user, Some demo_role) s =
     (Done (Some (the (issue_hs256_jwt (auth demo_account_env) (session_claims demo_auth now demo_tenants (demo_user, Some demo_role)) ''k''),
                  demo_token now jti)),
      snd (session_record (cenv demo_account_env) True (cookies demo_auth) ''u1'' jti 604800 s))"
proof -
  obtain a where a: "issue_hs256_jwt (auth demo_account_env) (session_claims demo_auth now demo_tenants (demo_user, Some demo_role)) ''k'' = Some a"
    using demo_issue by blast
  have "fst (session_record (cenv demo_account_env) True (cookies demo_auth) ''u1'' jti 604800 s)"
    by (simp add: session_record_def on_cache_def cache_set_def cache_call_def raw_call_def Let_def split: prod.splits)
  then show ?thesis
    by (cases "session_record (cenv demo_account_env) True (cookies demo_auth) ''u1'' jti 604800 s")
       (simp add: mint_session_def a demo_token_issued)
qed

lemma demo_org: "list_for_user demo_tenants ''u1'' = [\<lparr>mb_id = ''m1'', mb_org = ''o1'', mb_user = ''u1'', mb_role = ''owner'', mb_created_at = 0\<rparr>]"
  by (simp add: list_for_user_def demo_tenants_def)

theorem minted_session_authenticates_witness:
  "\<exists>a r s'. mint_session demo_account_env demo_auth True 1000 demo_tenants ''j1'' (demo_user, Some demo_role) no_sessions = (Done (Some (a, r)), s') \<and>
     (\<exists>p. verify_jwt (auth demo_account_env) demo_auth 1500 a = Inr p \<and> pr_subject p = ''u1'' \<and> pr_org p = ''o1'') \<and>
     refresh_claims_of demo_account_env demo_auth r = Inr (''u1'', ''j1'')"
  using minted_session_authenticates [OF demo_codec_faithful _ demo_minted [of 1000 "''j1''" no_sessions], of 1500] demo_org
    demo_minted [of 1000 "''j1''" no_sessions]
  by auto

definition demo_revoked :: session_trace where
  "demo_revoked =
     \<lparr>st_store = revoke_jti demo_codec True (cookies demo_auth) ''j1'' (snd (session_record demo_codec True (cookies demo_auth) ''u1'' ''j1'' 604800 no_sessions)),
      st_minted = {''j1''}, st_retired = {''j1''}\<rparr>"

lemma demo_revoked_reach: "session_reach demo_codec True (cookies demo_auth) demo_revoked"
proof -
  let ?s1 = "snd (session_record demo_codec True (cookies demo_auth) ''u1'' ''j1'' 604800 no_sessions)"
  have "session_reach demo_codec True (cookies demo_auth) \<lparr>st_store = no_sessions, st_minted = {}, st_retired = {}\<rparr>"
    by (rule session_reach.start) (simp_all add: no_sessions_def)
  from session_reach.move [OF this session_step.mint [of "''j1''"]]
  have "session_reach demo_codec True (cookies demo_auth) \<lparr>st_store = ?s1, st_minted = {''j1''}, st_retired = {}\<rparr>" by simp
  from session_reach.move [OF this session_step.revoke [of "''j1''"]]
  show ?thesis by (simp add: demo_revoked_def next_fate_def demo_codec_def)
qed

theorem revoked_token_stays_revoked_witness:
  "fst (refresh_check demo_account_env demo_auth True (demo_token 1000 ''j1'') (st_store demo_revoked)) = Inl (Refused ''revoked'')"
proof (rule revoked_token_stays_revoked)
  show "session_reach (cenv demo_account_env) True (cookies demo_auth) demo_revoked"
    using demo_revoked_reach by (simp add: demo_account_env_def)
  show "''j1'' \<in> st_retired demo_revoked" by (simp add: demo_revoked_def)
  show "refresh_claims_of demo_account_env demo_auth (demo_token 1000 ''j1'') = Inr (''u1'', ''j1'')"
    using issued_nonempty [OF demo_token_issued]
    by (simp add: refresh_claims_of_def issued_verifies [OF demo_codec_faithful demo_token_issued] refresh_claims_simps)
qed

section \<open>Switching and racing\<close>

lemma find_user_id: "find_user d i = Some v \<Longrightarrow> us_id (fst v) = i"
  by (auto simp: find_user_def with_role_def find_Some_iff)

lemma switchD:
  assumes "switch_org e cfg now rd (Some who) org x = (reply, x')" "sr_cookies reply = Some (token, r)"
  shows "is_uuid_segment org \<and> find_membership rd org (pr_subject who) \<noteq> None \<and>
    (\<exists>v. find_user rd (pr_subject who) = Some v \<and> issue_hs256_jwt (auth e) (switch_claims cfg now org v) (jwt_secret cfg) = Some token) \<and>
    acc_db x' = acc_db x \<and> acc_sessions x' = acc_sessions x"
  using assms
  by (auto simp: switch_org_def require_principal_def plain_reply_def acc_audited_def split: if_splits option.splits)

text \<open>C6: \<open>switchOrg\<close> gives a token for an organization only to a member of it. The token authenticates
the same user, and what a later request with it may act for is decided by the membership at that
time: the organization with the role the member then has, or nothing once the membership is gone.\<close>

theorem switch_is_scoped:
  assumes "faithful (cenv e)" "roles_claim_free cfg" "switch_org e cfg now rd (Some who) org x = (reply, x')"
    "sr_cookies reply = Some (token, r)" "now \<le> t" "t \<le> now + access_ttl_sec (cookies cfg) + jwt_leeway_sec cfg" "pr_subject who \<noteq> []"
  shows "list_ex (membership_of org (pr_subject who)) (org_members rd) \<and>
    (\<exists>p. verify_jwt (auth e) cfg t token = Inr p \<and> pr_subject p = pr_subject who \<and>
      (\<forall>rd'. org_context_of rd' (Some p) =
         (case find_membership rd' org (pr_subject who) of
            None \<Rightarrow> None
          | Some m \<Rightarrow> Some \<lparr>oc_org = org, oc_user = pr_subject who, oc_role = mb_role m\<rparr>)))"
proof -
  note s = switchD [OF assms(3,4)]
  then obtain v where v: "find_user rd (pr_subject who) = Some v"
    and i: "issue_hs256_jwt (auth e) (switch_claims cfg now org v) (jwt_secret cfg) = Some token" by blast
  have ne: "org \<noteq> []" using s by (auto simp: is_uuid_segment_def)
  from access_token_verifies(1) [OF assms(1) i switch_claims_for [OF assms(2)] assms(5,6)]
  obtain p where p: "verify_jwt (auth e) cfg t token = Inr p" "pr_subject p = pr_subject who" "pr_org p = org"
    using find_user_id [OF v] by auto
  have "list_ex (membership_of org (pr_subject who)) (org_members rd)"
    using s by (auto simp: find_membership_def find_None_iff list_ex_iff)
  with p ne assms(7) show ?thesis by (auto simp: org_context_of_def split: option.splits)
qed

definition demo_org_id :: string where
  "demo_org_id = ''01234567-89ab-cdef-0123-456789abcdef''"

definition demo_two_orgs :: tenant_db where
  "demo_two_orgs = demo_tenants\<lparr>org_members := \<lparr>mb_id = ''m2'', mb_org = demo_org_id, mb_user = ''u1'', mb_role = ''hr'', mb_created_at = 1\<rparr> #
     org_members demo_tenants\<rparr>"

definition demo_principal :: AuthPrincipal where
  "demo_principal = \<lparr>pr_subject = ''u1'', pr_roles = [], pr_scopes = [], pr_org = [], pr_claims = JObj []\<rparr>"

definition demo_state :: account_state where
  "demo_state = \<lparr>acc_db = demo_two_orgs, acc_sessions = no_sessions, acc_audit = [], acc_mails = []\<rparr>"

lemma demo_switched:
  "\<exists>token. sr_cookies (fst (switch_org demo_account_env demo_auth 1000 demo_two_orgs (Some demo_principal) demo_org_id demo_state)) = Some (token, [])"
proof -
  have u: "is_uuid_segment demo_org_id" by code_simp
  obtain token where "issue_hs256_jwt (auth demo_account_env) (switch_claims demo_auth 1000 demo_org_id (demo_user, Some demo_role)) ''k'' = Some token"
    using demo_issue by blast
  with u show ?thesis
    by (simp add: switch_org_def require_principal_def find_membership_def membership_of_def find_user_def with_role_def find_role_def
        demo_two_orgs_def demo_tenants_def demo_principal_def demo_role_def demo_user_def)
qed

theorem switch_is_scoped_witness:
  "\<exists>token p. sr_cookies (fst (switch_org demo_account_env demo_auth 1000 demo_two_orgs (Some demo_principal) demo_org_id demo_state)) = Some (token, []) \<and>
     verify_jwt (auth demo_account_env) demo_auth 1500 token = Inr p \<and>
     org_context_of demo_two_orgs (Some p) = Some \<lparr>oc_org = demo_org_id, oc_user = ''u1'', oc_role = ''hr''\<rparr> \<and>
     org_context_of demo_tenants (Some p) = None"
proof -
  obtain token where t: "sr_cookies (fst (switch_org demo_account_env demo_auth 1000 demo_two_orgs (Some demo_principal) demo_org_id demo_state)) = Some (token, [])"
    using demo_switched by blast
  have ps: "pr_subject demo_principal = ''u1''" by (simp add: demo_principal_def)
  from switch_is_scoped [OF demo_codec_faithful _ surjective_pairing t, of 1500, unfolded ps]
  obtain p where "verify_jwt (auth demo_account_env) demo_auth 1500 token = Inr p"
    "\<forall>rd'. org_context_of rd' (Some p) = (case find_membership rd' demo_org_id ''u1'' of None \<Rightarrow> None
       | Some m \<Rightarrow> Some \<lparr>oc_org = demo_org_id, oc_user = ''u1'', oc_role = mb_role m\<rparr>)"
    by auto
  with t show ?thesis
    by (auto simp: find_membership_def membership_of_def demo_two_orgs_def demo_tenants_def demo_org_id_def)
qed

text \<open>Two requests that check the same refresh token before either rotates it both get a session.\<close>

lemma demo_live:
  "vals (ss_cache s) (''auth:refresh:j1'') = Some (''1'', Some 604800000) \<Longrightarrow>
   \<exists>s'. refresh_check demo_account_env demo_auth True (demo_token 1000 ''j1'') s = (Inr (''u1'', ''j1''), s') \<and> vals (ss_cache s') = vals (ss_cache s)"
  using issued_nonempty [OF demo_token_issued]
  by (simp add: refresh_check_def refresh_claims_of_def issued_verifies [OF demo_codec_faithful demo_token_issued] refresh_claims_simps
      is_live_def on_cache_def cache_get_def cache_call_def lookup_def live_def jti_key_def Let_def)

lemma demo_rotates:
  "\<exists>reply s'. refresh_rotate demo_account_env demo_auth True 1000 demo_tenants jti (''u1'', ''j1'') s = (Done reply, s') \<and>
     sr_cookies reply = Some (the (issue_hs256_jwt (auth demo_account_env) (session_claims demo_auth 1000 demo_tenants (demo_user, Some demo_role)) ''k''),
       demo_token 1000 jti)"
proof -
  have "find_user demo_tenants ''u1'' = Some (demo_user, Some demo_role)"
    by (simp add: find_user_def with_role_def find_role_def demo_tenants_def demo_role_def demo_user_def)
  then show ?thesis by (simp add: refresh_rotate_def demo_minted)
qed

lemma refresh_token_is_spent_twice:
  "\<exists>s1 s2 r1 s3 r2 s4 t2 t3 a2 a3.
     refresh_check demo_account_env demo_auth True (demo_token 1000 ''j1'')
       (snd (session_record demo_codec True (cookies demo_auth) ''u1'' ''j1'' 604800 no_sessions)) = (Inr (''u1'', ''j1''), s1) \<and>
     refresh_check demo_account_env demo_auth True (demo_token 1000 ''j1'') s1 = (Inr (''u1'', ''j1''), s2) \<and>
     refresh_rotate demo_account_env demo_auth True 1000 demo_tenants ''j2'' (''u1'', ''j1'') s2 = (Done r1, s3) \<and>
     refresh_rotate demo_account_env demo_auth True 1000 demo_tenants ''j3'' (''u1'', ''j1'') s3 = (Done r2, s4) \<and>
     sr_cookies r1 = Some (a2, t2) \<and> sr_cookies r2 = Some (a3, t3)"
proof -
  let ?s0 = "snd (session_record demo_codec True (cookies demo_auth) ''u1'' ''j1'' 604800 no_sessions)"
  have "vals (ss_cache ?s0) ''auth:refresh:j1'' = Some (''1'', Some 604800000)"
    by (simp add: session_record_def on_cache_def cache_set_def cache_call_def raw_call_def sess_sadd_def sess_expire_def jti_key_def demo_codec_def
        no_sessions_def Let_def)
  from demo_live [OF this] obtain s1 where s1: "refresh_check demo_account_env demo_auth True (demo_token 1000 ''j1'') ?s0 = (Inr (''u1'', ''j1''), s1)"
    and v: "vals (ss_cache s1) ''auth:refresh:j1'' = Some (''1'', Some 604800000)"
    using \<open>vals (ss_cache ?s0) _ = _\<close> by auto
  from demo_live [OF v] obtain s2 where s2: "refresh_check demo_account_env demo_auth True (demo_token 1000 ''j1'') s1 = (Inr (''u1'', ''j1''), s2)"
    by blast
  obtain r1 s3 where "refresh_rotate demo_account_env demo_auth True 1000 demo_tenants ''j2'' (''u1'', ''j1'') s2 = (Done r1, s3)"
    "sr_cookies r1 = Some (the (issue_hs256_jwt (auth demo_account_env) (session_claims demo_auth 1000 demo_tenants (demo_user, Some demo_role)) ''k''), demo_token 1000 ''j2'')"
    using demo_rotates by blast
  moreover obtain r2 s4 where "refresh_rotate demo_account_env demo_auth True 1000 demo_tenants ''j3'' (''u1'', ''j1'') s3 = (Done r2, s4)"
    "sr_cookies r2 = Some (the (issue_hs256_jwt (auth demo_account_env) (session_claims demo_auth 1000 demo_tenants (demo_user, Some demo_role)) ''k''), demo_token 1000 ''j3'')"
    using demo_rotates by blast
  ultimately show ?thesis using s1 s2 by blast
qed

section \<open>Who passes the middleware\<close>

text \<open>C39: In the mode of tokens, a request to a path that is not public passes the authentication
advice only as somebody: with a key that is not revoked, as its user with the permissions the user's
role has in this moment, or with a token signed with the secret of the service whose time has not run
out, which is not a refresh token, as the subject and the organization the token names. A key decides
alone: a request with one never falls back to its cookie.\<close>

theorem passed_requests_are_authentic:
  assumes "auth_advice (auth e) cfg up now req d = (Pass v, d')" "auth_mode cfg = Jwt" "hr_method req \<noteq> ''OPTIONS''"
    "\<not> path_is_public (auth_public_paths cfg) (hr_path req)"
  shows "\<exists>p. v = Some p \<and>
     (if extract_key req \<noteq> []
      then \<exists>k u r. k \<in> set (api_keys_t d) \<and> ak_hash k = hash_hex (cenv e) (extract_key req) \<and> ak_revoked k = None \<and>
             find_user d (ak_user k) = Some (u, Some r) \<and> pr_subject p = us_id u \<and> pr_org p = [] \<and>
             current_permissions (Some p) = ro_permissions r
      else d' = d \<and> signed_with (auth e) (jwt_secret cfg) (extract_access_token req (cookies cfg)) (pr_claims p) \<and>
           member (pr_claims p) ''typ'' \<noteq> Some (JStr ''refresh'') \<and>
           (\<forall>x. member (pr_claims p) ''exp'' = Some (JInt x) \<longrightarrow> now \<le> x + jwt_leeway_sec cfg) \<and>
           claim_text (pr_claims p) ''sub'' = Inr (pr_subject p) \<and> claim_text (pr_claims p) ''org'' = Inr (pr_org p))"
  using auth_advice_pass [OF assms]
proof (elim disjE exE conjE)
  fix p assume v: "v = Some p" and k: "extract_key req \<noteq> []"
    and a: "authenticate_key (hash_hex (cenv e)) up now req d = (Some p, d')"
  from authenticate_keyD [OF a] k show ?thesis unfolding v by (intro exI [of _ p]) auto
next
  fix p assume v: "v = Some p" and k: "extract_key req = []" "d' = d"
    and a: "verify_jwt (auth e) cfg now (extract_access_token req (cookies cfg)) = Inr p"
  from verify_jwtD [OF a] k show ?thesis unfolding v by (intro exI [of _ p]) auto
qed

definition demo_key :: api_key_row where
  "demo_key = \<lparr>ak_id = ''k1'', ak_user = ''u1'', ak_name = ''ci'', ak_hash = ''cpk_0'', ak_prefix = ''cpk_'', ak_last_used = None,
     ak_revoked = None, ak_created_at = 0\<rparr>"

definition demo_keyed_request :: http_request where
  "demo_keyed_request = \<lparr>hr_method = ''GET'', hr_path = ''/api/v1/me'', hr_header = (\<lambda>h. if h = ''X-API-Key'' then ''cpk_0'' else []),
     hr_cookie = (\<lambda>_. []), hr_body_empty = True\<rparr>"

theorem passed_requests_are_authentic_witness:
  "let (a, d) = auth_advice (auth demo_account_env\<lparr>cache_env := demo_codec\<lparr>hash_hex := (\<lambda>t. t)\<rparr>\<rparr>) demo_auth True 0 demo_keyed_request
     (demo_tenants\<lparr>api_keys_t := [demo_key]\<rparr>)
   in \<exists>p. a = Pass (Some p) \<and> pr_subject p = ''u1'' \<and> current_permissions (Some p) = 1"
proof -
  let ?e = "demo_account_env\<lparr>auth := auth demo_account_env\<lparr>cache_env := demo_codec\<lparr>hash_hex := (\<lambda>t. t)\<rparr>\<rparr>\<rparr>"
  let ?d = "demo_tenants\<lparr>api_keys_t := [demo_key]\<rparr>"
  obtain v d' where p: "auth_advice (auth ?e) demo_auth True 0 demo_keyed_request ?d = (Pass v, d')"
    by (simp add: auth_advice_def authenticate_key_def extract_key_def demo_keyed_request_def demo_auth_def demo_key_def demo_tenants_def
        path_is_public_def find_user_def with_role_def find_role_def demo_user_def demo_role_def Let_def)
  have u: "find_user ?d ''u1'' = Some (demo_user, Some demo_role)"
    by (simp add: find_user_def with_role_def find_role_def demo_tenants_def demo_role_def demo_user_def)
  have x: "extract_key demo_keyed_request = ''cpk_0''" "auth_mode demo_auth = Jwt" "hr_method demo_keyed_request \<noteq> ''OPTIONS''"
    "\<not> path_is_public (auth_public_paths demo_auth) (hr_path demo_keyed_request)"
    by (simp_all add: extract_key_def demo_keyed_request_def demo_auth_def path_is_public_def)
  from passed_requests_are_authentic [OF p x(2,3,4)]
  obtain q k u r where "v = Some q" "k \<in> set (api_keys_t ?d)" "find_user ?d (ak_user k) = Some (u, Some r)" "pr_subject q = us_id u"
    "current_permissions (Some q) = ro_permissions r"
    by (auto simp: x(1))
  with u p show ?thesis by (auto simp: demo_key_def demo_role_def demo_user_def)
qed

end
