(* ===== verification/LinkTokens.thy ===== *)
theory LinkTokens
  imports Sessions
begin

text \<open>
  Links sent by e-mail: the signed single-purpose tokens of \<^verbatim>\<open>src/src/security/Tokens.hpp\<close>, the mails of
  \<^verbatim>\<open>src/src/email/AccountEmails.hpp\<close> and \<^verbatim>\<open>AccountEmailWorker.hpp\<close> that carry them, the handlers of
  \<^verbatim>\<open>src/src/api/AccountController.hpp\<close> that redeem them, and the task of \<^verbatim>\<open>src/src/core/Core.hpp\<close> that forgets
  used ones.

  A mail is what \<open>dispatch\<close> puts into the queue (its kind, the user and the new address); rendering
  and SMTP are left out. \<open>up\<close> tells whether the cache is there and \<open>db_up\<close> whether the database
  answers the statement of \<open>consume_once\<close>, which never throws.
\<close>

section \<open>Tokens\<close>

datatype Purpose = Confirm | ResetPassword | ChangeEmail | Invite | Preview

fun purpose_string :: "Purpose \<Rightarrow> string" where
  "purpose_string Confirm = ''confirm''"
| "purpose_string ResetPassword = ''reset''"
| "purpose_string ChangeEmail = ''change_email''"
| "purpose_string Invite = ''invite''"
| "purpose_string Preview = ''preview''"

definition derive_key :: "auth_env \<Rightarrow> string \<Rightarrow> Purpose \<Rightarrow> string" where
  "derive_key e master p = hmac e master (''tokens:'' @ purpose_string p)"

definition link_payload :: "int \<Rightarrow> string \<Rightarrow> Purpose \<Rightarrow> int \<Rightarrow> (string \<times> json) list \<Rightarrow> json" where
  "link_payload now sub p ttl extra =
     fold (\<lambda>(k, v) j. assign k v j) extra
       (initializer [(''sub'', JStr sub), (''purpose'', JStr (purpose_string p)), (''iat'', JInt now), (''exp'', JInt (now + ttl))])"

definition link_text :: "auth_env \<Rightarrow> string \<Rightarrow> Purpose \<Rightarrow> string \<Rightarrow> string" where
  "link_text e master p payload_b64 = payload_b64 @ ''.'' @ url_encode (hmac e (derive_key e master p) payload_b64)"

text \<open>\<open>None\<close> where the call throws.\<close>

definition issue_link :: "auth_env \<Rightarrow> int \<Rightarrow> string \<Rightarrow> string \<Rightarrow> Purpose \<Rightarrow> int \<Rightarrow> (string \<times> json) list \<Rightarrow> string option" where
  "issue_link e now master sub p ttl extra =
     (if master = [] then None
      else map_option (\<lambda>t. link_text e master p (url_encode t)) (dump (cache_env e) (link_payload now sub p ttl extra)))"

definition reserved_claims :: "string list" where
  "reserved_claims = [''sub'', ''purpose'', ''iat'', ''exp'']"

definition check_claims :: "int \<Rightarrow> Purpose \<Rightarrow> json \<Rightarrow> string + string \<times> (string \<times> json) list" where
  "check_claims now p claims =
     (if member claims ''purpose'' \<noteq> Some (JStr (purpose_string p)) then Inl ''wrong_purpose''
      else
        (case member claims ''exp'' of
           Some (JInt x) \<Rightarrow>
             if x < now then Inl ''expired''
             else
               (case member claims ''sub'' of
                  Some (JStr sub) \<Rightarrow> Inr (sub, filter (\<lambda>(k, v). k \<notin> set reserved_claims) (members claims))
                | _ \<Rightarrow> Inl ''no_sub'')
         | _ \<Rightarrow> Inl ''no_exp''))"

definition verify_link :: "auth_env \<Rightarrow> int \<Rightarrow> string \<Rightarrow> string \<Rightarrow> Purpose \<Rightarrow> string + string \<times> (string \<times> json) list" where
  "verify_link e now master token p =
     (if master = [] then Inl ''no_secret''
      else
        (case split_dot token of
           None \<Rightarrow> Inl ''malformed''
         | Some (payload_b64, sig_b64) \<Rightarrow>
             (case (url_decode sig_b64, url_decode payload_b64) of
                (Inr actual_sig, Inr payload_raw) \<Rightarrow>
                  if hmac e (derive_key e master p) payload_b64 \<noteq> actual_sig then Inl ''invalid_signature''
                  else
                    (case parse (cache_env e) payload_raw of
                       None \<Rightarrow> Inl ''malformed''
                     | Some claims \<Rightarrow> check_claims now p claims)
              | _ \<Rightarrow> Inl ''malformed'')))"

section \<open>Mails\<close>

definition link_days :: int where "link_days = 7 * 24 * 3600"
definition link_hour :: int where "link_hour = 3600"

definition trimmed_base :: "string \<Rightarrow> string" where
  "trimmed_base base = (if base \<noteq> [] \<and> last base = CHR ''/'' then butlast base else base)"

text \<open>\<open>deliver_now\<close>: the recipient and the link; \<open>None\<close> where it throws.\<close>

definition deliver_now ::
  "auth_env \<Rightarrow> int \<Rightarrow> string \<Rightarrow> string \<Rightarrow> string \<Rightarrow> user_row \<Rightarrow> string \<Rightarrow> (string \<times> string) option" where
  "deliver_now e now master base kind u new_email =
     (let link = (\<lambda>path p ttl extra. map_option (\<lambda>t. trimmed_base base @ path @ t) (issue_link e now master (us_id u) p ttl extra))
      in if kind = ''confirm'' then map_option (Pair (us_email u)) (link ''/account/confirm/'' Confirm link_days [])
         else if kind = ''reset_password'' then map_option (Pair (us_email u)) (link ''/account/reset-password/'' ResetPassword link_hour [])
         else if kind = ''change_email'' then
           map_option (Pair new_email) (link ''/account/change-email/'' ChangeEmail link_hour [(''new_email'', JStr new_email)])
         else if kind = ''invite'' then map_option (Pair (us_email u)) (link ''/account/join-from-invite/'' Invite link_days [])
         else None)"

datatype mail_outcome = Sent string string | Skipped | MailThrows

text \<open>The worker's handler reads the user from the primary.\<close>

definition process_mail_job :: "auth_env \<Rightarrow> int \<Rightarrow> string \<Rightarrow> string \<Rightarrow> tenant_db \<Rightarrow> string \<times> string \<times> string \<Rightarrow> mail_outcome" where
  "process_mail_job e now master base d mail =
     (case mail of (kind, user, new_email) \<Rightarrow>
      (case find_user d user of
         None \<Rightarrow> Skipped
       | Some (u, _) \<Rightarrow> (case deliver_now e now master base kind u new_email of None \<Rightarrow> MailThrows | Some (to, link) \<Rightarrow> Sent to link)))"

definition dispatch :: "string \<Rightarrow> string \<Rightarrow> string \<Rightarrow> account_state \<Rightarrow> account_state" where
  "dispatch kind user new_email x = x\<lparr>acc_mails := acc_mails x @ [(kind, user, new_email)]\<rparr>"

section \<open>One use\<close>

definition consume_once :: "auth_env \<Rightarrow> bool \<Rightarrow> int \<Rightarrow> string \<Rightarrow> int \<Rightarrow> tenant_db \<Rightarrow> bool \<times> tenant_db" where
  "consume_once e db_up now token ttl d =
     (let h = hash_hex (cache_env e) token
      in if \<not> db_up \<or> h \<in> ut_hash ` set (used_tokens d) then (False, d)
         else (True, d\<lparr>used_tokens := used_tokens d @ [\<lparr>ut_hash = h, ut_expires_at = now + ttl\<rparr>]\<rparr>))"

definition reap_used_tokens :: "int \<Rightarrow> tenant_db \<Rightarrow> tenant_db" where
  "reap_used_tokens now d = d\<lparr>used_tokens := filter (\<lambda>u. \<not> ut_expires_at u < now) (used_tokens d)\<rparr>"

section \<open>Handlers\<close>

definition message_reply :: "string \<Rightarrow> response" where
  "message_reply m = ok (object [(''message'', JStr m)])"

definition invalid_token :: "string \<Rightarrow> response" where
  "invalid_token m = bad_request ''invalid_token'' m (JObj [])"

definition resend_confirm :: "tenant_db \<Rightarrow> AuthPrincipal option \<Rightarrow> account_state \<Rightarrow> response \<times> account_state" where
  "resend_confirm rd p x =
     (case require_principal p of
        Inl r \<Rightarrow> (r, x)
      | Inr who \<Rightarrow>
          (case find_user rd (pr_subject who) of
             None \<Rightarrow> (not_found ''user'', x)
           | Some (u, _) \<Rightarrow>
               if us_confirmed u then (message_reply ''already confirmed'', x)
               else (message_reply ''confirmation email sent'', dispatch ''confirm'' (us_id u) [] x)))"

definition confirm :: "account_env \<Rightarrow> AuthConfig \<Rightarrow> bool \<Rightarrow> int \<Rightarrow> string \<Rightarrow> account_state \<Rightarrow> response \<times> account_state" where
  "confirm e cfg db_up now token x =
     (case verify_link (auth e) now (jwt_secret cfg) token Confirm of
        Inl _ \<Rightarrow> (invalid_token ''Confirmation link is invalid or has expired'', x)
      | Inr (sub, _) \<Rightarrow>
          (case consume_once (auth e) db_up now token link_days (acc_db x) of
             (False, d) \<Rightarrow> (invalid_token ''Confirmation link has already been used'', x\<lparr>acc_db := d\<rparr>)
           | (True, d) \<Rightarrow>
               (case mark_confirmed sub d of
                  (False, d') \<Rightarrow> (not_found ''user'', x\<lparr>acc_db := d'\<rparr>)
                | (True, d') \<Rightarrow> (message_reply ''Account confirmed'', x\<lparr>acc_db := d'\<rparr>))))"

definition email_shape_errors :: "json \<Rightarrow> string \<Rightarrow> errors" where
  "email_shape_errors b field = email (fst (require [] b field)) b field"

definition request_reset :: "account_env \<Rightarrow> tenant_db \<Rightarrow> json option \<Rightarrow> account_state \<Rightarrow> response \<times> account_state" where
  "request_reset e rd req x =
     (case parse_body req of
        Inl r \<Rightarrow> (r, x)
      | Inr b \<Rightarrow>
          if email_shape_errors b ''email'' \<noteq> [] then (response_400 (email_shape_errors b ''email''), x)
          else
            (message_reply ''If that email is registered, a reset link is on its way.'',
             case find_user_by_email (citext e) rd (text_of b ''email'') of
               None \<Rightarrow> x
             | Some (u, _) \<Rightarrow> dispatch ''reset_password'' (us_id u) [] x))"

definition new_password_shape :: "errors \<Rightarrow> json \<Rightarrow> errors" where
  "new_password_shape errs b = string_length (fst (require errs b ''new_password'')) b ''new_password'' kPasswordMinLen kPasswordMaxLen"

definition apply_reset ::
  "account_env \<Rightarrow> AuthConfig \<Rightarrow> bool \<Rightarrow> bool \<Rightarrow> int \<Rightarrow> string \<Rightarrow> json option \<Rightarrow> account_state \<Rightarrow> response \<times> account_state" where
  "apply_reset e cfg up db_up now token req x =
     (case parse_body req of
        Inl r \<Rightarrow> (r, x)
      | Inr b \<Rightarrow>
          if new_password_shape [] b \<noteq> [] then (response_400 (new_password_shape [] b), x)
          else
            (case verify_link (auth e) now (jwt_secret cfg) token ResetPassword of
               Inl _ \<Rightarrow> (invalid_token ''Reset link is invalid or has expired'', x)
             | Inr (sub, _) \<Rightarrow>
                 (case consume_once (auth e) db_up now token link_hour (acc_db x) of
                    (False, d) \<Rightarrow> (invalid_token ''Reset link has already been used'', x\<lparr>acc_db := d\<rparr>)
                  | (True, d) \<Rightarrow>
                      (case update_password_hash sub (pw_hash e (text_of b ''new_password'')) d of
                         Inl err \<Rightarrow> (repo_reply err, x\<lparr>acc_db := d\<rparr>)
                       | Inr d' \<Rightarrow>
                           (message_reply ''Password updated'',
                            x\<lparr>acc_db := d', acc_sessions := revoke_all (cenv e) up (cookies cfg) sub (acc_sessions x)\<rparr>)))))"

definition change_email_shape :: "json \<Rightarrow> errors" where
  "change_email_shape b = fst (require (email_shape_errors b ''new_email'') b ''password'')"

definition request_change_email ::
  "account_env \<Rightarrow> tenant_db \<Rightarrow> AuthPrincipal option \<Rightarrow> json option \<Rightarrow> account_state \<Rightarrow> response \<times> account_state" where
  "request_change_email e rd p req x =
     (case rbind (require_principal p) (\<lambda>who. rbind (parse_body req) (\<lambda>b. Inr (who, b))) of
        Inl r \<Rightarrow> (r, x)
      | Inr (who, b) \<Rightarrow>
          if change_email_shape b \<noteq> [] then (response_400 (change_email_shape b), x)
          else
            (case find_user rd (pr_subject who) of
               None \<Rightarrow> (unauthorized ''invalid_credentials'' [], x)
             | Some (u, r) \<Rightarrow>
                 if us_password u = None then (unauthorized ''invalid_credentials'' [], x)
                 else
                   (case get_text b ''password'' of
                      None \<Rightarrow> (sql_failed, x)
                    | Some pw \<Rightarrow>
                        if \<not> password_ok e pw (u, r) then (unauthorized ''invalid_credentials'' ''Wrong password'', x)
                        else (message_reply ''Confirmation email sent to the new address.'',
                              dispatch ''change_email'' (us_id u) (text_of b ''new_email'') x))))"

definition apply_change_email ::
  "account_env \<Rightarrow> AuthConfig \<Rightarrow> bool \<Rightarrow> int \<Rightarrow> tenant_db \<Rightarrow> string \<Rightarrow> account_state \<Rightarrow> response \<times> account_state" where
  "apply_change_email e cfg db_up now rd token x =
     (case verify_link (auth e) now (jwt_secret cfg) token ChangeEmail of
        Inl _ \<Rightarrow> (invalid_token ''Change-email link is invalid or has expired'', x)
      | Inr (sub, extra) \<Rightarrow>
          (case map_of extra ''new_email'' of
             Some (JStr mail) \<Rightarrow>
               if (case find_user_by_email (citext e) rd mail of None \<Rightarrow> False | Some (u, _) \<Rightarrow> us_id u \<noteq> sub)
               then (conflict ''email_taken'' ''That email address is already in use'', x)
               else
                 (case consume_once (auth e) db_up now token link_hour (acc_db x) of
                    (False, d) \<Rightarrow> (invalid_token ''Change-email link has already been used'', x\<lparr>acc_db := d\<rparr>)
                  | (True, d) \<Rightarrow>
                      (case change_email (citext e) sub mail d of
                         Inl err \<Rightarrow> (repo_reply err, x\<lparr>acc_db := d\<rparr>)
                       | Inr d' \<Rightarrow> (message_reply ''Email updated'', x\<lparr>acc_db := d'\<rparr>)))
           | _ \<Rightarrow> (invalid_token ''Token is missing the new email'', x)))"

definition join_from_invite ::
  "account_env \<Rightarrow> AuthConfig \<Rightarrow> bool \<Rightarrow> int \<Rightarrow> string \<Rightarrow> json option \<Rightarrow> account_state \<Rightarrow> response \<times> account_state" where
  "join_from_invite e cfg up now token req x =
     (case parse_body req of
        Inl r \<Rightarrow> (r, x)
      | Inr b \<Rightarrow>
          if new_password_shape [] b \<noteq> [] then (response_400 (new_password_shape [] b), x)
          else
            (case verify_link (auth e) now (jwt_secret cfg) token Invite of
               Inl _ \<Rightarrow> (invalid_token ''Invitation link is invalid or has expired'', x)
             | Inr (sub, _) \<Rightarrow>
                 (case redeem_invite sub (pw_hash e (text_of b ''new_password'')) (acc_db x) of
                    (False, d) \<Rightarrow> (invalid_token ''This invitation has already been used or is no longer valid'', x\<lparr>acc_db := d\<rparr>)
                  | (True, d) \<Rightarrow>
                      (message_reply (''Account ready '' @ utf8 [0x2014] @ '' you can now sign in.''),
                       x\<lparr>acc_db := d, acc_sessions := revoke_all (cenv e) up (cookies cfg) sub (acc_sessions x)\<rparr>))))"

definition change_password ::
  "account_env \<Rightarrow> AuthConfig \<Rightarrow> bool \<Rightarrow> tenant_db \<Rightarrow> AuthPrincipal option \<Rightarrow> json option \<Rightarrow> account_state \<Rightarrow> response \<times> account_state" where
  "change_password e cfg up rd p req x =
     (case rbind (require_principal p) (\<lambda>who. rbind (parse_body req) (\<lambda>b. Inr (who, b))) of
        Inl r \<Rightarrow> (r, x)
      | Inr (who, b) \<Rightarrow>
          let errs = new_password_shape (fst (require [] b ''old_password'')) b
          in if errs \<noteq> [] then (response_400 errs, x)
             else
               (case find_user rd (pr_subject who) of
                  None \<Rightarrow> (unauthorized ''invalid_credentials'' [], x)
                | Some (u, r) \<Rightarrow>
                    if us_password u = None then (unauthorized ''invalid_credentials'' [], x)
                    else
                      (case get_text b ''old_password'' of
                         None \<Rightarrow> (sql_failed, x)
                       | Some pw \<Rightarrow>
                           if \<not> password_ok e pw (u, r) then (unauthorized ''invalid_credentials'' ''Original password is incorrect'', x)
                           else
                             (case update_password_hash (us_id u) (pw_hash e (text_of b ''new_password'')) (acc_db x) of
                                Inl _ \<Rightarrow> (sql_failed, x)
                              | Inr d \<Rightarrow>
                                  (message_reply ''Password updated'',
                                   x\<lparr>acc_db := d, acc_sessions := revoke_all (cenv e) up (cookies cfg) (us_id u) (acc_sessions x)\<rparr>)))))"

section \<open>A link is good for its purpose and its time\<close>

lemma purpose_string_inj [simp]: "purpose_string p = purpose_string q \<longleftrightarrow> p = q"
  by (cases p; cases q) simp_all

lemma fold_assign_object: "is_object j \<Longrightarrow> is_object (fold (\<lambda>(k, v) j. assign k v j) extra j)"
  by (induction extra arbitrary: j) auto

lemma fold_assign_member:
  "is_object j \<Longrightarrow> k \<notin> fst ` set extra \<Longrightarrow> member (fold (\<lambda>(k, v) j. assign k v j) extra j) k = member j k"
  by (induction extra arbitrary: j) (auto simp: fold_assign_object)

definition no_reserved :: "(string \<times> json) list \<Rightarrow> bool" where
  "no_reserved extra \<longleftrightarrow> list_all (\<lambda>(k, v). k \<notin> set reserved_claims) extra"

lemma payload_members:
  assumes "no_reserved extra"
  shows "member (link_payload now sub p ttl extra) ''purpose'' = Some (JStr (purpose_string p))"
    "member (link_payload now sub p ttl extra) ''exp'' = Some (JInt (now + ttl))"
    "member (link_payload now sub p ttl extra) ''sub'' = Some (JStr sub)"
proof -
  have "''purpose'' \<notin> fst ` set extra" "''exp'' \<notin> fst ` set extra" "''sub'' \<notin> fst ` set extra"
    using assms by (auto simp: no_reserved_def reserved_claims_def list_all_iff)
  then show "member (link_payload now sub p ttl extra) ''purpose'' = Some (JStr (purpose_string p))"
    "member (link_payload now sub p ttl extra) ''exp'' = Some (JInt (now + ttl))"
    "member (link_payload now sub p ttl extra) ''sub'' = Some (JStr sub)"
    by (simp_all add: link_payload_def fold_assign_member)
qed

lemma issued_link_verifies:
  assumes "faithful (cache_env e)" "issue_link e now master sub p ttl extra = Some token" "no_reserved extra"
  shows "verify_link e t master token p =
      (if now + ttl < t then Inl ''expired''
       else Inr (sub, filter (\<lambda>(k, v). k \<notin> set reserved_claims) (members (link_payload now sub p ttl extra))))"
    and "q \<noteq> p \<Longrightarrow> verify_link e t master token q \<in> {Inl ''invalid_signature'', Inl ''wrong_purpose''}"
proof -
  obtain raw where d: "dump (cache_env e) (link_payload now sub p ttl extra) = Some raw" and m: "master \<noteq> []"
    and token: "token = url_encode raw @ CHR ''.'' # url_encode (hmac e (derive_key e master p) (url_encode raw))"
    using assms(2) by (auto simp: issue_link_def link_text_def split: if_splits)
  have pa: "parse (cache_env e) raw = Some (link_payload now sub p ttl extra)" using assms(1) d by (simp add: faithful_def)
  note s = split_dot_append [OF dot_not_alpha, of raw "url_encode (hmac e (derive_key e master p) (url_encode raw))"]
  show "verify_link e t master token p =
      (if now + ttl < t then Inl ''expired''
       else Inr (sub, filter (\<lambda>(k, v). k \<notin> set reserved_claims) (members (link_payload now sub p ttl extra))))"
    by (simp add: verify_link_def token s m b64.dec_enc pa check_claims_def payload_members [OF assms(3)])
  show "q \<noteq> p \<Longrightarrow> verify_link e t master token q \<in> {Inl ''invalid_signature'', Inl ''wrong_purpose''}"
    by (simp add: verify_link_def token s m b64.dec_enc pa check_claims_def payload_members [OF assms(3)])
qed

lemma filtered_extra: "k \<notin> set reserved_claims \<Longrightarrow> map_of (filter (\<lambda>(k, v). k \<notin> set reserved_claims) m) k = map_of m k"
  by (induction m) auto


section \<open>A link works once\<close>

text \<open>
  The links in any order of requests: \<open>lr_done\<close> lists the tokens whose action was carried out. Time
  does not run backwards; the reaper runs when it likes; every other request leaves the used tokens
  alone.
\<close>

record link_run =
  lr_now :: int
  lr_acc :: account_state
  lr_done :: "string list"

definition after_use :: "link_run \<Rightarrow> response \<Rightarrow> response \<times> account_state \<Rightarrow> string \<Rightarrow> link_run" where
  "after_use s success ry token =
     s\<lparr>lr_acc := snd ry, lr_done := (if fst ry = success then token # lr_done s else lr_done s)\<rparr>"

inductive link_step :: "account_env \<Rightarrow> AuthConfig \<Rightarrow> link_run \<Rightarrow> link_run \<Rightarrow> bool" for e cfg where
  later: "lr_now s \<le> t \<Longrightarrow> link_step e cfg s (s\<lparr>lr_now := t\<rparr>)"
| reap: "link_step e cfg s (s\<lparr>lr_acc := (lr_acc s)\<lparr>acc_db := reap_used_tokens (lr_now s) (acc_db (lr_acc s))\<rparr>\<rparr>)"
| other: "used_tokens (acc_db y) = used_tokens (acc_db (lr_acc s)) \<Longrightarrow> link_step e cfg s (s\<lparr>lr_acc := y\<rparr>)"
| use_confirm: "link_step e cfg s
    (after_use s (message_reply ''Account confirmed'') (confirm e cfg db_up (lr_now s) token (lr_acc s)) token)"
| use_reset: "link_step e cfg s
    (after_use s (message_reply ''Password updated'') (apply_reset e cfg up db_up (lr_now s) token req (lr_acc s)) token)"
| use_change: "link_step e cfg s
    (after_use s (message_reply ''Email updated'') (apply_change_email e cfg db_up (lr_now s) rd token (lr_acc s)) token)"

inductive link_reach :: "account_env \<Rightarrow> AuthConfig \<Rightarrow> link_run \<Rightarrow> link_run \<Rightarrow> bool" for e cfg where
  link_start: "link_reach e cfg s s"
| link_next: "link_reach e cfg s x \<Longrightarrow> link_step e cfg x y \<Longrightarrow> link_reach e cfg s y"

fun link_ttl :: "Purpose \<Rightarrow> int" where
  "link_ttl Confirm = link_days"
| "link_ttl ResetPassword = link_hour"
| "link_ttl ChangeEmail = link_hour"
| "link_ttl Invite = link_days"
| "link_ttl Preview = 0"

text \<open>What one use does to the used tokens.\<close>

definition spends :: "account_env \<Rightarrow> AuthConfig \<Rightarrow> int \<Rightarrow> Purpose \<Rightarrow> string \<Rightarrow> account_state \<Rightarrow> account_state \<Rightarrow> bool" where
  "spends e cfg now p token x y \<longleftrightarrow>
     (\<exists>v. verify_link (auth e) now (jwt_secret cfg) token p = Inr v) \<and>
     hash_hex (cenv e) token \<notin> ut_hash ` set (used_tokens (acc_db x)) \<and>
     used_tokens (acc_db y) = used_tokens (acc_db x) @ [\<lparr>ut_hash = hash_hex (cenv e) token, ut_expires_at = now + link_ttl p\<rparr>]"

lemma consume_onceD:
  "consume_once (auth e) db_up now token ttl d = (b, d') \<Longrightarrow>
   if b then hash_hex (cenv e) token \<notin> ut_hash ` set (used_tokens d) \<and>
             used_tokens d' = used_tokens d @ [\<lparr>ut_hash = hash_hex (cenv e) token, ut_expires_at = now + ttl\<rparr>]
   else d' = d"
  by (auto simp: consume_once_def Let_def split: if_splits)

lemma message_ne [simp]:
  "message_reply a = message_reply b \<longleftrightarrow> a = b" "invalid_token a \<noteq> message_reply b" "not_found a \<noteq> message_reply b" "conflict c m \<noteq> message_reply b"
  "response_400 errs \<noteq> message_reply b" "sql_failed \<noteq> message_reply b" "repo_reply err \<noteq> message_reply b"
  by (auto simp: message_reply_def ok_def invalid_token_def bad_request_def not_found_def conflict_def response_400_def make_error_def sql_failed_def
      internal_error_def repo_reply_def Let_def object_def split: tenant_error.splits)

lemma parse_body_error [simp]: "parse_body req = Inl r \<Longrightarrow> r \<noteq> message_reply b"
  by (auto simp: parse_body_def message_reply_def ok_def bad_request_def make_error_def Let_def split: option.splits)

lemma mark_confirmed_used: "mark_confirmed i d = (b, d') \<Longrightarrow> used_tokens d' = used_tokens d"
  by (auto simp: mark_confirmed_def)

lemma update_password_used: "update_password_hash i h d = Inr d' \<Longrightarrow> used_tokens d' = used_tokens d"
  by (auto simp: update_password_hash_def split: if_splits)

lemma change_email_used: "change_email lc i m d = Inr d' \<Longrightarrow> used_tokens d' = used_tokens d"
  by (auto simp: change_email_def split: if_splits)

lemma confirm_spends:
  assumes "confirm e cfg db_up now token x = (r, y)"
  shows "(used_tokens (acc_db y) = used_tokens (acc_db x) \<and> r \<noteq> message_reply ''Account confirmed'') \<or> spends e cfg now Confirm token x y"
  using assms
  by (auto simp: confirm_def spends_def dest!: consume_onceD mark_confirmed_used split: sum.splits prod.splits bool.splits if_splits)

lemma reset_spends:
  assumes "apply_reset e cfg up db_up now token req x = (r, y)"
  shows "(used_tokens (acc_db y) = used_tokens (acc_db x) \<and> r \<noteq> message_reply ''Password updated'') \<or> spends e cfg now ResetPassword token x y"
  using assms
  by (auto simp: apply_reset_def spends_def dest!: consume_onceD update_password_used split: sum.splits prod.splits bool.splits if_splits)

lemma change_spends:
  assumes "apply_change_email e cfg db_up now rd token x = (r, y)"
  shows "(used_tokens (acc_db y) = used_tokens (acc_db x) \<and> r \<noteq> message_reply ''Email updated'') \<or> spends e cfg now ChangeEmail token x y"
proof (cases "verify_link (auth e) now (jwt_secret cfg) token ChangeEmail")
  case (Inr v)
  then obtain sub extra where v: "v = (sub, extra)" by (cases v)
  show ?thesis
  proof (cases "\<exists>mail. map_of extra ''new_email'' = Some (JStr mail)")
    case True
    then obtain mail where m: "map_of extra ''new_email'' = Some (JStr mail)" by blast
    show ?thesis using assms Inr
      by (auto simp: apply_change_email_def v m spends_def dest!: consume_onceD change_email_used
          split: sum.splits prod.splits bool.splits if_splits)
  next
    case False
    then show ?thesis using assms Inr by (auto simp: apply_change_email_def v split: option.splits json.splits)
  qed
qed (use assms in \<open>auto simp: apply_change_email_def\<close>)

lemma spends_after:
  assumes "(used_tokens (acc_db (snd ry)) = used_tokens (acc_db (lr_acc s)) \<and> fst ry \<noteq> success) \<or> spends e cfg (lr_now s) p token (lr_acc s) (snd ry)"
    "y = after_use s success ry token"
  shows "(used_tokens (acc_db (lr_acc y)) = used_tokens (acc_db (lr_acc s)) \<and> lr_done y = lr_done s) \<or>
     (spends e cfg (lr_now s) p token (lr_acc s) (lr_acc y) \<and> lr_done y \<in> {lr_done s, token # lr_done s})"
  using assms by (auto simp: after_use_def)

lemma link_step_cases:
  assumes "link_step e cfg s y"
  shows "(\<exists>t. lr_now s \<le> t \<and> y = s\<lparr>lr_now := t\<rparr>) \<or>
     (lr_now y = lr_now s \<and> lr_done y = lr_done s \<and> used_tokens (acc_db (lr_acc y)) = filter (\<lambda>u. \<not> ut_expires_at u < lr_now s) (used_tokens (acc_db (lr_acc s)))) \<or>
     (lr_now y = lr_now s \<and> used_tokens (acc_db (lr_acc y)) = used_tokens (acc_db (lr_acc s)) \<and> lr_done y = lr_done s) \<or>
     (\<exists>p token. lr_now y = lr_now s \<and> spends e cfg (lr_now s) p token (lr_acc s) (lr_acc y) \<and> lr_done y \<in> {lr_done s, token # lr_done s})"
  using assms
proof cases
  case (use_confirm db_up token)
  from spends_after [OF confirm_spends [OF surjective_pairing] this] use_confirm show ?thesis by (auto simp: after_use_def)
next
  case (use_reset up db_up token req)
  from spends_after [OF reset_spends [OF surjective_pairing] this] use_reset show ?thesis by (auto simp: after_use_def)
next
  case (use_change db_up rd token)
  from spends_after [OF change_spends [OF surjective_pairing] this] use_change show ?thesis by (auto simp: after_use_def)
qed (auto simp: reap_used_tokens_def)

text \<open>A token that was used is remembered until it has expired.\<close>

definition remembered :: "account_env \<Rightarrow> int \<Rightarrow> string \<Rightarrow> link_run \<Rightarrow> bool" where
  "remembered e expiry token s \<longleftrightarrow>
     (\<exists>u \<in> set (used_tokens (acc_db (lr_acc s))). ut_hash u = hash_hex (cenv e) token \<and> expiry \<le> ut_expires_at u) \<or> expiry < lr_now s"

lemma once_step:
  assumes step: "link_step e cfg s y" and f: "faithful (cenv e)" and i: "issue_link (auth e) iat (jwt_secret cfg) sub p (link_ttl p) extra = Some token"
    and n: "no_reserved extra" and now: "iat \<le> lr_now s"
    and inv: "count_list (lr_done s) token \<le> 1" "token \<in> set (lr_done s) \<Longrightarrow> remembered e (iat + link_ttl p) token s"
  shows "iat \<le> lr_now y \<and> count_list (lr_done y) token \<le> 1 \<and> (token \<in> set (lr_done y) \<longrightarrow> remembered e (iat + link_ttl p) token y)"
  using link_step_cases [OF step]
proof (elim disjE exE conjE)
  fix t assume "lr_now s \<le> t" "y = s\<lparr>lr_now := t\<rparr>"
  then show ?thesis using now inv by (auto simp: remembered_def)
next
  assume "lr_now y = lr_now s" "lr_done y = lr_done s"
    "used_tokens (acc_db (lr_acc y)) = filter (\<lambda>u. \<not> ut_expires_at u < lr_now s) (used_tokens (acc_db (lr_acc s)))"
  then show ?thesis using now inv by (fastforce simp: remembered_def)
next
  assume "lr_now y = lr_now s" "used_tokens (acc_db (lr_acc y)) = used_tokens (acc_db (lr_acc s))" "lr_done y = lr_done s"
  then show ?thesis using now inv by (simp add: remembered_def)
next
  fix q tok assume t: "lr_now y = lr_now s" and sp: "spends e cfg (lr_now s) q tok (lr_acc s) (lr_acc y)"
    and d: "lr_done y \<in> {lr_done s, tok # lr_done s}"
  have kept: "remembered e (iat + link_ttl p) token s \<Longrightarrow> remembered e (iat + link_ttl p) token y"
    using sp t by (auto simp: remembered_def spends_def)
  show ?thesis
  proof (cases "tok = token")
    case False
    then show ?thesis using d inv kept now t by auto
  next
    case True
    have v: "\<exists>v. verify_link (auth e) (lr_now s) (jwt_secret cfg) token q = Inr v" and h: "hash_hex (cenv e) token \<notin> ut_hash ` set (used_tokens (acc_db (lr_acc s)))"
      and u: "used_tokens (acc_db (lr_acc y)) = used_tokens (acc_db (lr_acc s)) @ [\<lparr>ut_hash = hash_hex (cenv e) token, ut_expires_at = lr_now s + link_ttl q\<rparr>]"
      using sp by (auto simp: spends_def True)
    have q: "q = p"
    proof (rule ccontr)
      assume "q \<noteq> p"
      from issued_link_verifies(2) [OF f i n this, of "lr_now s"] v show False by auto
    qed
    have "\<not> iat + link_ttl p < lr_now s" using v issued_link_verifies(1) [OF f i n, of "lr_now s"] by (auto simp: q split: if_splits)
    with h have "\<not> remembered e (iat + link_ttl p) token s" by (auto simp: remembered_def image_iff)
    then have "token \<notin> set (lr_done s)" using inv(2) by blast
    moreover have "remembered e (iat + link_ttl p) token y" using u now by (auto simp: remembered_def q)
    ultimately show ?thesis using d now t True by (auto simp: count_list_0_iff)
  qed
qed

text \<open>C13: Whatever is requested in whatever order, and whenever the reaper runs, the action of a link
that was issued is carried out at most once: one text of a token confirms an account, sets a password
or changes an address one time, because its hash is kept at least until the token has expired.\<close>

theorem link_works_once:
  assumes "link_reach e cfg s x" "lr_done s = []" "faithful (cenv e)" "no_reserved extra" "iat \<le> lr_now s"
    "issue_link (auth e) iat (jwt_secret cfg) sub p (link_ttl p) extra = Some token"
  shows "count_list (lr_done x) token \<le> 1"
proof -
  have "iat \<le> lr_now x \<and> count_list (lr_done x) token \<le> 1 \<and> (token \<in> set (lr_done x) \<longrightarrow> remembered e (iat + link_ttl p) token x)"
    using assms
  proof (induction rule: link_reach.induct)
    case (link_next s x y)
    then show ?case using once_step [OF link_next(2) assms(3,6,4)] by blast
  qed simp
  then show ?thesis by blast
qed

section \<open>Concrete links\<close>

definition demo_link :: "Purpose \<Rightarrow> (string \<times> json) list \<Rightarrow> string" where
  "demo_link p extra = the (issue_link (auth demo_account_env) 1000 ''k'' ''u1'' p (link_ttl p) extra)"

lemma demo_link_issued: "issue_link (auth demo_account_env) 1000 ''k'' ''u1'' p (link_ttl p) extra = Some (demo_link p extra)"
  by (simp add: demo_link_def issue_link_def demo_account_env_def demo_codec_def)


definition demo_reset_state :: account_state where
  "demo_reset_state = \<lparr>acc_db = demo_tenants, acc_sessions = no_sessions, acc_audit = [], acc_mails = []\<rparr>"

definition demo_reset_body :: json where
  "demo_reset_body = JObj [(''new_password'', JStr ''correct horse'')]"

text \<open>The environment hashes with the identity, so texts are as distinct as their hashes.\<close>

lemma demo_reset:
  assumes "\<exists>v. verify_link (auth demo_account_env) 1500 ''k'' token ResetPassword = Inr (''u1'', v)" "token \<notin> ut_hash ` set (used_tokens (acc_db x))"
    "user_exists (acc_db x) ''u1''"
  shows "fst (apply_reset demo_account_env demo_auth False True 1500 token (Some demo_reset_body) x) = message_reply ''Password updated'' \<and>
     used_tokens (acc_db (snd (apply_reset demo_account_env demo_auth False True 1500 token (Some demo_reset_body) x))) =
       used_tokens (acc_db x) @ [\<lparr>ut_hash = token, ut_expires_at = 5100\<rparr>] \<and>
     user_exists (acc_db (snd (apply_reset demo_account_env demo_auth False True 1500 token (Some demo_reset_body) x))) ''u1''"
proof -
  have h: "hash_hex (cenv demo_account_env) = (\<lambda>t. t)" by (simp add: demo_account_env_def demo_codec_def)
  have b: "new_password_shape [] demo_reset_body = []" by (simp add: new_password_shape_def require_def present_def string_length_def demo_reset_body_def
        kPasswordMinLen_def kPasswordMaxLen_def)
  from assms show ?thesis
    by (auto simp: apply_reset_def parse_body_def b consume_once_def h update_password_hash_def link_hour_def Let_def)
qed

definition demo_link_run :: link_run where
  "demo_link_run = \<lparr>lr_now = 1500, lr_acc = demo_reset_state, lr_done = []\<rparr>"

lemma demo_link_verifies: "\<exists>v. verify_link (auth demo_account_env) 1500 ''k'' (demo_link ResetPassword []) ResetPassword = Inr (''u1'', v)"
  using issued_link_verifies(1) [OF demo_codec_faithful demo_link_issued [of ResetPassword "[]"], of 1500]
  by (simp add: no_reserved_def link_hour_def)

lemma demo_reset_done:
  "lr_done (after_use demo_link_run (message_reply ''Password updated'')
     (apply_reset demo_account_env demo_auth False True 1500 (demo_link ResetPassword []) (Some demo_reset_body) demo_reset_state) (demo_link ResetPassword [])) =
   [demo_link ResetPassword []]"
  using demo_reset [OF demo_link_verifies, of demo_reset_state]
  by (simp add: after_use_def demo_link_run_def demo_reset_state_def demo_tenants_def user_exists_def)

theorem link_works_once_witness:
  "\<exists>x. link_reach demo_account_env demo_auth demo_link_run x \<and> lr_done x = [demo_link ResetPassword []] \<and>
     count_list (lr_done x) (demo_link ResetPassword []) \<le> 1"
proof -
  let ?x = "after_use demo_link_run (message_reply ''Password updated'')
     (apply_reset demo_account_env demo_auth False True 1500 (demo_link ResetPassword []) (Some demo_reset_body) demo_reset_state) (demo_link ResetPassword [])"
  have step: "link_step demo_account_env demo_auth demo_link_run ?x"
    using link_step.use_reset [of demo_account_env demo_auth demo_link_run False True "demo_link ResetPassword []" "Some demo_reset_body"]
    by (simp add: demo_link_run_def)
  have r: "link_reach demo_account_env demo_auth demo_link_run ?x"
    by (rule link_next [OF link_start step])
  have "count_list (lr_done ?x) (demo_link ResetPassword []) \<le> 1"
    by (rule link_works_once [OF r _ demo_codec_faithful _ _ , of "[]" 1000 "''u1''" ResetPassword])
       (simp_all add: demo_link_run_def no_reserved_def demo_link_issued [of ResetPassword, simplified])
  with r demo_reset_done show ?thesis by blast
qed

text \<open>
  Another spelling of the same token is another text: the decoder skips padding, the signature is
  compared after decoding and the used tokens are remembered by the hash of the text. A captured
  reset link works again with one character more.
\<close>

lemma padded_token_verifies:
  assumes "verify_link e now master token p = Inr v"
  shows "verify_link e now master (token @ ''='') p = Inr v"
proof -
  obtain a b where s: "split_dot token = Some (a, b)" using assms by (auto simp: verify_link_def split: if_splits option.splits)
  then have s': "split_dot (token @ ''='') = Some (a, b @ ''='')"
    using split_dot_append [of a "b @ ''=''"] split_dot_SomeD [OF s] by simp
  have "url_decode (b @ ''='') = url_decode b"
    by (simp add: url_decode_significant [of "b @ ''=''"] url_decode_significant [of b] significant_def ignored_def)
  then show ?thesis using assms unfolding verify_link_def s s' by (cases "master = []") simp_all
qed

lemma reset_link_can_be_replayed:
  "let token = demo_link ResetPassword [];
       (r1, x1) = apply_reset demo_account_env demo_auth False True 1500 token (Some demo_reset_body) demo_reset_state;
       (r2, x2) = apply_reset demo_account_env demo_auth False True 1500 (token @ ''='') (Some demo_reset_body) x1
   in r1 = message_reply ''Password updated'' \<and> r2 = message_reply ''Password updated''"
proof -
  let ?t = "demo_link ResetPassword []"
  obtain r1 x1 where 1: "apply_reset demo_account_env demo_auth False True 1500 ?t (Some demo_reset_body) demo_reset_state = (r1, x1)" by fastforce
  obtain v where v: "verify_link (auth demo_account_env) 1500 ''k'' ?t ResetPassword = Inr (''u1'', v)" using demo_link_verifies by blast
  have r1: "r1 = message_reply ''Password updated''" "used_tokens (acc_db x1) = [\<lparr>ut_hash = ?t, ut_expires_at = 5100\<rparr>]" "user_exists (acc_db x1) ''u1''"
    using demo_reset [OF demo_link_verifies, of demo_reset_state] 1 by (simp_all add: demo_reset_state_def demo_tenants_def user_exists_def)
  obtain r2 x2 where 2: "apply_reset demo_account_env demo_auth False True 1500 (?t @ ''='') (Some demo_reset_body) x1 = (r2, x2)" by fastforce
  have "r2 = message_reply ''Password updated''"
    using demo_reset [of "?t @ ''=''" x1] padded_token_verifies [OF v] r1(2,3) 2 by auto
  with 1 2 r1(1) show ?thesis by (simp add: Let_def)
qed

end
