(* ===== verification/TenantsApi.thy ===== *)
theory TenantsApi
  imports Sessions
begin

text \<open>
  The endpoints of organizations, members and bank accounts:
  \<^verbatim>\<open>src/src/api/OrganizationsController.hpp\<close> and \<^verbatim>\<open>src/src/api/BankAccountsController.hpp\<close> over \<open>Tenants\<close>.

  Reads go to the replica \<open>rd\<close>. A handler that lets an exception out of the request answers \<open>Escaped\<close>;
  \<open>with_repo_errors\<close> turns the others into a reply.
\<close>

section \<open>Organizations\<close>

definition guard_admin :: "AuthConfig \<Rightarrow> AuthPrincipal option \<Rightarrow> response + unit" where
  "guard_admin cfg p = (case require_admin cfg p of None \<Rightarrow> Inr () | Some r \<Rightarrow> Inl r)"

definition require_admin_or_org_owner :: "AuthConfig \<Rightarrow> tenant_db \<Rightarrow> AuthPrincipal option \<Rightarrow> string \<Rightarrow> response + unit" where
  "require_admin_or_org_owner cfg rd p org =
     (case org_context_of rd p of
        Some ctx \<Rightarrow> if oc_org ctx = org \<and> oc_role ctx = ''owner'' then Inr () else guard_admin cfg p
      | None \<Rightarrow> guard_admin cfg p)"

definition org_uuid :: "string \<Rightarrow> response + unit" where
  "org_uuid i = (if is_uuid_segment i then Inr () else Inl (bad_request ''invalid_id'' ''Malformed organization id'' (JObj [])))"

definition org_shape :: "json \<Rightarrow> errors" where
  "org_shape b =
     (let e2 = fst (require (fst (require [] b ''bin'')) b ''name'')
      in one_of (must_be_boolean (must_be_string e2 b ''bin'') b ''vat_payer'') b ''tax_regime'' [''snr_simplified'', ''standard''])"

definition bin_format :: "string \<Rightarrow> bool" where
  "bin_format s \<longleftrightarrow> length s = 12 \<and> list_all isdigit s"

definition bind_creator :: "string \<Rightarrow> int \<Rightarrow> AuthPrincipal option \<Rightarrow> string \<Rightarrow> account_state \<Rightarrow> account_state" where
  "bind_creator new_id now p org x =
     (case p of
        None \<Rightarrow> x
      | Some who \<Rightarrow>
          (case add_member new_id now org (pr_subject who) ''owner'' (acc_db x) of
             Inl _ \<Rightarrow> x
           | Inr (m, d) \<Rightarrow>
               acc_audited (actor_of p) ''org.member.add'' ''organization'' org
                 (object [(''user_id'', JStr (mb_user m)), (''role'', JStr (mb_role m))]) (x\<lparr>acc_db := d\<rparr>)))"

definition organization_create ::
  "AuthConfig \<Rightarrow> string \<Rightarrow> string \<Rightarrow> int \<Rightarrow> AuthPrincipal option \<Rightarrow> json option \<Rightarrow> account_state \<Rightarrow> (response + Organization) escaped \<times> account_state" where
  "organization_create cfg new_org member_id now p req x =
     (case rbind (guard_admin cfg p) (\<lambda>_. parse_body req) of
        Inl r \<Rightarrow> (Done (Inl r), x)
      | Inr b \<Rightarrow>
          if org_shape b \<noteq> [] then (Done (Inl (response_400 (org_shape b))), x)
          else if \<not> bin_format (text_of b ''bin'') then
            (Done (Inl (response_422 ''bin'' ''invalid_bin'' ''BIN must be exactly 12 digits'')), x)
          else
            (case text_value b ''tax_regime'' ''snr_simplified'' of
               None \<Rightarrow> (Escaped, x)
             | Some regime \<Rightarrow>
                 (case get_text b ''name'' of
                    None \<Rightarrow> (Done (Inl sql_failed), x)
                  | Some name \<Rightarrow>
                      (case create_organization new_org now (text_of b ''bin'') name regime (bool_of b ''vat_payer'' False) (acc_db x) of
                         Inl e \<Rightarrow> (Done (Inl (repo_reply e)), x)
                       | Inr (g, d) \<Rightarrow>
                           (Done (Inr g),
                            bind_creator member_id now p (og_id g)
                              (acc_audited (actor_of p) ''org.create'' ''organization'' (og_id g) (object [(''bin'', JStr (og_bin g))])
                                (x\<lparr>acc_db := d\<rparr>)))))))"

definition organizations_list :: "AuthConfig \<Rightarrow> tenant_db \<Rightarrow> AuthPrincipal option \<Rightarrow> (string \<Rightarrow> string) \<Rightarrow> response + Organization list \<times> nat" where
  "organizations_list cfg rd p params =
     rbind (guard_admin cfg p) (\<lambda>_.
     case parse_page_params params 50 200 of (limit, offset) \<Rightarrow>
     Inr (list_organizations rd (nat limit) (nat offset), length (orgs rd)))"

definition organizations_mine :: "tenant_db \<Rightarrow> AuthPrincipal option \<Rightarrow> response + (Organization \<times> string) list" where
  "organizations_mine rd p =
     rbind (require_principal p) (\<lambda>who.
     Inr (concat (map (\<lambda>m. case find_organization (orgs rd) (mb_org m) of None \<Rightarrow> [] | Some g \<Rightarrow> [(g, mb_role m)])
            (list_for_user rd (pr_subject who)))))"

section \<open>Members\<close>

definition members_list ::
  "AuthConfig \<Rightarrow> tenant_db \<Rightarrow> AuthPrincipal option \<Rightarrow> string \<Rightarrow> response + (string \<times> string \<times> string \<times> int) list" where
  "members_list cfg rd p org =
     rbind (require_admin_or_org_owner cfg rd p org) (\<lambda>_.
     rbind (org_uuid org) (\<lambda>_.
     Inr (list_members_with_email rd org)))"

definition role_error :: response where
  "role_error = response_400 (add_error [] ''role'' ''not_allowed''
     (''must be one of: '' @ [CHR 0x27] @ ''owner'' @ [CHR 0x27] @ '' '' @ [CHR 0x27] @ ''accountant'' @ [CHR 0x27] @ '' '' @
      [CHR 0x27] @ ''hr'' @ [CHR 0x27] @ '' '' @ [CHR 0x27] @ ''viewer'' @ [CHR 0x27]))"

definition role_of_body :: "json \<Rightarrow> response + string" where
  "role_of_body b = (case get_text b ''role'' of Some r \<Rightarrow> if is_valid_role r then Inr r else Inl role_error | None \<Rightarrow> Inl role_error)"

definition add_member_shape :: "json \<Rightarrow> errors" where
  "add_member_shape b =
     (let e1 = fst (require [] b ''role'')
      in if present b ''email'' \<noteq> None then email e1 b ''email''
         else uuid (fst (require e1 b ''user_id'')) b ''user_id'')"

definition user_not_found :: response where
  "user_not_found = make_error \<lparr>err_status = 404, err_code = ''user_not_found'',
     err_message = ''No user with this email '' @ utf8 [0x2014] @ '' ask them to register first'', err_extra = JObj []\<rparr>"

definition member_target :: "(string \<Rightarrow> string) \<Rightarrow> tenant_db \<Rightarrow> json \<Rightarrow> response + string" where
  "member_target lc rd b =
     (if present b ''email'' = None then Inr (text_of b ''user_id'')
      else
        (case find_user_by_email lc rd (text_of b ''email'') of
           None \<Rightarrow> Inl user_not_found
         | Some (u, _) \<Rightarrow> Inr (us_id u)))"

definition add_member_request ::
  "AuthConfig \<Rightarrow> (string \<Rightarrow> string) \<Rightarrow> tenant_db \<Rightarrow> AuthPrincipal option \<Rightarrow> string \<Rightarrow> json option \<Rightarrow> response + string \<times> string" where
  "add_member_request cfg lc rd p org req =
     rbind (require_admin_or_org_owner cfg rd p org) (\<lambda>_.
     rbind (org_uuid org) (\<lambda>_.
     rbind (parse_body req) (\<lambda>b.
     if present b ''user_id'' \<noteq> None \<and> present b ''email'' \<noteq> None then
       Inl (response_400 (add_error [] ''email'' ''mutually_exclusive'' ''provide either user_id or email, not both''))
     else if add_member_shape b \<noteq> [] then Inl (response_400 (add_member_shape b))
     else
       rbind (role_of_body b) (\<lambda>role.
       rbind (member_target lc rd b) (\<lambda>user. Inr (user, role))))))"

definition member_add ::
  "AuthConfig \<Rightarrow> (string \<Rightarrow> string) \<Rightarrow> tenant_db \<Rightarrow> string \<Rightarrow> int \<Rightarrow> AuthPrincipal option \<Rightarrow> string \<Rightarrow> json option \<Rightarrow> account_state \<Rightarrow>
   (response + OrgMember) \<times> account_state" where
  "member_add cfg lc rd new_id now p org req x =
     (case add_member_request cfg lc rd p org req of
        Inl r \<Rightarrow> (Inl r, x)
      | Inr (user, role) \<Rightarrow>
          (case add_member new_id now org user role (acc_db x) of
             Inl e \<Rightarrow> (Inl (repo_reply e), x)
           | Inr (m, d) \<Rightarrow>
               (Inr m, acc_audited (actor_of p) ''org.member.add'' ''organization'' org
                  (object [(''user_id'', JStr (mb_user m)), (''role'', JStr (mb_role m))]) (x\<lparr>acc_db := d\<rparr>))))"

definition count_owners :: "tenant_db \<Rightarrow> string \<Rightarrow> nat" where
  "count_owners rd org = length (filter (\<lambda>m. mb_role m = ''owner'') (list_members rd org))"

definition member_uuids :: "string \<Rightarrow> string \<Rightarrow> response + unit" where
  "member_uuids org user =
     (if is_uuid_segment org \<and> is_uuid_segment user then Inr () else Inl (bad_request ''invalid_id'' [] (JObj [])))"

definition role_change_request ::
  "AuthConfig \<Rightarrow> tenant_db \<Rightarrow> AuthPrincipal option \<Rightarrow> string \<Rightarrow> string \<Rightarrow> json option \<Rightarrow> response + string" where
  "role_change_request cfg rd p org user req =
     rbind (require_admin_or_org_owner cfg rd p org) (\<lambda>_.
     rbind (member_uuids org user) (\<lambda>_.
     rbind (parse_body req) (\<lambda>b.
     if present b ''role'' = None then Inl (response_400 (fst (require [] b ''role''))) else role_of_body b)))"

text \<open>
  \<open>rd\<close> answers the guards and the count, \<open>rd'\<close> the read after the write; the membership that read
  does not find is dereferenced all the same.
\<close>

definition member_role_update ::
  "AuthConfig \<Rightarrow> tenant_db \<Rightarrow> tenant_db \<Rightarrow> AuthPrincipal option \<Rightarrow> string \<Rightarrow> string \<Rightarrow> json option \<Rightarrow> account_state \<Rightarrow>
   (response + OrgMember) escaped \<times> account_state" where
  "member_role_update cfg rd rd' p org user req x =
     (case role_change_request cfg rd p org user req of
        Inl r \<Rightarrow> (Done (Inl r), x)
      | Inr role \<Rightarrow>
          (case find_membership rd org user of
             None \<Rightarrow> (Done (Inl (not_found ''member'')), x)
           | Some target \<Rightarrow>
               if mb_role target = ''owner'' \<and> role \<noteq> ''owner'' \<and> count_owners rd org \<le> 1 then
                 (Done (Inl (conflict ''last_owner'' ''Cannot demote the last owner of an organization'')), x)
               else
                 (case set_role org user role (acc_db x) of
                    Inl e \<Rightarrow> (Done (Inl (repo_reply e)), x)
                  | Inr (_, d) \<Rightarrow>
                      (case find_membership rd' org user of None \<Rightarrow> Escaped | Some m \<Rightarrow> Done (Inr m),
                       acc_audited (actor_of p) ''org.member.role_change'' ''organization'' org
                         (object [(''user_id'', JStr user), (''role'', JStr role)]) (x\<lparr>acc_db := d\<rparr>)))))"

definition member_remove ::
  "AuthConfig \<Rightarrow> tenant_db \<Rightarrow> AuthPrincipal option \<Rightarrow> string \<Rightarrow> string \<Rightarrow> account_state \<Rightarrow> response \<times> account_state" where
  "member_remove cfg rd p org user x =
     (case rbind (require_admin_or_org_owner cfg rd p org) (\<lambda>_. member_uuids org user) of
        Inl r \<Rightarrow> (r, x)
      | Inr _ \<Rightarrow>
          (case find_membership rd org user of
             None \<Rightarrow> (not_found ''member'', x)
           | Some target \<Rightarrow>
               if mb_role target = ''owner'' \<and> count_owners rd org \<le> 1 then
                 (conflict ''last_owner'' ''Cannot remove the last owner of an organization'', x)
               else
                 (ok (object [(''message'', JStr ''Member removed'')]),
                  acc_audited (actor_of p) ''org.member.remove'' ''organization'' org (object [(''user_id'', JStr user)])
                    (x\<lparr>acc_db := snd (remove_member org user (acc_db x))\<rparr>))))"

definition requisites_shape :: "json \<Rightarrow> errors" where
  "requisites_shape b =
     must_be_string
       (foldl (\<lambda>e f. must_be_string (fst (require e b f)) b f) [] [''legal_address'', ''director_name'', ''director_position''])
       b ''vat_certificate''"

definition requisites_update ::
  "AuthConfig \<Rightarrow> tenant_db \<Rightarrow> tenant_db \<Rightarrow> AuthPrincipal option \<Rightarrow> string \<Rightarrow> json option \<Rightarrow> account_state \<Rightarrow>
   (response + Organization) \<times> account_state" where
  "requisites_update cfg rd rd' p org req x =
     (case rbind (require_admin_or_org_owner cfg rd p org) (\<lambda>_. rbind (org_uuid org) (\<lambda>_. parse_body req)) of
        Inl r \<Rightarrow> (Inl r, x)
      | Inr b \<Rightarrow>
          if requisites_shape b \<noteq> [] then (Inl (response_400 (requisites_shape b)), x)
          else
            (case update_requisites org (text_of b ''legal_address'') (text_of b ''director_name'') (text_of b ''director_position'')
                    (text_of b ''vat_certificate'') (acc_db x) of
               (False, d) \<Rightarrow> (Inl (not_found ''organization''), x\<lparr>acc_db := d\<rparr>)
             | (True, d) \<Rightarrow>
                 (case find_organization (orgs rd') org of None \<Rightarrow> Inl (not_found ''organization'') | Some g \<Rightarrow> Inr g, x\<lparr>acc_db := d\<rparr>)))"

section \<open>Bank accounts\<close>

definition bank_types :: "errors \<Rightarrow> json \<Rightarrow> errors" where
  "bank_types errs b =
     must_be_boolean (foldl (\<lambda>e f. must_be_string e b f) errs [''iik'', ''bank_name'', ''bik'', ''kbe'', ''currency'']) b ''is_primary''"

definition bank_shape :: "json \<Rightarrow> errors" where
  "bank_shape b = bank_types (fst (require (fst (require [] b ''iik'')) b ''bank_name'')) b"

definition text_or :: "json \<Rightarrow> string \<Rightarrow> string \<Rightarrow> string" where
  "text_or b k dflt = (case member b k of Some (JStr s) \<Rightarrow> s | _ \<Rightarrow> dflt)"

definition fill_bank :: "json \<Rightarrow> response + BankAccount" where
  "fill_bank b =
     (if bank_shape b \<noteq> [] then Inl (response_400 (bank_shape b))
      else Inr \<lparr>bk_id = [], bk_org = [], bk_iik = text_of b ''iik'', bk_name = text_of b ''bank_name'', bk_bik = text_of b ''bik'',
                bk_kbe = text_of b ''kbe'', bk_currency = text_or b ''currency'' ''KZT'', bk_primary = bool_of b ''is_primary'' False,
                bk_created_at = 0\<rparr>)"

definition patch_bank :: "json \<Rightarrow> BankAccount \<Rightarrow> response + BankAccount" where
  "patch_bank b a =
     (if bank_types [] b \<noteq> [] then Inl (response_400 (bank_types [] b))
      else Inr (a\<lparr>bk_iik := text_or b ''iik'' (bk_iik a), bk_name := text_or b ''bank_name'' (bk_name a), bk_bik := text_or b ''bik'' (bk_bik a),
                  bk_kbe := text_or b ''kbe'' (bk_kbe a), bk_currency := text_or b ''currency'' (bk_currency a),
                  bk_primary := bool_of b ''is_primary'' (bk_primary a)\<rparr>))"

definition bank_uuid :: "string \<Rightarrow> response + unit" where
  "bank_uuid i = (if is_uuid_segment i then Inr () else Inl (bad_request ''invalid_id'' ''Malformed bank account id'' (JObj [])))"

definition banks_list :: "tenant_db \<Rightarrow> AuthPrincipal option \<Rightarrow> (string \<Rightarrow> string) \<Rightarrow> response + BankAccount list \<times> nat" where
  "banks_list rd p params =
     rbind (require_org rd p) (\<lambda>ctx.
     rbind (require_org_perm ctx kRequisites kRead) (\<lambda>_.
     case parse_page_params params 50 200 of (limit, offset) \<Rightarrow>
     Inr (list_in_org bk_org bank_order (\<lambda>b. b) (bank_accounts rd) (oc_org ctx) (nat limit) (nat offset),
          count_in_org bk_org (bank_accounts rd) (oc_org ctx))))"

definition bank_writer :: "tenant_db \<Rightarrow> AuthPrincipal option \<Rightarrow> response + OrgContext" where
  "bank_writer rd p = rbind (require_org rd p) (\<lambda>ctx. rbind (require_org_perm ctx kRequisites kWrite) (\<lambda>_. Inr ctx))"

definition bank_create ::
  "tenant_db \<Rightarrow> string \<Rightarrow> int \<Rightarrow> AuthPrincipal option \<Rightarrow> json option \<Rightarrow> tenant_db \<Rightarrow> (response + BankAccount) \<times> tenant_db" where
  "bank_create rd new_id now p req d =
     (case rbind (bank_writer rd p) (\<lambda>ctx. rbind (parse_body req) (\<lambda>b. rbind (fill_bank b) (\<lambda>a. Inr (ctx, a)))) of
        Inl r \<Rightarrow> (Inl r, d)
      | Inr (ctx, draft) \<Rightarrow>
          (case create_bank new_id now (oc_org ctx) draft d of
             Inl e \<Rightarrow> (Inl (repo_reply e), d)
           | Inr (a, d') \<Rightarrow> (Inr a, d')))"

definition bank_patch ::
  "tenant_db \<Rightarrow> AuthPrincipal option \<Rightarrow> string \<Rightarrow> json option \<Rightarrow> tenant_db \<Rightarrow> (response + BankAccount) \<times> tenant_db" where
  "bank_patch rd p i req d =
     (case rbind (bank_writer rd p) (\<lambda>ctx. rbind (bank_uuid i) (\<lambda>_. rbind (parse_body req) (\<lambda>b.
             case find_bank rd i (oc_org ctx) of
               None \<Rightarrow> Inl (not_found ''bank_account'')
             | Some current \<Rightarrow> rbind (patch_bank b current) (\<lambda>a. Inr (ctx, a))))) of
        Inl r \<Rightarrow> (Inl r, d)
      | Inr (ctx, patch) \<Rightarrow>
          (case update_bank (oc_org ctx) i patch d of
             Inl e \<Rightarrow> (Inl (repo_reply e), d)
           | Inr (None, d') \<Rightarrow> (Inl (not_found ''bank_account''), d')
           | Inr (Some a, d') \<Rightarrow> (Inr a, d')))"

definition bank_delete :: "tenant_db \<Rightarrow> AuthPrincipal option \<Rightarrow> string \<Rightarrow> tenant_db \<Rightarrow> response \<times> tenant_db" where
  "bank_delete rd p i d =
     (case rbind (bank_writer rd p) (\<lambda>ctx. rbind (bank_uuid i) (\<lambda>_. Inr ctx)) of
        Inl r \<Rightarrow> (r, d)
      | Inr ctx \<Rightarrow>
          (case remove_bank (oc_org ctx) i d of
             (False, d') \<Rightarrow> (not_found ''bank_account'', d')
           | (True, d') \<Rightarrow> (ok (object [(''deleted'', JBool True)]), d')))"

section \<open>The last owner\<close>

definition owner_in :: "string \<Rightarrow> OrgMember \<Rightarrow> bool" where
  "owner_in org m \<longleftrightarrow> mb_org m = org \<and> mb_role m = ''owner''"

definition members_ok :: "tenant_db \<Rightarrow> bool" where
  "members_ok d \<longleftrightarrow> distinct (map (\<lambda>m. (mb_org m, mb_user m)) (org_members d))"

lemma count_owners_eq: "count_owners d org = length (filter (owner_in org) (org_members d))"
proof -
  have "filter (\<lambda>m. mb_role m = ''owner'') (list_members d org) = sort_key mb_created_at (filter (owner_in org) (org_members d))"
    by (simp add: list_members_def filter_sort owner_in_def [abs_def] conj_commute)
  then show ?thesis by (simp add: count_owners_def)
qed

text \<open>Of two owners one is not the given user.\<close>

lemma another_owner:
  assumes "members_ok d" "\<not> count_owners d org \<le> 1"
  obtains m where "m \<in> set (org_members d)" "owner_in org m" "mb_user m \<noteq> user"
proof -
  let ?os = "filter (owner_in org) (org_members d)"
  obtain a b r where os: "?os = a # b # r" using assms(2) unfolding count_owners_eq by (cases ?os; cases "tl ?os") auto
  then have ab: "a \<in> set (org_members d)" "b \<in> set (org_members d)" "owner_in org a" "owner_in org b"
  proof -
    have "a \<in> set ?os" "b \<in> set ?os" by (simp_all add: os)
    then show "a \<in> set (org_members d)" "b \<in> set (org_members d)" "owner_in org a" "owner_in org b" by auto
  qed
  have "distinct (map (\<lambda>m. (mb_org m, mb_user m)) ?os)" using assms(1) by (simp add: members_ok_def distinct_map_filter)
  then have "mb_user a \<noteq> mb_user b" using ab by (auto simp: os owner_in_def)
  with ab that show ?thesis by metis
qed

definition keeps_owners :: "tenant_db \<Rightarrow> tenant_db \<Rightarrow> bool" where
  "keeps_owners d d' \<longleftrightarrow> members_ok d' \<and> (\<forall>org. (\<exists>m \<in> set (org_members d). owner_in org m) \<longrightarrow> (\<exists>m \<in> set (org_members d'). owner_in org m))"

lemma keeps_same: "members_ok d \<Longrightarrow> org_members d' = org_members d \<Longrightarrow> keeps_owners d d'"
  by (simp add: keeps_owners_def members_ok_def)

lemma add_member_keeps: "members_ok d \<Longrightarrow> add_member i now org user role d = Inr (m, d') \<Longrightarrow> keeps_owners d d'"
  by (fastforce simp: add_member_def keeps_owners_def members_ok_def membership_of_def list_ex_iff Let_def split: if_splits)

lemma set_role_keeps:
  assumes ok: "members_ok d" and set: "set_role org user role d = Inr (b, d')"
    and g: "\<And>t. find_membership d org user = Some t \<Longrightarrow> mb_role t = ''owner'' \<Longrightarrow> role \<noteq> ''owner'' \<Longrightarrow> \<not> count_owners d org \<le> 1"
  shows "keeps_owners d d'"
proof (cases "list_ex (membership_of org user) (org_members d)")
  case False
  with set ok show ?thesis by (auto simp: set_role_def intro: keeps_same)
next
  case True
  let ?f = "\<lambda>m. if membership_of org user m then m\<lparr>mb_role := role\<rparr> else m"
  have d': "org_members d' = map ?f (org_members d)" using set True by (auto simp: set_role_def split: if_splits)
  have mo: "members_ok d'"
    using ok unfolding members_ok_def d' by (simp add: comp_def if_distrib cong: if_cong)
  have "\<exists>m \<in> set (org_members d'). owner_in o' m" if ow: "\<exists>m \<in> set (org_members d). owner_in o' m" for o'
  proof -
    obtain m where m: "m \<in> set (org_members d)" "owner_in o' m" using ow by blast
    show ?thesis
    proof (cases "membership_of org user m \<and> role \<noteq> ''owner''")
      case False
      then have "owner_in o' (?f m)" using m(2) by (auto simp: owner_in_def)
      then show ?thesis unfolding d' set_map by (rule bexI) (rule imageI [OF m(1)])
    next
      case True
      have "find_membership d org user = Some m"
      proof -
        obtain t where t: "find_membership d org user = Some t"
          using True m(1) by (cases "find_membership d org user") (auto simp: find_membership_def find_None_iff)
        then have "t \<in> set (org_members d)" "membership_of org user t" by (auto simp: find_membership_def find_Some_iff)
        with True m(1) ok have "t = m" by (auto simp: members_ok_def membership_of_def distinct_map inj_on_def)
        with t show ?thesis by simp
      qed
      with g True m(2) have "\<not> count_owners d org \<le> 1" by (auto simp: owner_in_def)
      then obtain n where n: "n \<in> set (org_members d)" "owner_in org n" "mb_user n \<noteq> user" using another_owner [OF ok] by blast
      have "o' = org" using True m(2) by (simp add: owner_in_def membership_of_def)
      moreover have "?f n = n" using n(3) by (simp add: membership_of_def)
      ultimately show ?thesis unfolding d' set_map
        using imageI [OF n(1), of ?f] n(2) by (intro bexI [of _ n]) simp_all
    qed
  qed
  with mo show ?thesis by (simp add: keeps_owners_def)
qed

lemma remove_member_keeps:
  assumes ok: "members_ok d"
    and g: "\<And>t. find_membership d org user = Some t \<Longrightarrow> mb_role t = ''owner'' \<Longrightarrow> \<not> count_owners d org \<le> 1"
  shows "keeps_owners d (snd (remove_member org user d))"
proof -
  have d': "org_members (snd (remove_member org user d)) = filter (\<lambda>m. \<not> membership_of org user m) (org_members d)"
    by (simp add: remove_member_def)
  have "\<exists>m \<in> set (org_members (snd (remove_member org user d))). owner_in o' m" if ow: "\<exists>m \<in> set (org_members d). owner_in o' m" for o'
  proof -
    obtain m where m: "m \<in> set (org_members d)" "owner_in o' m" using ow by blast
    show ?thesis
    proof (cases "membership_of org user m")
      case True
      obtain t where t: "find_membership d org user = Some t"
        using True m(1) by (cases "find_membership d org user") (auto simp: find_membership_def find_None_iff)
      then have "t \<in> set (org_members d)" "membership_of org user t" by (auto simp: find_membership_def find_Some_iff)
      with True m(1) ok have "t = m" by (auto simp: members_ok_def membership_of_def distinct_map inj_on_def)
      with g [OF t] m(2) obtain n where "n \<in> set (org_members d)" "owner_in org n" "mb_user n \<noteq> user"
        using another_owner [OF ok, of org user] by (auto simp: owner_in_def)
      moreover have "o' = org" using True m(2) by (simp add: owner_in_def membership_of_def)
      ultimately show ?thesis unfolding d' by (auto simp: membership_of_def)
    qed (use m d' in auto)
  qed
  with ok show ?thesis unfolding keeps_owners_def members_ok_def d' by (simp add: distinct_map_filter)
qed

lemma acc_audited_db [simp]: "acc_db (acc_audited a b c i j x) = acc_db x"
  by (simp add: acc_audited_def)

text \<open>Requests on organizations and members whose reads see what is stored.\<close>

inductive tenant_step :: "AuthConfig \<Rightarrow> (string \<Rightarrow> string) \<Rightarrow> account_state \<Rightarrow> account_state \<Rightarrow> bool" for cfg lc where
  t_create: "tenant_step cfg lc x (snd (organization_create cfg i j now p req x))"
| t_add: "tenant_step cfg lc x (snd (member_add cfg lc (acc_db x) i now p org req x))"
| t_role: "tenant_step cfg lc x (snd (member_role_update cfg (acc_db x) rd p org user req x))"
| t_remove: "tenant_step cfg lc x (snd (member_remove cfg (acc_db x) p org user x))"
| t_requisites: "tenant_step cfg lc x (snd (requisites_update cfg (acc_db x) rd p org req x))"
| t_switch: "tenant_step cfg lc x (snd (switch_org e cfg now rd p org x))"

inductive tenant_reach :: "AuthConfig \<Rightarrow> (string \<Rightarrow> string) \<Rightarrow> account_state \<Rightarrow> account_state \<Rightarrow> bool" for cfg lc where
  tenant_start: "tenant_reach cfg lc x x"
| tenant_next: "tenant_reach cfg lc x y \<Longrightarrow> tenant_step cfg lc y z \<Longrightarrow> tenant_reach cfg lc x z"

lemma organization_create_keeps:
  assumes "members_ok (acc_db x)"
  shows "keeps_owners (acc_db x) (acc_db (snd (organization_create cfg i j now p req x)))"
proof -
  have "keeps_owners (acc_db x) (acc_db (bind_creator j now p g y))" if "org_members (acc_db y) = org_members (acc_db x)" for g y
  proof (cases "\<exists>who m d. p = Some who \<and> add_member j now g (pr_subject who) ''owner'' (acc_db y) = Inr (m, d)")
    case True
    then obtain who m d where p: "p = Some who" and a: "add_member j now g (pr_subject who) ''owner'' (acc_db y) = Inr (m, d)" by blast
    have "keeps_owners (acc_db y) d" by (rule add_member_keeps [OF _ a]) (use assms that in \<open>simp add: members_ok_def\<close>)
    then show ?thesis using that by (simp add: bind_creator_def p a keeps_owners_def)
  next
    case False
    then have "acc_db (bind_creator j now p g y) = acc_db y"
      by (auto simp: bind_creator_def split: option.splits sum.splits)
    with assms that show ?thesis by (simp add: keeps_same)
  qed
  moreover have "org_members d = org_members (acc_db x)"
    if "create_organization i now bin name regime vat (acc_db x) = Inr (g, d)" for bin name regime vat g d
    using that by (auto simp: create_organization_def rbind_def Let_def split: sum.splits if_splits)
  ultimately show ?thesis
    using keeps_same [OF assms refl]
    by (auto simp: organization_create_def split: sum.splits option.splits if_splits prod.splits)
qed

lemma tenant_step_keeps:
  assumes "tenant_step cfg lc x y" "members_ok (acc_db x)"
  shows "keeps_owners (acc_db x) (acc_db y)"
  using assms(1)
proof cases
  case (t_create i j now p req)
  with organization_create_keeps [OF assms(2)] show ?thesis by simp
next
  case (t_add i now p org req)
  then show ?thesis
    using keeps_same [OF assms(2) refl] add_member_keeps [OF assms(2)] by (auto simp: member_add_def split: sum.splits prod.splits)
next
  case (t_role rd p org user req)
  then show ?thesis
    using keeps_same [OF assms(2) refl] by (auto simp: member_role_update_def split: sum.splits prod.splits option.splits if_splits intro!: set_role_keeps [OF assms(2)])
next
  case (t_remove p org user)
  then show ?thesis
    using keeps_same [OF assms(2) refl] remove_member_keeps [OF assms(2), of org user]
    by (auto simp: member_remove_def split: sum.splits option.splits if_splits)
next
  case (t_requisites rd p org req)
  have "org_members d = org_members (acc_db x)" if "update_requisites org a1 a2 a3 a4 (acc_db x) = (b, d)" for a1 a2 a3 a4 b d
    using that by (auto simp: update_requisites_def update_org_def)
  with t_requisites show ?thesis
    using keeps_same [OF assms(2)] by (auto simp: requisites_update_def split: sum.splits prod.splits if_splits bool.splits)
next
  case (t_switch e now rd p org)
  have "acc_db y = acc_db x" using t_switch by (auto simp: switch_org_def split: sum.splits option.splits if_splits)
  then show ?thesis using keeps_same [OF assms(2)] by simp
qed

text \<open>C14: An organization that has an owner keeps one through any sequence of requests that create
organizations, add members, change their roles, remove them or switch between organizations, as long
as the reads of each request see what is stored: the last owner is neither demoted nor removed.\<close>

theorem organization_keeps_an_owner:
  assumes "tenant_reach cfg lc x y" "members_ok (acc_db x)" "\<exists>m \<in> set (org_members (acc_db x)). mb_org m = org \<and> mb_role m = ''owner''"
  shows "\<exists>m \<in> set (org_members (acc_db y)). mb_org m = org \<and> mb_role m = ''owner''"
proof -
  have "members_ok (acc_db y) \<and> (\<exists>m \<in> set (org_members (acc_db y)). owner_in org m)"
    using assms
  proof (induction rule: tenant_reach.induct)
    case (tenant_next x y z)
    then show ?case using tenant_step_keeps [OF tenant_next(2)] by (auto simp: keeps_owners_def)
  qed (simp add: owner_in_def)
  then show ?thesis by (simp add: owner_in_def)
qed

definition demo_member_id :: "char \<Rightarrow> string" where
  "demo_member_id c = ''01234567-89ab-cdef-0123-4567'' @ replicate 8 c"

definition demo_owner :: "char \<Rightarrow> OrgMember" where
  "demo_owner c = \<lparr>mb_id = [c], mb_org = demo_org_id, mb_user = demo_member_id c, mb_role = ''owner'', mb_created_at = 0\<rparr>"

definition demo_two_owners :: account_state where
  "demo_two_owners = demo_state\<lparr>acc_db := demo_tenants\<lparr>org_members := [demo_owner CHR ''a'', demo_owner CHR ''b'']\<rparr>\<rparr>"

definition demo_owner_principal :: AuthPrincipal where
  "demo_owner_principal = \<lparr>pr_subject = demo_member_id CHR ''a'', pr_roles = [], pr_scopes = [], pr_org = demo_org_id, pr_claims = JObj []\<rparr>"

abbreviation demo_remove :: "tenant_db \<Rightarrow> char \<Rightarrow> account_state \<Rightarrow> response \<times> account_state" where
  "demo_remove rd c x \<equiv> member_remove demo_auth rd (Some demo_owner_principal) demo_org_id (demo_member_id c) x"

lemma demo_first_removed:
  "org_members (acc_db (snd (demo_remove (acc_db demo_two_owners) CHR ''b'' demo_two_owners))) = [demo_owner CHR ''a'']"
  by code_simp

theorem organization_keeps_an_owner_witness:
  "let x = snd (demo_remove (acc_db demo_two_owners) CHR ''b'' demo_two_owners); y = snd (demo_remove (acc_db x) CHR ''a'' x)
   in \<exists>m \<in> set (org_members (acc_db y)). mb_org m = demo_org_id \<and> mb_role m = ''owner''"
proof -
  define x where "x = snd (demo_remove (acc_db demo_two_owners) CHR ''b'' demo_two_owners)"
  have "tenant_reach demo_auth (\<lambda>t. t) demo_two_owners (snd (demo_remove (acc_db x) CHR ''a'' x))"
    unfolding x_def by (rule tenant_next [OF tenant_next [OF tenant_start t_remove] t_remove])
  from organization_keeps_an_owner [OF this, of demo_org_id]
  show ?thesis
    by (simp add: x_def demo_two_owners_def demo_state_def members_ok_def demo_owner_def demo_member_id_def)
qed

text \<open>Two removals that both count on the same state leave an organization without an owner.\<close>

lemma stale_reads_lose_the_owner:
  "let rd = acc_db demo_two_owners; x = snd (demo_remove rd CHR ''b'' demo_two_owners); y = snd (demo_remove rd CHR ''a'' x)
   in org_members (acc_db y) = []"
  by code_simp

text \<open>Deleting the only owner as a user is not guarded at all.\<close>

lemma deleted_user_leaves_no_owner:
  "let d = demo_tenants in map_sum id org_members (remove_user ''u1'' d) = Inr [] \<and> org_members d \<noteq> []"
  by code_simp

section \<open>The primary account\<close>

definition banks_ok :: "tenant_db \<Rightarrow> bool" where
  "banks_ok d \<longleftrightarrow> distinct (map bk_id (bank_accounts d)) \<and> (\<forall>x \<in> set (bank_accounts d). \<forall>y \<in> set (bank_accounts d). \<not> bank_clash x y)"

lemma clash_sym: "bank_clash x y \<longleftrightarrow> bank_clash y x"
  by (auto simp: bank_clash_def)

lemma clear_primary_ok: "banks_ok d \<Longrightarrow> banks_ok (clear_primary org k d)"
proof -
  let ?f = "\<lambda>b. if bk_org b = org \<and> bk_primary b \<and> (k = [] \<or> bk_id b \<noteq> k) then b\<lparr>bk_primary := False\<rparr> else b"
  assume ok: "banks_ok d"
  have "map bk_id (map ?f (bank_accounts d)) = map bk_id (bank_accounts d)" by simp
  moreover have "\<not> bank_clash (?f x) (?f y)" if xy: "x \<in> set (bank_accounts d)" "y \<in> set (bank_accounts d)" for x y
  proof -
    have "\<not> bank_clash x y" using ok xy by (simp add: banks_ok_def)
    then show ?thesis by (auto simp: bank_clash_def)
  qed
  moreover have "bank_accounts (clear_primary org k d) = map ?f (bank_accounts d)" by (simp add: clear_primary_def)
  ultimately show ?thesis using ok unfolding banks_ok_def by (simp only: set_map ball_simps) blast
qed

lemma create_bank_ok:
  assumes "banks_ok d" "create_bank i now org draft d = Inr (b, d')"
  shows "banks_ok d'"
proof -
  let ?d1 = "if bk_primary draft then clear_primary org [] d else d"
  have ok: "banks_ok ?d1" using assms(1) clear_primary_ok by simp
  obtain cur where cur: "currency_column (if bk_currency draft = [] then ''KZT'' else bk_currency draft) = Inr cur"
    using assms(2) by (cases "currency_column (if bk_currency draft = [] then ''KZT'' else bk_currency draft)") (simp_all add: create_bank_def Let_def)
  have d': "d' = ?d1\<lparr>bank_accounts := bank_accounts ?d1 @ [b]\<rparr>" and i: "bk_id b \<notin> bk_id ` set (bank_accounts ?d1)"
    and c: "\<not> list_ex (bank_clash b) (bank_accounts ?d1)"
    using assms(2) unfolding create_bank_def Let_def cur rbind_simps on_sql_Inr by (simp_all split: if_split_asm) (auto)
  have "\<not> bank_clash b b" by (simp add: bank_clash_def)
  moreover have "\<not> bank_clash b x" "\<not> bank_clash x b" if "x \<in> set (bank_accounts ?d1)" for x
    using c that clash_sym [of x b] by (auto simp: list_ex_iff)
  ultimately show ?thesis using ok i unfolding d' banks_ok_def by auto
qed

lemma update_bank_ok:
  assumes "banks_ok d" "update_bank org i patch d = Inr (r, d')"
  shows "banks_ok d'"
proof -
  let ?d1 = "if bk_primary patch then clear_primary org i d else d"
  have ok: "banks_ok ?d1" using assms(1) clear_primary_ok by simp
  show ?thesis
  proof (cases r)
    case None
    then have "d' = ?d1" using assms(2) by (auto simp: update_bank_def rbind_def Let_def split: option.splits sum.splits if_splits)
    with ok show ?thesis by simp
  next
    case (Some b)
    let ?g = "\<lambda>x. if bk_id x = i \<and> bk_org x = org then b else x"
    have d': "bank_accounts d' = map ?g (bank_accounts ?d1)" and b: "bk_id b = i" "bk_org b = org"
      and c: "\<not> list_ex (bank_clash b) (bank_accounts ?d1)"
      using assms(2) Some by (auto simp: update_bank_def rbind_def Let_def split: option.splits sum.splits if_splits)
    have "map bk_id (bank_accounts d') = map bk_id (bank_accounts ?d1)" unfolding d' using b by simp
    moreover have "\<not> bank_clash (?g x) (?g y)" if xy: "x \<in> set (bank_accounts ?d1)" "y \<in> set (bank_accounts ?d1)" for x y
    proof -
      have "\<not> bank_clash b b" by (simp add: bank_clash_def)
      moreover have "\<not> bank_clash b x" "\<not> bank_clash b y" using c xy by (auto simp: list_ex_iff)
      moreover have "\<not> bank_clash x y" using ok xy by (simp add: banks_ok_def)
      ultimately show ?thesis using clash_sym by auto
    qed
    ultimately show ?thesis using ok unfolding banks_ok_def d' by (simp only: set_map) blast
  qed
qed

inductive bank_step :: "tenant_db \<Rightarrow> tenant_db \<Rightarrow> bool" where
  b_create: "bank_step d (snd (bank_create rd i now p req d))"
| b_patch: "bank_step d (snd (bank_patch rd p i req d))"
| b_delete: "bank_step d (snd (bank_delete rd p i d))"
| b_other: "bank_accounts d' = bank_accounts d \<Longrightarrow> bank_step d d'"

inductive bank_reach :: "tenant_db \<Rightarrow> bool" where
  bank_start: "bank_accounts d = [] \<Longrightarrow> bank_reach d"
| bank_next: "bank_reach d \<Longrightarrow> bank_step d d' \<Longrightarrow> bank_reach d'"

lemma bank_step_ok: "bank_step d d' \<Longrightarrow> banks_ok d \<Longrightarrow> banks_ok d'"
proof (induction rule: bank_step.induct)
  case (b_create d rd i now p req)
  then show ?case using create_bank_ok by (auto simp: bank_create_def split: sum.splits prod.splits)
next
  case (b_patch d rd p i req)
  then show ?case using update_bank_ok by (auto simp: bank_patch_def split: sum.splits prod.splits option.splits)
next
  case (b_delete d rd p i)
  have "banks_ok (snd (remove_bank g i d))" for g
    using b_delete by (auto simp: remove_bank_def banks_ok_def distinct_map_filter)
  then show ?case using b_delete
    by (auto simp: bank_delete_def split: sum.splits prod.splits bool.splits) (metis snd_conv)+
qed (simp add: banks_ok_def)

lemma bank_reach_ok: "bank_reach d \<Longrightarrow> banks_ok d"
proof (induction rule: bank_reach.induct)
  case (bank_next d d')
  then show ?case by (blast intro: bank_step_ok)
qed (simp add: banks_ok_def)

text \<open>C17: Whatever requests on bank accounts run in whatever order, and however stale the rows they
start from are, an organization has at most one primary account and no account number twice; the
requisites a document prints are those of the primary account.\<close>

theorem seller_prints_the_primary_account:
  assumes "bank_reach d" "a \<in> set (bank_accounts d)" "b \<in> set (bank_accounts d)" "bk_org a = bk_org b"
  shows "(bk_primary a \<and> bk_primary b \<longrightarrow> a = b) \<and> (bk_iik a = bk_iik b \<longrightarrow> a = b) \<and>
     (bk_primary a \<longrightarrow> seller_iik (load_seller_of d (bk_org a)) = bk_iik a \<and> seller_bank (load_seller_of d (bk_org a)) = bk_name a \<and>
        seller_bik (load_seller_of d (bk_org a)) = bk_bik a \<and> seller_kbe (load_seller_of d (bk_org a)) = bk_kbe a)"
proof -
  have ok: "banks_ok d" by (rule bank_reach_ok [OF assms(1)])
  have same: "x = y" if "x \<in> set (bank_accounts d)" "y \<in> set (bank_accounts d)" "bk_org x = bk_org y" "bk_iik x = bk_iik y \<or> bk_primary x \<and> bk_primary y" for x y
    using ok that by (auto simp: banks_ok_def bank_clash_def distinct_map inj_on_def)
  have "find_primary d (bk_org a) = Some a" if prim: "bk_primary a"
  proof -
    obtain c where c: "find_primary d (bk_org a) = Some c"
      using assms(2) prim by (cases "find_primary d (bk_org a)") (auto simp: find_primary_def find_None_iff)
    then have "c \<in> set (bank_accounts d)" "bk_org c = bk_org a" "bk_primary c" by (auto simp: find_primary_def find_Some_iff)
    with same [of c a] assms(2) prim c show ?thesis by simp
  qed
  then show ?thesis using same [OF assms(2,3,4)] by (auto simp: load_seller_of_def Let_def)
qed

definition demo_bank_body :: "string \<Rightarrow> json" where
  "demo_bank_body iik = JObj [(''bank_name'', JStr ''Halyk''), (''iik'', JStr iik), (''is_primary'', JBool True)]"

definition demo_bank_db :: tenant_db where
  "demo_bank_db = demo_tenants\<lparr>orgs := [\<lparr>og_id = demo_org_id, og_bin = ''123456789012'', og_name = ''TOO'', og_regime = ''standard'',
     og_vat_payer = False, og_status = ''active'', og_address = [], og_director = [], og_director_position = [], og_vat_certificate = [], og_created_at = 0\<rparr>],
     org_members := [demo_owner CHR ''a'']\<rparr>"

definition demo_two_banks :: tenant_db where
  "demo_two_banks =
     snd (bank_create demo_bank_db ''b2'' 2 (Some demo_owner_principal) (Some (demo_bank_body ''KZ2''))
       (snd (bank_create demo_bank_db ''b1'' 1 (Some demo_owner_principal) (Some (demo_bank_body ''KZ1'')) demo_bank_db)))"

lemma demo_banks: "map (\<lambda>b. (bk_id b, bk_org b, bk_primary b, bk_iik b)) (bank_accounts demo_two_banks) =
   [(''b1'', demo_org_id, False, ''KZ1''), (''b2'', demo_org_id, True, ''KZ2'')]"
  by code_simp

theorem seller_prints_the_primary_account_witness:
  "seller_iik (load_seller_of demo_two_banks demo_org_id) = ''KZ2''"
proof -
  have r: "bank_reach demo_two_banks"
    unfolding demo_two_banks_def
    by (rule bank_next [OF bank_next [OF bank_start b_create] b_create]) (simp add: demo_bank_db_def demo_tenants_def)
  obtain b1 b2 where bs: "bank_accounts demo_two_banks = [b1, b2]" using demo_banks by (auto simp: map_eq_Cons_conv)
  then have b2: "bk_org b2 = demo_org_id" "bk_primary b2" "bk_iik b2 = ''KZ2''" "b2 \<in> set (bank_accounts demo_two_banks)"
    using demo_banks by simp_all
  from seller_prints_the_primary_account [OF r b2(4,4) refl] b2(1-3) show ?thesis by simp
qed

end
