(* ===== verification/AdminApi.thy ===== *)
theory AdminApi
  imports LinkTokens TenantsApi
begin

text \<open>
  The administration of users, roles and API keys: \<^verbatim>\<open>src/src/api/AdminController.hpp\<close>,
  \<^verbatim>\<open>src/src/api/ApiKeyController.hpp\<close> and the key generator of \<^verbatim>\<open>src/src/security/ApiKeys.hpp\<close>, and what holds of
  users and roles for every endpoint that changes them.

  Random bytes are an argument. The identifiers a database generates are the arguments \<open>new_id\<close>.
\<close>

section \<open>Users\<close>

text \<open>\<open>get<int>\<close> converts to 32 bits.\<close>

definition role_id_of :: "json \<Rightarrow> int option" where
  "role_id_of b = (case member b ''role_id'' of Some (JInt n) \<Rightarrow> Some (sint (word_of_int n :: 32 word)) | _ \<Rightarrow> None)"

definition wanted_role :: "tenant_db \<Rightarrow> json \<Rightarrow> Role option" where
  "wanted_role rd b = (case role_id_of b of Some i \<Rightarrow> find_role rd i | None \<Rightarrow> find_default_role rd)"

definition users_list :: "AuthConfig \<Rightarrow> tenant_db \<Rightarrow> AuthPrincipal option \<Rightarrow> (string \<Rightarrow> string) \<Rightarrow> response + (user_row \<times> Role option) list \<times> nat" where
  "users_list cfg rd p params =
     rbind (guard_admin cfg p) (\<lambda>_.
     case parse_page_params params 50 200 of (limit, offset) \<Rightarrow> Inr (list_users rd (nat limit) (nat offset), count_users rd))"

definition user_create ::
  "account_env \<Rightarrow> AuthConfig \<Rightarrow> tenant_db \<Rightarrow> string \<Rightarrow> int \<Rightarrow> AuthPrincipal option \<Rightarrow> json option \<Rightarrow> account_state \<Rightarrow>
   (response + user_row \<times> Role option) \<times> account_state" where
  "user_create e cfg rd new_id now p req x =
     (case rbind (guard_admin cfg p) (\<lambda>_. parse_body req) of
        Inl r \<Rightarrow> (Inl r, x)
      | Inr b \<Rightarrow>
          if register_shape b \<noteq> [] then (Inl (response_400 (register_shape b)), x)
          else
            (case wanted_role rd b of
               None \<Rightarrow> (Inl (bad_request ''invalid_role'' ''Role does not exist'' (JObj [])), x)
             | Some role \<Rightarrow>
                 (case create_user (citext e) new_id now (text_of b ''email'') (Some (pw_hash e (text_of b ''password'')))
                         (opt_string b ''first_name'') (opt_string b ''last_name'') (ro_id role) True (acc_db x) of
                    Inl err \<Rightarrow> (Inl (repo_reply err), x)
                  | Inr (u, d) \<Rightarrow>
                      (Inr (u, Some role),
                       acc_audited (actor_of p) ''user.create'' ''user'' (us_id u) (object [(''email'', JStr (us_email u))]) (x\<lparr>acc_db := d\<rparr>)))))"

definition user_invite ::
  "account_env \<Rightarrow> AuthConfig \<Rightarrow> tenant_db \<Rightarrow> string \<Rightarrow> int \<Rightarrow> AuthPrincipal option \<Rightarrow> json option \<Rightarrow> account_state \<Rightarrow>
   (response + user_row \<times> Role option) \<times> account_state" where
  "user_invite e cfg rd new_id now p req x =
     (case rbind (guard_admin cfg p) (\<lambda>_. parse_body req) of
        Inl r \<Rightarrow> (Inl r, x)
      | Inr b \<Rightarrow>
          if email_shape_errors b ''email'' \<noteq> [] then (Inl (response_400 (email_shape_errors b ''email'')), x)
          else
            (case wanted_role rd b of
               None \<Rightarrow> (Inl (bad_request ''invalid_role'' [] (JObj [])), x)
             | Some role \<Rightarrow>
                 (case create_user (citext e) new_id now (text_of b ''email'') None
                         (opt_string b ''first_name'') (opt_string b ''last_name'') (ro_id role) False (acc_db x) of
                    Inl err \<Rightarrow> (Inl (repo_reply err), x)
                  | Inr (u, d) \<Rightarrow>
                      (Inr (u, Some role),
                       acc_audited (actor_of p) ''user.invite'' ''user'' (us_id u) (object [(''email'', JStr (us_email u))])
                         (dispatch ''invite'' (us_id u) [] (x\<lparr>acc_db := d\<rparr>))))))"

definition user_uuid :: "string \<Rightarrow> response + unit" where
  "user_uuid i = (if is_uuid_segment i then Inr () else Inl (bad_request ''invalid_id'' ''Malformed user id'' (JObj [])))"

definition user_get :: "AuthConfig \<Rightarrow> tenant_db \<Rightarrow> AuthPrincipal option \<Rightarrow> string \<Rightarrow> response + user_row \<times> Role option" where
  "user_get cfg rd p i =
     rbind (guard_admin cfg p) (\<lambda>_. rbind (user_uuid i) (\<lambda>_.
     case find_user rd i of None \<Rightarrow> Inl (not_found ''user'') | Some v \<Rightarrow> Inr v))"

definition changing_self :: "AuthPrincipal option \<Rightarrow> string \<Rightarrow> bool" where
  "changing_self p i \<longleftrightarrow> (case p of None \<Rightarrow> False | Some who \<Rightarrow> pr_subject who = i)"

definition patched_email :: "json \<Rightarrow> response + string option" where
  "patched_email b =
     (case opt_string b ''email'' of
        None \<Rightarrow> Inr None
      | Some m \<Rightarrow> if email [] b ''email'' \<noteq> [] then Inl (response_400 (email [] b ''email'')) else Inr (Some m))"

definition patched_role :: "tenant_db \<Rightarrow> AuthPrincipal option \<Rightarrow> string \<Rightarrow> json \<Rightarrow> response + int option" where
  "patched_role rd p i b =
     (case role_id_of b of
        None \<Rightarrow> Inr None
      | Some r \<Rightarrow>
          if changing_self p i then
            Inl (bad_request ''self_role_change'' ''You cannot change the role of your own account; ask another admin'' (JObj []))
          else if find_role rd r = None then Inl (bad_request ''invalid_role'' [] (JObj []))
          else Inr (Some r))"

text \<open>The answer shows the row read back from the primary.\<close>

definition user_update ::
  "(string \<Rightarrow> string) \<Rightarrow> AuthConfig \<Rightarrow> tenant_db \<Rightarrow> AuthPrincipal option \<Rightarrow> string \<Rightarrow> json option \<Rightarrow> account_state \<Rightarrow>
   (response + user_row \<times> Role option) \<times> account_state" where
  "user_update lc cfg rd p i req x =
     (case rbind (guard_admin cfg p) (\<lambda>_. rbind (user_uuid i) (\<lambda>_. rbind (parse_body req) (\<lambda>b.
             rbind (patched_email b) (\<lambda>mail. rbind (patched_role rd p i b) (\<lambda>role. Inr (b, mail, role)))))) of
        Inl r \<Rightarrow> (Inl r, x)
      | Inr (b, mail, role) \<Rightarrow>
          let fn = opt_string b ''first_name''; ln = opt_string b ''last_name''
          in (case (if mail \<noteq> None \<or> role \<noteq> None \<or> fn \<noteq> None \<or> ln \<noteq> None then admin_update lc i mail role fn ln (acc_db x) else Inr (acc_db x)) of
                Inl err \<Rightarrow> (Inl (repo_reply err), x)
              | Inr d \<Rightarrow>
                  (case find_user d i of
                     None \<Rightarrow> (Inl (not_found ''user''), x\<lparr>acc_db := d\<rparr>)
                   | Some v \<Rightarrow> (Inr v, acc_audited (actor_of p) ''user.update'' ''user'' i (JObj []) (x\<lparr>acc_db := d\<rparr>)))))"

definition user_delete :: "AuthConfig \<Rightarrow> AuthPrincipal option \<Rightarrow> string \<Rightarrow> account_state \<Rightarrow> response \<times> account_state" where
  "user_delete cfg p i x =
     (case rbind (guard_admin cfg p) (\<lambda>_. user_uuid i) of
        Inl r \<Rightarrow> (r, x)
      | Inr _ \<Rightarrow>
          if changing_self p i then
            (bad_request ''self_delete'' ''You cannot delete your own account; ask another admin'' (JObj []), x)
          else
            (case remove_user i (acc_db x) of
               Inl err \<Rightarrow> (repo_reply err, x)
             | Inr d \<Rightarrow> (message_reply ''User deleted'', acc_audited (actor_of p) ''user.delete'' ''user'' i (JObj []) (x\<lparr>acc_db := d\<rparr>))))"

section \<open>Roles\<close>

definition roles_list :: "AuthConfig \<Rightarrow> tenant_db \<Rightarrow> AuthPrincipal option \<Rightarrow> response + Role list" where
  "roles_list cfg rd p = rbind (guard_admin cfg p) (\<lambda>_. Inr (list_roles rd 1000))"

definition perms_of :: "json \<Rightarrow> 32 word option" where
  "perms_of b = (case member b ''permissions'' of Some (JInt n) \<Rightarrow> Some (word_of_int n) | _ \<Rightarrow> None)"

definition role_shape :: "json \<Rightarrow> errors" where
  "role_shape b =
     (let e1 = string_length (fst (require [] b ''name'')) b ''name'' 1 64
      in if perms_of b = None then add_error e1 ''permissions'' ''invalid_type'' ''must be an integer bitmask'' else e1)"

definition role_create ::
  "AuthConfig \<Rightarrow> int \<Rightarrow> int \<Rightarrow> AuthPrincipal option \<Rightarrow> json option \<Rightarrow> account_state \<Rightarrow> (response + Role) escaped \<times> account_state" where
  "role_create cfg new_id now p req x =
     (case rbind (guard_admin cfg p) (\<lambda>_. parse_body req) of
        Inl r \<Rightarrow> (Done (Inl r), x)
      | Inr b \<Rightarrow>
          if role_shape b \<noteq> [] then (Done (Inl (response_400 (role_shape b))), x)
          else if (case member b ''is_default'' of None \<Rightarrow> False | Some j \<Rightarrow> \<not> is_boolean j) then (Escaped, x)
          else
            (case create_role new_id now (text_of b ''name'') (the (perms_of b)) (bool_of b ''is_default'' False) (acc_db x) of
               Inl err \<Rightarrow> (Done (Inl (repo_reply err)), x)
             | Inr (r, d) \<Rightarrow>
                 (Done (Inr r),
                  acc_audited (actor_of p) ''role.create'' ''role'' (to_string (ro_id r)) (object [(''name'', JStr (ro_name r))]) (x\<lparr>acc_db := d\<rparr>))))"

definition role_path_id :: "string \<Rightarrow> response + int" where
  "role_path_id s = (let i = parse_int s (- 1) in if i \<le> 0 then Inl (bad_request ''invalid_id'' [] (JObj [])) else Inr i)"

definition flag_of :: "json \<Rightarrow> string \<Rightarrow> bool option" where
  "flag_of b k = (case member b k of Some (JBool v) \<Rightarrow> Some v | _ \<Rightarrow> None)"

definition role_update ::
  "AuthConfig \<Rightarrow> AuthPrincipal option \<Rightarrow> string \<Rightarrow> json option \<Rightarrow> account_state \<Rightarrow> (response + Role) \<times> account_state" where
  "role_update cfg p id_str req x =
     (case rbind (guard_admin cfg p) (\<lambda>_. rbind (role_path_id id_str) (\<lambda>i. rbind (parse_body req) (\<lambda>b. Inr (i, b)))) of
        Inl r \<Rightarrow> (Inl r, x)
      | Inr (i, b) \<Rightarrow>
          let name = opt_string b ''name''; perms = perms_of b; dflt = flag_of b ''is_default''
          in if name = None \<and> perms = None \<and> dflt = None then
               (Inl (bad_request ''empty_patch'' ''Provide at least one of name / permissions / is_default'' (JObj [])), x)
             else
               (case update_role i name perms dflt (acc_db x) of
                  Inl err \<Rightarrow> (Inl (repo_reply err), x)
                | Inr (r, d) \<Rightarrow> (Inr r, acc_audited (actor_of p) ''role.update'' ''role'' (to_string i) (JObj []) (x\<lparr>acc_db := d\<rparr>))))"

definition role_delete ::
  "AuthConfig \<Rightarrow> tenant_db \<Rightarrow> AuthPrincipal option \<Rightarrow> string \<Rightarrow> account_state \<Rightarrow> response \<times> account_state" where
  "role_delete cfg rd p id_str x =
     (case rbind (guard_admin cfg p) (\<lambda>_. role_path_id id_str) of
        Inl r \<Rightarrow> (r, x)
      | Inr i \<Rightarrow>
          if (case find_role rd i of None \<Rightarrow> False | Some r \<Rightarrow> ro_default r) then
            (bad_request ''default_role_protected'' ''The default role cannot be deleted; promote another role to default first'' (JObj []), x)
          else
            (case remove_role i (acc_db x) of
               Inl err \<Rightarrow> (repo_reply err, x)
             | Inr d \<Rightarrow> (message_reply ''Role deleted'', acc_audited (actor_of p) ''role.delete'' ''role'' (to_string i) (JObj []) (x\<lparr>acc_db := d\<rparr>))))"

section \<open>API keys\<close>

definition bytes_to_hex :: "string \<Rightarrow> string" where
  "bytes_to_hex bs = concat (map (\<lambda>c. [''0123456789abcdef'' ! (of_char c div 16), ''0123456789abcdef'' ! (of_char c mod 16)]) bs)"

text \<open>The key, its hash and the part that is shown later.\<close>

definition generate_key :: "(string \<Rightarrow> string) \<Rightarrow> string \<Rightarrow> string \<times> string \<times> string" where
  "generate_key sha random = (let plaintext = kPrefix @ bytes_to_hex random in (plaintext, sha plaintext, take 12 plaintext))"

definition api_keys_list :: "tenant_db \<Rightarrow> AuthPrincipal option \<Rightarrow> response + api_key_row list" where
  "api_keys_list rd p = rbind (require_owner p) (\<lambda>owner. Inr (list_api_keys rd owner))"

definition api_key_create ::
  "account_env \<Rightarrow> string \<Rightarrow> int \<Rightarrow> string \<Rightarrow> AuthPrincipal option \<Rightarrow> json option \<Rightarrow> tenant_db \<Rightarrow> (response + api_key_row \<times> string) escaped \<times> tenant_db" where
  "api_key_create e new_id now random p req d =
     (case rbind (require_owner p) (\<lambda>owner. rbind (parse_body req) (\<lambda>b. Inr (owner, b))) of
        Inl r \<Rightarrow> (Done (Inl r), d)
      | Inr (owner, b) \<Rightarrow>
          if fst (require [] b ''name'') \<noteq> [] then (Done (Inl (response_400 (fst (require [] b ''name'')))), d)
          else
            (case generate_key (hash_hex (cenv e)) random of (plaintext, h, shown) \<Rightarrow>
             (case get_text b ''name'' of
                None \<Rightarrow> (Escaped, d)
              | Some name \<Rightarrow>
                  (case create_api_key new_id now owner name h shown d of
                     Inl _ \<Rightarrow> (Escaped, d)
                   | Inr (k, d') \<Rightarrow> (Done (Inr (k, plaintext)), d')))))"

definition api_key_remove :: "int \<Rightarrow> AuthPrincipal option \<Rightarrow> string \<Rightarrow> tenant_db \<Rightarrow> response \<times> tenant_db" where
  "api_key_remove now p i d =
     (case require_owner p of
        Inl r \<Rightarrow> (r, d)
      | Inr owner \<Rightarrow>
          (case revoke_api_key now i owner d of
             (False, d') \<Rightarrow> (not_found ''api_key'', d')
           | (True, d') \<Rightarrow> (message_reply ''API key revoked'', d')))"

section \<open>Unique addresses, one default role\<close>

definition identity_ok :: "(string \<Rightarrow> string) \<Rightarrow> tenant_db \<Rightarrow> bool" where
  "identity_ok lc d \<longleftrightarrow> roles_ok d \<and> users_ok lc d"

lemma users_ok_roles:
  "users_ok lc d \<Longrightarrow> users_t d' = users_t d \<Longrightarrow> ro_id ` set (roles_t d) \<subseteq> ro_id ` set (roles_t d') \<Longrightarrow> users_ok lc d'"
  unfolding users_ok_def by (metis subset_trans)

definition roles_pairwise :: "tenant_db \<Rightarrow> bool" where
  "roles_pairwise d \<longleftrightarrow> distinct (map ro_id (roles_t d)) \<and> (\<forall>x \<in> set (roles_t d). \<forall>y \<in> set (roles_t d). \<not> role_clash x y)"

lemma distinct_map_iff_pairwise:
  "distinct xs \<Longrightarrow> distinct (map f xs) \<longleftrightarrow> (\<forall>x \<in> set xs. \<forall>y \<in> set xs. f x = f y \<longrightarrow> x = y)"
  by (simp add: distinct_map inj_on_def)

lemma one_at_most: "distinct xs \<Longrightarrow> length (filter P xs) \<le> Suc 0 \<longleftrightarrow> (\<forall>x \<in> set xs. \<forall>y \<in> set xs. P x \<longrightarrow> P y \<longrightarrow> x = y)"
proof -
  assume d: "distinct xs"
  have "length (filter P xs) = card {x \<in> set xs. P x}" using distinct_card [OF distinct_filter [OF d, of P]] by simp
  moreover have "card {x \<in> set xs. P x} \<le> Suc 0 \<longleftrightarrow> (\<forall>x \<in> {x \<in> set xs. P x}. \<forall>y \<in> {x \<in> set xs. P x}. x = y)"
    by (rule card_le_Suc0_iff_eq) simp
  ultimately show ?thesis by auto
qed

lemma roles_ok_pairwise: "roles_ok d \<longleftrightarrow> roles_pairwise d"
proof (cases "distinct (map ro_id (roles_t d))")
  case True
  then have "distinct (roles_t d)" and id: "\<And>x y. x \<in> set (roles_t d) \<Longrightarrow> y \<in> set (roles_t d) \<Longrightarrow> ro_id x = ro_id y \<longleftrightarrow> x = y"
    by (auto simp: distinct_map inj_on_def)
  then show ?thesis
    using True by (auto simp: roles_ok_def roles_pairwise_def role_clash_def distinct_map_iff_pairwise one_at_most)
qed (simp add: roles_ok_def roles_pairwise_def)

lemma clear_default_pairwise: "roles_pairwise d \<Longrightarrow> roles_pairwise (clear_default p d)"
proof -
  let ?f = "\<lambda>r. if p r \<and> ro_default r then r\<lparr>ro_default := False\<rparr> else r"
  assume ok: "roles_pairwise d"
  have "\<not> role_clash (?f x) (?f y)" if "x \<in> set (roles_t d)" "y \<in> set (roles_t d)" for x y
  proof -
    have "\<not> role_clash x y" using ok that by (simp add: roles_pairwise_def)
    then show ?thesis by (auto simp: role_clash_def)
  qed
  moreover have "roles_t (clear_default p d) = map ?f (roles_t d)" by (simp add: clear_default_def)
  moreover have "map ro_id (map ?f (roles_t d)) = map ro_id (roles_t d)" by simp
  ultimately show ?thesis using ok unfolding roles_pairwise_def by (simp only: set_map ball_simps) blast
qed

lemma clear_default_ids: "ro_id ` set (roles_t (clear_default p d)) = ro_id ` set (roles_t d)"
  using clear_default_roles(1) [of p d] by (metis set_map)

lemma role_clash_sym: "role_clash x y \<longleftrightarrow> role_clash y x"
  by (auto simp: role_clash_def)

lemma create_role_ok:
  assumes ok: "identity_ok lc d" and c: "create_role i now name perms dflt d = Inr (r, d')"
  shows "identity_ok lc d'"
proof -
  let ?d1 = "if dflt then clear_default (\<lambda>_. True) d else d"
  have r1: "roles_pairwise ?d1" using ok clear_default_pairwise by (simp add: identity_ok_def roles_ok_pairwise)
  have ids: "ro_id ` set (roles_t ?d1) = ro_id ` set (roles_t d)" and us: "users_t ?d1 = users_t d"
    using clear_default_ids clear_default_roles(3) by simp_all
  obtain nm where nm: "varchar 64 name = Inr nm" using c by (cases "varchar 64 name") (simp_all add: create_role_def Let_def)
  have d': "d' = ?d1\<lparr>roles_t := roles_t ?d1 @ [r]\<rparr>" and i: "ro_id r \<notin> ro_id ` set (roles_t ?d1)" and n: "\<not> list_ex (role_clash r) (roles_t ?d1)"
    using c unfolding create_role_def Let_def nm rbind_simps on_sql_Inr by (simp_all split: if_split_asm) auto
  have "\<not> role_clash r r" by (simp add: role_clash_def)
  moreover have "\<not> role_clash r x" "\<not> role_clash x r" if "x \<in> set (roles_t ?d1)" for x
    using n that role_clash_sym [of x r] by (auto simp: list_ex_iff)
  ultimately have "roles_pairwise d'" using r1 i unfolding d' roles_pairwise_def by auto
  moreover have "users_ok lc d'"
    by (rule users_ok_roles [of lc d]) (use ok ids us in \<open>auto simp: identity_ok_def d'\<close>)
  ultimately show ?thesis by (simp add: identity_ok_def roles_ok_pairwise)
qed

lemma update_role_ok:
  assumes ok: "identity_ok lc d" and c: "update_role i name perms dflt d = Inr (r, d')"
  shows "identity_ok lc d'"
proof -
  let ?d1 = "if dflt = Some True then clear_default (\<lambda>r. ro_id r \<noteq> i) d else d"
  have r1: "roles_pairwise ?d1" using ok clear_default_pairwise by (simp add: identity_ok_def roles_ok_pairwise)
  have ids: "ro_id ` set (roles_t ?d1) = ro_id ` set (roles_t d)" and us: "users_t ?d1 = users_t d"
    using clear_default_ids clear_default_roles(3) by simp_all
  let ?g = "\<lambda>x. if ro_id x = i then r else x"
  obtain old where old: "find_role ?d1 i = Some old" using c by (cases "find_role ?d1 i") (simp_all add: update_role_def Let_def)
  obtain nm where nm: "varchar 64 (case name of None \<Rightarrow> ro_name old | Some n \<Rightarrow> n) = Inr nm"
    using c by (cases "varchar 64 (case name of None \<Rightarrow> ro_name old | Some n \<Rightarrow> n)") (simp_all add: update_role_def Let_def old on_sql_def)
  have d': "d' = ?d1\<lparr>roles_t := map ?g (roles_t ?d1)\<rparr>" and i: "ro_id r = i" and n: "\<not> list_ex (role_clash r) (roles_t ?d1)"
    using c unfolding update_role_def Let_def old option.case nm rbind_simps on_sql_Inr by (simp_all split: if_split_asm) auto
  have "\<not> role_clash r r" by (simp add: role_clash_def)
  moreover have "\<not> role_clash r x" "\<not> role_clash x r" if "x \<in> set (roles_t ?d1)" for x
    using n that role_clash_sym [of x r] by (auto simp: list_ex_iff)
  ultimately have "\<not> role_clash (?g x) (?g y)" if "x \<in> set (roles_t ?d1)" "y \<in> set (roles_t ?d1)" for x y
    using r1 that by (simp add: roles_pairwise_def)
  moreover have m: "map ro_id (roles_t d') = map ro_id (roles_t ?d1)" unfolding d' using i by simp
  moreover have "roles_t d' = map ?g (roles_t ?d1)" by (simp add: d')
  ultimately have "roles_pairwise d'" using r1 unfolding roles_pairwise_def m by (simp only: set_map ball_simps simp_thms) blast
  moreover have "ro_id ` set (roles_t d') = ro_id ` set (roles_t d)" using m ids by (metis set_map)
  moreover have "users_t d' = users_t d" by (simp add: d' us)
  ultimately have "roles_pairwise d' \<and> users_ok lc d'" using ok users_ok_roles [of lc d d'] by (simp add: identity_ok_def)
  then show ?thesis by (simp add: identity_ok_def roles_ok_pairwise)
qed

lemma remove_role_ok:
  assumes ok: "identity_ok lc d" and c: "remove_role i d = Inr d'"
  shows "identity_ok lc d'"
proof -
  have d': "d' = d\<lparr>roles_t := filter (\<lambda>r. ro_id r \<noteq> i) (roles_t d)\<rparr>" and i: "i \<notin> us_role ` set (users_t d)"
    using c by (auto simp: remove_role_def split: if_splits)
  have "roles_pairwise d'" using ok unfolding d' identity_ok_def roles_ok_pairwise roles_pairwise_def by (auto simp: distinct_map_filter)
  moreover have "us_role ` set (users_t d') \<subseteq> ro_id ` set (roles_t d')"
  proof
    fix x assume x: "x \<in> us_role ` set (users_t d')"
    then have "x \<in> ro_id ` set (roles_t d)" using ok by (auto simp: identity_ok_def users_ok_def d')
    moreover have "x \<noteq> i" using x i by (auto simp: d')
    ultimately show "x \<in> ro_id ` set (roles_t d')" by (auto simp: d')
  qed
  ultimately show ?thesis using ok by (simp add: identity_ok_def roles_ok_pairwise users_ok_def d')
qed

text \<open>Every endpoint that changes users or roles, with reads from any replica.\<close>

inductive identity_step :: "account_env \<Rightarrow> AuthConfig \<Rightarrow> account_state \<Rightarrow> account_state \<Rightarrow> bool" for e cfg where
  i_register: "identity_step e cfg x (snd (register_user e rd i now req x))"
| i_confirm: "identity_step e cfg x (snd (confirm e cfg db_up now token x))"
| i_reset: "identity_step e cfg x (snd (apply_reset e cfg up db_up now token req x))"
| i_change_email: "identity_step e cfg x (snd (apply_change_email e cfg db_up now rd token x))"
| i_join: "identity_step e cfg x (snd (join_from_invite e cfg up now token req x))"
| i_password: "identity_step e cfg x (snd (change_password e cfg up rd p req x))"
| i_create: "identity_step e cfg x (snd (user_create e cfg rd i now p req x))"
| i_invite: "identity_step e cfg x (snd (user_invite e cfg rd i now p req x))"
| i_update: "identity_step e cfg x (snd (user_update (citext e) cfg rd p i req x))"
| i_delete: "identity_step e cfg x (snd (user_delete cfg p i x))"
| i_role_create: "identity_step e cfg x (snd (role_create cfg n now p req x))"
| i_role_update: "identity_step e cfg x (snd (role_update cfg p s req x))"
| i_role_delete: "identity_step e cfg x (snd (role_delete cfg rd p s x))"
| i_other: "users_t (acc_db y) = users_t (acc_db x) \<Longrightarrow> roles_t (acc_db y) = roles_t (acc_db x) \<Longrightarrow> identity_step e cfg x y"

inductive identity_reach :: "account_env \<Rightarrow> AuthConfig \<Rightarrow> account_state \<Rightarrow> account_state \<Rightarrow> bool" for e cfg where
  i_start: "identity_reach e cfg x x"
| i_next: "identity_reach e cfg x y \<Longrightarrow> identity_step e cfg y z \<Longrightarrow> identity_reach e cfg x z"

lemma identity_same: "users_t d' = users_t d \<Longrightarrow> roles_t d' = roles_t d \<Longrightarrow> identity_ok lc d \<Longrightarrow> identity_ok lc d'"
  by (simp add: identity_ok_def roles_ok_def users_ok_def)

lemma consume_once_rows: "consume_once e up now token ttl d = (b, d') \<Longrightarrow> users_t d' = users_t d \<and> roles_t d' = roles_t d"
  by (auto simp: consume_once_def Let_def split: if_splits)

lemma user_ops_roles:
  "update_password_hash i h d = Inr d' \<Longrightarrow> roles_t d' = roles_t d" "mark_confirmed i d = (b, d') \<Longrightarrow> roles_t d' = roles_t d"
  "redeem_invite i h d = (b, d') \<Longrightarrow> roles_t d' = roles_t d" "change_email lc i mail d = Inr d' \<Longrightarrow> roles_t d' = roles_t d"
  "admin_update lc i m r f l d = Inr d' \<Longrightarrow> roles_t d' = roles_t d" "remove_user i d = Inr d' \<Longrightarrow> roles_t d' = roles_t d"
  "create_user lc i now mail pw f l role conf d = Inr (u, d') \<Longrightarrow> roles_t d' = roles_t d"
  by (auto simp: user_ops rbind_def Let_def split: if_splits sum.splits)

lemma user_ops_identity:
  assumes "identity_ok lc d"
  shows "update_password_hash i h d = Inr d' \<Longrightarrow> identity_ok lc d'" "mark_confirmed i d = (b, d') \<Longrightarrow> identity_ok lc d'"
    "redeem_invite i h d = (b, d') \<Longrightarrow> identity_ok lc d'" "change_email lc i mail d = Inr d' \<Longrightarrow> identity_ok lc d'"
    "admin_update lc i m r f l d = Inr d' \<Longrightarrow> identity_ok lc d'" "remove_user i d = Inr d' \<Longrightarrow> identity_ok lc d'"
    "create_user lc i now mail pw f l role conf d = Inr (u, d') \<Longrightarrow> identity_ok lc d'"
  using assms user_ops_roles user_ops_ok [of lc d] unfolding identity_ok_def roles_ok_def by metis+

lemma consume_identity: "consume_once e up now token ttl d = (b, d') \<Longrightarrow> identity_ok lc d \<Longrightarrow> identity_ok lc d'"
  using consume_once_rows identity_same by metis

lemma link_steps_identity:
  assumes "identity_ok (citext e) (acc_db x)"
  shows "identity_ok (citext e) (acc_db (snd (confirm e cfg db_up now token x)))"
    "identity_ok (citext e) (acc_db (snd (apply_reset e cfg up db_up now token req x)))"
    "identity_ok (citext e) (acc_db (snd (apply_change_email e cfg db_up now rd token x)))"
    "identity_ok (citext e) (acc_db (snd (join_from_invite e cfg up now token req x)))"
    "identity_ok (citext e) (acc_db (snd (change_password e cfg up rd p req x)))"
proof -
  show "identity_ok (citext e) (acc_db (snd (confirm e cfg db_up now token x)))"
    using assms by (auto simp: confirm_def split: sum.splits prod.splits bool.splits dest: consume_identity user_ops_identity(2))
  show "identity_ok (citext e) (acc_db (snd (apply_reset e cfg up db_up now token req x)))"
    using assms by (auto simp: apply_reset_def split: sum.splits prod.splits bool.splits dest: consume_identity user_ops_identity(1))
  show "identity_ok (citext e) (acc_db (snd (apply_change_email e cfg db_up now rd token x)))"
    using assms by (auto simp: apply_change_email_def split: sum.splits prod.splits bool.splits option.splits json.splits
        dest: consume_identity user_ops_identity(4))
  show "identity_ok (citext e) (acc_db (snd (join_from_invite e cfg up now token req x)))"
    using assms by (auto simp: join_from_invite_def split: sum.splits prod.splits bool.splits dest: user_ops_identity(3))
  show "identity_ok (citext e) (acc_db (snd (change_password e cfg up rd p req x)))"
    using assms by (auto simp: change_password_def Let_def split: sum.splits prod.splits option.splits dest: user_ops_identity(1))
qed

lemma user_update_cases:
  assumes "user_update lc cfg rd p i req x = (v, y)"
  shows "acc_db y = acc_db x \<or>
     (\<exists>b m r f l. patched_role rd p i b = Inr r \<and> admin_update lc i m r f l (acc_db x) = Inr (acc_db y))"
proof (cases "rbind (guard_admin cfg p) (\<lambda>_. rbind (user_uuid i) (\<lambda>_. rbind (parse_body req) (\<lambda>b.
     rbind (patched_email b) (\<lambda>mail. rbind (patched_role rd p i b) (\<lambda>role. Inr (b, mail, role))))))")
  case (Inl e)
  with assms show ?thesis unfolding user_update_def by simp
next
  case (Inr s)
  obtain b m r where s: "s = (b, m, r)" by (cases s)
  from Inr have "patched_role rd p i b = Inr r" unfolding s by (auto simp: rbind_def split: sum.splits)
  moreover from assms have "acc_db y = acc_db x \<or> (\<exists>f l. admin_update lc i m r f l (acc_db x) = Inr (acc_db y))"
    unfolding user_update_def Inr s by (auto simp: Let_def split: sum.splits option.splits if_split_asm)
  ultimately show ?thesis by blast
qed

lemma patched_role_self: "patched_role rd p i b = Inr r \<Longrightarrow> changing_self p i \<Longrightarrow> r = None"
  by (simp add: patched_role_def split: option.splits)

lemma identity_step_ok:
  assumes "identity_step e cfg x y" "identity_ok (citext e) (acc_db x)"
  shows "identity_ok (citext e) (acc_db y)"
  using assms(1)
proof cases
  case (i_register rd i now req)
  with assms(2) show ?thesis
    by (auto simp: register_user_def split: sum.splits prod.splits option.splits dest: user_ops_identity(7))
next
  case (i_create rd i now p req)
  with assms(2) show ?thesis
    by (auto simp: user_create_def split: sum.splits prod.splits option.splits dest: user_ops_identity(7))
next
  case (i_invite rd i now p req)
  with assms(2) show ?thesis
    by (auto simp: user_invite_def dispatch_def split: sum.splits prod.splits option.splits dest: user_ops_identity(7))
next
  case (i_update rd p i req)
  from user_update_cases [OF surjective_pairing, of "citext e" cfg rd p i req x] assms(2) show ?thesis
    unfolding i_update by (metis user_ops_identity(5))
next
  case (i_delete p i)
  with assms(2) show ?thesis
    by (auto simp: user_delete_def split: sum.splits dest: user_ops_identity(6))
next
  case (i_role_create n now p req)
  with assms(2) show ?thesis
    by (auto simp: role_create_def split: sum.splits prod.splits if_splits dest: create_role_ok)
next
  case (i_role_update p s req)
  with assms(2) show ?thesis
    by (auto simp: role_update_def Let_def split: sum.splits prod.splits if_splits dest: update_role_ok)
next
  case (i_role_delete rd p s)
  with assms(2) show ?thesis
    by (auto simp: role_delete_def split: sum.splits if_splits dest: remove_role_ok)
qed (use assms(2) link_steps_identity identity_same in auto)


definition demo_admin_role :: Role where
  "demo_admin_role = \<lparr>ro_id = 2, ro_name = ''Administrator'', ro_permissions = kAdminister, ro_default = False, ro_created_at = 0\<rparr>"

definition demo_admin :: user_row where
  "demo_admin = demo_user\<lparr>us_id := demo_org_id, us_email := ''root@b.kz'', us_role := 2\<rparr>"

definition demo_admin_state :: account_state where
  "demo_admin_state = demo_reset_state\<lparr>acc_db := demo_tenants\<lparr>roles_t := [demo_role, demo_admin_role], users_t := [demo_user, demo_admin]\<rparr>\<rparr>"

definition demo_admin_principal :: AuthPrincipal where
  "demo_admin_principal = \<lparr>pr_subject = demo_org_id, pr_roles = [], pr_scopes = [], pr_org = [],
     pr_claims = JObj [(''permissions'', JInt 0x40000000)]\<rparr>"


lemma remove_user_users: "remove_user i d = Inr d' \<Longrightarrow> users_t d' = filter (\<lambda>u. us_id u \<noteq> i) (users_t d)"
  by (auto simp: remove_user_def split: if_splits)

lemma admin_updateD:
  "admin_update lc i m r f l d = Inr d' \<Longrightarrow> \<exists>fn ln. d' = update_user i (\<lambda>u. u\<lparr>us_email := coalesce m (us_email u),
     us_role := coalesce r (us_role u), us_first := coalesce_opt fn (us_first u), us_last := coalesce_opt ln (us_last u)\<rparr>) d"
  by (auto simp: admin_update_def rbind_def split: sum.splits if_splits)

lemma update_user_row:
  "u \<in> set (users_t d) \<Longrightarrow> d' = update_user i f d \<Longrightarrow> (if us_id u = i then f u else u) \<in> set (users_t d')"
  by (auto simp: update_user_def)

text \<open>An administrator cannot take the role from their own account or delete it: whatever a request
of theirs to change or delete a user says, their own row stays, with its role and password.\<close>

theorem admins_keep_their_account:
  assumes "u \<in> set (users_t (acc_db x))" "us_id u = pr_subject who"
    "y = snd (user_update lc cfg rd (Some who) i req x) \<or> y = snd (user_delete cfg (Some who) i x)"
  shows "\<exists>v \<in> set (users_t (acc_db y)). us_id v = us_id u \<and> us_role v = us_role u \<and> us_password v = us_password u \<and> us_confirmed v = us_confirmed u"
proof -
  have keep: ?thesis if "acc_db y = acc_db x" using that assms(1) by auto
  show ?thesis using assms(3)
  proof
    assume d: "y = snd (user_delete cfg (Some who) i x)"
    show ?thesis
    proof (cases "acc_db y = acc_db x")
      case False
      then obtain d' where "remove_user i (acc_db x) = Inr d'" "acc_db y = d'" "i \<noteq> pr_subject who"
        using d by (auto simp: user_delete_def changing_self_def split: sum.splits if_splits)
      then have "users_t (acc_db y) = filter (\<lambda>u. us_id u \<noteq> i) (users_t (acc_db x))" "us_id u \<noteq> i"
        using assms(2) remove_user_users by auto
      then show ?thesis using assms(1) by auto
    qed (rule keep)
  next
    assume d: "y = snd (user_update lc cfg rd (Some who) i req x)"
    show ?thesis
    proof (cases "acc_db y = acc_db x")
      case False
      then obtain b m r f l where p: "patched_role rd (Some who) i b = Inr r" and a: "admin_update lc i m r f l (acc_db x) = Inr (acc_db y)"
        using user_update_cases [OF surjective_pairing, of lc cfg rd "Some who" i req x] unfolding d [symmetric] by blast
      have r: "i = pr_subject who \<Longrightarrow> r = None"
        using patched_role_self [OF p] by (simp add: changing_self_def)
      from admin_updateD [OF a] obtain fn ln where up: "acc_db y = update_user i (\<lambda>u. u\<lparr>us_email := coalesce m (us_email u),
          us_role := coalesce r (us_role u), us_first := coalesce_opt fn (us_first u), us_last := coalesce_opt ln (us_last u)\<rparr>) (acc_db x)"
        by blast
      show ?thesis
        by (rule rev_bexI [OF update_user_row [OF assms(1) up]]) (use assms(2) r in \<open>auto simp: coalesce_def\<close>)
    qed (rule keep)
  qed
qed

theorem admins_keep_their_account_witness:
  "let y = snd (user_delete demo_auth (Some demo_admin_principal) demo_org_id demo_admin_state)
   in \<exists>v \<in> set (users_t (acc_db y)). us_id v = demo_org_id \<and> us_role v = 2"
proof -
  have u: "demo_admin \<in> set (users_t (acc_db demo_admin_state))" "us_id demo_admin = pr_subject demo_admin_principal"
    by (simp_all add: demo_admin_state_def demo_admin_def demo_admin_principal_def)
  from admins_keep_their_account [OF u disjI2 [OF refl], where i = demo_org_id and cfg = demo_auth]
  obtain v where "v \<in> set (users_t (acc_db (snd (user_delete demo_auth (Some demo_admin_principal) demo_org_id demo_admin_state))))"
    "us_id v = us_id demo_admin" "us_role v = us_role demo_admin"
    by blast
  then show ?thesis unfolding Let_def by (intro bexI [of _ v]) (simp_all add: demo_admin_def)
qed

text \<open>Nothing protects the role itself: its only holder can take the permission of administrators from it.\<close>

lemma role_update_can_lock_out:
  "let y = snd (role_update demo_auth (Some demo_admin_principal) ''2'' (Some (JObj [(''permissions'', JInt 0)])) demo_admin_state)
   in (\<exists>r \<in> set (roles_t (acc_db demo_admin_state)). role_is_admin r) \<and> \<not> (\<exists>r \<in> set (roles_t (acc_db y)). role_is_admin r)"
  by code_simp

end
