(* ===== verification/JournalApi.thy ===== *)
theory JournalApi
  imports JournalProperties Sessions DocumentsApi
begin

text \<open>
  The endpoints of the journal: \<^verbatim>\<open>src/src/api/JournalController.hpp\<close> over \<open>Journal\<close>, and their place behind
  the middleware and the organization of the request.

  A handler that reaches a sum of amounts beyond \<open>long long\<close>, which C++ leaves undefined, answers \<open>None\<close>.
  The messages of exceptions are the argument \<open>what\<close>.
\<close>

section \<open>Reading\<close>

definition date_filter :: "string \<Rightarrow> string \<Rightarrow> errors \<Rightarrow> errors \<times> string option" where
  "date_filter field param errs =
     (if param = [] then (errs, None)
      else if \<not> is_valid_date param then (add_error errs field ''invalid_date'' ''must be in YYYY-MM-DD format'', None)
      else (errs, Some param))"

definition journal_list :: "pg \<Rightarrow> OrgContext \<Rightarrow> (string \<Rightarrow> string) \<Rightarrow> db \<Rightarrow> db \<Rightarrow> response + JournalEntry list \<times> nat" where
  "journal_list p ctx q rd rd_count =
     rbind (require_org_perm ctx kJournal kRead) (\<lambda>_.
     case date_filter ''from'' (q ''from'') [] of (e1, from_filter) \<Rightarrow>
     case date_filter ''to'' (q ''to'') e1 of (errs, to_filter) \<Rightarrow>
     if errs \<noteq> [] then Inl (response_422_all errs)
     else
       case parse_page_params q 50 200 of (limit, offset) \<Rightarrow>
       (case (list_filtered p rd (oc_org ctx) from_filter to_filter (nat limit) (nat offset), count_filtered p rd_count (oc_org ctx) from_filter to_filter) of
          (Inr es, Inr n) \<Rightarrow> Inr (es, n)
        | _ \<Rightarrow> Inl sql_failed))"

definition entry_uuid :: "string \<Rightarrow> response + unit" where
  "entry_uuid i = (if is_uuid_segment i then Inr () else Inl (bad_request ''invalid_id'' ''Malformed journal entry id'' (JObj [])))"

text \<open>The entry and its lines are two reads, which may see two databases.\<close>

definition journal_get :: "pg \<Rightarrow> OrgContext \<Rightarrow> string \<Rightarrow> db \<Rightarrow> db \<Rightarrow> response + JournalEntry" where
  "journal_get p ctx i rd rd_lines =
     rbind (require_org_perm ctx kJournal kRead) (\<lambda>_.
     rbind (entry_uuid i) (\<lambda>_.
     case find_entry rd i (oc_org ctx) of
       None \<Rightarrow> Inl (not_found ''journal entry'')
     | Some e \<Rightarrow> Inr (e\<lparr>lines := load_lines p rd_lines e\<rparr>)))"

section \<open>Writing\<close>

definition must_be_array :: "errors \<Rightarrow> json \<Rightarrow> string \<Rightarrow> errors" where
  "must_be_array errs b field =
     (case member b field of
        None \<Rightarrow> errs
      | Some (JArr _) \<Rightarrow> errs
      | Some _ \<Rightarrow> add_error errs field ''not_array'' ''must be an array'')"

definition draft_shape :: "json \<Rightarrow> errors" where
  "draft_shape b =
     (let e3 = foldl (\<lambda>e f. fst (require e b f)) [] [''entry_date'', ''description'', ''lines'']
      in must_be_array (must_be_string (must_be_string e3 b ''entry_date'') b ''description'') b ''lines'')"

text \<open>One item of \<open>lines\<close>: a field that is missing or has the wrong type is reported and left empty.\<close>

definition line_text :: "json \<Rightarrow> string \<Rightarrow> string \<Rightarrow> string \<Rightarrow> errors \<Rightarrow> string \<times> errors" where
  "line_text item field code message errs =
     (case get_text item field of None \<Rightarrow> ([], add_error errs ''lines'' code message) | Some s \<Rightarrow> (s, errs))"

definition line_account :: "json \<Rightarrow> errors \<Rightarrow> string \<times> errors" where
  "line_account item errs =
     (case get_text item ''account_code'' of
        Some (c # cs) \<Rightarrow> (c # cs, errs)
      | _ \<Rightarrow> ([], add_error errs ''lines'' ''missing_account_code'' ''each line needs a non-empty account_code''))"

definition line_counterparty :: "json \<Rightarrow> errors \<Rightarrow> string option \<times> errors" where
  "line_counterparty item errs =
     (case present item ''counterparty_id'' of
        None \<Rightarrow> (None, errs)
      | Some j \<Rightarrow>
          (case j of
             JStr s \<Rightarrow> if is_uuid_segment s then (Some s, errs)
                       else (None, add_error errs ''lines'' ''invalid_counterparty_id'' ''counterparty_id must be a uuid'')
           | _ \<Rightarrow> (None, add_error errs ''lines'' ''invalid_counterparty_id'' ''counterparty_id must be a uuid'')))"

definition line_vat :: "json \<Rightarrow> errors \<Rightarrow> string option \<times> errors" where
  "line_vat item errs =
     (case present item ''vat_amount'' of
        None \<Rightarrow> (None, errs)
      | Some (JStr s) \<Rightarrow> (Some s, errs)
      | Some _ \<Rightarrow> (None, add_error errs ''lines'' ''invalid_vat_amount'' ''vat_amount must be a decimal string''))"

definition side_text_hint :: string where
  "side_text_hint = ''each line needs a side ('' @ [CHR 0x27] @ ''debit'' @ [CHR 0x27] @ '' or '' @ [CHR 0x27] @ ''credit'' @ [CHR 0x27] @ '')''"

fun parse_lines :: "json list \<Rightarrow> errors \<Rightarrow> JournalLine list \<times> errors" where
  "parse_lines [] errs = ([], errs)"
| "parse_lines (item # rest) errs =
     (if \<not> is_object item then parse_lines rest (add_error errs ''lines'' ''not_object'' ''each line must be an object'')
      else
        (case line_account item errs of (code, e1) \<Rightarrow>
         case line_text item ''side'' ''missing_side'' side_text_hint e1 of (sd, e2) \<Rightarrow>
         case line_text item ''amount'' ''missing_amount'' ''each line needs an amount as a decimal string'' e2 of (amt, e3) \<Rightarrow>
         case line_counterparty item e3 of (cp, e4) \<Rightarrow>
         case line_vat item e4 of (vat, e5) \<Rightarrow>
         case parse_lines rest e5 of (ls, e) \<Rightarrow>
         (\<lparr>line_id = [], entry_id = [], account_code = code, side = sd, amount = amt, counterparty_id = cp, vat_amount = vat\<rparr> # ls, e)))"

definition lines_of_body :: "json \<Rightarrow> json list" where
  "lines_of_body b = (case member b ''lines'' of Some (JArr xs) \<Rightarrow> xs | _ \<Rightarrow> [])"

definition draft_request :: "OrgContext \<Rightarrow> json option \<Rightarrow> response + json \<times> JournalLine list" where
  "draft_request ctx req =
     rbind (require_org_perm ctx kJournal kWrite) (\<lambda>_.
     rbind (parse_body req) (\<lambda>b.
     if draft_shape b \<noteq> [] then Inl (response_400 (draft_shape b))
     else if \<not> is_valid_date (text_of b ''entry_date'') then
       Inl (response_422 ''entry_date'' ''invalid_date'' ''must be in YYYY-MM-DD format'')
     else
       case parse_lines (lines_of_body b) [] of (ls, errs) \<Rightarrow>
       if errs \<noteq> [] then Inl (response_400 errs) else Inr (b, ls)))"

definition draft_reply :: "(journal_error \<Rightarrow> string) \<Rightarrow> journal_error \<Rightarrow> response option" where
  "draft_reply what e =
     (case e of
        UnbalancedEntry \<Rightarrow> Some (response_422 ''lines'' ''unbalanced_entry'' (what e))
      | UnknownAccount \<Rightarrow> Some (response_422 ''lines'' ''unknown_account'' (what e))
      | ForeignCounterparty \<Rightarrow> Some (response_422 ''lines'' ''foreign_counterparty'' (what e))
      | BadAmount TiynUB \<Rightarrow> None
      | BadAmount _ \<Rightarrow> Some (response_422 ''lines'' ''invalid_line'' (what e))
      | BadSide \<Rightarrow> Some (response_422 ''lines'' ''invalid_line'' (what e))
      | TotalOverflow \<Rightarrow> None
      | _ \<Rightarrow> Some sql_failed)"

definition journal_create ::
  "pg \<Rightarrow> (journal_error \<Rightarrow> string) \<Rightarrow> db \<Rightarrow> (nat \<Rightarrow> string) \<Rightarrow> int \<Rightarrow> OrgContext \<Rightarrow> json option \<Rightarrow> db \<Rightarrow>
   (response + JournalEntry) option \<times> db" where
  "journal_create p what rd gen now ctx req d =
     (case draft_request ctx req of
        Inl r \<Rightarrow> (Some (Inl r), d)
      | Inr (b, ls) \<Rightarrow>
          (case create_draft p rd gen now (oc_org ctx) (oc_user ctx) (text_of b ''entry_date'') (text_of b ''description'') ls d of
             Inl e \<Rightarrow> (map_option Inl (draft_reply what e), d)
           | Inr (entry, d') \<Rightarrow> (Some (Inr entry), d')))"

definition state_reply :: "(journal_error \<Rightarrow> string) \<Rightarrow> journal_error \<Rightarrow> response" where
  "state_reply what e = (if e = InvalidEntryState then conflict ''invalid_entry_state'' (what e) else sql_failed)"

definition journal_post ::
  "pg \<Rightarrow> (journal_error \<Rightarrow> string) \<Rightarrow> OrgContext \<Rightarrow> string \<Rightarrow> db \<Rightarrow> (response + JournalEntry) \<times> db" where
  "journal_post p what ctx i d =
     (case rbind (require_org_perm ctx kJournal kWrite) (\<lambda>_. entry_uuid i) of
        Inl r \<Rightarrow> (Inl r, d)
      | Inr _ \<Rightarrow>
          (case post p (oc_org ctx) i d of
             Inl e \<Rightarrow> (Inl (state_reply what e), d)
           | Inr (None, d') \<Rightarrow> (Inl (not_found ''journal entry''), d')
           | Inr (Some entry, d') \<Rightarrow> (Inr entry, d')))"

definition journal_reverse ::
  "pg \<Rightarrow> (journal_error \<Rightarrow> string) \<Rightarrow> (nat \<Rightarrow> string) \<Rightarrow> int \<Rightarrow> OrgContext \<Rightarrow> string \<Rightarrow> db \<Rightarrow> (response + JournalEntry) \<times> db" where
  "journal_reverse p what gen now ctx i d =
     (case rbind (require_org_perm ctx kJournal kWrite) (\<lambda>_. entry_uuid i) of
        Inl r \<Rightarrow> (Inl r, d)
      | Inr _ \<Rightarrow>
          (case reverse_entry p gen now (oc_org ctx) i (oc_user ctx) d of
             Inl e \<Rightarrow> (Inl (state_reply what e), d)
           | Inr (None, d') \<Rightarrow> (Inl (not_found ''journal entry''), d')
           | Inr (Some entry, d') \<Rightarrow> (Inr entry, d')))"

section \<open>A request from the socket to the ledger\<close>

datatype ledger_call = CreateEntry "json option" | PostEntry string | ReverseEntry string

definition ledger_handler ::
  "pg \<Rightarrow> (journal_error \<Rightarrow> string) \<Rightarrow> db \<Rightarrow> (nat \<Rightarrow> string) \<Rightarrow> int \<Rightarrow> OrgContext \<Rightarrow> ledger_call \<Rightarrow> db \<Rightarrow> db" where
  "ledger_handler p what rd gen now ctx c d =
     (case c of
        CreateEntry req \<Rightarrow> snd (journal_create p what rd gen now ctx req d)
      | PostEntry i \<Rightarrow> snd (journal_post p what ctx i d)
      | ReverseEntry i \<Rightarrow> snd (journal_reverse p what gen now ctx i d))"

text \<open>The advice decides first; then \<open>API_REQUIRE_ORG\<close> reads the membership, from a replica \<open>mrd\<close>.\<close>

definition ledger_request ::
  "account_env \<Rightarrow> AuthConfig \<Rightarrow> bool \<Rightarrow> int \<Rightarrow> http_request \<Rightarrow> tenant_db \<Rightarrow> tenant_db \<Rightarrow>
   pg \<Rightarrow> (journal_error \<Rightarrow> string) \<Rightarrow> db \<Rightarrow> (nat \<Rightarrow> string) \<Rightarrow> int \<Rightarrow> ledger_call \<Rightarrow> db \<Rightarrow> db" where
  "ledger_request e cfg up now hreq td mrd p what rd gen t c d =
     (case auth_advice (auth e) cfg up now hreq td of
        (Pass who, _) \<Rightarrow> (case require_org mrd who of Inl _ \<Rightarrow> d | Inr ctx \<Rightarrow> ledger_handler p what rd gen t ctx c d)
      | _ \<Rightarrow> d)"

text \<open>The rows of the other organizations.\<close>

definition others_same :: "string \<Rightarrow> db \<Rightarrow> db \<Rightarrow> bool" where
  "others_same org d d' \<longleftrightarrow>
     filter (\<lambda>e. e_org e \<noteq> org) (entries d') = filter (\<lambda>e. e_org e \<noteq> org) (entries d) \<and>
     filter (\<lambda>l. l_org l \<noteq> org) (jlines d') = filter (\<lambda>l. l_org l \<noteq> org) (jlines d)"

lemma others_same_refl [simp]: "others_same org d d" by (simp add: others_same_def)

lemma rows_of_org: "new_entry p org flip now ls d er rows \<Longrightarrow> filter (\<lambda>l. l_org l \<noteq> org) rows = [] \<and> e_org er = org"
  by (auto simp: new_entry_def row_for_def list_all2_conv_all_nth in_set_conv_nth filter_empty_conv)

lemma foreign_set_status:
  assumes "distinct (map e_id es)" "r \<in> set es" "e_org r = org"
  shows "filter (\<lambda>e. e_org e \<noteq> org) (JournalInvariant.set_status (e_id r) st es) = filter (\<lambda>e. e_org e \<noteq> org) es"
proof -
  have "e_id e \<noteq> e_id r" if "e \<in> set es" "e_org e \<noteq> org" for e
    using key_eqD [OF assms(1) _ that(1) assms(2)] that(2) assms(3) by auto
  then have m: "map (\<lambda>e. if e_id e = e_id r then e\<lparr>e_status := st\<rparr> else e) (filter (\<lambda>e. e_org e \<noteq> org) es) = filter (\<lambda>e. e_org e \<noteq> org) es"
    by (intro map_idI) auto
  have c: "(\<lambda>e. e_org e \<noteq> org) \<circ> (\<lambda>e. if e_id e = e_id r then e\<lparr>e_status := st\<rparr> else e) = (\<lambda>e. e_org e \<noteq> org)"
    by (auto simp: fun_eq_iff)
  show ?thesis unfolding filter_map c by (rule m)
qed

lemma create_draft_others:
  assumes "create_draft p rd gen now org user date descr ls d = Inr (e, d')" "keys_ok d"
  shows "others_same org d d'"
proof -
  obtain er rows where "new_entry p org (\<lambda>s. s) now ls d er rows" "d' = add_entry er rows d"
    using create_draft_spec [OF assms(1) keys_okD(2) [OF assms(2)]] by metis
  then show ?thesis using rows_of_org by (fastforce simp: others_same_def)
qed

lemma post_others:
  assumes "post p org i d = Inr (r, d')" "keys_ok d"
  shows "others_same org d d'"
proof (cases r)
  case None
  then show ?thesis using assms(1) by (auto simp: post_def split: option.splits)
next
  case (Some e)
  then have "post_txn p org i d = Inr (e, d')" using assms(1) by (auto simp: post_def split: option.splits)
  then obtain x where x: "x \<in> set (entries d)" "e_id x = i" "e_org x = org"
    and d': "d' = d\<lparr>entries := JournalInvariant.set_status i ''posted'' (entries d)\<rparr>"
    by (rule post_txn_spec [OF _ keys_okD(1) [OF assms(2)]])
  from foreign_set_status [OF keys_okD(1) [OF assms(2)] x(1,3), of "''posted''"] show ?thesis
    by (simp add: others_same_def d' x(2))
qed

lemma entry_found: "find_entry d i org = Some e \<Longrightarrow> \<exists>x \<in> set (entries d). e_id x = i \<and> je_id e = e_id x"
  by (cases "filter (\<lambda>r. e_id r = i \<and> e_org r = org) (entries d)")
     (auto simp: find_entry_def find_in_org_def JournalEntry_from_row_def dest!: filter_eq_ConsD)

lemma reverse_others:
  assumes "reverse_entry p gen now org i user d = Inr (r, d')" "journal_ok d"
  shows "others_same org d d'"
proof (cases r)
  case None
  then show ?thesis using assms(1) by (auto simp: reverse_entry_def split: option.splits)
next
  case (Some e)
  then obtain original ls where g: "reverse_guard p d org i = Inr (Some (original, ls))"
    and t: "reverse_txn p gen now org user original ls d = Inr (e, d')"
    using assms(1) by (auto simp: reverse_entry_def split: option.splits)
  have k: "keys_ok d" and bal: "balanced d" using assms(2) by (simp_all add: journal_ok_def)
  obtain x where x: "x \<in> set (entries d)" "je_id original = e_id x" and ls: "ls = load_lines p d original"
    using g entry_found by (fastforce simp: reverse_guard_def split: option.splits if_splits)
  have "length ls = length (lines_of d (e_id x))" by (simp add: ls load_lines_def x(2))
  then have ne: "ls \<noteq> []" using bal x(1) by (auto simp: balanced_def)
  have "je_id original \<in> e_id ` set (entries d)" using x by simp
  then obtain er rows y where n: "new_entry p org mirrored_side now ls d er rows"
    and y: "y \<in> set (entries d)" "e_id y = je_id original" "e_org y = org"
    and d': "d' = d\<lparr>entries := JournalInvariant.set_status (je_id original) ''reversed'' (entries d) @ [er\<lparr>e_status := ''posted''\<rparr>],
               jlines := jlines d @ rows\<rparr>"
    by (rule reverse_txn_spec [OF t keys_okD(2) [OF k] keys_okD(1) [OF k] keys_okD(3) [OF k] ne])
  from foreign_set_status [OF keys_okD(1) [OF k] y(1,3), of "''reversed''"] rows_of_org [OF n] show ?thesis
    by (simp add: others_same_def d' y(2))
qed

lemma handler_others:
  assumes "journal_ok d" "ledger_handler p what rd gen now ctx c d \<noteq> d"
  shows "allows (oc_role ctx) kJournal kWrite \<and> others_same (oc_org ctx) d (ledger_handler p what rd gen now ctx c d)"
proof -
  have k: "keys_ok d" using assms(1) by (simp add: journal_ok_def)
  have w: "allows (oc_role ctx) kJournal kWrite" if "rbind (require_org_perm ctx kJournal kWrite) f = Inr (b :: 'b)" for f b
    using that by (auto simp: require_org_perm_def split: if_splits)
  show ?thesis
  proof (cases c)
    case (CreateEntry req)
    then obtain b ls e d' where "draft_request ctx req = Inr (b, ls)"
      "create_draft p rd gen now (oc_org ctx) (oc_user ctx) (text_of b ''entry_date'') (text_of b ''description'') ls d = Inr (e, d')"
      "ledger_handler p what rd gen now ctx c d = d'"
      using assms(2) by (auto simp: ledger_handler_def journal_create_def split: sum.splits prod.splits)
    then show ?thesis using create_draft_others [OF _ k]
      by (auto simp: draft_request_def require_org_perm_def split: if_splits)
  next
    case (PostEntry i)
    then obtain u r d' where "rbind (require_org_perm ctx kJournal kWrite) (\<lambda>_. entry_uuid i) = Inr u" "post p (oc_org ctx) i d = Inr (r, d')"
      "ledger_handler p what rd gen now ctx c d = d'"
      using assms(2) by (auto simp: ledger_handler_def journal_post_def split: sum.splits prod.splits option.splits)
    then show ?thesis using post_others [OF _ k] by (auto simp: require_org_perm_def split: if_splits)
  next
    case (ReverseEntry i)
    then obtain u r d' where "rbind (require_org_perm ctx kJournal kWrite) (\<lambda>_. entry_uuid i) = Inr u"
      "reverse_entry p gen now (oc_org ctx) i (oc_user ctx) d = Inr (r, d')" "ledger_handler p what rd gen now ctx c d = d'"
      using assms(2) by (auto simp: ledger_handler_def journal_reverse_def split: sum.splits prod.splits option.splits)
    then show ?thesis using reverse_others [OF _ assms(1)] by (auto simp: require_org_perm_def split: if_splits)
  qed
qed

lemma writers_of_the_journal: "allows role kJournal kWrite \<longleftrightarrow> role \<in> {''owner'', ''accountant'', ''agent''}"
proof (cases "role \<in> set kRoles")
  case True
  then have "role \<in> {''owner'', ''accountant'', ''hr'', ''viewer'', ''agent''}" by (simp add: kRoles_def)
  then show ?thesis
    by (elim insertE emptyE) (simp_all add: allows_def grant_for_def role_index_eval kRoles_def kMatrix_def row_def resource_names kRead_def kWrite_def)
qed (auto simp: allows_unknown_role kRoles_def)

text \<open>C2: The ledger is changed by the people of its organization only. From a correct state, in the mode of
tokens, a request to the journal that changes anything carries no API key but an access token signed with
the secret of the service, which has not expired and is not a refresh token; the subject of the token is,
in the database the check reads, a member of the organization the token names, as owner, accountant or
agent; and not one entry or line of another organization is added, removed or changed.\<close>

theorem ledger_is_changed_by_its_members:
  assumes "ledger_request e cfg up now hreq td mrd p what rd gen t c d = d'" "d' \<noteq> d" "journal_ok d"
    "auth_mode cfg = Jwt" "hr_method hreq \<noteq> ''OPTIONS''" "\<not> path_is_public (auth_public_paths cfg) (hr_path hreq)"
  shows "\<exists>(who :: AuthPrincipal) (m :: OrgMember). extract_key hreq = [] \<and>
     signed_with (auth e) (jwt_secret cfg) (extract_access_token hreq (cookies cfg)) (pr_claims who) \<and>
     (\<forall>x. member (pr_claims who) ''exp'' = Some (JInt x) \<longrightarrow> now \<le> x + jwt_leeway_sec cfg) \<and>
     member (pr_claims who) ''typ'' \<noteq> Some (JStr ''refresh'') \<and>
     claim_text (pr_claims who) ''sub'' = Inr (pr_subject who) \<and> claim_text (pr_claims who) ''org'' = Inr (pr_org who) \<and>
     m \<in> set (org_members mrd) \<and> mb_org m = pr_org who \<and> mb_user m = pr_subject who \<and>
     mb_role m \<in> {''owner'', ''accountant'', ''agent''} \<and> others_same (pr_org who) d d'"
proof -
  obtain v td' ctx where a: "auth_advice (auth e) cfg up now hreq td = (Pass v, td')" and r: "require_org mrd v = Inr ctx"
    and h: "ledger_handler p what rd gen t ctx c d = d'"
    using assms(1,2) by (auto simp: ledger_request_def split: prod.splits advice.splits sum.splits)
  from r obtain who m where v: "v = Some who" and ne: "pr_org who \<noteq> []" and m: "find_membership mrd (pr_org who) (pr_subject who) = Some m"
    and ctx: "ctx = \<lparr>oc_org = pr_org who, oc_user = pr_subject who, oc_role = mb_role m\<rparr>"
    by (auto simp: require_org_def org_context_of_def split: option.splits if_splits)
  from auth_advice_pass [OF a assms(4-6)] authenticate_keyD ne
  have k: "extract_key hreq = []" and j: "verify_jwt (auth e) cfg now (extract_access_token hreq (cookies cfg)) = Inr who"
    unfolding v by (metis option.inject)+
  have "m \<in> set (org_members mrd)" "mb_org m = pr_org who" "mb_user m = pr_subject who"
    using m by (auto simp: find_membership_def membership_of_def find_Some_iff)
  moreover from handler_others [OF assms(3), of p what rd gen t ctx c, unfolded h] assms(2)
  have "allows (mb_role m) kJournal kWrite" "others_same (pr_org who) d d'"
    by (simp_all add: ctx)
  ultimately show ?thesis using verify_jwtD [OF j] k
    by (intro exI [of _ who] exI [of _ m]) (simp add: writers_of_the_journal)
qed

definition demo_books :: db where
  "demo_books = demo_d0\<lparr>organizations := [''o1''], users := [''u1'']\<rparr>"

definition demo_sale_body :: json where
  "demo_sale_body =
     (let line = (\<lambda>code sd. object [(''account_code'', JStr code), (''side'', JStr sd), (''amount'', JStr ''100.00'')])
      in object [(''entry_date'', JStr ''2026-01-31''), (''description'', JStr ''sale''),
           (''lines'', JArr [line ''1010'' ''debit'', line ''6010'' ''credit''])])"

definition demo_cookie_request :: "string \<Rightarrow> http_request" where
  "demo_cookie_request token = \<lparr>hr_method = ''POST'', hr_path = ''/api/v1/journal-entries'', hr_header = (\<lambda>_. []),
     hr_cookie = (\<lambda>c. if c = ''a'' then token else []), hr_body_empty = False\<rparr>"

lemma demo_draft_request:
  "draft_request \<lparr>oc_org = ''o1'', oc_user = ''u1'', oc_role = ''owner''\<rparr> (Some demo_sale_body) = Inr (demo_sale_body, demo_lines)"
proof -
  have "is_valid_date ''2026-01-31''" by code_simp
  then show ?thesis
    by (simp add: draft_request_def parse_body_def require_org_perm_def writers_of_the_journal draft_shape_def demo_sale_body_def Let_def require_def
        present_def must_be_array_def must_be_string_def object_def text_of_def lines_of_body_def line_account_def get_text_def
        line_text_def line_counterparty_def line_vat_def demo_lines_def demo_line_def)
qed

lemma demo_entry_created:
  "\<exists>d'. ledger_handler pg_text (\<lambda>_. []) demo_books (demo_gen (CHR ''a'')) 0 \<lparr>oc_org = ''o1'', oc_user = ''u1'', oc_role = ''owner''\<rparr>
     (CreateEntry (Some demo_sale_body)) demo_books = d' \<and> d' \<noteq> demo_books"
proof -
  have t: "text_of demo_sale_body ''entry_date'' = ''2026-01-31''" "text_of demo_sale_body ''description'' = ''sale''"
    by (simp_all add: text_of_def demo_sale_body_def Let_def object_def)
  have "\<exists>e d'. create_draft pg_text demo_books (demo_gen (CHR ''a'')) 0 ''o1'' ''u1'' ''2026-01-31'' ''sale'' demo_lines demo_books = Inr (e, d') \<and>
     d' \<noteq> demo_books"
    by (simp add: create_draft_def demo_books_def demo_defs sql_defs parse_demo pg_text_demo demo_gen_simps in_ll_def find_visible_def
        JournalEntry_from_row_def JournalLine_from_row_def Let_def)
  then show ?thesis by (auto simp: ledger_handler_def journal_create_def demo_draft_request t)
qed

theorem ledger_is_changed_by_its_members_witness:
  "\<exists>token d'. ledger_request demo_account_env demo_auth True 1500 (demo_cookie_request token) demo_tenants demo_tenants pg_text (\<lambda>_. []) demo_books
       (demo_gen (CHR ''a'')) 0 (CreateEntry (Some demo_sale_body)) demo_books = d' \<and> d' \<noteq> demo_books \<and> others_same ''o1'' demo_books d'"
proof -
  let ?v = "(demo_user, Some demo_role)"
  obtain token where issued: "issue_hs256_jwt (auth demo_account_env) (session_claims demo_auth 1000 demo_tenants ?v) (jwt_secret demo_auth) = Some token"
    using demo_issue by auto
  let ?req = "demo_cookie_request token"
  have x: "extract_key ?req = []" "extract_access_token ?req (cookies demo_auth) = token" "hr_method ?req \<noteq> ''OPTIONS''"
    "auth_mode demo_auth = Jwt" "\<not> path_is_public (auth_public_paths demo_auth) (hr_path ?req)"
    using issued_nonempty [OF issued]
    by (simp_all add: extract_key_def extract_access_token_def demo_cookie_request_def key_after_def starts_with_def Let_def demo_auth_def path_is_public_def)
  have c: "access_claims_for demo_auth 1000 ?v ''o1'' (session_claims demo_auth 1000 demo_tenants ?v)"
    using session_claims_for [of demo_auth 1000 ?v demo_tenants] by (simp add: default_org_def demo_org)
  obtain q where q: "verify_jwt (auth demo_account_env) demo_auth 1500 token = Inr q" "pr_subject q = ''u1''" "pr_org q = ''o1''"
    using access_token_verifies(1) [OF demo_codec_faithful issued c, of 1500] by auto
  have adv: "auth_advice (auth demo_account_env) demo_auth True 1500 ?req demo_tenants = (Pass (Some q), demo_tenants)"
    using issued_nonempty [OF issued] x by (simp add: auth_advice_def q)
  have "find_membership demo_tenants ''o1'' ''u1'' = Some \<lparr>mb_id = ''m1'', mb_org = ''o1'', mb_user = ''u1'', mb_role = ''owner'', mb_created_at = 0\<rparr>"
    by (simp add: find_membership_def membership_of_def demo_tenants_def)
  then have org: "require_org demo_tenants (Some q) = Inr \<lparr>oc_org = ''o1'', oc_user = ''u1'', oc_role = ''owner''\<rparr>"
    by (simp add: require_org_def org_context_of_def q)
  obtain d' where d': "ledger_request demo_account_env demo_auth True 1500 ?req demo_tenants demo_tenants pg_text (\<lambda>_. []) demo_books
       (demo_gen (CHR ''a'')) 0 (CreateEntry (Some demo_sale_body)) demo_books = d'" "d' \<noteq> demo_books"
    using demo_entry_created by (auto simp: ledger_request_def adv org)
  have "journal_ok demo_books"
    by (simp add: journal_ok_def keys_ok_def balanced_def storno_ok_def status_ok_def demo_books_def demo_d0_def)
  from ledger_is_changed_by_its_members [OF d' this x(4,3,5)] obtain who :: AuthPrincipal and m :: OrgMember where
    "m \<in> set (org_members demo_tenants)" "mb_org m = pr_org who" "others_same (pr_org who) demo_books d'" by blast
  then show ?thesis using d' by (auto simp: demo_tenants_def)
qed

end
