(* ===== verification/Spec2Isabelle.thy ===== *)
theory Spec2Isabelle
  imports AmountInWords KzIdentifiers JournalProperties PayrollProperties DateText TaxProperties TaxForms
    AgentProperties JobsTracking DocumentProperties Base64 Idempotency RateLimit Directory PayrollApi AdminApi JournalApi
begin

text \<open>
  A verification development for Cyber Accountant, a multi-tenant accounting service for
  Kazakhstan in C++ (\<^verbatim>\<open>src/src\<close>) over PostgreSQL (\<^verbatim>\<open>src/migrations\<close>) and Redis.

  \<^bold>\<open>The program.\<close> Requests reach controllers (\<^verbatim>\<open>api/\<close>), which check the member's role, validate
  the body and call services and repositories. The journal (\<^verbatim>\<open>ledger/Journal*.hpp\<close>) is the core:
  drafts, posting, storno. Payroll (\<^verbatim>\<open>payroll/\<close>) and taxes (\<^verbatim>\<open>tax/\<close>) compute from it and post to it.
  Documents (\<^verbatim>\<open>ledger/Document*.hpp\<close>, \<^verbatim>\<open>docgen/\<close>) are versioned files that are rendered by jobs
  (\<^verbatim>\<open>jobs/\<close>) and linked to journal entries. An agent (\<^verbatim>\<open>agent/\<close>) lets a language model call tools
  within a policy. Every table is scoped to an organization (\<^verbatim>\<open>tenancy/\<close>).

  \<^bold>\<open>How state is modelled.\<close> The tables are records of row lists: \<open>db\<close> (\<open>LedgerStore\<close>), \<open>pay_db\<close>
  (\<open>Payroll\<close>), \<open>tax_ref\<close> (\<open>TaxService\<close>), \<open>doc_db\<close> (\<open>Documents\<close>), \<open>agent_db\<close> (\<open>AgentStore\<close>). A statement
  is a function from the state to an error or the new state, with the constraints and triggers of
  the migrations written out; a transaction is their composition and an error leaves the state as
  it was. Redis is the record \<open>redis\<close> (\<open>Redis\<close>) or \<open>idem_store\<close> (\<open>Idempotency\<close>) with an oracle for what
  becomes of each command: answered, lost, or executed and unanswered. C++ exceptions are values
  of error types; \<open>long long\<close> arithmetic is checked where the code can overflow, base64 works on
  32-bit words, amounts are integers of tiyn.

  \<^bold>\<open>The theories.\<close>
  \<^item> \<open>Prelude\<close>: shared lemmas and collections. \<open>CxxText\<close>, \<open>Json\<close>, \<open>Calendar\<close>: what the code uses of
    \<^verbatim>\<open>std::string\<close>, \<^verbatim>\<open>nlohmann::json\<close> and dates. \<open>Effects\<close>: programs that call out, with a logic of
    triples and the locale \<open>effect_order\<close>.
  \<^item> \<open>MoneyFormat\<close>, \<open>AmountInWords\<close>, \<open>Tiyn\<close>: \<^verbatim>\<open>money/\<close> and the decimal texts of \<^verbatim>\<open>JournalService\<close>. Amounts
    in words (two languages, one locale \<open>spoken_amount\<close>) read back to the amount.
  \<^item> \<open>KzIdentifiers\<close>, \<open>DateText\<close>, \<open>Strings\<close>, \<open>Base64\<close>: identifiers, date texts, string utilities and
    base64url, each against a reference definition.
  \<^item> \<open>OrgScoped\<close>, \<open>OrgPermissions\<close>: tenant-scoped reads as the locale \<open>org_repo\<close>, interpreted for each
    repository, and the matrix of rights.
  \<^item> \<open>LedgerStore\<close>, \<open>Journal\<close>, \<open>JournalInvariant\<close>, \<open>JournalProperties\<close>: the tables, the service, the
    invariant of reachable ledgers, and what it gives: double entry, immutability, one reversal,
    the mirror image of a storno, tenancy, overflow bounds.
  \<^item> \<open>PayrollCalculator\<close>, \<open>TaxReference\<close>, \<open>Employees\<close>, \<open>Payroll\<close>, \<open>PayrollProperties\<close>: rates, the
    calculation (exact, every tiyn accounted for), runs and their posting. The locale \<open>journal_intake\<close>
    is what payroll needs of the journal.
  \<^item> \<open>TaxCalendar\<close>, \<open>TaxService\<close>, \<open>TaxProperties\<close>, \<open>TaxForms\<close>: deadlines, calculations over the journal,
    the FNO sheets and their XML.
  \<^item> \<open>Http\<close>, \<open>Validation\<close>: replies, metric paths, body validation.
  \<^item> \<open>AgentPolicy\<close>, \<open>AgentStore\<close>, \<open>AgentRun\<close>, \<open>AgentProperties\<close>: the tool gate, its tables, the run loop,
    and the refinement of a monitor: an abstract guard that says which effects a run may have.
  \<^item> \<open>Redis\<close>, \<open>Jobs\<close>, \<open>JobsProperties\<close>, \<open>JobsTracking\<close>: the queue over commands that may fail; stored jobs
    decode under any faults, and no job is lost while Redis answers.
  \<^item> \<open>Documents\<close>, \<open>InputPolicy\<close>, \<open>RenderJob\<close>, \<open>DocumentsApi\<close>, \<open>DocumentProperties\<close>: the registry, which fields
    of an input the server writes, the render job, the endpoints, and the invariants of the
    registry running beside the journal.
  \<^item> \<open>Directory\<close>, \<open>PayrollApi\<close>: accounts and counterparties with their endpoints, whose states are reached
    by requests with reads from lagging replicas; the payroll endpoints, where printing a payslip joins
    payroll and documents.
  \<^item> \<open>Idempotency\<close>: the middleware of the \<^verbatim>\<open>Idempotency-Key\<close> header and its interleavings. \<open>RateLimit\<close>: the
    sliding window and its cap.

  \<^bold>\<open>Bounds and termination.\<close> Every function is total. Loops over data are structural or have a
  measure: the model loop of a run counts its remaining calls down, the day search of the tax
  calendar is bounded by the list of holidays it skips, period lists by the distance to their end,
  paths by their length. No definition uses fuel.

  \<^bold>\<open>Parameters.\<close> PostgreSQL's reading of decimal and date texts (\<open>pg\<close>), drawn UUIDs and \<open>now()\<close>,
  the replica a read may go to, the model and the tools of the agent (\<open>agent_env\<close>, \<open>surroundings\<close>), the
  typst renderer (\<open>render_env\<close>), template lookup, schema validation, presigning and object storage
  (\<open>api_env\<close>), SHA-256 and the JSON printer and parser (\<open>idem_env\<close>). What a theorem needs of them is
  among its premises, and its witness instantiates them.

  \<^bold>\<open>Not modelled.\<close> The HTTP framework and routing, connection pools, retries and metrics, the
  authentication stack (tokens, sessions, passwords), mail, the visual template editor and its
  compiler, S3 signatures, the agent's HTTP client and the front end. Timestamps are numbers, not
  texts; \<open>updated_at\<close> and the collation of text columns are left out; two transactions of one
  repository do not interleave inside a transaction.
\<close>

end
